(* ===== verification/Babar_Prelude.thy ===== *)
theory Babar_Prelude
  imports Main "HOL-Library.Word"
begin

text \<open>
  Shared vocabulary of the development: the types that stand for Rust's machine integers, byte
  buffers and strings, the result type with its propagation operator (Rust's question mark), the
  big-endian integer layouts, and the decimal and hexadecimal text forms of integers of Rust's
  standard library (\<open>FromStr\<close>, \<open>from_str_radix\<close>, \<open>Display\<close>).

  A Rust \<open>String\<close> or \<open>str\<close> is a HOL \<^typ>\<open>string\<close> whose characters are the UTF-8 bytes of the
  text, so that \<open>len\<close> is \<open>length\<close>; the validity of these bytes is the subject of theory \<open>Utf8\<close>.
\<close>

section \<open>Types\<close>

type_synonym byte = "8 word"
type_synonym bytes = "byte list"
type_synonym str = string
type_synonym u8 = "8 word"
type_synonym u16 = "16 word"
type_synonym u32 = "32 word"
type_synonym u64 = "64 word"
type_synonym i16 = "16 word"
type_synonym i32 = "32 word"
type_synonym i64 = "64 word"
type_synonym oid = "32 word"
type_synonym raw_row = "bytes option list"
type_synonym raw_rows = "raw_row list"

text \<open>
  Signed integers are words too; \<^const>\<open>sint\<close> reads their value. A \<open>usize\<close> (64 bits on the
  targets the crate supports) is a \<^typ>\<open>nat\<close>, with the bound written out where it matters.
\<close>

named_theorems result_simps \<open>rewriting of results and of their propagation\<close>
named_theorems wire_simps \<open>lengths and round trips of wire layouts\<close>

section \<open>Results\<close>

text \<open>
  A \<open>Result<T, E>\<close> is a value of \<open>'e + 'a\<close> with \<^const>\<open>Inl\<close> for \<open>Err\<close>. \<open>bindr\<close> is the question
  mark operator, \<open>map_err\<close>, \<open>ok_or\<close> and \<open>collect_r\<close> are the library functions of that name
  (\<open>collect\<close> into a \<open>Result<Vec<_>, _>\<close> stops at the first error).
\<close>

definition bindr :: "'e + 'a \<Rightarrow> ('a \<Rightarrow> 'e + 'b) \<Rightarrow> 'e + 'b" where
  "bindr m f = (case m of Inl e \<Rightarrow> Inl e | Inr a \<Rightarrow> f a)"

lemma bindr_Inl [simp, result_simps]: "bindr (Inl e) f = Inl e"
  by (simp add: bindr_def)

lemma bindr_Inr [simp, result_simps]: "bindr (Inr a) f = f a"
  by (simp add: bindr_def)

lemma bindr_eq_Inr_iff: "bindr m f = Inr b \<longleftrightarrow> (\<exists>a. m = Inr a \<and> f a = Inr b)"
  by (cases m) auto

lemma bindr_eq_Inl_iff: "bindr m f = Inl e \<longleftrightarrow> m = Inl e \<or> (\<exists>a. m = Inr a \<and> f a = Inl e)"
  by (cases m) auto

lemma bindr_InrE:
  assumes "bindr m f = Inr b"
  obtains a where "m = Inr a" and "f a = Inr b"
  using assms by (auto simp: bindr_eq_Inr_iff)

lemma bindr_cong [fundef_cong]:
  "m = m' \<Longrightarrow> (\<And>a. m' = Inr a \<Longrightarrow> f a = g a) \<Longrightarrow> bindr m f = bindr m' g"
  by (cases m') simp_all

definition map_err :: "('e \<Rightarrow> 'f) \<Rightarrow> 'e + 'a \<Rightarrow> 'f + 'a" where
  "map_err f m = (case m of Inl e \<Rightarrow> Inl (f e) | Inr a \<Rightarrow> Inr a)"

lemma map_err_simps [simp, result_simps]:
  "map_err f (Inl e) = Inl (f e)" "map_err f (Inr a) = Inr a"
  by (simp_all add: map_err_def)

lemma map_err_eq_Inr_iff [simp]: "map_err f m = Inr a \<longleftrightarrow> m = Inr a"
  by (cases m) auto

definition ok_or :: "'e \<Rightarrow> 'a option \<Rightarrow> 'e + 'a" where
  "ok_or e x = (case x of None \<Rightarrow> Inl e | Some a \<Rightarrow> Inr a)"

lemma ok_or_simps [simp, result_simps]:
  "ok_or e None = Inl e" "ok_or e (Some a) = Inr a"
  by (simp_all add: ok_or_def)

lemma ok_or_eq_Inr_iff [simp]: "ok_or e x = Inr a \<longleftrightarrow> x = Some a"
  by (cases x) auto

fun collect_r :: "('a \<Rightarrow> 'e + 'b) \<Rightarrow> 'a list \<Rightarrow> 'e + 'b list" where
  "collect_r f [] = Inr []"
| "collect_r f (x # xs) = bindr (f x) (\<lambda>y. bindr (collect_r f xs) (\<lambda>ys. Inr (y # ys)))"

lemma collect_r_eq_Inr_iff: "collect_r f xs = Inr ys \<longleftrightarrow> list_all2 (\<lambda>x y. f x = Inr y) xs ys"
proof (induction xs arbitrary: ys)
  case Nil
  then show ?case by (cases ys) auto
next
  case (Cons x xs)
  show ?case by (cases ys) (auto simp: bindr_eq_Inr_iff Cons.IH)
qed

lemma collect_r_map: "(\<And>x. x \<in> set xs \<Longrightarrow> f x = Inr (g x)) \<Longrightarrow> collect_r f xs = Inr (map g xs)"
  by (induction xs) auto

lemma collect_r_det:
  assumes "\<And>x y. x \<in> set xs \<Longrightarrow> f x = Inr y \<longleftrightarrow> P x \<and> y = g x"
  shows "collect_r f xs = Inr ys \<longleftrightarrow> (\<forall>x \<in> set xs. P x) \<and> ys = map g xs"
  using assms by (induction xs arbitrary: ys) (auto simp: bindr_eq_Inr_iff)

lemma collect_r_map_arg: "collect_r f (map h xs) = collect_r (\<lambda>x. f (h x)) xs"
  by (induction xs) auto

lemma collect_r_length: "collect_r f xs = Inr ys \<Longrightarrow> length ys = length xs"
  by (auto simp: collect_r_eq_Inr_iff dest: list_all2_lengthD)

lemma collect_r_cong [fundef_cong]:
  "xs = ys \<Longrightarrow> (\<And>x. x \<in> set ys \<Longrightarrow> f x = g x) \<Longrightarrow> collect_r f xs = collect_r g ys"
  by (induction xs arbitrary: ys) (auto intro!: bindr_cong)

section \<open>Stateful computations\<close>

text \<open>
  An \<open>async\<close> function that may fail, with its effects on a state \<open>'w\<close> written out. \<open>bindm\<close> sequences
  with the question mark operator: the first error ends the computation.
\<close>

definition ret :: "'a \<Rightarrow> 'w \<Rightarrow> ('e + 'a) \<times> 'w" where
  "ret a w = (Inr a, w)"

definition of_result :: "'e + 'a \<Rightarrow> 'w \<Rightarrow> ('e + 'a) \<times> 'w" where
  "of_result r w = (r, w)"

definition bindm ::
    "('w \<Rightarrow> ('e + 'a) \<times> 'w) \<Rightarrow> ('a \<Rightarrow> 'w \<Rightarrow> ('e + 'b) \<times> 'w) \<Rightarrow> 'w \<Rightarrow> ('e + 'b) \<times> 'w" where
  "bindm m f w = (case m w of (Inl e, w') \<Rightarrow> (Inl e, w') | (Inr a, w') \<Rightarrow> f a w')"

lemma bindm_eq_Inr_iff:
  "bindm m f w = (Inr b, w') \<longleftrightarrow> (\<exists>a w1. m w = (Inr a, w1) \<and> f a w1 = (Inr b, w'))"
  by (auto simp: bindm_def split: prod.splits sum.splits)

lemma bindm_cases:
  assumes "bindm m f w = (r, w')"
  obtains (err) e where "m w = (Inl e, w')" and "r = Inl e"
  | (ok) a w1 where "m w = (Inr a, w1)" and "f a w1 = (r, w')"
  using assms by (auto simp: bindm_def split: prod.splits sum.splits)

lemma of_result_eq: "of_result r w = (r', w') \<longleftrightarrow> r = r' \<and> w' = w"
  by (auto simp: of_result_def)

section \<open>Bytes and characters\<close>

definition as_bytes :: "str \<Rightarrow> bytes" where
  "as_bytes s = map of_char s"

definition bytes_str :: "bytes \<Rightarrow> str" where
  "bytes_str bs = map (\<lambda>b. char_of (unat b)) bs"

definition byte_of :: "char \<Rightarrow> byte" where
  "byte_of c = of_char c"

lemma unat_of_char [simp]: "unat (of_char c :: byte) = of_char c"
proof -
  have "unat (of_nat (of_char c) :: byte) = of_char c mod 256"
    by (simp add: unat_of_nat)
  then show ?thesis
    by (simp add: of_nat_of_char)
qed

lemma unat_lt: "unat (w :: 'a::len word) < 2 ^ LENGTH('a)"
  by (rule unsigned_less)

lemma of_char_char_of_byte [simp]: "of_char (char_of (unat (b :: byte))) = b"
proof -
  have "of_nat (of_char (char_of (unat b))) = (of_char (char_of (unat b)) :: byte)"
    by (rule of_nat_of_char)
  moreover have "unat b mod 256 = unat b"
    using unat_lt [of b] by simp
  ultimately show ?thesis
    by (metis of_char_of unsigned_of_nat word_unat_eq_iff take_bit_eq_mod unat_of_char)
qed

lemma bytes_str_as_bytes [simp, wire_simps]: "bytes_str (as_bytes s) = s"
  by (simp add: bytes_str_def as_bytes_def comp_def)

lemma as_bytes_bytes_str [simp, wire_simps]: "as_bytes (bytes_str bs) = bs"
  by (simp add: bytes_str_def as_bytes_def comp_def)

lemma length_as_bytes [simp, wire_simps]: "length (as_bytes s) = length s"
  by (simp add: as_bytes_def)

lemma length_bytes_str [simp, wire_simps]: "length (bytes_str bs) = length bs"
  by (simp add: bytes_str_def)

lemma as_bytes_append [simp]: "as_bytes (s @ t) = as_bytes s @ as_bytes t"
  by (simp add: as_bytes_def)

lemma as_bytes_Nil [simp]: "as_bytes [] = []"
  by (simp add: as_bytes_def)

lemma as_bytes_Cons [simp]: "as_bytes (c # s) = of_char c # as_bytes s"
  by (simp add: as_bytes_def)

lemma inj_as_bytes: "as_bytes s = as_bytes t \<longleftrightarrow> s = t"
  by (metis bytes_str_as_bytes)

section \<open>Big-endian integers\<close>

text \<open>
  \<open>be_bytes n w\<close> is Rust's \<open>to_be_bytes\<close> of an \<open>n\<close>-byte integer (\<open>put_u32\<close>, \<open>put_i16\<close> and their
  kin write the same bytes) and \<open>of_be\<close> is \<open>from_be_bytes\<close> (\<open>get_u32\<close>, \<open>get_i16\<close>): the most
  significant byte comes first.
\<close>

fun nat_bytes :: "nat \<Rightarrow> nat \<Rightarrow> bytes" where
  "nat_bytes 0 v = []"
| "nat_bytes (Suc n) v = of_nat (v div 256 ^ n) # nat_bytes n v"

fun be_nat_acc :: "nat \<Rightarrow> bytes \<Rightarrow> nat" where
  "be_nat_acc a [] = a"
| "be_nat_acc a (b # bs) = be_nat_acc (a * 256 + unat b) bs"

definition be_bytes :: "nat \<Rightarrow> 'a::len word \<Rightarrow> bytes" where
  "be_bytes n w = nat_bytes n (unat w)"

definition of_be :: "bytes \<Rightarrow> 'a::len word" where
  "of_be bs = of_nat (be_nat_acc 0 bs)"

lemma nat_bytes_4: "nat_bytes 4 n = [of_nat (n div 16777216), of_nat (n div 65536), of_nat (n div 256), of_nat n]"
proof -
  have four: "(4 :: nat) = Suc (Suc (Suc (Suc 0)))" by simp
  show ?thesis unfolding four by simp
qed

lemma length_nat_bytes [simp]: "length (nat_bytes n v) = n"
  by (induction n) simp_all

lemma length_be_bytes [simp, wire_simps]: "length (be_bytes n w) = n"
  by (simp add: be_bytes_def)

lemma be_nat_acc_shift: "be_nat_acc a bs = a * 256 ^ length bs + be_nat_acc 0 bs"
proof (induction bs arbitrary: a)
  case Nil
  then show ?case by simp
next
  case (Cons b bs)
  have "be_nat_acc a (b # bs) = (a * 256 + unat b) * 256 ^ length bs + be_nat_acc 0 bs"
    by (simp add: Cons.IH [of "a * 256 + unat b"])
  moreover have "be_nat_acc 0 (b # bs) = unat b * 256 ^ length bs + be_nat_acc 0 bs"
    by (simp add: Cons.IH [of "unat b"])
  ultimately show ?case by (simp add: algebra_simps)
qed

lemma be_nat_Cons: "be_nat_acc 0 (b # bs) = unat b * 256 ^ length bs + be_nat_acc 0 bs"
  using be_nat_acc_shift [of "unat b" bs] by simp

lemma unat_byte_lt [simp]: "unat (b :: byte) < 256"
  using unat_lt [of b] by simp

lemma be_nat_bound: "be_nat_acc 0 bs < 256 ^ length bs"
proof (induction bs)
  case Nil
  then show ?case by simp
next
  case (Cons b bs)
  have "unat b + 1 \<le> 256"
    using unat_byte_lt [of b] by linarith
  then have "(unat b + 1) * 256 ^ length bs \<le> 256 * 256 ^ length bs"
    by (rule mult_le_mono1)
  then have "unat b * 256 ^ length bs + 256 ^ length bs \<le> 256 * 256 ^ length bs"
    by (simp only: add_mult_distrib mult_1)
  with Cons.IH have "unat b * 256 ^ length bs + be_nat_acc 0 bs < 256 * 256 ^ length bs"
    by linarith
  then show ?case
    by (simp only: be_nat_Cons length_Cons power_Suc)
qed

lemma be_nat_nat_bytes: "be_nat_acc 0 (nat_bytes n v) = v mod 256 ^ n"
proof (induction n)
  case 0
  then show ?case by simp
next
  case (Suc n)
  have "be_nat_acc 0 (nat_bytes (Suc n) v) = (v div 256 ^ n) mod 256 * 256 ^ n + v mod 256 ^ n"
    by (simp add: be_nat_Cons Suc.IH unat_of_nat del: be_nat_acc.simps)
  also have "\<dots> = v mod 256 ^ Suc n"
    by (metis add.commute mod_mult2_eq mult.commute power_Suc2)
  finally show ?case .
qed

lemma nat_bytes_mod: "m \<le> k \<Longrightarrow> nat_bytes m (v mod 256 ^ k) = nat_bytes m v"
proof (induction m)
  case 0
  then show ?case by simp
next
  case (Suc m)
  then obtain d where d: "k = m + Suc d"
    using less_imp_Suc_add [of m k] by auto
  have "v mod 256 ^ k = 256 ^ m * (v div 256 ^ m mod 256 ^ Suc d) + v mod 256 ^ m"
    by (simp only: d power_add mod_mult2_eq)
  then have "v mod 256 ^ k div 256 ^ m = v div 256 ^ m mod 256 ^ Suc d"
    by simp
  moreover have "x mod 256 ^ Suc d mod 256 = x mod 256" for x :: nat
    by (rule mod_mod_cancel) simp
  ultimately have "(of_nat (v mod 256 ^ k div 256 ^ m) :: byte) = of_nat (v div 256 ^ m)"
    by (simp add: word_of_nat_eq_iff take_bit_eq_mod)
  with Suc show ?case by simp
qed

lemma nat_bytes_be_nat [simp]: "nat_bytes (length bs) (be_nat_acc 0 bs) = bs"
proof (induction bs)
  case Nil
  then show ?case by simp
next
  case (Cons b bs)
  have "be_nat_acc 0 (b # bs) div 256 ^ length bs = unat b"
    using be_nat_bound [of bs] by (simp add: be_nat_Cons del: be_nat_acc.simps)
  moreover have "nat_bytes (length bs) (be_nat_acc 0 (b # bs)) = bs"
    using nat_bytes_mod [of "length bs" "length bs" "be_nat_acc 0 (b # bs)"] be_nat_bound [of bs]
    by (simp add: be_nat_Cons Cons.IH del: be_nat_acc.simps)
  ultimately show ?case by simp
qed

lemma of_be_be_bytes: "LENGTH('a) \<le> 8 * n \<Longrightarrow> of_be (be_bytes n (w :: 'a::len word)) = w"
proof -
  assume "LENGTH('a) \<le> 8 * n"
  then have "(2 :: nat) ^ LENGTH('a) \<le> 2 ^ (8 * n)"
    by (intro power_increasing) simp_all
  then have "unat w < 256 ^ n"
    by (intro order_less_le_trans [OF unat_lt]) (simp add: power_mult)
  then show ?thesis
    by (simp add: of_be_def be_bytes_def be_nat_nat_bytes)
qed

lemma be_bytes_of_be:
  assumes "length bs = n" and "8 * n \<le> LENGTH('a)"
  shows "be_bytes n (of_be bs :: 'a::len word) = bs"
proof -
  have "be_nat_acc 0 bs < 2 ^ (8 * n)"
    using be_nat_bound [of bs] assms(1) by (simp add: power_mult)
  also have "\<dots> \<le> 2 ^ LENGTH('a)"
    using assms(2) by (intro power_increasing) simp_all
  finally have "unat (of_be bs :: 'a word) = be_nat_acc 0 bs"
    by (simp add: of_be_def unat_of_nat)
  with assms(1) show ?thesis
    by (auto simp: be_bytes_def)
qed

lemma of_be_be_bytes_16 [simp, wire_simps]: "of_be (be_bytes 2 (w :: 16 word)) = w"
  by (rule of_be_be_bytes) simp

lemma of_be_be_bytes_32 [simp, wire_simps]: "of_be (be_bytes 4 (w :: 32 word)) = w"
  by (rule of_be_be_bytes) simp

lemma of_be_be_bytes_64 [simp, wire_simps]: "of_be (be_bytes 8 (w :: 64 word)) = w"
  by (rule of_be_be_bytes) simp

end
