(* ===== verification/Rust_Text.thy ===== *)
theory Rust_Text
  imports Babar_Prelude
begin

text \<open>
  The parts of Rust's standard library on integers as text and on string slices that the crate
  uses: \<open>FromStr\<close> for the integer types and \<open>from_str_radix\<close> with their error kinds, \<open>Display\<close> of
  integers, two-digit lower-case hexadecimal, and \<open>strip_prefix\<close>, \<open>strip_suffix\<close>, \<open>split_once\<close>,
  \<open>split\<close>, \<open>contains\<close>, \<open>trim\<close>, \<open>lines\<close> and \<open>replace\<close> on UTF-8 bytes.
\<close>

section \<open>Integers as text\<close>

datatype parse_int_error = IntEmpty | InvalidDigit | PosOverflow | NegOverflow

primrec show_parse_int_error :: "parse_int_error \<Rightarrow> str" where
  "show_parse_int_error IntEmpty = ''cannot parse integer from empty string''"
| "show_parse_int_error InvalidDigit = ''invalid digit found in string''"
| "show_parse_int_error PosOverflow = ''number too large to fit in target type''"
| "show_parse_int_error NegOverflow = ''number too small to fit in target type''"

definition to_digit :: "nat \<Rightarrow> char \<Rightarrow> nat option" where
  "to_digit radix c =
     (let n = of_char c :: nat;
          d = (if 48 \<le> n \<and> n \<le> 57 then n - 48
               else if 97 \<le> n \<and> n \<le> 122 then n - 87
               else if 65 \<le> n \<and> n \<le> 90 then n - 55 else 255)
      in if d < radix then Some d else None)"

text \<open>
  The digit loop of \<open>from_str_radix\<close>: every character is first read as a digit, then the
  accumulated value is multiplied and the digit added (subtracted for a negative number) with an
  overflow check, so the error reported is that of the first offending character.
\<close>

fun parse_pos :: "nat \<Rightarrow> int \<Rightarrow> int \<Rightarrow> str \<Rightarrow> parse_int_error + int" where
  "parse_pos radix hi a [] = Inr a"
| "parse_pos radix hi a (c # cs) =
     (case to_digit radix c of
        None \<Rightarrow> Inl InvalidDigit
      | Some d \<Rightarrow>
          (if a * int radix > hi \<or> a * int radix + int d > hi then Inl PosOverflow
           else parse_pos radix hi (a * int radix + int d) cs))"

fun parse_neg :: "nat \<Rightarrow> int \<Rightarrow> int \<Rightarrow> str \<Rightarrow> parse_int_error + int" where
  "parse_neg radix lo a [] = Inr a"
| "parse_neg radix lo a (c # cs) =
     (case to_digit radix c of
        None \<Rightarrow> Inl InvalidDigit
      | Some d \<Rightarrow>
          (if a * int radix < lo \<or> a * int radix - int d < lo then Inl NegOverflow
           else parse_neg radix lo (a * int radix - int d) cs))"

definition from_str_radix :: "bool \<Rightarrow> int \<Rightarrow> int \<Rightarrow> nat \<Rightarrow> str \<Rightarrow> parse_int_error + int" where
  "from_str_radix sg lo hi radix s =
     (case s of
        [] \<Rightarrow> Inl IntEmpty
      | c # cs \<Rightarrow>
          (if cs = [] \<and> (c = CHR ''+'' \<or> c = CHR ''-'') then Inl InvalidDigit
           else if c = CHR ''+'' then parse_pos radix hi 0 cs
           else if c = CHR ''-'' \<and> sg then parse_neg radix lo 0 cs
           else parse_pos radix hi 0 s))"

definition parse_u64 :: "str \<Rightarrow> parse_int_error + u64" where
  "parse_u64 s = map_sum id word_of_int (from_str_radix False 0 (2 ^ 64 - 1) 10 s)"

definition parse_u32 :: "str \<Rightarrow> parse_int_error + u32" where
  "parse_u32 s = map_sum id word_of_int (from_str_radix False 0 (2 ^ 32 - 1) 10 s)"

definition parse_usize :: "str \<Rightarrow> parse_int_error + nat" where
  "parse_usize s = map_sum id nat (from_str_radix False 0 (2 ^ 64 - 1) 10 s)"

definition parse_u8_hex :: "str \<Rightarrow> parse_int_error + u8" where
  "parse_u8_hex s = map_sum id word_of_int (from_str_radix False 0 255 16 s)"

definition parse_i16 :: "str \<Rightarrow> parse_int_error + i16" where
  "parse_i16 s = map_sum id word_of_int (from_str_radix True (- (2 ^ 15)) (2 ^ 15 - 1) 10 s)"

definition parse_i32 :: "str \<Rightarrow> parse_int_error + i32" where
  "parse_i32 s = map_sum id word_of_int (from_str_radix True (- (2 ^ 31)) (2 ^ 31 - 1) 10 s)"

definition parse_i64 :: "str \<Rightarrow> parse_int_error + i64" where
  "parse_i64 s = map_sum id word_of_int (from_str_radix True (- (2 ^ 63)) (2 ^ 63 - 1) 10 s)"

definition digit_char :: "nat \<Rightarrow> char" where
  "digit_char d = char_of (if d < 10 then 48 + d else 87 + d)"

fun show_nat :: "nat \<Rightarrow> str" where
  "show_nat n = (if n < 10 then [digit_char n] else show_nat (n div 10) @ [digit_char (n mod 10)])"

declare show_nat.simps [simp del]

definition show_int :: "int \<Rightarrow> str" where
  "show_int i = (if i < 0 then CHR ''-'' # show_nat (nat (- i)) else show_nat (nat i))"

definition hex2 :: "byte \<Rightarrow> str" where
  "hex2 b = [digit_char (unat b div 16), digit_char (unat b mod 16)]"

lemma of_char_digit_char: "d < 16 \<Longrightarrow> of_char (digit_char d) = (if d < 10 then 48 + d else 87 + d)"
  by (simp add: digit_char_def)

lemma to_digit_digit_char [simp]: "d < radix \<Longrightarrow> radix \<le> 16 \<Longrightarrow> to_digit radix (digit_char d) = Some d"
  by (simp add: to_digit_def of_char_digit_char)

lemma show_nat_nonempty [simp]: "show_nat n \<noteq> []"
  by (subst show_nat.simps) simp

lemma show_nat_digits: "c \<in> set (show_nat n) \<Longrightarrow> \<exists>d < 10. c = digit_char d"
proof (induction n rule: show_nat.induct)
  case (1 n)
  have "\<exists>d < 10. digit_char (n mod 10) = digit_char d"
    by (rule exI [of _ "n mod 10"]) simp
  with 1 show ?case
    by (subst (asm) (2) show_nat.simps) (auto split: if_splits)
qed

lemma digit_char_inj: "d < 16 \<Longrightarrow> e < 16 \<Longrightarrow> digit_char d = digit_char e \<longleftrightarrow> d = e"
  by (metis order_refl option.inject to_digit_digit_char)

lemma parse_pos_append:
  "parse_pos radix hi a (xs @ ys) = bindr (parse_pos radix hi a xs) (\<lambda>b. parse_pos radix hi b ys)"
  by (induction radix hi a xs rule: parse_pos.induct) (auto split: option.splits)

lemma parse_pos_show_nat: "int n \<le> hi \<Longrightarrow> parse_pos 10 hi 0 (show_nat n) = Inr (int n)"
proof (induction n rule: show_nat.induct)
  case (1 n)
  show ?case
  proof (cases "n < 10")
    case True
    with "1.prems" show ?thesis by (subst show_nat.simps) simp
  next
    case False
    have "int (n div 10) \<le> hi" using "1.prems" by linarith
    with False "1.IH" have IH: "parse_pos 10 hi 0 (show_nat (n div 10)) = Inr (int (n div 10))"
      by simp
    have eq: "int (n div 10) * 10 + int (n mod 10) = int n"
      by presburger
    have "int (n div 10) * 10 \<le> int n"
      by presburger
    with False IH eq "1.prems" show ?thesis
      by (subst show_nat.simps) (simp add: parse_pos_append)
  qed
qed

lemma from_str_radix_show_nat:
  "int n \<le> hi \<Longrightarrow> from_str_radix sg lo hi 10 (show_nat n) = Inr (int n)"
proof -
  assume hi: "int n \<le> hi"
  obtain c cs where c: "show_nat n = c # cs"
    by (cases "show_nat n") auto
  then obtain d where d: "d < 10" "c = digit_char d"
    using show_nat_digits [of c n] by auto
  have "c \<noteq> CHR ''+''" "c \<noteq> CHR ''-''"
    using d by (auto simp: digit_char_def char_of_eq_iff take_bit_eq_mod)
  with c parse_pos_show_nat [OF hi] show ?thesis
    by (simp add: from_str_radix_def)
qed

lemma parse_neg_append:
  "parse_neg radix lo a (xs @ ys) = bindr (parse_neg radix lo a xs) (\<lambda>b. parse_neg radix lo b ys)"
  by (induction radix lo a xs rule: parse_neg.induct) (auto split: option.splits)

lemma parse_neg_show_nat: "lo \<le> - int n \<Longrightarrow> parse_neg 10 lo 0 (show_nat n) = Inr (- int n)"
proof (induction n rule: show_nat.induct)
  case (1 n)
  show ?case
  proof (cases "n < 10")
    case True
    with "1.prems" show ?thesis by (subst show_nat.simps) simp
  next
    case False
    have "lo \<le> - int (n div 10)" using "1.prems" by linarith
    with False "1.IH" have IH: "parse_neg 10 lo 0 (show_nat (n div 10)) = Inr (- int (n div 10))"
      by simp
    have eq: "- int (n div 10) * 10 - int (n mod 10) = - int n"
      by presburger
    have "- int n \<le> - int (n div 10) * 10"
      by presburger
    with False IH eq "1.prems" show ?thesis
      by (subst show_nat.simps) (simp add: parse_neg_append)
  qed
qed

lemma from_str_radix_show_int:
  assumes "lo \<le> i" and "i \<le> hi"
  shows "from_str_radix True lo hi 10 (show_int i) = Inr i"
proof (cases "i < 0")
  case True
  with assms parse_neg_show_nat [of lo "nat (- i)"] show ?thesis
    by (simp add: show_int_def from_str_radix_def)
next
  case False
  with assms from_str_radix_show_nat [of "nat i" hi True lo] show ?thesis
    by (simp add: show_int_def)
qed

lemma parse_i32_show [simp]: "parse_i32 (show_int (sint w)) = Inr w"
  using from_str_radix_show_int [of "- (2 ^ 31)" "sint w" "2 ^ 31 - 1"] sint_greater_eq [of w] sint_less [of w]
  by (simp add: parse_i32_def)

lemma parse_u64_show [simp]: "parse_u64 (show_nat (unat w)) = Inr w"
proof -
  have "unat w < 18446744073709551616" using unat_lt [of w] by simp
  then have "int (unat w) \<le> 18446744073709551615" by presburger
  from from_str_radix_show_nat [OF this] show ?thesis
    by (simp add: parse_u64_def)
qed

lemma parse_u32_show: "parse_u32 (show_nat (unat i)) = Inr i"
proof -
  have "unat i < 4294967296" using unat_lt [of i] by simp
  then have "int (unat i) \<le> 4294967295" by presburger
  from from_str_radix_show_nat [OF this] show ?thesis by (simp add: parse_u32_def)
qed

lemma parse_u8_hex_hex2 [simp]: "parse_u8_hex (hex2 b) = Inr b"
proof -
  define h l where "h = unat b div 16" and "l = unat b mod 16"
  have hl: "h < 16" "l < 16" "h * 16 + l = unat b"
    using unat_byte_lt [of b] by (auto simp: h_def l_def less_mult_imp_div_less)
  have ne: "digit_char h \<noteq> CHR ''+''" "digit_char h \<noteq> CHR ''-''"
    using hl(1) by (auto simp: digit_char_def char_of_eq_iff take_bit_eq_mod split: if_splits)
  have "int h * 16 + int l = int (unat b)"
    using hl(3) by presburger
  moreover have "int (unat b) \<le> 255"
    using unat_byte_lt [of b] by linarith
  ultimately have "parse_pos 16 255 0 [digit_char h, digit_char l] = Inr (int (unat b))"
    using hl(1,2) by auto
  with ne show ?thesis
    by (simp add: parse_u8_hex_def from_str_radix_def hex2_def flip: h_def l_def)
qed

section \<open>String slices\<close>

definition strip_prefix :: "'a list \<Rightarrow> 'a list \<Rightarrow> 'a list option" where
  "strip_prefix p s = (if take (length p) s = p then Some (drop (length p) s) else None)"

definition strip_suffix :: "'a list \<Rightarrow> 'a list \<Rightarrow> 'a list option" where
  "strip_suffix p s =
     (if length p \<le> length s \<and> drop (length s - length p) s = p
      then Some (take (length s - length p) s) else None)"

fun split_once :: "'a list \<Rightarrow> 'a list \<Rightarrow> ('a list \<times> 'a list) option" where
  "split_once p [] = (if p = [] then Some ([], []) else None)"
| "split_once p (x # xs) =
     (if take (length p) (x # xs) = p then Some ([], drop (length p) (x # xs))
      else map_option (\<lambda>(a, b). (x # a, b)) (split_once p xs))"

definition contains :: "'a list \<Rightarrow> 'a list \<Rightarrow> bool" where
  "contains p s = (split_once p s \<noteq> None)"

fun split_on :: "'a \<Rightarrow> 'a list \<Rightarrow> 'a list list" where
  "split_on c [] = [[]]"
| "split_on c (x # xs) =
     (if x = c then [] # split_on c xs
      else (case split_on c xs of [] \<Rightarrow> [[x]] | p # ps \<Rightarrow> (x # p) # ps))"

definition replace_char :: "char \<Rightarrow> str \<Rightarrow> str \<Rightarrow> str" where
  "replace_char c r s = concat (map (\<lambda>x. if x = c then r else [x]) s)"

lemma strip_prefix_append [simp]: "strip_prefix p (p @ s) = Some s"
  by (simp add: strip_prefix_def)

lemma strip_prefix_eq_Some_iff: "strip_prefix p s = Some t \<longleftrightarrow> s = p @ t"
  by (auto simp: strip_prefix_def) (metis append_take_drop_id)

lemma strip_suffix_append [simp]: "strip_suffix p (s @ p) = Some s"
  by (simp add: strip_suffix_def)

lemma strip_suffix_eq_Some_iff: "strip_suffix p s = Some t \<longleftrightarrow> s = t @ p"
  by (auto simp: strip_suffix_def) (metis append_take_drop_id)

lemma strip_suffix_None_iff: "strip_suffix p s = None \<longleftrightarrow> (\<forall>t. s \<noteq> t @ p)"
  by (metis not_None_eq strip_suffix_eq_Some_iff)

lemma split_once_Some: "split_once p s = Some (a, b) \<Longrightarrow> s = a @ p @ b"
proof (induction p s arbitrary: a rule: split_once.induct)
  case (1 p)
  then show ?case by (auto split: if_splits)
next
  case (2 p x xs)
  show ?case
  proof (cases "take (length p) (x # xs) = p")
    case True
    with "2.prems" have "a = []" "b = drop (length p) (x # xs)" by auto
    with True show ?thesis
      by (metis append_Nil append_take_drop_id)
  next
    case False
    with "2.prems" obtain a' where "a = x # a'" "split_once p xs = Some (a', b)"
      by auto
    with "2.IH" [OF False] show ?thesis by simp
  qed
qed

lemma split_once_append:
  assumes "p \<noteq> []" and "\<And>c. c \<in> set a \<Longrightarrow> c \<noteq> hd p"
  shows "split_once p (a @ p @ b) = Some (a, b)"
  using assms(2)
proof (induction a)
  case Nil
  then show ?case using assms(1) by (cases p) auto
next
  case (Cons x a)
  from Cons.prems have "x \<noteq> hd p" by simp
  then have "take (length p) (x # a @ p @ b) \<noteq> p"
    using assms(1) by (cases p) auto
  with Cons show ?case by simp
qed

lemma contains_iff: "contains p s \<longleftrightarrow> (\<exists>a b. s = a @ p @ b)"
proof
  assume "contains p s"
  then show "\<exists>a b. s = a @ p @ b"
    by (auto simp: contains_def dest: split_once_Some)
next
  have "split_once p (a @ p @ b) \<noteq> None" for a b
  proof (induction a)
    case Nil
    have "take (length p) (p @ b) = p" by simp
    then show ?case by (cases "p @ b") (auto simp del: take_append)
  next
    case (Cons x a)
    then show ?case by auto
  qed
  moreover assume "\<exists>a b. s = a @ p @ b"
  ultimately show "contains p s" by (auto simp: contains_def)
qed

lemma split_on_nonempty [simp]: "split_on c s \<noteq> []"
  by (cases s) (auto split: list.splits)

lemma split_on_no_sep: "c \<notin> set s \<Longrightarrow> split_on c s = [s]"
  by (induction s) auto

lemma split_on_append_sep: "c \<notin> set s \<Longrightarrow> split_on c (s @ c # t) = s # split_on c t"
  by (induction s) auto

text \<open>
  \<open>trim\<close> removes characters with the Unicode property White\_Space at both ends. On UTF-8 bytes
  these are the ASCII bytes 9 to 13 and 32 and a fixed list of two- and three-byte sequences.
\<close>

definition ws_codes :: "nat list list" where
  "ws_codes =
     map (\<lambda>n. [n]) [9, 10, 11, 12, 13, 32] @
     [[194, 133], [194, 160], [225, 154, 128]] @
     map (\<lambda>n. [226, 128, n]) ([128..<139] @ [168, 169, 175]) @
     [[226, 129, 159], [227, 128, 128]]"

definition ws_seqs :: "str list" where
  "ws_seqs = map (map char_of) ws_codes"

definition ws_width :: "str list \<Rightarrow> str \<Rightarrow> nat" where
  "ws_width seqs s =
     (case List.find (\<lambda>w. take (length w) s = w) seqs of None \<Rightarrow> 0 | Some w \<Rightarrow> length w)"

function trim_with :: "str list \<Rightarrow> str \<Rightarrow> str" where
  "trim_with seqs s =
     (let n = ws_width seqs s in if n = 0 \<or> s = [] then s else trim_with seqs (drop n s))"
  by pat_completeness auto
termination
  by (relation "measure (\<lambda>(seqs, s). length s)") auto

declare trim_with.simps [simp del]

definition trim_start :: "str \<Rightarrow> str" where
  "trim_start s = trim_with ws_seqs s"

definition trim_end :: "str \<Rightarrow> str" where
  "trim_end s = rev (trim_with (map rev ws_seqs) (rev s))"

definition trim :: "str \<Rightarrow> str" where
  "trim s = trim_end (trim_start s)"

text \<open>
  \<open>lines\<close> splits at line feeds, drops an empty last piece, and removes one carriage return before
  each line feed; a carriage return at the end of an unterminated last line stays.
\<close>

definition lf :: char where "lf = char_of (10 :: nat)"
definition cr :: char where "cr = char_of (13 :: nat)"

definition chomp_cr :: "str \<Rightarrow> str" where
  "chomp_cr l = (case strip_suffix [cr] l of None \<Rightarrow> l | Some l' \<Rightarrow> l')"

definition lines :: "str \<Rightarrow> str list" where
  "lines s =
     (let ps = split_on lf s
      in map chomp_cr (butlast ps) @ (if last ps = [] then [] else [last ps]))"

text \<open>
  \<open>Debug\<close> of a string: quotes around it and backslash escapes for the quote, the backslash, the
  usual control characters and, as a code in braces, the other ASCII control characters. Bytes
  above 127 are kept, as the library does for printable characters.
\<close>

fun show_hex :: "nat \<Rightarrow> str" where
  "show_hex n = (if n < 16 then [digit_char n] else show_hex (n div 16) @ [digit_char (n mod 16)])"

declare show_hex.simps [simp del]

definition bslash :: char where "bslash = char_of (92 :: nat)"
definition dquote :: char where "dquote = char_of (34 :: nat)"
definition squote :: char where "squote = char_of (39 :: nat)"

definition debug_char :: "char \<Rightarrow> str" where
  "debug_char c =
     (if c = dquote then [bslash, dquote] else if c = bslash then [bslash, bslash]
      else if c = lf then [bslash, CHR ''n''] else if c = cr then [bslash, CHR ''r'']
      else if c = char_of (9 :: nat) then [bslash, CHR ''t'']
      else if c = char_of (0 :: nat) then [bslash, CHR ''0'']
      else if (of_char c :: nat) < 32 \<or> (of_char c :: nat) = 127
      then [bslash, CHR ''u'', CHR ''{''] @ show_hex (of_char c) @ [CHR ''}''] else [c])"

definition debug_str :: "str \<Rightarrow> str" where
  "debug_str s = [dquote] @ concat (map debug_char s) @ [dquote]"

lemma trim_with_id: "ws_width seqs s = 0 \<Longrightarrow> trim_with seqs s = s"
  by (subst trim_with.simps) simp

section \<open>Words\<close>

text \<open>\<open>split_whitespace\<close>: the maximal runs of characters that are not white space.\<close>

fun next_word :: "str \<Rightarrow> str \<times> str" where
  "next_word [] = ([], [])"
| "next_word (c # cs) =
     (if ws_width ws_seqs (c # cs) > 0 then ([], c # cs)
      else (let (w, r) = next_word cs in (c # w, r)))"

lemma next_word_length: "length (snd (next_word s)) \<le> length s"
  by (induction s) (auto simp: Let_def split: prod.split)

function split_whitespace :: "str \<Rightarrow> str list" where
  "split_whitespace [] = []"
| "split_whitespace (c # cs) =
     (let n = ws_width ws_seqs (c # cs)
      in if n > 0 then split_whitespace (drop (n - 1) cs)
         else (c # fst (next_word cs)) # split_whitespace (snd (next_word cs)))"
  by pat_completeness auto
termination
  by (relation "measure length") (auto simp: next_word_length le_imp_less_Suc)

declare split_whitespace.simps(2) [simp del]

definition space_char :: char where "space_char = char_of (32 :: nat)"

definition ws_starts :: "char list" where
  "ws_starts = map hd ws_seqs"

lemma ws_width_not_start: "c \<notin> set ws_starts \<Longrightarrow> ws_width ws_seqs (c # cs) = 0"
proof -
  assume c: "c \<notin> set ws_starts"
  have "\<forall>w \<in> set ws_seqs. w \<noteq> []" by (simp add: ws_seqs_def ws_codes_def)
  with c have "\<forall>w \<in> set ws_seqs. take (length w) (c # cs) \<noteq> w"
    by (auto simp: ws_starts_def) (metis hd_Cons_tl image_eqI list.sel(1) length_greater_0_conv take_Cons' hd_take)
  then have "List.find (\<lambda>w. take (length w) (c # cs) = w) ws_seqs = None"
    by (auto simp: find_None_iff)
  then show ?thesis by (simp add: ws_width_def)
qed

lemma ws_width_sp: "ws_width ws_seqs (space_char # cs) = 1"
  by (simp add: ws_width_def ws_seqs_def ws_codes_def space_char_def)

lemma ws_width_SomeD:
  assumes "ws_width ws_seqs s > 0"
  shows "take (ws_width ws_seqs s) s \<in> set ws_seqs \<and> ws_width ws_seqs s \<le> length s"
proof -
  from assms obtain w where w: "List.find (\<lambda>w. take (length w) s = w) ws_seqs = Some w"
    "ws_width ws_seqs s = length w"
    by (auto simp: ws_width_def split: option.splits)
  from w(1) have "w \<in> set ws_seqs" "take (length w) s = w"
    by (auto simp: find_Some_iff)
  with w(2) show ?thesis by (metis length_take min.cobounded2 min.commute)
qed

lemma ws_width_before_sp:
  assumes "v \<noteq> []" shows "ws_width ws_seqs (v @ space_char # cs) \<le> length v"
proof (rule ccontr)
  let ?k = "ws_width ws_seqs (v @ space_char # cs)"
  assume "\<not> ?k \<le> length v"
  then have k: "length v < ?k" by simp
  then have seq: "take ?k (v @ space_char # cs) \<in> set ws_seqs"
    using ws_width_SomeD [of "v @ space_char # cs"] by simp
  have "take ?k (v @ space_char # cs) = v @ space_char # take (?k - length v - 1) cs"
    using k by (cases "?k - length v") auto
  with assms have "space_char \<in> set (tl (take ?k (v @ space_char # cs)))" by (cases v) auto
  moreover have "\<forall>w \<in> set ws_seqs. space_char \<notin> set (tl w)"
    by (simp add: ws_seqs_def ws_codes_def space_char_def)
  ultimately show False using seq by blast
qed

lemma next_word_before_sp: "\<exists>v1 v2. v = v1 @ v2 \<and> next_word (v @ space_char # w) = (v1, v2 @ space_char # w)"
proof (induction v)
  case Nil
  show ?case by (simp add: ws_width_sp)
next
  case (Cons c v)
  then obtain v1 v2 where "v = v1 @ v2" "next_word (v @ space_char # w) = (v1, v2 @ space_char # w)" by blast
  then show ?case
    by (cases "ws_width ws_seqs (c # v @ space_char # w) > 0")
      (auto intro: exI [of _ "[]"] exI [of _ "c # v1"])
qed

lemma next_word_solid: "set w \<inter> set ws_starts = {} \<Longrightarrow> next_word w = (w, [])"
  by (induction w) (auto simp: ws_width_not_start)

text \<open>Whatever comes before it, the text after the last space is the last word.\<close>

lemma last_word_after_sp:
  assumes "w \<noteq> []" and "set w \<inter> set ws_starts = {}"
  shows "\<exists>ws. split_whitespace (v @ space_char # w) = ws @ [w]"
proof (induction "length v" arbitrary: v rule: less_induct)
  case less
  show ?case
  proof (cases v)
    case Nil
    from assms have "split_whitespace w = [w]"
      by (cases w) (auto simp: split_whitespace.simps(2) ws_width_not_start next_word_solid)
    then show ?thesis by (simp add: Nil split_whitespace.simps(2) ws_width_sp)
  next
    case (Cons c cs)
    let ?k = "ws_width ws_seqs (c # cs @ space_char # w)"
    show ?thesis
    proof (cases "?k > 0")
      case True
      moreover have "?k \<le> Suc (length cs)"
        using ws_width_before_sp [of "c # cs" w] by simp
      ultimately have "split_whitespace (v @ space_char # w) = split_whitespace (drop (?k - 1) cs @ space_char # w)"
        by (simp add: Cons split_whitespace.simps(2) Let_def)
      with less [of "drop (?k - 1) cs"] Cons show ?thesis by simp
    next
      case False
      obtain v1 v2 where "cs = v1 @ v2" "next_word (cs @ space_char # w) = (v1, v2 @ space_char # w)"
        using next_word_before_sp by blast
      with False have "split_whitespace (v @ space_char # w) = (c # v1) # split_whitespace (v2 @ space_char # w)"
        by (simp add: Cons split_whitespace.simps(2))
      moreover obtain ws where "split_whitespace (v2 @ space_char # w) = ws @ [w]"
        using less [of v2] Cons \<open>cs = v1 @ v2\<close> by auto
      ultimately show ?thesis by (metis append_Cons)
    qed
  qed
qed

lemma show_nat_not_ws: "set (show_nat n) \<inter> set ws_starts = {}"
proof -
  have "list_all (\<lambda>d. digit_char d \<notin> set ws_starts) [0..<10]" by code_simp
  then show ?thesis by (auto simp: list_all_iff dest!: show_nat_digits)
qed

end
