(* ===== verification/Utf8.thy ===== *)
theory Utf8
  imports Rust_Text
begin

text \<open>
  UTF-8 validation of byte slices as \<open>std::str::from_utf8\<close> performs it, with the position and
  length that its error reports. The component theories use \<open>from_utf8\<close> and the facts that valid
  texts are closed under concatenation and that ASCII text is valid.
\<close>

record utf8_error =
  valid_up_to :: nat
  error_len :: "nat option"

definition in_range :: "nat \<Rightarrow> nat \<Rightarrow> byte \<Rightarrow> bool" where
  "in_range lo hi b = (lo \<le> unat b \<and> unat b \<le> hi)"

definition is_cont :: "byte \<Rightarrow> bool" where
  "is_cont b = in_range 128 191 b"

definition utf8_char_width :: "byte \<Rightarrow> nat" where
  "utf8_char_width b =
     (if unat b < 128 then 1 else if in_range 194 223 b then 2
      else if in_range 224 239 b then 3 else if in_range 240 244 b then 4 else 0)"

definition second_ok :: "byte \<Rightarrow> byte \<Rightarrow> bool" where
  "second_ok b c =
     (if unat b = 224 then in_range 160 191 c
      else if unat b = 237 then in_range 128 159 c
      else if unat b = 240 then in_range 144 191 c
      else if unat b = 244 then in_range 128 143 c
      else is_cont c)"

text \<open>
  One character: its width, or the \<open>error_len\<close> of the error (\<^const>\<open>None\<close> when the input ends in
  the middle of a character).
\<close>

fun tail_ok :: "nat \<Rightarrow> nat \<Rightarrow> bytes \<Rightarrow> nat option + unit" where
  "tail_ok 0 k bs = Inr ()"
| "tail_ok (Suc n) k [] = Inl None"
| "tail_ok (Suc n) k (c # bs) = (if is_cont c then tail_ok n (Suc k) bs else Inl (Some k))"

definition utf8_next :: "byte \<Rightarrow> bytes \<Rightarrow> nat option + nat" where
  "utf8_next b bs =
     (let w = utf8_char_width b
      in if w = 0 then Inl (Some 1)
         else if w = 1 then Inr 1
         else (case bs of
                 [] \<Rightarrow> Inl None
               | c # cs \<Rightarrow>
                   (if \<not> second_ok b c then Inl (Some 1)
                    else bindr (tail_ok (w - 2) 2 cs) (\<lambda>_. Inr w))))"

lemma utf8_next_pos: "utf8_next b bs = Inr n \<Longrightarrow> 0 < n"
  by (auto simp: utf8_next_def Let_def bindr_eq_Inr_iff split: if_splits list.splits)

function utf8_validate :: "nat \<Rightarrow> bytes \<Rightarrow> utf8_error + unit" where
  "utf8_validate i [] = Inr ()"
| "utf8_validate i (b # bs) =
     (case utf8_next b bs of
        Inl e \<Rightarrow> Inl \<lparr>valid_up_to = i, error_len = e\<rparr>
      | Inr n \<Rightarrow> utf8_validate (i + n) (drop n (b # bs)))"
  by pat_completeness auto
termination
  by (relation "measure (\<lambda>(i, bs). length bs)") (auto dest: utf8_next_pos)

definition show_utf8_error :: "utf8_error \<Rightarrow> str" where
  "show_utf8_error e =
     (case error_len e of
        Some n \<Rightarrow> ''invalid utf-8 sequence of '' @ show_nat n @ '' bytes from index '' @
                  show_nat (valid_up_to e)
      | None \<Rightarrow> ''incomplete utf-8 byte sequence from index '' @ show_nat (valid_up_to e))"

definition from_utf8 :: "bytes \<Rightarrow> utf8_error + str" where
  "from_utf8 bs = bindr (utf8_validate 0 bs) (\<lambda>_. Inr (bytes_str bs))"

definition valid_utf8 :: "bytes \<Rightarrow> bool" where
  "valid_utf8 bs = (utf8_validate 0 bs = Inr ())"

definition valid_str :: "str \<Rightarrow> bool" where
  "valid_str s = valid_utf8 (as_bytes s)"

lemma utf8_validate_shift: "utf8_validate i bs = Inr () \<longleftrightarrow> utf8_validate j bs = Inr ()"
proof (induction i bs arbitrary: j rule: utf8_validate.induct)
  case (1 i)
  then show ?case by simp
next
  case (2 i b bs)
  show ?case
  proof (cases "utf8_next b bs")
    case (Inl e)
    then show ?thesis by simp
  next
    case (Inr n)
    from "2.IH" [OF Inr, of "j + n"] Inr show ?thesis by simp
  qed
qed

lemma from_utf8_eq_Inr_iff: "from_utf8 bs = Inr s \<longleftrightarrow> valid_utf8 bs \<and> s = bytes_str bs"
  by (auto simp: from_utf8_def valid_utf8_def bindr_eq_Inr_iff)

lemma from_utf8_as_bytes [simp]: "valid_str s \<Longrightarrow> from_utf8 (as_bytes s) = Inr s"
  by (simp add: from_utf8_eq_Inr_iff valid_str_def)

lemma valid_utf8_Nil [simp]: "valid_utf8 []"
  by (simp add: valid_utf8_def)

lemma valid_str_Nil [simp]: "valid_str []"
  by (simp add: valid_str_def)

lemma valid_utf8_Cons_iff:
  "valid_utf8 (b # bs) \<longleftrightarrow> (\<exists>n. utf8_next b bs = Inr n \<and> valid_utf8 (drop n (b # bs)))"
proof (cases "utf8_next b bs")
  case (Inl e)
  then show ?thesis by (simp add: valid_utf8_def)
next
  case (Inr n)
  with utf8_validate_shift [of n "drop n (b # bs)" 0] show ?thesis
    by (simp add: valid_utf8_def)
qed

lemma tail_ok_append: "tail_ok n k bs = Inr () \<Longrightarrow> tail_ok n k (bs @ cs) = Inr ()"
  by (induction n k bs rule: tail_ok.induct) (auto split: if_splits)

lemma tail_ok_length: "tail_ok n k bs = Inr () \<Longrightarrow> n \<le> length bs"
  by (induction n k bs rule: tail_ok.induct) (auto split: if_splits)

lemma utf8_next_append: "utf8_next b bs = Inr n \<Longrightarrow> utf8_next b (bs @ cs) = Inr n"
  by (auto simp: utf8_next_def Let_def bindr_eq_Inr_iff tail_ok_append split: if_splits list.splits)

lemma utf8_next_length: "utf8_next b bs = Inr n \<Longrightarrow> n \<le> Suc (length bs)"
  by (auto simp: utf8_next_def Let_def bindr_eq_Inr_iff split: if_splits list.splits
      dest!: tail_ok_length)

lemma valid_utf8_append: "valid_utf8 as \<Longrightarrow> valid_utf8 bs \<Longrightarrow> valid_utf8 (as @ bs)"
proof (induction "length as" arbitrary: as rule: less_induct)
  case less
  show ?case
  proof (cases as)
    case Nil
    with less.prems show ?thesis by simp
  next
    case (Cons a as')
    with less.prems(1) obtain n where
      n: "utf8_next a as' = Inr n" "valid_utf8 (drop n (a # as'))"
      by (auto simp: valid_utf8_Cons_iff)
    from n(1) have pos: "0 < n" and le: "n \<le> length (a # as')"
      using utf8_next_pos utf8_next_length by auto
    have "valid_utf8 (drop n (a # as') @ bs)"
      using n(2) less.prems(2) pos Cons by (intro less.hyps) auto
    moreover from le have "drop n (a # as') @ bs = drop n (a # as' @ bs)"
      using drop_append [of n "a # as'" bs] by simp
    ultimately show ?thesis
      using utf8_next_append [OF n(1)] by (auto simp: Cons valid_utf8_Cons_iff)
  qed
qed

lemma valid_str_append: "valid_str s \<Longrightarrow> valid_str t \<Longrightarrow> valid_str (s @ t)"
  by (simp add: valid_str_def valid_utf8_append)

lemma utf8_next_ascii: "unat b < 128 \<Longrightarrow> utf8_next b bs = Inr 1"
  by (simp add: utf8_next_def utf8_char_width_def)

lemma valid_utf8_ascii_Cons [simp]: "unat b < 128 \<Longrightarrow> valid_utf8 (b # bs) \<longleftrightarrow> valid_utf8 bs"
  by (auto simp: valid_utf8_Cons_iff utf8_next_ascii)

definition ascii_str :: "str \<Rightarrow> bool" where
  "ascii_str s = list_all (\<lambda>c. (of_char c :: nat) < 128) s"

lemma valid_str_Cons_ascii [simp]:
  "(of_char c :: nat) < 128 \<Longrightarrow> valid_str (c # s) \<longleftrightarrow> valid_str s"
  by (simp add: valid_str_def)

lemma ascii_valid_str: "ascii_str s \<Longrightarrow> valid_str s"
  by (induction s) (auto simp: ascii_str_def)

lemma ascii_str_append [simp]: "ascii_str (s @ t) \<longleftrightarrow> ascii_str s \<and> ascii_str t"
  by (auto simp: ascii_str_def)

lemma ascii_str_show_nat [simp]: "ascii_str (show_nat n)"
proof -
  have "(of_char (digit_char d) :: nat) < 128" if "d < 10" for d
    using that by (simp add: of_char_digit_char)
  then show ?thesis
    using show_nat_digits [of _ n] by (fastforce simp: ascii_str_def list_all_iff)
qed

lemma ascii_str_hex2 [simp]: "ascii_str (hex2 b)"
proof -
  have "unat b div 16 < 16" "unat b mod 16 < 16"
    using unat_byte_lt [of b] by (simp_all add: less_mult_imp_div_less)
  then have "(of_char (digit_char (unat b div 16)) :: nat) < 128"
    and "(of_char (digit_char (unat b mod 16)) :: nat) < 128"
    by (simp_all only: of_char_digit_char) auto
  then show ?thesis
    by (simp add: ascii_str_def hex2_def)
qed

end
