(* ===== verification/Babar_Error.thy ===== *)
theory Babar_Error
  imports Utf8
begin

text \<open>
  The error values of the crate (\<open>error.rs\<close>, \<open>migration/error.rs\<close>): the two enumerations with the
  source's constructors, the construction of a server error from the fields of an
  \<open>ErrorResponse\<close>, the attachment of SQL context, the copy the driver hands to a caller, and the
  rendering with the caret under the failing position. An \<open>io::Error\<close> is its rendered text, a path
  is the bytes of its text.
\<close>

section \<open>Migration errors\<close>

datatype migration_error =
    InvalidFileName str str
  | InvalidVersion str
  | InvalidName str
  | InvalidDirective str str
  | PairMismatch str str
  | InvalidChecksum str
  | InvalidSourcePath str str
  | DuplicateMigrationScript str str str str
  | ConflictingMigrationVersion u64 str str
  | MissingMigrationScript str str
  | AppliedMigrationMissing str
  | AppliedMigrationOrderMismatch str str
  | DriftDetected str str
  | InvalidTable str str
  | InvalidAppliedMigrationRow str

primrec show_migration_error :: "migration_error \<Rightarrow> str" where
  "show_migration_error (InvalidFileName file_name expected) =
     ''invalid migration file name '' @ debug_str file_name @ ''; expected '' @ expected"
| "show_migration_error (InvalidVersion version) =
     ''invalid migration version '' @ debug_str version @ ''; expected an unsigned integer''"
| "show_migration_error (InvalidName name) =
     ''invalid migration name '' @ debug_str name @ ''; expected lowercase snake_case''"
| "show_migration_error (InvalidDirective directive reason) =
     ''invalid migration directive '' @ debug_str directive @ '': '' @ reason"
| "show_migration_error (PairMismatch up down) =
     ''migration pair mismatch: '' @ up @ '' does not match '' @ down"
| "show_migration_error (InvalidChecksum checksum) =
     ''invalid migration checksum '' @ debug_str checksum @
     ''; expected 64 lowercase hex characters''"
| "show_migration_error (InvalidSourcePath path reason) =
     ''invalid migration source path '' @ debug_str path @ '': '' @ reason"
| "show_migration_error (DuplicateMigrationScript i kind first second) =
     ''duplicate migration script for '' @ i @ '' ('' @ kind @ ''): '' @ debug_str first @
     '' and '' @ debug_str second"
| "show_migration_error (ConflictingMigrationVersion version existing conflicting) =
     ''conflicting migration version '' @ show_nat (unat version) @ '': '' @ debug_str existing @
     '' conflicts with '' @ debug_str conflicting"
| "show_migration_error (MissingMigrationScript i missing) =
     ''missing '' @ missing @ '' migration script for '' @ i"
| "show_migration_error (AppliedMigrationMissing i) =
     ''applied migration '' @ i @ '' is not present in the migration source''"
| "show_migration_error (AppliedMigrationOrderMismatch expected actual) =
     ''applied migration order mismatch: expected '' @ expected @ '', found '' @ actual"
| "show_migration_error (DriftDetected i reason) =
     ''migration drift detected for '' @ i @ '': '' @ reason"
| "show_migration_error (InvalidTable qualified reason) =
     ''invalid migration table '' @ debug_str qualified @ '': '' @ reason"
| "show_migration_error (InvalidAppliedMigrationRow reason) =
     ''invalid applied migration row: '' @ reason"

section \<open>Driver errors\<close>

record origin =
  origin_file :: str
  origin_line :: u32
  origin_column :: u32

datatype error =
    Io str
  | Closed "str option" "origin option"
  | Protocol str
  | Auth str
  | UnsupportedAuth str
  | Server str str str "str option" "str option" "nat option" "str option" "origin option"
    \<comment> \<open>code, severity, message, detail, hint, position, sql, origin\<close>
  | Config str
  | Codec str
  | ColumnAlignment nat nat "str option" "origin option"
  | SchemaMismatch nat oid oid str "str option" "origin option"
  | Migration migration_error

type_synonym 'a result = "error + 'a"

definition closed :: error where
  "closed = Closed None None"

text \<open>\<open>or_keep\<close> is \<open>slot.take().or(Some(e))\<close>: a value already in the slot wins.\<close>

definition or_keep :: "'a option \<Rightarrow> 'a \<Rightarrow> 'a option" where
  "or_keep slot v = (case slot of None \<Rightarrow> Some v | Some w \<Rightarrow> Some w)"

lemma or_keep_simps [simp]: "or_keep None v = Some v" "or_keep (Some w) v = Some w"
  by (simp_all add: or_keep_def)

definition or_keep_opt :: "'a option \<Rightarrow> 'a option \<Rightarrow> 'a option" where
  "or_keep_opt slot v = (case slot of None \<Rightarrow> v | Some w \<Rightarrow> Some w)"

fun with_sql :: "error \<Rightarrow> str \<Rightarrow> origin option \<Rightarrow> error" where
  "with_sql (Closed s orig) sql origin0 = Closed (or_keep s sql) (or_keep_opt orig origin0)"
| "with_sql (ColumnAlignment n m s orig) sql origin0 =
     ColumnAlignment n m (or_keep s sql) (or_keep_opt orig origin0)"
| "with_sql (SchemaMismatch p e a c s orig) sql origin0 =
     SchemaMismatch p e a c (or_keep s sql) (or_keep_opt orig origin0)"
| "with_sql (Server c sv m d h p s orig) sql origin0 =
     Server c sv m d h p (or_keep s sql) (or_keep_opt orig origin0)"
| "with_sql e sql origin0 = e"

record server_acc =
  acc_severity :: str
  acc_code :: str
  acc_message :: str
  acc_detail :: "str option"
  acc_hint :: "str option"
  acc_position :: "nat option"

definition server_field :: "u8 \<times> str \<Rightarrow> server_acc \<Rightarrow> server_acc" where
  "server_field kv acc =
     (let k = fst kv; v = snd kv
      in if (k = byte_of (CHR ''S'') \<or> k = byte_of (CHR ''V'')) \<and> acc_severity acc = []
         then acc\<lparr>acc_severity := v\<rparr>
         else if k = byte_of (CHR ''C'') then acc\<lparr>acc_code := v\<rparr>
         else if k = byte_of (CHR ''M'') then acc\<lparr>acc_message := v\<rparr>
         else if k = byte_of (CHR ''D'') then acc\<lparr>acc_detail := Some v\<rparr>
         else if k = byte_of (CHR ''H'') then acc\<lparr>acc_hint := Some v\<rparr>
         else if k = byte_of (CHR ''P'')
         then acc\<lparr>acc_position := (case parse_usize v of Inl _ \<Rightarrow> None | Inr n \<Rightarrow> Some n)\<rparr>
         else acc)"

definition from_server_fields :: "(u8 \<times> str) list \<Rightarrow> error" where
  "from_server_fields fs =
     (let acc = fold server_field fs
                  \<lparr>acc_severity = [], acc_code = [], acc_message = [], acc_detail = None,
                   acc_hint = None, acc_position = None\<rparr>
      in Server (acc_code acc) (acc_severity acc) (acc_message acc) (acc_detail acc)
           (acc_hint acc) (acc_position acc) None None)"

text \<open>The copy of an error that the driver sends to the waiting caller (\<open>session/driver.rs\<close>).\<close>

fun clone_for_caller :: "error \<Rightarrow> error" where
  "clone_for_caller (Io _) = closed"
| "clone_for_caller (Closed _ _) = closed"
| "clone_for_caller e = e"

section \<open>Rendering\<close>

definition chars_count :: "str \<Rightarrow> nat" where
  "chars_count s = length (filter (\<lambda>c. \<not> is_cont (of_char c)) s)"

fun locate_scan :: "nat \<Rightarrow> nat \<Rightarrow> str list \<Rightarrow> (nat \<times> str \<times> nat option) option" where
  "locate_scan i remaining [] = None"
| "locate_scan i remaining (l # ls) =
     (let width = chars_count l + 1
      in if remaining \<le> width then Some (i + 1, l, Some (min remaining (chars_count l + 1)))
         else locate_scan (i + 1) (remaining - width) ls)"

definition locate_sql :: "str \<Rightarrow> nat \<Rightarrow> (nat \<times> str \<times> nat option) option" where
  "locate_sql sql position =
     (if position = 0 then None
      else case locate_scan 0 position (lines sql) of
             Some r \<Rightarrow> Some r
           | None \<Rightarrow>
               (case lines sql of
                  [] \<Rightarrow> None
                | ls \<Rightarrow> Some (length ls, last ls, Some (chars_count (last ls) + 1))))"

definition pad_left :: "nat \<Rightarrow> str \<Rightarrow> str" where
  "pad_left w s = replicate (w - length s) (CHR '' '') @ s"

definition render_sql_context :: "str option \<Rightarrow> origin option \<Rightarrow> nat option \<Rightarrow> str" where
  "render_sql_context sql orig position =
     (case sql of
        None \<Rightarrow> []
      | Some sql \<Rightarrow>
          (let (line_no, l, col) =
             (case Option.bind position (locate_sql sql) of
                Some r \<Rightarrow> r
              | None \<Rightarrow> (1, (case lines sql of [] \<Rightarrow> sql | l # _ \<Rightarrow> l), None))
           in (case orig of
                 None \<Rightarrow> []
               | Some r \<Rightarrow> [lf] @ ''--> '' @ origin_file r @ '':'' @ show_nat (unat (origin_line r)) @ '':'' @
                           show_nat (unat (origin_column r))) @
              [lf] @ ''SQL '' @ pad_left 2 (show_nat line_no) @ '' | '' @ l @
              (case col of
                 None \<Rightarrow> []
               | Some c \<Rightarrow> [lf] @ ''      | '' @ replicate (c - 1) (CHR '' '') @ ''^'')))"

fun show_error :: "error \<Rightarrow> str" where
  "show_error (Io err) = ''I/O error: '' @ err"
| "show_error (Closed sql orig) = ''connection closed'' @ render_sql_context sql orig None"
| "show_error (Protocol msg) = ''protocol error: '' @ msg"
| "show_error (Auth msg) = ''authentication failed: '' @ msg"
| "show_error (UnsupportedAuth name) = ''unsupported authentication mechanism: '' @ name"
| "show_error (Server code severity message detail hint position sql orig) =
     severity @ '' '' @ code @ '': '' @ message @
     (case detail of None \<Rightarrow> [] | Some d \<Rightarrow> [lf] @ ''DETAIL: '' @ d) @
     (case hint of None \<Rightarrow> [] | Some h \<Rightarrow> [lf] @ ''HINT: '' @ h) @
     render_sql_context sql orig position"
| "show_error (Config msg) = ''configuration error: '' @ msg"
| "show_error (Codec msg) = ''codec error: '' @ msg"
| "show_error (Migration err) = ''migration error: '' @ show_migration_error err"
| "show_error (ColumnAlignment expected actual sql orig) =
     ''column alignment: decoder expects '' @ show_nat expected @
     '' columns, server returned '' @ show_nat actual @ render_sql_context sql orig None"
| "show_error (SchemaMismatch position expected_oid actual_oid column_name sql orig) =
     ''schema mismatch at column '' @ show_nat position @ '': expected OID '' @
     show_nat (unat expected_oid) @ '', server has OID '' @ show_nat (unat actual_oid) @
     '' (column '' @ [dquote] @ column_name @ [dquote] @ '')'' @ render_sql_context sql orig None"

section \<open>Properties\<close>

text \<open>Attaching SQL context never replaces context that is already there.\<close>

lemma with_sql_idem: "with_sql (with_sql e sql orig) sql' orig' =
   (case orig of None \<Rightarrow> with_sql (with_sql e sql None) sql orig' | Some _ \<Rightarrow> with_sql e sql orig)"
  by (cases e; cases orig)
     (auto simp: or_keep_def or_keep_opt_def split: option.splits)

lemma locate_scan_bounds:
  assumes "locate_scan i r ls = Some (n, l, c)" and "0 < r"
  shows "i < n \<and> n \<le> i + length ls \<and> l = ls ! (n - i - 1)
    \<and> (\<exists>k. c = Some k \<and> 1 \<le> k \<and> k \<le> chars_count l + 1)"
  using assms
proof (induction i r ls rule: locate_scan.induct)
  case (1 i remaining)
  then show ?case by simp
next
  case (2 i r l' ls)
  show ?case
  proof (cases "r \<le> chars_count l' + 1")
    case True
    with "2.prems" show ?thesis by (auto simp: Let_def)
  next
    case False
    then have pos: "0 < r - (chars_count l' + 1)" by simp
    from False "2.prems"(1) have
      "locate_scan (i + 1) (r - (chars_count l' + 1)) ls = Some (n, l, c)"
      by (simp add: Let_def)
    from "2.IH" [OF refl _ this pos] False show ?thesis
      by (auto simp: nth_Cons' Suc_diff_Suc)
  qed
qed

lemma locate_sql_bounds:
  assumes "locate_sql sql p = Some (n, l, c)"
  shows "1 \<le> n \<and> n \<le> length (lines sql) \<and> l = lines sql ! (n - 1)
    \<and> (\<exists>k. c = Some k \<and> 1 \<le> k \<and> k \<le> chars_count l + 1)"
proof (cases "locate_scan 0 p (lines sql)")
  case None
  with assms show ?thesis
    by (auto simp: locate_sql_def last_conv_nth split: if_splits list.splits)
next
  case (Some r)
  with assms have "locate_scan 0 p (lines sql) = Some (n, l, c)" "0 < p"
    by (auto simp: locate_sql_def split: if_splits)
  from locate_scan_bounds [OF this] show ?thesis by auto
qed

end
