(* ===== verification/Pg_Types.thy ===== *)
theory Pg_Types
  imports Babar_Error
begin

text \<open>
  Type metadata of one parameter or column slot (\<open>types.rs\<close>): the stable OIDs of the built-in types
  and the table from an OID to its metadata.
\<close>

record pg_type =
  ty_oid :: oid
  ty_name :: str
  ty_extension :: "str option"

definition type_fixed :: "oid \<Rightarrow> str \<Rightarrow> pg_type" where
  "type_fixed o0 name = \<lparr>ty_oid = o0, ty_name = name, ty_extension = None\<rparr>"

definition type_extension :: "str \<Rightarrow> str \<Rightarrow> pg_type" where
  "type_extension name ext = \<lparr>ty_oid = 0, ty_name = name, ty_extension = Some ext\<rparr>"

definition type_unresolved :: "str \<Rightarrow> pg_type" where
  "type_unresolved name = \<lparr>ty_oid = 0, ty_name = name, ty_extension = None\<rparr>"

definition is_resolved :: "pg_type \<Rightarrow> bool" where
  "is_resolved ty = (ty_oid ty \<noteq> 0)"

section \<open>Object identifiers\<close>

definition BOOL :: oid where "BOOL = 16"
definition BYTEA :: oid where "BYTEA = 17"
definition BPCHAR :: oid where "BPCHAR = 1042"
definition VARCHAR :: oid where "VARCHAR = 1043"
definition TEXT :: oid where "TEXT = 25"
definition INT2 :: oid where "INT2 = 21"
definition INT4 :: oid where "INT4 = 23"
definition INT8 :: oid where "INT8 = 20"
definition FLOAT4 :: oid where "FLOAT4 = 700"
definition FLOAT8 :: oid where "FLOAT8 = 701"
definition UUID :: oid where "UUID = 2950"
definition DATE :: oid where "DATE = 1082"
definition TIME :: oid where "TIME = 1083"
definition TIMESTAMP :: oid where "TIMESTAMP = 1114"
definition TIMESTAMPTZ :: oid where "TIMESTAMPTZ = 1184"
definition JSON :: oid where "JSON = 114"
definition JSONB :: oid where "JSONB = 3802"
definition NUMERIC :: oid where "NUMERIC = 1700"
definition INET :: oid where "INET = 869"
definition CIDR :: oid where "CIDR = 650"
definition INTERVAL :: oid where "INTERVAL = 1186"
definition MACADDR :: oid where "MACADDR = 829"
definition MACADDR8 :: oid where "MACADDR8 = 774"
definition BIT :: oid where "BIT = 1560"
definition VARBIT :: oid where "VARBIT = 1562"
definition TSVECTOR :: oid where "TSVECTOR = 3614"
definition TSQUERY :: oid where "TSQUERY = 3615"
definition BOOL_ARRAY :: oid where "BOOL_ARRAY = 1000"
definition BYTEA_ARRAY :: oid where "BYTEA_ARRAY = 1001"
definition INT2_ARRAY :: oid where "INT2_ARRAY = 1005"
definition INT4_ARRAY :: oid where "INT4_ARRAY = 1007"
definition TEXT_ARRAY :: oid where "TEXT_ARRAY = 1009"
definition INT8_ARRAY :: oid where "INT8_ARRAY = 1016"
definition FLOAT4_ARRAY :: oid where "FLOAT4_ARRAY = 1021"
definition FLOAT8_ARRAY :: oid where "FLOAT8_ARRAY = 1022"
definition VARCHAR_ARRAY :: oid where "VARCHAR_ARRAY = 1015"
definition BPCHAR_ARRAY :: oid where "BPCHAR_ARRAY = 1014"
definition INET_ARRAY :: oid where "INET_ARRAY = 1041"
definition CIDR_ARRAY :: oid where "CIDR_ARRAY = 651"
definition DATE_ARRAY :: oid where "DATE_ARRAY = 1182"
definition TIME_ARRAY :: oid where "TIME_ARRAY = 1183"
definition TIMESTAMP_ARRAY :: oid where "TIMESTAMP_ARRAY = 1115"
definition TIMESTAMPTZ_ARRAY :: oid where "TIMESTAMPTZ_ARRAY = 1185"
definition INTERVAL_ARRAY :: oid where "INTERVAL_ARRAY = 1187"
definition NUMERIC_ARRAY :: oid where "NUMERIC_ARRAY = 1231"
definition UUID_ARRAY :: oid where "UUID_ARRAY = 2951"
definition JSON_ARRAY :: oid where "JSON_ARRAY = 199"
definition JSONB_ARRAY :: oid where "JSONB_ARRAY = 3807"
definition INT4_RANGE :: oid where "INT4_RANGE = 3904"
definition NUM_RANGE :: oid where "NUM_RANGE = 3906"
definition TS_RANGE :: oid where "TS_RANGE = 3908"
definition TSTZ_RANGE :: oid where "TSTZ_RANGE = 3910"
definition DATE_RANGE :: oid where "DATE_RANGE = 3912"
definition INT8_RANGE :: oid where "INT8_RANGE = 3926"
definition INT4_MULTIRANGE :: oid where "INT4_MULTIRANGE = 4451"
definition NUM_MULTIRANGE :: oid where "NUM_MULTIRANGE = 4532"
definition TS_MULTIRANGE :: oid where "TS_MULTIRANGE = 4533"
definition TSTZ_MULTIRANGE :: oid where "TSTZ_MULTIRANGE = 4534"
definition DATE_MULTIRANGE :: oid where "DATE_MULTIRANGE = 4535"
definition INT8_MULTIRANGE :: oid where "INT8_MULTIRANGE = 4536"

lemmas oid_defs =
  BOOL_def BYTEA_def BPCHAR_def VARCHAR_def TEXT_def INT2_def INT4_def INT8_def FLOAT4_def
  FLOAT8_def UUID_def DATE_def TIME_def TIMESTAMP_def TIMESTAMPTZ_def JSON_def JSONB_def
  NUMERIC_def INET_def CIDR_def INTERVAL_def MACADDR_def MACADDR8_def BIT_def VARBIT_def
  TSVECTOR_def TSQUERY_def BOOL_ARRAY_def BYTEA_ARRAY_def INT2_ARRAY_def INT4_ARRAY_def
  TEXT_ARRAY_def INT8_ARRAY_def FLOAT4_ARRAY_def FLOAT8_ARRAY_def VARCHAR_ARRAY_def
  BPCHAR_ARRAY_def INET_ARRAY_def CIDR_ARRAY_def DATE_ARRAY_def TIME_ARRAY_def
  TIMESTAMP_ARRAY_def TIMESTAMPTZ_ARRAY_def INTERVAL_ARRAY_def NUMERIC_ARRAY_def UUID_ARRAY_def
  JSON_ARRAY_def JSONB_ARRAY_def INT4_RANGE_def NUM_RANGE_def TS_RANGE_def TSTZ_RANGE_def
  DATE_RANGE_def INT8_RANGE_def INT4_MULTIRANGE_def NUM_MULTIRANGE_def TS_MULTIRANGE_def
  TSTZ_MULTIRANGE_def DATE_MULTIRANGE_def INT8_MULTIRANGE_def

section \<open>Metadata of the known types\<close>

definition known_types :: "(oid \<times> str) list" where
  "known_types =
     [(BOOL, ''bool''), (BYTEA, ''bytea''), (BPCHAR, ''bpchar''), (VARCHAR, ''varchar''),
      (TEXT, ''text''), (INT2, ''int2''), (INT4, ''int4''), (INT8, ''int8''),
      (FLOAT4, ''float4''), (FLOAT8, ''float8''), (UUID, ''uuid''), (DATE, ''date''),
      (TIME, ''time''), (TIMESTAMP, ''timestamp''), (TIMESTAMPTZ, ''timestamptz''),
      (JSON, ''json''), (JSONB, ''jsonb''), (NUMERIC, ''numeric''), (INET, ''inet''),
      (CIDR, ''cidr''), (INTERVAL, ''interval''), (MACADDR, ''macaddr''),
      (MACADDR8, ''macaddr8''), (BIT, ''bit''), (VARBIT, ''varbit''), (TSVECTOR, ''tsvector''),
      (TSQUERY, ''tsquery''), (BOOL_ARRAY, ''_bool''), (BYTEA_ARRAY, ''_bytea''),
      (INT2_ARRAY, ''_int2''), (INT4_ARRAY, ''_int4''), (TEXT_ARRAY, ''_text''),
      (INT8_ARRAY, ''_int8''), (FLOAT4_ARRAY, ''_float4''), (FLOAT8_ARRAY, ''_float8''),
      (VARCHAR_ARRAY, ''_varchar''), (BPCHAR_ARRAY, ''_bpchar''), (INET_ARRAY, ''_inet''),
      (CIDR_ARRAY, ''_cidr''), (DATE_ARRAY, ''_date''), (TIME_ARRAY, ''_time''),
      (TIMESTAMP_ARRAY, ''_timestamp''), (TIMESTAMPTZ_ARRAY, ''_timestamptz''),
      (INTERVAL_ARRAY, ''_interval''), (NUMERIC_ARRAY, ''_numeric''), (UUID_ARRAY, ''_uuid''),
      (JSON_ARRAY, ''_json''), (JSONB_ARRAY, ''_jsonb''), (INT4_RANGE, ''int4range''),
      (NUM_RANGE, ''numrange''), (TS_RANGE, ''tsrange''), (TSTZ_RANGE, ''tstzrange''),
      (DATE_RANGE, ''daterange''), (INT8_RANGE, ''int8range''),
      (INT4_MULTIRANGE, ''int4multirange''), (NUM_MULTIRANGE, ''nummultirange''),
      (TS_MULTIRANGE, ''tsmultirange''), (TSTZ_MULTIRANGE, ''tstzmultirange''),
      (DATE_MULTIRANGE, ''datemultirange''), (INT8_MULTIRANGE, ''int8multirange'')]"

definition known_type_for_oid :: "oid \<Rightarrow> pg_type option" where
  "known_type_for_oid o0 = map_option (type_fixed o0) (map_of known_types o0)"

definition types_for_oids :: "oid list \<Rightarrow> pg_type list" where
  "types_for_oids oids =
     map (\<lambda>o0. case known_type_for_oid o0 of Some t \<Rightarrow> t | None \<Rightarrow> type_fixed o0 []) oids"

lemma distinct_known_types: "distinct (map fst known_types)"
  by (simp add: known_types_def oid_defs)

lemma known_type_oid: "known_type_for_oid o0 = Some t \<Longrightarrow> ty_oid t = o0"
  by (auto simp: known_type_for_oid_def type_fixed_def)

lemma types_for_oids_oids: "map ty_oid (types_for_oids oids) = oids"
  by (induction oids) (auto simp: types_for_oids_def type_fixed_def known_type_oid split: option.split)

end
