(* ===== verification/Codec_Core.thy ===== *)
theory Codec_Core
  imports Pg_Types
begin

text \<open>
  The codec interface (\<open>codec/mod.rs\<close>) and the two combinators that build composite codecs:
  \<open>nullable\<close> (\<open>codec/nullable.rs\<close>) and tuples (\<open>codec/tuple.rs\<close>). A codec is the record of its methods.
  \<open>cd_encode\<close> returns the parameter slots it pushes. \<open>cd_decode\<close> is called with at least
  \<open>cd_n_columns\<close> columns, as the trait demands.
\<close>

section \<open>The interface\<close>

definition FORMAT_TEXT :: i16 where "FORMAT_TEXT = 0"
definition FORMAT_BINARY :: i16 where "FORMAT_BINARY = 1"

record 'a codec =
  cd_encode :: "'a \<Rightarrow> raw_row result"
  cd_decode :: "raw_row \<Rightarrow> 'a result"
  cd_n_columns :: nat
  cd_oids :: "oid list"
  cd_types :: "pg_type list"
  cd_format_codes :: "i16 list"

text \<open>A codec with one slot of a built-in type; the metadata default to those of the OID.\<close>

definition scalar :: "oid \<Rightarrow> i16 \<Rightarrow> ('a \<Rightarrow> bytes) \<Rightarrow> (raw_row \<Rightarrow> 'a result) \<Rightarrow> 'a codec" where
  "scalar o0 format enc dec =
     \<lparr>cd_encode = (\<lambda>v. Inr [Some (enc v)]), cd_decode = dec, cd_n_columns = 1, cd_oids = [o0],
      cd_types = types_for_oids [o0], cd_format_codes = [format]\<rparr>"

text \<open>
  The contract of a codec for the values in \<open>valid\<close>: encoding succeeds with one slot per declared
  column, decoding the slots gives the value back, and only the first \<open>cd_n_columns\<close> columns matter.
\<close>

locale codec_laws =
  fixes c :: "'a codec" and valid :: "'a \<Rightarrow> bool"
  assumes oids_length: "length (cd_oids c) = cd_n_columns c"
    and types_length: "length (cd_types c) = cd_n_columns c"
    and encodes: "valid v \<Longrightarrow> \<exists>slots. cd_encode c v = Inr slots \<and> length slots = cd_n_columns c
      \<and> (\<forall>rest. cd_decode c (slots @ rest) = Inr v)"
begin

lemma encodesE:
  assumes "valid v"
  obtains slots where "cd_encode c v = Inr slots" and "length slots = cd_n_columns c"
    and "\<And>rest. cd_decode c (slots @ rest) = Inr v"
  using encodes [OF assms] by blast

lemma roundtrip: "valid v \<Longrightarrow> bindr (cd_encode c v) (cd_decode c) = Inr v"
proof (erule encodesE)
  fix slots assume "cd_encode c v = Inr slots" "\<And>rest. cd_decode c (slots @ rest) = Inr v"
  from this(1) this(2) [of "[]"] show ?thesis by simp
qed

lemma encode_inj:
  assumes "valid v" and "valid w" and "cd_encode c v = cd_encode c w"
  shows "v = w"
  using roundtrip [OF assms(1)] roundtrip [OF assms(2)] unfolding assms(3) by simp

end

lemma scalar_laws:
  assumes "\<And>v rest. valid v \<Longrightarrow> dec (Some (enc v) # rest) = Inr v"
  shows "codec_laws (scalar o0 format enc dec) valid"
  by unfold_locales (use assms in \<open>auto simp: scalar_def types_for_oids_def\<close>)

section \<open>Nullable\<close>

definition nullable :: "'a codec \<Rightarrow> 'a option codec" where
  "nullable c =
     \<lparr>cd_encode = (\<lambda>value. case value of
        None \<Rightarrow> Inr (replicate (length (cd_oids c)) None)
      | Some v \<Rightarrow> cd_encode c v),
      cd_decode = (\<lambda>columns.
        if list_all (\<lambda>x. x = None) (take (cd_n_columns c) columns) then Inr None
        else map_sum id Some (cd_decode c columns)),
      cd_n_columns = cd_n_columns c, cd_oids = cd_oids c, cd_types = cd_types c,
      cd_format_codes = cd_format_codes c\<rparr>"

text \<open>
  A present value must have a non-null slot, else it reads back as absent: this excludes nested
  options and codecs without columns.
\<close>

definition nullable_valid :: "'a codec \<Rightarrow> ('a \<Rightarrow> bool) \<Rightarrow> 'a option \<Rightarrow> bool" where
  "nullable_valid c valid value =
     (case value of
        None \<Rightarrow> True
      | Some v \<Rightarrow> valid v \<and> (case cd_encode c v of Inr slots \<Rightarrow> \<exists>s \<in> set slots. s \<noteq> None | Inl e \<Rightarrow> False))"

context codec_laws
begin

lemma nullable_laws: "codec_laws (nullable c) (nullable_valid c valid)"
proof
  fix w assume v: "nullable_valid c valid w"
  show "\<exists>slots. cd_encode (nullable c) w = Inr slots \<and> length slots = cd_n_columns (nullable c)
      \<and> (\<forall>rest. cd_decode (nullable c) (slots @ rest) = Inr w)"
  proof (cases w)
    case None
    then show ?thesis by (simp add: nullable_def oids_length list_all_iff)
  next
    case (Some x)
    with v obtain s where x: "valid x" and s: "\<And>slots. cd_encode c x = Inr slots \<Longrightarrow> \<exists>s \<in> set slots. s \<noteq> None"
      by (auto simp: nullable_valid_def split: sum.splits)
    from x obtain slots where slots: "cd_encode c x = Inr slots" "length slots = cd_n_columns c"
      "\<And>rest. cd_decode c (slots @ rest) = Inr x" by (rule encodesE) blast
    with s [OF slots(1)] Some show ?thesis by (simp add: nullable_def list_all_iff)
  qed
qed (simp_all add: nullable_def oids_length types_length)

end

section \<open>Tuples\<close>

text \<open>
  The tuple macro repeats its body for every component. \<open>fields_nil\<close> and \<open>fields_cons\<close> are that
  repetition; \<open>tuple\<close> adds the check on the number of columns. A tuple of \<open>n\<close> components is
  \<open>tuple (fields_cons c0 (fields_cons c1 (\<dots> fields_nil)))\<close>.
\<close>

definition fields_nil :: "unit codec" where
  "fields_nil =
     \<lparr>cd_encode = (\<lambda>_. Inr []), cd_decode = (\<lambda>_. Inr ()), cd_n_columns = 0, cd_oids = [],
      cd_types = [], cd_format_codes = []\<rparr>"

definition fields_cons :: "'a codec \<Rightarrow> 'b codec \<Rightarrow> ('a \<times> 'b) codec" where
  "fields_cons c cs =
     \<lparr>cd_encode = (\<lambda>(v, vs). bindr (cd_encode c v) (\<lambda>slots.
        bindr (cd_encode cs vs) (\<lambda>more. Inr (slots @ more)))),
      cd_decode = (\<lambda>columns.
        bindr (cd_decode c (take (cd_n_columns c) columns)) (\<lambda>v.
        bindr (cd_decode cs (drop (cd_n_columns c) columns)) (\<lambda>vs. Inr (v, vs)))),
      cd_n_columns = cd_n_columns c + cd_n_columns cs, cd_oids = cd_oids c @ cd_oids cs,
      cd_types = cd_types c @ cd_types cs, cd_format_codes = cd_format_codes c @ cd_format_codes cs\<rparr>"

definition need_columns :: "raw_row \<Rightarrow> nat \<Rightarrow> unit result" where
  "need_columns columns expected =
     (if length columns < expected
      then Inl (Codec (''tuple decoder needs '' @ show_nat expected @ '' columns, got '' @
             show_nat (length columns)))
      else Inr ())"

definition tuple :: "'a codec \<Rightarrow> 'a codec" where
  "tuple cs = cs\<lparr>cd_decode := (\<lambda>columns.
     bindr (need_columns columns (cd_n_columns cs)) (\<lambda>_. cd_decode cs columns))\<rparr>"

lemma fields_nil_laws: "codec_laws fields_nil (\<lambda>_. True)"
  by unfold_locales (auto simp: fields_nil_def)

lemma fields_cons_laws:
  assumes "codec_laws c valid" and "codec_laws cs valids"
  shows "codec_laws (fields_cons c cs) (\<lambda>(v, vs). valid v \<and> valids vs)"
proof
  fix w assume "case w of (v, vs) \<Rightarrow> valid v \<and> valids vs"
  then obtain v vs where w: "w = (v, vs)" and ok: "valid v" "valids vs" by auto
  from codec_laws.encodesE [OF assms(1) ok(1)] obtain slots where
    slots: "cd_encode c v = Inr slots" "length slots = cd_n_columns c"
      "\<And>rest. cd_decode c (slots @ rest) = Inr v" by blast
  from codec_laws.encodesE [OF assms(2) ok(2)] obtain more where
    more: "cd_encode cs vs = Inr more" "length more = cd_n_columns cs"
      "\<And>rest. cd_decode cs (more @ rest) = Inr vs" by blast
  show "\<exists>all. cd_encode (fields_cons c cs) w = Inr all \<and> length all = cd_n_columns (fields_cons c cs)
      \<and> (\<forall>rest. cd_decode (fields_cons c cs) (all @ rest) = Inr w)"
    using slots more slots(3) [of "[]"] by (simp add: fields_cons_def w)
qed (use assms in \<open>simp_all add: fields_cons_def codec_laws.oids_length codec_laws.types_length\<close>)

lemma tuple_laws:
  assumes "codec_laws cs valids"
  shows "codec_laws (tuple cs) valids"
proof
  fix v assume "valids v"
  from codec_laws.encodes [OF assms this]
  show "\<exists>slots. cd_encode (tuple cs) v = Inr slots \<and> length slots = cd_n_columns (tuple cs)
      \<and> (\<forall>rest. cd_decode (tuple cs) (slots @ rest) = Inr v)"
    by (auto simp: tuple_def need_columns_def)
qed (use assms in \<open>simp_all add: tuple_def codec_laws.oids_length codec_laws.types_length\<close>)

end
