(* ===== verification/Backend_Codec.thy ===== *)
theory Backend_Codec
  imports Babar_Error
begin

text \<open>
  The decoder of backend messages (\<open>protocol/backend.rs\<close>, \<open>protocol/codec.rs\<close>): the message type,
  the primitive readers over the body of one frame, the dispatch on the tag, and the framing
  itself. \<open>decode\<close> returns the result of one call together with the buffer it leaves behind. The
  reference layout \<open>encode_frame\<close> writes messages the way the PostgreSQL protocol documents them;
  the decoder is proved to invert it on every message, to take exactly one frame off the buffer
  and to be insensitive to how the byte stream is cut into reads.
\<close>

section \<open>Messages\<close>

datatype auth_request =
    AuthOk
  | CleartextPassword
  | Md5Password bytes
  | SaslMechanisms "str list"
  | SaslContinue bytes
  | SaslFinal bytes
  | AuthUnsupported i32

record row_field =
  rf_name :: str
  rf_table_oid :: u32
  rf_column_id :: i16
  rf_type_oid :: u32
  rf_type_size :: i16
  rf_type_modifier :: i32
  rf_format :: i16

datatype backend_message =
    Authentication auth_request
  | ParameterStatus str str
  | BackendKeyData i32 i32
  | ReadyForQuery u8
  | RowDescription "row_field list"
  | DataRow "bytes option list"
  | CopyInResponse u8 "i16 list"
  | CommandComplete str
  | EmptyQueryResponse
  | ErrorResponse "(u8 \<times> str) list"
  | NoticeResponse "(u8 \<times> str) list"
  | ParseComplete
  | BindComplete
  | CloseComplete
  | NoData
  | ParameterDescription "u32 list"
  | PortalSuspended
  | Other u8 bytes

definition TAG_AUTH :: byte where "TAG_AUTH = byte_of (CHR ''R'')"
definition TAG_PARAMETER_STATUS :: byte where "TAG_PARAMETER_STATUS = byte_of (CHR ''S'')"
definition TAG_BACKEND_KEY_DATA :: byte where "TAG_BACKEND_KEY_DATA = byte_of (CHR ''K'')"
definition TAG_READY_FOR_QUERY :: byte where "TAG_READY_FOR_QUERY = byte_of (CHR ''Z'')"
definition TAG_ROW_DESCRIPTION :: byte where "TAG_ROW_DESCRIPTION = byte_of (CHR ''T'')"
definition TAG_DATA_ROW :: byte where "TAG_DATA_ROW = byte_of (CHR ''D'')"
definition TAG_COPY_IN_RESPONSE :: byte where "TAG_COPY_IN_RESPONSE = byte_of (CHR ''G'')"
definition TAG_COMMAND_COMPLETE :: byte where "TAG_COMMAND_COMPLETE = byte_of (CHR ''C'')"
definition TAG_EMPTY_QUERY_RESPONSE :: byte where "TAG_EMPTY_QUERY_RESPONSE = byte_of (CHR ''I'')"
definition TAG_ERROR_RESPONSE :: byte where "TAG_ERROR_RESPONSE = byte_of (CHR ''E'')"
definition TAG_NOTICE_RESPONSE :: byte where "TAG_NOTICE_RESPONSE = byte_of (CHR ''N'')"
definition TAG_PARSE_COMPLETE :: byte where "TAG_PARSE_COMPLETE = byte_of (CHR ''1'')"
definition TAG_BIND_COMPLETE :: byte where "TAG_BIND_COMPLETE = byte_of (CHR ''2'')"
definition TAG_CLOSE_COMPLETE :: byte where "TAG_CLOSE_COMPLETE = byte_of (CHR ''3'')"
definition TAG_NO_DATA :: byte where "TAG_NO_DATA = byte_of (CHR ''n'')"
definition TAG_PARAMETER_DESCRIPTION :: byte where "TAG_PARAMETER_DESCRIPTION = byte_of (CHR ''t'')"
definition TAG_PORTAL_SUSPENDED :: byte where "TAG_PORTAL_SUSPENDED = byte_of (CHR ''s'')"

lemmas tag_defs =
  TAG_AUTH_def TAG_PARAMETER_STATUS_def TAG_BACKEND_KEY_DATA_def TAG_READY_FOR_QUERY_def
  TAG_ROW_DESCRIPTION_def TAG_DATA_ROW_def TAG_COPY_IN_RESPONSE_def TAG_COMMAND_COMPLETE_def
  TAG_EMPTY_QUERY_RESPONSE_def TAG_ERROR_RESPONSE_def TAG_NOTICE_RESPONSE_def
  TAG_PARSE_COMPLETE_def TAG_BIND_COMPLETE_def TAG_CLOSE_COMPLETE_def TAG_NO_DATA_def
  TAG_PARAMETER_DESCRIPTION_def TAG_PORTAL_SUSPENDED_def byte_of_def

section \<open>Readers\<close>

text \<open>A reader takes the unread part of the body and returns the value with what is left.\<close>

type_synonym 'a reader = "bytes \<Rightarrow> error + ('a \<times> bytes)"

definition out_of_bytes :: "str \<Rightarrow> error" where
  "out_of_bytes ctx = Protocol (ctx @ '': out of bytes'')"

definition read_u8 :: "str \<Rightarrow> u8 reader" where
  "read_u8 ctx buf = (case buf of [] \<Rightarrow> Inl (out_of_bytes ctx) | b # rest \<Rightarrow> Inr (b, rest))"

definition read_i16 :: "str \<Rightarrow> i16 reader" where
  "read_i16 ctx buf =
     (if length buf < 2 then Inl (out_of_bytes ctx) else Inr (of_be (take 2 buf), drop 2 buf))"

definition read_i32 :: "str \<Rightarrow> i32 reader" where
  "read_i32 ctx buf =
     (if length buf < 4 then Inl (out_of_bytes ctx) else Inr (of_be (take 4 buf), drop 4 buf))"

definition read_u32 :: "str \<Rightarrow> u32 reader" where
  "read_u32 ctx buf =
     (if length buf < 4 then Inl (out_of_bytes ctx) else Inr (of_be (take 4 buf), drop 4 buf))"

definition nul_position :: "bytes \<Rightarrow> nat option" where
  "nul_position bs =
     (let n = length (takeWhile (\<lambda>b. b \<noteq> 0) bs) in if n < length bs then Some n else None)"

definition read_cstr :: "str \<Rightarrow> str reader" where
  "read_cstr ctx buf =
     (case nul_position buf of
        None \<Rightarrow> Inl (Protocol (ctx @ '': missing NUL terminator''))
      | Some nul \<Rightarrow>
          bindr (map_err (\<lambda>_. Protocol (ctx @ '': not UTF-8'')) (from_utf8 (take nul buf)))
            (\<lambda>s. Inr (s, drop (nul + 1) buf)))"

fun read_n :: "nat \<Rightarrow> 'a reader \<Rightarrow> 'a list reader" where
  "read_n 0 rd buf = Inr ([], buf)"
| "read_n (Suc n) rd buf =
     bindr (rd buf) (\<lambda>(x, buf). bindr (read_n n rd buf) (\<lambda>(xs, buf). Inr (x # xs, buf)))"

text \<open>\<open>try_into\<close> from a signed count to \<open>usize\<close>, with the error of the calling site.\<close>

definition count_of_i16 :: "str \<Rightarrow> i16 \<Rightarrow> error + nat" where
  "count_of_i16 what c =
     (if sint c < 0 then Inl (Protocol (what @ '' count '' @ show_int (sint c) @ '' < 0''))
      else Inr (nat (sint c)))"

lemma nul_position_less: "nul_position bs = Some n \<Longrightarrow> n < length bs"
  by (auto simp: nul_position_def Let_def split: if_splits)

lemma read_cstr_shorter: "read_cstr ctx buf = Inr (s, rest) \<Longrightarrow> length rest < length buf"
  by (auto simp: read_cstr_def bindr_eq_Inr_iff split: option.splits dest!: nul_position_less)

lemma read_u8_shorter: "read_u8 ctx buf = Inr (b, rest) \<Longrightarrow> length rest < length buf"
  by (auto simp: read_u8_def split: list.splits)

function read_error_fields :: "(u8 \<times> str) list reader" where
  "read_error_fields body =
     bindr (read_u8 ''ErrorResponse.field.code'' body) (\<lambda>(code, body').
       if code = 0 then Inr ([], body')
       else bindr (read_cstr ''ErrorResponse.field.value'' body') (\<lambda>(value, body'').
         bindr (read_error_fields body'') (\<lambda>(fs, rest). Inr ((code, value) # fs, rest))))"
  by pat_completeness auto
termination
  by (relation "measure length") (auto dest!: read_u8_shorter read_cstr_shorter)

declare read_error_fields.simps [simp del]

text \<open>The loop over SASL mechanism names; the list ends with an empty name.\<close>

function sasl_mechanisms :: "bytes \<Rightarrow> error + str list" where
  "sasl_mechanisms rest =
     (case rest of
        [] \<Rightarrow> Inl (Protocol ''AuthenticationSASL list missing terminator'')
      | b # _ \<Rightarrow>
          (if b = 0 then Inr []
           else case nul_position rest of
                  None \<Rightarrow> Inl (Protocol ''AuthenticationSASL mechanism not NUL-terminated'')
                | Some nul \<Rightarrow>
                    bindr (map_err (\<lambda>_. Protocol ''AuthenticationSASL mechanism is not UTF-8'')
                             (from_utf8 (take nul rest)))
                      (\<lambda>name. bindr (sasl_mechanisms (drop (nul + 1) rest))
                        (\<lambda>ms. Inr (name # ms)))))"
  by pat_completeness auto
termination
  by (relation "measure length") (auto dest: nul_position_less)

declare sasl_mechanisms.simps [simp del]

section \<open>Bodies\<close>

definition decode_auth :: "i32 \<Rightarrow> bytes \<Rightarrow> error + auth_request" where
  "decode_auth code body =
     (if code = 0 then Inr AuthOk
      else if code = 3 then Inr CleartextPassword
      else if code = 5 then
        (if length body \<noteq> 4
         then Inl (Protocol (''AuthenticationMD5Password salt length '' @ show_nat (length body) @
                '' != 4''))
         else Inr (Md5Password (take 4 body)))
      else if code = 10 then bindr (sasl_mechanisms body) (\<lambda>ms. Inr (SaslMechanisms ms))
      else if code = 11 then Inr (SaslContinue body)
      else if code = 12 then Inr (SaslFinal body)
      else Inr (AuthUnsupported code))"

definition read_row_field :: "row_field reader" where
  "read_row_field body =
     bindr (read_cstr ''RowDescription.field.name'' body) (\<lambda>(nm, body).
     bindr (read_u32 ''RowDescription.field.table_oid'' body) (\<lambda>(toid, body).
     bindr (read_i16 ''RowDescription.field.column_id'' body) (\<lambda>(cid, body).
     bindr (read_u32 ''RowDescription.field.type_oid'' body) (\<lambda>(tyoid, body).
     bindr (read_i16 ''RowDescription.field.type_size'' body) (\<lambda>(sz, body).
     bindr (read_i32 ''RowDescription.field.type_modifier'' body) (\<lambda>(md, body).
     bindr (read_i16 ''RowDescription.field.format'' body) (\<lambda>(fmt, body).
       Inr (\<lparr>rf_name = nm, rf_table_oid = toid, rf_column_id = cid, rf_type_oid = tyoid,
             rf_type_size = sz, rf_type_modifier = md, rf_format = fmt\<rparr>, body))))))))"

definition read_data_column :: "bytes option reader" where
  "read_data_column body =
     bindr (read_i32 ''DataRow.column.length'' body) (\<lambda>(len, body).
       if len = -1 then Inr (None, body)
       else if sint len < 0
       then Inl (Protocol (''DataRow column length '' @ show_int (sint len) @ '' < -1''))
       else if length body < nat (sint len)
       then Inl (Protocol ''DataRow column truncated past message body'')
       else Inr (Some (take (nat (sint len)) body), drop (nat (sint len)) body))"

definition decode_body :: "u8 \<Rightarrow> bytes \<Rightarrow> error + backend_message" where
  "decode_body tag body =
     (if tag = TAG_AUTH then
        bindr (read_i32 ''Authentication.code'' body) (\<lambda>(code, body).
        bindr (decode_auth code body) (\<lambda>a. Inr (Authentication a)))
      else if tag = TAG_PARAMETER_STATUS then
        bindr (read_cstr ''ParameterStatus.name'' body) (\<lambda>(name, body).
        bindr (read_cstr ''ParameterStatus.value'' body) (\<lambda>(value, _).
          Inr (ParameterStatus name value)))
      else if tag = TAG_BACKEND_KEY_DATA then
        bindr (read_i32 ''BackendKeyData.process_id'' body) (\<lambda>(pid, body).
        bindr (read_i32 ''BackendKeyData.secret_key'' body) (\<lambda>(key, _).
          Inr (BackendKeyData pid key)))
      else if tag = TAG_READY_FOR_QUERY then
        bindr (read_u8 ''ReadyForQuery.status'' body) (\<lambda>(status, _). Inr (ReadyForQuery status))
      else if tag = TAG_ROW_DESCRIPTION then
        bindr (read_i16 ''RowDescription.count'' body) (\<lambda>(count, body).
        bindr (count_of_i16 ''RowDescription'' count) (\<lambda>n.
        bindr (read_n n read_row_field body) (\<lambda>(fs, _). Inr (RowDescription fs))))
      else if tag = TAG_DATA_ROW then
        bindr (read_i16 ''DataRow.count'' body) (\<lambda>(count, body).
        bindr (count_of_i16 ''DataRow'' count) (\<lambda>n.
        bindr (read_n n read_data_column body) (\<lambda>(cs, _). Inr (DataRow cs))))
      else if tag = TAG_COPY_IN_RESPONSE then
        bindr (read_u8 ''CopyInResponse.overall_format'' body) (\<lambda>(overall, body).
        bindr (read_i16 ''CopyInResponse.column_count'' body) (\<lambda>(count, body).
        bindr (count_of_i16 ''CopyInResponse column'' count) (\<lambda>n.
        bindr (read_n n (read_i16 ''CopyInResponse.column_format'') body) (\<lambda>(fs, _).
          Inr (CopyInResponse overall fs)))))
      else if tag = TAG_COMMAND_COMPLETE then
        bindr (read_cstr ''CommandComplete.tag'' body) (\<lambda>(t, _). Inr (CommandComplete t))
      else if tag = TAG_EMPTY_QUERY_RESPONSE then Inr EmptyQueryResponse
      else if tag = TAG_ERROR_RESPONSE then
        bindr (read_error_fields body) (\<lambda>(fs, _). Inr (ErrorResponse fs))
      else if tag = TAG_NOTICE_RESPONSE then
        bindr (read_error_fields body) (\<lambda>(fs, _). Inr (NoticeResponse fs))
      else if tag = TAG_PARSE_COMPLETE then Inr ParseComplete
      else if tag = TAG_BIND_COMPLETE then Inr BindComplete
      else if tag = TAG_CLOSE_COMPLETE then Inr CloseComplete
      else if tag = TAG_NO_DATA then Inr NoData
      else if tag = TAG_PARAMETER_DESCRIPTION then
        bindr (read_i16 ''ParameterDescription.count'' body) (\<lambda>(count, body).
        bindr (count_of_i16 ''ParameterDescription'' count) (\<lambda>n.
        bindr (read_n n (read_u32 ''ParameterDescription.oid'') body) (\<lambda>(oids, _).
          Inr (ParameterDescription oids))))
      else if tag = TAG_PORTAL_SUSPENDED then Inr PortalSuspended
      else Inr (Other tag body))"

section \<open>Framing\<close>

text \<open>
  One call of \<open>Decoder::decode\<close>: the outcome and the buffer after the call. A frame is the tag, a
  length that counts itself but not the tag, and the body.
\<close>

definition decode :: "bytes \<Rightarrow> (error + backend_message option) \<times> bytes" where
  "decode src =
     (if length src < 5 then (Inr None, src)
      else
        (let len = unat (of_be (take 4 (drop 1 src)) :: u32)
         in if len < 4
            then (Inl (Protocol (''backend message length '' @ show_nat len @
                    '' smaller than length-field width'')), src)
            else if length src < 1 + len then (Inr None, src)
            else
              (let tag = src ! 0; rest = drop 5 src; body_len = len - 4
               in (bindr (decode_body tag (take body_len rest)) (\<lambda>m. Inr (Some m)),
                   drop body_len rest))))"

section \<open>The documented layout of backend messages\<close>

text \<open>
  The layout of each message as the PostgreSQL documentation gives it, written as an encoder: it is
  the specification the decoder is measured against. \<open>wf_message\<close> collects the conditions under
  which a message has such a layout (NUL-free UTF-8 texts, counts that fit a signed 16-bit count).
\<close>

definition cstr :: "str \<Rightarrow> bytes" where
  "cstr s = as_bytes s @ [0]"

definition wf_cstr :: "str \<Rightarrow> bool" where
  "wf_cstr s = (valid_str s \<and> 0 \<notin> set (as_bytes s))"

definition encode_count :: "nat \<Rightarrow> bytes" where
  "encode_count n = be_bytes 2 (of_nat n :: i16)"

definition encode_row_field :: "row_field \<Rightarrow> bytes" where
  "encode_row_field f =
     cstr (rf_name f) @ be_bytes 4 (rf_table_oid f) @ be_bytes 2 (rf_column_id f) @
     be_bytes 4 (rf_type_oid f) @ be_bytes 2 (rf_type_size f) @ be_bytes 4 (rf_type_modifier f) @
     be_bytes 2 (rf_format f)"

definition encode_data_column :: "bytes option \<Rightarrow> bytes" where
  "encode_data_column c =
     (case c of None \<Rightarrow> be_bytes 4 (-1 :: i32)
      | Some bs \<Rightarrow> be_bytes 4 (of_nat (length bs) :: i32) @ bs)"

definition wf_data_column :: "bytes option \<Rightarrow> bool" where
  "wf_data_column c = (case c of None \<Rightarrow> True | Some bs \<Rightarrow> length bs < 2 ^ 31)"

definition encode_error_fields :: "(u8 \<times> str) list \<Rightarrow> bytes" where
  "encode_error_fields fs = concat (map (\<lambda>(k, v). k # cstr v) fs) @ [0]"

definition wf_error_fields :: "(u8 \<times> str) list \<Rightarrow> bool" where
  "wf_error_fields fs = list_all (\<lambda>(k, v). k \<noteq> 0 \<and> wf_cstr v) fs"

fun encode_auth :: "auth_request \<Rightarrow> bytes" where
  "encode_auth AuthOk = be_bytes 4 (0 :: i32)"
| "encode_auth CleartextPassword = be_bytes 4 (3 :: i32)"
| "encode_auth (Md5Password salt) = be_bytes 4 (5 :: i32) @ salt"
| "encode_auth (SaslMechanisms ms) = be_bytes 4 (10 :: i32) @ concat (map cstr ms) @ [0]"
| "encode_auth (SaslContinue d) = be_bytes 4 (11 :: i32) @ d"
| "encode_auth (SaslFinal d) = be_bytes 4 (12 :: i32) @ d"
| "encode_auth (AuthUnsupported c) = be_bytes 4 c"

fun wf_auth :: "auth_request \<Rightarrow> bool" where
  "wf_auth (Md5Password salt) = (length salt = 4)"
| "wf_auth (SaslMechanisms ms) = list_all (\<lambda>m. wf_cstr m \<and> m \<noteq> []) ms"
| "wf_auth (AuthUnsupported c) = (c \<notin> {0, 3, 5, 10, 11, 12})"
| "wf_auth _ = True"

fun message_tag :: "backend_message \<Rightarrow> u8" where
  "message_tag (Authentication _) = TAG_AUTH"
| "message_tag (ParameterStatus _ _) = TAG_PARAMETER_STATUS"
| "message_tag (BackendKeyData _ _) = TAG_BACKEND_KEY_DATA"
| "message_tag (ReadyForQuery _) = TAG_READY_FOR_QUERY"
| "message_tag (RowDescription _) = TAG_ROW_DESCRIPTION"
| "message_tag (DataRow _) = TAG_DATA_ROW"
| "message_tag (CopyInResponse _ _) = TAG_COPY_IN_RESPONSE"
| "message_tag (CommandComplete _) = TAG_COMMAND_COMPLETE"
| "message_tag EmptyQueryResponse = TAG_EMPTY_QUERY_RESPONSE"
| "message_tag (ErrorResponse _) = TAG_ERROR_RESPONSE"
| "message_tag (NoticeResponse _) = TAG_NOTICE_RESPONSE"
| "message_tag ParseComplete = TAG_PARSE_COMPLETE"
| "message_tag BindComplete = TAG_BIND_COMPLETE"
| "message_tag CloseComplete = TAG_CLOSE_COMPLETE"
| "message_tag NoData = TAG_NO_DATA"
| "message_tag (ParameterDescription _) = TAG_PARAMETER_DESCRIPTION"
| "message_tag PortalSuspended = TAG_PORTAL_SUSPENDED"
| "message_tag (Other tag _) = tag"

definition known_tags :: "u8 list" where
  "known_tags =
     [TAG_AUTH, TAG_PARAMETER_STATUS, TAG_BACKEND_KEY_DATA, TAG_READY_FOR_QUERY,
      TAG_ROW_DESCRIPTION, TAG_DATA_ROW, TAG_COPY_IN_RESPONSE, TAG_COMMAND_COMPLETE,
      TAG_EMPTY_QUERY_RESPONSE, TAG_ERROR_RESPONSE, TAG_NOTICE_RESPONSE, TAG_PARSE_COMPLETE,
      TAG_BIND_COMPLETE, TAG_CLOSE_COMPLETE, TAG_NO_DATA, TAG_PARAMETER_DESCRIPTION,
      TAG_PORTAL_SUSPENDED]"

fun encode_body :: "backend_message \<Rightarrow> bytes" where
  "encode_body (Authentication a) = encode_auth a"
| "encode_body (ParameterStatus n v) = cstr n @ cstr v"
| "encode_body (BackendKeyData p k) = be_bytes 4 p @ be_bytes 4 k"
| "encode_body (ReadyForQuery st) = [st]"
| "encode_body (RowDescription fs) = encode_count (length fs) @ concat (map encode_row_field fs)"
| "encode_body (DataRow cs) = encode_count (length cs) @ concat (map encode_data_column cs)"
| "encode_body (CopyInResponse f fs) =
     f # encode_count (length fs) @ concat (map (be_bytes 2) fs)"
| "encode_body (CommandComplete t) = cstr t"
| "encode_body (ErrorResponse fs) = encode_error_fields fs"
| "encode_body (NoticeResponse fs) = encode_error_fields fs"
| "encode_body (ParameterDescription ts) = encode_count (length ts) @ concat (map (be_bytes 4) ts)"
| "encode_body (Other _ body) = body"
| "encode_body _ = []"

fun wf_body :: "backend_message \<Rightarrow> bool" where
  "wf_body (Authentication a) = wf_auth a"
| "wf_body (ParameterStatus n v) = (wf_cstr n \<and> wf_cstr v)"
| "wf_body (RowDescription fs) = (length fs < 2 ^ 15 \<and> list_all (\<lambda>f. wf_cstr (rf_name f)) fs)"
| "wf_body (DataRow cs) = (length cs < 2 ^ 15 \<and> list_all wf_data_column cs)"
| "wf_body (CopyInResponse f fs) = (length fs < 2 ^ 15)"
| "wf_body (CommandComplete t) = wf_cstr t"
| "wf_body (ErrorResponse fs) = wf_error_fields fs"
| "wf_body (NoticeResponse fs) = wf_error_fields fs"
| "wf_body (ParameterDescription ts) = (length ts < 2 ^ 15)"
| "wf_body (Other tag _) = (tag \<notin> set known_tags)"
| "wf_body _ = True"

definition wf_message :: "backend_message \<Rightarrow> bool" where
  "wf_message m = (wf_body m \<and> length (encode_body m) + 4 < 2 ^ 32)"

definition encode_frame :: "backend_message \<Rightarrow> bytes" where
  "encode_frame m =
     message_tag m # be_bytes 4 (of_nat (4 + length (encode_body m)) :: u32) @ encode_body m"

section \<open>Readers invert their layouts\<close>

text \<open>
  The contract of a reader: it takes exactly one encoded item off the front. The client lemma is
  the counted loop of the message bodies.
\<close>

locale item_reader =
  fixes rd :: "'a reader" and wr :: "'a \<Rightarrow> bytes" and ok :: "'a \<Rightarrow> bool"
  assumes read_write: "ok x \<Longrightarrow> rd (wr x @ rest) = Inr (x, rest)"
begin

lemma read_n_write:
  "list_all ok xs \<Longrightarrow> read_n (length xs) rd (concat (map wr xs) @ rest) = Inr (xs, rest)"
  by (induction xs) (auto simp: read_write)

end

lemma read_fixed:
  assumes "length ws = n"
  shows "take n (ws @ rest) = ws" "drop n (ws @ rest) = rest" "\<not> length (ws @ rest) < n"
  using assms by auto

lemma read_u8_write: "read_u8 ctx (b # rest) = Inr (b, rest)"
  by (simp add: read_u8_def)

interpretation i16_reader: item_reader "read_i16 ctx" "be_bytes 2" "\<lambda>_. True"
  by unfold_locales (simp add: read_i16_def)

interpretation i32_reader: item_reader "read_i32 ctx" "be_bytes 4" "\<lambda>_. True"
  by unfold_locales (simp add: read_i32_def)

interpretation u32_reader: item_reader "read_u32 ctx" "be_bytes 4" "\<lambda>_. True"
  by unfold_locales (simp add: read_u32_def)

lemma nul_position_cstr: "0 \<notin> set bs \<Longrightarrow> nul_position (bs @ 0 # rest) = Some (length bs)"
proof -
  assume "0 \<notin> set bs"
  then have "takeWhile (\<lambda>b. b \<noteq> 0) (bs @ 0 # rest) = bs"
    by (induction bs) auto
  then show ?thesis by (simp add: nul_position_def)
qed

interpretation cstr_reader: item_reader "read_cstr ctx" cstr wf_cstr
proof
  fix x :: str and rest
  assume x: "wf_cstr x"
  then have "nul_position (cstr x @ rest) = Some (length x)"
    using nul_position_cstr [of "as_bytes x" rest] by (simp add: wf_cstr_def cstr_def)
  moreover have "take (length x) (cstr x @ rest) = as_bytes x"
    and "drop (length x + 1) (cstr x @ rest) = rest"
    by (simp_all add: cstr_def)
  ultimately show "read_cstr ctx (cstr x @ rest) = Inr (x, rest)"
    using x by (simp add: read_cstr_def wf_cstr_def)
qed

lemmas reader_rules =
  i16_reader.read_write [OF TrueI] i32_reader.read_write [OF TrueI]
  u32_reader.read_write [OF TrueI] cstr_reader.read_write

interpretation row_field_reader: item_reader read_row_field encode_row_field
  "\<lambda>f. wf_cstr (rf_name f)"
  by unfold_locales (simp add: read_row_field_def encode_row_field_def reader_rules)

lemma sint_of_nat: "n < 2 ^ (LENGTH('a) - 1) \<Longrightarrow> sint (of_nat n :: 'a::len word) = int n"
proof -
  assume "n < 2 ^ (LENGTH('a) - 1)"
  then have "int n < 2 ^ (LENGTH('a) - 1)"
    by (metis of_nat_less_iff of_nat_numeral of_nat_power)
  moreover have "- (2 ^ (LENGTH('a) - 1)) \<le> int n"
    by (rule order_trans [of _ 0]) simp_all
  ultimately show ?thesis
    by (simp add: signed_of_nat signed_take_bit_int_eq_self)
qed

lemma count_of_encode [simp]: "n < 2 ^ 15 \<Longrightarrow> count_of_i16 what (of_nat n) = Inr n"
  by (simp add: count_of_i16_def sint_of_nat)

lemma read_count [simp]: "read_i16 ctx (encode_count n @ rest) = Inr (of_nat n, rest)"
  by (simp add: encode_count_def reader_rules)

interpretation data_column_reader: item_reader read_data_column encode_data_column wf_data_column
proof
  fix x :: "bytes option" and rest
  assume x: "wf_data_column x"
  show "read_data_column (encode_data_column x @ rest) = Inr (x, rest)"
  proof (cases x)
    case None
    then show ?thesis
      by (simp add: read_data_column_def encode_data_column_def reader_rules)
  next
    case (Some bs)
    with x have len: "sint (of_nat (length bs) :: i32) = int (length bs)"
      by (intro sint_of_nat) (simp add: wf_data_column_def)
    have "(of_nat (length bs) :: i32) \<noteq> -1"
    proof
      assume "(of_nat (length bs) :: i32) = -1"
      then have "sint (of_nat (length bs) :: i32) = -1" by (simp only: signed_minus_1)
      with len show False by linarith
    qed
    with Some len show ?thesis
      by (simp add: read_data_column_def encode_data_column_def reader_rules)
  qed
qed

lemma read_error_fields_write:
  "wf_error_fields fs \<Longrightarrow> read_error_fields (encode_error_fields fs @ rest) = Inr (fs, rest)"
proof (induction fs)
  case Nil
  show ?case
    by (subst read_error_fields.simps) (simp add: encode_error_fields_def read_u8_write)
next
  case (Cons kv fs)
  obtain k v where kv: "kv = (k, v)" by (cases kv)
  from Cons have IH: "read_error_fields (encode_error_fields fs @ rest) = Inr (fs, rest)"
    and wf: "k \<noteq> 0" "wf_cstr v"
    by (auto simp: wf_error_fields_def kv)
  have "encode_error_fields (kv # fs) @ rest = k # cstr v @ encode_error_fields fs @ rest"
    by (simp add: encode_error_fields_def kv)
  with IH wf show ?case
    by (subst read_error_fields.simps) (simp add: read_u8_write reader_rules kv)
qed

lemma sasl_mechanisms_write:
  "list_all (\<lambda>m. wf_cstr m \<and> m \<noteq> []) ms \<Longrightarrow>
   sasl_mechanisms (concat (map cstr ms) @ 0 # rest) = Inr ms"
proof (induction ms)
  case Nil
  show ?case by (subst sasl_mechanisms.simps) simp
next
  case (Cons m ms)
  let ?tl = "concat (map cstr ms) @ 0 # rest"
  from Cons.prems have m: "wf_cstr m" "m \<noteq> []" by auto
  then obtain c m' where c: "m = c # m'" by (cases m) auto
  have nul: "nul_position (cstr m @ ?tl) = Some (length m)"
    using m(1) nul_position_cstr [of "as_bytes m" ?tl] by (simp add: cstr_def wf_cstr_def)
  have split: "take (length m) (cstr m @ ?tl) = as_bytes m"
    "drop (length m + 1) (cstr m @ ?tl) = ?tl"
    by (simp_all add: cstr_def)
  have hd: "cstr m @ ?tl = of_char c # (as_bytes m' @ 0 # ?tl)" "of_char c \<noteq> (0 :: byte)"
    using m(1) by (auto simp: c cstr_def wf_cstr_def)
  have "sasl_mechanisms (cstr m @ ?tl) = Inr (m # ms)"
    using Cons m(1) nul split hd(2)
    by (subst sasl_mechanisms.simps) (simp add: hd(1) wf_cstr_def)
  then show ?case by simp
qed

lemma decode_auth_write:
  "wf_auth a \<Longrightarrow>
   bindr (read_i32 ctx (encode_auth a)) (\<lambda>(code, body). decode_auth code body) = Inr a"
  using sasl_mechanisms_write [of _ "[]"]
  by (cases a) (auto simp: decode_auth_def reader_rules reader_rules [where rest = "[]", simplified])

lemma decode_body_encode: "wf_body m \<Longrightarrow> decode_body (message_tag m) (encode_body m) = Inr m"
proof (cases m)
  case (Authentication a)
  moreover assume "wf_body m"
  ultimately have "bindr (read_i32 ctx (encode_auth a)) (\<lambda>(code, body). decode_auth code body) = Inr a"
    for ctx by (simp add: decode_auth_write)
  then have "bindr (read_i32 ctx (encode_auth a))
      (\<lambda>(code, body). bindr (decode_auth code body) (\<lambda>a. Inr (Authentication a))) =
      Inr (Authentication a)" for ctx
    by (auto simp: bindr_eq_Inr_iff split: prod.splits)
  with Authentication show ?thesis by (simp add: decode_body_def)
next
  case (RowDescription fs)
  moreover assume "wf_body m"
  ultimately show ?thesis
    using row_field_reader.read_n_write [of fs "[]"] by (simp add: decode_body_def tag_defs)
next
  case (DataRow cs)
  moreover assume "wf_body m"
  ultimately show ?thesis
    using data_column_reader.read_n_write [of cs "[]"] by (simp add: decode_body_def tag_defs)
next
  case (CopyInResponse f fs)
  moreover assume "wf_body m"
  ultimately show ?thesis
    using i16_reader.read_n_write [where xs = fs and rest = "[]"]
    by (simp add: decode_body_def tag_defs read_u8_write list_all_iff)
next
  case (ParameterDescription ts)
  moreover assume "wf_body m"
  ultimately show ?thesis
    using u32_reader.read_n_write [where xs = ts and rest = "[]"]
    by (simp add: decode_body_def tag_defs list_all_iff)
next
  case (ErrorResponse fs)
  moreover assume "wf_body m"
  ultimately show ?thesis
    using read_error_fields_write [of fs "[]"] by (simp add: decode_body_def tag_defs)
next
  case (NoticeResponse fs)
  moreover assume "wf_body m"
  ultimately show ?thesis
    using read_error_fields_write [of fs "[]"] by (simp add: decode_body_def tag_defs)
next
  case (ParameterStatus n v)
  moreover assume "wf_body m"
  ultimately show ?thesis
    using cstr_reader.read_write [where x = v and rest = "[]"]
    by (simp add: decode_body_def tag_defs reader_rules)
next
  case (BackendKeyData p k)
  then show ?thesis
    using i32_reader.read_write [where x = k and rest = "[]"]
    by (simp add: decode_body_def tag_defs reader_rules)
next
  case (CommandComplete t)
  moreover assume "wf_body m"
  ultimately show ?thesis
    using cstr_reader.read_write [where x = t and rest = "[]"] by (simp add: decode_body_def tag_defs)
next
  case (ReadyForQuery st)
  then show ?thesis by (simp add: decode_body_def tag_defs read_u8_write)
next
  case (Other tag body)
  moreover assume "wf_body m"
  ultimately show ?thesis by (simp add: decode_body_def known_tags_def)
qed (simp_all add: decode_body_def tag_defs)

section \<open>Framing properties\<close>

lemma decode_frame_eq:
  assumes "length body + 4 < 2 ^ 32"
  shows "decode (tag # be_bytes 4 (of_nat (4 + length body) :: u32) @ body @ rest) =
    (bindr (decode_body tag body) (\<lambda>m. Inr (Some m)), rest)"
proof -
  have "unat (of_nat (4 + length body) :: u32) = 4 + length body"
    using assms by (simp add: unat_of_nat del: of_nat_add)
  then show ?thesis
    by (simp add: decode_def Let_def)
qed

lemma decode_encode_frame_aux:
  "wf_message m \<Longrightarrow> decode (encode_frame m @ rest) = (Inr (Some m), rest)"
  using decode_frame_eq [of "encode_body m" "message_tag m" rest]
  by (simp add: encode_frame_def wf_message_def decode_body_encode)

lemma decode_append:
  assumes "decode src = (r, rest)" and "r \<noteq> Inr None"
  shows "decode (src @ later) = (r, rest @ later)"
proof -
  define len where "len = unat (of_be (take 4 (drop 1 src)) :: u32)"
  have five: "5 \<le> length src"
  proof (rule ccontr)
    assume "\<not> 5 \<le> length src"
    with assms show False by (auto simp: decode_def)
  qed
  then have same: "take 4 (drop 1 (src @ later)) = take 4 (drop 1 src)"
    "(src @ later) ! 0 = src ! 0"
    by (auto simp: nth_append)
  show ?thesis
  proof (cases "len < 4")
    case True
    with assms five same show ?thesis
      by (auto simp: decode_def Let_def len_def)
  next
    case False
    then have "1 + len \<le> length src"
      using assms five by (auto simp: decode_def Let_def len_def split: if_splits)
    with False assms five same show ?thesis
      by (auto simp: decode_def Let_def len_def)
  qed
qed

lemma decode_Some_shorter:
  "decode src = (r, rest) \<Longrightarrow> r = Inr (Some m) \<Longrightarrow> length rest + 5 \<le> length src"
  by (auto simp: decode_def Let_def split: if_splits)

lemma decode_None_rest: "decode src = (Inr None, rest) \<Longrightarrow> rest = src"
  by (auto simp: decode_def Let_def bindr_eq_Inr_iff split: if_splits)

text \<open>
  The loop a caller of the decoder runs over its buffer: take messages until the decoder asks for
  more bytes or fails. The result is the messages, the error if there was one, and the buffer.
\<close>

function drain :: "bytes \<Rightarrow> backend_message list \<times> error option \<times> bytes" where
  "drain src =
     (case decode src of
        (Inl e, rest) \<Rightarrow> ([], Some e, rest)
      | (Inr None, rest) \<Rightarrow> ([], None, rest)
      | (Inr (Some m), rest) \<Rightarrow> (let (ms, e, rest') = drain rest in (m # ms, e, rest')))"
  by pat_completeness auto
termination
  by (relation "measure length") (auto dest: decode_Some_shorter [OF sym])

declare drain.simps [simp del]

lemma drain_None: "decode src = (Inr None, rest) \<Longrightarrow> drain src = ([], None, rest)"
  by (subst drain.simps) simp

lemma drain_Err: "decode src = (Inl e, rest) \<Longrightarrow> drain src = ([], Some e, rest)"
  by (subst drain.simps) simp

lemma drain_Some:
  "decode src = (Inr (Some m), rest) \<Longrightarrow> drain rest = (ms, e, rest') \<Longrightarrow>
   drain src = (m # ms, e, rest')"
  by (subst drain.simps) simp

lemma drain_append_aux:
  assumes "drain as = (ms, None, rest)" and "drain (rest @ bs) = (ms', e, rest')"
  shows "drain (as @ bs) = (ms @ ms', e, rest')"
  using assms
proof (induction as arbitrary: ms rule: drain.induct)
  case (1 src)
  obtain r u where d: "decode src = (r, u)" by (cases "decode src")
  show ?case
  proof (cases r)
    case (Inl err)
    with d "1.prems"(1) show ?thesis by (simp add: drain_Err)
  next
    case (Inr om)
    show ?thesis
    proof (cases om)
      case None
      with d Inr have "u = src" using decode_None_rest by blast
      with d Inr None "1.prems" show ?thesis by (simp add: drain_None)
    next
      case (Some m)
      obtain ms1 e1 r1 where tl: "drain u = (ms1, e1, r1)" by (cases "drain u") auto
      with d Inr Some "1.prems"(1) have ms: "ms = m # ms1" and e1: "e1 = None" and r1: "r1 = rest"
        by (auto simp: drain_Some)
      have "drain (u @ bs) = (ms1 @ ms', e, rest')"
        using d Inr Some tl e1 r1 "1.prems"(2) by (intro "1.IH") auto
      moreover have "decode (src @ bs) = (Inr (Some m), u @ bs)"
        using d Inr Some by (intro decode_append) auto
      ultimately show ?thesis
        by (simp add: ms drain_Some)
    qed
  qed
qed

lemma drain_frames_aux:
  "list_all wf_message ms \<Longrightarrow> drain (concat (map encode_frame ms) @ rest) =
   (let (ms', e, rest') = drain rest in (ms @ ms', e, rest'))"
proof (induction ms)
  case Nil
  then show ?case by (simp split: prod.splits)
next
  case (Cons m ms)
  then have "decode (encode_frame m @ concat (map encode_frame ms) @ rest) =
      (Inr (Some m), concat (map encode_frame ms) @ rest)"
    by (intro decode_encode_frame_aux) simp
  with Cons show ?case
    by (auto simp: drain_Some split: prod.splits)
qed

section \<open>Claims\<close>

text \<open>
  C20. Every backend message in its documented layout is decoded to itself, whatever follows it in
  the buffer, and exactly its frame is consumed.
\<close>

theorem decode_encode_frame:
  assumes "wf_message m"
  shows "decode (encode_frame m @ rest) = (Inr (Some m), rest)"
  using assms by (rule decode_encode_frame_aux)

theorem decode_encode_frame_witness:
  "decode (encode_frame (DataRow [Some [88], None]) @ [90]) =
     (Inr (Some (DataRow [Some [88], None])), [90])"
  by (rule decode_encode_frame)
    (simp add: wf_message_def wf_data_column_def encode_count_def encode_data_column_def)

text \<open>
  C21. How the network cuts the byte stream does not matter: draining the buffer after a first read
  and again after the rest has arrived gives the messages, the error and the leftover bytes of one
  drain over everything.
\<close>

theorem drain_append:
  assumes "drain first = (ms, None, left)" and "drain (left @ second) = (ms', e, left')"
  shows "drain (first @ second) = (ms @ ms', e, left')"
  using assms by (rule drain_append_aux)

theorem drain_append_witness:
  "drain ([90, 0, 0, 0] @ [5, 73]) = ([] @ [ReadyForQuery 73], None, [])"
proof (rule drain_append)
  show "drain [90, 0, 0, 0] = ([], None, [90, 0, 0, 0])"
    by (rule drain_None) (simp add: decode_def)
  have "decode ([90, 0, 0, 0] @ [5, 73]) = (Inr (Some (ReadyForQuery 73)), [])"
    by (simp add: decode_def decode_body_def tag_defs of_be_def read_u8_def)
  moreover have "drain [] = ([], None, [])"
    by (rule drain_None) (simp add: decode_def)
  ultimately show "drain ([90, 0, 0, 0] @ [5, 73]) = ([ReadyForQuery 73], None, [])"
    by (rule drain_Some)
qed

text \<open>
  The decoder asks for more bytes exactly while the frame at the front is incomplete (and its
  length field is legal), and then leaves the buffer as it was.
\<close>

lemma decode_waits_iff:
  "decode src = (Inr None, rest) \<longleftrightarrow>
     rest = src \<and>
     (length src < 5 \<or>
      (4 \<le> unat (of_be (take 4 (drop 1 src)) :: u32) \<and>
       length src < 1 + unat (of_be (take 4 (drop 1 src)) :: u32)))"
  by (auto simp: decode_def Let_def bindr_eq_Inr_iff split: if_splits)

end
