(* ===== verification/Codec_Primitive.thy ===== *)
theory Codec_Primitive
  imports Codec_Core Backend_Codec
begin

text \<open>
  The primitive codecs (\<open>codec/primitive.rs\<close>): integers, floating point, booleans, text and bytea, in
  binary format with the text fallbacks of the decoders. A float is its bit pattern; the decimal
  parser of the standard library is a parameter of the two float codecs.
\<close>

section \<open>Shared helpers\<close>

definition primitive_bytes :: "raw_row \<Rightarrow> str \<Rightarrow> bytes result" where
  "primitive_bytes columns type_name =
     (case columns of
        [] \<Rightarrow> Inl (Codec (type_name @
               '': decoder needs 1 column, got 0; this is a driver bug if it reached you''))
      | None # _ \<Rightarrow> Inl (Codec (type_name @ '': unexpected NULL; use nullable() to allow it''))
      | Some bytes # _ \<Rightarrow> Inr bytes)"

definition utf8_column :: "str \<Rightarrow> bytes \<Rightarrow> str result" where
  "utf8_column type_name bs =
     map_err (\<lambda>e. Codec (type_name @ '': column not UTF-8: '' @ show_utf8_error e)) (from_utf8 bs)"

definition primitive_str :: "raw_row \<Rightarrow> str \<Rightarrow> str result" where
  "primitive_str columns type_name =
     bindr (primitive_bytes columns type_name) (utf8_column type_name)"

text \<open>The decoder of the integers: the binary form by its length, any other length as text.\<close>

definition int_decode ::
    "str \<Rightarrow> nat \<Rightarrow> (str \<Rightarrow> parse_int_error + 'w::len word) \<Rightarrow> raw_row \<Rightarrow> 'w word result" where
  "int_decode type_name width parse columns =
     bindr (primitive_bytes columns type_name) (\<lambda>bs.
       if length bs = width then Inr (of_be bs)
       else bindr (utf8_column type_name bs) (\<lambda>s.
              map_err (\<lambda>e. Codec (type_name @ '': '' @ show_parse_int_error e @ '' (got '' @ debug_str s @ '')''))
                (parse s)))"

definition int2 :: "i16 codec" where
  "int2 = scalar INT2 FORMAT_BINARY (be_bytes 2) (int_decode ''int2'' 2 parse_i16)"

definition int4 :: "i32 codec" where
  "int4 = scalar INT4 FORMAT_BINARY (be_bytes 4) (int_decode ''int4'' 4 parse_i32)"

definition int8 :: "i64 codec" where
  "int8 = scalar INT8 FORMAT_BINARY (be_bytes 8) (int_decode ''int8'' 8 parse_i64)"

section \<open>Floating point\<close>

definition parse_float_f32 :: "(str \<Rightarrow> str + u32) \<Rightarrow> str \<Rightarrow> u32 result" where
  "parse_float_f32 parse s =
     (if s = ''NaN'' then Inr 0x7FC00000
      else if s = ''Infinity'' then Inr 0x7F800000
      else if s = ''-Infinity'' then Inr 0xFF800000
      else map_err (\<lambda>e. Codec (''float4: '' @ e @ '' (got '' @ debug_str s @ '')'')) (parse s))"

definition parse_float_f64 :: "(str \<Rightarrow> str + u64) \<Rightarrow> str \<Rightarrow> u64 result" where
  "parse_float_f64 parse s =
     (if s = ''NaN'' then Inr 0x7FF8000000000000
      else if s = ''Infinity'' then Inr 0x7FF0000000000000
      else if s = ''-Infinity'' then Inr 0xFFF0000000000000
      else map_err (\<lambda>e. Codec (''float8: '' @ e @ '' (got '' @ debug_str s @ '')'')) (parse s))"

definition float_decode ::
    "str \<Rightarrow> nat \<Rightarrow> (str \<Rightarrow> 'w::len word result) \<Rightarrow> raw_row \<Rightarrow> 'w word result" where
  "float_decode type_name width parse columns =
     bindr (primitive_bytes columns type_name) (\<lambda>bs.
       case bindr (map_err (\<lambda>_. ()) (from_utf8 bs)) (\<lambda>s. map_err (\<lambda>_. ()) (parse s)) of
         Inr v \<Rightarrow> Inr v
       | Inl _ \<Rightarrow>
           (if length bs = width then Inr (of_be bs)
            else Inl (Codec (type_name @ '': cannot decode '' @ show_nat (length bs) @
                        '' bytes as text or binary''))))"

definition float4 :: "(str \<Rightarrow> str + u32) \<Rightarrow> u32 codec" where
  "float4 parse =
     scalar FLOAT4 FORMAT_BINARY (be_bytes 4) (float_decode ''float4'' 4 (parse_float_f32 parse))"

definition float8 :: "(str \<Rightarrow> str + u64) \<Rightarrow> u64 codec" where
  "float8 parse =
     scalar FLOAT8 FORMAT_BINARY (be_bytes 8) (float_decode ''float8'' 8 (parse_float_f64 parse))"

section \<open>Booleans\<close>

definition show_byte_hex :: "byte \<Rightarrow> str" where
  "show_byte_hex b = ''0x'' @ hex2 b"

text \<open>\<open>lossy\<close> is \<open>String::from_utf8_lossy\<close>, used in one error text only.\<close>

definition bool_decode :: "(bytes \<Rightarrow> str) \<Rightarrow> raw_row \<Rightarrow> bool result" where
  "bool_decode lossy columns =
     bindr (primitive_bytes columns ''bool'') (\<lambda>bs.
       case bs of
         [b] \<Rightarrow>
           (if b = 1 \<or> b = byte_of (CHR ''t'') then Inr True
            else if b = 0 \<or> b = byte_of (CHR ''f'') then Inr False
            else Inl (Codec (''bool: unexpected byte '' @ show_byte_hex b)))
       | _ \<Rightarrow>
           (if bs \<in> {as_bytes ''t'', as_bytes ''true'', as_bytes ''1''} then Inr True
            else if bs \<in> {as_bytes ''f'', as_bytes ''false'', as_bytes ''0''} then Inr False
            else Inl (Codec (''bool: unexpected value '' @ debug_str (lossy bs)))))"

definition bool_codec :: "(bytes \<Rightarrow> str) \<Rightarrow> bool codec" where
  "bool_codec lossy = scalar BOOL FORMAT_BINARY (\<lambda>v. [if v then 1 else 0]) (bool_decode lossy)"

section \<open>Text and bytes\<close>

definition text_codec :: "str codec" where
  "text_codec = scalar TEXT FORMAT_BINARY as_bytes (\<lambda>columns. primitive_str columns ''text'')"

definition varchar :: "str codec" where
  "varchar = scalar VARCHAR FORMAT_BINARY as_bytes (\<lambda>columns. primitive_str columns ''varchar'')"

definition bpchar :: "str codec" where
  "bpchar = scalar BPCHAR FORMAT_BINARY as_bytes (\<lambda>columns. primitive_str columns ''bpchar'')"

fun chunks2 :: "str \<Rightarrow> str list" where
  "chunks2 (a # b # cs) = [a, b] # chunks2 cs"
| "chunks2 [] = []"
| "chunks2 [a] = [[a]]"

definition bytea_decode :: "raw_row \<Rightarrow> bytes result" where
  "bytea_decode columns =
     bindr (primitive_bytes columns ''bytea'') (\<lambda>bs.
       if take 2 bs = as_bytes [bslash, CHR ''x''] then
         bindr (map_err (\<lambda>e. Codec (''bytea: text not UTF-8: '' @ show_utf8_error e)) (from_utf8 bs)) (\<lambda>s.
           let hex = drop 2 s
           in if length hex mod 2 \<noteq> 0
              then Inl (Codec (''bytea: odd hex length in '' @ debug_str s))
              else collect_r (\<lambda>chunk.
                     bindr (map_err (\<lambda>_. Codec ''bytea: non-UTF8'') (from_utf8 (as_bytes chunk))) (\<lambda>pair.
                       map_err (\<lambda>_. Codec (''bytea: bad hex digit pair '' @ debug_str pair))
                         (parse_u8_hex pair))) (chunks2 hex))
       else Inr bs)"

definition bytea :: "bytes codec" where
  "bytea = scalar BYTEA FORMAT_BINARY (\<lambda>v. v) bytea_decode"

section \<open>The codecs keep their contract\<close>

lemma primitive_bytes_Some [simp]: "primitive_bytes (Some bs # rest) t = Inr bs"
  by (simp add: primitive_bytes_def)

lemma primitive_str_Some [simp]: "valid_str s \<Longrightarrow> primitive_str (Some (as_bytes s) # rest) t = Inr s"
  by (simp add: primitive_str_def utf8_column_def)

interpretation int2: codec_laws int2 "\<lambda>_. True"
  unfolding int2_def by (rule scalar_laws) (simp add: int_decode_def of_be_be_bytes_16)

interpretation int4: codec_laws int4 "\<lambda>_. True"
  unfolding int4_def by (rule scalar_laws) (simp add: int_decode_def of_be_be_bytes_32)

interpretation int8: codec_laws int8 "\<lambda>_. True"
  unfolding int8_def by (rule scalar_laws) (simp add: int_decode_def of_be_be_bytes_64)

interpretation bool_codec: codec_laws "bool_codec lossy" "\<lambda>_. True" for lossy
  unfolding bool_codec_def by (rule scalar_laws) (simp add: bool_decode_def byte_of_def)

interpretation text_codec: codec_laws text_codec valid_str
  unfolding text_codec_def by (rule scalar_laws) simp

interpretation varchar: codec_laws varchar valid_str
  unfolding varchar_def by (rule scalar_laws) simp

interpretation bpchar: codec_laws bpchar valid_str
  unfolding bpchar_def by (rule scalar_laws) simp

text \<open>The values that the decoders do not mistake for text.\<close>

definition reads_as_text :: "(str \<Rightarrow> 'a result) \<Rightarrow> bytes \<Rightarrow> bool" where
  "reads_as_text parse bs = (valid_utf8 bs \<and> \<not> isl (parse (bytes_str bs)))"

lemma float_decode_binary:
  assumes "\<not> reads_as_text parse bs" and "length bs = width"
  shows "float_decode t width parse (Some bs # rest) = Inr (of_be bs)"
proof (cases "from_utf8 bs")
  case (Inl e)
  with assms(2) show ?thesis by (simp add: float_decode_def)
next
  case (Inr s)
  then have "valid_utf8 bs" "s = bytes_str bs" by (simp_all add: from_utf8_eq_Inr_iff)
  with assms(1) obtain e where "parse s = Inl e" by (auto simp: reads_as_text_def isl_def)
  with Inr assms(2) show ?thesis by (simp add: float_decode_def)
qed

interpretation float4: codec_laws "float4 parse" "\<lambda>v. \<not> reads_as_text (parse_float_f32 parse) (be_bytes 4 v)" for parse
  unfolding float4_def by (rule scalar_laws) (simp add: float_decode_binary of_be_be_bytes_32)

interpretation float8: codec_laws "float8 parse" "\<lambda>v. \<not> reads_as_text (parse_float_f64 parse) (be_bytes 8 v)" for parse
  unfolding float8_def by (rule scalar_laws) (simp add: float_decode_binary of_be_be_bytes_64)

definition hex_prefixed :: "bytes \<Rightarrow> bool" where
  "hex_prefixed bs = (take 2 bs = as_bytes [bslash, CHR ''x''])"

interpretation bytea: codec_laws bytea "\<lambda>v. \<not> hex_prefixed v"
  unfolding bytea_def by (rule scalar_laws) (simp add: bytea_decode_def hex_prefixed_def)

lemma length_chunks2: "2 * length (chunks2 s) \<le> length s + 1"
  by (induction s rule: chunks2.induct) auto

lemma bytea_hex_shorter:
  assumes "hex_prefixed bs" and "bytea_decode (Some bs # rest) = Inr v"
  shows "length v < length bs"
proof -
  from assms obtain s where s: "from_utf8 bs = Inr s" "length v = length (chunks2 (drop 2 s))"
    "even (length (drop 2 s))"
    by (auto simp: bytea_decode_def hex_prefixed_def bindr_eq_Inr_iff Let_def split: if_splits
        dest!: collect_r_length)
  from s(1) have "length s = length bs" by (simp add: from_utf8_eq_Inr_iff)
  moreover have "2 \<le> length bs" using arg_cong [OF assms(1) [unfolded hex_prefixed_def], of length] by simp
  ultimately show ?thesis using s(2) length_chunks2 [of "drop 2 s"] by simp
qed

lemma ascii_str_Cons: "ascii_str (c # s) \<longleftrightarrow> (of_char c :: nat) < 128 \<and> ascii_str s"
  by (simp add: ascii_str_def)

lemma ascii_str_show_int [simp]: "ascii_str (show_int i)"
  using ascii_str_show_nat [of "nat (- i)"] by (cases "i < 0") (simp_all add: show_int_def ascii_str_Cons)

lemmas valid_str_show_int [simp] = ascii_valid_str [OF ascii_str_show_int]

lemmas show_int_simps = show_int_def show_nat.simps digit_char_def

section \<open>Claims\<close>

text \<open>
  C32. Tuples: for components that keep the codec contract, a tuple fills exactly one slot per declared
  OID and decoding these slots returns the value, whatever columns follow.
\<close>

theorem tuple_roundtrip:
  assumes "codec_laws c valid" and "codec_laws cs valids" and "valid v" and "valids vs"
  shows "\<exists>slots. cd_encode (tuple (fields_cons c cs)) (v, vs) = Inr slots
    \<and> length slots = length (cd_oids (tuple (fields_cons c cs)))
    \<and> cd_decode (tuple (fields_cons c cs)) (slots @ rest) = Inr (v, vs)"
proof -
  have t: "codec_laws (tuple (fields_cons c cs)) (\<lambda>(v, vs). valid v \<and> valids vs)"
    using assms by (intro tuple_laws fields_cons_laws)
  from codec_laws.encodes [OF t, of "(v, vs)"] codec_laws.oids_length [OF t] assms(3,4) show ?thesis
    by auto
qed

theorem tuple_roundtrip_witness:
  "\<exists>slots. cd_encode (tuple (fields_cons int4 (fields_cons (nullable text_codec) fields_nil)))
       (7, Some ''a'', ()) = Inr slots \<and> length slots = 2
     \<and> cd_decode (tuple (fields_cons int4 (fields_cons (nullable text_codec) fields_nil)))
         (slots @ [None]) = Inr (7, Some ''a'', ())"
proof -
  note fs = fields_cons_laws [OF text_codec.nullable_laws fields_nil_laws]
  have "nullable_valid text_codec valid_str (Some ''a'')"
    by (simp add: nullable_valid_def text_codec_def scalar_def ascii_valid_str ascii_str_def)
  with tuple_roundtrip [OF int4.codec_laws_axioms fs, where v = 7 and vs = "(Some ''a'', ())" and rest = "[None]"] show ?thesis
    by (simp add: tuple_def fields_cons_def nullable_def text_codec_def int4_def scalar_def fields_nil_def)
qed

text \<open>
  The bytea codec returns a value unchanged exactly when it does not begin with the two bytes of
  the text prefix (backslash, x): those values are taken for hexadecimal text although they were
  sent and received in binary.
\<close>

theorem bytea_roundtrip_iff:
  "bindr (cd_encode bytea v) (cd_decode bytea) = Inr v \<longleftrightarrow> take 2 v \<noteq> as_bytes [bslash, CHR ''x'']"
proof (cases "hex_prefixed v")
  case True
  have "cd_decode bytea [Some v] \<noteq> Inr v"
    using bytea_hex_shorter [OF True, of "[]" v] by (auto simp: bytea_def scalar_def)
  with True show ?thesis by (simp add: bytea_def scalar_def hex_prefixed_def)
next
  case False
  with bytea.roundtrip [of v] show ?thesis by (simp add: hex_prefixed_def)
qed

text \<open>
  The integer decoder reads the server's decimal text back for every value whose text has not
  exactly the width of the binary form.
\<close>

lemma int4_reads_decimal_text:
  assumes "length (show_int (sint i)) \<noteq> 4"
  shows "cd_decode int4 (Some (as_bytes (show_int (sint i))) # rest) = Inr i"
  using assms by (simp add: int4_def scalar_def int_decode_def utf8_column_def)

lemma int4_reads_decimal_text_witness:
  "length (show_int (sint (12345 :: i32))) \<noteq> 4 \<and> cd_decode int4 [Some (as_bytes ''12345'')] = Inr 12345"
proof -
  have s: "show_int (sint (12345 :: i32)) = ''12345''" by (simp add: show_int_simps char_of_eq_iff)
  then have "length (show_int (sint (12345 :: i32))) \<noteq> 4" by simp
  from this int4_reads_decimal_text [OF this, of "[]"] show ?thesis unfolding s by simp
qed

text \<open>
  Decimal text of exactly four characters is read as the binary form: the text 1234 decodes to
  0x31323334, without an error.
\<close>

lemma int4_misreads_four_characters:
  "cd_decode int4 [Some (as_bytes (show_int 1234))] = Inr 0x31323334"
  by (simp add: int4_def scalar_def int_decode_def show_int_simps of_be_def byte_of_def)

text \<open>
  A float whose four bytes spell a number is replaced by that number: if the decimal parser
  accepts the text 1234 as \<open>w\<close>, the value sent as the bits 0x31323334 reads back as \<open>w\<close>.
\<close>

lemma float4_misreads_digits:
  assumes "parse ''1234'' = Inr w"
  shows "bindr (cd_encode (float4 parse) 0x31323334) (cd_decode (float4 parse)) = Inr w"
proof -
  define s where "s = ''1234''"
  have b: "be_bytes 4 (0x31323334 :: u32) = as_bytes s"
    by (simp add: s_def be_bytes_def byte_of_def nat_bytes_4)
  have "valid_str s" by (simp add: s_def ascii_valid_str ascii_str_def)
  moreover have "parse_float_f32 parse s = Inr w" using assms by (simp add: s_def parse_float_f32_def)
  ultimately show ?thesis by (simp add: float4_def scalar_def b float_decode_def)
qed

lemma float4_misreads_digits_witness:
  "bindr (cd_encode (float4 (\<lambda>s. if s = ''1234'' then Inr 0x449A4000 else Inl ''not a float'')) 0x31323334)
     (cd_decode (float4 (\<lambda>s. if s = ''1234'' then Inr 0x449A4000 else Inl ''not a float''))) = Inr 0x449A4000"
  by (rule float4_misreads_digits) simp

end
