(* ===== verification/Fragment.thy ===== *)
theory Fragment
  imports Codec_Primitive
begin

text \<open>
  SQL fragments and typed statements (\<open>query/fragment.rs\<close>, \<open>query/mod.rs\<close>): building SQL with numbered
  placeholders, pairing the parameter encoders, and binding arguments. The abstract view of a
  fragment is a list of pieces, literal text and parameter slots; \<open>render\<close> numbers the slots. The
  builder operations refine appending pieces.
\<close>

section \<open>Encoders and bound statements\<close>

text \<open>The encoding half of a codec: \<open>Encoder<A>\<close>, also behind an \<open>Arc\<close>.\<close>

record 'a encoder =
  en_encode :: "'a \<Rightarrow> raw_row result"
  en_oids :: "oid list"
  en_types :: "pg_type list"
  en_format_codes :: "i16 list"

definition encoder_of :: "'a codec \<Rightarrow> 'a encoder" where
  "encoder_of c =
     \<lparr>en_encode = cd_encode c, en_oids = cd_oids c, en_types = cd_types c,
      en_format_codes = cd_format_codes c\<rparr>"

record bound_statement =
  bo_sql :: str
  bo_params :: raw_row
  bo_param_types :: "pg_type list"
  bo_param_formats :: "i16 list"

text \<open>The three vectors that the macros fill one parameter at a time.\<close>

type_synonym bound_params = "raw_row \<times> pg_type list \<times> i16 list"

definition push_bound_param :: "'a encoder \<Rightarrow> 'a \<Rightarrow> bound_params \<Rightarrow> bound_params result" where
  "push_bound_param codec v = (\<lambda>(params, param_types, param_formats).
     bindr (en_encode codec v) (\<lambda>slots.
       Inr (params @ slots, param_types @ en_types codec, param_formats @ en_format_codes codec)))"

definition push_null_param :: "'a encoder \<Rightarrow> bound_params \<Rightarrow> bound_params" where
  "push_null_param codec = (\<lambda>(params, param_types, param_formats).
     (params @ replicate (length (en_oids codec)) None, param_types @ en_types codec,
      param_formats @ en_format_codes codec))"

definition toggle :: "bool encoder" where
  "toggle = \<lparr>en_encode = (\<lambda>_. Inr []), en_oids = [], en_types = [], en_format_codes = []\<rparr>"

definition unit_encoder :: "unit encoder" where
  "unit_encoder = encoder_of fields_nil"

text \<open>\<open>AppendOne\<close> and \<open>AppendChain\<close>: the head on the first component, the tail on the second.\<close>

definition append_encoders :: "'a encoder \<Rightarrow> 'b encoder \<Rightarrow> ('a \<times> 'b) encoder" where
  "append_encoders hd_enc tl_enc =
     \<lparr>en_encode = (\<lambda>(a, b). bindr (en_encode hd_enc a) (\<lambda>slots.
        bindr (en_encode tl_enc b) (\<lambda>more. Inr (slots @ more)))),
      en_oids = en_oids hd_enc @ en_oids tl_enc,
      en_types = en_types hd_enc @ en_types tl_enc,
      en_format_codes = en_format_codes hd_enc @ en_format_codes tl_enc\<rparr>"

section \<open>Fragments\<close>

record 'a fragment =
  fr_sql :: str
  fr_encoder :: "'a encoder"
  fr_n_params :: nat
  fr_origin :: "origin option"
  fr_dynamic :: "('a \<Rightarrow> bound_statement result) option"

definition from_parts :: "str \<Rightarrow> 'a encoder \<Rightarrow> nat \<Rightarrow> origin option \<Rightarrow> 'a fragment" where
  "from_parts sql encoder n_params orig =
     \<lparr>fr_sql = sql, fr_encoder = encoder, fr_n_params = n_params, fr_origin = orig, fr_dynamic = None\<rparr>"

definition from_dynamic_parts ::
    "str \<Rightarrow> 'a encoder \<Rightarrow> nat \<Rightarrow> origin option \<Rightarrow> ('a \<Rightarrow> bound_statement result) \<Rightarrow> 'a fragment" where
  "from_dynamic_parts sql encoder n_params orig dynamic =
     \<lparr>fr_sql = sql, fr_encoder = encoder, fr_n_params = n_params, fr_origin = orig,
      fr_dynamic = Some dynamic\<rparr>"

definition lit :: "str \<Rightarrow> unit fragment" where
  "lit sql = from_parts sql unit_encoder 0 None"

definition append_lit :: "'a fragment \<Rightarrow> str \<Rightarrow> 'a fragment" where
  "append_lit f sql = f\<lparr>fr_sql := fr_sql f @ sql\<rparr>"

definition with_origin :: "'a fragment \<Rightarrow> origin \<Rightarrow> 'a fragment" where
  "with_origin f orig = f\<lparr>fr_origin := Some orig\<rparr>"

definition bind :: "'a fragment \<Rightarrow> 'x codec \<Rightarrow> ('a \<times> 'x) fragment" where
  "bind f codec =
     (let n_params = fr_n_params f + 1
      in \<lparr>fr_sql = fr_sql f @ ''$'' @ show_nat n_params,
          fr_encoder = append_encoders (fr_encoder f) (encoder_of codec),
          fr_n_params = n_params, fr_origin = fr_origin f, fr_dynamic = None\<rparr>)"

definition is_ascii_digit :: "char \<Rightarrow> bool" where
  "is_ascii_digit c = (48 \<le> (of_char c :: nat) \<and> (of_char c :: nat) \<le> 57)"

text \<open>\<open>push(byte as char)\<close>: the byte is taken for a code point and written in UTF-8.\<close>

definition push_byte_as_char :: "char \<Rightarrow> str" where
  "push_byte_as_char c =
     (let n = (of_char c :: nat)
      in if n < 128 then [c] else [char_of (192 + n div 64), char_of (128 + n mod 64)])"

text \<open>\<^const>\<open>None\<close> is the panic: a number that does not fit \<open>usize\<close>, before or after the shift.\<close>

function renumber_loop :: "nat \<Rightarrow> str \<Rightarrow> str option" where
  "renumber_loop offset [] = Some []"
| "renumber_loop offset (c # cs) =
     (if c = CHR ''$'' \<and> cs \<noteq> [] \<and> is_ascii_digit (hd cs)
      then (case parse_usize (takeWhile is_ascii_digit cs) of
              Inl _ \<Rightarrow> None
            | Inr n \<Rightarrow>
                (if n + offset < 2 ^ 64
                 then map_option (\<lambda>out. ''$'' @ show_nat (n + offset) @ out)
                        (renumber_loop offset (dropWhile is_ascii_digit cs))
                 else None))
      else map_option (\<lambda>out. push_byte_as_char c @ out) (renumber_loop offset cs))"
  by pat_completeness auto
termination
  by (relation "measure (\<lambda>(offset, cs). length cs)") (auto simp: le_imp_less_Suc length_dropWhile_le)

declare renumber_loop.simps(2) [simp del]

definition renumber_placeholders :: "str \<Rightarrow> nat \<Rightarrow> str option" where
  "renumber_placeholders sql offset = (if offset = 0 then Some sql else renumber_loop offset sql)"

definition plus :: "'a fragment \<Rightarrow> 'b fragment \<Rightarrow> ('a \<times> 'b) fragment option" where
  "plus f other =
     map_option (\<lambda>renumbered.
       \<lparr>fr_sql = fr_sql f @ renumbered,
        fr_encoder = append_encoders (fr_encoder f) (fr_encoder other),
        fr_n_params = fr_n_params f + fr_n_params other,
        fr_origin = (case fr_origin f of Some orig \<Rightarrow> Some orig | None \<Rightarrow> fr_origin other),
        fr_dynamic = None\<rparr>)
       (renumber_placeholders (fr_sql other) (fr_n_params f))"

definition bind_runtime :: "'a fragment \<Rightarrow> 'a \<Rightarrow> bound_statement result" where
  "bind_runtime f args =
     (case fr_dynamic f of
        Some dynamic \<Rightarrow> dynamic args
      | None \<Rightarrow>
          bindr (en_encode (fr_encoder f) args) (\<lambda>params.
            Inr \<lparr>bo_sql = fr_sql f, bo_params = params, bo_param_types = en_types (fr_encoder f),
                 bo_param_formats = en_format_codes (fr_encoder f)\<rparr>))"

definition sql_for :: "'a fragment \<Rightarrow> 'a \<Rightarrow> str result" where
  "sql_for f args = bindr (bind_runtime f args) (\<lambda>b. Inr (bo_sql b))"

section \<open>Queries and commands\<close>

record ('a, 'b) query =
  qu_fragment :: "'a fragment"
  qu_decoder :: "'b codec"

definition query_raw :: "str \<Rightarrow> 'b codec \<Rightarrow> (unit, 'b) query" where
  "query_raw sql decoder = \<lparr>qu_fragment = from_parts sql unit_encoder 0 None, qu_decoder = decoder\<rparr>"

definition query_raw_with :: "str \<Rightarrow> 'a encoder \<Rightarrow> 'b codec \<Rightarrow> ('a, 'b) query" where
  "query_raw_with sql encoder decoder =
     \<lparr>qu_fragment = from_parts sql encoder (length (en_oids encoder)) None, qu_decoder = decoder\<rparr>"

text \<open>A \<open>Command\<close> wraps a fragment and nothing else.\<close>

definition command_raw :: "str \<Rightarrow> unit fragment" where
  "command_raw sql = from_parts sql unit_encoder 0 None"

definition command_raw_with :: "str \<Rightarrow> 'a encoder \<Rightarrow> 'a fragment" where
  "command_raw_with sql encoder = from_parts sql encoder (length (en_oids encoder)) None"

section \<open>Pieces: the abstract view\<close>

datatype piece = Literal str | Slot

primrec slots :: "piece list \<Rightarrow> nat" where
  "slots [] = 0"
| "slots (p # ps) = (case p of Slot \<Rightarrow> Suc (slots ps) | Literal _ \<Rightarrow> slots ps)"

primrec render :: "nat \<Rightarrow> piece list \<Rightarrow> str" where
  "render k [] = []"
| "render k (p # ps) =
     (case p of Literal s \<Rightarrow> s @ render k ps | Slot \<Rightarrow> ''$'' @ show_nat (Suc k) @ render (Suc k) ps)"

definition represents :: "'a fragment \<Rightarrow> piece list \<Rightarrow> bool" where
  "represents f ps = (fr_sql f = render 0 ps \<and> fr_n_params f = slots ps)"

definition starts_digit :: "str \<Rightarrow> bool" where
  "starts_digit s = (s \<noteq> [] \<and> is_ascii_digit (hd s))"

text \<open>
  The texts the renumbering may meet: ASCII, and no digit directly after a dollar sign or after a
  slot.
\<close>

primrec text_clean :: "str \<Rightarrow> str \<Rightarrow> bool" where
  "text_clean [] rest = True"
| "text_clean (c # cs) rest =
     ((of_char c :: nat) < 128 \<and> (c = CHR ''$'' \<longrightarrow> \<not> starts_digit (cs @ rest)) \<and> text_clean cs rest)"

primrec clean :: "piece list \<Rightarrow> bool" where
  "clean [] = True"
| "clean (p # ps) =
     (clean ps \<and> (case p of Slot \<Rightarrow> \<not> starts_digit (render 0 ps) | Literal s \<Rightarrow> text_clean s (render 0 ps)))"

lemma slots_append [simp]: "slots (ps @ qs) = slots ps + slots qs"
  by (induction ps) (auto split: piece.split)

lemma render_append: "render k (ps @ qs) = render k ps @ render (k + slots ps) qs"
  by (induction ps arbitrary: k) (auto split: piece.split)

lemma starts_digit_append: "starts_digit (s @ t) = (if s = [] then starts_digit t else starts_digit s)"
  by (simp add: starts_digit_def)

lemma starts_digit_render: "starts_digit (render k ps) = starts_digit (render 0 ps)"
proof (induction ps arbitrary: k)
  case (Cons p ps)
  show ?case using Cons [of k]
    by (cases p) (auto simp: starts_digit_append, simp_all add: starts_digit_def)
qed simp

lemma text_clean_cong: "starts_digit r = starts_digit r' \<Longrightarrow> text_clean s r = text_clean s r'"
  by (induction s) (auto simp: starts_digit_append)

lemma renumber_text: "text_clean s rest \<Longrightarrow> renumber_loop offset (s @ rest) = map_option ((@) s) (renumber_loop offset rest)"
proof (induction s)
  case (Cons c s)
  then have "\<not> (c = CHR ''$'' \<and> s @ rest \<noteq> [] \<and> is_ascii_digit (hd (s @ rest)))"
    by (auto simp: starts_digit_def)
  then have "renumber_loop offset (c # s @ rest) =
      map_option (\<lambda>out. push_byte_as_char c @ out) (renumber_loop offset (s @ rest))"
    by (simp only: renumber_loop.simps(2) if_False)
  with Cons show ?case by (simp add: push_byte_as_char_def option.map_comp comp_def)
qed (cases "renumber_loop offset rest", simp_all)

lemma is_ascii_digit_digit_char: "d < 10 \<Longrightarrow> is_ascii_digit (digit_char d)"
  by (simp add: is_ascii_digit_def of_char_digit_char)

lemma show_nat_ascii_digits: "c \<in> set (show_nat n) \<Longrightarrow> is_ascii_digit c"
  using show_nat_digits [of c n] is_ascii_digit_digit_char by auto

lemma digits_of_slot:
  assumes "\<not> starts_digit rest"
  shows "takeWhile is_ascii_digit (show_nat n @ rest) = show_nat n"
    and "dropWhile is_ascii_digit (show_nat n @ rest) = rest"
proof -
  have all: "\<And>c. c \<in> set (show_nat n) \<Longrightarrow> is_ascii_digit c" by (rule show_nat_ascii_digits)
  have "takeWhile is_ascii_digit rest = []" "dropWhile is_ascii_digit rest = rest"
    using assms by (cases rest; simp add: starts_digit_def)+
  with all show "takeWhile is_ascii_digit (show_nat n @ rest) = show_nat n"
    and "dropWhile is_ascii_digit (show_nat n @ rest) = rest"
    by (simp_all add: takeWhile_append2 dropWhile_append2)
qed

lemma parse_usize_show: "n < 2 ^ 64 \<Longrightarrow> parse_usize (show_nat n) = Inr n"
  by (simp add: parse_usize_def from_str_radix_show_nat)

lemma renumber_slot:
  assumes "\<not> starts_digit rest" and "n + offset < 2 ^ 64"
  shows "renumber_loop offset (CHR ''$'' # show_nat n @ rest) =
    map_option (\<lambda>out. ''$'' @ show_nat (n + offset) @ out) (renumber_loop offset rest)"
proof -
  have "is_ascii_digit (hd (show_nat n @ rest))"
    using show_nat_ascii_digits [of "hd (show_nat n)" n] by simp
  with assms show ?thesis by (simp add: renumber_loop.simps(2) digits_of_slot parse_usize_show)
qed

lemma renumber_render:
  "clean ps \<Longrightarrow> k + slots ps + offset < 2 ^ 64 \<Longrightarrow>
     renumber_loop offset (render k ps) = Some (render (k + offset) ps)"
proof (induction ps arbitrary: k)
  case (Cons p ps)
  show ?case
  proof (cases p)
    case (Literal s)
    with Cons.prems have "text_clean s (render k ps)"
      using text_clean_cong [OF starts_digit_render] by auto
    with Literal Cons show ?thesis by (simp add: renumber_text)
  next
    case Slot
    with Cons.prems have "\<not> starts_digit (render (Suc k) ps)"
      using starts_digit_render [of "Suc k" ps] by simp
    moreover have "Suc k + offset < 2 ^ 64" using Cons.prems(2) Slot by simp
    ultimately show ?thesis using Slot Cons.prems Cons.IH [of "Suc k"] by (simp add: renumber_slot)
  qed
qed simp

lemma renumber_placeholders_render:
  assumes "clean ps" and "slots ps + offset < 2 ^ 64"
  shows "renumber_placeholders (render 0 ps) offset = Some (render offset ps)"
  using renumber_render [of ps 0 offset] assms by (simp add: renumber_placeholders_def)

section \<open>The builder refines the pieces\<close>

lemma represents_lit: "represents (lit sql) [Literal sql]"
  by (simp add: represents_def lit_def from_parts_def)

lemma represents_append_lit: "represents f ps \<Longrightarrow> represents (append_lit f sql) (ps @ [Literal sql])"
  by (simp add: represents_def append_lit_def render_append)

lemma represents_bind: "represents f ps \<Longrightarrow> represents (bind f codec) (ps @ [Slot])"
  by (simp add: represents_def bind_def Let_def render_append)

lemma represents_plus:
  assumes "represents f ps" and "represents g qs" and "clean qs" and "slots (ps @ qs) < 2 ^ 64"
  obtains h where "plus f g = Some h" and "represents h (ps @ qs)"
proof -
  from assms have "renumber_placeholders (fr_sql g) (fr_n_params f) = Some (render (slots ps) qs)"
    by (simp add: represents_def renumber_placeholders_render add.commute)
  with assms that show ?thesis by (simp add: plus_def represents_def render_append)
qed

text \<open>
  An encoder is aligned when it declares as many object identifiers as it pushes slots; a fragment
  is well formed when this number is also the number of its placeholders.
\<close>

definition aligned :: "'a encoder \<Rightarrow> ('a \<Rightarrow> bool) \<Rightarrow> bool" where
  "aligned e valid = (length (en_types e) = length (en_oids e) \<and>
     (\<forall>v. valid v \<longrightarrow> (\<exists>row. en_encode e v = Inr row \<and> length row = length (en_oids e))))"

definition fragment_wf :: "'a fragment \<Rightarrow> ('a \<Rightarrow> bool) \<Rightarrow> bool" where
  "fragment_wf f valid = (aligned (fr_encoder f) valid \<and> length (en_oids (fr_encoder f)) = fr_n_params f)"

lemma aligned_append:
  assumes "aligned e valid" and "aligned e' valid'"
  shows "aligned (append_encoders e e') (\<lambda>(a, b). valid a \<and> valid' b)"
  using assms unfolding aligned_def append_encoders_def by fastforce

lemma aligned_encoder_of: "codec_laws c valid \<Longrightarrow> aligned (encoder_of c) valid"
  using codec_laws.encodes [of c valid]
  by (fastforce simp: aligned_def encoder_of_def codec_laws.oids_length codec_laws.types_length)

lemma fragment_wf_lit: "fragment_wf (lit sql) (\<lambda>_. True)"
  by (simp add: fragment_wf_def lit_def from_parts_def unit_encoder_def aligned_def encoder_of_def fields_nil_def)

lemma fragment_wf_append_lit: "fragment_wf f valid \<Longrightarrow> fragment_wf (append_lit f sql) valid"
  by (simp add: fragment_wf_def append_lit_def)

lemma fragment_wf_bind:
  assumes "fragment_wf f valid" and "codec_laws c valid'" and "cd_n_columns c = 1"
  shows "fragment_wf (bind f c) (\<lambda>(a, x). valid a \<and> valid' x)"
  using assms aligned_append [OF _ aligned_encoder_of, of "fr_encoder f" valid c valid']
  by (simp add: fragment_wf_def bind_def Let_def append_encoders_def encoder_of_def codec_laws.oids_length)

lemma fragment_wf_plus:
  assumes "fragment_wf f valid" and "fragment_wf g valid'" and "plus f g = Some h"
  shows "fragment_wf h (\<lambda>(a, b). valid a \<and> valid' b)"
  using assms aligned_append [of "fr_encoder f" valid "fr_encoder g" valid']
  by (auto simp: fragment_wf_def plus_def append_encoders_def)

lemma bind_runtime_params:
  assumes "fragment_wf f valid" and "valid args" and "fr_dynamic f = None"
  obtains b where "bind_runtime f args = Inr b" and "bo_sql b = fr_sql f"
    and "length (bo_params b) = fr_n_params f" and "length (bo_param_types b) = fr_n_params f"
proof -
  from assms obtain row where "en_encode (fr_encoder f) args = Inr row" "length row = fr_n_params f"
    by (auto simp: fragment_wf_def aligned_def)
  with assms that show ?thesis by (simp add: bind_runtime_def fragment_wf_def aligned_def)
qed

section \<open>Claims\<close>

text \<open>
  C25. Concatenating two fragments numbers their placeholders consecutively: if the two fragments
  render the pieces \<open>ps\<close> and \<open>qs\<close>, the result renders \<open>ps @ qs\<close>, its encoder pushes the slots of both
  in this order, and it stays well formed. The right fragment must be ASCII without a digit
  directly after a dollar sign or a placeholder.
\<close>

theorem plus_refines_append:
  assumes "represents f ps" and "represents g qs" and "clean qs" and "slots (ps @ qs) < 2 ^ 64"
    and "fragment_wf f valid" and "fragment_wf g valid'"
  shows "\<exists>h. plus f g = Some h \<and> represents h (ps @ qs)
    \<and> fragment_wf h (\<lambda>(a, b). valid a \<and> valid' b)
    \<and> (\<forall>a b. en_encode (fr_encoder h) (a, b) =
          bindr (en_encode (fr_encoder f) a) (\<lambda>s. map_sum id ((@) s) (en_encode (fr_encoder g) b)))"
proof -
  from assms(1-4) obtain h where h: "plus f g = Some h" "represents h (ps @ qs)"
    by (rule represents_plus)
  have "en_encode (fr_encoder h) (a, b) =
      bindr (en_encode (fr_encoder f) a) (\<lambda>s. map_sum id ((@) s) (en_encode (fr_encoder g) b))" for a b
    using h(1) by (cases "en_encode (fr_encoder g) b") (auto simp: plus_def append_encoders_def intro!: bindr_cong)
  with h fragment_wf_plus [OF assms(5,6) h(1)] show ?thesis by blast
qed

theorem plus_refines_append_witness:
  "\<exists>h. plus (bind (lit ''SELECT '') int4) (bind (lit '' WHERE x = '') int4) = Some h
     \<and> fr_sql h = ''SELECT $1 WHERE x = $2'' \<and> fr_n_params h = 2"
proof -
  have one: "cd_n_columns int4 = 1" by (simp add: int4_def scalar_def)
  have r: "represents (bind (lit s) int4) [Literal s, Slot]" for s
    using represents_bind [OF represents_lit, of s int4] by simp
  have w: "fragment_wf (bind (lit s) int4) (\<lambda>(a, x). True \<and> True)" for s
    using fragment_wf_bind [OF fragment_wf_lit int4.codec_laws_axioms one] .
  have c: "clean [Literal '' WHERE x = '', Slot]"
    by (simp add: starts_digit_def is_ascii_digit_def)
  from plus_refines_append [OF r [of "''SELECT ''"] r c _ w w] obtain h where
    "plus (bind (lit ''SELECT '') int4) (bind (lit '' WHERE x = '') int4) = Some h"
    "represents h ([Literal ''SELECT '', Slot] @ [Literal '' WHERE x = '', Slot])" by auto
  moreover have "show_nat 1 = ''1''" "show_nat 2 = ''2''"
    by (simp_all add: show_nat.simps digit_char_def char_of_eq_iff)
  ultimately show ?thesis by (simp add: represents_def numeral_2_eq_2)
qed

text \<open>
  Binding keeps a fragment well formed for codecs of one column: binding arguments then gives the
  fragment's SQL with exactly as many parameters and types as it has placeholders.
\<close>

theorem bind_runtime_aligned:
  assumes "fragment_wf f valid" and "codec_laws c valid'" and "cd_n_columns c = 1"
    and "valid a" and "valid' x"
  shows "\<exists>b. bind_runtime (bind f c) (a, x) = Inr b \<and> bo_sql b = fr_sql f @ ''$'' @ show_nat (fr_n_params f + 1)
    \<and> length (bo_params b) = fr_n_params f + 1 \<and> length (bo_param_types b) = fr_n_params f + 1"
proof -
  have wf: "fragment_wf (bind f c) (\<lambda>(a, x). valid a \<and> valid' x)"
    using assms(1-3) by (rule fragment_wf_bind)
  have "fr_dynamic (bind f c) = None" "fr_n_params (bind f c) = fr_n_params f + 1"
    "fr_sql (bind f c) = fr_sql f @ ''$'' @ show_nat (fr_n_params f + 1)"
    by (simp_all add: bind_def Let_def)
  with bind_runtime_params [OF wf, of "(a, x)"] assms(4,5) show ?thesis by (metis case_prodI)
qed

theorem bind_runtime_aligned_witness:
  "\<exists>b. bind_runtime (bind (lit ''SELECT '') int4) ((), 7) = Inr b \<and> length (bo_params b) = 1"
proof -
  have one: "cd_n_columns int4 = 1" by (simp add: int4_def scalar_def)
  from bind_runtime_aligned [OF fragment_wf_lit int4.codec_laws_axioms one TrueI TrueI, of "''SELECT ''" "()" 7]
  show ?thesis by (auto simp: lit_def from_parts_def)
qed

text \<open>
  Concatenation rewrites the bytes of the right fragment one by one as characters, so that text
  outside ASCII does not survive: the two bytes of a letter with an accent become four.
\<close>

lemma plus_corrupts_non_ascii:
  "\<exists>h. plus (bind (lit ''SELECT '') int4) (lit [CHR 0xC3, CHR 0xA9]) = Some h
     \<and> fr_sql h = ''SELECT $1'' @ [CHR 0xC3, CHR 0x83, CHR 0xC2, CHR 0xA9]"
proof -
  have "show_nat 1 = ''1''" by (simp add: show_nat.simps digit_char_def char_of_eq_iff)
  moreover have "renumber_loop 1 [CHR 0xC3, CHR 0xA9] = Some [CHR 0xC3, CHR 0x83, CHR 0xC2, CHR 0xA9]"
    by (simp add: renumber_loop.simps(2) push_byte_as_char_def char_of_eq_iff)
  ultimately show ?thesis
    by (simp add: plus_def bind_def lit_def from_parts_def Let_def renumber_placeholders_def)
qed

end
