(* ===== verification/Frontend.thy ===== *)
theory Frontend
  imports Babar_Error
begin

text \<open>
  The frontend message writers (\<open>protocol/frontend.rs\<close>). They wrap the \<open>postgres_protocol\<close> crate,
  which is a parameter: each of its writers appends some bytes and may fail with an \<open>io::Error\<close>,
  given as its text.
\<close>

type_synonym written = "bytes \<times> str option"

datatype bind_error = Conversion str | Serialization str

record postgres_frontend =
  pg_query :: "str \<Rightarrow> written"
  pg_parse :: "str \<Rightarrow> str \<Rightarrow> oid list \<Rightarrow> written"
  pg_bind :: "str \<Rightarrow> str \<Rightarrow> i16 list \<Rightarrow> bytes option list \<Rightarrow> i16 list \<Rightarrow> bytes \<times> bind_error option"
  pg_describe :: "char \<Rightarrow> str \<Rightarrow> written"
  pg_close :: "char \<Rightarrow> str \<Rightarrow> written"
  pg_execute :: "str \<Rightarrow> i32 \<Rightarrow> written"
  pg_sync :: bytes
  pg_terminate :: bytes
  pg_copy_data :: "bytes \<Rightarrow> written"
  pg_copy_done :: bytes
  pg_copy_fail :: "str \<Rightarrow> written"
  pg_startup :: "(str \<times> str) list \<Rightarrow> written"
  pg_password :: "bytes \<Rightarrow> written"
  pg_sasl_initial :: "str \<Rightarrow> bytes \<Rightarrow> written"
  pg_sasl_response :: "bytes \<Rightarrow> written"

text \<open>A writer appends to the buffer; \<open>then_write\<close> is sequencing with the question mark operator.\<close>

type_synonym writer = "bytes \<Rightarrow> unit result \<times> bytes"

definition then_write :: "writer \<Rightarrow> writer \<Rightarrow> writer" where
  "then_write a b buf = (case a buf of (Inl e, buf') \<Rightarrow> (Inl e, buf') | (Inr _, buf') \<Rightarrow> b buf')"

definition map_io_to_protocol :: "str \<Rightarrow> error" where
  "map_io_to_protocol e = Protocol (''frontend message encode failed: '' @ e)"

primrec map_bind_error :: "bind_error \<Rightarrow> error" where
  "map_bind_error (Conversion inner) = Codec (''Bind: parameter conversion failed: '' @ inner)"
| "map_bind_error (Serialization io) = Protocol (''Bind: serialization failed: '' @ io)"

definition emit :: "('e \<Rightarrow> error) \<Rightarrow> bytes \<times> 'e option \<Rightarrow> writer" where
  "emit conv w buf =
     ((case snd w of None \<Rightarrow> Inr () | Some e \<Rightarrow> Inl (conv e)), buf @ fst w)"

definition fe_startup :: "postgres_frontend \<Rightarrow> (str \<times> str) list \<Rightarrow> writer" where
  "fe_startup F params = emit map_io_to_protocol (pg_startup F params)"

definition fe_query :: "postgres_frontend \<Rightarrow> str \<Rightarrow> writer" where
  "fe_query F sql = emit map_io_to_protocol (pg_query F sql)"

definition fe_password_message :: "postgres_frontend \<Rightarrow> str \<Rightarrow> writer" where
  "fe_password_message F password = emit map_io_to_protocol (pg_password F (as_bytes password))"

definition fe_sasl_initial_response :: "postgres_frontend \<Rightarrow> str \<Rightarrow> bytes \<Rightarrow> writer" where
  "fe_sasl_initial_response F mechanism client_first =
     emit map_io_to_protocol (pg_sasl_initial F mechanism client_first)"

definition fe_sasl_response :: "postgres_frontend \<Rightarrow> bytes \<Rightarrow> writer" where
  "fe_sasl_response F payload = emit map_io_to_protocol (pg_sasl_response F payload)"

definition fe_terminate :: "postgres_frontend \<Rightarrow> writer" where
  "fe_terminate F buf = (Inr (), buf @ pg_terminate F)"

definition fe_parse :: "postgres_frontend \<Rightarrow> str \<Rightarrow> str \<Rightarrow> oid list \<Rightarrow> writer" where
  "fe_parse F stmt_name sql oids = emit map_io_to_protocol (pg_parse F stmt_name sql oids)"

definition fe_bind ::
    "postgres_frontend \<Rightarrow> str \<Rightarrow> str \<Rightarrow> i16 list \<Rightarrow> bytes option list \<Rightarrow> i16 list \<Rightarrow> writer" where
  "fe_bind F portal stmt param_formats params result_formats =
     emit map_bind_error (pg_bind F portal stmt param_formats params result_formats)"

definition fe_describe_portal :: "postgres_frontend \<Rightarrow> str \<Rightarrow> writer" where
  "fe_describe_portal F name = emit map_io_to_protocol (pg_describe F (CHR ''P'') name)"

definition fe_describe_statement :: "postgres_frontend \<Rightarrow> str \<Rightarrow> writer" where
  "fe_describe_statement F name = emit map_io_to_protocol (pg_describe F (CHR ''S'') name)"

definition fe_close_statement :: "postgres_frontend \<Rightarrow> str \<Rightarrow> writer" where
  "fe_close_statement F name = emit map_io_to_protocol (pg_close F (CHR ''S'') name)"

definition fe_close_portal :: "postgres_frontend \<Rightarrow> str \<Rightarrow> writer" where
  "fe_close_portal F name = emit map_io_to_protocol (pg_close F (CHR ''P'') name)"

definition fe_execute :: "postgres_frontend \<Rightarrow> str \<Rightarrow> i32 \<Rightarrow> writer" where
  "fe_execute F portal max_rows = emit map_io_to_protocol (pg_execute F portal max_rows)"

definition fe_copy_data :: "postgres_frontend \<Rightarrow> bytes \<Rightarrow> writer" where
  "fe_copy_data F payload = emit map_io_to_protocol (pg_copy_data F payload)"

definition fe_copy_done :: "postgres_frontend \<Rightarrow> writer" where
  "fe_copy_done F buf = (Inr (), buf @ pg_copy_done F)"

definition fe_copy_fail :: "postgres_frontend \<Rightarrow> str \<Rightarrow> writer" where
  "fe_copy_fail F message = emit map_io_to_protocol (pg_copy_fail F message)"

definition fe_sync :: "postgres_frontend \<Rightarrow> writer" where
  "fe_sync F buf = (Inr (), buf @ pg_sync F)"

text \<open>The binary COPY file header (signature, flags, extension length) and trailer.\<close>

definition copy_binary_header :: "bytes \<Rightarrow> bytes" where
  "copy_binary_header buf =
     buf @ as_bytes ''PGCOPY'' @ [10, 255, 13, 10, 0] @ be_bytes 4 (0 :: u32) @ be_bytes 4 (0 :: u32)"

definition copy_binary_trailer :: "bytes \<Rightarrow> bytes" where
  "copy_binary_trailer buf = buf @ be_bytes 2 (- 1 :: i16)"

end
