(* ===== verification/Copy_In.thy ===== *)
theory Copy_In
  imports Fragment Frontend Backend_Codec
begin

text \<open>
  Binary \<open>COPY ... FROM STDIN\<close> payloads (\<open>copy.rs\<close>). The specification is a reader of PostgreSQL's
  documented file format: signature, tuples with a 16-bit field count and 32-bit field lengths, and
  the trailer. Every payload is read back as the slots that the row encoder produced.
\<close>

section \<open>Encoding\<close>

record 'a copy_statement =
  ci_sql :: str
  ci_row_encoder :: "'a encoder"

definition copy_binary :: "str \<Rightarrow> 'a encoder \<Rightarrow> 'a copy_statement" where
  "copy_binary sql row_encoder = \<lparr>ci_sql = sql, ci_row_encoder = row_encoder\<rparr>"

definition copy_n_columns :: "'a copy_statement \<Rightarrow> nat" where
  "copy_n_columns c = length (en_oids (ci_row_encoder c))"

definition format_at :: "i16 list \<Rightarrow> nat \<Rightarrow> i16" where
  "format_at formats index = (if index < length formats then formats ! index else FORMAT_TEXT)"

fun binary_capable_loop :: "i16 list \<Rightarrow> nat list \<Rightarrow> unit result" where
  "binary_capable_loop formats [] = Inr ()"
| "binary_capable_loop formats (index # is) =
     (let format = format_at formats index
      in if format \<noteq> FORMAT_BINARY
         then Inl (Codec (''COPY FROM STDIN BINARY requires binary row codecs; column '' @
                show_nat (index + 1) @ '' uses format code '' @ show_int (sint format)))
         else binary_capable_loop formats is)"

definition ensure_binary_copy_capable :: "oid list \<Rightarrow> i16 list \<Rightarrow> unit result" where
  "ensure_binary_copy_capable column_oids formats =
     binary_capable_loop formats [0..<length column_oids]"

definition encode_field :: "bytes option \<Rightarrow> bytes result" where
  "encode_field field =
     (case field of
        Some bs \<Rightarrow>
          if length bs > 2147483647
          then Inl (Codec (''COPY field exceeds binary format limit: '' @ show_nat (length bs) @ '' bytes''))
          else Inr (be_bytes 4 (of_nat (length bs) :: i32) @ bs)
      | None \<Rightarrow> Inr (be_bytes 4 (- 1 :: i32)))"

definition encode_fields :: "raw_row \<Rightarrow> bytes result" where
  "encode_fields row =
     (if length row > 32767
      then Inl (Codec (''COPY row has too many columns: '' @ show_nat (length row)))
      else bindr (collect_r encode_field row) (\<lambda>parts.
             Inr (be_bytes 2 (of_nat (length row) :: i16) @ concat parts)))"

definition encode_row :: "'a encoder \<Rightarrow> 'a \<Rightarrow> bytes result" where
  "encode_row enc v =
     bindr (ensure_binary_copy_capable (en_oids enc) (en_format_codes enc)) (\<lambda>_.
     bindr (en_encode enc v) (\<lambda>cells.
       if length cells \<noteq> length (en_oids enc)
       then Inl (Codec (''COPY row encoder declared '' @ show_nat (length (en_oids enc)) @
              '' columns but produced '' @ show_nat (length cells) @ '' fields''))
       else encode_fields cells))"

definition encode_rows :: "'a copy_statement \<Rightarrow> 'a list \<Rightarrow> bytes list result" where
  "encode_rows c rows =
     bindr (collect_r (encode_row (ci_row_encoder c)) rows) (\<lambda>chunks.
       Inr (copy_binary_header [] # chunks @ [copy_binary_trailer []]))"

section \<open>The file format\<close>

lemma read_data_column_le: "read_data_column buf = Inr (c, rest) \<Longrightarrow> length rest \<le> length buf"
  by (auto simp: read_data_column_def read_i32_def bindr_eq_Inr_iff split: if_splits)

lemma read_columns_le: "read_n n read_data_column buf = Inr (cs, rest) \<Longrightarrow> length rest \<le> length buf"
  by (induction n arbitrary: buf cs)
    (force simp: bindr_eq_Inr_iff dest!: read_data_column_le)+

text \<open>A tuple is laid out as the body of a \<open>DataRow\<close> message; the field count \<open>-1\<close> ends the file.\<close>

function read_tuples :: "bytes \<Rightarrow> raw_rows option" where
  "read_tuples buf =
     (case read_i16 [] buf of
        Inl _ \<Rightarrow> None
      | Inr (n, buf1) \<Rightarrow>
          if n = - 1 then (if buf1 = [] then Some [] else None)
          else if sint n < 0 then None
          else (case read_n (nat (sint n)) read_data_column buf1 of
                  Inl _ \<Rightarrow> None
                | Inr (row, buf2) \<Rightarrow> map_option (\<lambda>rows. row # rows) (read_tuples buf2)))"
  by pat_completeness auto
termination
  by (relation "measure length")
    (auto simp: read_i16_def split: if_splits dest!: read_columns_le)

declare read_tuples.simps [simp del]

definition copy_signature :: bytes where
  "copy_signature = as_bytes ''PGCOPY'' @ [10, 255, 13, 10, 0]"

definition read_copy_file :: "bytes \<Rightarrow> raw_rows option" where
  "read_copy_file file =
     (case strip_prefix (copy_signature @ [0, 0, 0, 0, 0, 0, 0, 0]) file of
        None \<Rightarrow> None
      | Some body \<Rightarrow> read_tuples body)"

section \<open>What is accepted\<close>

definition copy_field_ok :: "bytes option \<Rightarrow> bool" where
  "copy_field_ok field = (case field of None \<Rightarrow> True | Some bs \<Rightarrow> length bs \<le> 2147483647)"

definition copy_row_ok :: "'a encoder \<Rightarrow> raw_row \<Rightarrow> bool" where
  "copy_row_ok enc cells =
     (length cells = length (en_oids enc) \<and> length cells \<le> 32767 \<and> list_all copy_field_ok cells)"

lemma binary_capable_loop_iff:
  "binary_capable_loop formats is = Inr () \<longleftrightarrow> (\<forall>i \<in> set is. format_at formats i = FORMAT_BINARY)"
  by (induction "is") (auto simp: Let_def)

lemma ensure_binary_iff:
  "ensure_binary_copy_capable oids formats = Inr () \<longleftrightarrow>
   (\<forall>i < length oids. format_at formats i = FORMAT_BINARY)"
  by (auto simp: ensure_binary_copy_capable_def binary_capable_loop_iff)

lemma encode_field_iff:
  "encode_field f = Inr bs \<longleftrightarrow> copy_field_ok f \<and> bs = encode_data_column f"
  by (auto simp: encode_field_def copy_field_ok_def encode_data_column_def split: option.splits)

lemma encode_fields_iff:
  "encode_fields row = Inr bs \<longleftrightarrow>
   length row \<le> 32767 \<and> list_all copy_field_ok row
   \<and> bs = encode_count (length row) @ concat (map encode_data_column row)"
  using collect_r_det [of row encode_field copy_field_ok encode_data_column, OF encode_field_iff]
  by (auto simp: encode_fields_def bindr_eq_Inr_iff encode_count_def list_all_iff)

lemma encode_row_iff:
  "encode_row enc v = Inr bs \<longleftrightarrow>
   (\<forall>i < length (en_oids enc). format_at (en_format_codes enc) i = FORMAT_BINARY)
   \<and> (\<exists>cells. en_encode enc v = Inr cells \<and> copy_row_ok enc cells
        \<and> bs = encode_count (length cells) @ concat (map encode_data_column cells))"
  by (auto simp: encode_row_def bindr_eq_Inr_iff ensure_binary_iff encode_fields_iff copy_row_ok_def)

lemma read_tuples_row:
  assumes "length row \<le> 32767" and "list_all copy_field_ok row"
  shows "read_tuples (encode_count (length row) @ concat (map encode_data_column row) @ rest) =
         map_option (\<lambda>rows. row # rows) (read_tuples rest)"
proof -
  have len: "sint (of_nat (length row) :: i16) = int (length row)"
    using assms(1) by (intro sint_of_nat) simp
  then have "(of_nat (length row) :: i16) \<noteq> - 1" by (metis of_nat_less_0_iff signed_minus_1 zero_less_one neg_less_0_iff_less)
  moreover have "list_all wf_data_column row"
    using assms(2) by (auto simp: list_all_iff copy_field_ok_def wf_data_column_def split: option.splits)
  then have "read_n (length row) read_data_column (concat (map encode_data_column row) @ rest) =
    Inr (row, rest)" by (rule data_column_reader.read_n_write)
  ultimately show ?thesis
    by (subst read_tuples.simps) (simp add: len)
qed

lemma read_tuples_end: "read_tuples (be_bytes 2 (- 1 :: i16)) = Some []"
  using i16_reader.read_write [OF TrueI, of "[]" "- 1" "[]"] by (subst read_tuples.simps) simp

lemma read_tuples_rows:
  assumes "collect_r (encode_row enc) rows = Inr chunks"
  shows "\<exists>cells. list_all2 (\<lambda>v row. en_encode enc v = Inr row \<and> copy_row_ok enc row) rows cells
    \<and> read_tuples (concat chunks @ be_bytes 2 (- 1 :: i16)) = Some cells"
  using assms
proof (induction rows arbitrary: chunks)
  case Nil
  then show ?case by (simp add: read_tuples_end)
next
  case (Cons v rows)
  then obtain c cs row where c: "chunks = c # cs" "collect_r (encode_row enc) rows = Inr cs"
    and row: "en_encode enc v = Inr row" "copy_row_ok enc row"
      "c = encode_count (length row) @ concat (map encode_data_column row)"
    by (auto simp: bindr_eq_Inr_iff encode_row_iff)
  from Cons.IH [OF c(2)] obtain cells where
    "list_all2 (\<lambda>v row. en_encode enc v = Inr row \<and> copy_row_ok enc row) rows cells"
    "read_tuples (concat cs @ be_bytes 2 (- 1 :: i16)) = Some cells" by blast
  moreover have "read_tuples (concat chunks @ be_bytes 2 (- 1 :: i16)) =
    map_option (\<lambda>rows. row # rows) (read_tuples (concat cs @ be_bytes 2 (- 1 :: i16)))"
    using row(2) read_tuples_row [of row] by (simp add: c(1) row(3) copy_row_ok_def)
  ultimately show ?case
    using row by (intro exI [of _ "row # cells"]) simp
qed

lemma copy_binary_header_eq: "copy_binary_header [] = copy_signature @ [0, 0, 0, 0, 0, 0, 0, 0]"
  unfolding copy_binary_header_def copy_signature_def be_bytes_def nat_bytes_4
  by simp

lemma read_copy_file_payload:
  "read_copy_file (concat (copy_binary_header [] # chunks @ [copy_binary_trailer []])) =
   read_tuples (concat chunks @ be_bytes 2 (- 1 :: i16))"
proof -
  have "concat (copy_binary_header [] # chunks @ [copy_binary_trailer []]) =
    (copy_signature @ [0, 0, 0, 0, 0, 0, 0, 0]) @ concat chunks @ be_bytes 2 (- 1 :: i16)"
    by (simp only: concat.simps concat_append copy_binary_header_eq copy_binary_trailer_def append_Nil append_Nil2)
  then show ?thesis
    by (simp only: read_copy_file_def strip_prefix_append option.case)
qed

section \<open>Properties\<close>

text \<open>
  C27. The chunks of a COPY payload, concatenated, form a file of PostgreSQL's binary format: reading
  it back gives, row by row, exactly the slots that the row encoder produced.
\<close>
theorem copy_payload_reads_back:
  assumes "encode_rows c rows = Inr chunks"
  shows "\<exists>cells. read_copy_file (concat chunks) = Some cells
    \<and> list_all2 (\<lambda>v row. en_encode (ci_row_encoder c) v = Inr row \<and> length row = copy_n_columns c) rows cells"
proof -
  from assms obtain body where
    body: "collect_r (encode_row (ci_row_encoder c)) rows = Inr body"
    "chunks = copy_binary_header [] # body @ [copy_binary_trailer []]"
    by (auto simp: encode_rows_def bindr_eq_Inr_iff)
  from read_tuples_rows [OF body(1)] obtain cells where
    "list_all2 (\<lambda>v row. en_encode (ci_row_encoder c) v = Inr row \<and> copy_row_ok (ci_row_encoder c) row) rows cells"
    "read_copy_file (concat chunks) = Some cells"
    unfolding body(2) read_copy_file_payload by blast
  then show ?thesis
    by (auto simp: copy_row_ok_def copy_n_columns_def elim!: list_all2_mono)
qed

theorem copy_payload_reads_back_witness:
  "\<exists>cells. read_copy_file (concat (case encode_rows (copy_binary ''COPY t FROM STDIN BINARY'' (encoder_of int4)) [7, 9] of
       Inr chunks \<Rightarrow> chunks)) = Some cells \<and> length cells = 2"
proof -
  have "encode_rows (copy_binary ''COPY t FROM STDIN BINARY'' (encoder_of int4)) [7, 9] =
    Inr [copy_binary_header [], be_bytes 2 (1 :: i16) @ be_bytes 4 (4 :: i32) @ be_bytes 4 (7 :: i32),
         be_bytes 2 (1 :: i16) @ be_bytes 4 (4 :: i32) @ be_bytes 4 (9 :: i32), copy_binary_trailer []]"
    by (simp add: encode_rows_def copy_binary_def encoder_of_def encode_row_def int4_def scalar_def
        encode_fields_def encode_field_def ensure_binary_copy_capable_def format_at_def)
  from copy_payload_reads_back [OF this] this show ?thesis
    by (auto dest: list_all2_lengthD)
qed

text \<open>
  C28. A COPY payload is built exactly when there is no row, or every declared column is in binary
  format and each row is encoded to as many fields as there are columns, at most 32767, of at most
  2147483647 bytes each; so no count or length wraps around.
\<close>
theorem copy_rows_accepted_iff:
  "(\<exists>chunks. encode_rows c rows = Inr chunks) \<longleftrightarrow>
   rows = [] \<or>
   list_all (\<lambda>i. format_at (en_format_codes (ci_row_encoder c)) i = FORMAT_BINARY) [0..<copy_n_columns c]
   \<and> list_all (\<lambda>v. \<exists>cells. en_encode (ci_row_encoder c) v = Inr cells
        \<and> length cells = copy_n_columns c \<and> length cells \<le> 32767 \<and> list_all copy_field_ok cells) rows"
proof -
  have "(\<exists>chunks. encode_rows c rows = Inr chunks) \<longleftrightarrow>
    (\<exists>body. collect_r (encode_row (ci_row_encoder c)) rows = Inr body)"
    by (auto simp: encode_rows_def bindr_eq_Inr_iff)
  also have "\<dots> \<longleftrightarrow> (\<forall>v \<in> set rows. \<exists>bs. encode_row (ci_row_encoder c) v = Inr bs)"
    by (induction rows) (auto simp: bindr_eq_Inr_iff)
  finally show ?thesis
    unfolding encode_row_iff copy_row_ok_def copy_n_columns_def list_all_iff by (cases rows) auto
qed

end
