(* ===== verification/Driver.thy ===== *)
theory Driver
  imports Frontend Backend_Codec
begin

text \<open>
  The background driver task (\<open>session/driver.rs\<close>): the commands it accepts, the state it keeps for
  the command in flight, the handler of every backend message, and the run loop as a labelled step
  relation. A reply channel is a number; everything sent on one is recorded in \<open>d_replies\<close>. The
  socket's write half is a parameter.
\<close>

section \<open>Commands and outcomes\<close>

record extended_outcome =
  eo_rows :: raw_rows
  eo_command_tag :: "str option"

record prepare_outcome =
  po_param_oids :: "oid list"
  po_row_fields :: "row_field list"

record portal_batch =
  pb_rows :: raw_rows
  pb_has_more :: bool

datatype outcome =
    SimpleOutcome "raw_rows list"
  | ExtendedOutcome extended_outcome
  | CopyInOutcome str
  | PrepareOutcome prepare_outcome
  | PortalOutcome portal_batch
  | UnitOutcome

type_synonym reply = nat
type_synonym params = "bytes option list"
type_synonym formats = "i16 list"

datatype command =
    SimpleQuery (cmd_reply: reply) str
  | ExtendedQuery (cmd_reply: reply) str params formats formats "nat option"
  | CopyIn (cmd_reply: reply) str "bytes list"
  | Prepare (cmd_reply: reply) str str "oid list"
  | ExecutePrepared (cmd_reply: reply) str params formats formats "nat option"
  | BindPortal (cmd_reply: reply) str str params formats formats
  | ExecutePortal (cmd_reply: reply) str i32
  | ClosePortal (cmd_reply: reply) str
  | CloseStatement (cmd_reply: reply) str
  | Close (cmd_reply: reply)

text \<open>
  The command in flight, with the fields of the source in order: what has been collected so far and
  the first error. \<open>PClose\<close> holds the sending half of a channel nobody listens to.
\<close>

datatype pending =
    PSimpleQuery reply "raw_rows list" raw_rows "row_field list option" "error option"
  | PExtended reply "nat option" raw_rows "str option" "error option"
  | PCopyIn reply "bytes list" "str option" "error option"
  | PPrepare reply "oid list option" "row_field list option" "error option"
  | PExecutePrepared reply "nat option" raw_rows "str option" "error option"
  | PBindPortal reply "error option"
  | PExecutePortal reply raw_rows bool "error option"
  | PClosePortal reply "error option"
  | PCloseStatement reply "error option"
  | PClose

primrec pending_reply :: "pending \<Rightarrow> reply option" where
  "pending_reply (PSimpleQuery r _ _ _ _) = Some r"
| "pending_reply (PExtended r _ _ _ _) = Some r"
| "pending_reply (PCopyIn r _ _ _) = Some r"
| "pending_reply (PPrepare r _ _ _) = Some r"
| "pending_reply (PExecutePrepared r _ _ _ _) = Some r"
| "pending_reply (PBindPortal r _) = Some r"
| "pending_reply (PExecutePortal r _ _ _) = Some r"
| "pending_reply (PClosePortal r _) = Some r"
| "pending_reply (PCloseStatement r _) = Some r"
| "pending_reply PClose = None"

section \<open>The driver state and the socket\<close>

record 'w driver =
  d_inbox :: "command list"
  d_inbox_closed :: bool
  d_pending :: "pending option"
  d_write_buf :: bytes
  d_writer :: 'w
  d_transaction_status :: u8
  d_replies :: "(reply \<times> outcome result) list"

record 'w socket =
  sock_write_all :: "bytes \<Rightarrow> 'w \<Rightarrow> str option \<times> 'w"
  sock_shutdown :: "'w \<Rightarrow> str option \<times> 'w"

definition io_result :: "str option \<Rightarrow> unit result" where
  "io_result e = (case e of None \<Rightarrow> Inr () | Some m \<Rightarrow> Inl (Io m))"

definition driver_new :: "'w \<Rightarrow> u8 \<Rightarrow> 'w driver" where
  "driver_new w status =
     \<lparr>d_inbox = [], d_inbox_closed = False, d_pending = None, d_write_buf = [], d_writer = w,
      d_transaction_status = status, d_replies = []\<rparr>"

definition send :: "reply \<Rightarrow> outcome result \<Rightarrow> 'w driver \<Rightarrow> 'w driver" where
  "send r out d = d\<lparr>d_replies := d_replies d @ [(r, out)]\<rparr>"

definition flush :: "'w socket \<Rightarrow> 'w driver \<Rightarrow> unit result \<times> 'w driver" where
  "flush S d =
     (case sock_write_all S (d_write_buf d) (d_writer d) of
        (Some e, w') \<Rightarrow> (Inl (Io e), d\<lparr>d_writer := w'\<rparr>)
      | (None, w') \<Rightarrow> (Inr (), d\<lparr>d_writer := w', d_write_buf := []\<rparr>))"

definition fail_command :: "command \<Rightarrow> error \<Rightarrow> 'w driver \<Rightarrow> 'w driver" where
  "fail_command c err d = send (cmd_reply c) (Inl err) d"

text \<open>\<open>close\<close> on the inbox and the loop that fails everything still queued.\<close>

definition drain_inbox :: "'w driver \<Rightarrow> 'w driver" where
  "drain_inbox d =
     fold (\<lambda>c d. fail_command c closed d) (d_inbox d) (d\<lparr>d_inbox := [], d_inbox_closed := True\<rparr>)"

section \<open>Starting a command\<close>

text \<open>
  The part all commands but \<open>Close\<close> share: clear the buffer, build the messages, report an encoding
  error to the caller, flush, report a write error to the caller and the loop, become pending.
\<close>

definition begin_command ::
    "'w socket \<Rightarrow> writer \<Rightarrow> reply \<Rightarrow> pending \<Rightarrow> 'w driver \<Rightarrow> unit result \<times> 'w driver" where
  "begin_command S build r p d =
     (let (built, buf) = build [];
          d1 = d\<lparr>d_write_buf := buf\<rparr>
      in case built of
           Inl e \<Rightarrow> (Inr (), send r (Inl e) d1)
         | Inr _ \<Rightarrow>
             (case flush S d1 of
                (Inl e, d2) \<Rightarrow> (Inl e, send r (Inl (clone_for_caller e)) d2)
              | (Inr _, d2) \<Rightarrow> (Inr (), d2\<lparr>d_pending := Some p\<rparr>)))"

fun start :: "postgres_frontend \<Rightarrow> 'w socket \<Rightarrow> command \<Rightarrow> 'w driver \<Rightarrow> unit result \<times> 'w driver" where
  "start F S (SimpleQuery r sql) d =
     begin_command S (fe_query F sql) r (PSimpleQuery r [] [] None None) d"
| "start F S (ExtendedQuery r sql params param_formats result_formats expected) d =
     begin_command S
       (then_write (fe_parse F [] sql [])
       (then_write (fe_bind F [] [] param_formats params result_formats)
       (then_write (fe_describe_portal F [])
       (then_write (fe_execute F [] 0) (fe_sync F)))))
       r (PExtended r expected [] None None) d"
| "start F S (CopyIn r sql data) d =
     begin_command S (fe_query F sql) r (PCopyIn r data None None) d"
| "start F S (Prepare r name sql oids) d =
     begin_command S
       (then_write (fe_parse F name sql oids)
       (then_write (fe_describe_statement F name) (fe_sync F)))
       r (PPrepare r None None None) d"
| "start F S (ExecutePrepared r stmt params param_formats result_formats expected) d =
     begin_command S
       (then_write (fe_bind F [] stmt param_formats params result_formats)
       (then_write (fe_execute F [] 0) (fe_sync F)))
       r (PExecutePrepared r expected [] None None) d"
| "start F S (BindPortal r portal stmt params param_formats result_formats) d =
     begin_command S
       (then_write (fe_bind F portal stmt param_formats params result_formats) (fe_sync F))
       r (PBindPortal r None) d"
| "start F S (ExecutePortal r portal max_rows) d =
     begin_command S (then_write (fe_execute F portal max_rows) (fe_sync F))
       r (PExecutePortal r [] False None) d"
| "start F S (ClosePortal r name) d =
     begin_command S (then_write (fe_close_portal F name) (fe_sync F)) r (PClosePortal r None) d"
| "start F S (CloseStatement r name) d =
     begin_command S (then_write (fe_close_statement F name) (fe_sync F)) r (PCloseStatement r None) d"
| "start F S (Close r) d =
     (let (flush_res, d1) = flush S (d\<lparr>d_write_buf := pg_terminate F\<rparr>);
          (shut, w') = sock_shutdown S (d_writer d1);
          result = bindr flush_res (\<lambda>_. io_result shut);
          d2 = send r (bindr result (\<lambda>_. Inr UnitOutcome)) (d1\<lparr>d_writer := w'\<rparr>);
          d3 = drain_inbox d2
      in (Inl closed, d3\<lparr>d_pending := Some PClose\<rparr>))"

section \<open>Backend messages\<close>

text \<open>
  The reaction of a pending command to one message: go on with the updated state, or send the final
  outcome. Messages that a state does not expect are only logged and leave it unchanged.
\<close>

datatype reaction = Continue pending | Finish "outcome result"

definition check_columns :: "nat option \<Rightarrow> nat \<Rightarrow> error option \<Rightarrow> error option" where
  "check_columns expected actual err =
     (case expected of
        Some n \<Rightarrow> if actual \<noteq> n then or_keep err (ColumnAlignment n actual None None) else err
      | None \<Rightarrow> err)"

definition finish_with :: "error option \<Rightarrow> outcome \<Rightarrow> outcome result" where
  "finish_with err out = (case err of Some e \<Rightarrow> Inl e | None \<Rightarrow> Inr out)"

definition react_simple_query ::
    "reply \<Rightarrow> raw_rows list \<Rightarrow> raw_rows \<Rightarrow> row_field list option \<Rightarrow> error option \<Rightarrow> backend_message \<Rightarrow> reaction" where
  "react_simple_query r results rows cols err msg =
     (case msg of
        RowDescription fs \<Rightarrow> Continue (PSimpleQuery r results rows (Some fs) err)
      | DataRow columns \<Rightarrow> Continue (PSimpleQuery r results (rows @ [columns]) cols err)
      | CommandComplete tag \<Rightarrow> Continue (PSimpleQuery r (results @ [rows]) [] None err)
      | EmptyQueryResponse \<Rightarrow> Continue (PSimpleQuery r (results @ [[]]) rows cols err)
      | ErrorResponse fs \<Rightarrow> Continue (PSimpleQuery r results rows cols (Some (from_server_fields fs)))
      | ReadyForQuery st \<Rightarrow> Finish (finish_with err (SimpleOutcome results))
      | _ \<Rightarrow> Continue (PSimpleQuery r results rows cols err))"

definition react_extended ::
    "reply \<Rightarrow> nat option \<Rightarrow> raw_rows \<Rightarrow> str option \<Rightarrow> error option \<Rightarrow> backend_message \<Rightarrow> reaction" where
  "react_extended r expected rows tag err msg =
     (case msg of
        RowDescription fs \<Rightarrow> Continue (PExtended r expected rows tag (check_columns expected (length fs) err))
      | NoData \<Rightarrow> Continue (PExtended r expected rows tag (check_columns expected 0 err))
      | DataRow columns \<Rightarrow> Continue (PExtended r expected (rows @ [columns]) tag err)
      | CommandComplete t \<Rightarrow> Continue (PExtended r expected rows (Some t) err)
      | ErrorResponse fs \<Rightarrow>
          Continue (PExtended r expected rows tag (or_keep err (from_server_fields fs)))
      | ReadyForQuery st \<Rightarrow>
          Finish (finish_with err (ExtendedOutcome \<lparr>eo_rows = rows, eo_command_tag = tag\<rparr>))
      | _ \<Rightarrow> Continue (PExtended r expected rows tag err))"

definition react_copy_in ::
    "reply \<Rightarrow> bytes list \<Rightarrow> str option \<Rightarrow> error option \<Rightarrow> backend_message \<Rightarrow> reaction" where
  "react_copy_in r data tag err msg =
     (case msg of
        CommandComplete t \<Rightarrow> Continue (PCopyIn r data (Some t) err)
      | ErrorResponse fs \<Rightarrow> Continue (PCopyIn r data tag (or_keep err (from_server_fields fs)))
      | ReadyForQuery st \<Rightarrow>
          Finish (case (err, tag) of
                    (Some e, _) \<Rightarrow> Inl e
                  | (None, Some t) \<Rightarrow> Inr (CopyInOutcome t)
                  | (None, None) \<Rightarrow>
                      Inl (Protocol ''COPY FROM STDIN completed without CommandComplete''))
      | _ \<Rightarrow> Continue (PCopyIn r data tag err))"

definition react_prepare ::
    "reply \<Rightarrow> oid list option \<Rightarrow> row_field list option \<Rightarrow> error option \<Rightarrow> backend_message \<Rightarrow> reaction" where
  "react_prepare r oids cols err msg =
     (case msg of
        ParameterDescription type_oids \<Rightarrow> Continue (PPrepare r (Some type_oids) cols err)
      | RowDescription fs \<Rightarrow> Continue (PPrepare r oids (Some fs) err)
      | NoData \<Rightarrow> Continue (PPrepare r oids (Some []) err)
      | ErrorResponse fs \<Rightarrow> Continue (PPrepare r oids cols (or_keep err (from_server_fields fs)))
      | ReadyForQuery st \<Rightarrow>
          Finish (finish_with err (PrepareOutcome
            \<lparr>po_param_oids = (case oids of Some x \<Rightarrow> x | None \<Rightarrow> []),
             po_row_fields = (case cols of Some x \<Rightarrow> x | None \<Rightarrow> [])\<rparr>))
      | _ \<Rightarrow> Continue (PPrepare r oids cols err))"

definition react_execute_prepared ::
    "reply \<Rightarrow> nat option \<Rightarrow> raw_rows \<Rightarrow> str option \<Rightarrow> error option \<Rightarrow> backend_message \<Rightarrow> reaction" where
  "react_execute_prepared r expected rows tag err msg =
     (case msg of
        DataRow columns \<Rightarrow> Continue (PExecutePrepared r expected (rows @ [columns]) tag err)
      | RowDescription fs \<Rightarrow>
          Continue (PExecutePrepared r expected rows tag (check_columns expected (length fs) err))
      | NoData \<Rightarrow> Continue (PExecutePrepared r expected rows tag (check_columns expected 0 err))
      | CommandComplete t \<Rightarrow> Continue (PExecutePrepared r expected rows (Some t) err)
      | ErrorResponse fs \<Rightarrow>
          Continue (PExecutePrepared r expected rows tag (or_keep err (from_server_fields fs)))
      | ReadyForQuery st \<Rightarrow>
          Finish (finish_with err (ExtendedOutcome \<lparr>eo_rows = rows, eo_command_tag = tag\<rparr>))
      | _ \<Rightarrow> Continue (PExecutePrepared r expected rows tag err))"

definition react_bind_portal ::
    "reply \<Rightarrow> error option \<Rightarrow> backend_message \<Rightarrow> reaction" where
  "react_bind_portal r err msg =
     (case msg of
        ErrorResponse fs \<Rightarrow> Continue (PBindPortal r (or_keep err (from_server_fields fs)))
      | ReadyForQuery st \<Rightarrow> Finish (finish_with err UnitOutcome)
      | _ \<Rightarrow> Continue (PBindPortal r err))"

definition react_execute_portal ::
    "reply \<Rightarrow> raw_rows \<Rightarrow> bool \<Rightarrow> error option \<Rightarrow> backend_message \<Rightarrow> reaction" where
  "react_execute_portal r rows has_more err msg =
     (case msg of
        DataRow columns \<Rightarrow> Continue (PExecutePortal r (rows @ [columns]) has_more err)
      | PortalSuspended \<Rightarrow> Continue (PExecutePortal r rows True err)
      | ErrorResponse fs \<Rightarrow> Continue (PExecutePortal r rows has_more (or_keep err (from_server_fields fs)))
      | ReadyForQuery st \<Rightarrow>
          Finish (finish_with err (PortalOutcome \<lparr>pb_rows = rows, pb_has_more = has_more\<rparr>))
      | _ \<Rightarrow> Continue (PExecutePortal r rows has_more err))"

definition react_close_portal ::
    "reply \<Rightarrow> error option \<Rightarrow> backend_message \<Rightarrow> reaction" where
  "react_close_portal r err msg =
     (case msg of
        ErrorResponse fs \<Rightarrow> Continue (PClosePortal r (or_keep err (from_server_fields fs)))
      | ReadyForQuery st \<Rightarrow> Finish (finish_with err UnitOutcome)
      | _ \<Rightarrow> Continue (PClosePortal r err))"

definition react_close_statement ::
    "reply \<Rightarrow> error option \<Rightarrow> backend_message \<Rightarrow> reaction" where
  "react_close_statement r err msg =
     (case msg of
        ErrorResponse fs \<Rightarrow> Continue (PCloseStatement r (or_keep err (from_server_fields fs)))
      | ReadyForQuery st \<Rightarrow> Finish (finish_with err UnitOutcome)
      | _ \<Rightarrow> Continue (PCloseStatement r err))"

fun react :: "pending \<Rightarrow> backend_message \<Rightarrow> reaction" where
  "react (PSimpleQuery r results rows cols err) msg = react_simple_query r results rows cols err msg"
| "react (PExtended r expected rows tag err) msg = react_extended r expected rows tag err msg"
| "react (PCopyIn r data tag err) msg = react_copy_in r data tag err msg"
| "react (PPrepare r oids cols err) msg = react_prepare r oids cols err msg"
| "react (PExecutePrepared r expected rows tag err) msg = react_execute_prepared r expected rows tag err msg"
| "react (PBindPortal r err) msg = react_bind_portal r err msg"
| "react (PExecutePortal r rows has_more err) msg = react_execute_portal r rows has_more err msg"
| "react (PClosePortal r err) msg = react_close_portal r err msg"
| "react (PCloseStatement r err) msg = react_close_statement r err msg"
| "react PClose msg = Continue PClose"

declare react.simps [simp del]

lemmas react_simps [simp] = react.simps [unfolded react_simple_query_def react_extended_def react_copy_in_def react_prepare_def react_execute_prepared_def
  react_bind_portal_def react_execute_portal_def react_close_portal_def react_close_statement_def]

section \<open>COPY and message handling\<close>

definition write_copy_fail ::
    "postgres_frontend \<Rightarrow> 'w socket \<Rightarrow> str \<Rightarrow> 'w driver \<Rightarrow> unit result \<times> 'w driver" where
  "write_copy_fail F S message d =
     (case fe_copy_fail F message [] of
        (Inl e, buf) \<Rightarrow> (Inl e, d\<lparr>d_write_buf := buf\<rparr>)
      | (Inr _, buf) \<Rightarrow> flush S (d\<lparr>d_write_buf := buf\<rparr>))"

fun copy_chunks :: "postgres_frontend \<Rightarrow> bytes list \<Rightarrow> writer" where
  "copy_chunks F [] buf = (Inr (), buf)"
| "copy_chunks F (chunk # chunks) buf = then_write (fe_copy_data F chunk) (copy_chunks F chunks) buf"

definition write_copy_stream ::
    "postgres_frontend \<Rightarrow> 'w socket \<Rightarrow> bytes list \<Rightarrow> 'w driver \<Rightarrow> error option result \<times> 'w driver" where
  "write_copy_stream F S data d =
     (case copy_chunks F data [] of
        (Inl err, buf) \<Rightarrow>
          (case write_copy_fail F S ''babar failed to encode COPY data'' (d\<lparr>d_write_buf := buf\<rparr>) of
             (Inl e, d') \<Rightarrow> (Inl e, d')
           | (Inr _, d') \<Rightarrow> (Inr (Some err), d'))
      | (Inr _, buf) \<Rightarrow>
          (case flush S (d\<lparr>d_write_buf := buf @ pg_copy_done F\<rparr>) of
             (Inl e, d') \<Rightarrow> (Inl e, d')
           | (Inr _, d') \<Rightarrow> (Inr None, d')))"

text \<open>The debug rendering of a list of format codes.\<close>

fun intersperse_comma :: "str list \<Rightarrow> str" where
  "intersperse_comma [] = []"
| "intersperse_comma [x] = x"
| "intersperse_comma (x # xs) = x @ '', '' @ intersperse_comma xs"

definition debug_formats :: "i16 list \<Rightarrow> str" where
  "debug_formats fs = ''['' @ intersperse_comma (map (\<lambda>f. show_int (sint f)) fs) @ '']''"

definition copy_format_error :: "u8 \<Rightarrow> i16 list \<Rightarrow> error" where
  "copy_format_error overall columns =
     Protocol (''COPY FROM STDIN requires binary format, got overall_format='' @ show_nat (unat overall) @
       '' column_formats='' @ debug_formats columns)"

definition set_copy_error :: "error \<Rightarrow> 'w driver \<Rightarrow> 'w driver" where
  "set_copy_error e d =
     (case d_pending d of
        Some (PCopyIn r data tag err) \<Rightarrow> d\<lparr>d_pending := Some (PCopyIn r data tag (or_keep err e))\<rparr>
      | _ \<Rightarrow> d)"

definition dispatch :: "backend_message \<Rightarrow> 'w driver \<Rightarrow> 'w driver" where
  "dispatch msg d =
     (case d_pending d of
        None \<Rightarrow> d
      | Some p \<Rightarrow>
          (case react p msg of
             Continue p' \<Rightarrow> d\<lparr>d_pending := Some p'\<rparr>
           | Finish out \<Rightarrow>
               (case pending_reply p of
                  Some r \<Rightarrow> send r out (d\<lparr>d_pending := None\<rparr>)
                | None \<Rightarrow> d\<lparr>d_pending := None\<rparr>)))"

definition on_message ::
    "postgres_frontend \<Rightarrow> 'w socket \<Rightarrow> backend_message \<Rightarrow> 'w driver \<Rightarrow> unit result \<times> 'w driver" where
  "on_message F S msg d0 =
     (let d = (case msg of ReadyForQuery st \<Rightarrow> d0\<lparr>d_transaction_status := st\<rparr> | _ \<Rightarrow> d0)
      in case (msg, d_pending d) of
           (CopyInResponse overall columns, Some (PCopyIn r data tag err)) \<Rightarrow>
             (if overall \<noteq> 1 \<or> (\<exists>f \<in> set columns. f \<noteq> 1)
              then write_copy_fail F S ''babar only supports binary COPY FROM STDIN''
                     (set_copy_error (copy_format_error overall columns) d)
              else (case write_copy_stream F S data (d\<lparr>d_pending := Some (PCopyIn r [] tag err)\<rparr>) of
                      (Inl e, d') \<Rightarrow> (Inl e, d')
                    | (Inr None, d') \<Rightarrow> (Inr (), d')
                    | (Inr (Some local_error), d') \<Rightarrow> (Inr (), set_copy_error local_error d')))
         | _ \<Rightarrow> (Inr (), dispatch msg d))"

definition shutdown :: "postgres_frontend \<Rightarrow> 'w socket \<Rightarrow> 'w driver \<Rightarrow> 'w driver" where
  "shutdown F S d =
     (let (_, w1) = sock_write_all S (pg_terminate F) (d_writer d);
          (_, w2) = sock_shutdown S w1
      in d\<lparr>d_write_buf := pg_terminate F, d_writer := w2\<rparr>)"

definition fail_pending :: "error \<Rightarrow> 'w driver \<Rightarrow> 'w driver" where
  "fail_pending err d =
     drain_inbox
       (case d_pending d of
          None \<Rightarrow> d
        | Some p \<Rightarrow>
            (case pending_reply p of
               Some r \<Rightarrow> send r (Inl err) (d\<lparr>d_pending := None\<rparr>)
             | None \<Rightarrow> d\<lparr>d_pending := None\<rparr>))"

section \<open>The run loop\<close>

text \<open>
  The driver together with its clients: \<open>sys_issued\<close> lists the reply channels of all commands that
  were put into the inbox, \<open>sys_dropped\<close> says that no sender is left. The command channel holds 128
  commands. The loop prefers the socket over the inbox; since messages arrive at any time the
  relation allows either, but a command only while none is in flight.
\<close>

record 'w system =
  sys_driver :: "'w driver"
  sys_running :: bool
  sys_dropped :: bool
  sys_issued :: "reply list"

definition COMMAND_BUFFER :: nat where
  "COMMAND_BUFFER = 128"

definition sys_init :: "'w \<Rightarrow> u8 \<Rightarrow> 'w system" where
  "sys_init w status =
     \<lparr>sys_driver = driver_new w status, sys_running = True, sys_dropped = False, sys_issued = []\<rparr>"

datatype label =
    Submit command
  | DropSenders
  | Receive backend_message
  | ReadError error
  | EndOfFile
  | Accept command
  | Hangup

inductive sys_step ::
    "postgres_frontend \<Rightarrow> 'w socket \<Rightarrow> label \<Rightarrow> 'w system \<Rightarrow> 'w system \<Rightarrow> bool"
  for F :: postgres_frontend and S :: "'w socket" where
  submit: "\<not> sys_dropped s \<Longrightarrow> \<not> d_inbox_closed (sys_driver s) \<Longrightarrow>
    length (d_inbox (sys_driver s)) < COMMAND_BUFFER \<Longrightarrow> cmd_reply c \<notin> set (sys_issued s) \<Longrightarrow>
    sys_step F S (Submit c) s
      (s\<lparr>sys_driver := (sys_driver s)\<lparr>d_inbox := d_inbox (sys_driver s) @ [c]\<rparr>,
         sys_issued := sys_issued s @ [cmd_reply c]\<rparr>)"
| drop_senders: "sys_step F S DropSenders s (s\<lparr>sys_dropped := True\<rparr>)"
| message: "sys_running s \<Longrightarrow> on_message F S m (sys_driver s) = (Inr (), d') \<Longrightarrow>
    sys_step F S (Receive m) s (s\<lparr>sys_driver := d'\<rparr>)"
| message_fatal: "sys_running s \<Longrightarrow> on_message F S m (sys_driver s) = (Inl e, d') \<Longrightarrow>
    sys_step F S (Receive m) s (s\<lparr>sys_driver := fail_pending e d', sys_running := False\<rparr>)"
| read_error: "sys_running s \<Longrightarrow>
    sys_step F S (ReadError e) s (s\<lparr>sys_driver := fail_pending e (sys_driver s), sys_running := False\<rparr>)"
| end_of_file: "sys_running s \<Longrightarrow>
    sys_step F S EndOfFile s (s\<lparr>sys_driver := fail_pending closed (sys_driver s), sys_running := False\<rparr>)"
| accept: "sys_running s \<Longrightarrow> d_pending (sys_driver s) = None \<Longrightarrow> d_inbox (sys_driver s) = c # cs \<Longrightarrow>
    start F S c ((sys_driver s)\<lparr>d_inbox := cs\<rparr>) = (res, d') \<Longrightarrow>
    sys_step F S (Accept c) s (s\<lparr>sys_driver := d'\<rparr>)"
| hangup: "sys_running s \<Longrightarrow> d_pending (sys_driver s) = None \<Longrightarrow> d_inbox (sys_driver s) = [] \<Longrightarrow>
    sys_dropped s \<or> d_inbox_closed (sys_driver s) \<Longrightarrow>
    sys_step F S Hangup s (s\<lparr>sys_driver := shutdown F S (sys_driver s), sys_running := False\<rparr>)"

inductive sys_run ::
    "postgres_frontend \<Rightarrow> 'w socket \<Rightarrow> 'w system \<Rightarrow> label list \<Rightarrow> 'w system \<Rightarrow> bool"
  for F :: postgres_frontend and S :: "'w socket" where
  run_nil: "sys_run F S s [] s"
| run_snoc: "sys_run F S s ls s1 \<Longrightarrow> sys_step F S l s1 s2 \<Longrightarrow> sys_run F S s (ls @ [l]) s2"

section \<open>Every command is answered once and in order\<close>

definition pending_ids :: "pending option \<Rightarrow> reply list" where
  "pending_ids p = (case Option.bind p pending_reply of None \<Rightarrow> [] | Some r \<Rightarrow> [r])"

lemma pending_ids_simps [simp]:
  "pending_ids None = []"
  "pending_ids (Some p) = (case pending_reply p of None \<Rightarrow> [] | Some r \<Rightarrow> [r])"
  by (simp_all add: pending_ids_def)

text \<open>The channels in the order they were or will be answered.\<close>

definition line :: "'w driver \<Rightarrow> reply list" where
  "line d = map fst (d_replies d) @ pending_ids (d_pending d) @ map cmd_reply (d_inbox d)"

lemma react_reply: "react p m = Continue p' \<Longrightarrow> pending_reply p' = pending_reply p"
  by (cases p) (auto split: backend_message.splits)

lemma react_finish: "react p m = Finish out \<Longrightarrow> (\<exists>st. m = ReadyForQuery st) \<and> pending_reply p \<noteq> None"
  by (cases p) (auto split: backend_message.splits)

lemma react_ready: "p \<noteq> PClose \<Longrightarrow> \<exists>out. react p (ReadyForQuery st) = Finish out"
  by (cases p) auto

lemma send_simps [simp]:
  "d_replies (send r out d) = d_replies d @ [(r, out)]" "d_pending (send r out d) = d_pending d"
  "d_inbox (send r out d) = d_inbox d" "d_inbox_closed (send r out d) = d_inbox_closed d"
  "d_write_buf (send r out d) = d_write_buf d" "d_writer (send r out d) = d_writer d"
  "d_transaction_status (send r out d) = d_transaction_status d"
  by (simp_all add: send_def)

lemma drain_fold:
  "fold (\<lambda>c d. fail_command c closed d) cs d =
     d\<lparr>d_replies := d_replies d @ map (\<lambda>c. (cmd_reply c, Inl closed)) cs\<rparr>"
  by (induction cs arbitrary: d) (simp_all add: fail_command_def send_def)

lemma drain_simps [simp]:
  "d_replies (drain_inbox d) = d_replies d @ map (\<lambda>c. (cmd_reply c, Inl closed)) (d_inbox d)"
  "d_inbox (drain_inbox d) = []" "d_pending (drain_inbox d) = d_pending d"
  "d_inbox_closed (drain_inbox d)" "d_transaction_status (drain_inbox d) = d_transaction_status d"
  by (simp_all add: drain_inbox_def drain_fold)

definition same_line :: "'w driver \<Rightarrow> 'w driver \<Rightarrow> bool" where
  "same_line d d' =
     (d_replies d' = d_replies d \<and> d_inbox d' = d_inbox d \<and> d_inbox_closed d' = d_inbox_closed d
      \<and> pending_ids (d_pending d') = pending_ids (d_pending d))"

lemma same_line_line: "same_line d d' \<Longrightarrow> line d' = line d"
  by (simp add: same_line_def line_def)

lemma same_line_trans: "same_line a b \<Longrightarrow> same_line b c \<Longrightarrow> same_line a c"
  by (simp add: same_line_def)

lemma flush_fields:
  "flush S d = (r, d') \<Longrightarrow> same_line d d' \<and> d_pending d' = d_pending d
   \<and> d_transaction_status d' = d_transaction_status d"
  by (auto simp: flush_def same_line_def split: prod.splits option.splits)

lemma same_line_buf [simp]: "same_line (d\<lparr>d_write_buf := b\<rparr>) d' = same_line d d'"
  by (simp add: same_line_def)

lemma write_copy_fail_fields:
  assumes "write_copy_fail F S m d = (r, d')"
  shows "same_line d d' \<and> d_pending d' = d_pending d"
proof (cases "fe_copy_fail F m []")
  case (Pair built buf)
  show ?thesis
  proof (cases built)
    case (Inl e)
    with assms Pair show ?thesis by (auto simp: write_copy_fail_def same_line_def)
  next
    case (Inr u)
    with assms Pair have "flush S (d\<lparr>d_write_buf := buf\<rparr>) = (r, d')"
      by (simp add: write_copy_fail_def)
    from flush_fields [OF this] show ?thesis by simp
  qed
qed

lemma write_copy_stream_fields:
  assumes "write_copy_stream F S data d = (r, d')"
  shows "same_line d d' \<and> d_pending d' = d_pending d"
proof (cases "copy_chunks F data []")
  case (Pair built buf)
  show ?thesis
  proof (cases built)
    case (Inl e)
    let ?m = "''babar failed to encode COPY data''"
    obtain r1 d1 where w: "write_copy_fail F S ?m (d\<lparr>d_write_buf := buf\<rparr>) = (r1, d1)" by fastforce
    with assms Pair Inl have "d' = d1"
      by (cases r1) (auto simp: write_copy_stream_def)
    with write_copy_fail_fields [OF w] show ?thesis by simp
  next
    case (Inr u)
    obtain r1 d1 where w: "flush S (d\<lparr>d_write_buf := buf @ pg_copy_done F\<rparr>) = (r1, d1)" by fastforce
    with assms Pair Inr have "d' = d1"
      by (cases r1) (auto simp: write_copy_stream_def)
    with flush_fields [OF w] show ?thesis by simp
  qed
qed

lemma set_copy_error_same: "same_line d (set_copy_error e d)"
  by (auto simp: set_copy_error_def same_line_def split: option.splits pending.splits)

lemma dispatch_line: "line (dispatch m d) = line d \<and> d_inbox_closed (dispatch m d) = d_inbox_closed d"
  by (auto simp: dispatch_def line_def split: option.splits reaction.splits
      dest: react_reply react_finish)

lemma line_status [simp]: "line (d\<lparr>d_transaction_status := st\<rparr>) = line d"
  by (simp add: line_def)

lemma on_message_cases:
  assumes "on_message F S m d0 = (res, d')"
  obtains (copy_fail) r data tag err overall columns where "m = CopyInResponse overall columns"
      and "d_pending d0 = Some (PCopyIn r data tag err)"
      and "overall \<noteq> 1 \<or> (\<exists>f \<in> set columns. f \<noteq> 1)"
      and "write_copy_fail F S ''babar only supports binary COPY FROM STDIN''
            (set_copy_error (copy_format_error overall columns) d0) = (res, d')"
  | (copy_stream) r data tag err columns streamed d1 where "m = CopyInResponse 1 columns"
      and "d_pending d0 = Some (PCopyIn r data tag err)" and "\<forall>f \<in> set columns. f = 1"
      and "write_copy_stream F S data (d0\<lparr>d_pending := Some (PCopyIn r [] tag err)\<rparr>) = (streamed, d1)"
      and "(res, d') = (case streamed of Inl e \<Rightarrow> (Inl e, d1) | Inr None \<Rightarrow> (Inr (), d1)
             | Inr (Some e) \<Rightarrow> (Inr (), set_copy_error e d1))"
  | (other) "res = Inr ()"
      and "d' = dispatch m (case m of ReadyForQuery st \<Rightarrow> d0\<lparr>d_transaction_status := st\<rparr> | _ \<Rightarrow> d0)"
      and "\<And>overall columns r data tag err. m = CopyInResponse overall columns \<Longrightarrow>
            d_pending d0 \<noteq> Some (PCopyIn r data tag err)"
proof (cases "\<exists>overall columns r data tag err. m = CopyInResponse overall columns
    \<and> d_pending d0 = Some (PCopyIn r data tag err)")
  case True
  then obtain overall columns r data tag err where
    m: "m = CopyInResponse overall columns" "d_pending d0 = Some (PCopyIn r data tag err)" by blast
  obtain streamed d1 where
    w: "write_copy_stream F S data (d0\<lparr>d_pending := Some (PCopyIn r [] tag err)\<rparr>) = (streamed, d1)"
    by fastforce
  show thesis
  proof (cases "overall \<noteq> 1 \<or> (\<exists>f \<in> set columns. f \<noteq> 1)")
    case True
    with assms m show thesis by (intro copy_fail) (simp_all add: on_message_def)
  next
    case False
    with assms m w show thesis
      by (intro copy_stream [of columns r data tag err streamed d1])
        (auto simp: on_message_def split: sum.splits option.splits)
  qed
next
  case False
  with assms have "(res, d') = (Inr (), dispatch m (case m of ReadyForQuery st \<Rightarrow> d0\<lparr>d_transaction_status := st\<rparr> | _ \<Rightarrow> d0))"
    by (auto simp: on_message_def split: backend_message.splits option.splits pending.splits)
  then show thesis using other False by blast
qed

lemma on_message_line:
  assumes "on_message F S m d = (res, d')"
  shows "line d' = line d \<and> d_inbox_closed d' = d_inbox_closed d"
  using assms
proof (cases rule: on_message_cases)
  case (copy_fail r data tag err overall columns)
  from write_copy_fail_fields [OF copy_fail(4)] set_copy_error_same show ?thesis
    by (metis same_line_def same_line_line)
next
  case (copy_stream r data tag err columns streamed d1)
  from write_copy_stream_fields [OF copy_stream(4)] have "same_line d d1"
    using copy_stream(2) by (simp add: same_line_def)
  moreover have "d' = d1 \<or> (\<exists>e. d' = set_copy_error e d1)"
    using copy_stream(5) by (auto split: sum.splits option.splits)
  ultimately have "same_line d d'" using set_copy_error_same same_line_trans by blast
  then show ?thesis by (simp add: same_line_line) (simp add: same_line_def)
next
  case other
  then show ?thesis by (simp add: dispatch_line split: backend_message.splits)
qed

lemma begin_command_fields:
  assumes "begin_command S build r p d = (res, d')" and "d_pending d = None" and "pending_reply p = Some r"
  shows "line d' = map fst (d_replies d) @ [r] @ map cmd_reply (d_inbox d)"
    and "\<forall>x \<in> set (drop (length (d_replies d)) (d_replies d')). isl (snd x)"
    and "d_pending d' = None \<or> d_pending d' = Some p"
proof -
  obtain built buf where b: "build [] = (built, buf)" by fastforce
  obtain fl d1 where f: "flush S (d\<lparr>d_write_buf := buf\<rparr>) = (fl, d1)" by fastforce
  from flush_fields [OF f] assms(2) have
    "d_replies d1 = d_replies d" "d_inbox d1 = d_inbox d" "d_pending d1 = None"
    by (auto simp: same_line_def)
  with assms b f show "line d' = map fst (d_replies d) @ [r] @ map cmd_reply (d_inbox d)"
    "\<forall>x \<in> set (drop (length (d_replies d)) (d_replies d')). isl (snd x)"
    "d_pending d' = None \<or> d_pending d' = Some p"
    by (cases built; cases fl; force simp: begin_command_def line_def)+
qed

lemma start_line:
  assumes "start F S c d = (res, d')" and "d_pending d = None"
  shows "line d' = map fst (d_replies d) @ [cmd_reply c] @ map cmd_reply (d_inbox d)"
proof (cases c)
  case (Close r)
  obtain fl d1 where f: "flush S (d\<lparr>d_write_buf := pg_terminate F\<rparr>) = (fl, d1)" by fastforce
  from flush_fields [OF f] assms(2) have "d_replies d1 = d_replies d" "d_inbox d1 = d_inbox d"
    by (auto simp: same_line_def)
  with assms f Close show ?thesis
    by (auto simp: line_def Let_def split: prod.splits)
qed (use assms begin_command_fields(1) in \<open>simp; fastforce\<close>)+

lemma fail_pending_fields:
  "line (fail_pending e d) = line d" "d_pending (fail_pending e d) = None"
  "d_inbox (fail_pending e d) = []" "d_inbox_closed (fail_pending e d)"
  by (auto simp: fail_pending_def line_def comp_def split: option.splits)

lemma shutdown_fields:
  "d_replies (shutdown F S d) = d_replies d" "d_pending (shutdown F S d) = d_pending d"
  "d_inbox (shutdown F S d) = d_inbox d" "d_inbox_closed (shutdown F S d) = d_inbox_closed d"
  by (simp_all add: shutdown_def split: prod.split)

definition sys_inv :: "'w system \<Rightarrow> bool" where
  "sys_inv s =
     (line (sys_driver s) = sys_issued s \<and> distinct (sys_issued s)
      \<and> (\<not> sys_running s \<longrightarrow> d_pending (sys_driver s) = None \<and> d_inbox (sys_driver s) = []
           \<and> (sys_dropped s \<or> d_inbox_closed (sys_driver s))))"

lemma sys_step_inv: "sys_step F S l s s' \<Longrightarrow> sys_inv s \<Longrightarrow> sys_inv s'"
proof (induction rule: sys_step.induct)
  case (submit s c)
  then show ?case by (auto simp: sys_inv_def line_def)
next
  case (message s m d')
  then show ?case using on_message_line [OF message(2)] by (simp add: sys_inv_def)
next
  case (message_fatal s m e d')
  then show ?case using on_message_line [OF message_fatal(2)]
    by (simp add: sys_inv_def fail_pending_fields)
next
  case (accept s c cs res d')
  from start_line [OF accept(4)] accept show ?case
    by (simp add: sys_inv_def line_def [of "sys_driver s"])
next
  case (hangup s)
  then show ?case by (simp add: sys_inv_def line_def shutdown_fields)
qed (auto simp: sys_inv_def fail_pending_fields)

lemma sys_run_inv: "sys_run F S s ls s' \<Longrightarrow> sys_inv s \<Longrightarrow> sys_inv s'"
  by (induction rule: sys_run.induct) (auto intro: sys_step_inv)

lemma sys_inv_init: "sys_inv (sys_init w status)"
  by (simp add: sys_inv_def sys_init_def driver_new_def line_def)

text \<open>The steps as a function of the label, to evaluate runs.\<close>

definition stop_with :: "error \<Rightarrow> 'w driver \<Rightarrow> 'w system \<Rightarrow> 'w system" where
  "stop_with e d s = s\<lparr>sys_driver := fail_pending e d, sys_running := False\<rparr>"

fun exec_label :: "postgres_frontend \<Rightarrow> 'w socket \<Rightarrow> label \<Rightarrow> 'w system \<Rightarrow> 'w system option" where
  "exec_label F S (Submit c) s =
     (if \<not> sys_dropped s \<and> \<not> d_inbox_closed (sys_driver s)
         \<and> length (d_inbox (sys_driver s)) < COMMAND_BUFFER \<and> cmd_reply c \<notin> set (sys_issued s)
      then Some (s\<lparr>sys_driver := (sys_driver s)\<lparr>d_inbox := d_inbox (sys_driver s) @ [c]\<rparr>,
                  sys_issued := sys_issued s @ [cmd_reply c]\<rparr>)
      else None)"
| "exec_label F S DropSenders s = Some (s\<lparr>sys_dropped := True\<rparr>)"
| "exec_label F S (Receive m) s =
     (if sys_running s
      then (case on_message F S m (sys_driver s) of
              (Inl e, d') \<Rightarrow> Some (stop_with e d' s)
            | (Inr _, d') \<Rightarrow> Some (s\<lparr>sys_driver := d'\<rparr>))
      else None)"
| "exec_label F S (ReadError e) s =
     (if sys_running s then Some (stop_with e (sys_driver s) s) else None)"
| "exec_label F S EndOfFile s =
     (if sys_running s then Some (stop_with closed (sys_driver s) s) else None)"
| "exec_label F S (Accept c) s =
     (if sys_running s \<and> d_pending (sys_driver s) = None \<and> take 1 (d_inbox (sys_driver s)) = [c]
      then Some (s\<lparr>sys_driver := snd (start F S c ((sys_driver s)\<lparr>d_inbox := tl (d_inbox (sys_driver s))\<rparr>))\<rparr>)
      else None)"
| "exec_label F S Hangup s =
     (if sys_running s \<and> d_pending (sys_driver s) = None \<and> d_inbox (sys_driver s) = []
         \<and> (sys_dropped s \<or> d_inbox_closed (sys_driver s))
      then Some (s\<lparr>sys_driver := shutdown F S (sys_driver s), sys_running := False\<rparr>) else None)"

fun exec_labels :: "postgres_frontend \<Rightarrow> 'w socket \<Rightarrow> label list \<Rightarrow> 'w system \<Rightarrow> 'w system option" where
  "exec_labels F S [] s = Some s"
| "exec_labels F S (l # ls) s = Option.bind (exec_label F S l s) (exec_labels F S ls)"

lemma exec_label_sound: "exec_label F S l s = Some s' \<Longrightarrow> sys_step F S l s s'"
proof (cases l)
  case (Accept c)
  assume "exec_label F S l s = Some s'"
  with Accept obtain cs where "sys_running s" "d_pending (sys_driver s) = None"
    "d_inbox (sys_driver s) = c # cs" "s' = s\<lparr>sys_driver := snd (start F S c ((sys_driver s)\<lparr>d_inbox := cs\<rparr>))\<rparr>"
    by (cases "d_inbox (sys_driver s)") (auto split: if_splits)
  with Accept show ?thesis using accept [OF _ _ _ prod.collapse [symmetric]] by blast
qed (auto simp: stop_with_def intro: sys_step.intros split: if_splits prod.splits sum.splits)

lemma sys_run_Cons: "sys_step F S l s s1 \<Longrightarrow> sys_run F S s1 ls s2 \<Longrightarrow> sys_run F S s (l # ls) s2"
proof (rotate_tac, induction rule: sys_run.induct)
  case (run_nil s1)
  with sys_run.run_snoc [OF sys_run.run_nil] show ?case by fastforce
next
  case (run_snoc s1 ls s' l' s2)
  with sys_run.run_snoc show ?case by fastforce
qed

lemma exec_labels_sound: "exec_labels F S ls s = Some s' \<Longrightarrow> sys_run F S s ls s'"
  by (induction ls arbitrary: s)
    (auto simp: bind_eq_Some_conv intro: sys_run.run_nil sys_run_Cons dest: exec_label_sound)

section \<open>Replies\<close>

text \<open>\<open>new_replies d d'\<close>: what was sent between the two states.\<close>

definition new_replies :: "'w driver \<Rightarrow> 'w driver \<Rightarrow> (reply \<times> outcome result) list" where
  "new_replies d d' = drop (length (d_replies d)) (d_replies d')"

lemma on_message_replies:
  assumes "on_message F S m d = (res, d')"
  shows "d_replies d' = d_replies d \<or> (\<exists>st. m = ReadyForQuery st)"
  using assms
proof (cases rule: on_message_cases)
  case (copy_fail r data tag err overall columns)
  from write_copy_fail_fields [OF copy_fail(4)] set_copy_error_same show ?thesis
    by (metis same_line_def)
next
  case (copy_stream r data tag err columns streamed d1)
  from write_copy_stream_fields [OF copy_stream(4)] have "d_replies d1 = d_replies d"
    by (simp add: same_line_def)
  moreover have "d' = d1 \<or> (\<exists>e. d' = set_copy_error e d1)"
    using copy_stream(5) by (auto split: sum.splits option.splits)
  ultimately show ?thesis using set_copy_error_same [of d1] by (auto simp: same_line_def)
next
  case other
  then show ?thesis
    by (auto simp: dispatch_def split: option.splits reaction.splits backend_message.splits
        dest: react_finish)
qed

lemma fail_pending_replies:
  "\<exists>xs. d_replies (fail_pending e d) = d_replies d @ xs \<and> (\<forall>x \<in> set xs. isl (snd x))"
  by (auto simp: fail_pending_def split: option.splits)

lemma start_replies:
  assumes "start F S c d = (res, d')" and "d_pending d = None" and "\<forall>r. c \<noteq> Close r"
  shows "\<forall>x \<in> set (new_replies d d'). isl (snd x)"
  using assms begin_command_fields(2) unfolding new_replies_def by (cases c) (simp; fastforce)+

lemma ready_dispatch:
  assumes "d_pending d \<noteq> Some PClose"
  shows "\<exists>out. dispatch (ReadyForQuery st) d =
    (case Option.bind (d_pending d) pending_reply of
       None \<Rightarrow> d | Some r \<Rightarrow> send r out (d\<lparr>d_pending := None\<rparr>)) \<and> d_pending (dispatch (ReadyForQuery st) d) = None"
proof (cases "d_pending d")
  case (Some p)
  with assms have "p \<noteq> PClose" by simp
  with react_ready obtain out where out: "react p (ReadyForQuery st) = Finish out" by blast
  with react_finish [OF out] Some show ?thesis by (auto simp: dispatch_def)
qed (simp add: dispatch_def)

fun deliver ::
    "postgres_frontend \<Rightarrow> 'w socket \<Rightarrow> backend_message list \<Rightarrow> 'w driver \<Rightarrow> unit result \<times> 'w driver" where
  "deliver F S [] d = (Inr (), d)"
| "deliver F S (m # ms) d =
     (case on_message F S m d of (Inl e, d') \<Rightarrow> (Inl e, d') | (Inr _, d') \<Rightarrow> deliver F S ms d')"

definition asynchronous :: "backend_message \<Rightarrow> bool" where
  "asynchronous m = (case m of ParameterStatus _ _ \<Rightarrow> True | NoticeResponse _ \<Rightarrow> True | _ \<Rightarrow> False)"

lemma asynchronous_ignored: "asynchronous m \<Longrightarrow> on_message F S m d = (Inr (), d)"
proof -
  assume m: "asynchronous m"
  have "react p m = Continue p" for p
    using m by (cases p) (auto simp: asynchronous_def split: backend_message.splits)
  with m show ?thesis
    by (auto simp: on_message_def dispatch_def asynchronous_def split: backend_message.splits option.splits)
qed

lemma deliver_filter: "deliver F S ms d = deliver F S (filter (\<lambda>m. \<not> asynchronous m) ms) d"
  by (induction ms arbitrary: d) (auto simp: asynchronous_ignored split: prod.split sum.split)

lemma deliver_append:
  "deliver F S (ms @ ms') d =
     (case deliver F S ms d of (Inl e, d') \<Rightarrow> (Inl e, d') | (Inr _, d') \<Rightarrow> deliver F S ms' d')"
  by (induction ms arbitrary: d) (auto split: prod.split sum.split)

text \<open>A message that is neither \<open>ReadyForQuery\<close> nor \<open>CopyInResponse\<close> only changes the pending state.\<close>

lemma on_message_react:
  assumes "d_pending d = Some p" and "react p m = Continue p'"
    and "\<And>st. m \<noteq> ReadyForQuery st" and "\<And>x y. m \<noteq> CopyInResponse x y"
  shows "on_message F S m d = (Inr (), d\<lparr>d_pending := Some p'\<rparr>)"
  using assms by (cases m) (auto simp: on_message_def dispatch_def)

lemma on_message_finish:
  assumes "d_pending d = Some p" and "react p (ReadyForQuery st) = Finish out" and "pending_reply p = Some r"
  shows "on_message F S (ReadyForQuery st) d =
    (Inr (), send r out (d\<lparr>d_transaction_status := st, d_pending := None\<rparr>))"
  using assms by (simp add: on_message_def dispatch_def send_def)

section \<open>Claims\<close>

text \<open>
  C1. First in, first out: at every moment the answered commands, the one in flight and the queued
  ones, in this order, are exactly the commands issued so far; no command is lost, none is answered
  twice or overtaken. Once the driver has stopped every issued command has been answered, and no
  further one is accepted.
\<close>

theorem driver_answers_in_order:
  assumes "sys_run F S (sys_init w status) ls s"
  shows "map fst (d_replies (sys_driver s)) @ pending_ids (d_pending (sys_driver s)) @
      map cmd_reply (d_inbox (sys_driver s)) = sys_issued s
    \<and> distinct (map fst (d_replies (sys_driver s)))
    \<and> (\<not> sys_running s \<longrightarrow> map fst (d_replies (sys_driver s)) = sys_issued s)
    \<and> (\<not> sys_running s \<longrightarrow> (\<forall>c s'. \<not> sys_step F S (Submit c) s s'))"
proof -
  from sys_run_inv [OF assms sys_inv_init] have inv: "sys_inv s" .
  then have l: "line (sys_driver s) = sys_issued s" and d: "distinct (sys_issued s)"
    by (simp_all add: sys_inv_def)
  from d l have "distinct (map fst (d_replies (sys_driver s)))"
    by (metis distinct_append line_def)
  moreover have "\<not> sys_step F S (Submit c) s s'" if "\<not> sys_running s" for c s'
    using inv that by (auto simp: sys_inv_def elim: sys_step.cases)
  ultimately show ?thesis using inv l by (auto simp: sys_inv_def line_def)
qed

definition null_frontend :: postgres_frontend where
  "null_frontend =
     \<lparr>pg_query = (\<lambda>_. ([], None)), pg_parse = (\<lambda>_ _ _. ([], None)), pg_bind = (\<lambda>_ _ _ _ _. ([], None)),
      pg_describe = (\<lambda>_ _. ([], None)), pg_close = (\<lambda>_ _. ([], None)), pg_execute = (\<lambda>_ _. ([], None)),
      pg_sync = [], pg_terminate = [], pg_copy_data = (\<lambda>_. ([], None)), pg_copy_done = [],
      pg_copy_fail = (\<lambda>_. ([], None)), pg_startup = (\<lambda>_. ([], None)), pg_password = (\<lambda>_. ([], None)),
      pg_sasl_initial = (\<lambda>_ _. ([], None)), pg_sasl_response = (\<lambda>_. ([], None))\<rparr>"

definition recording_socket :: "bytes socket" where
  "recording_socket =
     \<lparr>sock_write_all = (\<lambda>b w. (None, w @ b)), sock_shutdown = (\<lambda>w. (None, w))\<rparr>"

lemmas demo_run_simps = sys_init_def driver_new_def COMMAND_BUFFER_def begin_command_def
  fe_query_def emit_def flush_def null_frontend_def recording_socket_def stop_with_def
  fail_pending_def drain_inbox_def fail_command_def send_def

theorem driver_answers_in_order_witness:
  "\<exists>s. sys_run null_frontend recording_socket (sys_init [] 73)
        [Submit (SimpleQuery 1 ''x''), Submit (Close 2), Accept (SimpleQuery 1 ''x''), EndOfFile] s
     \<and> \<not> sys_running s \<and> map fst (d_replies (sys_driver s)) = [1, 2]"
proof -
  let ?ls = "[Submit (SimpleQuery 1 ''x''), Submit (Close 2), Accept (SimpleQuery 1 ''x''), EndOfFile]"
  obtain s where s: "exec_labels null_frontend recording_socket ?ls (sys_init [] 73) = Some s"
    "\<not> sys_running s" "sys_issued s = [1, 2]"
    by (simp add: demo_run_simps)
  from exec_labels_sound [OF s(1)] driver_answers_in_order [OF exec_labels_sound [OF s(1)]] s(2,3)
  show ?thesis by auto
qed

text \<open>
  A command is acknowledged as successful only when \<open>ReadyForQuery\<close> has arrived: every reply sent
  in any other step is an error, except that of \<open>Close\<close>, which is answered when the socket is shut.
\<close>

theorem success_only_when_ready:
  assumes "sys_step F S l s s'"
    and "(r, Inr out) \<in> set (new_replies (sys_driver s) (sys_driver s'))"
  shows "(\<exists>st. l = Receive (ReadyForQuery st)) \<or> (\<exists>r'. l = Accept (Close r'))"
  using assms
proof (cases rule: sys_step.cases)
  case (message m d')
  with assms(2) on_message_replies [OF message(4)] show ?thesis by (auto simp: new_replies_def)
next
  case (message_fatal m e d')
  with assms(2) on_message_replies [OF message_fatal(4)] fail_pending_replies [of e d'] show ?thesis
    by (fastforce simp: new_replies_def)
next
  case (accept c cs res d')
  with assms(2) start_replies [OF accept(6)] show ?thesis by (fastforce simp: new_replies_def)
next
  case (read_error e)
  with assms(2) fail_pending_replies [of e "sys_driver s"] show ?thesis by (fastforce simp: new_replies_def)
next
  case end_of_file
  with assms(2) fail_pending_replies [of closed "sys_driver s"] show ?thesis by (fastforce simp: new_replies_def)
qed (auto simp: new_replies_def shutdown_fields)

theorem success_only_when_ready_witness:
  "\<exists>s s'. sys_step null_frontend recording_socket (Receive (ReadyForQuery 73)) s s'
     \<and> (1, Inr (SimpleOutcome [])) \<in> set (new_replies (sys_driver s) (sys_driver s'))
     \<and> (\<exists>st. Receive (ReadyForQuery 73) = Receive (ReadyForQuery st))"
proof -
  let ?s = "(sys_init [] 73)\<lparr>sys_driver := (driver_new [] 73)\<lparr>d_pending := Some (PSimpleQuery 1 [] [] None None)\<rparr>\<rparr>"
  obtain s' where s': "exec_label null_frontend recording_socket (Receive (ReadyForQuery 73)) ?s = Some s'"
    "(1, Inr (SimpleOutcome [])) \<in> set (new_replies (sys_driver ?s) (sys_driver s'))"
    by (simp add: demo_run_simps on_message_def dispatch_def finish_with_def new_replies_def)
  with success_only_when_ready [OF exec_label_sound [OF s'(1)] s'(2)] exec_label_sound [OF s'(1)]
  show ?thesis by blast
qed

text \<open>
  After \<open>ReadyForQuery\<close> the driver is idle again, whatever the command in flight was and however
  it went: exactly the waiting caller gets a reply, the transaction status is the reported one and
  the next command can start. Only a driver that is closing stays as it is.
\<close>

lemma ready_makes_idle:
  assumes "d_pending d \<noteq> Some PClose"
  shows "\<exists>d'. on_message F S (ReadyForQuery st) d = (Inr (), d') \<and> d_pending d' = None
    \<and> d_transaction_status d' = st \<and> d_inbox d' = d_inbox d
    \<and> map fst (d_replies d') = map fst (d_replies d) @ pending_ids (d_pending d)"
proof -
  let ?d = "d\<lparr>d_transaction_status := st\<rparr>"
  from assms obtain out where
    "dispatch (ReadyForQuery st) ?d = (case Option.bind (d_pending d) pending_reply of
       None \<Rightarrow> ?d | Some r \<Rightarrow> send r out (?d\<lparr>d_pending := None\<rparr>))"
    "d_pending (dispatch (ReadyForQuery st) ?d) = None"
    using ready_dispatch [of ?d st] by auto
  then show ?thesis
    by (auto simp: on_message_def pending_ids_def split: option.splits)
qed

lemma ready_makes_idle_witness:
  "\<exists>d'. on_message null_frontend recording_socket (ReadyForQuery 73)
      ((driver_new [] 73)\<lparr>d_pending := Some (PBindPortal 4 None)\<rparr>) = (Inr (), d') \<and> d_pending d' = None
    \<and> map fst (d_replies d') = [4]"
  using ready_makes_idle [of "(driver_new [] 73)\<lparr>d_pending := Some (PBindPortal 4 None)\<rparr>"
      null_frontend recording_socket 73]
  by (auto simp: driver_new_def)

definition result_set :: "row_field list \<times> raw_rows \<times> str \<Rightarrow> backend_message list" where
  "result_set x = (case x of (fs, rows, tag) \<Rightarrow> RowDescription fs # map DataRow rows @ [CommandComplete tag])"

lemma pending_self: "d_pending d = p \<Longrightarrow> d\<lparr>d_pending := p\<rparr> = d"
  by auto

lemma deliver_simple_rows:
  "d_pending d = Some (PSimpleQuery r results rows fs err) \<Longrightarrow>
   deliver F S (map DataRow new @ ms) d =
     deliver F S ms (d\<lparr>d_pending := Some (PSimpleQuery r results (rows @ new) fs err)\<rparr>)"
  by (induction new arbitrary: d rows) (simp_all add: on_message_react pending_self)

lemma deliver_result_sets:
  "d_pending d = Some (PSimpleQuery r results [] None None) \<Longrightarrow>
   deliver F S (concat (map result_set sets) @ ms) d =
     deliver F S ms (d\<lparr>d_pending := Some (PSimpleQuery r (results @ map (\<lambda>x. fst (snd x)) sets) [] None None)\<rparr>)"
proof (induction sets arbitrary: d results)
  case (Cons x sets)
  obtain fs rows tag where x: "x = (fs, rows, tag)" by (cases x)
  let ?ms = "concat (map result_set sets) @ ms"
  have "deliver F S (concat (map result_set (x # sets)) @ ms) d =
      deliver F S (map DataRow rows @ CommandComplete tag # ?ms)
        (d\<lparr>d_pending := Some (PSimpleQuery r results [] (Some fs) None)\<rparr>)"
    using Cons.prems by (simp add: x result_set_def on_message_react)
  also have "\<dots> = deliver F S ?ms (d\<lparr>d_pending := Some (PSimpleQuery r (results @ [rows]) [] None None)\<rparr>)"
    by (simp add: deliver_simple_rows on_message_react)
  also have "\<dots> = deliver F S ms (d\<lparr>d_pending :=
      Some (PSimpleQuery r ((results @ [rows]) @ map (\<lambda>x. fst (snd x)) sets) [] None None)\<rparr>)"
    by (simp add: Cons.IH)
  finally show ?case by (simp add: x)
qed (simp add: pending_self)

text \<open>
  C22. A simple query returns its result sets in order, each with its rows in order, no matter which
  parameter-status or notice messages the server mixes in.
\<close>

theorem simple_query_delivers_results:
  assumes "d_pending d = Some (PSimpleQuery r [] [] None None)"
    and "filter (\<lambda>m. \<not> asynchronous m) ms = concat (map result_set sets) @ [ReadyForQuery st]"
  shows "deliver F S ms d =
    (Inr (), send r (Inr (SimpleOutcome (map (\<lambda>x. fst (snd x)) sets)))
       (d\<lparr>d_transaction_status := st, d_pending := None\<rparr>))"
  unfolding deliver_filter [of F S ms] assms(2)
  by (subst deliver_result_sets [OF assms(1)])
    (simp add: on_message_finish finish_with_def send_def)

theorem simple_query_delivers_results_witness:
  "deliver null_frontend recording_socket
     [RowDescription [], NoticeResponse [], DataRow [Some [49]], CommandComplete ''SELECT 1'', ReadyForQuery 73]
     ((driver_new [] 73)\<lparr>d_pending := Some (PSimpleQuery 1 [] [] None None)\<rparr>) =
   (Inr (), send 1 (Inr (SimpleOutcome [[[Some [49]]]]))
     ((driver_new [] 73)\<lparr>d_pending := Some (PSimpleQuery 1 [] [] None None), d_transaction_status := 73,
        d_pending := None\<rparr>))"
  by (subst simple_query_delivers_results [of _ 1 _ "[([], [[Some [49]]], ''SELECT 1'')]" 73])
    (simp_all add: result_set_def asynchronous_def)

lemma deliver_extended_rows:
  "d_pending d = Some (PExtended r expected rows tag err) \<Longrightarrow>
   deliver F S (map DataRow new @ ms) d =
     deliver F S ms (d\<lparr>d_pending := Some (PExtended r expected (rows @ new) tag err)\<rparr>)"
  by (induction new arbitrary: d rows) (simp_all add: on_message_react pending_self)

text \<open>
  An extended query returns the rows in order when the server's column count is the one the
  decoder expects, and a column alignment error otherwise, in both cases with the connection idle
  afterwards; commands, which expect no rows, are not checked.
\<close>

lemma extended_query_checks_columns:
  assumes "d_pending d = Some (PExtended r expected [] None None)"
    and "filter (\<lambda>m. \<not> asynchronous m) ms = [ParseComplete, BindComplete, RowDescription fs] @
           map DataRow rows @ [CommandComplete tag, ReadyForQuery st]"
  shows "deliver F S ms d =
    (Inr (), send r
       (case expected of
          Some n \<Rightarrow> if length fs \<noteq> n then Inl (ColumnAlignment n (length fs) None None)
                    else Inr (ExtendedOutcome \<lparr>eo_rows = rows, eo_command_tag = Some tag\<rparr>)
        | None \<Rightarrow> Inr (ExtendedOutcome \<lparr>eo_rows = rows, eo_command_tag = Some tag\<rparr>))
       (d\<lparr>d_transaction_status := st, d_pending := None\<rparr>))"
proof -
  let ?p = "PExtended r expected rows (Some tag) (check_columns expected (length fs) None)"
  have "deliver F S ms d = deliver F S [ReadyForQuery st] (d\<lparr>d_pending := Some ?p\<rparr>)"
    unfolding deliver_filter [of F S ms] assms(2)
    using assms(1) by (simp add: on_message_react deliver_extended_rows)
  also have "\<dots> = (Inr (), send r (finish_with (check_columns expected (length fs) None)
      (ExtendedOutcome \<lparr>eo_rows = rows, eo_command_tag = Some tag\<rparr>))
      (d\<lparr>d_transaction_status := st, d_pending := None\<rparr>))"
    by (simp add: on_message_finish send_def)
  finally show ?thesis
    by (auto simp: finish_with_def check_columns_def split: option.split)
qed

lemma extended_query_checks_columns_witness:
  "snd (deliver null_frontend recording_socket
     [ParseComplete, BindComplete, RowDescription [], CommandComplete ''SELECT 0'', ReadyForQuery 73]
     ((driver_new [] 73)\<lparr>d_pending := Some (PExtended 1 (Some 2) [] None None)\<rparr>)) =
   send 1 (Inl (ColumnAlignment 2 0 None None)) (driver_new [] 73)"
  using extended_query_checks_columns
    [of "(driver_new [] 73)\<lparr>d_pending := Some (PExtended 1 (Some 2) [] None None)\<rparr>" 1 "Some 2"
      "[ParseComplete, BindComplete, RowDescription [], CommandComplete ''SELECT 0'', ReadyForQuery 73]"
      "[]" "[]" "''SELECT 0''" 73 null_frontend recording_socket]
  by (simp add: asynchronous_def driver_new_def)

text \<open>\<open>failed p\<close>: an error has been recorded for the command in flight.\<close>

primrec failed :: "pending \<Rightarrow> bool" where
  "failed (PSimpleQuery _ _ _ _ err) = (err \<noteq> None)"
| "failed (PExtended _ _ _ _ err) = (err \<noteq> None)"
| "failed (PCopyIn _ _ _ err) = (err \<noteq> None)"
| "failed (PPrepare _ _ _ err) = (err \<noteq> None)"
| "failed (PExecutePrepared _ _ _ _ err) = (err \<noteq> None)"
| "failed (PBindPortal _ err) = (err \<noteq> None)"
| "failed (PExecutePortal _ _ _ err) = (err \<noteq> None)"
| "failed (PClosePortal _ err) = (err \<noteq> None)"
| "failed (PCloseStatement _ err) = (err \<noteq> None)"
| "failed PClose = False"

lemma or_keep_not_None [simp]: "or_keep x y \<noteq> None"
  by (cases x) simp_all

lemma check_columns_keeps: "err \<noteq> None \<Longrightarrow> check_columns expected n err \<noteq> None"
  by (auto simp: check_columns_def split: option.split)

lemma react_failed: "react p m = Continue p' \<Longrightarrow> failed p \<Longrightarrow> failed p'"
  by (cases p) (auto simp: check_columns_keeps split: backend_message.splits)

lemma react_error: "p \<noteq> PClose \<Longrightarrow> \<exists>p'. react p (ErrorResponse fs) = Continue p' \<and> failed p'"
  by (cases p) auto

lemma react_failed_finish: "failed p \<Longrightarrow> \<exists>e. react p (ReadyForQuery st) = Finish (Inl e)"
  by (cases p) (auto simp: finish_with_def)

lemma on_message_pending:
  assumes "on_message F S m d = (Inr (), d')" and "d_pending d = Some p" and "p \<noteq> PClose"
    and "\<And>st. m \<noteq> ReadyForQuery st"
  shows "\<exists>p'. d_pending d' = Some p' \<and> pending_reply p' = pending_reply p \<and> (failed p \<longrightarrow> failed p')
    \<and> ((\<exists>fs. m = ErrorResponse fs) \<longrightarrow> failed p') \<and> d_replies d' = d_replies d"
  using assms(1)
proof (cases rule: on_message_cases)
  case (copy_fail r data tag err overall columns)
  with assms(2) write_copy_fail_fields [OF copy_fail(4)] show ?thesis
    by (auto simp: set_copy_error_def same_line_def)
next
  case (copy_stream r data tag err columns streamed d1)
  from write_copy_stream_fields [OF copy_stream(4)] copy_stream(1,2,5) assms(2) show ?thesis
    by (auto simp: set_copy_error_def same_line_def split: sum.splits option.splits)
next
  case other
  with assms(4) have d': "d' = dispatch m d" by (auto split: backend_message.splits)
  obtain p' where p': "react p m = Continue p'"
    using react_finish [of p m] assms(4) by (cases "react p m") auto
  then have "failed p'" if "m = ErrorResponse fs" for fs
    using react_error [OF assms(3), of fs] that by auto
  with d' p' assms(2) react_reply [OF p'] react_failed [OF p'] show ?thesis
    by (auto simp: dispatch_def)
qed

lemma deliver_pending:
  assumes "deliver F S ms d = (Inr (), d')" and "d_pending d = Some p" and "pending_reply p = Some r"
    and "\<forall>m \<in> set ms. \<forall>st. m \<noteq> ReadyForQuery st"
  shows "\<exists>p'. d_pending d' = Some p' \<and> pending_reply p' = Some r \<and> d_replies d' = d_replies d
    \<and> (failed p \<or> (\<exists>fs. ErrorResponse fs \<in> set ms) \<longrightarrow> failed p')"
  using assms
proof (induction ms arbitrary: d p)
  case (Cons m ms)
  from Cons.prems(1) obtain d1 where d1: "on_message F S m d = (Inr (), d1)" "deliver F S ms d1 = (Inr (), d')"
    by (auto split: prod.splits sum.splits)
  from Cons.prems(3) have "p \<noteq> PClose" by auto
  from on_message_pending [OF d1(1) Cons.prems(2) this] Cons.prems(4) obtain p1 where
    p1: "d_pending d1 = Some p1" "pending_reply p1 = pending_reply p" "failed p \<longrightarrow> failed p1"
      "(\<exists>fs. m = ErrorResponse fs) \<longrightarrow> failed p1" "d_replies d1 = d_replies d" by auto
  from Cons.IH [OF d1(2) p1(1)] p1 Cons.prems(3,4) show ?case by auto
qed simp

text \<open>
  C13. An error response is never swallowed: if the server reports an error at any point before
  \<open>ReadyForQuery\<close>, the caller receives an error and not a result, for every kind of command, and the
  connection is idle afterwards.
\<close>

theorem error_response_reaches_caller:
  assumes "d_pending d = Some p" and "pending_reply p = Some r" and "ErrorResponse fs \<in> set ms"
    and "\<forall>m \<in> set ms. \<forall>st. m \<noteq> ReadyForQuery st"
    and "deliver F S (ms @ [ReadyForQuery st]) d = (Inr (), d')"
  shows "\<exists>e. d_replies d' = d_replies d @ [(r, Inl e)] \<and> d_pending d' = None"
proof -
  from assms(5) obtain d1 where d1: "deliver F S ms d = (Inr (), d1)"
    "deliver F S [ReadyForQuery st] d1 = (Inr (), d')"
    by (auto simp: deliver_append split: prod.splits sum.splits)
  from deliver_pending [OF d1(1) assms(1,2,4)] assms(3) obtain p' where
    p': "d_pending d1 = Some p'" "pending_reply p' = Some r" "d_replies d1 = d_replies d" "failed p'" by blast
  from react_failed_finish [OF p'(4)] obtain e where "react p' (ReadyForQuery st) = Finish (Inl e)" by blast
  from on_message_finish [OF p'(1) this p'(2), of F S] d1(2) p'(3) show ?thesis by auto
qed

theorem error_response_reaches_caller_witness:
  "\<exists>e. d_replies (snd (deliver null_frontend recording_socket
       ([ErrorResponse []] @ [ReadyForQuery 73])
       ((driver_new [] 73)\<lparr>d_pending := Some (PClosePortal 5 None)\<rparr>))) = [(5, Inl e)]"
proof -
  let ?d = "(driver_new [] 73)\<lparr>d_pending := Some (PClosePortal 5 None)\<rparr>"
  obtain d' where "deliver null_frontend recording_socket ([ErrorResponse []] @ [ReadyForQuery 73]) ?d = (Inr (), d')"
    by (simp add: on_message_def dispatch_def)
  from error_response_reaches_caller [OF _ _ _ _ this, of "PClosePortal 5 None" 5 "[]"] this show ?thesis
    by (auto simp: driver_new_def)
qed

lemma copy_chunks_bytes:
  "copy_chunks F chunks buf = (Inr u, buf') \<Longrightarrow> buf' = buf @ concat (map (fst \<circ> pg_copy_data F) chunks)"
proof (induction chunks arbitrary: buf)
  case (Cons c chunks)
  from Cons.prems have "copy_chunks F chunks (buf @ fst (pg_copy_data F c)) = (Inr u, buf')"
    by (auto simp: then_write_def fe_copy_data_def emit_def split: sum.splits option.splits)
  from Cons.IH [OF this] show ?case by simp
qed simp

text \<open>
  COPY: on a binary \<open>CopyInResponse\<close> the driver writes all chunks in order followed by
  \<open>CopyDone\<close> in one write, and keeps none of them; on any other format it writes only \<open>CopyFail\<close> and
  the command is bound to fail.
\<close>

lemma copy_in_response_handled:
  assumes "d_pending d = Some (PCopyIn r data tag err)"
    and "on_message F S (CopyInResponse overall columns) d = (Inr (), d')"
  shows "if overall = 1 \<and> (\<forall>f \<in> set columns. f = 1)
    then (\<forall>c \<in> set data. snd (pg_copy_data F c) = None) \<longrightarrow>
      d_pending d' = Some (PCopyIn r [] tag err)
      \<and> d_writer d' = snd (sock_write_all S (concat (map (fst \<circ> pg_copy_data F) data) @ pg_copy_done F) (d_writer d))
    else (\<exists>e. d_pending d' = Some (PCopyIn r data tag (Some e)))
      \<and> d_writer d' = snd (sock_write_all S
          (fst (pg_copy_fail F ''babar only supports binary COPY FROM STDIN'')) (d_writer d))"
  using assms(2)
proof (cases rule: on_message_cases)
  case (copy_fail r' data' tag' err' overall' columns')
  then have "d_pending d' = Some (PCopyIn r data tag (or_keep err (copy_format_error overall columns)))
      \<and> d_writer d' = snd (sock_write_all S
          (fst (pg_copy_fail F ''babar only supports binary COPY FROM STDIN'')) (d_writer d))"
    using assms(1) by (auto simp: write_copy_fail_def fe_copy_fail_def emit_def flush_def set_copy_error_def
        split: option.splits prod.splits)
  with copy_fail(1,3) show ?thesis by (cases err) auto
next
  case (copy_stream r' data' tag' err' columns' streamed d1)
  have ok: "fst (copy_chunks F data buf) = Inr ()" if "\<forall>c \<in> set data. snd (pg_copy_data F c) = None" for buf
    using that by (induction data arbitrary: buf) (auto simp: then_write_def fe_copy_data_def emit_def)
  show ?thesis
  proof (cases "\<forall>c \<in> set data. snd (pg_copy_data F c) = None")
    case True
    from ok [OF True, of "[]"] obtain buf where buf: "copy_chunks F data [] = (Inr (), buf)"
      by (cases "copy_chunks F data []") auto
    with copy_stream assms(1) copy_chunks_bytes [OF buf] show ?thesis
      by (auto simp: write_copy_stream_def flush_def split: sum.splits option.splits prod.splits)
  next
    case False
    with copy_stream(1,3) show ?thesis by auto
  qed
next
  case other
  with assms(1) show ?thesis by blast
qed

lemma copy_in_response_handled_witness:
  "\<exists>d'. on_message null_frontend recording_socket (CopyInResponse 0 [])
      ((driver_new [] 73)\<lparr>d_pending := Some (PCopyIn 1 [[7]] None None)\<rparr>) = (Inr (), d')
    \<and> (\<exists>e. d_pending d' = Some (PCopyIn 1 [[7]] None (Some e)))"
proof -
  obtain d' where "on_message null_frontend recording_socket (CopyInResponse 0 [])
      ((driver_new [] 73)\<lparr>d_pending := Some (PCopyIn 1 [[7]] None None)\<rparr>) = (Inr (), d')"
    by (simp add: on_message_def write_copy_fail_def fe_copy_fail_def emit_def flush_def
        null_frontend_def recording_socket_def)
  with copy_in_response_handled [OF _ this, of 1 "[[7]]" None None] show ?thesis by auto
qed

end
