(* ===== verification/Statement_Cache.thy ===== *)
theory Statement_Cache
  imports Pg_Types Backend_Codec
begin

text \<open>
  The per-session cache of prepared statements (\<open>session/cache.rs\<close>), the registry of dynamically
  resolved types (\<open>session/type_registry.rs\<close>) and the protocol by which concurrent tasks prepare and
  release statements through it (\<open>Session::prepare_query\<close>, \<open>PreparedStatement::close\<close>).
\<close>

section \<open>The cache\<close>

datatype cache_key = CacheKey (sql_hash: u64) (param_types: "pg_type list")

text \<open>\<open>DefaultHasher\<close> is the parameter \<open>hash\<close>.\<close>

definition cache_key_new :: "(str \<Rightarrow> u64) \<Rightarrow> str \<Rightarrow> pg_type list \<Rightarrow> cache_key" where
  "cache_key_new hash sql types = CacheKey (hash sql) types"

record cached_statement =
  cs_name :: str
  cs_param_oids :: "oid list"
  cs_row_fields :: "row_field list"

record cache_entry =
  ce_stmt :: cached_statement
  ce_handles :: nat

record statement_cache =
  sc_stmts :: "cache_key \<rightharpoonup> cache_entry"
  sc_counter :: u64
  sc_retain :: bool

definition cache_new :: "bool \<Rightarrow> statement_cache" where
  "cache_new retain = \<lparr>sc_stmts = Map.empty, sc_counter = 0, sc_retain = retain\<rparr>"

definition checkout :: "statement_cache \<Rightarrow> cache_key \<Rightarrow> cached_statement option \<times> statement_cache" where
  "checkout c key =
     (case sc_stmts c key of
        None \<Rightarrow> (None, c)
      | Some entry \<Rightarrow>
          (Some (ce_stmt entry),
           c\<lparr>sc_stmts := (sc_stmts c)(key \<mapsto> entry\<lparr>ce_handles := ce_handles entry + 1\<rparr>)\<rparr>))"

definition cache_insert :: "statement_cache \<Rightarrow> cache_key \<Rightarrow> cached_statement \<Rightarrow> statement_cache" where
  "cache_insert c key stmt =
     c\<lparr>sc_stmts := (sc_stmts c)(key \<mapsto> \<lparr>ce_stmt = stmt, ce_handles = 1\<rparr>)\<rparr>"

definition release_handle ::
    "statement_cache \<Rightarrow> cache_key \<Rightarrow> cached_statement option \<times> statement_cache" where
  "release_handle c key =
     (case sc_stmts c key of
        None \<Rightarrow> (None, c)
      | Some entry \<Rightarrow>
          (if ce_handles entry > 1 then
             (None, c\<lparr>sc_stmts := (sc_stmts c)(key \<mapsto> entry\<lparr>ce_handles := ce_handles entry - 1\<rparr>)\<rparr>)
           else if sc_retain c then
             (None, c\<lparr>sc_stmts := (sc_stmts c)(key \<mapsto> entry\<lparr>ce_handles := 0\<rparr>)\<rparr>)
           else (Some (ce_stmt entry), c\<lparr>sc_stmts := (sc_stmts c)(key := None)\<rparr>)))"

definition babar_name :: "u64 \<Rightarrow> str" where
  "babar_name i = ''_babar_'' @ show_nat (unat i)"

definition next_name :: "statement_cache \<Rightarrow> str \<times> statement_cache" where
  "next_name c = (babar_name (sc_counter c + 1), c\<lparr>sc_counter := sc_counter c + 1\<rparr>)"

section \<open>The type registry\<close>

type_synonym type_registry = "pg_type \<rightharpoonup> oid"

definition registry_get :: "type_registry \<Rightarrow> pg_type \<Rightarrow> oid option" where
  "registry_get r ty = r ty"

definition registry_insert :: "type_registry \<Rightarrow> pg_type \<Rightarrow> oid \<Rightarrow> type_registry" where
  "registry_insert r ty o0 = r(ty \<mapsto> o0)"

text \<open>
  \<open>resolve_type_oids\<close>: \<open>resolve\<close> stands for the round trip to the server in
  \<open>resolve_dynamic_type\<close>, with its own state.
\<close>

fun resolve_type_oids ::
    "(pg_type \<Rightarrow> 's \<Rightarrow> oid result \<times> 's) \<Rightarrow> pg_type list \<Rightarrow> type_registry \<times> 's \<Rightarrow>
     oid list result \<times> (type_registry \<times> 's)" where
  "resolve_type_oids resolve [] st = (Inr [], st)"
| "resolve_type_oids resolve (ty # tys) (reg, s) =
     (let cons = (\<lambda>o0 (r, st'). (bindr r (\<lambda>os. Inr (o0 # os)), st'))
      in if is_resolved ty then cons (ty_oid ty) (resolve_type_oids resolve tys (reg, s))
         else case registry_get reg ty of
           Some o0 \<Rightarrow> cons o0 (resolve_type_oids resolve tys (reg, s))
         | None \<Rightarrow>
             (case resolve ty s of
                (Inl e, s') \<Rightarrow> (Inl e, (reg, s'))
              | (Inr o0, s') \<Rightarrow>
                  cons o0 (resolve_type_oids resolve tys (registry_insert reg ty o0, s'))))"

definition validate_row_description :: "nat \<Rightarrow> row_field list \<Rightarrow> oid list \<Rightarrow> unit result" where
  "validate_row_description n_columns row_fields expected_oids =
     (if length row_fields \<noteq> n_columns
      then Inl (ColumnAlignment n_columns (length row_fields) None None)
      else if expected_oids = [] then Inr ()
      else case find (\<lambda>(position, expected, field). expected \<noteq> rf_type_oid field)
                  (enumerate 0 (zip expected_oids row_fields)) of
             None \<Rightarrow> Inr ()
           | Some (position, expected, field) \<Rightarrow>
               Inl (SchemaMismatch position expected (rf_type_oid field) (rf_name field) None None))"

section \<open>The contract of the cache\<close>

text \<open>
  What the session relies on: \<open>view\<close> gives for a key the statement and the number of live handles.
\<close>

locale handle_cache =
  fixes view :: "'c \<Rightarrow> 'k \<Rightarrow> ('s \<times> nat) option"
    and take_handle :: "'c \<Rightarrow> 'k \<Rightarrow> 's option \<times> 'c"
    and put :: "'c \<Rightarrow> 'k \<Rightarrow> 's \<Rightarrow> 'c"
    and drop_handle :: "'c \<Rightarrow> 'k \<Rightarrow> 's option \<times> 'c"
    and keeps :: "'c \<Rightarrow> bool"
  assumes take_result: "fst (take_handle c k) = map_option fst (view c k)"
    and take_view: "view (snd (take_handle c k)) k' =
      (if k' = k then map_option (\<lambda>(s, n). (s, Suc n)) (view c k) else view c k')"
    and put_view: "view (put c k s) k' = (if k' = k then Some (s, 1) else view c k')"
    and drop_none: "view c k = None \<Longrightarrow> drop_handle c k = (None, c)"
    and drop_result: "view c k = Some (s, n) \<Longrightarrow>
      fst (drop_handle c k) = (if n \<le> 1 \<and> \<not> keeps c then Some s else None)"
    and drop_view: "view c k = Some (s, n) \<Longrightarrow> view (snd (drop_handle c k)) k' =
      (if k' = k then (if n \<le> 1 \<and> \<not> keeps c then None else Some (s, n - 1)) else view c k')"
    and keeps_stable: "keeps (snd (take_handle c k)) = keeps c" "keeps (put c k s) = keeps c"
      "keeps (snd (drop_handle c k)) = keeps c"
begin

lemma takes_view:
  "view c k = Some (s, n) \<Longrightarrow>
   view (((\<lambda>c. snd (take_handle c k)) ^^ m) c) k = Some (s, n + m)
   \<and> keeps (((\<lambda>c. snd (take_handle c k)) ^^ m) c) = keeps c"
  by (induction m) (simp_all add: take_view keeps_stable)

lemma drops_view:
  "view c k = Some (s, n) \<Longrightarrow> m < n \<Longrightarrow>
   view (((\<lambda>c. snd (drop_handle c k)) ^^ m) c) k = Some (s, n - m)
   \<and> keeps (((\<lambda>c. snd (drop_handle c k)) ^^ m) c) = keeps c"
proof (induction m)
  case (Suc m)
  then have *: "view (((\<lambda>c. snd (drop_handle c k)) ^^ m) c) k = Some (s, n - m)"
    "keeps (((\<lambda>c. snd (drop_handle c k)) ^^ m) c) = keeps c" by simp_all
  from Suc.prems(2) have "\<not> n - m \<le> 1" by simp
  with drop_view [OF *(1), of k] show ?case
    by (simp add: keeps_stable *(2))
qed simp

text \<open>A statement put once and taken \<open>m\<close> times is given back by the last of \<open>m + 1\<close> drops only.\<close>

lemma last_drop_closes:
  assumes "j \<le> m"
  shows "fst (drop_handle (((\<lambda>c. snd (drop_handle c k)) ^^ j)
           (((\<lambda>c. snd (take_handle c k)) ^^ m) (put c k s))) k) =
         (if j = m \<and> \<not> keeps c then Some s else None)"
proof -
  let ?c = "((\<lambda>c. snd (take_handle c k)) ^^ m) (put c k s)"
  have *: "view ?c k = Some (s, Suc m)" "keeps ?c = keeps c"
    using takes_view [of "put c k s" k s 1 m] by (simp_all add: put_view keeps_stable)
  have "view (((\<lambda>c. snd (drop_handle c k)) ^^ j) ?c) k = Some (s, Suc m - j)"
    "keeps (((\<lambda>c. snd (drop_handle c k)) ^^ j) ?c) = keeps c"
    using drops_view [OF *(1), of j] assms * by simp_all
  from drop_result [OF this(1)] this(2) assms show ?thesis by auto
qed

end

definition cache_view :: "statement_cache \<Rightarrow> cache_key \<Rightarrow> (cached_statement \<times> nat) option" where
  "cache_view c k = map_option (\<lambda>e. (ce_stmt e, ce_handles e)) (sc_stmts c k)"

interpretation sc: handle_cache cache_view checkout cache_insert release_handle sc_retain
  by unfold_locales
    (auto simp: cache_view_def checkout_def cache_insert_def release_handle_def split: option.splits)

section \<open>Concurrent use\<close>

text \<open>
  The tasks of one session share the cache behind a mutex that is held for one operation at a time.
  A task that prepares a statement first looks the key up; on a miss it draws a name, sends \<open>Parse\<close>
  and, once the server has confirmed, inserts the entry. \<open>ss_attempts\<close> holds the tasks between these
  points, \<open>ss_handles\<close> the live handles as key and statement name, \<open>ss_closing\<close> the names for which
  \<open>CloseStatement\<close> is under way, and \<open>ss_open\<close> the statements the server knows.
\<close>

datatype attempt =
    Missed (att_key: cache_key)
  | Named (att_key: cache_key) str
  | Confirmed (att_key: cache_key) cached_statement

record session_state =
  ss_cache :: statement_cache
  ss_open :: "str set"
  ss_attempts :: "attempt list"
  ss_handles :: "(cache_key \<times> str) list"
  ss_closing :: "str list"

definition session_init :: "bool \<Rightarrow> session_state" where
  "session_init retain =
     \<lparr>ss_cache = cache_new retain, ss_open = {}, ss_attempts = [], ss_handles = [], ss_closing = []\<rparr>"

text \<open>
  One step of some task. With \<open>serial\<close> no task starts to prepare a key while another one is between
  its miss and its insertion; the code imposes no such order. A failed or cancelled attempt is given
  up; after a failed validation the new statement is closed again.
\<close>

inductive session_step :: "bool \<Rightarrow> session_state \<Rightarrow> session_state \<Rightarrow> bool" for serial :: bool where
  hit: "checkout (ss_cache s) k = (Some stmt, c') \<Longrightarrow>
    session_step serial s (s\<lparr>ss_cache := c', ss_handles := (k, cs_name stmt) # ss_handles s\<rparr>)"
| miss: "checkout (ss_cache s) k = (None, c') \<Longrightarrow>
    (serial \<Longrightarrow> k \<notin> att_key ` set (ss_attempts s)) \<Longrightarrow>
    session_step serial s (s\<lparr>ss_cache := c', ss_attempts := Missed k # ss_attempts s\<rparr>)"
| name: "Missed k \<in> set (ss_attempts s) \<Longrightarrow> next_name (ss_cache s) = (n, c') \<Longrightarrow>
    sc_counter (ss_cache s) < - 1 \<Longrightarrow>
    session_step serial s
      (s\<lparr>ss_cache := c', ss_attempts := Named k n # remove1 (Missed k) (ss_attempts s)\<rparr>)"
| confirm: "Named k n \<in> set (ss_attempts s) \<Longrightarrow> cs_name stmt = n \<Longrightarrow>
    session_step serial s
      (s\<lparr>ss_open := insert n (ss_open s),
         ss_attempts := Confirmed k stmt # remove1 (Named k n) (ss_attempts s)\<rparr>)"
| record_entry: "Confirmed k stmt \<in> set (ss_attempts s) \<Longrightarrow>
    session_step serial s
      (s\<lparr>ss_cache := cache_insert (ss_cache s) k stmt,
         ss_attempts := remove1 (Confirmed k stmt) (ss_attempts s),
         ss_handles := (k, cs_name stmt) # ss_handles s\<rparr>)"
| reject: "Confirmed k stmt \<in> set (ss_attempts s) \<Longrightarrow>
    session_step serial s
      (s\<lparr>ss_attempts := remove1 (Confirmed k stmt) (ss_attempts s),
         ss_closing := cs_name stmt # ss_closing s\<rparr>)"
| give_up: "a \<in> set (ss_attempts s) \<Longrightarrow>
    session_step serial s (s\<lparr>ss_attempts := remove1 a (ss_attempts s)\<rparr>)"
| release_last: "(k, n) \<in> set (ss_handles s) \<Longrightarrow> release_handle (ss_cache s) k = (Some stmt, c') \<Longrightarrow>
    session_step serial s
      (s\<lparr>ss_cache := c', ss_handles := remove1 (k, n) (ss_handles s), ss_closing := n # ss_closing s\<rparr>)"
| release: "(k, n) \<in> set (ss_handles s) \<Longrightarrow> release_handle (ss_cache s) k = (None, c') \<Longrightarrow>
    session_step serial s (s\<lparr>ss_cache := c', ss_handles := remove1 (k, n) (ss_handles s)\<rparr>)"
| close_statement: "n \<in> set (ss_closing s) \<Longrightarrow>
    session_step serial s
      (s\<lparr>ss_open := ss_open s - {n}, ss_closing := remove1 n (ss_closing s)\<rparr>)"

inductive session_reachable :: "bool \<Rightarrow> bool \<Rightarrow> session_state \<Rightarrow> bool" for serial retain where
  init: "session_reachable serial retain (session_init retain)"
| step: "session_reachable serial retain s \<Longrightarrow> session_step serial s s' \<Longrightarrow>
    session_reachable serial retain s'"

section \<open>Safety of the serial protocol\<close>

primrec att_name :: "attempt \<Rightarrow> str option" where
  "att_name (Missed k) = None"
| "att_name (Named k n) = Some n"
| "att_name (Confirmed k st) = Some (cs_name st)"

text \<open>Every statement name in use has one owner: an entry, an attempt or a pending close.\<close>

datatype owner = Entry cache_key | Attempt attempt | Closer

primrec owns :: "session_state \<Rightarrow> owner \<Rightarrow> str \<Rightarrow> bool" where
  "owns s (Entry k) n = (\<exists>st m. cache_view (ss_cache s) k = Some (st, m) \<and> cs_name st = n)"
| "owns s (Attempt a) n = (a \<in> set (ss_attempts s) \<and> att_name a = Some n)"
| "owns s Closer n = (n \<in> set (ss_closing s))"

definition live :: "session_state \<Rightarrow> cache_key \<Rightarrow> nat" where
  "live s k = count_list (map fst (ss_handles s)) k"

definition names_inv :: "session_state \<Rightarrow> bool" where
  "names_inv s =
     ((\<forall>o1 o2 n. owns s o1 n \<and> owns s o2 n \<longrightarrow> o1 = o2)
      \<and> (\<forall>o1 n. owns s o1 n \<longrightarrow> (\<exists>i \<le> sc_counter (ss_cache s). n = babar_name i)))"

definition handles_inv :: "session_state \<Rightarrow> bool" where
  "handles_inv s =
     ((\<forall>(k, n) \<in> set (ss_handles s). owns s (Entry k) n)
      \<and> (\<forall>k st m. cache_view (ss_cache s) k = Some (st, m) \<longrightarrow>
           m = live s k \<and> cs_name st \<in> ss_open s \<and> (m = 0 \<longrightarrow> sc_retain (ss_cache s))))"

definition attempts_inv :: "session_state \<Rightarrow> bool" where
  "attempts_inv s =
     (distinct (map att_key (ss_attempts s))
      \<and> (\<forall>a \<in> set (ss_attempts s). cache_view (ss_cache s) (att_key a) = None)
      \<and> (\<forall>k st. Confirmed k st \<in> set (ss_attempts s) \<longrightarrow> cs_name st \<in> ss_open s))"

definition session_inv :: "session_state \<Rightarrow> bool" where
  "session_inv s = (names_inv s \<and> handles_inv s \<and> attempts_inv s)"

lemma babar_name_inj [simp]: "babar_name i = babar_name j \<longleftrightarrow> i = j"
proof
  assume "babar_name i = babar_name j"
  then have "parse_u64 (show_nat (unat i)) = parse_u64 (show_nat (unat j))"
    by (simp add: babar_name_def)
  then show "i = j" by simp
qed simp

lemma checkout_SomeD:
  assumes "checkout c k = (Some stmt, c')"
  obtains m where "cache_view c k = Some (stmt, m)" and "cache_view c' = (cache_view c)(k \<mapsto> (stmt, Suc m))"
    and "sc_counter c' = sc_counter c" and "sc_retain c' = sc_retain c"
  using assms by (force simp: checkout_def cache_view_def split: option.splits)

lemma checkout_NoneD: "checkout c k = (None, c') \<Longrightarrow> c' = c \<and> cache_view c k = None"
  by (auto simp: checkout_def cache_view_def split: option.splits)

lemma release_SomeD:
  assumes "release_handle c k = (Some stmt, c')"
  obtains m where "cache_view c k = Some (stmt, m)" and "m \<le> 1" and "\<not> sc_retain c"
    and "cache_view c' = (cache_view c)(k := None)"
    and "sc_counter c' = sc_counter c" and "sc_retain c' = sc_retain c"
  using assms
  by (force simp: release_handle_def cache_view_def split: option.splits if_splits)

lemma release_NoneD:
  assumes "release_handle c k = (None, c')" and "cache_view c k = Some (stmt, m)"
  shows "cache_view c' = (cache_view c)(k \<mapsto> (stmt, m - 1))" "m > 1 \<or> sc_retain c"
    "sc_counter c' = sc_counter c" "sc_retain c' = sc_retain c"
  using assms
  by (force simp: release_handle_def cache_view_def split: option.splits if_splits)+

lemma insert_view:
  "cache_view (cache_insert c k stmt) = (cache_view c)(k \<mapsto> (stmt, 1))"
  "sc_counter (cache_insert c k stmt) = sc_counter c" "sc_retain (cache_insert c k stmt) = sc_retain c"
  by (auto simp: cache_insert_def cache_view_def)

lemma next_nameD:
  assumes "next_name c = (n, c')"
  shows "n = babar_name (sc_counter c + 1)" "cache_view c' = cache_view c"
    "sc_counter c' = sc_counter c + 1" "sc_retain c' = sc_retain c"
  using assms by (auto simp: next_name_def cache_view_def)

lemma distinct_keys_remove1:
  assumes "distinct (map att_key as)"
  shows "distinct (map att_key (remove1 a as))" "set (remove1 a as) = set as - {a}"
    "a \<in> set as \<Longrightarrow> att_key a \<notin> att_key ` set (remove1 a as)"
proof -
  have d: "distinct as" using assms by (simp add: distinct_map)
  show "set (remove1 a as) = set as - {a}" using d by simp
  show "distinct (map att_key (remove1 a as))" using assms by (simp add: distinct_map inj_on_diff d)
  show "a \<in> set as \<Longrightarrow> att_key a \<notin> att_key ` set (remove1 a as)"
    using assms d by (auto simp: distinct_map inj_on_def)
qed

lemma attempts_step:
  assumes "session_inv s" and "session_step True s s'"
  shows "attempts_inv s'"
proof -
  from assms(1) have d: "distinct (map att_key (ss_attempts s))"
    and none: "\<And>a. a \<in> set (ss_attempts s) \<Longrightarrow> cache_view (ss_cache s) (att_key a) = None"
    and opn: "\<And>k st. Confirmed k st \<in> set (ss_attempts s) \<Longrightarrow> cs_name st \<in> ss_open s"
    by (auto simp: session_inv_def attempts_inv_def)
  note rem = distinct_keys_remove1 [OF d]
  from assms(2) show ?thesis
  proof cases
    case (hit k stmt c')
    then show ?thesis using d none opn
      by (auto simp: attempts_inv_def elim!: checkout_SomeD)
  next
    case (miss k c')
    then show ?thesis using d none opn by (auto simp: attempts_inv_def dest: checkout_NoneD)
  next
    case (name k n c')
    from rem(1) rem(3) [OF name(2)] next_nameD [OF name(3)] none [OF name(2)] none opn show ?thesis
      by (auto simp: name(1) attempts_inv_def rem(2))
  next
    case (confirm k n stmt)
    from rem(1) rem(3) [OF confirm(2)] none [OF confirm(2)] none opn show ?thesis
      by (auto simp: confirm attempts_inv_def rem(2))
  next
    case (record_entry k stmt)
    from rem(1) rem(3) [OF record_entry(2)] none opn show ?thesis
      by (auto simp: record_entry(1) attempts_inv_def insert_view rem(2))
  next
    case (release_last k n stmt c')
    then show ?thesis using d none opn by (auto simp: attempts_inv_def elim!: release_SomeD)
  next
    case (release k n c')
    from assms(1) release(2) obtain st m where v: "cache_view (ss_cache s) k = Some (st, m)"
      by (auto simp: session_inv_def handles_inv_def)
    then have "k \<noteq> att_key a" if "a \<in> set (ss_attempts s)" for a using none that by auto
    then show ?thesis using d none opn release_NoneD [OF release(3) v]
      by (auto simp: release(1) attempts_inv_def)
  next
    case (close_statement n)
    have "Attempt (Confirmed k st) = Closer" if "Confirmed k st \<in> set (ss_attempts s)" "cs_name st = n" for k st
      using assms(1) close_statement(2) that unfolding session_inv_def names_inv_def
      by (metis owns.simps(2,3) att_name.simps(3))
    then show ?thesis using d none opn by (auto simp: close_statement(1) attempts_inv_def)
  qed (use d none opn in \<open>auto simp: attempts_inv_def rem\<close>)
qed

lemma count_remove1_fst:
  "(k, n) \<in> set hs \<Longrightarrow> count_list (map fst (remove1 (k, n) hs)) k' =
     (if k = k' then count_list (map fst hs) k' - 1 else count_list (map fst hs) k')
   \<and> (k = k' \<longrightarrow> 0 < count_list (map fst hs) k')"
  by (induction hs) (auto simp: count_list_0_iff neq_Nil_conv)

lemma count_zero_notin: "count_list (map fst hs) k = 0 \<longleftrightarrow> (\<forall>n. (k, n) \<notin> set hs)"
  by (force simp: count_list_0_iff)

lemma handles_invI:
  assumes "\<And>k n. (k, n) \<in> set (ss_handles s) \<Longrightarrow> \<exists>st m. cache_view (ss_cache s) k = Some (st, m) \<and> cs_name st = n"
    and "\<And>k st m. cache_view (ss_cache s) k = Some (st, m) \<Longrightarrow>
      m = count_list (map fst (ss_handles s)) k \<and> cs_name st \<in> ss_open s
      \<and> (m = 0 \<longrightarrow> sc_retain (ss_cache s))"
  shows "handles_inv s"
  using assms by (auto simp: handles_inv_def live_def)

lemma handles_step:
  assumes "session_inv s" and "session_step True s s'"
  shows "handles_inv s'"
proof -
  from assms(1) have own: "\<And>k n. (k, n) \<in> set (ss_handles s) \<Longrightarrow>
      \<exists>st m. cache_view (ss_cache s) k = Some (st, m) \<and> cs_name st = n"
    and ent: "\<And>k st m. cache_view (ss_cache s) k = Some (st, m) \<Longrightarrow>
      m = count_list (map fst (ss_handles s)) k \<and> cs_name st \<in> ss_open s
      \<and> (m = 0 \<longrightarrow> sc_retain (ss_cache s))"
    by (auto simp: session_inv_def handles_inv_def live_def)
  from assms(1) have att: "\<And>a. a \<in> set (ss_attempts s) \<Longrightarrow> cache_view (ss_cache s) (att_key a) = None"
    and opn: "\<And>k st. Confirmed k st \<in> set (ss_attempts s) \<Longrightarrow> cs_name st \<in> ss_open s"
    and uniq: "\<And>o1 o2 n. owns s o1 n \<Longrightarrow> owns s o2 n \<Longrightarrow> o1 = o2"
    by (auto simp: session_inv_def attempts_inv_def names_inv_def)
  have same: "handles_inv s'" if "cache_view (ss_cache s') = cache_view (ss_cache s)"
    "sc_retain (ss_cache s') = sc_retain (ss_cache s)" "ss_handles s' = ss_handles s"
    "ss_open s \<subseteq> ss_open s'"
  proof (rule handles_invI, goal_cases)
    case (2 k st m)
    then show ?case using that ent [of k st m] by auto
  qed (use that own in simp)
  from assms(2) show ?thesis
  proof cases
    case (hit k stmt c')
    from hit(2) obtain m where c': "cache_view (ss_cache s) k = Some (stmt, m)"
      "cache_view c' = (cache_view (ss_cache s))(k \<mapsto> (stmt, Suc m))" "sc_retain c' = sc_retain (ss_cache s)"
      by (rule checkout_SomeD)
    show ?thesis unfolding hit(1)
    proof (rule handles_invI, goal_cases)
      case (1 k' n')
      then show ?case using own [of k' n'] ent [OF c'(1)] c' by (auto dest: notin_set_remove1)
    next
      case (2 k' st' m')
      then show ?case using ent [of k' st' m'] ent [OF c'(1)] c' by (auto split: if_splits)
    qed
  next
    case (miss k c')
    with checkout_NoneD [OF miss(2)] show ?thesis by (intro same) auto
  next
    case (name k n c')
    with next_nameD [OF name(3)] show ?thesis by (intro same) auto
  next
    case (record_entry k stmt)
    from att [OF record_entry(2)] have none: "cache_view (ss_cache s) k = None" by simp
    have "(k, n) \<notin> set (ss_handles s)" for n using own [of k n] none by auto
    then have zero: "count_list (map fst (ss_handles s)) k = 0" by (simp add: count_zero_notin)
    show ?thesis unfolding record_entry(1)
    proof (rule handles_invI, goal_cases)
      case (1 k' n')
      then show ?case using own [of k' n'] none zero opn [OF record_entry(2)] by (auto simp: insert_view dest: notin_set_remove1)
    next
      case (2 k' st' m')
      then show ?case using ent [of k' st' m'] none zero opn [OF record_entry(2)] by (auto simp: insert_view split: if_splits)
    qed
  next
    case (release_last k n stmt c')
    from release_last(3) obtain m where c': "cache_view (ss_cache s) k = Some (stmt, m)" "m \<le> 1"
      "cache_view c' = (cache_view (ss_cache s))(k := None)" "sc_retain c' = sc_retain (ss_cache s)"
      by (rule release_SomeD)
    note cnt = count_remove1_fst [OF release_last(2)]
    from ent [OF c'(1)] c'(2) have "count_list (map fst (remove1 (k, n) (ss_handles s))) k = 0"
      using cnt [of k] by simp
    then have gone: "(k, n') \<notin> set (remove1 (k, n) (ss_handles s))" for n' by (simp add: count_zero_notin)
    show ?thesis unfolding release_last(1)
    proof (rule handles_invI, goal_cases)
      case (1 k' n')
      then show ?case using own [of k' n'] c' cnt [of k'] gone by (auto dest: notin_set_remove1)
    next
      case (2 k' st' m')
      then show ?case using ent [of k' st' m'] c' cnt [of k'] gone by (auto split: if_splits)
    qed
  next
    case (release k n c')
    from own [OF release(2)] obtain st m where v: "cache_view (ss_cache s) k = Some (st, m)" "cs_name st = n"
      by auto
    note c' = release_NoneD [OF release(3) v(1)] and cnt = count_remove1_fst [OF release(2)]
    show ?thesis unfolding release(1)
    proof (rule handles_invI, goal_cases)
      case (1 k' n')
      then have "(k', n') \<in> set (ss_handles s)" using set_remove1_subset by fastforce
      from own [OF this] show ?case using c' v by auto
    next
      case (2 k' st' m')
      then show ?case using ent [OF v(1)] ent c' cnt [of k'] by (auto split: if_splits)
    qed
  next
    case (close_statement n)
    have "cs_name st \<noteq> n" if "cache_view (ss_cache s) k = Some (st, m)" for k st m
      using uniq [of "Entry k" n Closer] that close_statement(2) by auto
    then show ?thesis unfolding close_statement(1)
      by (intro handles_invI) (use own ent in simp_all)
  qed (rule same; auto)+
qed

lemma word_le_less_Suc:
  assumes "c < - 1" and "i \<le> c"
  shows "i < c + (1 :: 'a::len word)"
proof -
  from assms(1) have "c + 1 \<noteq> 0" by (metis add_eq_0_iff2 less_irrefl)
  then have "unat (c + 1) = Suc (unat c)" by (metis add.commute unatSuc)
  with assms(2) show ?thesis by (simp add: word_less_nat_alt word_le_nat_alt)
qed

lemma names_step:
  assumes "session_inv s" and "session_step True s s'"
  shows "names_inv s'"
proof -
  from assms(1) have uniq: "\<And>o1 o2 n. owns s o1 n \<Longrightarrow> owns s o2 n \<Longrightarrow> o1 = o2"
    and drawn: "\<And>o1 n. owns s o1 n \<Longrightarrow> \<exists>i \<le> sc_counter (ss_cache s). n = babar_name i"
    and d: "distinct (map att_key (ss_attempts s))"
    by (auto simp: session_inv_def attempts_inv_def names_inv_def)
  note rem = distinct_keys_remove1(2) [OF d]
  text \<open>Most steps only move a name from one owner to another.\<close>
  have moved: "names_inv s'" if f: "\<And>o1 n. owns s' o1 n \<Longrightarrow> owns s (f n o1) n"
    and "sc_counter (ss_cache s') = sc_counter (ss_cache s)"
    and inj: "\<And>o1 o2 n. owns s' o1 n \<Longrightarrow> owns s' o2 n \<Longrightarrow> f n o1 = f n o2 \<Longrightarrow> o1 = o2" for f
    unfolding names_inv_def using f inj uniq drawn that(2) by (metis (no_types))
  have kept: "names_inv s'" if "\<And>o1 n. owns s' o1 n \<Longrightarrow> owns s o1 n"
    and "sc_counter (ss_cache s') = sc_counter (ss_cache s)"
    by (rule moved [of "\<lambda>n o1. o1"]) (use that in auto)
  from assms(2) show ?thesis
  proof cases
    case (hit k stmt c')
    from hit(2) obtain m where "cache_view (ss_cache s) k = Some (stmt, m)"
      "cache_view c' = (cache_view (ss_cache s))(k \<mapsto> (stmt, Suc m))" "sc_counter c' = sc_counter (ss_cache s)"
      by (rule checkout_SomeD)
    then have "sc_counter (ss_cache s') = sc_counter (ss_cache s)"
      and "owns s' o1 n \<Longrightarrow> owns s o1 n" for o1 n
      unfolding hit(1) by (simp, cases o1) (auto split: if_splits)
    then show ?thesis by (intro kept)
  next
    case (miss k c')
    have c': "c' = ss_cache s" using checkout_NoneD [OF miss(2)] by simp
    have "owns s' o1 n \<Longrightarrow> owns s o1 n" for o1 n
      unfolding miss(1) c' by (cases o1) auto
    then show ?thesis by (rule kept) (simp_all add: miss(1) c')
  next
    case (name k n c')
    note c' = next_nameD [OF name(3)]
    have lt: "i \<le> sc_counter (ss_cache s) \<Longrightarrow> i < sc_counter (ss_cache s) + 1" for i
      using name(4) by (rule word_le_less_Suc)
    have own: "owns s' o1 n' \<Longrightarrow> o1 = Attempt (Named k n) \<and> n' = n \<or> owns s o1 n'" for o1 n'
      unfolding name(1) using c'(2) rem by (cases o1) auto
    have fresh: "\<not> owns s o1 n" for o1
    proof
      assume "owns s o1 n"
      from drawn [OF this] obtain i where "i \<le> sc_counter (ss_cache s)" "n = babar_name i" by blast
      with lt [of i] c'(1) show False by simp
    qed
    have "o1 = o2" if "owns s' o1 n'" "owns s' o2 n'" for o1 o2 n'
      using own [OF that(1)] own [OF that(2)] fresh uniq by blast
    moreover have "\<exists>i \<le> sc_counter (ss_cache s'). n' = babar_name i" if "owns s' o1 n'" for o1 n'
      using own [OF that] drawn [of o1 n'] lt c' by (auto simp: name(1) intro: less_imp_le)
    ultimately show ?thesis by (auto simp: names_inv_def)
  next
    case (confirm k n stmt)
    let ?f = "\<lambda>_ o1. if o1 = Attempt (Confirmed k stmt) then Attempt (Named k n) else o1"
    have gone: "\<not> owns s' (Attempt (Named k n)) m" for m by (auto simp: confirm(1) rem)
    have "owns s (?f m o1) m" if "owns s' o1 m" for o1 m
      using that confirm(2,3) by (cases o1) (auto simp: confirm(1) rem)
    moreover have "sc_counter (ss_cache s') = sc_counter (ss_cache s)"
      by (simp add: confirm(1))
    moreover have "o1 = o2" if "owns s' o1 m" "owns s' o2 m" "?f m o1 = ?f m o2" for o1 o2 m
      using that gone by (auto simp del: owns.simps split: if_splits)
    ultimately show ?thesis by (rule moved [of ?f])
  next
    case (record_entry k stmt)
    let ?f = "\<lambda>_ o1. if o1 = Entry k then Attempt (Confirmed k stmt) else o1"
    have gone: "\<not> owns s' (Attempt (Confirmed k stmt)) m" for m by (auto simp: record_entry(1) rem)
    have "owns s (?f m o1) m" if "owns s' o1 m" for o1 m
      using that record_entry(2) by (cases o1) (auto simp: record_entry(1) rem insert_view split: if_splits)
    moreover have "sc_counter (ss_cache s') = sc_counter (ss_cache s)"
      by (simp add: record_entry(1) insert_view)
    moreover have "o1 = o2" if "owns s' o1 m" "owns s' o2 m" "?f m o1 = ?f m o2" for o1 o2 m
      using that gone by (auto simp del: owns.simps split: if_splits)
    ultimately show ?thesis by (rule moved [of ?f])
  next
    case (reject k stmt)
    let ?f = "\<lambda>m o1. if o1 = Closer \<and> m = cs_name stmt then Attempt (Confirmed k stmt) else o1"
    have gone: "\<not> owns s' (Attempt (Confirmed k stmt)) m" for m by (auto simp: reject(1) rem)
    have "owns s (?f m o1) m" if "owns s' o1 m" for o1 m
      using that reject(2) by (cases o1) (auto simp: reject(1) rem)
    moreover have "sc_counter (ss_cache s') = sc_counter (ss_cache s)"
      by (simp add: reject(1))
    moreover have "o1 = o2" if "owns s' o1 m" "owns s' o2 m" "?f m o1 = ?f m o2" for o1 o2 m
      using that gone by (auto simp del: owns.simps split: if_splits)
    ultimately show ?thesis by (rule moved [of ?f])
  next
    case (give_up a)
    have "owns s' o1 n \<Longrightarrow> owns s o1 n" for o1 n
      unfolding give_up(1) using rem by (cases o1) auto
    then show ?thesis by (rule kept) (simp_all add: give_up(1))
  next
    case (release_last k n stmt c')
    from release_last(3) obtain m0 where c': "cache_view (ss_cache s) k = Some (stmt, m0)"
      "cache_view c' = (cache_view (ss_cache s))(k := None)" "sc_counter c' = sc_counter (ss_cache s)"
      by (rule release_SomeD)
    have n: "owns s (Entry k) n"
      using assms(1) release_last(2) by (auto simp: session_inv_def handles_inv_def)
    let ?f = "\<lambda>m o1. if o1 = Closer \<and> m = n then Entry k else o1"
    have gone: "\<not> owns s' (Entry k) m" for m by (simp add: release_last(1) c')
    have "owns s (?f m o1) m" if "owns s' o1 m" for o1 m
      using that n c' by (cases o1) (auto simp: release_last(1) split: if_splits)
    moreover have "sc_counter (ss_cache s') = sc_counter (ss_cache s)"
      by (simp add: release_last(1) c')
    moreover have "o1 = o2" if "owns s' o1 m" "owns s' o2 m" "?f m o1 = ?f m o2" for o1 o2 m
      using that gone by (auto simp del: owns.simps split: if_splits)
    ultimately show ?thesis by (rule moved [of ?f])
  next
    case (release k n c')
    from assms(1) release(2) obtain st m where v: "cache_view (ss_cache s) k = Some (st, m)"
      by (auto simp: session_inv_def handles_inv_def)
    note c' = release_NoneD [OF release(3) v]
    have "owns s' o1 n \<Longrightarrow> owns s o1 n" for o1 n
      using c' v by (cases o1) (auto simp: release(1) split: if_splits)
    then show ?thesis by (rule kept) (simp_all add: release(1) c')
  next
    case (close_statement n)
    have "owns s' o1 n \<Longrightarrow> owns s o1 n" for o1 n
      unfolding close_statement(1) using set_remove1_subset [of _ "ss_closing s"] by (cases o1) auto
    then show ?thesis by (rule kept) (simp_all add: close_statement(1))
  qed
qed

lemma session_inv_init: "session_inv (session_init retain)"
  unfolding session_inv_def
proof (intro conjI)
  have "\<not> owns (session_init retain) o1 n" for o1 n
    by (cases o1) (simp_all add: session_init_def cache_new_def cache_view_def)
  then show "names_inv (session_init retain)" by (simp add: names_inv_def)
qed (simp_all add: handles_inv_def attempts_inv_def session_init_def cache_new_def cache_view_def)

lemma serial_inv: "session_reachable True retain s \<Longrightarrow> session_inv s"
proof (induction rule: session_reachable.induct)
  case (step s s')
  then show ?case
    unfolding session_inv_def [of s'] by (blast intro: names_step handles_step attempts_step)
qed (rule session_inv_init)

text \<open>The steps as a function of an explicit schedule, for evaluation.\<close>

datatype task_act =
    Prepare_Start cache_key
  | Draw_Name cache_key
  | Server_Confirms cache_key cached_statement
  | Insert_Entry cache_key cached_statement
  | Release cache_key str
  | Server_Closes str

fun run_act :: "task_act \<Rightarrow> session_state \<Rightarrow> session_state option" where
  "run_act (Prepare_Start k) s =
     (case checkout (ss_cache s) k of
        (Some stmt, c') \<Rightarrow> Some (s\<lparr>ss_cache := c', ss_handles := (k, cs_name stmt) # ss_handles s\<rparr>)
      | (None, c') \<Rightarrow> Some (s\<lparr>ss_cache := c', ss_attempts := Missed k # ss_attempts s\<rparr>))"
| "run_act (Draw_Name k) s =
     (if Missed k \<in> set (ss_attempts s) \<and> sc_counter (ss_cache s) < - 1
      then Some (s\<lparr>ss_cache := snd (next_name (ss_cache s)),
                  ss_attempts := Named k (fst (next_name (ss_cache s))) # remove1 (Missed k) (ss_attempts s)\<rparr>)
      else None)"
| "run_act (Server_Confirms k stmt) s =
     (if Named k (cs_name stmt) \<in> set (ss_attempts s)
      then Some (s\<lparr>ss_open := insert (cs_name stmt) (ss_open s),
                  ss_attempts := Confirmed k stmt # remove1 (Named k (cs_name stmt)) (ss_attempts s)\<rparr>)
      else None)"
| "run_act (Insert_Entry k stmt) s =
     (if Confirmed k stmt \<in> set (ss_attempts s)
      then Some (s\<lparr>ss_cache := cache_insert (ss_cache s) k stmt,
                  ss_attempts := remove1 (Confirmed k stmt) (ss_attempts s),
                  ss_handles := (k, cs_name stmt) # ss_handles s\<rparr>)
      else None)"
| "run_act (Release k n) s =
     (if (k, n) \<in> set (ss_handles s)
      then (case release_handle (ss_cache s) k of
              (Some stmt, c') \<Rightarrow> Some (s\<lparr>ss_cache := c', ss_handles := remove1 (k, n) (ss_handles s),
                                         ss_closing := n # ss_closing s\<rparr>)
            | (None, c') \<Rightarrow> Some (s\<lparr>ss_cache := c', ss_handles := remove1 (k, n) (ss_handles s)\<rparr>))
      else None)"
| "run_act (Server_Closes n) s =
     (if n \<in> set (ss_closing s)
      then Some (s\<lparr>ss_open := ss_open s - {n}, ss_closing := remove1 n (ss_closing s)\<rparr>) else None)"

fun run_acts :: "task_act list \<Rightarrow> session_state \<Rightarrow> session_state option" where
  "run_acts [] s = Some s"
| "run_acts (a # as) s = Option.bind (run_act a s) (run_acts as)"

lemma run_act_step: "run_act a s = Some s' \<Longrightarrow> session_step False s s'"
  by (cases a) (auto intro: session_step.intros split: option.splits prod.splits if_splits)

lemma run_acts_reachable:
  "session_reachable False retain s \<Longrightarrow> run_acts as s = Some s' \<Longrightarrow> session_reachable False retain s'"
proof (induction as arbitrary: s)
  case (Cons a as)
  from Cons.prems(2) obtain s1 where "run_act a s = Some s1" "run_acts as s1 = Some s'"
    by (auto simp: bind_eq_Some_conv)
  with Cons.IH Cons.prems(1) session_reachable.step run_act_step show ?case by blast
qed simp

section \<open>Claims\<close>

text \<open>
  The cache counts handles: a statement inserted once and checked out \<open>m\<close> more times is handed
  back for closing by the last of the \<open>m + 1\<close> releases and by no earlier one, and never when the
  cache retains statements.
\<close>

lemma cache_closes_with_last_handle:
  assumes "j \<le> m"
  shows "fst (release_handle (((\<lambda>c. snd (release_handle c k)) ^^ j)
           (((\<lambda>c. snd (checkout c k)) ^^ m) (cache_insert c k stmt))) k) =
         (if j = m \<and> \<not> sc_retain c then Some stmt else None)"
  using assms by (rule sc.last_drop_closes)

lemma cache_closes_with_last_handle_witness:
  "fst (release_handle (((\<lambda>c. snd (release_handle c (CacheKey 7 []))) ^^ 1)
     (((\<lambda>c. snd (checkout c (CacheKey 7 []))) ^^ 1)
       (cache_insert (cache_new False) (CacheKey 7 []) \<lparr>cs_name = ''a'', cs_param_oids = [], cs_row_fields = []\<rparr>)))
     (CacheKey 7 [])) = Some \<lparr>cs_name = ''a'', cs_param_oids = [], cs_row_fields = []\<rparr>"
  by (subst cache_closes_with_last_handle) (simp_all add: cache_new_def)

text \<open>
  C14. When no two tasks prepare the same key at once, every live handle refers to the statement the
  cache holds for its key, the server knows that statement, no close of it is under way, and the
  entry counts exactly the live handles.
\<close>

theorem serial_handles_open:
  assumes "session_reachable True retain s" and "(k, n) \<in> set (ss_handles s)"
  shows "n \<in> ss_open s \<and> n \<notin> set (ss_closing s) \<and>
    (\<exists>e. sc_stmts (ss_cache s) k = Some e \<and> cs_name (ce_stmt e) = n
       \<and> ce_handles e = count_list (map fst (ss_handles s)) k)"
proof -
  from serial_inv [OF assms(1)] have uniq: "\<And>o1 o2. owns s o1 n \<Longrightarrow> owns s o2 n \<Longrightarrow> o1 = o2"
    and h: "handles_inv s" by (auto simp: session_inv_def names_inv_def)
  from h assms(2) have own: "owns s (Entry k) n" by (auto simp: handles_inv_def)
  with uniq [of "Entry k" Closer] have "n \<notin> set (ss_closing s)" by auto
  moreover from own obtain st m where v: "cache_view (ss_cache s) k = Some (st, m)" "cs_name st = n"
    by auto
  moreover from h v(1) have "m = live s k \<and> cs_name st \<in> ss_open s" by (simp add: handles_inv_def)
  ultimately show ?thesis by (auto simp: cache_view_def live_def)
qed

definition demo_key :: cache_key where
  "demo_key = CacheKey 7 []"

definition demo_stmt :: "u64 \<Rightarrow> cached_statement" where
  "demo_stmt i = \<lparr>cs_name = babar_name i, cs_param_oids = [], cs_row_fields = []\<rparr>"

lemma counter_below_max: "(0 :: u64) < - 1" "(1 :: u64) < - 1"
  by code_simp+

lemmas demo_simps = counter_below_max session_init_def cache_new_def checkout_def cache_insert_def release_handle_def
  next_name_def demo_stmt_def

theorem serial_handles_open_witness:
  "\<exists>s. session_reachable True False s \<and> (demo_key, babar_name 1) \<in> set (ss_handles s)
     \<and> babar_name 1 \<in> ss_open s \<and> babar_name 1 \<notin> set (ss_closing s)"
proof -
  note reach = session_reachable.step [where serial = True and retain = False]
  have "session_reachable True False (session_init False)" by (rule session_reachable.init)
  note r1 = reach [OF this session_step.miss [of _ demo_key "cache_new False"]]
  note r2 = reach [OF r1 session_step.name [of demo_key]]
  note r3 = reach [OF r2 session_step.confirm [of demo_key "babar_name 1" _ "demo_stmt 1"]]
  note r4 = reach [OF r3 session_step.record_entry [of demo_key "demo_stmt 1"]]
  obtain s where "session_reachable True False s" "(demo_key, babar_name 1) \<in> set (ss_handles s)"
    by (rule that [OF r4]) (simp_all add: demo_simps)
  with serial_handles_open [OF this] show ?thesis by blast
qed

text \<open>
  Without that restriction, which the code does not enforce, a handle can be left dangling: two
  tasks prepare the same SQL at the same time, the second insertion replaces the first entry and its
  count, and the statement is closed while a third task still holds a handle to it.
\<close>

theorem concurrent_prepare_dangles:
  "\<exists>s k n. session_reachable False False s \<and> (k, n) \<in> set (ss_handles s) \<and> n \<notin> ss_open s
     \<and> sc_stmts (ss_cache s) k = None"
proof -
  let ?acts = "[Prepare_Start demo_key, Prepare_Start demo_key, Draw_Name demo_key, Draw_Name demo_key,
    Server_Confirms demo_key (demo_stmt 1), Server_Confirms demo_key (demo_stmt 2),
    Insert_Entry demo_key (demo_stmt 1), Insert_Entry demo_key (demo_stmt 2),
    Prepare_Start demo_key, Release demo_key (babar_name 1), Release demo_key (babar_name 2),
    Server_Closes (babar_name 2)]"
  obtain s where s: "run_acts ?acts (session_init False) = Some s"
    "(demo_key, babar_name 2) \<in> set (ss_handles s)" "babar_name 2 \<notin> ss_open s"
    "sc_stmts (ss_cache s) demo_key = None"
    by (simp add: demo_simps)
  with run_acts_reachable [OF session_reachable.init s(1)] show ?thesis by blast
qed

end
