(* ===== verification/Session.thy ===== *)
theory Session
  imports Copy_In Driver Statement_Cache "HOL-Library.Sublist"
begin

text \<open>
  The session's operations (\<open>session/mod.rs\<close>), prepared statements (\<open>session/prepared.rs\<close>), row streams
  (\<open>session/stream.rs\<close>) and COPY (\<open>copy.rs\<close>) as sequences of calls to the driver task. A call sends a
  command and waits for its reply; \<open>link\<close> has one field for each kind of command, and \<^const>\<open>None\<close> is
  the closed channel. What the driver does with the command is the subject of theory \<open>Driver\<close>.
\<close>

section \<open>Calls\<close>

record 's link =
  lk_simple :: "str \<Rightarrow> 's \<Rightarrow> raw_rows list result option \<times> 's"
  lk_extended :: "str \<Rightarrow> params \<Rightarrow> formats \<Rightarrow> formats \<Rightarrow> nat option \<Rightarrow> 's \<Rightarrow> extended_outcome result option \<times> 's"
  lk_copy_in :: "str \<Rightarrow> bytes list \<Rightarrow> 's \<Rightarrow> str result option \<times> 's"
  lk_prepare :: "str \<Rightarrow> str \<Rightarrow> oid list \<Rightarrow> 's \<Rightarrow> prepare_outcome result option \<times> 's"
  lk_execute_prepared ::
    "str \<Rightarrow> params \<Rightarrow> formats \<Rightarrow> formats \<Rightarrow> nat option \<Rightarrow> 's \<Rightarrow> extended_outcome result option \<times> 's"
  lk_bind_portal :: "str \<Rightarrow> str \<Rightarrow> params \<Rightarrow> formats \<Rightarrow> formats \<Rightarrow> 's \<Rightarrow> unit result option \<times> 's"
  lk_execute_portal :: "str \<Rightarrow> i32 \<Rightarrow> 's \<Rightarrow> portal_batch result option \<times> 's"
  lk_close_portal :: "str \<Rightarrow> 's \<Rightarrow> unit result option \<times> 's"
  lk_close_statement :: "str \<Rightarrow> 's \<Rightarrow> unit result option \<times> 's"

text \<open>
  The session: its cache and type registry, the process-wide counter of stream names, and the state
  behind the link.
\<close>

record 's session =
  se_cache :: statement_cache
  se_registry :: type_registry
  se_stream_counter :: u64
  se_link :: 's

type_synonym ('s, 'a) act = "'s session \<Rightarrow> 'a result \<times> 's session"

definition reply_result :: "(error \<Rightarrow> error) \<Rightarrow> 'a result option \<Rightarrow> 'a result" where
  "reply_result context r = (case r of None \<Rightarrow> Inl (context closed) | Some r' \<Rightarrow> map_err context r')"

definition call :: "(error \<Rightarrow> error) \<Rightarrow> ('s \<Rightarrow> 'a result option \<times> 's) \<Rightarrow> ('s, 'a) act" where
  "call context f st =
     (let (r, s') = f (se_link st) in (reply_result context r, st\<lparr>se_link := s'\<rparr>))"

abbreviation in_sql :: "str \<Rightarrow> origin option \<Rightarrow> error \<Rightarrow> error" where
  "in_sql sql orig e \<equiv> with_sql e sql orig"

section \<open>Affected rows\<close>

definition parse_affected_rows :: "str option \<Rightarrow> u64" where
  "parse_affected_rows tag =
     (case tag of
        None \<Rightarrow> 0
      | Some t \<Rightarrow>
          (case rev (split_whitespace t) of
             [] \<Rightarrow> 0
           | w # _ \<Rightarrow> (case parse_u64 w of Inl _ \<Rightarrow> 0 | Inr n \<Rightarrow> n)))"

lemma parse_affected_rows_count:
  "parse_affected_rows (Some (verb @ '' '' @ show_nat (unat n))) = n"
proof -
  obtain ws where "split_whitespace (verb @ space_char # show_nat (unat n)) = ws @ [show_nat (unat n)]"
    using last_word_after_sp [OF show_nat_nonempty show_nat_not_ws] by blast
  moreover have "'' '' = [space_char]" by code_simp
  ultimately show ?thesis by (simp add: parse_affected_rows_def)
qed

section \<open>Running statements\<close>

definition session_simple_query_raw :: "'s link \<Rightarrow> str \<Rightarrow> ('s, raw_rows list) act" where
  "session_simple_query_raw L sql = call (in_sql sql None) (lk_simple L sql)"

definition session_execute :: "'s link \<Rightarrow> 'a fragment \<Rightarrow> 'a \<Rightarrow> ('s, u64) act" where
  "session_execute L cmd args =
     bindm (of_result (map_err (in_sql (fr_sql cmd) (fr_origin cmd)) (bind_runtime cmd args))) (\<lambda>bound.
     bindm (call (in_sql (bo_sql bound) (fr_origin cmd))
              (lk_extended L (bo_sql bound) (bo_params bound) (bo_param_formats bound) [] None)) (\<lambda>outcome.
       ret (parse_affected_rows (eo_command_tag outcome))))"

definition copy_in_raw :: "'s link \<Rightarrow> str \<Rightarrow> bytes list \<Rightarrow> ('s, u64) act" where
  "copy_in_raw L sql data =
     bindm (call (in_sql sql None) (lk_copy_in L sql data)) (\<lambda>tag. ret (parse_affected_rows (Some tag)))"

definition session_copy_in :: "'s link \<Rightarrow> 'a copy_statement \<Rightarrow> 'a list \<Rightarrow> ('s, u64) act" where
  "session_copy_in L copy rows =
     bindm (of_result (encode_rows copy rows)) (\<lambda>data. copy_in_raw L (ci_sql copy) data)"

definition decode_rows :: "(error \<Rightarrow> error) \<Rightarrow> 'b codec \<Rightarrow> raw_rows \<Rightarrow> 'b list result" where
  "decode_rows context decoder rows = collect_r (\<lambda>cols. map_err context (cd_decode decoder cols)) rows"

definition session_query :: "'s link \<Rightarrow> ('a, 'b) query \<Rightarrow> 'a \<Rightarrow> ('s, 'b list) act" where
  "session_query L q args =
     (let f = qu_fragment q; decoder = qu_decoder q
      in bindm (of_result (map_err (in_sql (fr_sql f) (fr_origin f)) (bind_runtime f args))) (\<lambda>bound.
         bindm (call (in_sql (bo_sql bound) (fr_origin f))
                  (lk_extended L (bo_sql bound) (bo_params bound) (bo_param_formats bound)
                     (cd_format_codes decoder) (Some (cd_n_columns decoder)))) (\<lambda>outcome.
           of_result (decode_rows (in_sql (bo_sql bound) (fr_origin f)) decoder (eo_rows outcome)))))"

section \<open>Dynamic types\<close>

definition session_escape_sql_literal :: "str \<Rightarrow> str" where
  "session_escape_sql_literal v = replace_char squote [squote, squote] v"

definition dynamic_type_sql :: "pg_type \<Rightarrow> str" where
  "dynamic_type_sql ty =
     (case ty_extension ty of
        Some extension \<Rightarrow>
          ''SELECT t.oid::text FROM pg_type AS t JOIN pg_namespace AS n ON n.oid = t.typnamespace '' @
          ''JOIN pg_extension AS e ON e.extnamespace = n.oid WHERE e.extname = '' @
          [squote] @ session_escape_sql_literal extension @ [squote] @ '' AND t.typname = '' @
          [squote] @ session_escape_sql_literal (ty_name ty) @ [squote]
      | None \<Rightarrow>
          ''SELECT to_regtype('' @ [squote] @ session_escape_sql_literal (ty_name ty) @ [squote] @
          '')::oid::text'')"

definition first_cell :: "raw_rows list \<Rightarrow> bytes option" where
  "first_cell rows = (case rows of ((cell # _) # _) # _ \<Rightarrow> cell | _ \<Rightarrow> None)"

definition quoted_name :: "str \<Rightarrow> str" where
  "quoted_name s = [dquote] @ s @ [dquote]"

definition resolve_dynamic_type :: "'s link \<Rightarrow> pg_type \<Rightarrow> ('s, oid) act" where
  "resolve_dynamic_type L ty =
     bindm (session_simple_query_raw L (dynamic_type_sql ty)) (\<lambda>rows. of_result
       (bindr (ok_or (Codec (''could not resolve PostgreSQL type '' @ quoted_name (ty_name ty) @
                 (case ty_extension ty of None \<Rightarrow> [] | Some ext \<Rightarrow> '' from extension '' @ quoted_name ext)))
                 (first_cell rows)) (\<lambda>raw.
        bindr (map_err (\<lambda>_. Codec (''type resolution for '' @ quoted_name (ty_name ty) @ '' returned non-UTF-8''))
                 (from_utf8 raw)) (\<lambda>t.
          map_err (\<lambda>_. Codec (''type resolution for '' @ quoted_name (ty_name ty) @
                        '' returned invalid OID '' @ debug_str t)) (parse_u32 t)))))"

definition session_resolve_type_oids :: "'s link \<Rightarrow> pg_type list \<Rightarrow> ('s, oid list) act" where
  "session_resolve_type_oids L declared st =
     (let (r, reg, st') = resolve_type_oids (resolve_dynamic_type L) declared (se_registry st, st)
      in (r, st'\<lparr>se_registry := reg\<rparr>))"

section \<open>Control commands and best-effort closing\<close>

definition run_control_command :: "'s link \<Rightarrow> str \<Rightarrow> ('s, unit) act" where
  "run_control_command L sql = bindm (call id (lk_extended L sql [] [] [] None)) (\<lambda>_. ret ())"

definition close_statement_best_effort :: "'s link \<Rightarrow> str \<Rightarrow> 's session \<Rightarrow> 's session" where
  "close_statement_best_effort L name st = snd (call id (lk_close_statement L name) st)"

definition close_portal_best_effort :: "'s link \<Rightarrow> str \<Rightarrow> 's session \<Rightarrow> 's session" where
  "close_portal_best_effort L name st = snd (call id (lk_close_portal L name) st)"

definition begin_transaction :: "'s link \<Rightarrow> ('s, unit) act" where
  "begin_transaction L = run_control_command L ''BEGIN''"

definition finish_transaction_best_effort :: "'s link \<Rightarrow> 's session \<Rightarrow> 's session" where
  "finish_transaction_best_effort L st = snd (run_control_command L ''COMMIT'' st)"

text \<open>
  \<open>Session::close\<close> sends \<open>Close\<close>, ignoring a failure to send, and waits up to five seconds for the
  answer; a dropped reply channel means that the driver is gone already.
\<close>

datatype close_wait = Answered "unit result" | ReplyDropped | TimedOut

definition session_close :: "close_wait \<Rightarrow> unit result" where
  "session_close outcome =
     (case outcome of
        Answered res \<Rightarrow> res
      | ReplyDropped \<Rightarrow> Inr ()
      | TimedOut \<Rightarrow> Inl (Protocol ''Session::close timed out waiting for driver''))"

section \<open>Prepared statements\<close>

record 'a prepared_statement =
  ps_name :: str
  ps_fragment :: "'a fragment"
  ps_key :: cache_key

record ('a, 'b) prepared_query =
  pq_statement :: "'a prepared_statement"
  pq_decoder :: "'b codec"

text \<open>
  A hit in the cache skips the round trip; otherwise the statement is parsed under a fresh name,
  checked against the decoder (queries only) and inserted.
\<close>

definition dynamic_query_message :: str where
  "dynamic_query_message =
     ''queries with runtime-dependent optional schema-aware SQL cannot be prepared; call Session::query or Session::stream with arguments instead''"

definition dynamic_command_message :: str where
  "dynamic_command_message =
     ''commands with runtime-dependent optional schema-aware SQL cannot be prepared; call Session::execute with arguments instead''"

definition insert_prepared :: "'a fragment \<Rightarrow> cache_key \<Rightarrow> str \<Rightarrow> prepare_outcome \<Rightarrow> ('s, 'a prepared_statement) act" where
  "insert_prepared f key name outcome st =
     (Inr \<lparr>ps_name = name, ps_fragment = f, ps_key = key\<rparr>,
      st\<lparr>se_cache := cache_insert (se_cache st) key
           \<lparr>cs_name = name, cs_param_oids = po_param_oids outcome, cs_row_fields = po_row_fields outcome\<rparr>\<rparr>)"

definition prepare_query ::
    "'s link \<Rightarrow> (str \<Rightarrow> u64) \<Rightarrow> ('a, 'b) query \<Rightarrow> ('s, ('a, 'b) prepared_query) act" where
  "prepare_query L hash q st =
     (let f = qu_fragment q; decoder = qu_decoder q; context = in_sql (fr_sql f) (fr_origin f);
          types = en_types (fr_encoder f); key = cache_key_new hash (fr_sql f) types
      in case fr_dynamic f of
           Some _ \<Rightarrow> (Inl (context (Codec dynamic_query_message)), st)
         | None \<Rightarrow>
             (case checkout (se_cache st) key of
                (Some cached, c) \<Rightarrow>
                  (Inr \<lparr>pq_statement = \<lparr>ps_name = cs_name cached, ps_fragment = f, ps_key = key\<rparr>,
                        pq_decoder = decoder\<rparr>, st\<lparr>se_cache := c\<rparr>)
              | (None, c) \<Rightarrow>
                  (let (name, c') = next_name c
                   in bindm (session_resolve_type_oids L types) (\<lambda>param_oids.
                      bindm (session_resolve_type_oids L (cd_types decoder)) (\<lambda>output_oids.
                      bindm (call context (lk_prepare L name (fr_sql f) param_oids)) (\<lambda>outcome.
                        case validate_row_description (cd_n_columns decoder) (po_row_fields outcome) output_oids of
                          Inl e \<Rightarrow> (\<lambda>st. (Inl (context e), close_statement_best_effort L name st))
                        | Inr _ \<Rightarrow>
                            bindm (insert_prepared f key name outcome) (\<lambda>statement.
                              ret \<lparr>pq_statement = statement, pq_decoder = decoder\<rparr>))))
                      (st\<lparr>se_cache := c'\<rparr>))))"

definition prepare_command ::
    "'s link \<Rightarrow> (str \<Rightarrow> u64) \<Rightarrow> 'a fragment \<Rightarrow> ('s, 'a prepared_statement) act" where
  "prepare_command L hash f st =
     (let context = in_sql (fr_sql f) (fr_origin f);
          types = en_types (fr_encoder f); key = cache_key_new hash (fr_sql f) types
      in case fr_dynamic f of
           Some _ \<Rightarrow> (Inl (context (Codec dynamic_command_message)), st)
         | None \<Rightarrow>
             (case checkout (se_cache st) key of
                (Some cached, c) \<Rightarrow>
                  (Inr \<lparr>ps_name = cs_name cached, ps_fragment = f, ps_key = key\<rparr>, st\<lparr>se_cache := c\<rparr>)
              | (None, c) \<Rightarrow>
                  (let (name, c') = next_name c
                   in bindm (session_resolve_type_oids L types) (\<lambda>param_oids.
                      bindm (call context (lk_prepare L name (fr_sql f) param_oids)) (\<lambda>outcome.
                        insert_prepared f key name outcome))
                      (st\<lparr>se_cache := c'\<rparr>))))"

definition ps_context :: "'a prepared_statement \<Rightarrow> error \<Rightarrow> error" where
  "ps_context p = in_sql (fr_sql (ps_fragment p)) (fr_origin (ps_fragment p))"

definition ps_run ::
    "'s link \<Rightarrow> 'a prepared_statement \<Rightarrow> formats \<Rightarrow> nat option \<Rightarrow> 'a \<Rightarrow> ('s, extended_outcome) act" where
  "ps_run L p result_formats expected args =
     bindm (of_result (map_err (ps_context p) (en_encode (fr_encoder (ps_fragment p)) args))) (\<lambda>params.
       call (ps_context p)
         (lk_execute_prepared L (ps_name p) params (en_format_codes (fr_encoder (ps_fragment p)))
            result_formats expected))"

definition prepared_query_run :: "'s link \<Rightarrow> ('a, 'b) prepared_query \<Rightarrow> 'a \<Rightarrow> ('s, 'b list) act" where
  "prepared_query_run L p args =
     bindm (ps_run L (pq_statement p) (cd_format_codes (pq_decoder p)) (Some (cd_n_columns (pq_decoder p))) args)
       (\<lambda>outcome. of_result (decode_rows (ps_context (pq_statement p)) (pq_decoder p) (eo_rows outcome)))"

definition prepared_command_execute :: "'s link \<Rightarrow> 'a prepared_statement \<Rightarrow> 'a \<Rightarrow> ('s, u64) act" where
  "prepared_command_execute L p args =
     bindm (ps_run L p [] None args) (\<lambda>outcome. ret (parse_affected_rows (eo_command_tag outcome)))"

definition prepared_close :: "'s link \<Rightarrow> 'a prepared_statement \<Rightarrow> ('s, unit) act" where
  "prepared_close L p st =
     (case release_handle (se_cache st) (ps_key p) of
        (None, c) \<Rightarrow> (Inr (), st\<lparr>se_cache := c\<rparr>)
      | (Some _, c) \<Rightarrow> call (ps_context p) (lk_close_statement L (ps_name p)) (st\<lparr>se_cache := c\<rparr>))"

section \<open>Streams\<close>

definition DEFAULT_BATCH_ROWS :: nat where
  "DEFAULT_BATCH_ROWS = 128"

definition stream_next_name :: "str \<Rightarrow> 's session \<Rightarrow> str \<times> 's session" where
  "stream_next_name pre st =
     (pre @ ''_'' @ show_nat (unat (se_stream_counter st)),
      st\<lparr>se_stream_counter := se_stream_counter st + 1\<rparr>)"

record 'b stream_config =
  sf_stmt_name :: str
  sf_params :: params
  sf_param_formats :: formats
  sf_decoder :: "'b codec"
  sf_batch_rows :: nat
  sf_close_statement :: bool
  sf_close_transaction :: bool

text \<open>The arguments of the background task that \<open>RowStream::start\<close> spawns.\<close>

record 'b row_stream =
  rs_portal_name :: str
  rs_statement_name :: "str option"
  rs_decoder :: "'b codec"
  rs_batch_rows :: i32
  rs_close_transaction :: bool

definition cleanup_stream :: "'s link \<Rightarrow> str \<Rightarrow> str option \<Rightarrow> bool \<Rightarrow> 's session \<Rightarrow> 's session" where
  "cleanup_stream L portal_name statement_name close_transaction st =
     (let st1 = close_portal_best_effort L portal_name st;
          st2 = (case statement_name of None \<Rightarrow> st1 | Some name \<Rightarrow> close_statement_best_effort L name st1)
      in if close_transaction then finish_transaction_best_effort L st2 else st2)"

definition abandon_start :: "'s link \<Rightarrow> 'b stream_config \<Rightarrow> error \<Rightarrow> ('s, 'c) act" where
  "abandon_start L cfg e st =
     (let st1 = (if sf_close_statement cfg then close_statement_best_effort L (sf_stmt_name cfg) st else st);
          st2 = (if sf_close_transaction cfg then finish_transaction_best_effort L st1 else st1)
      in (Inl e, st2))"

definition row_stream_start :: "'s link \<Rightarrow> 'b stream_config \<Rightarrow> ('s, 'b row_stream) act" where
  "row_stream_start L cfg st =
     (if sf_batch_rows cfg > 2147483647
      then abandon_start L cfg (Config ''stream batch size exceeds i32::MAX'') st
      else if sf_batch_rows cfg = 0
      then abandon_start L cfg (Config ''stream batch size must be greater than zero'') st
      else
        (let (portal_name, st1) = stream_next_name ''babar_stream_portal'' st
         in case call id (lk_bind_portal L portal_name (sf_stmt_name cfg) (sf_params cfg)
                    (sf_param_formats cfg) (cd_format_codes (sf_decoder cfg))) st1 of
              (Inl e, st2) \<Rightarrow> abandon_start L cfg e st2
            | (Inr _, st2) \<Rightarrow>
                (Inr \<lparr>rs_portal_name = portal_name,
                      rs_statement_name = (if sf_close_statement cfg then Some (sf_stmt_name cfg) else None),
                      rs_decoder = sf_decoder cfg, rs_batch_rows = of_nat (sf_batch_rows cfg),
                      rs_close_transaction = sf_close_transaction cfg\<rparr>, st2)))"

definition stream_with_batch_size ::
    "'s link \<Rightarrow> ('a, 'b) query \<Rightarrow> 'a \<Rightarrow> nat \<Rightarrow> ('s, 'b row_stream) act" where
  "stream_with_batch_size L q args batch_rows =
     (let f = qu_fragment q; decoder = qu_decoder q
      in bindm (of_result (map_err (in_sql (fr_sql f) (fr_origin f)) (bind_runtime f args))) (\<lambda>bound st.
           let context = in_sql (bo_sql bound) (fr_origin f);
               (stmt_name, st0) = stream_next_name ''babar_stream_stmt'' st
           in bindm (session_resolve_type_oids L (bo_param_types bound)) (\<lambda>param_oids.
              bindm (session_resolve_type_oids L (cd_types decoder)) (\<lambda>output_oids.
              bindm (call context (lk_prepare L stmt_name (bo_sql bound) param_oids)) (\<lambda>outcome st1.
                case validate_row_description (cd_n_columns decoder) (po_row_fields outcome) output_oids of
                  Inl e \<Rightarrow> (Inl (context e), close_statement_best_effort L stmt_name st1)
                | Inr _ \<Rightarrow>
                    (case begin_transaction L st1 of
                       (Inl e, st2) \<Rightarrow> (Inl (context e), close_statement_best_effort L stmt_name st2)
                     | (Inr _, st2) \<Rightarrow>
                         (let (r, st3) = row_stream_start L
                            \<lparr>sf_stmt_name = stmt_name, sf_params = bo_params bound,
                             sf_param_formats = bo_param_formats bound, sf_decoder = decoder,
                             sf_batch_rows = batch_rows, sf_close_statement = True,
                             sf_close_transaction = True\<rparr> st2
                          in (map_err context r, st3)))))) st0))"

definition session_stream :: "'s link \<Rightarrow> ('a, 'b) query \<Rightarrow> 'a \<Rightarrow> ('s, 'b row_stream) act" where
  "session_stream L q args = stream_with_batch_size L q args DEFAULT_BATCH_ROWS"

text \<open>
  The background task. The consumer may drop the stream at any time: \<open>watch\<close> says how many more times
  the task finds the row channel open, \<^const>\<open>None\<close> that it is never closed. Each look at the channel,
  \<open>is_closed\<close> or \<open>send\<close>, counts once. The loop asks for batches until the server has no more rows, so
  it takes fuel; without enough fuel the outcome is \<^const>\<open>None\<close>.
\<close>

type_synonym watch = "nat option"

fun observe :: "watch \<Rightarrow> watch option" where
  "observe None = Some None"
| "observe (Some 0) = None"
| "observe (Some (Suc k)) = Some (Some k)"

fun send_rows :: "'b codec \<Rightarrow> raw_rows \<Rightarrow> watch \<Rightarrow> 'b result list \<times> watch option" where
  "send_rows decoder [] w = ([], Some w)"
| "send_rows decoder (columns # rows) w =
     (case observe w of
        None \<Rightarrow> ([], None)
      | Some w1 \<Rightarrow>
          (case observe w1 of
             None \<Rightarrow> ([], None)
           | Some w2 \<Rightarrow>
               (case cd_decode decoder columns of
                  Inl e \<Rightarrow> ([Inl e], None)
                | Inr v \<Rightarrow> (let (out, w3) = send_rows decoder rows w2 in (Inr v # out, w3)))))"

definition stream_cleanup :: "'s link \<Rightarrow> 'b row_stream \<Rightarrow> 's session \<Rightarrow> 's session" where
  "stream_cleanup L rs = cleanup_stream L (rs_portal_name rs) (rs_statement_name rs) (rs_close_transaction rs)"

fun drive_stream ::
    "nat \<Rightarrow> 's link \<Rightarrow> 'b row_stream \<Rightarrow> watch \<Rightarrow> 's session \<Rightarrow> ('b result list \<times> 's session) option" where
  "drive_stream 0 L rs w st = None"
| "drive_stream (Suc n) L rs w st =
     (case observe w of
        None \<Rightarrow> Some ([], stream_cleanup L rs st)
      | Some w1 \<Rightarrow>
          (case call id (lk_execute_portal L (rs_portal_name rs) (rs_batch_rows rs)) st of
             (Inl e, st1) \<Rightarrow>
               Some (case observe w1 of None \<Rightarrow> [] | Some _ \<Rightarrow> [Inl e], stream_cleanup L rs st1)
           | (Inr batch, st1) \<Rightarrow>
               (case send_rows (rs_decoder rs) (pb_rows batch) w1 of
                  (out, None) \<Rightarrow> Some (out, stream_cleanup L rs st1)
                | (out, Some w2) \<Rightarrow>
                    if \<not> pb_has_more batch then Some (out, stream_cleanup L rs st1)
                    else map_option (\<lambda>(more, st2). (out @ more, st2)) (drive_stream n L rs w2 st1))))"

section \<open>What a stream delivers\<close>

text \<open>
  The documented behaviour of a portal executed with a row limit: it returns the next rows up to the
  limit and is suspended when the limit was reached. \<open>rest\<close> gives the rows the portal has left.
\<close>

definition serves_portal :: "'s link \<Rightarrow> str \<Rightarrow> i32 \<Rightarrow> ('s \<Rightarrow> raw_rows) \<Rightarrow> bool" where
  "serves_portal L portal limit rest =
     (\<forall>s. \<exists>s'. lk_execute_portal L portal limit s =
        (Some (Inr \<lparr>pb_rows = take (nat (sint limit)) (rest s), pb_has_more = nat (sint limit) \<le> length (rest s)\<rparr>), s')
        \<and> rest s' = drop (nat (sint limit)) (rest s))"

fun until_error :: "('e + 'a) list \<Rightarrow> ('e + 'a) list" where
  "until_error [] = []"
| "until_error (Inl e # rs) = [Inl e]"
| "until_error (Inr v # rs) = Inr v # until_error rs"

definition all_ok :: "('e + 'a) list \<Rightarrow> bool" where
  "all_ok rs = list_all (\<lambda>r. \<not> isl r) rs"

lemma until_error_append: "until_error (xs @ ys) = (if all_ok xs then xs @ until_error ys else until_error xs)"
  by (induction xs rule: until_error.induct) (auto simp: all_ok_def)

lemma until_error_prefix: "prefix (until_error xs) (until_error (xs @ ys))"
  by (induction xs rule: until_error.induct) auto

lemma observe_None: "observe w = Some w' \<Longrightarrow> w' = None \<longleftrightarrow> w = None"
  by (cases w rule: observe.cases) auto

text \<open>
  Either all rows are sent, or the sending stops after a prefix: at an undecodable row, or because
  the consumer is gone.
\<close>

lemma send_rows_spec:
  "(\<exists>w'. send_rows decoder rows w = (map (cd_decode decoder) rows, Some w') \<and> (w' = None \<longleftrightarrow> w = None)
      \<and> all_ok (map (cd_decode decoder) rows))
   \<or> (\<exists>out. send_rows decoder rows w = (out, None) \<and> prefix out (until_error (map (cd_decode decoder) rows))
      \<and> (w = None \<longrightarrow> out = until_error (map (cd_decode decoder) rows) \<and> \<not> all_ok (map (cd_decode decoder) rows)))"
proof (induction rows arbitrary: w)
  case (Cons r rows)
  consider "observe w = None" | w1 where "observe w = Some w1" "observe w1 = None"
    | w1 w2 where "observe w = Some w1" "observe w1 = Some w2" by (cases "observe w"; force)
  then show ?case
  proof cases
    case 3
    with observe_None have w: "w2 = None \<longleftrightarrow> w = None" by blast
    show ?thesis
    proof (cases "cd_decode decoder r")
      case (Inr v)
      with 3 w Cons.IH [of w2] show ?thesis by (auto simp: all_ok_def)
    qed (use 3 in \<open>auto simp: all_ok_def\<close>)
  qed (auto dest: observe_None)
qed (simp add: all_ok_def)

lemma drive_stream_spec:
  assumes "serves_portal L (rs_portal_name rs) (rs_batch_rows rs) rest" and "sint (rs_batch_rows rs) > 0"
    and "length (rest (se_link st)) < fuel"
  shows "\<exists>out st1. drive_stream fuel L rs w st = Some (out, stream_cleanup L rs st1)
    \<and> prefix out (until_error (map (cd_decode (rs_decoder rs)) (rest (se_link st))))
    \<and> (w = None \<longrightarrow> out = until_error (map (cd_decode (rs_decoder rs)) (rest (se_link st))))"
  using assms(3)
proof (induction fuel arbitrary: w st)
  case (Suc fuel)
  let ?n = "nat (sint (rs_batch_rows rs))" and ?rows = "rest (se_link st)"
  let ?dec = "map (cd_decode (rs_decoder rs))"
  from assms(1) obtain s' where s':
    "lk_execute_portal L (rs_portal_name rs) (rs_batch_rows rs) (se_link st) =
       (Some (Inr \<lparr>pb_rows = take ?n ?rows, pb_has_more = ?n \<le> length ?rows\<rparr>), s')"
    "rest s' = drop ?n ?rows"
    unfolding serves_portal_def by blast
  have split: "?dec ?rows = ?dec (take ?n ?rows) @ ?dec (drop ?n ?rows)"
    by (simp flip: map_append)
  show ?case
  proof (cases "observe w")
    case (Some w1)
    with observe_None have w: "w1 = None \<longleftrightarrow> w = None" by blast
    from send_rows_spec [of "rs_decoder rs" "take ?n ?rows" w1] show ?thesis
    proof (elim disjE exE conjE)
      fix w2 assume sent: "send_rows (rs_decoder rs) (take ?n ?rows) w1 = (?dec (take ?n ?rows), Some w2)"
        "w2 = None \<longleftrightarrow> w1 = None" "all_ok (?dec (take ?n ?rows))"
      show ?thesis
      proof (cases "?n \<le> length ?rows")
        case True
        with Suc.prems assms(2) have "length (rest (se_link (st\<lparr>se_link := s'\<rparr>))) < fuel"
          by (simp add: s'(2))
        from Suc.IH [OF this, of w2] obtain out st1 where
          "drive_stream fuel L rs w2 (st\<lparr>se_link := s'\<rparr>) = Some (out, stream_cleanup L rs st1)"
          "prefix out (until_error (?dec (drop ?n ?rows)))"
          "w2 = None \<longrightarrow> out = until_error (?dec (drop ?n ?rows))"
          by (auto simp: s'(2))
        with sent w True Some s'(1) show ?thesis
          unfolding split until_error_append
          by (auto simp: call_def reply_result_def intro!: exI [of _ "?dec (take ?n ?rows) @ out"])
      next
        case False
        with sent w Some s'(1) show ?thesis
          unfolding split until_error_append by (auto simp: call_def reply_result_def)
      qed
    next
      fix out assume sent: "send_rows (rs_decoder rs) (take ?n ?rows) w1 = (out, None)"
        "prefix out (until_error (?dec (take ?n ?rows)))"
        "w1 = None \<longrightarrow> out = until_error (?dec (take ?n ?rows)) \<and> \<not> all_ok (?dec (take ?n ?rows))"
      have "prefix (until_error (?dec (take ?n ?rows))) (until_error (?dec ?rows))"
        unfolding split by (rule until_error_prefix)
      with sent w Some s'(1) show ?thesis
        unfolding split until_error_append by (auto simp: call_def reply_result_def)
    qed
  qed (auto dest: observe_None)
qed simp

section \<open>What a stream leaves behind\<close>

text \<open>
  A link that also keeps a log of what a stream acquires and gives back: statements the server
  confirmed, attempts to close them, transactions that were begun and attempts to end them.
\<close>

datatype event = Prepared str | StatementClosed str | Began | Ended

definition note_control :: "str \<Rightarrow> 'a result option \<Rightarrow> event list" where
  "note_control sql r =
     (if sql = ''COMMIT'' then [Ended]
      else if sql = ''BEGIN'' then (case r of Some (Inr _) \<Rightarrow> [Began] | _ \<Rightarrow> [])
      else [])"

definition note_prepare :: "str \<Rightarrow> 'a result option \<Rightarrow> event list" where
  "note_prepare name r = (case r of Some (Inr _) \<Rightarrow> [Prepared name] | _ \<Rightarrow> [])"

definition logged :: "('s \<Rightarrow> 'r \<times> 's) \<Rightarrow> ('r \<Rightarrow> event list) \<Rightarrow> 's \<times> event list \<Rightarrow> 'r \<times> 's \<times> event list" where
  "logged f note_of = (\<lambda>(s, log). let (r, s') = f s in (r, s', log @ note_of r))"

definition traced :: "'s link \<Rightarrow> ('s \<times> event list) link" where
  "traced L =
     \<lparr>lk_simple = (\<lambda>sql. logged (lk_simple L sql) (\<lambda>_. [])),
      lk_extended = (\<lambda>sql params pf rf n. logged (lk_extended L sql params pf rf n) (note_control sql)),
      lk_copy_in = (\<lambda>sql data. logged (lk_copy_in L sql data) (\<lambda>_. [])),
      lk_prepare = (\<lambda>name sql oids. logged (lk_prepare L name sql oids) (note_prepare name)),
      lk_execute_prepared =
        (\<lambda>name params pf rf n. logged (lk_execute_prepared L name params pf rf n) (\<lambda>_. [])),
      lk_bind_portal =
        (\<lambda>portal name params pf rf. logged (lk_bind_portal L portal name params pf rf) (\<lambda>_. [])),
      lk_execute_portal = (\<lambda>portal n. logged (lk_execute_portal L portal n) (\<lambda>_. [])),
      lk_close_portal = (\<lambda>portal. logged (lk_close_portal L portal) (\<lambda>_. [])),
      lk_close_statement = (\<lambda>name. logged (lk_close_statement L name) (\<lambda>_. [StatementClosed name]))\<rparr>"

text \<open>What is held after a log: the open statements and whether a transaction is open.\<close>

fun hold :: "event \<Rightarrow> str list \<times> bool \<Rightarrow> str list \<times> bool" where
  "hold (Prepared n) (ns, t) = (n # ns, t)"
| "hold (StatementClosed n) (ns, t) = (remove1 n ns, t)"
| "hold Began (ns, t) = (ns, True)"
| "hold Ended (ns, t) = (ns, False)"

definition held :: "('s \<times> event list) session \<Rightarrow> str list \<times> bool" where
  "held st = fold hold (snd (se_link st)) ([], False)"

lemma held_update [simp]: "held (st\<lparr>se_registry := r\<rparr>) = held st" "held (st\<lparr>se_stream_counter := n\<rparr>) = held st"
  by (simp_all add: held_def)

lemma held_call:
  "held (snd (call context (logged f note_of) st)) = fold hold (note_of (fst (f (fst (se_link st))))) (held st)"
  by (simp add: call_def logged_def held_def split: prod.split)

lemma call_logged_cases:
  assumes "call context (logged f note_of) st = (r, st')"
  obtains x where "held st' = fold hold (note_of x) (held st)" and "r = reply_result context x"
    and "se_stream_counter st' = se_stream_counter st"
proof -
  from assms have "st' = snd (call context (logged f note_of) st)" by simp
  with held_call [of "context" f note_of st] assms that [of "fst (f (fst (se_link st)))"] show thesis
    by (auto simp: call_def logged_def split: prod.splits)
qed

lemma reply_ok: "reply_result context x = Inr v \<longleftrightarrow> x = Some (Inr v)"
  by (auto simp: reply_result_def split: option.split)

lemma reply_err: "reply_result context x = Inl e \<Longrightarrow> \<nexists>v. x = Some (Inr v)"
  by (auto simp: reply_result_def)

lemma held_simple_query:
  assumes "session_simple_query_raw (traced L) sql st = (r, st')"
  shows "held st' = held st"
proof -
  from assms have "call (in_sql sql None) (logged (lk_simple L sql) (\<lambda>_. [])) st = (r, st')"
    by (simp add: session_simple_query_raw_def traced_def)
  then show ?thesis by (cases rule: call_logged_cases) simp
qed

lemma held_resolve_dynamic: "held (snd (resolve_dynamic_type (traced L) ty st)) = held st"
  by (auto simp: resolve_dynamic_type_def bindm_def of_result_def split: prod.split sum.split
      dest: held_simple_query)

lemma resolve_type_oids_keeps:
  assumes "\<And>ty s. f (snd (resolve ty s)) = f s"
  shows "f (snd (snd (resolve_type_oids resolve tys (reg, s)))) = f s"
proof (induction tys arbitrary: reg s)
  case (Cons ty tys)
  obtain r s' where "resolve ty s = (r, s')" by fastforce
  with assms [of ty s] Cons.IH show ?case
    by (cases r) (simp_all add: Let_def case_prod_beta split: option.split)
qed simp

lemma held_session_resolve:
  "session_resolve_type_oids (traced L) tys st = (r, st') \<Longrightarrow> held st' = held st"
  using resolve_type_oids_keeps [of held "resolve_dynamic_type (traced L)" tys "se_registry st" st, OF held_resolve_dynamic]
  by (auto simp: session_resolve_type_oids_def split: prod.splits)

lemma held_close_portal [simp]: "held (close_portal_best_effort (traced L) name st) = held st"
  by (simp add: close_portal_best_effort_def traced_def held_call)

lemma held_close_statement [simp]:
  "held (close_statement_best_effort (traced L) name st) = hold (StatementClosed name) (held st)"
  by (simp add: close_statement_best_effort_def traced_def held_call)

lemma held_begin:
  assumes "begin_transaction (traced L) st = (r, st')"
  shows "held st' = (if isl r then held st else hold Began (held st))"
proof -
  from assms obtain r' where call: "call id (logged (lk_extended L ''BEGIN'' [] [] [] None) (note_control ''BEGIN'')) st = (r', st')"
    and r: "r = bindr r' (\<lambda>_. Inr ())"
    by (auto simp: begin_transaction_def run_control_command_def traced_def bindm_def ret_def split: prod.splits sum.splits)
  from call show ?thesis
    by (cases rule: call_logged_cases)
      (auto simp: r note_control_def reply_result_def split: option.split sum.split)
qed

lemma held_finish [simp]: "held (finish_transaction_best_effort (traced L) st) = hold Ended (held st)"
proof -
  have "snd (run_control_command (traced L) ''COMMIT'' st) =
    snd (call id (logged (lk_extended L ''COMMIT'' [] [] [] None) (note_control ''COMMIT'')) st)"
    by (auto simp: run_control_command_def traced_def bindm_def ret_def split: prod.splits sum.splits)
  then show ?thesis by (simp add: finish_transaction_best_effort_def held_call note_control_def)
qed

lemma held_prepare:
  assumes "call context (lk_prepare (traced L) name sql oids) st = (r, st')"
  shows "held st' = (if isl r then held st else hold (Prepared name) (held st))"
proof -
  from assms have "call context (logged (lk_prepare L name sql oids) (note_prepare name)) st = (r, st')"
    by (simp add: traced_def)
  then show ?thesis
    by (cases rule: call_logged_cases)
      (auto simp: note_prepare_def reply_result_def split: option.split sum.split)
qed

lemma held_bind_portal:
  assumes "call context (lk_bind_portal (traced L) portal name params pf rf) st = (r, st')"
  shows "held st' = held st"
proof -
  from assms have "call context (logged (lk_bind_portal L portal name params pf rf) (\<lambda>_. [])) st = (r, st')"
    by (simp add: traced_def)
  then show ?thesis by (cases rule: call_logged_cases) simp
qed

lemma held_execute_portal:
  assumes "call context (lk_execute_portal (traced L) portal n) st = (r, st')"
  shows "held st' = held st"
proof -
  from assms have "call context (logged (lk_execute_portal L portal n) (\<lambda>_. [])) st = (r, st')"
    by (simp add: traced_def)
  then show ?thesis by (cases rule: call_logged_cases) simp
qed

lemma held_abandon:
  assumes "abandon_start (traced L) cfg e st = (r, st')" and "sf_close_statement cfg" and "sf_close_transaction cfg"
  shows "held st' = hold Ended (hold (StatementClosed (sf_stmt_name cfg)) (held st)) \<and> isl r"
  using assms by (auto simp: abandon_start_def Let_def)

lemma held_start:
  assumes "row_stream_start (traced L) cfg st = (r, st')" and "sf_close_statement cfg" and "sf_close_transaction cfg"
  shows "case r of
    Inl _ \<Rightarrow> held st' = hold Ended (hold (StatementClosed (sf_stmt_name cfg)) (held st))
  | Inr rs \<Rightarrow> held st' = held st \<and> rs_statement_name rs = Some (sf_stmt_name cfg) \<and> rs_close_transaction rs"
proof (cases "sf_batch_rows cfg > 2147483647 \<or> sf_batch_rows cfg = 0")
  case True
  with assms(1) held_abandon [OF _ assms(2,3)] show ?thesis
    by (fastforce simp: row_stream_start_def split: if_splits sum.split)
next
  case False
  obtain portal st1 where "stream_next_name ''babar_stream_portal'' st = (portal, st1)"
    "held st1 = held st"
    by (simp add: stream_next_name_def)
  moreover obtain r2 st2 where "call id (lk_bind_portal (traced L) portal (sf_stmt_name cfg) (sf_params cfg)
      (sf_param_formats cfg) (cd_format_codes (sf_decoder cfg))) st1 = (r2, st2)" by fastforce
  moreover from held_bind_portal [OF this] have "held st2 = held st1" .
  ultimately show ?thesis
    using assms False held_abandon [OF _ assms(2,3), of L _ st2 r st']
    by (cases r2; cases r) (auto simp: row_stream_start_def)
qed

lemma held_cleanup:
  "held (stream_cleanup (traced L) rs st) =
   (let h1 = (case rs_statement_name rs of None \<Rightarrow> held st | Some n \<Rightarrow> hold (StatementClosed n) (held st))
    in if rs_close_transaction rs then hold Ended h1 else h1)"
  by (auto simp: stream_cleanup_def cleanup_stream_def Let_def split: option.split)

lemma held_drive:
  "drive_stream fuel (traced L) rs w st = Some (out, st') \<Longrightarrow> rs_statement_name rs = Some n \<Longrightarrow>
   rs_close_transaction rs \<Longrightarrow> held st' = hold Ended (hold (StatementClosed n) (held st))"
proof (induction fuel arbitrary: w st out)
  case (Suc fuel)
  then show ?case
    by (auto simp: held_cleanup Let_def split: option.splits sum.splits prod.splits if_splits
        dest!: held_execute_portal) 
qed simp

lemma validated_stream_held:
  assumes "(case begin_transaction (traced L) st of
       (Inl e, st2) \<Rightarrow> (Inl (context e), close_statement_best_effort (traced L) name st2)
     | (Inr _, st2) \<Rightarrow> (let (r, st3) = row_stream_start (traced L) cfg st2 in (map_err context r, st3))) = (r, st1)"
    and "sf_stmt_name cfg = name" and "sf_close_statement cfg" and "sf_close_transaction cfg" and "held st = ([name], False)"
  shows "case r of
      Inl e \<Rightarrow> held st1 = ([], False)
    | Inr rs \<Rightarrow> held st1 = ([name], True) \<and> rs_statement_name rs = Some name \<and> rs_close_transaction rs"
proof -
  obtain b st2 where b: "begin_transaction (traced L) st = (b, st2)" by fastforce
  obtain r3 st3 where r3: "row_stream_start (traced L) cfg st2 = (r3, st3)" by fastforce
  from held_begin [OF b] held_start [OF r3 assms(3,4)] assms(1,2,5) show ?thesis
    by (cases b; cases r3) (auto simp: b r3)
qed

lemma stream_releases_aux:
  assumes "stream_with_batch_size (traced L) q args n st = (r, st1)" and "held st = ([], False)"
  shows "case r of
      Inl e \<Rightarrow> held st1 = ([], False)
    | Inr rs \<Rightarrow> (\<forall>fuel w out st2. drive_stream fuel (traced L) rs w st1 = Some (out, st2) \<longrightarrow> held st2 = ([], False))"
proof (cases "bind_runtime (qu_fragment q) args")
  case (Inl e)
  with assms show ?thesis by (auto simp: stream_with_batch_size_def bindm_def of_result_def Let_def)
next
  case (Inr bound)
  obtain name st0 where name: "stream_next_name ''babar_stream_stmt'' st = (name, st0)" "held st0 = ([], False)"
    using assms(2) by (simp add: stream_next_name_def)
  let ?ctx = "in_sql (bo_sql bound) (fr_origin (qu_fragment q))" and ?dec = "qu_decoder q"
  let ?cfg = "\<lparr>sf_stmt_name = name, sf_params = bo_params bound, sf_param_formats = bo_param_formats bound,
    sf_decoder = ?dec, sf_batch_rows = n, sf_close_statement = True, sf_close_transaction = True\<rparr>"
  from assms(1) have "bindm (session_resolve_type_oids (traced L) (bo_param_types bound)) (\<lambda>param_oids.
      bindm (session_resolve_type_oids (traced L) (cd_types ?dec)) (\<lambda>output_oids.
      bindm (call ?ctx (lk_prepare (traced L) name (bo_sql bound) param_oids)) (\<lambda>outcome st1.
        case validate_row_description (cd_n_columns ?dec) (po_row_fields outcome) output_oids of
          Inl e \<Rightarrow> (Inl (?ctx e), close_statement_best_effort (traced L) name st1)
        | Inr _ \<Rightarrow>
            (case begin_transaction (traced L) st1 of
               (Inl e, st2) \<Rightarrow> (Inl (?ctx e), close_statement_best_effort (traced L) name st2)
             | (Inr _, st2) \<Rightarrow> (let (r, st3) = row_stream_start (traced L) ?cfg st2 in (map_err ?ctx r, st3)))))) st0
      = (r, st1)"
    by (simp add: stream_with_batch_size_def bindm_def [of "of_result _"] of_result_def Let_def Inr name(1))
  then show ?thesis
  proof (cases rule: bindm_cases)
    case (err e)
    with name(2) show ?thesis by (auto dest!: held_session_resolve)
  next
    case (ok param_oids sa)
    with name(2) have sa: "held sa = ([], False)" by (auto dest!: held_session_resolve)
    from ok(2) show ?thesis
    proof (cases rule: bindm_cases)
      case (err e)
      with sa show ?thesis by (auto dest!: held_session_resolve)
    next
      case (ok output_oids sb)
      with sa have sb: "held sb = ([], False)" by (auto dest!: held_session_resolve)
      from ok(2) show ?thesis
      proof (cases rule: bindm_cases)
        case (err e)
        with sb held_prepare [OF err(1)] show ?thesis by simp
      next
        case (ok outcome sc)
        with sb have sc: "held sc = ([name], False)" by (auto dest!: held_prepare)
        show ?thesis
        proof (cases "validate_row_description (cd_n_columns ?dec) (po_row_fields outcome) output_oids")
          case (Inl e)
          with ok(2) sc show ?thesis by auto
        next
          case (Inr u)
          with ok(2) have "(case begin_transaction (traced L) sc of
               (Inl e, st2) \<Rightarrow> (Inl (?ctx e), close_statement_best_effort (traced L) name st2)
             | (Inr _, st2) \<Rightarrow> (let (r, st3) = row_stream_start (traced L) ?cfg st2 in (map_err ?ctx r, st3))) = (r, st1)"
            by simp
          from validated_stream_held [OF this] sc show ?thesis
            by (auto split: sum.splits dest: held_drive)
        qed
      qed
    qed
  qed
qed

section \<open>What is checked when a query is prepared\<close>

lemma resolve_type_oids_resolved:
  "fst (resolve_type_oids resolve tys (reg, s)) = Inr oids \<Longrightarrow>
   list_all2 (\<lambda>ty o0. is_resolved ty \<longrightarrow> o0 = ty_oid ty) tys oids"
proof (induction tys arbitrary: reg s oids)
  case (Cons ty tys)
  obtain r s' where "resolve ty s = (r, s')" by fastforce
  with Cons.prems Cons.IH show ?case
    by (cases r; cases oids)
      (auto simp: Let_def case_prod_beta bindr_eq_Inr_iff split: option.splits if_splits)
qed simp

lemma session_resolve_resolved:
  "session_resolve_type_oids L tys st = (Inr oids, st') \<Longrightarrow>
   list_all2 (\<lambda>ty o0. is_resolved ty \<longrightarrow> o0 = ty_oid ty) tys oids"
  by (auto simp: session_resolve_type_oids_def intro!: resolve_type_oids_resolved
      [of "resolve_dynamic_type L" tys "se_registry st" st] split: prod.splits)

lemma find_enumerate_None:
  "find P (enumerate k xs) = None \<longleftrightarrow> (\<forall>i < length xs. \<not> P (k + i, xs ! i))"
  by (fastforce simp: find_None_iff enumerate_eq_zip set_zip)

lemma validate_ok:
  "validate_row_description n cols oids = Inr () \<longleftrightarrow>
   length cols = n \<and> (\<forall>i < min (length oids) n. oids ! i = rf_type_oid (cols ! i))"
proof -
  let ?f = "find (\<lambda>(position, expected, field). expected \<noteq> rf_type_oid field) (enumerate 0 (zip oids cols))"
  have "?f = None \<longleftrightarrow> (\<forall>i < min (length oids) (length cols). oids ! i = rf_type_oid (cols ! i))"
    by (simp add: find_enumerate_None)
  then show ?thesis by (cases ?f) (auto simp: validate_row_description_def)
qed

section \<open>Claims\<close>


text \<open>A server with one portal, whose state is the rows that are left.\<close>

definition int4_field :: row_field where
  "int4_field = \<lparr>rf_name = ''n'', rf_table_oid = 0, rf_column_id = 0, rf_type_oid = INT4, rf_type_size = 4,
     rf_type_modifier = - 1, rf_format = 1\<rparr>"

definition portal_link :: "raw_rows link" where
  "portal_link =
     \<lparr>lk_simple = (\<lambda>sql s. (Some (Inr []), s)),
      lk_extended = (\<lambda>sql params pf rf n s. (Some (Inr \<lparr>eo_rows = [], eo_command_tag = Some sql\<rparr>), s)),
      lk_copy_in = (\<lambda>sql data s. (Some (Inr ''COPY 0''), s)),
      lk_prepare = (\<lambda>name sql oids s. (Some (Inr \<lparr>po_param_oids = [], po_row_fields = [int4_field]\<rparr>), s)),
      lk_execute_prepared = (\<lambda>name params pf rf n s. (Some (Inr \<lparr>eo_rows = [], eo_command_tag = None\<rparr>), s)),
      lk_bind_portal = (\<lambda>portal name params pf rf s. (Some (Inr ()), s)),
      lk_execute_portal = (\<lambda>portal n s.
        (Some (Inr \<lparr>pb_rows = take (nat (sint n)) s, pb_has_more = nat (sint n) \<le> length s\<rparr>), drop (nat (sint n)) s)),
      lk_close_portal = (\<lambda>portal s. (Some (Inr ()), s)),
      lk_close_statement = (\<lambda>name s. (Some (Inr ()), s))\<rparr>"

definition demo_session :: "'s \<Rightarrow> 's session" where
  "demo_session s = \<lparr>se_cache = cache_new False, se_registry = Map.empty, se_stream_counter = 1, se_link = s\<rparr>"

definition demo_stream :: "i32 row_stream" where
  "demo_stream = \<lparr>rs_portal_name = ''p'', rs_statement_name = Some ''s'', rs_decoder = int4, rs_batch_rows = 2,
     rs_close_transaction = True\<rparr>"

lemma demo_int4_rows: "cd_decode int4 [Some (be_bytes 4 (v :: i32))] = Inr v"
  using int4.roundtrip [of v] by (simp add: int4_def scalar_def)

definition demo_rows :: raw_rows where
  "demo_rows = map (\<lambda>v. [Some (be_bytes 4 v)]) [7, 8, 9 :: i32]"



lemma serves_portal_traced: "serves_portal (traced portal_link) portal n fst"
  by (simp add: serves_portal_def traced_def portal_link_def logged_def)

definition demo_opened :: "i32 row_stream" where
  "demo_opened = \<lparr>rs_portal_name = ''babar_stream_portal_2'', rs_statement_name = Some ''babar_stream_stmt_1'',
     rs_decoder = int4, rs_batch_rows = 2, rs_close_transaction = True\<rparr>"

lemma int4_types: "cd_types int4 = [type_fixed INT4 ''int4'']"
  by (simp add: int4_def scalar_def types_for_oids_def known_type_for_oid_def known_types_def oid_defs)

lemma int4_columns: "cd_n_columns int4 = 1"
  by (simp add: int4_def scalar_def)

lemma show_small: "show_nat (Suc 0) = ''1''" "show_nat 2 = ''2''"
  by code_simp+

lemma demo_stream_opens:
  "\<exists>st1. stream_with_batch_size (traced portal_link) (query_raw ''SELECT n'' int4) () 2
     (demo_session (demo_rows, [])) = (Inr demo_opened, st1) \<and> fst (se_link st1) = demo_rows"
  by (simp add: stream_with_batch_size_def Let_def query_raw_def from_parts_def bind_runtime_def unit_encoder_def
      encoder_of_def fields_nil_def bindm_def of_result_def stream_next_name_def demo_session_def
      session_resolve_type_oids_def int4_types type_fixed_def INT4_def is_resolved_def call_def traced_def logged_def
      portal_link_def reply_result_def validate_row_description_def int4_field_def int4_columns
      begin_transaction_def run_control_command_def ret_def row_stream_start_def demo_opened_def
      show_small)


text \<open>
  C26. A query that is prepared afresh is checked against the server's description: there are as many
  columns as the decoder reads, every declared type with a known OID is the type of its column, and
  the cache holds the statement under the key of its SQL and parameter types with one live handle.
\<close>

theorem prepare_query_type_checked:
  assumes "prepare_query L hash q st = (Inr p, st')"
    and "sc_stmts (se_cache st) (cache_key_new hash (fr_sql (qu_fragment q)) (en_types (fr_encoder (qu_fragment q)))) = None"
  shows "\<exists>oids outcome s s'. lk_prepare L (ps_name (pq_statement p)) (fr_sql (qu_fragment q)) oids s = (Some (Inr outcome), s')
    \<and> length (po_row_fields outcome) = cd_n_columns (qu_decoder q)
    \<and> (\<forall>i < min (length (cd_types (qu_decoder q))) (cd_n_columns (qu_decoder q)).
         is_resolved (cd_types (qu_decoder q) ! i) \<longrightarrow>
         rf_type_oid (po_row_fields outcome ! i) = ty_oid (cd_types (qu_decoder q) ! i))
    \<and> sc_stmts (se_cache st') (ps_key (pq_statement p)) =
        Some \<lparr>ce_stmt = \<lparr>cs_name = ps_name (pq_statement p), cs_param_oids = po_param_oids outcome,
          cs_row_fields = po_row_fields outcome\<rparr>, ce_handles = 1\<rparr>"
proof -
  let ?f = "qu_fragment q" and ?dec = "qu_decoder q"
  let ?key = "cache_key_new hash (fr_sql ?f) (en_types (fr_encoder ?f))"
  from assms(2) have miss: "checkout (se_cache st) ?key = (None, se_cache st)" by (simp add: checkout_def)
  obtain name c' where name: "next_name (se_cache st) = (name, c')" by fastforce
  from assms(1) miss name obtain param_oids s1 output_oids s2 outcome s3 where
    out: "session_resolve_type_oids L (cd_types ?dec) s1 = (Inr output_oids, s2)"
    and prep: "call (in_sql (fr_sql ?f) (fr_origin ?f)) (lk_prepare L name (fr_sql ?f) param_oids) s2 = (Inr outcome, s3)"
    and fin: "\<nexists>e. validate_row_description (cd_n_columns ?dec) (po_row_fields outcome) output_oids = Inl e"
      "p = \<lparr>pq_statement = \<lparr>ps_name = name, ps_fragment = ?f, ps_key = ?key\<rparr>, pq_decoder = ?dec\<rparr>"
      "st' = snd (insert_prepared ?f ?key name outcome s3)"
    by (auto simp: prepare_query_def Let_def bindm_eq_Inr_iff insert_prepared_def ret_def
        split: option.splits sum.splits) (metis old.sum.exhaust old.unit.exhaust)+
  from prep obtain s' where s': "lk_prepare L name (fr_sql ?f) param_oids (se_link s2) = (Some (Inr outcome), s')"
    by (auto simp: call_def reply_ok split: prod.splits)
  from fin(1) have "validate_row_description (cd_n_columns ?dec) (po_row_fields outcome) output_oids = Inr ()"
    by (cases "validate_row_description (cd_n_columns ?dec) (po_row_fields outcome) output_oids") auto
  then have v: "length (po_row_fields outcome) = cd_n_columns ?dec"
    "\<forall>i < min (length output_oids) (cd_n_columns ?dec). output_oids ! i = rf_type_oid (po_row_fields outcome ! i)"
    by (simp_all add: validate_ok)
  from session_resolve_resolved [OF out] have "length output_oids = length (cd_types ?dec)"
    "\<forall>i < length (cd_types ?dec). is_resolved (cd_types ?dec ! i) \<longrightarrow> output_oids ! i = ty_oid (cd_types ?dec ! i)"
    by (auto simp: list_all2_conv_all_nth)
  with v s' fin(2,3) show ?thesis
    by (intro exI [of _ param_oids] exI [of _ outcome] exI [of _ "se_link s2"] exI [of _ s'])
      (auto simp: insert_prepared_def cache_insert_def)
qed

theorem prepare_query_type_checked_witness:
  "\<exists>p st'. prepare_query portal_link (\<lambda>_. 0) (query_raw ''SELECT n'' int4) (demo_session demo_rows) = (Inr p, st')
   \<and> (\<exists>e. sc_stmts (se_cache st') (ps_key (pq_statement p)) = Some e \<and> ce_handles e = 1)"
proof -
  have "\<exists>p st'. prepare_query portal_link (\<lambda>_. 0) (query_raw ''SELECT n'' int4) (demo_session demo_rows) = (Inr p, st')"
    by (simp add: prepare_query_def Let_def query_raw_def from_parts_def unit_encoder_def encoder_of_def fields_nil_def
        bindm_def demo_session_def cache_new_def checkout_def next_name_def session_resolve_type_oids_def int4_types
        type_fixed_def INT4_def is_resolved_def call_def portal_link_def reply_result_def validate_row_description_def
        int4_field_def int4_columns insert_prepared_def ret_def)
  then obtain p st' where p: "prepare_query portal_link (\<lambda>_. 0) (query_raw ''SELECT n'' int4) (demo_session demo_rows) = (Inr p, st')"
    by blast
  from prepare_query_type_checked [OF p] p show ?thesis
    by (fastforce simp: demo_session_def cache_new_def)
qed

text \<open>
  A hit in the cache is answered without looking at the decoder: two queries with the same SQL and
  parameters but different decoders share the entry, and the second decoder is never compared with
  the columns the statement returns.
\<close>

lemma prepare_query_hit_unchecked:
  assumes "fr_dynamic (qu_fragment q) = None"
    and "sc_stmts (se_cache st) (cache_key_new hash (fr_sql (qu_fragment q)) (en_types (fr_encoder (qu_fragment q)))) = Some e"
  shows "\<exists>p st'. prepare_query L hash q st = (Inr p, st') \<and> ps_name (pq_statement p) = cs_name (ce_stmt e)
    \<and> pq_decoder p = qu_decoder q \<and> se_link st' = se_link st"
  using assms by (simp add: prepare_query_def Let_def checkout_def)

end
