(* ===== verification/Connection.thy ===== *)
theory Connection
  imports Session
begin

text \<open>
  The layers of a connection put together: session calls become driver commands, the driver writes
  them to the socket, and the bytes with which the server answers are framed, decoded and fed to the
  driver until it replies. The server is a parameter: \<open>serve\<close> gives the bytes it answers to a command.
\<close>

definition exchange ::
    "postgres_frontend \<Rightarrow> 'w socket \<Rightarrow> (command \<Rightarrow> 'v \<Rightarrow> bytes \<times> 'v) \<Rightarrow> (reply \<Rightarrow> command) \<Rightarrow>
     'w driver \<times> 'v \<Rightarrow> outcome result option \<times> ('w driver \<times> 'v)" where
  "exchange F S serve mk = (\<lambda>(d, v).
     let r = length (d_replies d); c = mk r
     in case start F S c d of
          (Inl e, d1) \<Rightarrow> (map_of (new_replies d d1) r, (fail_pending e d1, v))
        | (Inr _, d1) \<Rightarrow>
            (case d_pending d1 of
               None \<Rightarrow> (map_of (new_replies d d1) r, (d1, v))
             | Some _ \<Rightarrow>
                 (let (answer, v') = serve c v;
                      (ms, e, _) = drain answer;
                      (res, d2) = deliver F S ms d1;
                      d3 = (case (res, e) of
                              (Inl x, _) \<Rightarrow> fail_pending x d2
                            | (Inr _, Some x) \<Rightarrow> fail_pending x d2
                            | (Inr _, None) \<Rightarrow> d2)
                  in (map_of (new_replies d d3) r, (d3, v')))))"

text \<open>The reply channel of each command carries one kind of outcome.\<close>

definition typed_reply :: "(outcome \<Rightarrow> 'a option) \<Rightarrow> outcome result option \<times> 's \<Rightarrow> 'a result option \<times> 's" where
  "typed_reply f = (\<lambda>(r, s).
     (Option.bind r (\<lambda>r'. case r' of Inl e \<Rightarrow> Some (Inl e) | Inr out \<Rightarrow> map_option Inr (f out)), s))"

primrec unit_outcome :: "outcome \<Rightarrow> unit option" where
  "unit_outcome UnitOutcome = Some ()"
| "unit_outcome (SimpleOutcome _) = None"
| "unit_outcome (ExtendedOutcome _) = None"
| "unit_outcome (CopyInOutcome _) = None"
| "unit_outcome (PrepareOutcome _) = None"
| "unit_outcome (PortalOutcome _) = None"

definition driver_link ::
    "postgres_frontend \<Rightarrow> 'w socket \<Rightarrow> (command \<Rightarrow> 'v \<Rightarrow> bytes \<times> 'v) \<Rightarrow> ('w driver \<times> 'v) link" where
  "driver_link F S serve =
     (let ex = exchange F S serve
      in \<lparr>lk_simple = (\<lambda>sql s. typed_reply (\<lambda>out. case out of SimpleOutcome x \<Rightarrow> Some x | _ \<Rightarrow> None)
            (ex (\<lambda>r. SimpleQuery r sql) s)),
          lk_extended = (\<lambda>sql params pf rf n s.
            typed_reply (\<lambda>out. case out of ExtendedOutcome x \<Rightarrow> Some x | _ \<Rightarrow> None)
              (ex (\<lambda>r. ExtendedQuery r sql params pf rf n) s)),
          lk_copy_in = (\<lambda>sql data s. typed_reply (\<lambda>out. case out of CopyInOutcome x \<Rightarrow> Some x | _ \<Rightarrow> None)
            (ex (\<lambda>r. CopyIn r sql data) s)),
          lk_prepare = (\<lambda>name sql oids s. typed_reply (\<lambda>out. case out of PrepareOutcome x \<Rightarrow> Some x | _ \<Rightarrow> None)
            (ex (\<lambda>r. Prepare r name sql oids) s)),
          lk_execute_prepared = (\<lambda>name params pf rf n s.
            typed_reply (\<lambda>out. case out of ExtendedOutcome x \<Rightarrow> Some x | _ \<Rightarrow> None)
              (ex (\<lambda>r. ExecutePrepared r name params pf rf n) s)),
          lk_bind_portal = (\<lambda>portal name params pf rf s. typed_reply unit_outcome
            (ex (\<lambda>r. BindPortal r portal name params pf rf) s)),
          lk_execute_portal = (\<lambda>portal n s. typed_reply (\<lambda>out. case out of PortalOutcome x \<Rightarrow> Some x | _ \<Rightarrow> None)
            (ex (\<lambda>r. ExecutePortal r portal n) s)),
          lk_close_portal = (\<lambda>portal s. typed_reply unit_outcome (ex (\<lambda>r. ClosePortal r portal) s)),
          lk_close_statement = (\<lambda>name s. typed_reply unit_outcome (ex (\<lambda>r. CloseStatement r name) s))\<rparr>)"

section \<open>A query from end to end\<close>

text \<open>The messages of a successful extended query.\<close>

definition query_answer :: "row_field list \<Rightarrow> raw_rows \<Rightarrow> str \<Rightarrow> u8 \<Rightarrow> backend_message list" where
  "query_answer fs rows tag st =
     [ParseComplete, BindComplete, RowDescription fs] @ map DataRow rows @ [CommandComplete tag, ReadyForQuery st]"

lemma begin_pending:
  assumes "begin_command S build r p d = (Inr (), d1)" and "d_pending d = None" and "d_pending d1 \<noteq> None"
  shows "d_pending d1 = Some p \<and> d_replies d1 = d_replies d"
proof -
  obtain built buf where b: "build [] = (built, buf)" by fastforce
  obtain fl d2 where f: "flush S (d\<lparr>d_write_buf := buf\<rparr>) = (fl, d2)" by fastforce
  from flush_fields [OF f] have "d_replies d2 = d_replies d" by (simp add: same_line_def)
  with assms b f show ?thesis by (cases built; cases fl) (auto simp: begin_command_def send_def)
qed

lemma deliver_extended_answer:
  assumes "d_pending d = Some (PExtended r expected [] None None)"
    and "filter (\<lambda>m. \<not> asynchronous m) ms = query_answer fs rows tag st"
  shows "deliver F S ms d =
    (Inr (), send r
       (finish_with (check_columns expected (length fs) None)
          (ExtendedOutcome \<lparr>eo_rows = rows, eo_command_tag = Some tag\<rparr>))
       (d\<lparr>d_transaction_status := st, d_pending := None\<rparr>))"
  unfolding deliver_filter [of F S ms] assms(2) query_answer_def
  using assms(1) by (simp add: on_message_react deliver_extended_rows on_message_finish send_def)

lemma exchange_extended:
  assumes "d_pending d = None"
    and "start F S (ExtendedQuery (length (d_replies d)) sql params pf rf expected) d = (Inr (), d1)" and "d_pending d1 \<noteq> None"
    and "serve (ExtendedQuery (length (d_replies d)) sql params pf rf expected) v = (concat (map encode_frame ms), v')"
    and "list_all wf_message ms" and "filter (\<lambda>m. \<not> asynchronous m) ms = query_answer fs rows tag st"
  shows "\<exists>d2. d_pending d2 = None \<and> d_transaction_status d2 = st
    \<and> lk_extended (driver_link F S serve) sql params pf rf expected (d, v) =
      (Some (case check_columns expected (length fs) None of
               Some e \<Rightarrow> Inl e | None \<Rightarrow> Inr \<lparr>eo_rows = rows, eo_command_tag = Some tag\<rparr>), (d2, v'))"
proof -
  let ?r = "length (d_replies d)"
  have p: "d_pending d1 = Some (PExtended ?r expected [] None None)" "d_replies d1 = d_replies d"
    using begin_pending [OF _ assms(1,3)] assms(2) by simp_all
  have "drain (concat (map encode_frame ms)) = (ms, None, [])"
    using drain_frames_aux [OF assms(5), of "[]"] by (simp add: drain_None decode_def)
  moreover note deliver_extended_answer [OF p(1) assms(6), of F S]
  ultimately show ?thesis
    using assms(2,4) p
    by (auto simp: driver_link_def exchange_def typed_reply_def Let_def new_replies_def send_def finish_with_def
        split: option.split)
qed

lemma decode_encoded_rows:
  assumes "codec_laws c valid" and "list_all2 (\<lambda>x row. valid x \<and> cd_encode c x = Inr row) vs rows"
  shows "decode_rows ctx c rows = Inr vs"
proof -
  have "cd_decode c row = Inr x" if "valid x \<and> cd_encode c x = Inr row" for x row
    using codec_laws.roundtrip [OF assms(1), of x] that by simp
  with assms(2) have "list_all2 (\<lambda>row x. cd_decode c row = Inr x) rows vs"
    by (auto simp: list_all2_conv_all_nth)
  then show ?thesis
    by (simp add: decode_rows_def collect_r_eq_Inr_iff)
qed

text \<open>
  C2. A query works from end to end: when the statement has been written to the socket and the
  server's answer, as bytes, carries rows that are the encodings of some values in the columns the
  decoder expects, interleaved with any notices and parameter reports, the caller gets exactly these
  values in order and the connection is idle again.
\<close>

theorem query_end_to_end:
  assumes "codec_laws (qu_decoder q) valid"
    and "list_all2 (\<lambda>x row. valid x \<and> cd_encode (qu_decoder q) x = Inr row) vs rows"
    and "bind_runtime (qu_fragment q) args = Inr bound"
    and "se_link st = (d, v)" and "d_pending d = None"
    and "cmd = ExtendedQuery (length (d_replies d)) (bo_sql bound) (bo_params bound) (bo_param_formats bound)
           (cd_format_codes (qu_decoder q)) (Some (cd_n_columns (qu_decoder q)))"
    and "start F S cmd d = (Inr (), d1)" and "d_pending d1 \<noteq> None"
    and "serve cmd v = (concat (map encode_frame ms), v')" and "list_all wf_message ms"
    and "filter (\<lambda>m. \<not> asynchronous m) ms = query_answer fs rows tag status"
    and "length fs = cd_n_columns (qu_decoder q)"
  shows "\<exists>d2. session_query (driver_link F S serve) q args st = (Inr vs, st\<lparr>se_link := (d2, v')\<rparr>)
    \<and> d_pending d2 = None \<and> d_transaction_status d2 = status"
proof -
  from exchange_extended [where serve = serve and v = v, OF assms(5) assms(7) [unfolded assms(6)] assms(8) assms(9) [unfolded assms(6)] assms(10,11)]
  obtain d2 where "d_pending d2 = None" "d_transaction_status d2 = status"
    "lk_extended (driver_link F S serve) (bo_sql bound) (bo_params bound) (bo_param_formats bound)
       (cd_format_codes (qu_decoder q)) (Some (cd_n_columns (qu_decoder q))) (d, v) =
     (Some (Inr \<lparr>eo_rows = rows, eo_command_tag = Some tag\<rparr>), (d2, v'))"
    using assms(12) by (auto simp: check_columns_def)
  with assms(3,4) decode_encoded_rows [OF assms(1,2)] show ?thesis
    by (intro exI [of _ d2]) (simp add: session_query_def Let_def bindm_def of_result_def call_def reply_result_def)
qed

definition demo_answer :: "backend_message list" where
  "demo_answer = [ParseComplete, NoticeResponse [], BindComplete, RowDescription [int4_field],
     DataRow [Some (be_bytes 4 (7 :: i32))], DataRow [Some (be_bytes 4 (8 :: i32))],
     CommandComplete ''SELECT 2'', ReadyForQuery 73]"

lemma demo_answer_wf: "list_all wf_message demo_answer"
  by (simp add: demo_answer_def wf_message_def wf_error_fields_def int4_field_def wf_cstr_def valid_str_def wf_data_column_def
      encode_error_fields_def encode_count_def encode_row_field_def encode_data_column_def cstr_def)

theorem query_end_to_end_witness:
  "\<exists>d2. session_query (driver_link null_frontend recording_socket (\<lambda>c v. (concat (map encode_frame demo_answer), v)))
     (query_raw ''SELECT n'' int4) () (demo_session (driver_new [] 73, ())) =
   (Inr [7, 8], (demo_session (driver_new [] 73, ()))\<lparr>se_link := (d2, ())\<rparr>) \<and> d_pending d2 = None"
proof -
  let ?q = "query_raw ''SELECT n'' int4" and ?d = "driver_new [] 73 :: bytes driver"
  let ?bound = "\<lparr>bo_sql = ''SELECT n'', bo_params = [], bo_param_types = [], bo_param_formats = []\<rparr>"
  let ?cmd = "ExtendedQuery (length (d_replies ?d)) (bo_sql ?bound) (bo_params ?bound) (bo_param_formats ?bound)
    (cd_format_codes (qu_decoder ?q)) (Some (cd_n_columns (qu_decoder ?q)))"
  have bound: "bind_runtime (qu_fragment ?q) () = Inr ?bound"
    by (simp add: query_raw_def from_parts_def bind_runtime_def unit_encoder_def encoder_of_def fields_nil_def)
  have started: "start null_frontend recording_socket ?cmd ?d =
      (Inr (), ?d\<lparr>d_pending := Some (PExtended (length (d_replies ?d)) (Some (cd_n_columns (qu_decoder ?q))) [] None None)\<rparr>)"
    by (simp add: begin_command_def then_write_def fe_parse_def fe_bind_def fe_describe_portal_def fe_execute_def
        fe_sync_def emit_def null_frontend_def recording_socket_def flush_def driver_new_def)
  have rows: "list_all2 (\<lambda>x row. True \<and> cd_encode (qu_decoder ?q) x = Inr row) [7, 8]
      [[Some (be_bytes 4 (7 :: i32))], [Some (be_bytes 4 (8 :: i32))]]"
    by (simp add: query_raw_def int4_def scalar_def)
  have laws: "codec_laws (qu_decoder ?q) (\<lambda>_. True)"
    using int4.codec_laws_axioms by (simp add: query_raw_def)
  have "filter (\<lambda>m. \<not> asynchronous m) demo_answer = query_answer [int4_field]
      [[Some (be_bytes 4 (7 :: i32))], [Some (be_bytes 4 (8 :: i32))]] ''SELECT 2'' 73"
    by (simp add: demo_answer_def query_answer_def asynchronous_def)
  from query_end_to_end [OF laws rows bound _ _ refl started _ _ demo_answer_wf this,
      where st = "demo_session (?d, ())" and v = "()" and v' = "()"
      and serve = "\<lambda>c v. (concat (map encode_frame demo_answer), v)"]
  show ?thesis
    by (auto simp: demo_session_def driver_new_def query_raw_def int4_columns)
qed

end
