(* ===== verification/Transaction.thy ===== *)
theory Transaction
  imports Session
begin

text \<open>
  Scoped transactions and savepoints (\<open>transaction.rs\<close>). The body of a scope is a computation on the
  scope state; it may also be cancelled, when the future is dropped at an await point. A scope that is
  left with an armed guard schedules a detached clean-up task. The properties are about a server that
  follows PostgreSQL's documented rules for transaction blocks and savepoints.
\<close>

section \<open>Scopes\<close>

datatype cleanup_action = Rollback | RollbackSavepoint str

text \<open>The session, the process-wide counter of savepoint names and the detached tasks not yet run.\<close>

record 's scope =
  sp_session :: "'s session"
  sp_counter :: u64
  sp_detached :: "cleanup_action list"

datatype 'a run = Done "'a result" | Cancelled

type_synonym ('s, 'a) body = "'s scope \<Rightarrow> 'a run \<times> 's scope"

text \<open>The methods of a scope handle forward to the session.\<close>

definition in_session :: "('s, 'a) act \<Rightarrow> ('s, 'a) body" where
  "in_session m sc = (let (r, st) = m (sp_session sc) in (Done r, sc\<lparr>sp_session := st\<rparr>))"

definition scope_control :: "'s link \<Rightarrow> str \<Rightarrow> 's scope \<Rightarrow> unit result \<times> 's scope" where
  "scope_control L sql sc =
     (let (r, st) = run_control_command L sql (sp_session sc) in (r, sc\<lparr>sp_session := st\<rparr>))"

text \<open>Dropping an armed guard.\<close>

definition detach :: "cleanup_action \<Rightarrow> 's scope \<Rightarrow> 's scope" where
  "detach action sc = sc\<lparr>sp_detached := sp_detached sc @ [action]\<rparr>"

definition transaction :: "'s link \<Rightarrow> ('s, 'a) body \<Rightarrow> ('s, 'a) body" where
  "transaction L f sc =
     (case scope_control L ''BEGIN'' sc of
        (Inl e, sc1) \<Rightarrow> (Done (Inl e), detach Rollback sc1)
      | (Inr _, sc1) \<Rightarrow>
          (case f sc1 of
             (Cancelled, sc2) \<Rightarrow> (Cancelled, detach Rollback sc2)
           | (Done (Inr v), sc2) \<Rightarrow>
               (case scope_control L ''COMMIT'' sc2 of
                  (Inl e, sc3) \<Rightarrow> (Done (Inl e), detach Rollback sc3)
                | (Inr _, sc3) \<Rightarrow> (Done (Inr v), sc3))
           | (Done (Inl err), sc2) \<Rightarrow>
               (case scope_control L ''ROLLBACK'' sc2 of
                  (Inl e, sc3) \<Rightarrow> (Done (Inl e), sc3)
                | (Inr _, sc3) \<Rightarrow> (Done (Inl err), sc3))))"

definition next_savepoint_name :: "'s scope \<Rightarrow> str \<times> 's scope" where
  "next_savepoint_name sc =
     (''babar_sp_'' @ show_nat (unat (sp_counter sc)), sc\<lparr>sp_counter := sp_counter sc + 1\<rparr>)"

definition rollback_savepoint :: "'s link \<Rightarrow> str \<Rightarrow> 's scope \<Rightarrow> unit result \<times> 's scope" where
  "rollback_savepoint L name =
     bindm (scope_control L (''ROLLBACK TO SAVEPOINT '' @ name)) (\<lambda>_.
       scope_control L (''RELEASE SAVEPOINT '' @ name))"

definition run_savepoint :: "'s link \<Rightarrow> ('s, 'a) body \<Rightarrow> ('s, 'a) body" where
  "run_savepoint L f sc =
     (let (name, sc0) = next_savepoint_name sc
      in case scope_control L (''SAVEPOINT '' @ name) sc0 of
           (Inl e, sc1) \<Rightarrow> (Done (Inl e), detach (RollbackSavepoint name) sc1)
         | (Inr _, sc1) \<Rightarrow>
             (case f sc1 of
                (Cancelled, sc2) \<Rightarrow> (Cancelled, detach (RollbackSavepoint name) sc2)
              | (Done (Inr v), sc2) \<Rightarrow>
                  (case scope_control L (''RELEASE SAVEPOINT '' @ name) sc2 of
                     (Inl e, sc3) \<Rightarrow> (Done (Inl e), detach (RollbackSavepoint name) sc3)
                   | (Inr _, sc3) \<Rightarrow> (Done (Inr v), sc3))
              | (Done (Inl err), sc2) \<Rightarrow>
                  (case rollback_savepoint L name sc2 of
                     (Inl e, sc3) \<Rightarrow> (Done (Inl e), detach (RollbackSavepoint name) sc3)
                   | (Inr _, sc3) \<Rightarrow> (Done (Inl err), sc3))))"

text \<open>A detached task; the results of its commands are ignored.\<close>

definition run_cleanup :: "'s link \<Rightarrow> cleanup_action \<Rightarrow> 's scope \<Rightarrow> 's scope" where
  "run_cleanup L action sc =
     (case action of
        Rollback \<Rightarrow> snd (scope_control L ''ROLLBACK'' sc)
      | RollbackSavepoint name \<Rightarrow>
          snd (scope_control L (''RELEASE SAVEPOINT '' @ name)
            (snd (scope_control L (''ROLLBACK TO SAVEPOINT '' @ name) sc))))"

text \<open>The runtime runs the detached tasks that have been scheduled, in the order of scheduling.\<close>

definition run_detached :: "'s link \<Rightarrow> 's scope \<Rightarrow> 's scope" where
  "run_detached L sc = fold (run_cleanup L) (sp_detached sc) (sc\<lparr>sp_detached := []\<rparr>)"

text \<open>Sequencing inside a body: an error or a cancellation ends it.\<close>

definition and_then :: "('s, 'a) body \<Rightarrow> ('a \<Rightarrow> ('s, 'b) body) \<Rightarrow> ('s, 'b) body" where
  "and_then m f sc =
     (case m sc of
        (Done (Inr a), sc1) \<Rightarrow> f a sc1
      | (Done (Inl e), sc1) \<Rightarrow> (Done (Inl e), sc1)
      | (Cancelled, sc1) \<Rightarrow> (Cancelled, sc1))"

section \<open>The server's rules\<close>

text \<open>
  The state of one connection as the PostgreSQL manual describes it: the committed data and, inside a
  transaction block, the data seen by the block, the savepoints (newest first) and whether the block
  has been aborted by an error.
\<close>

record 'd block =
  bk_data :: 'd
  bk_savepoints :: "(str \<times> 'd) list"
  bk_aborted :: bool

record 'd database =
  db_committed :: 'd
  db_block :: "'d block option"

datatype control = CBegin | CCommit | CRollback | CSavepoint str | CRelease str | CRollbackTo str

primrec control_sql :: "control \<Rightarrow> str" where
  "control_sql CBegin = ''BEGIN''"
| "control_sql CCommit = ''COMMIT''"
| "control_sql CRollback = ''ROLLBACK''"
| "control_sql (CSavepoint n) = ''SAVEPOINT '' @ n"
| "control_sql (CRelease n) = ''RELEASE SAVEPOINT '' @ n"
| "control_sql (CRollbackTo n) = ''ROLLBACK TO SAVEPOINT '' @ n"

text \<open>The savepoints from the newest one of that name on, \<^const>\<open>None\<close> when there is none.\<close>

fun from_savepoint :: "str \<Rightarrow> (str \<times> 'd) list \<Rightarrow> ('d \<times> (str \<times> 'd) list) option" where
  "from_savepoint n [] = None"
| "from_savepoint n ((m, d) # sps) = (if n = m then Some (d, sps) else from_savepoint n sps)"

definition abort_block :: "'d block \<Rightarrow> 'd database \<Rightarrow> bool \<times> 'd database" where
  "abort_block b db = (False, db\<lparr>db_block := Some (b\<lparr>bk_aborted := True\<rparr>)\<rparr>)"

fun pg_control :: "control \<Rightarrow> 'd database \<Rightarrow> bool \<times> 'd database" where
  "pg_control CBegin db =
     (case db_block db of
        None \<Rightarrow> (True, db\<lparr>db_block := Some \<lparr>bk_data = db_committed db, bk_savepoints = [], bk_aborted = False\<rparr>\<rparr>)
      | Some b \<Rightarrow> (\<not> bk_aborted b, db))"
| "pg_control CCommit db =
     (case db_block db of
        None \<Rightarrow> (True, db)
      | Some b \<Rightarrow>
          (True, db\<lparr>db_committed := if bk_aborted b then db_committed db else bk_data b, db_block := None\<rparr>))"
| "pg_control CRollback db = (True, db\<lparr>db_block := None\<rparr>)"
| "pg_control (CSavepoint n) db =
     (case db_block db of
        None \<Rightarrow> (False, db)
      | Some b \<Rightarrow>
          if bk_aborted b then (False, db)
          else (True, db\<lparr>db_block := Some (b\<lparr>bk_savepoints := (n, bk_data b) # bk_savepoints b\<rparr>)\<rparr>))"
| "pg_control (CRelease n) db =
     (case db_block db of
        None \<Rightarrow> (False, db)
      | Some b \<Rightarrow>
          if bk_aborted b then (False, db)
          else (case from_savepoint n (bk_savepoints b) of
                  None \<Rightarrow> abort_block b db
                | Some (d, sps) \<Rightarrow> (True, db\<lparr>db_block := Some (b\<lparr>bk_savepoints := sps\<rparr>)\<rparr>)))"
| "pg_control (CRollbackTo n) db =
     (case db_block db of
        None \<Rightarrow> (False, db)
      | Some b \<Rightarrow>
          (case from_savepoint n (bk_savepoints b) of
             None \<Rightarrow> abort_block b db
           | Some (d, sps) \<Rightarrow>
               (True, db\<lparr>db_block := Some \<lparr>bk_data = d, bk_savepoints = (n, d) # sps, bk_aborted = False\<rparr>\<rparr>)))"

text \<open>
  A link to such a server: every control command is answered, with an error exactly when the rules
  demand one.
\<close>

definition pg_link :: "'s link \<Rightarrow> ('s \<Rightarrow> 'd database) \<Rightarrow> bool" where
  "pg_link L db =
     (\<forall>c s. \<exists>r s'. lk_extended L (control_sql c) [] [] [] None s = (Some r, s')
        \<and> (\<not> isl r, db s') = pg_control c (db s))"

abbreviation scope_db :: "('s \<Rightarrow> 'd database) \<Rightarrow> 's scope \<Rightarrow> 'd database" where
  "scope_db db sc \<equiv> db (se_link (sp_session sc))"

lemma scope_control_pg:
  assumes "pg_link L db" and "sql = control_sql c"
  obtains r sc' where "scope_control L sql sc = (r, sc')" and "\<not> isl r \<longleftrightarrow> fst (pg_control c (scope_db db sc))"
    and "scope_db db sc' = snd (pg_control c (scope_db db sc))" and "sp_detached sc' = sp_detached sc"
    and "sp_counter sc' = sp_counter sc"
proof -
  from assms obtain r s' where "lk_extended L sql [] [] [] None (se_link (sp_session sc)) = (Some r, s')"
    "(\<not> isl r, db s') = pg_control c (scope_db db sc)"
    unfolding pg_link_def by blast
  then have "scope_control L sql sc =
    (map_sum id (\<lambda>_. ()) r, sc\<lparr>sp_session := (sp_session sc)\<lparr>se_link := s'\<rparr>\<rparr>)"
    by (cases r) (simp_all add: scope_control_def run_control_command_def call_def reply_result_def bindm_def ret_def)
  with \<open>(\<not> isl r, db s') = pg_control c (scope_db db sc)\<close> that show thesis
    by (cases r) (simp_all add: prod_eq_iff)
qed

section \<open>Scoped bodies\<close>

definition savepoint_name :: "nat \<Rightarrow> str" where
  "savepoint_name i = ''babar_sp_'' @ show_nat i"

text \<open>
  What a scope may expect of its body: it neither ends the block nor removes savepoints of enclosing
  scopes, and the savepoints it leaves behind have names that were drawn during the body, at most \<open>k\<close>
  of them. What it does to the data of the block is up to the body.
\<close>

definition drawn :: "nat \<Rightarrow> nat \<Rightarrow> (str \<times> 'd) list \<Rightarrow> bool" where
  "drawn lo hi extra = (\<forall>n \<in> fst ` set extra. \<exists>i. lo \<le> i \<and> i < hi \<and> n = savepoint_name i)"

definition scoped_run :: "('s \<Rightarrow> 'd database) \<Rightarrow> nat \<Rightarrow> 's scope \<Rightarrow> 's scope \<Rightarrow> bool" where
  "scoped_run db k sc sc' =
     (unat (sp_counter sc) \<le> unat (sp_counter sc') \<and> unat (sp_counter sc') \<le> unat (sp_counter sc) + k
      \<and> (\<forall>b. db_block (scope_db db sc) = Some b \<longrightarrow>
           (\<exists>b' extra. scope_db db sc' = (scope_db db sc)\<lparr>db_block := Some b'\<rparr>
             \<and> bk_savepoints b' = extra @ bk_savepoints b
             \<and> drawn (unat (sp_counter sc)) (unat (sp_counter sc')) extra)))"

definition scoped :: "('s \<Rightarrow> 'd database) \<Rightarrow> nat \<Rightarrow> ('s, 'a) body \<Rightarrow> bool" where
  "scoped db k f = (\<forall>sc. unat (sp_counter sc) + k < 2 ^ 64 \<longrightarrow> scoped_run db k sc (snd (f sc)))"

lemma savepoint_name_inj [simp]: "savepoint_name i = savepoint_name j \<longleftrightarrow> i = j"
proof
  assume "savepoint_name i = savepoint_name j"
  then have "show_nat i = show_nat j" by (simp add: savepoint_name_def)
  then have "from_str_radix False 0 (int (max i j)) 10 (show_nat i) = from_str_radix False 0 (int (max i j)) 10 (show_nat j)"
    by simp
  then show "i = j" by (simp add: from_str_radix_show_nat)
qed simp

lemma from_savepoint_drawn:
  "drawn lo hi extra \<Longrightarrow> i < lo \<or> hi \<le> i \<Longrightarrow>
   from_savepoint (savepoint_name i) (extra @ (savepoint_name i, d) # sps) = Some (d, sps)"
  by (induction extra) (auto simp: drawn_def)

lemma drawn_append: "drawn lo m xs \<Longrightarrow> drawn m hi ys \<Longrightarrow> lo \<le> m \<Longrightarrow> m \<le> hi \<Longrightarrow> drawn lo hi (ys @ xs)"
  unfolding drawn_def by (force dest: bspec)

lemma scoped_runE:
  assumes "scoped_run db k sc sc'" and "db_block (scope_db db sc) = Some b"
  obtains b' extra where "scope_db db sc' = (scope_db db sc)\<lparr>db_block := Some b'\<rparr>"
    and "bk_savepoints b' = extra @ bk_savepoints b"
    and "drawn (unat (sp_counter sc)) (unat (sp_counter sc')) extra"
  using assms unfolding scoped_run_def by blast

lemma scoped_run_counter:
  "scoped_run db k sc sc' \<Longrightarrow> unat (sp_counter sc) \<le> unat (sp_counter sc') \<and> unat (sp_counter sc') \<le> unat (sp_counter sc) + k"
  by (simp add: scoped_run_def)

lemma scoped_run_trans:
  assumes "scoped_run db k sc sc1" and "scoped_run db k' sc1 sc2"
  shows "scoped_run db (k + k') sc sc2"
proof -
  note counters = scoped_run_counter [OF assms(1)] scoped_run_counter [OF assms(2)]
  have "\<exists>b' extra. scope_db db sc2 = (scope_db db sc)\<lparr>db_block := Some b'\<rparr>
      \<and> bk_savepoints b' = extra @ bk_savepoints b
      \<and> drawn (unat (sp_counter sc)) (unat (sp_counter sc2)) extra"
    if b: "db_block (scope_db db sc) = Some b" for b
  proof -
    from scoped_runE [OF assms(1) b] obtain b1 e1 where 1: "scope_db db sc1 = (scope_db db sc)\<lparr>db_block := Some b1\<rparr>"
      "bk_savepoints b1 = e1 @ bk_savepoints b" "drawn (unat (sp_counter sc)) (unat (sp_counter sc1)) e1" .
    from 1(1) have "db_block (scope_db db sc1) = Some b1" by simp
    from scoped_runE [OF assms(2) this] obtain b2 e2 where 2: "scope_db db sc2 = (scope_db db sc1)\<lparr>db_block := Some b2\<rparr>"
      "bk_savepoints b2 = e2 @ bk_savepoints b1" "drawn (unat (sp_counter sc1)) (unat (sp_counter sc2)) e2" .
    from drawn_append [OF 1(3) 2(3)] counters 1 2 show ?thesis
      by (intro exI [of _ b2] exI [of _ "e2 @ e1"]) simp
  qed
  with counters show ?thesis unfolding scoped_run_def by auto
qed

lemma scoped_run_mono: "scoped_run db k sc sc1 \<Longrightarrow> k \<le> k' \<Longrightarrow> scoped_run db k' sc sc1"
  unfolding scoped_run_def by auto

lemma block_self: "db_block D = Some b \<Longrightarrow> D\<lparr>db_block := Some b\<rparr> = D"
  by (cases D) simp

lemma scopedD:
  "scoped db k f \<Longrightarrow> f sc = (r, sc') \<Longrightarrow> unat (sp_counter sc) + k < 2 ^ 64 \<Longrightarrow> scoped_run db k sc sc'"
  unfolding scoped_def by (metis snd_conv)

lemma scoped_and_then:
  fixes m :: "('s, 'a) body"
  assumes "scoped db k m" and "\<And>a. scoped db k' (f a)"
  shows "scoped db (k + k') (and_then m f)"
  unfolding scoped_def
proof (intro allI impI)
  fix sc :: "'s scope" assume c: "unat (sp_counter sc) + (k + k') < 2 ^ 64"
  obtain r sc1 where m: "m sc = (r, sc1)" by fastforce
  from c have 1: "scoped_run db k sc sc1" by (intro scopedD [OF assms(1) m]) simp
  with scoped_run_counter [OF 1] c have "unat (sp_counter sc1) + k' < 2 ^ 64" by simp
  with assms(2) have 2: "scoped_run db k' sc1 (snd (f a sc1))" for a by (simp add: scoped_def)
  show "scoped_run db (k + k') sc (snd (and_then m f sc))"
    using scoped_run_trans [OF 1 2] scoped_run_mono [OF 1, of "k + k'"]
    by (auto simp: and_then_def m split: run.split sum.split)
qed

section \<open>Atomicity\<close>

lemma next_savepoint_name_eq:
  "next_savepoint_name sc = (savepoint_name (unat (sp_counter sc)), sc\<lparr>sp_counter := sp_counter sc + 1\<rparr>)"
  by (simp add: next_savepoint_name_def savepoint_name_def)

lemma counter_step: "unat (c :: u64) + Suc k < 2 ^ 64 \<Longrightarrow> unat (c + 1) = Suc (unat c)"
  by (simp add: unat_word_ariths)

text \<open>
  The scope of a savepoint after its body, with the name drawn for it. \<open>sc1\<close> is the state in which the
  body starts.
\<close>

lemma savepoint_entered:
  assumes "pg_link L db" and "db_block (scope_db db sc) = Some b" and "\<not> bk_aborted b"
    and "unat (sp_counter sc) + Suc k < 2 ^ 64" and "scoped db k f"
  obtains sc1 u where "scope_control L (''SAVEPOINT '' @ savepoint_name (unat (sp_counter sc)))
      (sc\<lparr>sp_counter := sp_counter sc + 1\<rparr>) = (Inr u, sc1)"
    and "scope_db db sc1 = (scope_db db sc)\<lparr>db_block :=
      Some (b\<lparr>bk_savepoints := (savepoint_name (unat (sp_counter sc)), bk_data b) # bk_savepoints b\<rparr>)\<rparr>"
    and "unat (sp_counter sc1) = Suc (unat (sp_counter sc))" and "sp_detached sc1 = sp_detached sc"
    and "scoped_run db k sc1 (snd (f sc1))"
proof -
  let ?sc0 = "sc\<lparr>sp_counter := sp_counter sc + 1\<rparr>" and ?n = "savepoint_name (unat (sp_counter sc))"
  obtain r sc1 where r: "scope_control L (''SAVEPOINT '' @ ?n) ?sc0 = (r, sc1)"
    "\<not> isl r \<longleftrightarrow> fst (pg_control (CSavepoint ?n) (scope_db db ?sc0))"
    "scope_db db sc1 = snd (pg_control (CSavepoint ?n) (scope_db db ?sc0))" "sp_detached sc1 = sp_detached ?sc0"
    "sp_counter sc1 = sp_counter ?sc0"
    by (rule scope_control_pg [OF assms(1), of "''SAVEPOINT '' @ ?n" "CSavepoint ?n" ?sc0]) simp_all
  from r(2) assms(2,3) obtain u where "r = Inr u" by (cases r) auto
  moreover from r(5) counter_step [OF assms(4)] have c: "unat (sp_counter sc1) = Suc (unat (sp_counter sc))" by simp
  moreover from assms(5) c assms(4) have "scoped_run db k sc1 (snd (f sc1))" by (simp add: scoped_def)
  ultimately show thesis
    using that r assms(2,3) by simp
qed

lemma undo_savepoint:
  assumes "pg_link L db" and "scope_db db sc2 = D\<lparr>db_block := Some b2\<rparr>"
    and "bk_savepoints b2 = extra @ (savepoint_name i, d) # sps" and "drawn lo hi extra" and "i < lo"
  obtains sc3 sc4 where
    "scope_control L (''ROLLBACK TO SAVEPOINT '' @ savepoint_name i) sc2 = (Inr (), sc3)"
    and "scope_control L (''RELEASE SAVEPOINT '' @ savepoint_name i) sc3 = (Inr (), sc4)"
    and "scope_db db sc4 = D\<lparr>db_block := Some \<lparr>bk_data = d, bk_savepoints = sps, bk_aborted = False\<rparr>\<rparr>"
    and "sp_detached sc4 = sp_detached sc2" and "sp_counter sc4 = sp_counter sc2"
proof -
  let ?n = "savepoint_name i"
  from assms(3-5) have found: "from_savepoint ?n (bk_savepoints b2) = Some (d, sps)"
    by (simp add: from_savepoint_drawn)
  obtain r sc3 where r: "scope_control L (''ROLLBACK TO SAVEPOINT '' @ ?n) sc2 = (r, sc3)"
    "\<not> isl r \<longleftrightarrow> fst (pg_control (CRollbackTo ?n) (scope_db db sc2))"
    "scope_db db sc3 = snd (pg_control (CRollbackTo ?n) (scope_db db sc2))" "sp_detached sc3 = sp_detached sc2"
    "sp_counter sc3 = sp_counter sc2"
    by (rule scope_control_pg [OF assms(1), of "''ROLLBACK TO SAVEPOINT '' @ ?n" "CRollbackTo ?n" sc2]) simp_all
  from r(2,3) found assms(2) have sc3: "r = Inr ()"
    "scope_db db sc3 = D\<lparr>db_block := Some \<lparr>bk_data = d, bk_savepoints = (?n, d) # sps, bk_aborted = False\<rparr>\<rparr>"
    by (cases r; simp)+
  obtain r' sc4 where r': "scope_control L (''RELEASE SAVEPOINT '' @ ?n) sc3 = (r', sc4)"
    "\<not> isl r' \<longleftrightarrow> fst (pg_control (CRelease ?n) (scope_db db sc3))"
    "scope_db db sc4 = snd (pg_control (CRelease ?n) (scope_db db sc3))" "sp_detached sc4 = sp_detached sc3"
    "sp_counter sc4 = sp_counter sc3"
    by (rule scope_control_pg [OF assms(1), of "''RELEASE SAVEPOINT '' @ ?n" "CRelease ?n" sc3]) simp_all
  from r'(2,3) sc3(2) have "r' = Inr ()"
    "scope_db db sc4 = D\<lparr>db_block := Some \<lparr>bk_data = d, bk_savepoints = sps, bk_aborted = False\<rparr>\<rparr>"
    by (cases r'; simp)+
  with r r' sc3 that show thesis by simp
qed

lemma release_savepoint:
  assumes "pg_link L db" and "scope_db db sc2 = D\<lparr>db_block := Some b2\<rparr>"
    and "bk_savepoints b2 = extra @ (savepoint_name i, d) # sps" and "drawn lo hi extra" and "i < lo"
  obtains r sc3 where "scope_control L (''RELEASE SAVEPOINT '' @ savepoint_name i) sc2 = (r, sc3)"
    and "isl r \<longleftrightarrow> bk_aborted b2"
    and "scope_db db sc3 = D\<lparr>db_block := Some (if bk_aborted b2 then b2 else b2\<lparr>bk_savepoints := sps\<rparr>)\<rparr>"
    and "sp_detached sc3 = sp_detached sc2" and "sp_counter sc3 = sp_counter sc2"
proof -
  let ?n = "savepoint_name i"
  from assms(3-5) have found: "from_savepoint ?n (bk_savepoints b2) = Some (d, sps)"
    by (simp add: from_savepoint_drawn)
  obtain r sc3 where r: "scope_control L (''RELEASE SAVEPOINT '' @ ?n) sc2 = (r, sc3)"
    "\<not> isl r \<longleftrightarrow> fst (pg_control (CRelease ?n) (scope_db db sc2))"
    "scope_db db sc3 = snd (pg_control (CRelease ?n) (scope_db db sc2))" "sp_detached sc3 = sp_detached sc2"
    "sp_counter sc3 = sp_counter sc2"
    by (rule scope_control_pg [OF assms(1), of "''RELEASE SAVEPOINT '' @ ?n" "CRelease ?n" sc2]) simp_all
  with found assms(2) that show thesis by (auto split: if_splits)
qed

lemma scoped_runI:
  assumes "db_block (scope_db db sc) = Some b" and "scope_db db sc' = (scope_db db sc)\<lparr>db_block := Some b'\<rparr>"
    and "bk_savepoints b' = extra @ bk_savepoints b" and "drawn (unat (sp_counter sc)) (unat (sp_counter sc')) extra"
    and "unat (sp_counter sc) \<le> unat (sp_counter sc')" and "unat (sp_counter sc') \<le> unat (sp_counter sc) + k"
  shows "scoped_run db k sc sc'"
  using assms unfolding scoped_run_def by auto

lemma run_cleanup_savepoint:
  assumes "scope_control L (''ROLLBACK TO SAVEPOINT '' @ n) sc = (u, sc1)"
    and "scope_control L (''RELEASE SAVEPOINT '' @ n) sc1 = (v, sc2)"
  shows "run_cleanup L (RollbackSavepoint n) sc = sc2"
  using assms by (simp add: run_cleanup_def)

text \<open>
  The outcomes of a savepoint scope entered in a block \<open>b\<close> that is not aborted; \<open>D\<close> is the state of
  the database on entry. Whenever the scope does not succeed the database is as on entry, at once or
  after the clean-up task that has been scheduled.
\<close>

definition restores :: "'s link \<Rightarrow> ('s \<Rightarrow> 'd database) \<Rightarrow> str \<Rightarrow> 'd database \<Rightarrow> 's scope \<Rightarrow> bool" where
  "restores L db n D sc' =
     (\<exists>before. sp_detached sc' = before @ [RollbackSavepoint n]
        \<and> scope_db db (run_cleanup L (RollbackSavepoint n) sc') = D)"

lemma restoresI:
  assumes "pg_link L db" and "scope_db db sc2 = D\<lparr>db_block := Some b2\<rparr>" and "db_block D = Some b" and "\<not> bk_aborted b"
    and "bk_savepoints b2 = extra @ (savepoint_name i, bk_data b) # bk_savepoints b" and "drawn lo hi extra" and "i < lo"
  shows "restores L db (savepoint_name i) D (detach (RollbackSavepoint (savepoint_name i)) sc2)"
proof -
  let ?sc = "detach (RollbackSavepoint (savepoint_name i)) sc2"
  from assms(2) have db: "scope_db db ?sc = D\<lparr>db_block := Some b2\<rparr>" by (simp add: detach_def)
  obtain sc3 sc4 where run: "scope_control L (''ROLLBACK TO SAVEPOINT '' @ savepoint_name i) ?sc = (Inr (), sc3)"
    "scope_control L (''RELEASE SAVEPOINT '' @ savepoint_name i) sc3 = (Inr (), sc4)"
    and "scope_db db sc4 = D\<lparr>db_block := Some \<lparr>bk_data = bk_data b, bk_savepoints = bk_savepoints b, bk_aborted = False\<rparr>\<rparr>"
    by (rule undo_savepoint [OF assms(1) db assms(5-7)])
  moreover have "\<lparr>bk_data = bk_data b, bk_savepoints = bk_savepoints b, bk_aborted = False\<rparr> = b"
    using assms(4) by (cases b) simp
  ultimately show ?thesis
    using assms(3) unfolding restores_def run_cleanup_savepoint [OF run]
    by (cases D) (simp add: detach_def)
qed

text \<open>
  The state \<open>sc2\<close> after the body of a savepoint scope entered in \<open>sc\<close>: the savepoint is still there,
  below those the body has left.
\<close>

definition after_body :: "('s \<Rightarrow> 'd database) \<Rightarrow> nat \<Rightarrow> 's scope \<Rightarrow> 'd block \<Rightarrow> 's scope \<Rightarrow> 'd block \<Rightarrow> bool" where
  "after_body db k sc b sc2 b2 =
     (scope_db db sc2 = (scope_db db sc)\<lparr>db_block := Some b2\<rparr>
      \<and> Suc (unat (sp_counter sc)) \<le> unat (sp_counter sc2) \<and> unat (sp_counter sc2) \<le> unat (sp_counter sc) + Suc k
      \<and> (\<exists>extra. bk_savepoints b2 = extra @ (savepoint_name (unat (sp_counter sc)), bk_data b) # bk_savepoints b
           \<and> drawn (Suc (unat (sp_counter sc))) (unat (sp_counter sc2)) extra))"

lemma after_body_left:
  assumes "pg_link L db" and b: "db_block (scope_db db sc) = Some b" "\<not> bk_aborted b" and "after_body db k sc b sc2 b2"
    and n: "n = savepoint_name (unat (sp_counter sc))"
  shows "scoped_run db (Suc k) sc (detach (RollbackSavepoint n) sc2)
    \<and> restores L db n (scope_db db sc) (detach (RollbackSavepoint n) sc2)"
proof -
  let ?i = "unat (sp_counter sc)"
  from assms(4) obtain extra where sc2: "scope_db db sc2 = (scope_db db sc)\<lparr>db_block := Some b2\<rparr>"
    and sps: "bk_savepoints b2 = extra @ (savepoint_name ?i, bk_data b) # bk_savepoints b"
    and drawn: "drawn (Suc ?i) (unat (sp_counter sc2)) extra"
    and counter: "Suc ?i \<le> unat (sp_counter sc2)" "unat (sp_counter sc2) \<le> ?i + Suc k"
    by (auto simp: after_body_def)
  from drawn counter have "drawn ?i (unat (sp_counter sc2)) (extra @ [(savepoint_name ?i, bk_data b)])"
    by (auto simp: drawn_def dest: Suc_leD)
  with sps counter sc2 have "scoped_run db (Suc k) sc (detach (RollbackSavepoint n) sc2)"
    using b(1) by (intro scoped_runI [where db = db and b = b and b' = b2 and extra = "extra @ [(savepoint_name ?i, bk_data b)]"])
      (simp_all add: detach_def)
  with restoresI [OF assms(1) sc2 b sps drawn lessI] show ?thesis by (simp add: n)
qed

lemma after_body_rollback:
  assumes "pg_link L db" and b: "db_block (scope_db db sc) = Some b" "\<not> bk_aborted b" and "after_body db k sc b sc2 b2"
  obtains sc4 where "rollback_savepoint L (savepoint_name (unat (sp_counter sc))) sc2 = (Inr (), sc4)"
    and "scope_db db sc4 = scope_db db sc" and "scoped_run db (Suc k) sc sc4"
proof -
  let ?i = "unat (sp_counter sc)" and ?D = "scope_db db sc"
  from assms(4) obtain extra where sc2: "scope_db db sc2 = ?D\<lparr>db_block := Some b2\<rparr>"
    and sps: "bk_savepoints b2 = extra @ (savepoint_name ?i, bk_data b) # bk_savepoints b"
    and drawn: "drawn (Suc ?i) (unat (sp_counter sc2)) extra"
    and counter: "Suc ?i \<le> unat (sp_counter sc2)" "unat (sp_counter sc2) \<le> ?i + Suc k"
    by (auto simp: after_body_def)
  obtain sc3 sc4 where run: "scope_control L (''ROLLBACK TO SAVEPOINT '' @ savepoint_name ?i) sc2 = (Inr (), sc3)"
    "scope_control L (''RELEASE SAVEPOINT '' @ savepoint_name ?i) sc3 = (Inr (), sc4)"
    and sc4: "scope_db db sc4 = ?D\<lparr>db_block := Some \<lparr>bk_data = bk_data b, bk_savepoints = bk_savepoints b, bk_aborted = False\<rparr>\<rparr>"
    "sp_counter sc4 = sp_counter sc2"
    by (rule undo_savepoint [OF assms(1) sc2 sps drawn lessI])
  have "scope_db db sc4 = ?D" unfolding sc4(1) using b by (cases ?D; cases b) simp
  moreover have "scoped_run db (Suc k) sc sc4"
    by (rule scoped_runI [OF b(1) sc4(1), of "[]"]) (use counter sc4(2) in \<open>simp_all add: drawn_def\<close>)
  ultimately show thesis
    using that run by (simp add: rollback_savepoint_def bindm_def)
qed

lemma after_body_release:
  assumes "pg_link L db" and b: "db_block (scope_db db sc) = Some b" and "after_body db k sc b sc2 b2"
  obtains e sc3 where "scope_control L (''RELEASE SAVEPOINT '' @ savepoint_name (unat (sp_counter sc))) sc2 = (Inl e, sc3)"
    and "after_body db k sc b sc3 b2"
  | sc3 where "scope_control L (''RELEASE SAVEPOINT '' @ savepoint_name (unat (sp_counter sc))) sc2 = (Inr (), sc3)"
    and "\<not> bk_aborted b2" and "scope_db db sc3 = (scope_db db sc)\<lparr>db_block := Some (b2\<lparr>bk_savepoints := bk_savepoints b\<rparr>)\<rparr>"
    and "scoped_run db (Suc k) sc sc3"
proof -
  let ?i = "unat (sp_counter sc)" and ?D = "scope_db db sc"
  from assms(3) obtain extra where sc2: "scope_db db sc2 = ?D\<lparr>db_block := Some b2\<rparr>"
    and sps: "bk_savepoints b2 = extra @ (savepoint_name ?i, bk_data b) # bk_savepoints b"
    and drawn: "drawn (Suc ?i) (unat (sp_counter sc2)) extra"
    and counter: "Suc ?i \<le> unat (sp_counter sc2)" "unat (sp_counter sc2) \<le> ?i + Suc k"
    by (auto simp: after_body_def)
  obtain r sc3 where r: "scope_control L (''RELEASE SAVEPOINT '' @ savepoint_name ?i) sc2 = (r, sc3)"
    "isl r \<longleftrightarrow> bk_aborted b2"
    and sc3: "scope_db db sc3 = ?D\<lparr>db_block := Some (if bk_aborted b2 then b2 else b2\<lparr>bk_savepoints := bk_savepoints b\<rparr>)\<rparr>"
    "sp_counter sc3 = sp_counter sc2"
    by (rule release_savepoint [OF assms(1) sc2 sps drawn lessI])
  show thesis
  proof (cases r)
    case (Inl e)
    with r sc3 sps drawn counter have "after_body db k sc b sc3 b2" by (auto simp: after_body_def)
    with that(1) r(1) Inl show thesis by simp
  next
    case (Inr u)
    with r(2) have "\<not> bk_aborted b2" by simp
    with sc3 have db3: "scope_db db sc3 = ?D\<lparr>db_block := Some (b2\<lparr>bk_savepoints := bk_savepoints b\<rparr>)\<rparr>" by simp
    have "scoped_run db (Suc k) sc sc3"
      by (rule scoped_runI [OF b db3, of "[]"]) (use counter sc3(2) in \<open>simp_all add: drawn_def\<close>)
    with that(2) r Inr db3 \<open>\<not> bk_aborted b2\<close> show thesis by simp
  qed
qed

lemma savepoint_body:
  assumes "pg_link L db" and "scoped db k f" and b: "db_block (scope_db db sc) = Some b" "\<not> bk_aborted b"
    and "unat (sp_counter sc) + Suc k < 2 ^ 64"
  obtains sc1 u r sc2 b2 where "scope_control L (''SAVEPOINT '' @ savepoint_name (unat (sp_counter sc)))
      (sc\<lparr>sp_counter := sp_counter sc + 1\<rparr>) = (Inr u, sc1)"
    and "scope_db db sc1 = (scope_db db sc)\<lparr>db_block :=
      Some (b\<lparr>bk_savepoints := (savepoint_name (unat (sp_counter sc)), bk_data b) # bk_savepoints b\<rparr>)\<rparr>"
    and "f sc1 = (r, sc2)" and "after_body db k sc b sc2 b2"
proof -
  let ?i = "unat (sp_counter sc)"
  obtain sc1 u where enter: "scope_control L (''SAVEPOINT '' @ savepoint_name ?i) (sc\<lparr>sp_counter := sp_counter sc + 1\<rparr>) = (Inr u, sc1)"
    and sc1: "scope_db db sc1 = (scope_db db sc)\<lparr>db_block := Some (b\<lparr>bk_savepoints := (savepoint_name ?i, bk_data b) # bk_savepoints b\<rparr>)\<rparr>"
    "unat (sp_counter sc1) = Suc ?i"
    and body: "scoped_run db k sc1 (snd (f sc1))"
    by (rule savepoint_entered [OF assms(1) b assms(5,2)])
  from scoped_runE [OF body, of "b\<lparr>bk_savepoints := (savepoint_name ?i, bk_data b) # bk_savepoints b\<rparr>"] sc1(1)
  obtain b2 extra where "scope_db db (snd (f sc1)) = (scope_db db sc1)\<lparr>db_block := Some b2\<rparr>"
    "bk_savepoints b2 = extra @ (savepoint_name ?i, bk_data b) # bk_savepoints b"
    "drawn (unat (sp_counter sc1)) (unat (sp_counter (snd (f sc1)))) extra" by auto
  with sc1 scoped_run_counter [OF body] have "after_body db k sc b (snd (f sc1)) b2"
    by (simp add: after_body_def)
  with that enter sc1(1) show thesis by (metis prod.collapse)
qed

lemma run_savepoint_cases:
  assumes "pg_link L db" and "scoped db k f" and b: "db_block (scope_db db sc) = Some b" "\<not> bk_aborted b"
    and "unat (sp_counter sc) + Suc k < 2 ^ 64" and run: "run_savepoint L f sc = (r, sc')"
  shows "scoped_run db (Suc k) sc sc'
    \<and> (case r of
        Done (Inr v) \<Rightarrow> (\<exists>sc1 sc2 b2. scope_db db sc1 = (scope_db db sc)\<lparr>db_block :=
             Some (b\<lparr>bk_savepoints := (savepoint_name (unat (sp_counter sc)), bk_data b) # bk_savepoints b\<rparr>)\<rparr>
           \<and> f sc1 = (Done (Inr v), sc2) \<and> db_block (scope_db db sc2) = Some b2 \<and> \<not> bk_aborted b2
           \<and> scope_db db sc' = (scope_db db sc)\<lparr>db_block := Some (b2\<lparr>bk_savepoints := bk_savepoints b\<rparr>)\<rparr>)
      | Done (Inl e) \<Rightarrow> scope_db db sc' = scope_db db sc
           \<or> restores L db (savepoint_name (unat (sp_counter sc))) (scope_db db sc) sc'
      | Cancelled \<Rightarrow> restores L db (savepoint_name (unat (sp_counter sc))) (scope_db db sc) sc')"
proof -
  obtain sc1 u rb sc2 b2 where enter: "scope_control L (''SAVEPOINT '' @ savepoint_name (unat (sp_counter sc)))
      (sc\<lparr>sp_counter := sp_counter sc + 1\<rparr>) = (Inr u, sc1)"
    and sc1: "scope_db db sc1 = (scope_db db sc)\<lparr>db_block :=
      Some (b\<lparr>bk_savepoints := (savepoint_name (unat (sp_counter sc)), bk_data b) # bk_savepoints b\<rparr>)\<rparr>"
    and f: "f sc1 = (rb, sc2)" and after: "after_body db k sc b sc2 b2"
    by (rule savepoint_body [OF assms(1,2) b assms(5)])
  note simps = run_savepoint_def next_savepoint_name_eq enter f
  consider "rb = Cancelled" | e where "rb = Done (Inl e)" | v where "rb = Done (Inr v)"
    by (cases rb rule: run.exhaust; metis old.sum.exhaust)
  then show ?thesis
  proof cases
    case 1
    with run after_body_left [OF assms(1) b after refl] show ?thesis by (auto simp: simps simp del: append_Cons append_Nil)
  next
    case 2
    obtain sc4 where "rollback_savepoint L (savepoint_name (unat (sp_counter sc))) sc2 = (Inr (), sc4)"
      "scope_db db sc4 = scope_db db sc" "scoped_run db (Suc k) sc sc4"
      by (rule after_body_rollback [OF assms(1) b after])
    with 2 run show ?thesis by (auto simp: simps simp del: append_Cons append_Nil)
  next
    case 3
    from assms(1) b(1) after show ?thesis
    proof (cases rule: after_body_release)
      case 1
      with run \<open>rb = Done (Inr v)\<close> after_body_left [OF assms(1) b 1(2) refl] show ?thesis by (auto simp: simps simp del: append_Cons append_Nil)
    next
      case (2 sc3)
      with run \<open>rb = Done (Inr v)\<close> have r: "r = Done (Inr v)" "sc' = sc3"
        by (simp_all add: simps del: append_Cons append_Nil)
      from after have "db_block (scope_db db sc2) = Some b2" by (simp add: after_body_def)
      with f \<open>rb = Done (Inr v)\<close> sc1 2(2-4) show ?thesis unfolding r run.case sum.case by blast
    qed
  qed
qed

lemma run_savepoint_refused:
  assumes "pg_link L db" and "unat (sp_counter sc) + Suc k < 2 ^ 64"
    and no: "\<And>b. db_block (scope_db db sc) = Some b \<Longrightarrow> bk_aborted b"
  shows "scoped_run db (Suc k) sc (snd (run_savepoint L f sc))"
proof -
  let ?n = "savepoint_name (unat (sp_counter sc))" and ?sc0 = "sc\<lparr>sp_counter := sp_counter sc + 1\<rparr>"
  obtain r sc1 where r: "scope_control L (''SAVEPOINT '' @ ?n) ?sc0 = (r, sc1)"
    "\<not> isl r \<longleftrightarrow> fst (pg_control (CSavepoint ?n) (scope_db db ?sc0))"
    "scope_db db sc1 = snd (pg_control (CSavepoint ?n) (scope_db db ?sc0))" "sp_counter sc1 = sp_counter ?sc0"
    by (rule scope_control_pg [OF assms(1), of "''SAVEPOINT '' @ ?n" "CSavepoint ?n" ?sc0]) simp_all
  from no have "pg_control (CSavepoint ?n) (scope_db db ?sc0) = (False, scope_db db sc)"
    by (auto split: option.split)
  with r obtain e where "r = Inl e" "scope_db db sc1 = scope_db db sc" by (cases r) auto
  with r(1) have "snd (run_savepoint L f sc) = detach (RollbackSavepoint ?n) sc1"
    by (simp add: run_savepoint_def next_savepoint_name_eq del: append_Cons append_Nil)
  moreover have "unat (sp_counter sc1) = Suc (unat (sp_counter sc))"
    using r(4) counter_step [OF assms(2)] by simp
  ultimately show ?thesis
    using \<open>scope_db db sc1 = scope_db db sc\<close> unfolding scoped_run_def
    by (auto simp: detach_def drawn_def block_self intro!: exI [of _ "[]"] exI [of _ "the (db_block (scope_db db sc))"])
qed

lemma scoped_run_savepoint:
  fixes f :: "('s, 'a) body"
  assumes "pg_link L db" and "scoped db k f"
  shows "scoped db (Suc k) (run_savepoint L f)"
  unfolding scoped_def
proof (intro allI impI)
  fix sc :: "'s scope" assume c: "unat (sp_counter sc) + Suc k < 2 ^ 64"
  show "scoped_run db (Suc k) sc (snd (run_savepoint L f sc))"
  proof (cases "\<exists>b. db_block (scope_db db sc) = Some b \<and> \<not> bk_aborted b")
    case True
    then show ?thesis using run_savepoint_cases [OF assms _ _ c, of _ "fst (run_savepoint L f sc)"] by fastforce
  next
    case False
    then show ?thesis using run_savepoint_refused [OF assms(1) c] by blast
  qed
qed

lemma transaction_cases:
  assumes "pg_link L db" and "scoped db k f" and idle: "db_block (scope_db db sc) = None"
    and "unat (sp_counter sc) + k < 2 ^ 64" and run: "transaction L f sc = (r, sc')"
  obtains sc1 sc2 rb b2 where "scope_db db sc1 =
      (scope_db db sc)\<lparr>db_block := Some \<lparr>bk_data = db_committed (scope_db db sc), bk_savepoints = [], bk_aborted = False\<rparr>\<rparr>"
    and "f sc1 = (rb, sc2)" and "scope_db db sc2 = (scope_db db sc)\<lparr>db_block := Some b2\<rparr>"
    and "case rb of
        Done (Inr v) \<Rightarrow> r = Done (Inr v) \<and> scope_db db sc' = (scope_db db sc)\<lparr>db_committed :=
          if bk_aborted b2 then db_committed (scope_db db sc) else bk_data b2\<rparr>
      | Done (Inl e) \<Rightarrow> r = Done (Inl e) \<and> scope_db db sc' = scope_db db sc
      | Cancelled \<Rightarrow> r = Cancelled \<and> sc' = detach Rollback sc2"
proof -
  let ?D = "scope_db db sc"
  obtain r1 sc1 where 1: "scope_control L ''BEGIN'' sc = (r1, sc1)" "\<not> isl r1 \<longleftrightarrow> fst (pg_control CBegin ?D)"
    "scope_db db sc1 = snd (pg_control CBegin ?D)" "sp_counter sc1 = sp_counter sc"
    by (rule scope_control_pg [OF assms(1), of "''BEGIN''" CBegin sc]) simp_all
  from 1(2,3) idle obtain u where u: "r1 = Inr u" and sc1: "scope_db db sc1 =
      ?D\<lparr>db_block := Some \<lparr>bk_data = db_committed ?D, bk_savepoints = [], bk_aborted = False\<rparr>\<rparr>"
    by (cases r1) auto
  obtain rb sc2 where f: "f sc1 = (rb, sc2)" by fastforce
  from scopedD [OF assms(2) f] 1(4) assms(4) have "scoped_run db k sc1 sc2" by simp
  from scoped_runE [OF this] sc1 obtain b2 where sc2: "scope_db db sc2 = ?D\<lparr>db_block := Some b2\<rparr>" by auto
  have idle_eq: "?D\<lparr>db_block := None\<rparr> = ?D" using idle by (cases ?D) simp
  obtain rc scc where c: "scope_control L ''COMMIT'' sc2 = (rc, scc)" "\<not> isl rc \<longleftrightarrow> fst (pg_control CCommit (scope_db db sc2))"
    "scope_db db scc = snd (pg_control CCommit (scope_db db sc2))"
    by (rule scope_control_pg [OF assms(1), of "''COMMIT''" CCommit sc2]) simp_all
  with sc2 idle have commit: "\<exists>v. rc = Inr v"
    "scope_db db scc = ?D\<lparr>db_committed := if bk_aborted b2 then db_committed ?D else bk_data b2\<rparr>"
    by (cases rc; simp)+
  obtain rr scr where r: "scope_control L ''ROLLBACK'' sc2 = (rr, scr)" "\<not> isl rr \<longleftrightarrow> fst (pg_control CRollback (scope_db db sc2))"
    "scope_db db scr = snd (pg_control CRollback (scope_db db sc2))"
    by (rule scope_control_pg [OF assms(1), of "''ROLLBACK''" CRollback sc2]) simp_all
  with sc2 idle_eq have rollback: "\<exists>v. rr = Inr v" "scope_db db scr = ?D" by (cases rr; simp)+
  show thesis
    using that [OF sc1 f sc2] run 1(1) u f c(1) commit r(1) rollback
    by (auto simp: transaction_def split: run.splits sum.splits)
qed

lemma rollback_restores:
  assumes "pg_link L db" and "db_block D = None" and "scope_db db sc2 = D\<lparr>db_block := Some b2\<rparr>"
  shows "scope_db db (run_cleanup L Rollback sc2) = D"
proof -
  obtain r sc3 where "scope_control L ''ROLLBACK'' sc2 = (r, sc3)" "scope_db db sc3 = snd (pg_control CRollback (scope_db db sc2))"
    by (rule scope_control_pg [OF assms(1), of "''ROLLBACK''" CRollback sc2]) simp_all
  with assms(2,3) show ?thesis by (cases D) (simp add: run_cleanup_def)
qed

section \<open>Claims\<close>



text \<open>A server whose data are the statements it has executed; the statement \<open>FAIL\<close> is an error.\<close>

definition control_of :: "str \<Rightarrow> control option" where
  "control_of sql =
     (if sql = ''BEGIN'' then Some CBegin
      else if sql = ''COMMIT'' then Some CCommit
      else if sql = ''ROLLBACK'' then Some CRollback
      else case strip_prefix ''SAVEPOINT '' sql of Some n \<Rightarrow> Some (CSavepoint n)
      | None \<Rightarrow> (case strip_prefix ''RELEASE SAVEPOINT '' sql of Some n \<Rightarrow> Some (CRelease n)
      | None \<Rightarrow> map_option CRollbackTo (strip_prefix ''ROLLBACK TO SAVEPOINT '' sql)))"

definition execute_sql :: "str \<Rightarrow> str list database \<Rightarrow> bool \<times> str list database" where
  "execute_sql sql D =
     (case control_of sql of
        Some c \<Rightarrow> pg_control c D
      | None \<Rightarrow>
          (case db_block D of
             None \<Rightarrow> if sql = ''FAIL'' then (False, D) else (True, D\<lparr>db_committed := db_committed D @ [sql]\<rparr>)
           | Some b \<Rightarrow>
               if bk_aborted b then (False, D)
               else if sql = ''FAIL'' then abort_block b D
               else (True, D\<lparr>db_block := Some (b\<lparr>bk_data := bk_data b @ [sql]\<rparr>)\<rparr>)))"

definition sql_link :: "str list database link" where
  "sql_link =
     \<lparr>lk_simple = (\<lambda>sql s. (None, s)),
      lk_extended = (\<lambda>sql params pf rf n s.
        let (ok, s') = execute_sql sql s
        in (Some (if ok then Inr \<lparr>eo_rows = [], eo_command_tag = Some sql\<rparr> else Inl (Protocol ''failed'')), s')),
      lk_copy_in = (\<lambda>sql data s. (None, s)), lk_prepare = (\<lambda>name sql oids s. (None, s)),
      lk_execute_prepared = (\<lambda>name params pf rf n s. (None, s)),
      lk_bind_portal = (\<lambda>portal name params pf rf s. (None, s)),
      lk_execute_portal = (\<lambda>portal n s. (None, s)), lk_close_portal = (\<lambda>portal s. (None, s)),
      lk_close_statement = (\<lambda>name s. (None, s))\<rparr>"

definition statement :: "str \<Rightarrow> (str list database, u64) body" where
  "statement sql = in_session (session_execute sql_link (command_raw sql) ())"

definition demo_scope :: "str list database scope" where
  "demo_scope = \<lparr>sp_session = demo_session \<lparr>db_committed = [], db_block = None\<rparr>, sp_counter = 1, sp_detached = []\<rparr>"

lemma control_of_sql [simp]: "control_of (control_sql c) = Some c"
  by (cases c) (simp_all add: control_of_def strip_prefix_def)

lemma pg_link_sql: "pg_link sql_link id"
  unfolding pg_link_def
proof (intro allI)
  fix c s
  show "\<exists>r s'. lk_extended sql_link (control_sql c) [] [] [] None s = (Some r, s') \<and> (\<not> isl r, id s') = pg_control c (id s)"
    by (auto simp: sql_link_def execute_sql_def Let_def split: prod.split)
qed

lemma statement_run:
  "statement sql sc =
     (let (ok, D) = execute_sql sql (se_link (sp_session sc))
      in (Done (if ok then Inr (parse_affected_rows (Some sql)) else Inl (in_sql sql None (Protocol ''failed''))),
          sc\<lparr>sp_session := (sp_session sc)\<lparr>se_link := D\<rparr>\<rparr>))"
  by (simp add: statement_def in_session_def session_execute_def command_raw_def from_parts_def bind_runtime_def
      unit_encoder_def encoder_of_def fields_nil_def bindm_def of_result_def call_def sql_link_def reply_result_def
      ret_def Let_def split: prod.split)

lemma scoped_statement:
  assumes "control_of sql = None" shows "scoped id 0 (statement sql)"
proof -
  have "\<exists>b'. snd (execute_sql sql D) = D\<lparr>db_block := Some b'\<rparr> \<and> bk_savepoints b' = bk_savepoints b"
    if "db_block D = Some b" for D b
    using assms that block_self [OF that] by (auto simp: execute_sql_def abort_block_def intro: exI [of _ b])
  then show ?thesis
    by (fastforce simp: scoped_def scoped_run_def statement_run drawn_def Let_def case_prod_beta)
qed

lemmas demo_eval = transaction_def scope_control_def run_control_command_def call_def reply_result_def bindm_def ret_def
  and_then_def statement_run demo_scope_def demo_session_def sql_link_def execute_sql_def control_of_def strip_prefix_def
  abort_block_def detach_def run_detached_def run_cleanup_def


definition demo_block_scope :: "str list database scope" where
  "demo_block_scope = demo_scope\<lparr>sp_session := demo_session \<lparr>db_committed = [],
     db_block = Some \<lparr>bk_data = [''A''], bk_savepoints = [], bk_aborted = False\<rparr>\<rparr>\<rparr>"



text \<open>
  A stream begins and ends a transaction of its own, also when it is opened through the handle of an
  enclosing scope: its \<open>BEGIN\<close> is accepted without effect and its \<open>COMMIT\<close> ends the enclosing block.
\<close>

lemma stream_ends_enclosing_block:
  assumes "pg_link L db" and "db_block (scope_db db sc) = Some b" and "\<not> bk_aborted b"
  shows "scope_db db (snd (scope_control L ''COMMIT'' (snd (scope_control L ''BEGIN'' sc)))) =
    (scope_db db sc)\<lparr>db_committed := bk_data b, db_block := None\<rparr>"
proof -
  obtain r1 sc1 where "scope_control L ''BEGIN'' sc = (r1, sc1)" "scope_db db sc1 = snd (pg_control CBegin (scope_db db sc))"
    by (rule scope_control_pg [OF assms(1), of "''BEGIN''" CBegin sc]) simp_all
  moreover obtain r2 sc2 where "scope_control L ''COMMIT'' sc1 = (r2, sc2)" "scope_db db sc2 = snd (pg_control CCommit (scope_db db sc1))"
    by (rule scope_control_pg [OF assms(1), of "''COMMIT''" CCommit sc1]) simp_all
  ultimately show ?thesis using assms(2,3) by simp
qed

end
