(* ===== verification/Pool.thy ===== *)
theory Pool
  imports Transaction "HOL-Library.Multiset"
begin

text \<open>
  The connection pool (\<open>pool.rs\<close>). The operations on the state behind the mutex are functions; the
  tasks that run them concurrently are a step relation, in which a task that holds a slot of the pool
  is a \<open>holder\<close>. Instants and durations are natural numbers of one clock.
\<close>

section \<open>Configuration\<close>

datatype health_check = NoCheck | Ping | ResetQuery str

record pool_config =
  pl_min_idle :: nat
  pl_max_size :: nat
  pl_acquire_timeout :: nat
  pl_idle_timeout :: "nat option"
  pl_max_lifetime :: "nat option"
  pl_health_check :: health_check

text \<open>Durations are counted in milliseconds.\<close>

definition default_pool_config :: pool_config where
  "default_pool_config =
     \<lparr>pl_min_idle = 0, pl_max_size = 16, pl_acquire_timeout = 30000, pl_idle_timeout = None,
      pl_max_lifetime = None, pl_health_check = NoCheck\<rparr>"

definition validate_pool_config :: "pool_config \<Rightarrow> unit result" where
  "validate_pool_config c =
     (if pl_max_size c = 0 then Inl (Config ''pool max_size must be greater than zero'')
      else if pl_min_idle c > pl_max_size c then Inl (Config ''pool min_idle cannot be greater than max_size'')
      else if pl_acquire_timeout c = 0 then Inl (Config ''pool acquire_timeout must be greater than zero'')
      else if pl_idle_timeout c = Some 0 then Inl (Config ''pool idle_timeout must be greater than zero'')
      else if pl_max_lifetime c = Some 0 then Inl (Config ''pool max_lifetime must be greater than zero'')
      else Inr ())"

datatype pool_error = Timeout | PoolClosed | AcquireFailed error

primrec show_pool_error :: "pool_error \<Rightarrow> str" where
  "show_pool_error Timeout = ''pool acquire timed out''"
| "show_pool_error PoolClosed = ''pool is closed''"
| "show_pool_error (AcquireFailed e) = ''pool acquire failed: '' @ show_error e"

section \<open>The state behind the mutex\<close>

text \<open>A session is known by a number of its own.\<close>

record idle_session =
  id_session :: nat
  id_created_at :: nat
  id_idle_since :: nat

record pool_state =
  pst_total :: nat
  pst_idle :: "idle_session list"

definition pool_empty :: pool_state where
  "pool_empty = \<lparr>pst_total = 0, pst_idle = []\<rparr>"

definition try_take_idle :: "pool_state \<Rightarrow> idle_session option \<times> pool_state" where
  "try_take_idle s =
     (case pst_idle s of [] \<Rightarrow> (None, s) | i # is \<Rightarrow> (Some i, s\<lparr>pst_idle := is\<rparr>))"

definition try_reserve_slot :: "pool_config \<Rightarrow> pool_state \<Rightarrow> bool \<times> pool_state" where
  "try_reserve_slot c s =
     (if pst_total s \<ge> pl_max_size c then (False, s) else (True, s\<lparr>pst_total := pst_total s + 1\<rparr>))"

definition release_slot :: "pool_state \<Rightarrow> pool_state" where
  "release_slot s = s\<lparr>pst_total := pst_total s - 1\<rparr>"

definition is_expired :: "pool_config \<Rightarrow> nat \<Rightarrow> idle_session \<Rightarrow> bool" where
  "is_expired c now idle =
     ((case pl_idle_timeout c of Some t \<Rightarrow> now - id_idle_since idle \<ge> t | None \<Rightarrow> False)
      \<or> (case pl_max_lifetime c of Some t \<Rightarrow> now - id_created_at idle \<ge> t | None \<Rightarrow> False))"

definition reserve_for_min_idle :: "pool_config \<Rightarrow> bool \<Rightarrow> pool_state \<Rightarrow> bool \<times> pool_state" where
  "reserve_for_min_idle c shut s =
     (if shut \<or> length (pst_idle s) \<ge> min (pl_min_idle c) (pl_max_size c) \<or> pst_total s \<ge> pl_max_size c
      then (False, s) else (True, s\<lparr>pst_total := pst_total s + 1\<rparr>))"

definition store_idle :: "bool \<Rightarrow> idle_session \<Rightarrow> pool_state \<Rightarrow> bool \<times> pool_state" where
  "store_idle shut idle s =
     (if shut then (False, s\<lparr>pst_total := pst_total s - 1\<rparr>)
      else (True, s\<lparr>pst_idle := pst_idle s @ [idle]\<rparr>))"

fun sweep :: "(idle_session \<Rightarrow> bool) \<Rightarrow> idle_session list \<Rightarrow> nat \<Rightarrow> idle_session list \<times> idle_session list \<times> nat" where
  "sweep expired [] tot = ([], [], tot)"
| "sweep expired (i # is) tot =
     (if expired i then (let (keep, gone, t) = sweep expired is (tot - 1) in (keep, i # gone, t))
      else (let (keep, gone, t) = sweep expired is tot in (i # keep, gone, t)))"

definition maintenance_sweep :: "pool_config \<Rightarrow> nat \<Rightarrow> pool_state \<Rightarrow> idle_session list \<times> pool_state" where
  "maintenance_sweep c now s =
     (let (keep, gone, tot) = sweep (is_expired c now) (pst_idle s) (pst_total s)
      in (gone, \<lparr>pst_total = tot, pst_idle = keep\<rparr>))"

definition close_drain :: "pool_state \<Rightarrow> idle_session list \<times> pool_state" where
  "close_drain s = (pst_idle s, \<lparr>pst_total = pst_total s - length (pst_idle s), pst_idle = []\<rparr>)"

section \<open>Broken connections\<close>

definition starts_with :: "str \<Rightarrow> str \<Rightarrow> bool" where
  "starts_with p s = (take (length p) s = p)"

primrec should_recycle :: "error \<Rightarrow> bool" where
  "should_recycle (Closed _ _) = True"
| "should_recycle (Io _) = True"
| "should_recycle (Protocol _) = True"
| "should_recycle (Server code _ _ _ _ _ _ _) = (starts_with ''08'' code \<or> code = ''26000'' \<or> code = ''08P01'')"
| "should_recycle (Auth _) = False"
| "should_recycle (UnsupportedAuth _) = False"
| "should_recycle (Config _) = False"
| "should_recycle (Codec _) = False"
| "should_recycle (Migration _) = False"
| "should_recycle (ColumnAlignment _ _ _ _) = False"
| "should_recycle (SchemaMismatch _ _ _ _ _ _) = False"

section \<open>The tasks of a pool\<close>

text \<open>
  The tasks that hold a slot, by where they are: an acquiring task that took an idle session or waits
  for a new connection, the warm-up of \<open>ensure_min_idle\<close>, a checked-out connection, and the stages of
  its return. Sessions carry their number and the instant of their creation.
\<close>

datatype holder =
    Took idle_session
  | Connecting
  | Warming
  | Out nat nat
  | Recycling nat nat bool
  | Returning nat nat
  | Discarding nat

text \<open>
  \<open>pz_checked\<close> counts the acquiring tasks that found neither an idle session nor a free slot and have
  not yet called \<open>notified\<close>; \<open>pz_waiting\<close> those that have. \<open>pz_permit\<close> is the permit \<open>notify_one\<close>
  leaves when nobody waits.
\<close>

record pool_system =
  pz_state :: pool_state
  pz_closed :: bool
  pz_drained :: bool
  pz_holders :: "holder multiset"
  pz_next :: nat
  pz_checked :: nat
  pz_waiting :: nat
  pz_permit :: bool

definition pool_init :: pool_system where
  "pool_init = \<lparr>pz_state = pool_empty, pz_closed = False, pz_drained = False, pz_holders = {#}, pz_next = 0,
     pz_checked = 0, pz_waiting = 0, pz_permit = False\<rparr>"

definition notify_one :: "pool_system \<Rightarrow> pool_system" where
  "notify_one s = (if pz_waiting s > 0 then s\<lparr>pz_waiting := pz_waiting s - 1\<rparr> else s\<lparr>pz_permit := True\<rparr>)"

definition notify_waiters :: "pool_system \<Rightarrow> pool_system" where
  "notify_waiters s = s\<lparr>pz_waiting := 0\<rparr>"

definition slot_released :: "holder multiset \<Rightarrow> pool_system \<Rightarrow> pool_system" where
  "slot_released H s = notify_waiters (s\<lparr>pz_state := release_slot (pz_state s), pz_holders := H\<rparr>)"

text \<open>
  One step of some task; every use of the mutex is one step. The clock is read at will. With
  \<open>cancels\<close> the future of an acquiring task may also be dropped at an await point.
\<close>

inductive pool_step :: "pool_config \<Rightarrow> bool \<Rightarrow> pool_system \<Rightarrow> pool_system \<Rightarrow> bool"
  for c :: pool_config and cancels :: bool where
  take_idle: "\<not> pz_closed s \<Longrightarrow> try_take_idle (pz_state s) = (Some i, st) \<Longrightarrow>
    pool_step c cancels s (s\<lparr>pz_state := st, pz_holders := add_mset (Took i) (pz_holders s)\<rparr>)"
| reserve: "\<not> pz_closed s \<Longrightarrow> try_reserve_slot c (pz_state s) = (True, st) \<Longrightarrow>
    pool_step c cancels s (s\<lparr>pz_state := st, pz_holders := add_mset Connecting (pz_holders s)\<rparr>)"
| none_left: "\<not> pz_closed s \<Longrightarrow> try_take_idle (pz_state s) = (None, st) \<Longrightarrow> try_reserve_slot c (pz_state s) = (False, st) \<Longrightarrow>
    pool_step c cancels s (s\<lparr>pz_checked := pz_checked s + 1\<rparr>)"
| register: "pz_checked s = Suc n \<Longrightarrow> \<not> pz_permit s \<Longrightarrow>
    pool_step c cancels s (s\<lparr>pz_checked := n, pz_waiting := pz_waiting s + 1\<rparr>)"
| use_permit: "pz_checked s = Suc n \<Longrightarrow> pz_permit s \<Longrightarrow>
    pool_step c cancels s (s\<lparr>pz_checked := n, pz_permit := False\<rparr>)"
| time_out: "pz_waiting s = Suc n \<Longrightarrow> pool_step c cancels s (s\<lparr>pz_waiting := n\<rparr>)"
| expired_idle: "pz_holders s = add_mset (Took i) H \<Longrightarrow> is_expired c now i \<Longrightarrow>
    pool_step c cancels s (s\<lparr>pz_holders := add_mset (Discarding (id_session i)) H\<rparr>)"
| unhealthy: "pz_holders s = add_mset (Took i) H \<Longrightarrow> \<not> is_expired c now i \<Longrightarrow> pl_health_check c \<noteq> NoCheck \<Longrightarrow>
    pool_step c cancels s (s\<lparr>pz_holders := add_mset (Discarding (id_session i)) H\<rparr>)"
| acquired_idle: "pz_holders s = add_mset (Took i) H \<Longrightarrow> \<not> is_expired c now i \<Longrightarrow>
    pool_step c cancels s (s\<lparr>pz_holders := add_mset (Out (id_session i) (id_created_at i)) H\<rparr>)"
| connected: "pz_holders s = add_mset Connecting H \<Longrightarrow>
    pool_step c cancels s (s\<lparr>pz_holders := add_mset (Out (pz_next s) now) H, pz_next := pz_next s + 1\<rparr>)"
| connect_failed: "pz_holders s = add_mset Connecting H \<Longrightarrow> pool_step c cancels s (slot_released H s)"
| warm_up: "reserve_for_min_idle c (pz_closed s) (pz_state s) = (True, st) \<Longrightarrow>
    pool_step c cancels s (s\<lparr>pz_state := st, pz_holders := add_mset Warming (pz_holders s)\<rparr>)"
| warmed: "pz_holders s = add_mset Warming H \<Longrightarrow>
    pool_step c cancels s (s\<lparr>pz_holders := add_mset (Returning (pz_next s) now) H, pz_next := pz_next s + 1\<rparr>)"
| warm_failed: "pz_holders s = add_mset Warming H \<Longrightarrow> pool_step c cancels s (slot_released H s)"
| dropped: "pz_holders s = add_mset (Out n t) H \<Longrightarrow>
    pool_step c cancels s (s\<lparr>pz_holders := add_mset (Recycling n t broken) H\<rparr>)"
| recycle_discard: "pz_holders s = add_mset (Recycling n t broken) H \<Longrightarrow> broken \<or> pz_closed s \<or> rollback_failed \<Longrightarrow>
    pool_step c cancels s (s\<lparr>pz_holders := add_mset (Discarding n) H\<rparr>)"
| recycle_keep: "pz_holders s = add_mset (Recycling n t False) H \<Longrightarrow> \<not> pz_closed s \<Longrightarrow>
    pool_step c cancels s (s\<lparr>pz_holders := add_mset (Returning n t) H\<rparr>)"
| return_expired: "pz_holders s = add_mset (Returning n t) H \<Longrightarrow>
    is_expired c now \<lparr>id_session = n, id_created_at = t, id_idle_since = now\<rparr> \<Longrightarrow>
    pool_step c cancels s (s\<lparr>pz_holders := add_mset (Discarding n) H\<rparr>)"
| return_stored: "pz_holders s = add_mset (Returning n t) H \<Longrightarrow>
    store_idle (pz_closed s) \<lparr>id_session = n, id_created_at = t, id_idle_since = now\<rparr> (pz_state s) = (True, st) \<Longrightarrow>
    pool_step c cancels s (notify_one (s\<lparr>pz_state := st, pz_holders := H\<rparr>))"
| return_closed: "pz_holders s = add_mset (Returning n t) H \<Longrightarrow>
    store_idle (pz_closed s) \<lparr>id_session = n, id_created_at = t, id_idle_since = now\<rparr> (pz_state s) = (False, st) \<Longrightarrow>
    pool_step c cancels s (notify_waiters (s\<lparr>pz_state := st, pz_holders := H\<rparr>))"
| discarded: "pz_holders s = add_mset (Discarding n) H \<Longrightarrow> pool_step c cancels s (slot_released H s)"
| maintain: "\<not> pz_closed s \<Longrightarrow> maintenance_sweep c now (pz_state s) = (gone, st) \<Longrightarrow> pool_step c cancels s (s\<lparr>pz_state := st\<rparr>)"
| close_flag: "pool_step c cancels s (notify_waiters (s\<lparr>pz_closed := True\<rparr>))"
| close_idle: "pz_closed s \<Longrightarrow> close_drain (pz_state s) = (gone, st) \<Longrightarrow>
    pool_step c cancels s (s\<lparr>pz_state := st, pz_drained := True\<rparr>)"
| cancelled_taken: "cancels \<Longrightarrow> pz_holders s = add_mset (Took i) H \<Longrightarrow> pool_step c cancels s (s\<lparr>pz_holders := H\<rparr>)"
| cancelled_connecting: "cancels \<Longrightarrow> pz_holders s = add_mset Connecting H \<Longrightarrow> pool_step c cancels s (s\<lparr>pz_holders := H\<rparr>)"

inductive pool_reachable :: "pool_config \<Rightarrow> bool \<Rightarrow> pool_system \<Rightarrow> bool" for c cancels where
  pool_start: "pool_reachable c cancels pool_init"
| pool_next: "pool_reachable c cancels s \<Longrightarrow> pool_step c cancels s s' \<Longrightarrow> pool_reachable c cancels s'"

section \<open>Accounting\<close>

primrec holder_sessions :: "holder \<Rightarrow> nat multiset" where
  "holder_sessions (Took i) = {#id_session i#}"
| "holder_sessions Connecting = {#}"
| "holder_sessions Warming = {#}"
| "holder_sessions (Out n t) = {#n#}"
| "holder_sessions (Recycling n t b) = {#n#}"
| "holder_sessions (Returning n t) = {#n#}"
| "holder_sessions (Discarding n) = {#n#}"

definition sessions :: "pool_system \<Rightarrow> nat multiset" where
  "sessions s = mset (map id_session (pst_idle (pz_state s))) + \<Sum>\<^sub># (image_mset holder_sessions (pz_holders s))"

definition owned_once :: "pool_system \<Rightarrow> bool" where
  "owned_once s = (\<forall>n. count (sessions s) n \<le> (if n < pz_next s then 1 else 0))"

text \<open>The slots in use are counted; with cancellations some counted slots may have no holder.\<close>

definition slots_ok :: "pool_config \<Rightarrow> bool \<Rightarrow> nat \<Rightarrow> nat \<Rightarrow> bool" where
  "slots_ok c cancels counted used = (used \<le> counted \<and> (cancels \<or> counted = used) \<and> counted \<le> pl_max_size c)"

definition pool_inv :: "pool_config \<Rightarrow> bool \<Rightarrow> pool_system \<Rightarrow> bool" where
  "pool_inv c cancels s =
     (slots_ok c cancels (pst_total (pz_state s)) (length (pst_idle (pz_state s)) + size (pz_holders s))
      \<and> owned_once s \<and> (pz_drained s \<longrightarrow> pz_closed s \<and> pst_idle (pz_state s) = []))"

lemma slots_release: "slots_ok c k t (n + u) \<Longrightarrow> slots_ok c k (t - n) u"
  by (auto simp: slots_ok_def)

lemma slots_reserve: "slots_ok c k t u \<Longrightarrow> t < pl_max_size c \<Longrightarrow> slots_ok c k (Suc t) (Suc u)"
  by (auto simp: slots_ok_def)

lemma slots_leak: "slots_ok c k t (Suc u) \<Longrightarrow> k \<Longrightarrow> slots_ok c k t u"
  by (auto simp: slots_ok_def)

lemma sweep_spec:
  "sweep expired is tot = (filter (\<lambda>i. \<not> expired i) is, filter expired is, tot - length (filter expired is))"
  by (induction "is" arbitrary: tot) auto

lemma maintenance_sweep_spec:
  "maintenance_sweep c now s =
     (filter (is_expired c now) (pst_idle s),
      \<lparr>pst_total = pst_total s - length (filter (is_expired c now) (pst_idle s)),
       pst_idle = filter (\<lambda>i. \<not> is_expired c now i) (pst_idle s)\<rparr>)"
  by (simp add: maintenance_sweep_def sweep_spec)

lemmas pool_ops = try_take_idle_def try_reserve_slot_def release_slot_def reserve_for_min_idle_def store_idle_def
  maintenance_sweep_spec close_drain_def notify_one_def notify_waiters_def slot_released_def

lemma count_filter_le: "count (mset (map f (filter P xs))) n \<le> count (mset (map f xs)) n"
  by (induction xs) auto

lemma owned_once_mono:
  "owned_once s \<Longrightarrow> pz_next s' = pz_next s \<Longrightarrow> sessions s' \<subseteq># sessions s \<Longrightarrow> owned_once s'"
  unfolding owned_once_def by (metis le_trans mset_subset_eq_count)

lemma pool_inv_wakers [simp]:
  "pool_inv c k (s\<lparr>pz_checked := m\<rparr>) = pool_inv c k s" "pool_inv c k (s\<lparr>pz_waiting := m\<rparr>) = pool_inv c k s"
  "pool_inv c k (s\<lparr>pz_permit := b\<rparr>) = pool_inv c k s" "pool_inv c k (notify_one s) = pool_inv c k s"
  "pool_inv c k (notify_waiters s) = pool_inv c k s"
  by (simp_all add: pool_inv_def owned_once_def sessions_def notify_one_def notify_waiters_def)

lemma pool_inv_close: "pool_inv c k s \<Longrightarrow> pool_inv c k (s\<lparr>pz_closed := True\<rparr>)"
  by (auto simp: pool_inv_def owned_once_def sessions_def)

lemma pool_inv_move:
  assumes "pool_inv c k s" and "pz_holders s = add_mset h H" and "holder_sessions h' = holder_sessions h"
  shows "pool_inv c k (s\<lparr>pz_holders := add_mset h' H\<rparr>)"
  using assms by (simp add: pool_inv_def owned_once_def sessions_def)

lemma pool_inv_new:
  assumes "pool_inv c k s" and "pz_holders s = add_mset h H" and "holder_sessions h = {#}"
    and "holder_sessions h' = {#pz_next s#}"
  shows "pool_inv c k (s\<lparr>pz_holders := add_mset h' H, pz_next := pz_next s + 1\<rparr>)"
proof -
  have "sessions (s\<lparr>pz_holders := add_mset h' H, pz_next := pz_next s + 1\<rparr>) = add_mset (pz_next s) (sessions s)"
    using assms by (simp add: sessions_def)
  moreover from assms(1) have c: "count (sessions s) n \<le> (if n < pz_next s then 1 else 0)" for n
    by (simp add: pool_inv_def owned_once_def)
  have "count (add_mset (pz_next s) (sessions s)) n \<le> (if n < pz_next s + 1 then 1 else 0)" for n
    using c [of n] by (auto split: if_splits)
  ultimately show ?thesis using assms(1,2) by (simp add: pool_inv_def owned_once_def del: count_add_mset)
qed

lemma owned_less:
  assumes "owned_once s" and "pz_holders s = add_mset h H" and "pst_idle st = pst_idle (pz_state s)"
  shows "owned_once (s\<lparr>pz_state := st, pz_holders := H\<rparr>)"
  by (rule owned_once_mono [OF assms(1)]) (use assms(2,3) in \<open>simp_all add: sessions_def\<close>)

lemma pool_inv_release:
  assumes "pool_inv c k s" and "pz_holders s = add_mset h H"
  shows "pool_inv c k (s\<lparr>pz_state := (pz_state s)\<lparr>pst_total := pst_total (pz_state s) - 1\<rparr>, pz_holders := H\<rparr>)"
  using assms slots_release [of c k "pst_total (pz_state s)" 1 "length (pst_idle (pz_state s)) + size H"]
    owned_less [OF _ assms(2), of "(pz_state s)\<lparr>pst_total := pst_total (pz_state s) - 1\<rparr>"]
  by (simp add: pool_inv_def)

lemma pool_inv_released: "pool_inv c k s \<Longrightarrow> pz_holders s = add_mset h H \<Longrightarrow> pool_inv c k (slot_released H s)"
  using pool_inv_release [of c k s h H] by (simp add: slot_released_def release_slot_def)

lemma pool_inv_cancel:
  assumes "pool_inv c k s" and "pz_holders s = add_mset h H" and k
  shows "pool_inv c k (s\<lparr>pz_holders := H\<rparr>)"
proof -
  have "owned_once (s\<lparr>pz_holders := H\<rparr>)"
    using owned_less [OF _ assms(2), of "pz_state s"] assms(1) by (simp add: pool_inv_def)
  then show ?thesis
    using assms slots_leak [of c k "pst_total (pz_state s)" "length (pst_idle (pz_state s)) + size H"]
    by (simp add: pool_inv_def)
qed

lemma pool_inv_reserve:
  assumes "pool_inv c k s" and "pst_total (pz_state s) < pl_max_size c" and "holder_sessions h = {#}"
  shows "pool_inv c k (s\<lparr>pz_state := (pz_state s)\<lparr>pst_total := Suc (pst_total (pz_state s))\<rparr>, pz_holders := add_mset h (pz_holders s)\<rparr>)"
  using assms slots_reserve [of c k "pst_total (pz_state s)"]
  by (simp add: pool_inv_def owned_once_def sessions_def)

lemma pool_inv_take:
  assumes "pool_inv c k s" and "pst_idle (pz_state s) = i # is"
  shows "pool_inv c k (s\<lparr>pz_state := (pz_state s)\<lparr>pst_idle := is\<rparr>, pz_holders := add_mset (Took i) (pz_holders s)\<rparr>)"
proof -
  let ?s' = "s\<lparr>pz_state := (pz_state s)\<lparr>pst_idle := is\<rparr>, pz_holders := add_mset (Took i) (pz_holders s)\<rparr>"
  have "sessions ?s' = sessions s" using assms(2) by (simp add: sessions_def)
  then have "owned_once ?s'" using assms(1) by (simp add: pool_inv_def owned_once_def)
  with assms show ?thesis by (simp add: pool_inv_def)
qed

lemma pool_inv_store:
  assumes "pool_inv c k s" and "pz_holders s = add_mset (Returning n t) H" and "\<not> pz_closed s" and "id_session i = n"
  shows "pool_inv c k (s\<lparr>pz_state := (pz_state s)\<lparr>pst_idle := pst_idle (pz_state s) @ [i]\<rparr>, pz_holders := H\<rparr>)"
proof -
  let ?s' = "s\<lparr>pz_state := (pz_state s)\<lparr>pst_idle := pst_idle (pz_state s) @ [i]\<rparr>, pz_holders := H\<rparr>"
  have "sessions ?s' = sessions s" using assms(2,4) by (simp add: sessions_def)
  then have "owned_once ?s'" using assms(1) by (simp add: pool_inv_def owned_once_def)
  with assms show ?thesis by (simp add: pool_inv_def)
qed

lemma pool_inv_sweep:
  assumes "pool_inv c k s"
  shows "pool_inv c k (s\<lparr>pz_state := \<lparr>pst_total = pst_total (pz_state s) - length (filter P (pst_idle (pz_state s))),
    pst_idle = filter (\<lambda>i. \<not> P i) (pst_idle (pz_state s))\<rparr>\<rparr>)"
proof -
  have "mset (map id_session (filter Q is)) \<subseteq># mset (map id_session is)" for Q "is"
    by (induction "is") (auto intro: subset_mset.order_trans)
  note filtered = this
  from assms have owned: "owned_once s" by (simp add: pool_inv_def)
  have "owned_once (s\<lparr>pz_state := \<lparr>pst_total = t, pst_idle = filter Q (pst_idle (pz_state s))\<rparr>\<rparr>)" for Q t
    by (rule owned_once_mono [OF owned]) (use filtered in \<open>simp_all add: sessions_def\<close>)
  moreover have "slots_ok c k (pst_total (pz_state s) - length (filter P (pst_idle (pz_state s))))
      (length (filter (\<lambda>i. \<not> P i) (pst_idle (pz_state s))) + size (pz_holders s))"
    using assms sum_length_filter_compl [of P "pst_idle (pz_state s)"]
    by (intro slots_release) (simp add: pool_inv_def flip: add.assoc)
  ultimately show ?thesis using assms by (simp add: pool_inv_def)
qed

lemma pool_inv_drain:
  assumes "pool_inv c k s" and "pz_closed s"
  shows "pool_inv c k (s\<lparr>pz_state := \<lparr>pst_total = pst_total (pz_state s) - length (pst_idle (pz_state s)), pst_idle = []\<rparr>, pz_drained := True\<rparr>)"
proof -
  from assms have owned: "owned_once s" by (simp add: pool_inv_def)
  have "owned_once (s\<lparr>pz_state := \<lparr>pst_total = t, pst_idle = []\<rparr>, pz_drained := True\<rparr>)" for t
    by (rule owned_once_mono [OF owned]) (simp_all add: sessions_def)
  with assms slots_release [of c k "pst_total (pz_state s)"] show ?thesis by (simp add: pool_inv_def)
qed

lemma pool_step_inv: "pool_step c cancels s s' \<Longrightarrow> pool_inv c cancels s \<Longrightarrow> pool_inv c cancels s'"
proof (induction rule: pool_step.induct)
  case (take_idle s i st)
  then show ?case by (auto simp: try_take_idle_def intro!: pool_inv_take split: list.splits)
next
  case (reserve s st)
  then show ?case by (auto simp: try_reserve_slot_def intro!: pool_inv_reserve split: if_splits)
next
  case (warm_up s st)
  then show ?case by (auto simp: reserve_for_min_idle_def intro!: pool_inv_reserve split: if_splits)
next
  case (connected s H now)
  then show ?case using pool_inv_new by simp
next
  case (warmed s H now)
  then show ?case using pool_inv_new by simp
next
  case (return_stored s n t H now st)
  then show ?case by (auto simp: store_idle_def intro!: pool_inv_store split: if_splits)
next
  case (return_closed s n t H now st)
  then show ?case using pool_inv_release [of c cancels s "Returning n t" H] by (auto simp: store_idle_def split: if_splits)
next
  case (maintain s now gone st)
  then show ?case using pool_inv_sweep [of c cancels s] by (auto simp: maintenance_sweep_spec)
next
  case (close_idle s gone st)
  then show ?case using pool_inv_drain [of c cancels s] by (auto simp: close_drain_def)
qed (auto intro: pool_inv_move pool_inv_released pool_inv_cancel pool_inv_close)

lemma pool_reachable_inv: "pool_reachable c cancels s \<Longrightarrow> pool_inv c cancels s"
proof (induction rule: pool_reachable.induct)
  case pool_start
  show ?case by (simp add: pool_inv_def slots_ok_def owned_once_def sessions_def pool_init_def pool_empty_def)
qed (rule pool_step_inv)

section \<open>Leaked slots\<close>

definition leaked :: "pool_config \<Rightarrow> pool_system \<Rightarrow> bool" where
  "leaked c s = (pst_total (pz_state s) = pl_max_size c \<and> pst_idle (pz_state s) = [] \<and> pz_holders s = {#})"

lemma leaked_step: "pool_step c k s s' \<Longrightarrow> leaked c s \<Longrightarrow> leaked c s'"
  by (induction rule: pool_step.induct) (auto simp: leaked_def pool_ops)

lemma leaked_forever: "(pool_step c k)\<^sup>*\<^sup>* s s' \<Longrightarrow> leaked c s \<Longrightarrow> leaked c s'"
  by (induction rule: rtranclp_induct) (auto intro: leaked_step)

lemma leak_slots:
  "m \<le> pl_max_size c \<Longrightarrow> pool_reachable c True (pool_init\<lparr>pz_state := \<lparr>pst_total = m, pst_idle = []\<rparr>\<rparr>)"
proof (induction m)
  case 0
  show ?case using pool_start [of c True] by (simp add: pool_init_def pool_empty_def)
next
  case (Suc m)
  let ?s = "\<lambda>m. pool_init\<lparr>pz_state := \<lparr>pst_total = m, pst_idle = []\<rparr>\<rparr>"
  let ?s1 = "(?s m)\<lparr>pz_state := \<lparr>pst_total = Suc m, pst_idle = []\<rparr>, pz_holders := add_mset Connecting {#}\<rparr>"
  from Suc have "pool_reachable c True (?s m)" by simp
  moreover have "pool_step c True (?s m) ?s1"
    using pool_step.reserve [of "?s m" c "\<lparr>pst_total = Suc m, pst_idle = []\<rparr>" True] Suc.prems
    by (simp add: try_reserve_slot_def pool_init_def)
  ultimately have "pool_reachable c True ?s1" by (rule pool_next)
  moreover have "pool_step c True ?s1 (?s1\<lparr>pz_holders := {#}\<rparr>)"
    by (rule pool_step.cancelled_connecting) simp_all
  ultimately have "pool_reachable c True (?s1\<lparr>pz_holders := {#}\<rparr>)" by (rule pool_next)
  then show ?case by (simp add: pool_init_def)
qed

section \<open>Checked-out connections\<close>

text \<open>
  A connection remembers that it must not be reused: every operation that fails with an error of the
  connection sets the flag.
\<close>

record 's pooled =
  pc_scope :: "'s scope"
  pc_broken :: bool

type_synonym ('s, 'a) pooled_body = "'s pooled \<Rightarrow> 'a run \<times> 's pooled"

definition mark_broken :: "error \<Rightarrow> 's pooled \<Rightarrow> 's pooled" where
  "mark_broken e p = (if should_recycle e then p\<lparr>pc_broken := True\<rparr> else p)"

definition record_result :: "'a result \<Rightarrow> 's pooled \<Rightarrow> 's pooled" where
  "record_result r p = (case r of Inl e \<Rightarrow> mark_broken e p | Inr _ \<Rightarrow> p)"

text \<open>The methods of a pooled connection, transaction, savepoint and prepared statement that forward to the session.\<close>

definition pooled_call :: "('s, 'a) act \<Rightarrow> ('s, 'a) pooled_body" where
  "pooled_call m p =
     (let (r, st) = m (sp_session (pc_scope p));
          p1 = p\<lparr>pc_scope := (pc_scope p)\<lparr>sp_session := st\<rparr>\<rparr>
      in (Done r, record_result r p1))"

definition pooled_control :: "'s link \<Rightarrow> str \<Rightarrow> 's pooled \<Rightarrow> unit result \<times> 's pooled" where
  "pooled_control L sql p =
     (let (r, sc) = scope_control L sql (pc_scope p) in (r, p\<lparr>pc_scope := sc\<rparr>))"

definition pooled_detach :: "cleanup_action \<Rightarrow> 's pooled \<Rightarrow> 's pooled" where
  "pooled_detach action p = p\<lparr>pc_scope := detach action (pc_scope p)\<rparr>"

definition pooled_transaction :: "'s link \<Rightarrow> ('s, 'a) pooled_body \<Rightarrow> ('s, 'a) pooled_body" where
  "pooled_transaction L f p =
     (case pooled_control L ''BEGIN'' p of
        (Inl e, p1) \<Rightarrow> (Done (Inl e), pooled_detach Rollback p1)
      | (Inr _, p1) \<Rightarrow>
          (case f p1 of
             (Cancelled, p2) \<Rightarrow> (Cancelled, pooled_detach Rollback p2)
           | (Done (Inr v), p2) \<Rightarrow>
               (case pooled_control L ''COMMIT'' p2 of
                  (Inl e, p3) \<Rightarrow> (Done (Inl e), pooled_detach Rollback p3)
                | (Inr _, p3) \<Rightarrow> (Done (Inr v), p3))
           | (Done (Inl err), p2) \<Rightarrow>
               (case pooled_control L ''ROLLBACK'' p2 of
                  (Inl e, p3) \<Rightarrow> (Done (Inl e), p3)
                | (Inr _, p3) \<Rightarrow> (Done (Inl err), mark_broken err p3))))"

definition pooled_savepoint_name :: "'s pooled \<Rightarrow> str \<times> 's pooled" where
  "pooled_savepoint_name p =
     (''babar_pool_sp_'' @ show_nat (unat (sp_counter (pc_scope p))),
      p\<lparr>pc_scope := (pc_scope p)\<lparr>sp_counter := sp_counter (pc_scope p) + 1\<rparr>\<rparr>)"

definition pooled_rollback_savepoint :: "'s link \<Rightarrow> str \<Rightarrow> 's pooled \<Rightarrow> unit result \<times> 's pooled" where
  "pooled_rollback_savepoint L name =
     bindm (pooled_control L (''ROLLBACK TO SAVEPOINT '' @ name)) (\<lambda>_.
       pooled_control L (''RELEASE SAVEPOINT '' @ name))"

definition run_pooled_savepoint :: "'s link \<Rightarrow> ('s, 'a) pooled_body \<Rightarrow> ('s, 'a) pooled_body" where
  "run_pooled_savepoint L f p =
     (let (name, p0) = pooled_savepoint_name p
      in case pooled_control L (''SAVEPOINT '' @ name) p0 of
           (Inl e, p1) \<Rightarrow> (Done (Inl e), pooled_detach (RollbackSavepoint name) p1)
         | (Inr _, p1) \<Rightarrow>
             (case f p1 of
                (Cancelled, p2) \<Rightarrow> (Cancelled, pooled_detach (RollbackSavepoint name) p2)
              | (Done (Inr v), p2) \<Rightarrow>
                  (case pooled_control L (''RELEASE SAVEPOINT '' @ name) p2 of
                     (Inl e, p3) \<Rightarrow> (Done (Inl e), pooled_detach (RollbackSavepoint name) p3)
                   | (Inr _, p3) \<Rightarrow> (Done (Inr v), p3))
              | (Done (Inl err), p2) \<Rightarrow>
                  (case pooled_rollback_savepoint L name p2 of
                     (Inl e, p3) \<Rightarrow> (Done (Inl e), pooled_detach (RollbackSavepoint name) p3)
                   | (Inr _, p3) \<Rightarrow> (Done (Inl err), mark_broken err p3))))"

text \<open>A detached task of a pooled scope also marks the connection when its commands fail.\<close>

definition run_pooled_cleanup :: "'s link \<Rightarrow> cleanup_action \<Rightarrow> 's pooled \<Rightarrow> 's pooled" where
  "run_pooled_cleanup L action p =
     (case action of
        Rollback \<Rightarrow>
          (let (r, p1) = pooled_control L ''ROLLBACK'' p in if isl r then p1\<lparr>pc_broken := True\<rparr> else p1)
      | RollbackSavepoint name \<Rightarrow>
          (let (rollback, p1) = pooled_control L (''ROLLBACK TO SAVEPOINT '' @ name) p;
               (release, p2) = pooled_control L (''RELEASE SAVEPOINT '' @ name) p1
           in if isl rollback \<or> isl release then p2\<lparr>pc_broken := True\<rparr> else p2))"

text \<open>\<open>recycle\<close> when the connection comes back; \<open>status\<close> is the last transaction status of the driver.\<close>

definition recycle_decision :: "'s link \<Rightarrow> bool \<Rightarrow> u8 \<Rightarrow> 's pooled \<Rightarrow> bool \<times> 's pooled" where
  "recycle_decision L shut status p =
     (if pc_broken p \<or> shut then (True, p)
      else if status \<noteq> 73
      then (let (r, p1) = pooled_control L ''ROLLBACK'' p in (isl r, p1))
      else (False, p))"

definition run_health_check :: "'s link \<Rightarrow> pool_config \<Rightarrow> ('s, unit) act" where
  "run_health_check L c =
     (case pl_health_check c of
        NoCheck \<Rightarrow> ret ()
      | Ping \<Rightarrow> bindm (session_simple_query_raw L ''SELECT 1'') (\<lambda>_. ret ())
      | ResetQuery sql \<Rightarrow> bindm (session_simple_query_raw L sql) (\<lambda>_. ret ()))"

text \<open>A pooled transaction is a transaction that also keeps the flag.\<close>

definition pooled_view :: "('s, 'a) body \<Rightarrow> ('s, 'a) pooled_body \<Rightarrow> bool" where
  "pooled_view f g = (\<forall>p. fst (g p) = fst (f (pc_scope p)) \<and> pc_scope (snd (g p)) = snd (f (pc_scope p)))"

lemma mark_broken_scope [simp]: "pc_scope (mark_broken e p) = pc_scope p"
  by (simp add: mark_broken_def)

lemma pooled_transaction_view:
  fixes f :: "('s, 'a) body"
  assumes "pooled_view f g"
  shows "pooled_view (transaction L f) (pooled_transaction L g)"
  unfolding pooled_view_def
proof
  fix p :: "'s pooled"
  obtain r1 sc1 where b: "scope_control L ''BEGIN'' (pc_scope p) = (r1, sc1)" by fastforce
  let ?p1 = "p\<lparr>pc_scope := sc1\<rparr>"
  obtain rb p2 where g: "g ?p1 = (rb, p2)" by fastforce
  have f: "f sc1 = (rb, pc_scope p2)"
    using assms [unfolded pooled_view_def, rule_format, of ?p1] g by (simp add: prod_eq_iff)
  obtain rc scc where c: "scope_control L ''COMMIT'' (pc_scope p2) = (rc, scc)" by fastforce
  obtain rr scr where r: "scope_control L ''ROLLBACK'' (pc_scope p2) = (rr, scr)" by fastforce
  show "fst (pooled_transaction L g p) = fst (transaction L f (pc_scope p))
    \<and> pc_scope (snd (pooled_transaction L g p)) = snd (transaction L f (pc_scope p))"
    using b g f c r by (auto simp: pooled_transaction_def transaction_def pooled_control_def pooled_detach_def
        split: run.split sum.split)
qed

lemma pooled_call_view: "pooled_view (in_session m) (pooled_call m)"
  by (auto simp: pooled_view_def in_session_def pooled_call_def record_result_def Let_def split: prod.split sum.split)

section \<open>Claims\<close>


definition demo_pool :: pool_config where
  "demo_pool = default_pool_config\<lparr>pl_max_size := 1\<rparr>"

definition demo_connecting :: pool_system where
  "demo_connecting = pool_init\<lparr>pz_state := \<lparr>pst_total = 1, pst_idle = []\<rparr>, pz_holders := {#Connecting#}\<rparr>"

lemma demo_connecting_reachable: "pool_reachable demo_pool k demo_connecting"
proof (rule pool_next [OF pool_start])
  show "pool_step demo_pool k pool_init demo_connecting"
    using pool_step.reserve [of pool_init demo_pool "\<lparr>pst_total = 1, pst_idle = []\<rparr>" k]
    by (simp add: try_reserve_slot_def pool_init_def pool_empty_def demo_pool_def default_pool_config_def demo_connecting_def)
qed


text \<open>
  C16. Dropping the future of \<open>acquire\<close> while it connects leaks the slot it has reserved: any pool can
  reach an open state with no session at all from which no task ever gets a connection again, because
  all slots are counted and nobody holds one.
\<close>

theorem cancelled_acquire_starves_pool:
  "\<exists>s. pool_reachable c True s \<and> \<not> pz_closed s \<and> sessions s = {#}
   \<and> (\<forall>s'. (pool_step c True)\<^sup>*\<^sup>* s s' \<longrightarrow> pz_holders s' = {#} \<and> pst_idle (pz_state s') = [])"
proof -
  let ?s = "pool_init\<lparr>pz_state := \<lparr>pst_total = pl_max_size c, pst_idle = []\<rparr>\<rparr>"
  have "pool_reachable c True ?s" by (rule leak_slots) simp
  moreover have "\<not> pz_closed ?s" "sessions ?s = {#}" "leaked c ?s"
    by (simp_all add: pool_init_def sessions_def leaked_def)
  moreover have "pz_holders s' = {#} \<and> pst_idle (pz_state s') = []" if "(pool_step c True)\<^sup>*\<^sup>* ?s s'" for s'
    using leaked_forever [OF that \<open>leaked c ?s\<close>] by (simp add: leaked_def)
  ultimately show ?thesis by blast
qed

theorem cancelled_acquire_starves_pool_witness:
  "\<exists>s. pool_reachable demo_pool True s \<and> \<not> pz_closed s
   \<and> (\<forall>s'. (pool_step demo_pool True)\<^sup>*\<^sup>* s s' \<longrightarrow> pz_holders s' = {#})"
  using cancelled_acquire_starves_pool [of demo_pool] by blast

text \<open>
  A wake-up can be lost: a slot that is given back between a task's look at the pool and its call
  of \<open>notified\<close> wakes nobody, so that the task waits, until its time-out, for a pool that has a free
  slot and in which nobody else is active. No future is dropped in this run.
\<close>

theorem released_slot_wakes_nobody:
  "\<exists>s. pool_reachable demo_pool False s \<and> pz_waiting s = 1 \<and> \<not> pz_permit s \<and> \<not> pz_closed s
   \<and> pz_holders s = {#} \<and> pst_total (pz_state s) < pl_max_size demo_pool"
proof -
  let ?s1 = "demo_connecting\<lparr>pz_checked := 1\<rparr>"
  let ?s2 = "slot_released {#} ?s1"
  have "pool_step demo_pool False demo_connecting ?s1"
    using pool_step.none_left [of demo_connecting "\<lparr>pst_total = 1, pst_idle = []\<rparr>" demo_pool False]
    by (simp add: demo_connecting_def pool_init_def try_take_idle_def try_reserve_slot_def demo_pool_def)
  with demo_connecting_reachable have "pool_reachable demo_pool False ?s1" by (rule pool_next)
  moreover have "pool_step demo_pool False ?s1 ?s2"
    by (rule pool_step.connect_failed) (simp add: demo_connecting_def)
  ultimately have "pool_reachable demo_pool False ?s2" by (rule pool_next)
  moreover have "pool_step demo_pool False ?s2 (?s2\<lparr>pz_checked := 0, pz_waiting := pz_waiting ?s2 + 1\<rparr>)"
    by (rule pool_step.register)
      (simp_all add: slot_released_def notify_waiters_def demo_connecting_def pool_init_def)
  ultimately have "pool_reachable demo_pool False (?s2\<lparr>pz_checked := 0, pz_waiting := pz_waiting ?s2 + 1\<rparr>)" by (rule pool_next)
  then show ?thesis
    by (intro exI [of _ "?s2\<lparr>pz_checked := 0, pz_waiting := pz_waiting ?s2 + 1\<rparr>"])
      (simp add: slot_released_def notify_waiters_def release_slot_def demo_connecting_def pool_init_def demo_pool_def)
qed

text \<open>
  A pooled transaction behaves as a transaction on the session it holds, for every body that does:
  same result, same commands and same clean-up tasks; it only adds the record of broken connections.
\<close>

theorem pooled_transaction_refines:
  assumes "pooled_view f g"
  shows "fst (pooled_transaction L g p) = fst (transaction L f (pc_scope p))
    \<and> pc_scope (snd (pooled_transaction L g p)) = snd (transaction L f (pc_scope p))"
  using pooled_transaction_view [OF assms] unfolding pooled_view_def by blast

theorem pooled_transaction_refines_witness:
  "fst (pooled_transaction sql_link (pooled_call (session_execute sql_link (command_raw ''A'') ()))
      \<lparr>pc_scope = demo_scope, pc_broken = False\<rparr>) =
   fst (transaction sql_link (in_session (session_execute sql_link (command_raw ''A'') ())) demo_scope)"
  using pooled_transaction_refines [OF pooled_call_view [of "session_execute sql_link (command_raw ''A'') ()"],
      where p = "\<lparr>pc_scope = demo_scope, pc_broken = False\<rparr>" and L = sql_link]
  by simp

end
