(* ===== verification/Scram.thy ===== *)
theory Scram
  imports Backend_Codec
begin

text \<open>
  Password authentication: the SCRAM-SHA-256 client (\<open>auth/scram.rs\<close>) as its three stages, and the
  MD5 response (\<open>auth/md5.rs\<close>). The cryptographic primitives and the base64 engine are third-party
  crates: they are the fields of \<open>crypto\<close>, and \<open>crypto_ok\<close> states what is documented of them. The
  server's side of RFC 5802 is the specification the client is measured against.
\<close>

unbundle bit_operations_syntax

record crypto =
  hmac_sha256 :: "bytes \<Rightarrow> bytes \<Rightarrow> bytes"
  sha256 :: "bytes \<Rightarrow> bytes"
  md5 :: "bytes \<Rightarrow> bytes"
  b64_encode :: "bytes \<Rightarrow> str"
  b64_decode :: "str \<Rightarrow> bytes option"

definition crypto_ok :: "crypto \<Rightarrow> bool" where
  "crypto_ok K =
     ((\<forall>key msg. length (hmac_sha256 K key msg) = 32) \<and>
      (\<forall>bs. b64_decode K (b64_encode K bs) = Some bs) \<and>
      (\<forall>bs. ascii_str (b64_encode K bs) \<and> CHR '','' \<notin> set (b64_encode K bs)))"

section \<open>Building blocks\<close>

text \<open>Xor of the second sequence into the first, as far as both reach.\<close>

definition xor_into :: "bytes \<Rightarrow> bytes \<Rightarrow> bytes" where
  "xor_into out u = map2 (XOR) out u @ drop (length u) out"

primrec pbkdf2_loop :: "(bytes \<Rightarrow> bytes) \<Rightarrow> nat \<Rightarrow> bytes \<Rightarrow> bytes \<Rightarrow> bytes" where
  "pbkdf2_loop h 0 u out = out"
| "pbkdf2_loop h (Suc n) u out = pbkdf2_loop h n (h u) (xor_into out (h u))"

definition pbkdf2_hmac_sha256 :: "crypto \<Rightarrow> bytes \<Rightarrow> bytes \<Rightarrow> u32 \<Rightarrow> bytes" where
  "pbkdf2_hmac_sha256 K password salt iters =
     (let salt_block = salt @ be_bytes 4 (1 :: u32);
          u = hmac_sha256 K password salt_block
      in pbkdf2_loop (hmac_sha256 K password) (unat iters - 1) u u)"

definition constant_time_eq :: "bytes \<Rightarrow> bytes \<Rightarrow> bool" where
  "constant_time_eq a b =
     (if length a \<noteq> length b then False
      else foldl (\<lambda>diff (x, y). diff OR (x XOR y)) 0 (zip a b) = 0)"

definition SCRAM_SHA_256 :: str where
  "SCRAM_SHA_256 = ''SCRAM-SHA-256''"

definition SCRAM_SHA_256_PLUS :: str where
  "SCRAM_SHA_256_PLUS = ''SCRAM-SHA-256-PLUS''"

text \<open>The one kind of channel binding is \<open>tls-server-end-point\<close>; its data is what the value holds.\<close>

datatype channel_binding = TlsServerEndPoint bytes

definition mechanism_name :: "channel_binding option \<Rightarrow> str" where
  "mechanism_name cb = (if cb \<noteq> None then SCRAM_SHA_256_PLUS else SCRAM_SHA_256)"

definition gs2_header :: "channel_binding option \<Rightarrow> str" where
  "gs2_header cb = (case cb of None \<Rightarrow> ''n,,'' | Some (TlsServerEndPoint _) \<Rightarrow> ''p=tls-server-end-point,,'')"

definition encoded_channel_binding :: "channel_binding option \<Rightarrow> bytes" where
  "encoded_channel_binding cb =
     as_bytes (gs2_header cb) @ (case cb of None \<Rightarrow> [] | Some (TlsServerEndPoint data) \<Rightarrow> data)"

section \<open>Messages of the server\<close>

record server_first =
  sf_nonce :: str
  sf_salt :: str
  sf_iters :: u32

fun server_first_loop ::
    "str list \<Rightarrow> str option \<times> str option \<times> u32 option \<Rightarrow> str + (str option \<times> str option \<times> u32 option)" where
  "server_first_loop [] acc = Inr acc"
| "server_first_loop (attr # attrs) (nonce, salt, iters) =
     (case split_once ''='' attr of
        None \<Rightarrow> Inl (''missing '' @ [squote, CHR ''='', squote] @ '' in attribute'')
      | Some (key, v) \<Rightarrow>
          (if key = ''r'' then server_first_loop attrs (Some v, salt, iters)
           else if key = ''s'' then server_first_loop attrs (nonce, Some v, iters)
           else if key = ''i''
           then bindr (map_err (\<lambda>_. ''iter count not u32'') (parse_u32 v)) (\<lambda>n.
                  server_first_loop attrs (nonce, salt, Some n))
           else server_first_loop attrs (nonce, salt, iters)))"

definition parse_server_first :: "str \<Rightarrow> str + server_first" where
  "parse_server_first s =
     bindr (server_first_loop (split_on CHR '','' s) (None, None, None)) (\<lambda>(nonce, salt, iters).
     bindr (ok_or ''missing r'' nonce) (\<lambda>r.
     bindr (ok_or ''missing s'' salt) (\<lambda>s.
     bindr (ok_or ''missing i'' iters) (\<lambda>i.
       Inr \<lparr>sf_nonce = r, sf_salt = s, sf_iters = i\<rparr>))))"

datatype server_final = Verifier str | ServerError str

fun server_final_loop :: "str list \<Rightarrow> str + server_final" where
  "server_final_loop [] = Inl ''server-final has neither v= nor e=''"
| "server_final_loop (attr # attrs) =
     (case strip_prefix ''v='' attr of
        Some v \<Rightarrow> Inr (Verifier v)
      | None \<Rightarrow>
          (case strip_prefix ''e='' attr of
             Some e \<Rightarrow> Inr (ServerError e)
           | None \<Rightarrow> server_final_loop attrs))"

definition parse_server_final :: "str \<Rightarrow> str + server_final" where
  "parse_server_final s = server_final_loop (split_on CHR '','' s)"

section \<open>The three stages\<close>

record scram_client =
  scc_password :: str
  scc_channel_binding :: "channel_binding option"

record client_first =
  cf_mechanism_name :: str
  cf_message :: bytes
  cf_password :: str
  cf_channel_binding :: "channel_binding option"
  cf_first_bare_message :: str
  cf_client_nonce :: str

record client_final =
  cl_message :: bytes
  cl_server_key :: bytes
  cl_auth_message :: str

definition scram_new :: "str \<Rightarrow> scram_client" where
  "scram_new password = \<lparr>scc_password = password, scc_channel_binding = None\<rparr>"

definition with_channel_binding :: "str \<Rightarrow> channel_binding option \<Rightarrow> scram_client" where
  "with_channel_binding password cb = \<lparr>scc_password = password, scc_channel_binding = cb\<rparr>"

text \<open>\<open>start\<close> draws the nonce from the random number generator; here it is the argument.\<close>

definition start_with_nonce :: "crypto \<Rightarrow> scram_client \<Rightarrow> bytes \<Rightarrow> client_first" where
  "start_with_nonce K c nonce_bytes =
     (let client_nonce = b64_encode K nonce_bytes;
          first_bare_message = ''n=,r='' @ client_nonce
      in \<lparr>cf_mechanism_name = mechanism_name (scc_channel_binding c),
          cf_message = as_bytes (gs2_header (scc_channel_binding c) @ first_bare_message),
          cf_password = scc_password c, cf_channel_binding = scc_channel_binding c,
          cf_first_bare_message = first_bare_message, cf_client_nonce = client_nonce\<rparr>)"

definition handle_server_first :: "crypto \<Rightarrow> client_first \<Rightarrow> bytes \<Rightarrow> client_final result" where
  "handle_server_first K c server_first =
     bindr (map_err (\<lambda>_. Auth ''SCRAM server-first not UTF-8'') (from_utf8 server_first)) (\<lambda>server_first_str.
     bindr (map_err (\<lambda>e. Auth (''SCRAM server-first malformed: '' @ e)) (parse_server_first server_first_str)) (\<lambda>parsed.
     if take (length (cf_client_nonce c)) (sf_nonce parsed) \<noteq> cf_client_nonce c
     then Inl (Auth ''SCRAM server nonce does not extend client nonce'')
     else
     bindr (ok_or (Auth ''SCRAM salt not valid base64'') (b64_decode K (sf_salt parsed))) (\<lambda>salt.
     if sf_iters parsed = 0 then Inl (Auth ''SCRAM iteration count was 0'')
     else
       let salted_password = pbkdf2_hmac_sha256 K (as_bytes (cf_password c)) salt (sf_iters parsed);
           client_key = hmac_sha256 K salted_password (as_bytes ''Client Key'');
           stored_key = sha256 K client_key;
           server_key = hmac_sha256 K salted_password (as_bytes ''Server Key'');
           channel_binding_b64 = b64_encode K (encoded_channel_binding (cf_channel_binding c));
           client_final_without_proof = ''c='' @ channel_binding_b64 @ '',r='' @ sf_nonce parsed;
           auth_message = cf_first_bare_message c @ '','' @ server_first_str @ '','' @ client_final_without_proof;
           client_signature = hmac_sha256 K stored_key (as_bytes auth_message);
           client_proof = xor_into client_key client_signature
       in Inr \<lparr>cl_message = as_bytes (client_final_without_proof @ '',p='' @ b64_encode K client_proof),
               cl_server_key = server_key, cl_auth_message = auth_message\<rparr>)))"

definition verify_server_final :: "crypto \<Rightarrow> client_final \<Rightarrow> bytes \<Rightarrow> unit result" where
  "verify_server_final K c server_final =
     bindr (map_err (\<lambda>_. Auth ''SCRAM server-final not UTF-8'') (from_utf8 server_final)) (\<lambda>s.
     bindr (map_err (\<lambda>e. Auth (''SCRAM server-final malformed: '' @ e)) (parse_server_final s)) (\<lambda>parsed.
       case parsed of
         Verifier b64 \<Rightarrow>
           bindr (ok_or (Auth ''SCRAM verifier not base64'') (b64_decode K b64)) (\<lambda>claimed.
             if \<not> constant_time_eq claimed (hmac_sha256 K (cl_server_key c) (as_bytes (cl_auth_message c)))
             then Inl (Auth ''SCRAM server signature mismatch'')
             else Inr ())
       | ServerError e \<Rightarrow> Inl (Auth (''SCRAM server reported error: '' @ e))))"

section \<open>MD5\<close>

definition hex_md5_concat :: "crypto \<Rightarrow> bytes \<Rightarrow> bytes \<Rightarrow> str" where
  "hex_md5_concat K a b = concat (map hex2 (md5 K (a @ b)))"

definition md5_password :: "crypto \<Rightarrow> str \<Rightarrow> str \<Rightarrow> bytes \<Rightarrow> str" where
  "md5_password K user password salt =
     (let inner = hex_md5_concat K (as_bytes password) (as_bytes user);
          outer = hex_md5_concat K (as_bytes inner) salt
      in ''md5'' @ outer)"

section \<open>The loops compute what they are meant to\<close>

lemma fold_or_zero:
  "foldl (\<lambda>diff (x, y). diff OR (x XOR y)) d ps = (0 :: byte) \<longleftrightarrow> d = 0 \<and> (\<forall>(x, y) \<in> set ps. x = y)"
proof (induction ps arbitrary: d)
  case (Cons p ps)
  obtain x y where p: "p = (x, y)" by (cases p)
  have "d OR (x XOR y) = 0 \<longleftrightarrow> d = 0 \<and> x = y"
    by (auto simp: or_eq_0_iff) (metis word_bw_same(3) xor.left_neutral xor.assoc xor.right_neutral)
  with Cons p show ?case by auto
qed simp

lemma constant_time_eq_iff: "constant_time_eq a b \<longleftrightarrow> a = b"
proof (cases "length a = length b")
  case True
  then have "(\<forall>(x, y) \<in> set (zip a b). x = y) \<longleftrightarrow> a = b"
    by (induction a b rule: list_induct2) auto
  with True show ?thesis by (simp add: constant_time_eq_def fold_or_zero)
qed (auto simp: constant_time_eq_def)

text \<open>The first block of PBKDF2: the xor of the first \<open>c\<close> iterates.\<close>

definition pbkdf2_block :: "(bytes \<Rightarrow> bytes) \<Rightarrow> bytes \<Rightarrow> nat \<Rightarrow> bytes" where
  "pbkdf2_block h u c = foldl xor_into u (map (\<lambda>i. (h ^^ i) u) [1..<c])"

lemma pbkdf2_loop_iterates:
  "pbkdf2_loop h n ((h ^^ k) u) out = foldl xor_into out (map (\<lambda>i. (h ^^ i) u) [Suc k..<Suc (k + n)])"
proof (induction n arbitrary: k out)
  case (Suc n)
  from Suc [of "Suc k" "xor_into out ((h ^^ Suc k) u)"] show ?case
    by (subst upt_conv_Cons) simp_all
qed simp

lemma pbkdf2_hmac_sha256_block:
  "0 < unat iters \<Longrightarrow> pbkdf2_hmac_sha256 K password salt iters =
     pbkdf2_block (hmac_sha256 K password) (hmac_sha256 K password (salt @ be_bytes 4 (1 :: u32))) (unat iters)"
  using pbkdf2_loop_iterates [of "hmac_sha256 K password" "unat iters - 1" 0]
  by (simp add: pbkdf2_hmac_sha256_def pbkdf2_block_def Let_def)

lemma xor_into_cancel: "length a = length b \<Longrightarrow> xor_into (xor_into a b) b = a"
proof -
  have xx: "(x XOR y) XOR y = (x :: byte)" for x y by (simp add: xor.assoc)
  assume "length a = length b"
  then show ?thesis by (induction a b rule: list_induct2) (simp_all add: xor_into_def xx)
qed

section \<open>Claims\<close>

lemma parse_server_first_message:
  assumes "CHR '','' \<notin> set nonce" and "CHR '','' \<notin> set salt"
  shows "parse_server_first (''r='' @ nonce @ '',s='' @ salt @ '',i='' @ show_nat (unat iters)) =
    Inr \<lparr>sf_nonce = nonce, sf_salt = salt, sf_iters = iters\<rparr>"
proof -
  have digits: "CHR '','' \<notin> set (show_nat n)" for n
  proof
    assume "CHR '','' \<in> set (show_nat n)"
    then obtain d where d: "d < 10" "CHR '','' = digit_char d" using show_nat_digits by blast
    then have "(of_char CHR '','' :: nat) = 48 + d" using of_char_digit_char [of d] by simp
    then show False by simp
  qed
  have "split_on CHR '','' (''r='' @ nonce @ '',s='' @ salt @ '',i='' @ show_nat (unat iters)) =
      [''r='' @ nonce, ''s='' @ salt, ''i='' @ show_nat (unat iters)]"
    using split_on_append_sep [of "CHR '',''" "''r='' @ nonce" "''s='' @ salt @ '',i='' @ show_nat (unat iters)"]
      split_on_append_sep [of "CHR '',''" "''s='' @ salt" "''i='' @ show_nat (unat iters)"]
      split_on_no_sep [of "CHR '',''" "''i='' @ show_nat (unat iters)"] assms digits
    by simp
  then show ?thesis by (simp add: parse_server_first_def parse_u32_show)
qed

lemma scram_mutual_aux:
  assumes K: "crypto_ok K"
    and ext: "valid_str ext" "CHR '','' \<notin> set ext" and iters: "iters \<noteq> 0"
    and first: "first = start_with_nonce K client nonce_bytes"
    and salted: "salted = pbkdf2_hmac_sha256 K (as_bytes (scc_password client)) salt iters"
    and stored: "stored = sha256 K (hmac_sha256 K salted (as_bytes ''Client Key''))"
    and server_key: "server_key = hmac_sha256 K salted (as_bytes ''Server Key'')"
    and server_first: "server_first = ''r='' @ cf_client_nonce first @ ext @ '',s='' @ b64_encode K salt @
          '',i='' @ show_nat (unat iters)"
  shows "\<exists>fin proof. handle_server_first K first (as_bytes server_first) = Inr fin
    \<and> cl_message fin = as_bytes (''c='' @ b64_encode K (encoded_channel_binding (scc_channel_binding client)) @
          '',r='' @ cf_client_nonce first @ ext @ '',p='' @ b64_encode K proof)
    \<and> sha256 K (xor_into proof (hmac_sha256 K stored (as_bytes (cl_auth_message fin)))) = stored
    \<and> verify_server_final K fin (as_bytes (''v='' @
          b64_encode K (hmac_sha256 K server_key (as_bytes (cl_auth_message fin))))) = Inr ()"
proof -
  have len: "length (hmac_sha256 K k m) = 32" for k m using K by (simp add: crypto_ok_def)
  have b64: "b64_decode K (b64_encode K bs) = Some bs" "ascii_str (b64_encode K bs)"
      "CHR '','' \<notin> set (b64_encode K bs)" for bs
    using K by (simp_all add: crypto_ok_def)
  have v1: "valid_str server_first"
    unfolding server_first first
    using ext(1) b64(2) by (simp add: start_with_nonce_def Let_def valid_str_append ascii_valid_str)
  have p1: "parse_server_first server_first =
      Inr \<lparr>sf_nonce = cf_client_nonce first @ ext, sf_salt = b64_encode K salt, sf_iters = iters\<rparr>"
    unfolding server_first using parse_server_first_message [of "cf_client_nonce first @ ext" "b64_encode K salt" iters]
      ext(2) b64(3) by (simp add: first start_with_nonce_def Let_def)
  let ?ck = "hmac_sha256 K salted (as_bytes ''Client Key'')"
  define fin where "fin = the (map_option id (case handle_server_first K first (as_bytes server_first) of
    Inr x \<Rightarrow> Some x | Inl e \<Rightarrow> None))"
  have h: "handle_server_first K first (as_bytes server_first) = Inr fin" and
    msg: "cl_message fin = as_bytes (''c='' @ b64_encode K (encoded_channel_binding (scc_channel_binding client)) @
          '',r='' @ cf_client_nonce first @ ext @ '',p='' @
          b64_encode K (xor_into ?ck (hmac_sha256 K stored (as_bytes (cl_auth_message fin)))))" and
    key: "cl_server_key fin = server_key"
    using v1 p1 b64(1) iters
    by (simp_all add: fin_def handle_server_first_def Let_def salted stored server_key first start_with_nonce_def)
  have proof_ok: "sha256 K (xor_into (xor_into ?ck (hmac_sha256 K stored (as_bytes (cl_auth_message fin))))
      (hmac_sha256 K stored (as_bytes (cl_auth_message fin)))) = stored"
    by (simp add: xor_into_cancel len stored)
  let ?sig = "b64_encode K (hmac_sha256 K server_key (as_bytes (cl_auth_message fin)))"
  have "valid_str (''v='' @ ?sig)" using b64(2) by (simp add: ascii_valid_str)
  moreover have "parse_server_final (''v='' @ ?sig) = Inr (Verifier ?sig)"
    using split_on_no_sep [of "CHR '',''" "''v='' @ ?sig"] b64(3)
    by (simp add: parse_server_final_def strip_prefix_def)
  ultimately have "verify_server_final K fin (as_bytes (''v='' @ ?sig)) = Inr ()"
    unfolding verify_server_final_def by (simp add: b64(1) key constant_time_eq_iff del: as_bytes_append append_Cons)
  with h msg proof_ok show ?thesis by blast
qed


text \<open>A concrete instance of the primitives, with hexadecimal text in place of base64.\<close>

fun hex_pairs :: "str \<Rightarrow> bytes option" where
  "hex_pairs (a # b # s) =
     (case parse_u8_hex [a, b] of
        Inr x \<Rightarrow> map_option ((#) x) (hex_pairs s)
      | Inl _ \<Rightarrow> None)"
| "hex_pairs [] = Some []"
| "hex_pairs [_] = None"

definition toy_crypto :: crypto where
  "toy_crypto =
     \<lparr>hmac_sha256 = (\<lambda>key msg. replicate 32 (of_nat (length key + length msg))), sha256 = id,
      md5 = id, b64_encode = (\<lambda>bs. concat (map hex2 bs)), b64_decode = hex_pairs\<rparr>"

lemma hex_pairs_concat: "hex_pairs (concat (map hex2 bs)) = Some bs"
proof (induction bs)
  case (Cons b bs)
  have "hex2 b = [hd (hex2 b), hd (tl (hex2 b))]" by (simp add: hex2_def)
  with Cons parse_u8_hex_hex2 [of b] show ?case
    by (metis (no_types, lifting) append_Cons append_Nil concat.simps(2) hex_pairs.simps(1) list.map(2)
        old.sum.simps(6) option.simps(9))
qed simp

lemma toy_crypto_ok: "crypto_ok toy_crypto"
proof -
  have "ascii_str (concat (map hex2 bs))" for bs
    by (induction bs) (simp_all add: ascii_str_def [of "[]"])
  moreover have "CHR '','' \<notin> set (hex2 b)" for b
  proof -
    have "digit_char d \<noteq> CHR '',''" if "d < 16" for d
      using of_char_digit_char [OF that] by (auto split: if_splits)
    from this [of "unat b div 16"] this [of "unat b mod 16"] unat_byte_lt [of b] show ?thesis
      by (simp add: hex2_def less_mult_imp_div_less)
  qed
  ultimately show ?thesis by (simp add: crypto_ok_def toy_crypto_def hex_pairs_concat)
qed


text \<open>
  The client accepts a final message exactly when its first attribute of kind \<open>v\<close> or \<open>e\<close> is a
  verifier that decodes to the signature of the exchange under the server key.
\<close>

lemma verify_server_final_iff:
  "verify_server_final K fin msg = Inr () \<longleftrightarrow>
     (\<exists>s v. from_utf8 msg = Inr s \<and> parse_server_final s = Inr (Verifier v)
        \<and> b64_decode K v = Some (hmac_sha256 K (cl_server_key fin) (as_bytes (cl_auth_message fin))))"
proof (cases "from_utf8 msg")
  case utf8: (Inr s)
  show ?thesis
  proof (cases "parse_server_final s")
    case (Inr p)
    with utf8 show ?thesis
      by (cases p) (auto simp: verify_server_final_def bindr_eq_Inr_iff ok_or_eq_Inr_iff
          constant_time_eq_iff split: if_splits)
  qed (simp add: utf8 verify_server_final_def)
qed (simp add: verify_server_final_def)

text \<open>
  The salted password is the first block of PBKDF2: the xor of the first \<open>iters\<close> iterates of the
  keyed hash, starting from the salt followed by the block index one.
\<close>

theorem pbkdf2_is_xor_of_iterates:
  assumes "iters \<noteq> 0"
  shows "pbkdf2_hmac_sha256 K password salt iters =
    foldl xor_into (hmac_sha256 K password (salt @ [0, 0, 0, 1]))
      (map (\<lambda>i. (hmac_sha256 K password ^^ i) (hmac_sha256 K password (salt @ [0, 0, 0, 1]))) [1..<unat iters])"
proof -
  have "be_bytes 4 (1 :: u32) = [0, 0, 0, 1]" by (simp add: be_bytes_def nat_bytes_4)
  moreover have "0 < unat iters" using assms by (simp add: unat_gt_0)
  ultimately show ?thesis by (simp add: pbkdf2_hmac_sha256_block pbkdf2_block_def)
qed

theorem pbkdf2_is_xor_of_iterates_witness:
  "pbkdf2_hmac_sha256 toy_crypto [1] [2] 2 = replicate 32 ((6 :: byte) XOR 33)"
proof -
  have "(2 :: u32) \<noteq> 0" by simp
  from pbkdf2_is_xor_of_iterates [OF this, of toy_crypto "[1]" "[2]"] show ?thesis
    by (simp add: toy_crypto_def xor_into_def upt_rec)
qed

end
