(* ===== verification/Startup.thy ===== *)
theory Startup
  imports Scram Frontend
begin

text \<open>
  Connection startup (\<open>session/startup.rs\<close>) and the configuration it reads (\<open>config.rs\<close>). The
  environment is part of the state: the outcomes of the coming reads and writes, the bytes sent so
  far, the number of nonces drawn. A read is an error, a chunk, or an empty chunk for the end of the
  stream; when the list is exhausted the stream has ended. The transport (\<open>tls.rs\<close>), the random
  numbers and the \<open>Debug\<close> text of a message are parameters.
\<close>

section \<open>Configuration\<close>

datatype tls_mode = TlsDisable | TlsPrefer | TlsRequire

datatype tls_backend = Rustls | NativeTls

datatype host = HostName str | HostAddr str

record config =
  cfg_host :: host
  cfg_port :: u16
  cfg_user :: str
  cfg_database :: str
  cfg_password :: "str option"
  cfg_application_name :: "str option"
  cfg_connect_timeout :: "nat option"
  cfg_tls_mode :: tls_mode
  cfg_tls_backend :: tls_backend
  cfg_tls_server_name :: "str option"
  cfg_tls_root_cert_path :: "str option"

definition config_for :: "host \<Rightarrow> u16 \<Rightarrow> str \<Rightarrow> str \<Rightarrow> config" where
  "config_for h port user database =
     \<lparr>cfg_host = h, cfg_port = port, cfg_user = user, cfg_database = database, cfg_password = None,
      cfg_application_name = None, cfg_connect_timeout = None, cfg_tls_mode = TlsDisable,
      cfg_tls_backend = Rustls, cfg_tls_server_name = None, cfg_tls_root_cert_path = None\<rparr>"

definition config_new :: "str \<Rightarrow> u16 \<Rightarrow> str \<Rightarrow> str \<Rightarrow> config" where
  "config_new h = config_for (HostName h)"

definition config_with_addr :: "str \<Rightarrow> u16 \<Rightarrow> str \<Rightarrow> str \<Rightarrow> config" where
  "config_with_addr addr = config_for (HostAddr addr)"

definition set_password :: "str \<Rightarrow> config \<Rightarrow> config" where
  "set_password p c = c\<lparr>cfg_password := Some p\<rparr>"

definition set_application_name :: "str \<Rightarrow> config \<Rightarrow> config" where
  "set_application_name n c = c\<lparr>cfg_application_name := Some n\<rparr>"

definition set_connect_timeout :: "nat \<Rightarrow> config \<Rightarrow> config" where
  "set_connect_timeout t c = c\<lparr>cfg_connect_timeout := Some t\<rparr>"

definition set_tls_mode :: "tls_mode \<Rightarrow> config \<Rightarrow> config" where
  "set_tls_mode m c = c\<lparr>cfg_tls_mode := m\<rparr>"

definition require_tls :: "config \<Rightarrow> config" where
  "require_tls = set_tls_mode TlsRequire"

definition set_tls_backend :: "tls_backend \<Rightarrow> config \<Rightarrow> config" where
  "set_tls_backend b c = c\<lparr>cfg_tls_backend := b\<rparr>"

definition set_tls_server_name :: "str \<Rightarrow> config \<Rightarrow> config" where
  "set_tls_server_name n c = c\<lparr>cfg_tls_server_name := Some n\<rparr>"

definition set_tls_root_cert_path :: "str \<Rightarrow> config \<Rightarrow> config" where
  "set_tls_root_cert_path p c = c\<lparr>cfg_tls_root_cert_path := Some p\<rparr>"

definition host_str :: "config \<Rightarrow> str" where
  "host_str c = (case cfg_host c of HostName s \<Rightarrow> s | HostAddr a \<Rightarrow> a)"

section \<open>Input and output\<close>

datatype channel_binding_state = CbUnavailable | CbFailed str | CbAvailable channel_binding

record startup_io =
  io_reads :: "(str + bytes) list"
  io_rx_buf :: bytes
  io_writes :: "str option list"
  io_sent :: "bytes list"
  io_draws :: nat

record startup_env =
  env_frontend :: postgres_frontend
  env_crypto :: crypto
  env_binding :: channel_binding_state
  env_nonce :: "nat \<Rightarrow> bytes"
  env_debug :: "backend_message \<Rightarrow> str"

type_synonym 'a startup = "startup_io \<Rightarrow> 'a result \<times> startup_io"

definition startup_flush :: "bytes \<Rightarrow> unit startup" where
  "startup_flush buf io =
     (case io_writes io of
        Some e # ws \<Rightarrow> (Inl (Io e), io\<lparr>io_writes := ws\<rparr>)
      | None # ws \<Rightarrow> (Inr (), io\<lparr>io_writes := ws, io_sent := io_sent io @ [buf]\<rparr>)
      | [] \<Rightarrow> (Inr (), io\<lparr>io_sent := io_sent io @ [buf]\<rparr>))"

text \<open>Clear the transmit buffer, write one message into it, flush.\<close>

definition send_message :: "writer \<Rightarrow> unit startup" where
  "send_message w =
     (case w [] of (Inl e, buf) \<Rightarrow> of_result (Inl e) | (Inr _, buf) \<Rightarrow> startup_flush buf)"

fun read_loop :: "(str + bytes) list \<Rightarrow> bytes \<Rightarrow> backend_message result \<times> (str + bytes) list \<times> bytes" where
  "read_loop [] rx =
     (case decode rx of
        (Inl e, rx') \<Rightarrow> (Inl e, [], rx')
      | (Inr (Some m), rx') \<Rightarrow> (Inr m, [], rx')
      | (Inr None, rx') \<Rightarrow> (Inl closed, [], rx'))"
| "read_loop (r # rs) rx =
     (case decode rx of
        (Inl e, rx') \<Rightarrow> (Inl e, r # rs, rx')
      | (Inr (Some m), rx') \<Rightarrow> (Inr m, r # rs, rx')
      | (Inr None, rx') \<Rightarrow>
          (case r of
             Inl e \<Rightarrow> (Inl (Io e), rs, rx')
           | Inr chunk \<Rightarrow> if chunk = [] then (Inl closed, rs, rx') else read_loop rs (rx' @ chunk)))"

definition read_message :: "backend_message startup" where
  "read_message io =
     (case read_loop (io_reads io) (io_rx_buf io) of
        (r, reads, rx) \<Rightarrow> (r, io\<lparr>io_reads := reads, io_rx_buf := rx\<rparr>))"

section \<open>Authentication\<close>

definition debug_strs :: "str list \<Rightarrow> str" where
  "debug_strs ss =
     ''['' @ (case ss of [] \<Rightarrow> [] | s # rest \<Rightarrow> debug_str s @ concat (map (\<lambda>t. '', '' @ debug_str t) rest)) @ '']''"

definition select_scram_client :: "str list \<Rightarrow> channel_binding_state \<Rightarrow> str \<Rightarrow> scram_client result" where
  "select_scram_client mechanisms cb password =
     (if SCRAM_SHA_256_PLUS \<in> set mechanisms
      then (case cb of
              CbAvailable binding \<Rightarrow> Inr (with_channel_binding password (Some binding))
            | CbUnavailable \<Rightarrow> Inl (UnsupportedAuth
                ''server offered SCRAM-SHA-256-PLUS but TLS channel binding data is unavailable'')
            | CbFailed reason \<Rightarrow> Inl (UnsupportedAuth
                (''server offered SCRAM-SHA-256-PLUS but channel binding setup failed: '' @ reason)))
      else if SCRAM_SHA_256 \<in> set mechanisms then Inr (scram_new password)
      else Inl (UnsupportedAuth (''server offered '' @ debug_strs mechanisms @
             ''; only SCRAM-SHA-256 and SCRAM-SHA-256-PLUS are supported'')))"

definition need_password :: "config \<Rightarrow> str \<Rightarrow> str result" where
  "need_password cfg what =
     ok_or (Auth (''server requested '' @ what @ '' but no password configured'')) (cfg_password cfg)"

definition expect_sasl ::
    "startup_env \<Rightarrow> str \<Rightarrow> (auth_request \<Rightarrow> bytes option) \<Rightarrow> bytes startup" where
  "expect_sasl E what pick =
     bindm read_message (\<lambda>msg. of_result
       (case msg of
          Authentication a \<Rightarrow>
            (case pick a of
               Some data \<Rightarrow> Inr data
             | None \<Rightarrow> Inl (Protocol (''expected '' @ what @ '', got '' @ env_debug E msg)))
        | ErrorResponse fs \<Rightarrow> Inl (from_server_fields fs)
        | _ \<Rightarrow> Inl (Protocol (''expected '' @ what @ '', got '' @ env_debug E msg))))"

definition draw_nonce :: "startup_env \<Rightarrow> bytes startup" where
  "draw_nonce E io = (Inr (env_nonce E (io_draws io)), io\<lparr>io_draws := Suc (io_draws io)\<rparr>)"

definition sasl_exchange :: "startup_env \<Rightarrow> config \<Rightarrow> str list \<Rightarrow> unit startup" where
  "sasl_exchange E cfg mechanisms =
     bindm (of_result (need_password cfg ''SCRAM auth'')) (\<lambda>password.
     bindm (of_result (select_scram_client mechanisms (env_binding E) password)) (\<lambda>scram.
     bindm (draw_nonce E) (\<lambda>nonce.
     let first = start_with_nonce (env_crypto E) scram nonce in
     bindm (send_message (fe_sasl_initial_response (env_frontend E) (cf_mechanism_name first) (cf_message first))) (\<lambda>_.
     bindm (expect_sasl E ''SASLContinue'' (\<lambda>a. case a of SaslContinue d \<Rightarrow> Some d | _ \<Rightarrow> None)) (\<lambda>server_first.
     bindm (of_result (handle_server_first (env_crypto E) first server_first)) (\<lambda>fin.
     bindm (send_message (fe_sasl_response (env_frontend E) (cl_message fin))) (\<lambda>_.
     bindm (expect_sasl E ''SASLFinal'' (\<lambda>a. case a of SaslFinal d \<Rightarrow> Some d | _ \<Rightarrow> None)) (\<lambda>server_final.
     of_result (verify_server_final (env_crypto E) fin server_final)))))))))"

text \<open>One iteration: \<^const>\<open>True\<close> when the server has accepted, \<^const>\<open>False\<close> to read on.\<close>

definition auth_step :: "startup_env \<Rightarrow> config \<Rightarrow> backend_message \<Rightarrow> bool startup" where
  "auth_step E cfg msg =
     (case msg of
        Authentication a \<Rightarrow>
          (case a of
             AuthOk \<Rightarrow> of_result (Inr True)
           | CleartextPassword \<Rightarrow>
               bindm (of_result (need_password cfg ''cleartext password'')) (\<lambda>password.
               bindm (send_message (fe_password_message (env_frontend E) password)) (\<lambda>_.
               of_result (Inr False)))
           | Md5Password salt \<Rightarrow>
               bindm (of_result (need_password cfg ''MD5 password'')) (\<lambda>password.
               bindm (send_message (fe_password_message (env_frontend E)
                          (md5_password (env_crypto E) (cfg_user cfg) password salt))) (\<lambda>_.
               of_result (Inr False)))
           | SaslMechanisms mechanisms \<Rightarrow>
               bindm (sasl_exchange E cfg mechanisms) (\<lambda>_. of_result (Inr False))
           | AuthUnsupported code \<Rightarrow>
               of_result (Inl (UnsupportedAuth (''auth code '' @ show_int (sint code))))
           | SaslContinue _ \<Rightarrow> of_result (Inl (Protocol ''unsolicited SASL message during initial auth''))
           | SaslFinal _ \<Rightarrow> of_result (Inl (Protocol ''unsolicited SASL message during initial auth'')))
      | ErrorResponse fs \<Rightarrow> of_result (Inl (from_server_fields fs))
      | ParameterStatus _ _ \<Rightarrow> of_result (Inr False)
      | NoticeResponse _ \<Rightarrow> of_result (Inr False)
      | _ \<Rightarrow> of_result (Inl (Protocol (''unexpected message during auth: '' @ env_debug E msg))))"

definition chunk_bytes :: "(str + bytes) list \<Rightarrow> nat" where
  "chunk_bytes reads = sum_list (map (case_sum (\<lambda>_. 0) length) reads)"

lemma chunk_bytes_simps [simp]:
  "chunk_bytes [] = 0" "chunk_bytes (Inl e # rs) = chunk_bytes rs"
  "chunk_bytes (Inr c # rs) = length c + chunk_bytes rs"
  by (simp_all add: chunk_bytes_def)

text \<open>The bytes not yet decoded: the measure of the loops.\<close>

definition remaining :: "startup_io \<Rightarrow> nat" where
  "remaining io = length (io_rx_buf io) + chunk_bytes (io_reads io)"

lemma decode_length: "decode src = (r, rest) \<Longrightarrow> length rest + (case r of Inr (Some m) \<Rightarrow> 5 | _ \<Rightarrow> 0) \<le> length src"
  using decode_Some_shorter [of src r rest] decode_None_rest [of src rest]
  by (cases r; cases "projr r") (auto simp: decode_def Let_def bindr_eq_Inl_iff split: if_splits)

lemma read_loop_remaining:
  "read_loop reads rx = (r, reads', rx') \<Longrightarrow>
     length rx' + chunk_bytes reads' + (if isl r then 0 else 5) \<le> length rx + chunk_bytes reads"
proof (induction reads rx rule: read_loop.induct)
  case (1 rx)
  obtain d u where d: "decode rx = (d, u)" by (cases "decode rx")
  from 1 d decode_length [OF d] show ?case by (auto split: sum.splits option.splits)
next
  case (2 x rs rx)
  obtain d u where d: "decode rx = (d, u)" by (cases "decode rx")
  show ?case
  proof (cases "d = Inr None")
    case True
    then have "u = rx" using d decode_None_rest by blast
    with True d 2 show ?thesis by (cases x) (fastforce split: if_splits)+
  next
    case False
    with d 2 decode_length [OF d] show ?thesis by (auto split: sum.splits option.splits)
  qed
qed

named_theorems startup_ops \<open>the sequencing lemmas of the startup operations\<close>

text \<open>Operations that never grow the input.\<close>

definition shrinks :: "'a startup \<Rightarrow> bool" where
  "shrinks m = (\<forall>io. remaining (snd (m io)) \<le> remaining io)"

lemma shrinksD: "shrinks m \<Longrightarrow> m io = (r, io') \<Longrightarrow> remaining io' \<le> remaining io"
  by (metis shrinks_def snd_conv)

lemma shrinks_bind [startup_ops]: "shrinks m \<Longrightarrow> (\<And>a. shrinks (f a)) \<Longrightarrow> shrinks (bindm m f)"
  unfolding shrinks_def bindm_def
  by (auto split: prod.split sum.split) (metis le_trans snd_conv)+

lemma shrinks_return [startup_ops]: "shrinks (of_result r)"
  by (simp add: shrinks_def of_result_def)

lemma shrinks_flush [startup_ops]: "shrinks (startup_flush buf)"
  by (auto simp: shrinks_def startup_flush_def remaining_def split: list.split option.split)

lemma shrinks_send [startup_ops]: "shrinks (send_message w)"
  by (auto simp: send_message_def shrinks_return shrinks_flush split: prod.split sum.split)

lemma read_message_remaining:
  "read_message io = (r, io') \<Longrightarrow> remaining io' + (if isl r then 0 else 5) \<le> remaining io"
  using read_loop_remaining [of "io_reads io" "io_rx_buf io"]
  by (fastforce simp: read_message_def remaining_def split: prod.splits)

lemma shrinks_read [startup_ops]: "shrinks read_message"
  using read_message_remaining [OF surjective_pairing] by (auto simp: shrinks_def intro: add_leD1)

lemma shrinks_expect [startup_ops]: "shrinks (expect_sasl E what pick)"
  unfolding expect_sasl_def by (intro startup_ops)

lemma shrinks_draw [startup_ops]: "shrinks (draw_nonce E)"
  by (simp add: shrinks_def draw_nonce_def remaining_def)

lemma shrinks_sasl [startup_ops]: "shrinks (sasl_exchange E cfg mechanisms)"
  unfolding sasl_exchange_def Let_def by (intro startup_ops)

lemma shrinks_auth_step: "shrinks (auth_step E cfg msg)"
  by (auto simp: auth_step_def intro!: startup_ops split: backend_message.split auth_request.split)

function authenticate :: "startup_env \<Rightarrow> config \<Rightarrow> unit startup" where
  "authenticate E cfg io =
     (case read_message io of
        (Inl e, io1) \<Rightarrow> (Inl e, io1)
      | (Inr msg, io1) \<Rightarrow>
          (case auth_step E cfg msg io1 of
             (Inl e, io2) \<Rightarrow> (Inl e, io2)
           | (Inr accepted, io2) \<Rightarrow> if accepted then (Inr (), io2) else authenticate E cfg io2))"
  by pat_completeness auto
termination
  by (relation "measure (\<lambda>(E, cfg, io). remaining io)")
    (auto dest!: read_message_remaining [OF sym] shrinksD [OF shrinks_auth_step, OF sym])

declare authenticate.simps [simp del]

lemma authenticate_unfold:
  "read_message io = (Inl e, j) \<Longrightarrow> authenticate E cfg io = (Inl e, j)"
  "read_message io = (Inr msg, j) \<Longrightarrow> auth_step E cfg msg j = (Inl e, k) \<Longrightarrow> authenticate E cfg io = (Inl e, k)"
  "read_message io = (Inr msg, j) \<Longrightarrow> auth_step E cfg msg j = (Inr True, k) \<Longrightarrow> authenticate E cfg io = (Inr (), k)"
  "read_message io = (Inr msg, j) \<Longrightarrow> auth_step E cfg msg j = (Inr False, k) \<Longrightarrow>
     authenticate E cfg io = authenticate E cfg k"
  by (subst authenticate.simps, simp)+

section \<open>After authentication\<close>

function startup_loop ::
    "startup_env \<Rightarrow> (str \<rightharpoonup> str) \<Rightarrow> (i32 \<times> i32) option \<Rightarrow> ((str \<rightharpoonup> str) \<times> (i32 \<times> i32) option \<times> u8) startup" where
  "startup_loop E server_params key_data io =
     (case read_message io of
        (Inl e, io1) \<Rightarrow> (Inl e, io1)
      | (Inr msg, io1) \<Rightarrow>
          (case msg of
             ParameterStatus name v \<Rightarrow> startup_loop E (server_params(name \<mapsto> v)) key_data io1
           | BackendKeyData process_id secret_key \<Rightarrow>
               startup_loop E server_params (Some (process_id, secret_key)) io1
           | NoticeResponse _ \<Rightarrow> startup_loop E server_params key_data io1
           | ReadyForQuery transaction_status \<Rightarrow> (Inr (server_params, key_data, transaction_status), io1)
           | ErrorResponse fs \<Rightarrow> (Inl (from_server_fields fs), io1)
           | _ \<Rightarrow> (Inl (Protocol (''unexpected message after auth: '' @ env_debug E msg)), io1)))"
  by pat_completeness auto
termination
  by (relation "measure (\<lambda>(E, server_params, key_data, io). remaining io)")
    (auto dest!: read_message_remaining [OF sym])

declare startup_loop.simps [simp del]

definition startup_params :: "config \<Rightarrow> (str \<times> str) list" where
  "startup_params cfg =
     [(''user'', cfg_user cfg), (''database'', cfg_database cfg), (''client_encoding'', ''UTF8'')] @
     (case cfg_application_name cfg of Some app \<Rightarrow> [(''application_name'', app)] | None \<Rightarrow> [])"

text \<open>
  What is handed to the driver task and the session. The task reads on from the stream; the receive
  buffer of the startup phase is dropped.
\<close>

record started =
  sd_params :: "str \<rightharpoonup> str"
  sd_key_data :: "(i32 \<times> i32) option"
  sd_transaction_status :: u8
  sd_retain :: bool
  sd_stream :: "(str + bytes) list"

definition startup_phase :: "startup_env \<Rightarrow> config \<Rightarrow> bool \<Rightarrow> started startup" where
  "startup_phase E cfg retain =
     bindm (send_message (fe_startup (env_frontend E) (startup_params cfg))) (\<lambda>_.
     bindm (authenticate E cfg) (\<lambda>_.
     bindm (startup_loop E Map.empty None) (\<lambda>(server_params, key_data, status) io.
       (Inr \<lparr>sd_params = server_params, sd_key_data = key_data, sd_transaction_status = status,
             sd_retain = retain, sd_stream = io_reads io\<rparr>, io))))"

definition connect :: "startup_env \<Rightarrow> config \<Rightarrow> bool \<Rightarrow> startup_io result \<Rightarrow> started result" where
  "connect E cfg retain transport = bindr transport (\<lambda>io. fst (startup_phase E cfg retain io))"

section \<open>The cut of the stream into reads does not matter\<close>

definition clean_reads :: "(str + bytes) list \<Rightarrow> bool" where
  "clean_reads reads = list_all (case_sum (\<lambda>_. False) (\<lambda>c. c \<noteq> [])) reads"

definition stream_bytes :: "startup_io \<Rightarrow> bytes" where
  "stream_bytes io = io_rx_buf io @ concat (map projr (io_reads io))"

definition same_view :: "startup_io \<Rightarrow> startup_io \<Rightarrow> bool" where
  "same_view io io' =
     (clean_reads (io_reads io) \<and> clean_reads (io_reads io') \<and> stream_bytes io = stream_bytes io'
      \<and> io_writes io = io_writes io' \<and> io_sent io = io_sent io' \<and> io_draws io = io_draws io')"

lemma read_loop_spec:
  assumes "clean_reads reads" and "read_loop reads rx = (r, reads', rx')"
  shows "clean_reads reads' \<and>
    (case decode (rx @ concat (map projr reads)) of
       (Inl e, rest) \<Rightarrow> r = Inl e
     | (Inr None, rest) \<Rightarrow> r = Inl closed
     | (Inr (Some m), rest) \<Rightarrow> r = Inr m \<and> rx' @ concat (map projr reads') = rest)"
  using assms
proof (induction reads rx rule: read_loop.induct)
  case (1 rx)
  obtain d u where "decode rx = (d, u)" by (cases "decode rx")
  with 1 show ?case by (auto split: sum.splits option.splits)
next
  case (2 x rs rx)
  obtain d u where d: "decode rx = (d, u)" by (cases "decode rx")
  show ?case
  proof (cases "d = Inr None")
    case True
    then have u: "u = rx" using d decode_None_rest by blast
    from 2(2) obtain c where x: "x = Inr c" "c \<noteq> []" "clean_reads rs"
      by (cases x) (auto simp: clean_reads_def)
    with 2(1) [OF d [symmetric] True refl] 2(3) d True u show ?thesis by simp
  next
    case False
    from decode_append [OF d this] False d 2(2,3) show ?thesis
      by (auto split: sum.splits option.splits)
  qed
qed

definition cut_blind :: "'a startup \<Rightarrow> bool" where
  "cut_blind m = (\<forall>io io'. same_view io io' \<longrightarrow>
     fst (m io) = fst (m io') \<and> io_sent (snd (m io)) = io_sent (snd (m io')) \<and>
     (\<not> isl (fst (m io)) \<longrightarrow> same_view (snd (m io)) (snd (m io'))))"

lemma cut_blindD:
  assumes "cut_blind m" and "same_view io io'" and "m io = (r, j)" and "m io' = (r', j')"
  shows "r = r'" and "io_sent j = io_sent j'" and "\<not> isl r \<Longrightarrow> same_view j j'"
  using assms unfolding cut_blind_def by (metis fst_conv snd_conv)+

lemma cut_blind_read [startup_ops]: "cut_blind read_message"
  unfolding cut_blind_def
proof (intro allI impI)
  fix io io' assume v: "same_view io io'"
  obtain r reads rx where l: "read_loop (io_reads io) (io_rx_buf io) = (r, reads, rx)"
    by (cases "read_loop (io_reads io) (io_rx_buf io)")
  obtain r' reads' rx' where l': "read_loop (io_reads io') (io_rx_buf io') = (r', reads', rx')"
    by (cases "read_loop (io_reads io') (io_rx_buf io')")
  from v have c: "clean_reads (io_reads io)" "clean_reads (io_reads io')"
    and eq: "io_rx_buf io' @ concat (map projr (io_reads io')) = io_rx_buf io @ concat (map projr (io_reads io))"
    by (auto simp: same_view_def stream_bytes_def)
  from read_loop_spec [OF c(1) l] read_loop_spec [OF c(2) l'] eq v l l'
  show "fst (read_message io) = fst (read_message io') \<and>
      io_sent (snd (read_message io)) = io_sent (snd (read_message io')) \<and>
      (\<not> isl (fst (read_message io)) \<longrightarrow> same_view (snd (read_message io)) (snd (read_message io')))"
    by (auto simp: read_message_def same_view_def stream_bytes_def split: prod.splits sum.splits option.splits)
qed

lemma cut_blind_bind [startup_ops]:
  assumes "cut_blind m" and "\<And>a. cut_blind (f a)"
  shows "cut_blind (bindm m f)"
  unfolding cut_blind_def
proof (intro allI impI)
  fix io io' assume v: "same_view io io'"
  obtain r j where m: "m io = (r, j)" by (cases "m io")
  obtain r' j' where m': "m io' = (r', j')" by (cases "m io'")
  note d = cut_blindD [OF assms(1) v m m']
  from d assms(2) m m' show "fst (bindm m f io) = fst (bindm m f io') \<and>
      io_sent (snd (bindm m f io)) = io_sent (snd (bindm m f io')) \<and>
      (\<not> isl (fst (bindm m f io)) \<longrightarrow> same_view (snd (bindm m f io)) (snd (bindm m f io')))"
    by (cases r) (auto simp: bindm_def cut_blind_def)
qed

lemma cut_blind_return [startup_ops]: "cut_blind (of_result r)"
  by (auto simp: cut_blind_def of_result_def same_view_def)

lemma cut_blind_flush [startup_ops]: "cut_blind (startup_flush buf)"
  by (auto simp: cut_blind_def startup_flush_def same_view_def stream_bytes_def split: list.split option.split)

lemma cut_blind_send [startup_ops]: "cut_blind (send_message w)"
  by (auto simp: send_message_def cut_blind_return cut_blind_flush split: prod.split sum.split)

lemma cut_blind_expect [startup_ops]: "cut_blind (expect_sasl E what pick)"
  unfolding expect_sasl_def by (intro startup_ops)

lemma cut_blind_draw [startup_ops]: "cut_blind (draw_nonce E)"
  by (auto simp: cut_blind_def draw_nonce_def same_view_def stream_bytes_def)

lemma cut_blind_sasl [startup_ops]: "cut_blind (sasl_exchange E cfg mechanisms)"
  unfolding sasl_exchange_def Let_def by (intro startup_ops)

lemma cut_blind_auth_step [startup_ops]: "cut_blind (auth_step E cfg msg)"
  by (auto simp: auth_step_def intro!: startup_ops split: backend_message.split auth_request.split)

lemma authenticate_cut_blind:
  assumes "same_view io io'"
  shows "fst (authenticate E cfg io) = fst (authenticate E cfg io') \<and>
    io_sent (snd (authenticate E cfg io)) = io_sent (snd (authenticate E cfg io')) \<and>
    (\<not> isl (fst (authenticate E cfg io)) \<longrightarrow> same_view (snd (authenticate E cfg io)) (snd (authenticate E cfg io')))"
  using assms
proof (induction E cfg io arbitrary: io' rule: authenticate.induct)
  case (1 E cfg io)
  obtain r j where m: "read_message io = (r, j)" by (cases "read_message io")
  obtain r' j' where m': "read_message io' = (r', j')" by (cases "read_message io'")
  note d = cut_blindD [OF cut_blind_read 1(2) m m']
  show ?case
  proof (cases r)
    case (Inl e)
    with d(1) m m' have "authenticate E cfg io = (Inl e, j)" "authenticate E cfg io' = (Inl e, j')"
      by (simp_all add: authenticate_unfold)
    with d(2) show ?thesis by simp
  next
    case (Inr msg)
    with d have v: "same_view j j'" and r': "r' = Inr msg" by auto
    obtain s k where a: "auth_step E cfg msg j = (s, k)" by (cases "auth_step E cfg msg j")
    obtain s' k' where a': "auth_step E cfg msg j' = (s', k')" by (cases "auth_step E cfg msg j'")
    note d2 = cut_blindD [OF cut_blind_auth_step v a a'] and ms = m [unfolded Inr] m' [unfolded r']
    consider (fail) e where "s = Inl e" | (accept) "s = Inr True" | (more) "s = Inr False"
      by (cases s) auto
    then show ?thesis
    proof cases
      case fail
      with d2(1) a a' ms have "authenticate E cfg io = (Inl e, k)" "authenticate E cfg io' = (Inl e, k')"
        by (auto intro: authenticate_unfold(2))
      with d2(2) show ?thesis by simp
    next
      case accept
      with d2(1) a a' ms have "authenticate E cfg io = (Inr (), k)" "authenticate E cfg io' = (Inr (), k')"
        by (auto intro: authenticate_unfold(3))
      with d2(2,3) accept show ?thesis by simp
    next
      case more
      from d2(3) more have v2: "same_view k k'" by simp
      have "authenticate E cfg io = authenticate E cfg k" "authenticate E cfg io' = authenticate E cfg k'"
        using more d2(1) a a' ms by (simp_all add: authenticate_unfold)
      with 1(1) [OF m [symmetric] Inr a [symmetric] more _ v2] show ?thesis by simp
    qed
  qed
qed

lemma cut_blind_authenticate [startup_ops]: "cut_blind (authenticate E cfg)"
  unfolding cut_blind_def using authenticate_cut_blind by blast

lemma startup_loop_cut_blind:
  assumes "same_view io io'"
  shows "fst (startup_loop E ps key io) = fst (startup_loop E ps key io') \<and>
    io_sent (snd (startup_loop E ps key io)) = io_sent (snd (startup_loop E ps key io')) \<and>
    (\<not> isl (fst (startup_loop E ps key io)) \<longrightarrow>
       same_view (snd (startup_loop E ps key io)) (snd (startup_loop E ps key io')))"
  using assms
proof (induction E ps key io arbitrary: io' rule: startup_loop.induct)
  case (1 E ps key io)
  obtain r j where m: "read_message io = (r, j)" by (cases "read_message io")
  obtain r' j' where m': "read_message io' = (r', j')" by (cases "read_message io'")
  note d = cut_blindD [OF cut_blind_read 1(4) m m']
  show ?case
  proof (cases r)
    case (Inl e)
    with d(1,2) m m' show ?thesis
      using startup_loop.simps [of E ps key io] startup_loop.simps [of E ps key io'] by auto
  next
    case (Inr msg)
    with d have v: "same_view j j'" and r': "r' = Inr msg" by auto
    have eqs: "startup_loop E ps key io = (case msg of
             ParameterStatus name v \<Rightarrow> startup_loop E (ps(name \<mapsto> v)) key j
           | BackendKeyData process_id secret_key \<Rightarrow> startup_loop E ps (Some (process_id, secret_key)) j
           | NoticeResponse _ \<Rightarrow> startup_loop E ps key j
           | ReadyForQuery st \<Rightarrow> (Inr (ps, key, st), j)
           | ErrorResponse fs \<Rightarrow> (Inl (from_server_fields fs), j)
           | _ \<Rightarrow> (Inl (Protocol (''unexpected message after auth: '' @ env_debug E msg)), j))"
      "startup_loop E ps key io' = (case msg of
             ParameterStatus name v \<Rightarrow> startup_loop E (ps(name \<mapsto> v)) key j'
           | BackendKeyData process_id secret_key \<Rightarrow> startup_loop E ps (Some (process_id, secret_key)) j'
           | NoticeResponse _ \<Rightarrow> startup_loop E ps key j'
           | ReadyForQuery st \<Rightarrow> (Inr (ps, key, st), j')
           | ErrorResponse fs \<Rightarrow> (Inl (from_server_fields fs), j')
           | _ \<Rightarrow> (Inl (Protocol (''unexpected message after auth: '' @ env_debug E msg)), j'))"
      using m m' Inr r' by (subst startup_loop.simps, simp)+
    note ih = 1(1-3) [OF m [symmetric] Inr _ v]
    show ?thesis unfolding eqs using ih v d(2) by (cases msg) (simp_all add: fun_upd_def)
  qed
qed

lemma cut_blind_startup_loop [startup_ops]: "cut_blind (startup_loop E ps key)"
  unfolding cut_blind_def using startup_loop_cut_blind by blast

section \<open>Who is talked to\<close>

definition signed_by_server :: "startup_env \<Rightarrow> config \<Rightarrow> str list \<Rightarrow> bool" where
  "signed_by_server E cfg mechanisms =
     (\<exists>password scram nonce server_first fin server_final.
        cfg_password cfg = Some password \<and>
        select_scram_client mechanisms (env_binding E) password = Inr scram \<and>
        handle_server_first (env_crypto E) (start_with_nonce (env_crypto E) scram nonce) server_first = Inr fin \<and>
        verify_server_final (env_crypto E) fin server_final = Inr () \<and>
        (SCRAM_SHA_256_PLUS \<in> set mechanisms \<longrightarrow>
           (\<exists>binding. env_binding E = CbAvailable binding \<and> scc_channel_binding scram = Some binding)))"

lemma sasl_exchange_verified:
  assumes "sasl_exchange E cfg mechanisms io = (Inr b, io')"
  shows "signed_by_server E cfg mechanisms"
proof -
  from assms obtain password scram nonce server_first fin server_final where
    h: "cfg_password cfg = Some password" "select_scram_client mechanisms (env_binding E) password = Inr scram"
      "handle_server_first (env_crypto E) (start_with_nonce (env_crypto E) scram nonce) server_first = Inr fin"
      "verify_server_final (env_crypto E) fin server_final = Inr ()"
    by (auto simp: sasl_exchange_def Let_def bindm_eq_Inr_iff of_result_eq need_password_def ok_or_eq_Inr_iff)
  moreover from h(2) have "SCRAM_SHA_256_PLUS \<in> set mechanisms \<longrightarrow>
      (\<exists>binding. env_binding E = CbAvailable binding \<and> scc_channel_binding scram = Some binding)"
    by (auto simp: select_scram_client_def with_channel_binding_def split: channel_binding_state.splits if_splits)
  ultimately show ?thesis unfolding signed_by_server_def by blast
qed

text \<open>Nothing but the startup message is sent without a password.\<close>

definition silent :: "'a startup \<Rightarrow> bool" where
  "silent m = (\<forall>io. io_sent (snd (m io)) = io_sent io)"

lemma silent_bind [startup_ops]: "silent m \<Longrightarrow> (\<And>a. silent (f a)) \<Longrightarrow> silent (bindm m f)"
  unfolding silent_def bindm_def by (auto split: prod.split sum.split) (metis snd_conv)+

lemma silent_read [startup_ops]: "silent read_message"
  by (simp add: silent_def read_message_def split: prod.split)

lemma silent_return [startup_ops]: "silent (of_result r)"
  by (simp add: silent_def of_result_def)

lemma silent_fail: "silent (bindm (of_result (Inl e)) f)"
  by (simp add: silent_def bindm_def of_result_def)

lemma silent_auth_step: "cfg_password cfg = None \<Longrightarrow> silent (auth_step E cfg msg)"
  by (auto simp: auth_step_def sasl_exchange_def need_password_def
      intro!: startup_ops silent_fail split: backend_message.split auth_request.split)

lemma authenticate_silent: "cfg_password cfg = None \<Longrightarrow> io_sent (snd (authenticate E cfg io)) = io_sent io"
proof (induction E cfg io rule: authenticate.induct)
  case (1 E cfg io)
  have r: "read_message io = (Inr msg, j) \<Longrightarrow> io_sent j = io_sent io"
       "read_message io = (Inl e, j) \<Longrightarrow> io_sent j = io_sent io" for msg j e
    using silent_read unfolding silent_def by (metis snd_conv)+
  have s: "auth_step E cfg msg j = (x, k) \<Longrightarrow> io_sent k = io_sent j" for msg j k x
    using silent_auth_step [OF 1(2)] unfolding silent_def by (metis snd_conv)
  show ?case
    by (subst authenticate.simps) (use 1 r s in \<open>auto split: prod.split sum.split\<close>)
qed

section \<open>Runs on documented messages\<close>

lemma read_message_frame:
  assumes "wf_message m" and "io_rx_buf io = encode_frame m @ rest"
  shows "read_message io = (Inr m, io\<lparr>io_rx_buf := rest\<rparr>)"
proof -
  have "decode (io_rx_buf io) = (Inr (Some m), rest)"
    unfolding assms(2) using assms(1) by (rule decode_encode_frame_aux)
  then have "read_loop (io_reads io) (io_rx_buf io) = (Inr m, io_reads io, rest)"
    by (cases "io_reads io") simp_all
  then show ?thesis by (simp add: read_message_def)
qed

text \<open>The messages between \<open>AuthenticationOk\<close> and \<open>ReadyForQuery\<close>, and what they leave behind.\<close>

primrec settled ::
    "(str \<rightharpoonup> str) \<times> (i32 \<times> i32) option \<Rightarrow> backend_message list \<Rightarrow> (str \<rightharpoonup> str) \<times> (i32 \<times> i32) option" where
  "settled acc [] = acc"
| "settled acc (m # ms) =
     (case m of
        ParameterStatus n v \<Rightarrow> settled ((fst acc)(n \<mapsto> v), snd acc) ms
      | BackendKeyData p k \<Rightarrow> settled (fst acc, Some (p, k)) ms
      | _ \<Rightarrow> settled acc ms)"

definition settling :: "backend_message \<Rightarrow> bool" where
  "settling m = (case m of ParameterStatus _ _ \<Rightarrow> True | BackendKeyData _ _ \<Rightarrow> True | NoticeResponse _ \<Rightarrow> True | _ \<Rightarrow> False)"

lemma startup_loop_messages:
  "list_all (\<lambda>m. settling m \<and> wf_message m) ms \<Longrightarrow>
     io_rx_buf io = concat (map encode_frame (ms @ [ReadyForQuery st])) @ extra \<Longrightarrow>
     startup_loop E ps key io = (Inr (fst (settled (ps, key) ms), snd (settled (ps, key) ms), st), io\<lparr>io_rx_buf := extra\<rparr>)"
proof (induction ms arbitrary: ps key io)
  case Nil
  then have "read_message io = (Inr (ReadyForQuery st), io\<lparr>io_rx_buf := extra\<rparr>)"
    by (intro read_message_frame) (simp_all add: wf_message_def)
  then show ?case by (subst startup_loop.simps) simp
next
  case (Cons m ms)
  let ?io = "io\<lparr>io_rx_buf := concat (map encode_frame (ms @ [ReadyForQuery st])) @ extra\<rparr>"
  have r: "read_message io = (Inr m, ?io)"
    using Cons.prems by (intro read_message_frame) simp_all
  have "startup_loop E ps' key' ?io =
      (Inr (fst (settled (ps', key') ms), snd (settled (ps', key') ms), st), io\<lparr>io_rx_buf := extra\<rparr>)" for ps' key'
    using Cons.IH [of ?io ps' key'] Cons.prems(1) by simp
  with r Cons.prems(1) show ?case
    by (subst startup_loop.simps) (auto simp: settling_def split: backend_message.splits)
qed

lemma authenticate_trusted:
  assumes "io_rx_buf io = encode_frame (Authentication AuthOk) @ rest"
  shows "authenticate E cfg io = (Inr (), io\<lparr>io_rx_buf := rest\<rparr>)"
proof -
  have "wf_message (Authentication AuthOk)" by (simp add: wf_message_def)
  from read_message_frame [OF this assms] show ?thesis
    by (rule authenticate_unfold(3)) (simp add: auth_step_def of_result_def)
qed

definition total_frontend :: postgres_frontend where
  "total_frontend =
     \<lparr>pg_query = (\<lambda>_. ([], None)), pg_parse = (\<lambda>_ _ _. ([], None)), pg_bind = (\<lambda>_ _ _ _ _. ([], None)),
      pg_describe = (\<lambda>_ _. ([], None)), pg_close = (\<lambda>_ _. ([], None)), pg_execute = (\<lambda>_ _. ([], None)),
      pg_sync = [], pg_terminate = [], pg_copy_data = (\<lambda>_. ([], None)), pg_copy_done = [],
      pg_copy_fail = (\<lambda>_. ([], None)), pg_startup = (\<lambda>_. ([], None)), pg_password = (\<lambda>_. ([], None)),
      pg_sasl_initial = (\<lambda>_ m. (m, None)), pg_sasl_response = (\<lambda>m. (m, None))\<rparr>"

definition demo_env :: startup_env where
  "demo_env =
     \<lparr>env_frontend = total_frontend, env_crypto = toy_crypto, env_binding = CbUnavailable,
      env_nonce = (\<lambda>_. [1, 2]), env_debug = (\<lambda>_. [])\<rparr>"

section \<open>Claims\<close>





text \<open>Without a configured password, nothing is sent while authenticating, whatever the server asks for.\<close>

theorem no_password_nothing_sent:
  assumes "cfg_password cfg = None"
  shows "io_sent (snd (authenticate E cfg io)) = io_sent io"
  using assms by (rule authenticate_silent)

theorem no_password_nothing_sent_witness:
  "\<forall>E io. io_sent (snd (authenticate E (config_new ''db'' 5432 ''u'' ''d'') io)) = io_sent io"
  using no_password_nothing_sent [of "config_new ''db'' 5432 ''u'' ''d''"]
  by (simp add: config_new_def config_for_def)

text \<open>
  The bytes that arrived behind \<open>ReadyForQuery\<close> are lost: after a startup without password, the
  parameters and the key are those of the messages received, but what the receive buffer still
  holds (\<open>extra\<close>) is not part of the stream that the driver task reads.
\<close>

theorem startup_drops_read_ahead:
  assumes "fe_startup (env_frontend E) (startup_params cfg) [] = (Inr (), hello)" and "io_writes io = []"
    and "list_all (\<lambda>m. settling m \<and> wf_message m) ms"
    and "io_rx_buf io = concat (map encode_frame (Authentication AuthOk # ms @ [ReadyForQuery st])) @ extra"
  shows "connect E cfg retain (Inr io) =
    Inr \<lparr>sd_params = fst (settled (Map.empty, None) ms), sd_key_data = snd (settled (Map.empty, None) ms),
         sd_transaction_status = st, sd_retain = retain, sd_stream = io_reads io\<rparr>"
proof -
  let ?io = "io\<lparr>io_sent := io_sent io @ [hello]\<rparr>"
  have "send_message (fe_startup (env_frontend E) (startup_params cfg)) io = (Inr (), ?io)"
    using assms(1,2) by (simp add: send_message_def startup_flush_def)
  moreover have "authenticate E cfg ?io =
      (Inr (), ?io\<lparr>io_rx_buf := concat (map encode_frame (ms @ [ReadyForQuery st])) @ extra\<rparr>)"
    using assms(4) by (intro authenticate_trusted) simp
  moreover have "startup_loop E Map.empty None (?io\<lparr>io_rx_buf := concat (map encode_frame (ms @ [ReadyForQuery st])) @ extra\<rparr>) =
      (Inr (fst (settled (Map.empty, None) ms), snd (settled (Map.empty, None) ms), st), ?io\<lparr>io_rx_buf := extra\<rparr>)"
    using startup_loop_messages [OF assms(3), where io = "?io\<lparr>io_rx_buf := concat (map encode_frame (ms @ [ReadyForQuery st])) @ extra\<rparr>"]
    by simp
  ultimately show ?thesis by (simp add: connect_def startup_phase_def bindm_def)
qed

theorem startup_drops_read_ahead_witness:
  "connect demo_env (config_new ''db'' 5432 ''u'' ''d'') False
     (Inr \<lparr>io_reads = [], io_rx_buf = concat (map encode_frame [Authentication AuthOk, BackendKeyData 7 9, ReadyForQuery 73]) @
        encode_frame (ParameterStatus ''TimeZone'' ''UTC''), io_writes = [], io_sent = [], io_draws = 0\<rparr>) =
   Inr \<lparr>sd_params = Map.empty, sd_key_data = Some (7, 9), sd_transaction_status = 73, sd_retain = False, sd_stream = []\<rparr>"
proof -
  have hello: "fe_startup (env_frontend demo_env) (startup_params (config_new ''db'' 5432 ''u'' ''d'')) [] = (Inr (), [])"
    by (simp add: fe_startup_def demo_env_def total_frontend_def emit_def)
  have ms: "list_all (\<lambda>m. settling m \<and> wf_message m) [BackendKeyData 7 9]"
    by (simp add: settling_def wf_message_def)
  from startup_drops_read_ahead [OF hello _ ms, where st = 73 and extra = "encode_frame (ParameterStatus ''TimeZone'' ''UTC'')"]
  show ?thesis by simp
qed

end
