(* ===== verification/Migration_Filename.thy ===== *)
theory Migration_Filename
  imports Babar_Error "HOL-Library.List_Lexorder" "HOL-Library.Char_ord"
begin

text \<open>
  Migration identifiers, file names and checksums (\<open>migration/filename.rs\<close>,
  \<open>migration/checksum.rs\<close>): the grammar \<open><version>__<name>.<up|down>.sql\<close>, its parser and renderer,
  the order of identifiers, and the hexadecimal form of a checksum.
\<close>

section \<open>Identifiers\<close>

datatype migration_id = MigrationId (mid_version: u64) (mid_name: str)

definition EXPECTED_FILE_NAME :: str where
  "EXPECTED_FILE_NAME = ''<version>__<name>.<up|down>.sql''"

definition is_ascii_lowercase :: "char \<Rightarrow> bool" where
  "is_ascii_lowercase c = (97 \<le> (of_char c :: nat) \<and> (of_char c :: nat) \<le> 122)"

definition is_ascii_digit :: "char \<Rightarrow> bool" where
  "is_ascii_digit c = (48 \<le> (of_char c :: nat) \<and> (of_char c :: nat) \<le> 57)"

definition is_ascii_hexdigit :: "char \<Rightarrow> bool" where
  "is_ascii_hexdigit c =
     (is_ascii_digit c \<or> (97 \<le> (of_char c :: nat) \<and> (of_char c :: nat) \<le> 102)
      \<or> (65 \<le> (of_char c :: nat) \<and> (of_char c :: nat) \<le> 70))"

definition name_char :: "char \<Rightarrow> bool" where
  "name_char c = (is_ascii_lowercase c \<or> is_ascii_digit c \<or> c = CHR ''_'')"

definition validate_name :: "str \<Rightarrow> migration_error + unit" where
  "validate_name name =
     (if name = [] \<or> take 1 name = ''_'' \<or> (name \<noteq> [] \<and> last name = CHR ''_'')
         \<or> contains ''__'' name \<or> \<not> list_all name_char name
      then Inl (InvalidName name) else Inr ())"

definition migration_id_new :: "u64 \<Rightarrow> str \<Rightarrow> migration_error + migration_id" where
  "migration_id_new version name =
     bindr (validate_name name) (\<lambda>_. Inr (MigrationId version name))"

definition show_migration_id :: "migration_id \<Rightarrow> str" where
  "show_migration_id i = show_nat (unat (mid_version i)) @ ''__'' @ mid_name i"

text \<open>The derived order: by version, then by the bytes of the name.\<close>

instantiation migration_id :: linorder
begin

definition less_migration_id :: "migration_id \<Rightarrow> migration_id \<Rightarrow> bool" where
  "less_migration_id a b =
     (mid_version a < mid_version b \<or> (mid_version a = mid_version b \<and> mid_name a < mid_name b))"

definition less_eq_migration_id :: "migration_id \<Rightarrow> migration_id \<Rightarrow> bool" where
  "less_eq_migration_id a b =
     (mid_version a < mid_version b \<or> (mid_version a = mid_version b \<and> mid_name a \<le> mid_name b))"

instance
  by standard
    (auto simp: less_migration_id_def less_eq_migration_id_def intro: migration_id.expand)

end

section \<open>File names\<close>

datatype migration_kind = Up | Down

primrec kind_suffix :: "migration_kind \<Rightarrow> str" where
  "kind_suffix Up = ''up''"
| "kind_suffix Down = ''down''"

record migration_filename =
  mf_id :: migration_id
  mf_kind :: migration_kind

definition filename_parse :: "str \<Rightarrow> migration_error + migration_filename" where
  "filename_parse file_name =
     (let bad = InvalidFileName file_name EXPECTED_FILE_NAME
      in bindr (ok_or bad (strip_suffix ''.sql'' file_name)) (\<lambda>stem.
         bindr
           (case strip_suffix ''.up'' stem of
              Some base \<Rightarrow> Inr (base, Up)
            | None \<Rightarrow>
                (case strip_suffix ''.down'' stem of
                   Some base \<Rightarrow> Inr (base, Down)
                 | None \<Rightarrow> Inl bad)) (\<lambda>(base, kind).
         bindr (ok_or bad (split_once ''__'' base)) (\<lambda>(version, name).
         bindr (map_err (\<lambda>_. InvalidVersion version) (parse_u64 version)) (\<lambda>v.
         bindr (migration_id_new v name) (\<lambda>i. Inr \<lparr>mf_id = i, mf_kind = kind\<rparr>))))))"

definition file_name :: "migration_filename \<Rightarrow> str" where
  "file_name f = show_migration_id (mf_id f) @ ''.'' @ kind_suffix (mf_kind f) @ ''.sql''"

definition valid_id :: "migration_id \<Rightarrow> bool" where
  "valid_id i = (validate_name (mid_name i) = Inr ())"

section \<open>Checksums\<close>

text \<open>The digest is 32 bytes; \<open>Sha256::digest\<close> of the \<open>sha2\<close> crate is the parameter \<open>sha256\<close>.\<close>

type_synonym checksum = bytes

definition checksum_of_contents :: "(bytes \<Rightarrow> bytes) \<Rightarrow> str \<Rightarrow> checksum" where
  "checksum_of_contents sha256 contents = sha256 (as_bytes contents)"

fun pairs_of :: "str \<Rightarrow> str list" where
  "pairs_of (a # b # cs) = [a, b] # pairs_of cs"
| "pairs_of _ = []"

definition checksum_parse :: "str \<Rightarrow> migration_error + checksum" where
  "checksum_parse hex =
     (if length hex \<noteq> 64 \<or> \<not> list_all is_ascii_hexdigit hex then Inl (InvalidChecksum hex)
      else collect_r (\<lambda>p. map_err (\<lambda>_. InvalidChecksum hex) (parse_u8_hex p)) (pairs_of hex))"

definition to_hex :: "checksum \<Rightarrow> str" where
  "to_hex cs = concat (map hex2 cs)"

section \<open>Lemmas\<close>

lemma show_nat_no_underscore: "c \<in> set (show_nat n) \<Longrightarrow> c \<noteq> CHR ''_''"
proof
  assume "c \<in> set (show_nat n)" and "c = CHR ''_''"
  then obtain d where "d < 10" "digit_char d = CHR ''_''"
    using show_nat_digits [of c n] by metis
  then have "of_char (digit_char d) = (95 :: nat)" by simp
  with \<open>d < 10\<close> show False by (simp add: of_char_digit_char)
qed

lemma split_once_id: "split_once ''__'' (show_nat n @ ''__'' @ name) = Some (show_nat n, name)"
  by (rule split_once_append) (auto dest: show_nat_no_underscore)

lemma strip_up_down: "strip_suffix ''.up'' (s @ ''.down'') = None"
  by (auto simp: strip_suffix_def)

lemma filename_parse_file_name_aux: "valid_id (mf_id f) \<Longrightarrow> filename_parse (file_name f) = Inr f"
proof -
  assume valid: "valid_id (mf_id f)"
  define b where "b = show_migration_id (mf_id f)"
  have split: "split_once ''__'' b = Some (show_nat (unat (mid_version (mf_id f))), mid_name (mf_id f))"
    using split_once_id by (simp add: b_def show_migration_id_def)
  have new: "migration_id_new (mid_version (mf_id f)) (mid_name (mf_id f)) = Inr (mf_id f)"
    using valid by (simp add: migration_id_new_def valid_id_def)
  show ?thesis
  proof (cases "mf_kind f")
    case Up
    have "strip_suffix ''.sql'' (b @ ''.up.sql'') = Some (b @ ''.up'')"
      using strip_suffix_append [of "''.sql''" "b @ ''.up''"] by simp
    with Up split new show ?thesis
      by (simp add: filename_parse_def file_name_def Let_def flip: b_def)
  next
    case Down
    have "strip_suffix ''.sql'' (b @ ''.down.sql'') = Some (b @ ''.down'')"
      using strip_suffix_append [of "''.sql''" "b @ ''.down''"] by simp
    with Down split new show ?thesis
      by (simp add: filename_parse_def file_name_def Let_def strip_up_down flip: b_def)
  qed
qed

lemma filename_parse_valid: "filename_parse s = Inr f \<Longrightarrow> valid_id (mf_id f)"
  by (auto simp: filename_parse_def Let_def bindr_eq_Inr_iff migration_id_new_def valid_id_def
      split: prod.splits)

lemma pairs_of_append2: "pairs_of ([a, b] @ cs) = [a, b] # pairs_of cs"
  by simp

lemma pairs_of_to_hex: "pairs_of (to_hex cs) = map hex2 cs"
  by (induction cs) (auto simp: to_hex_def hex2_def)

lemma length_to_hex: "length (to_hex cs) = 2 * length cs"
  by (induction cs) (auto simp: to_hex_def hex2_def)

lemma digit_char_hex: "d < 16 \<Longrightarrow> is_ascii_hexdigit (digit_char d)"
  by (auto simp: is_ascii_hexdigit_def is_ascii_digit_def of_char_digit_char)

lemma hex2_hexdigits: "list_all is_ascii_hexdigit (hex2 b)"
  using unat_byte_lt [of b] by (simp add: hex2_def digit_char_hex less_mult_imp_div_less)

lemma to_hex_hexdigits: "list_all is_ascii_hexdigit (to_hex cs)"
  by (induction cs) (auto simp: to_hex_def hex2_hexdigits)

lemma checksum_parse_to_hex_aux: "length cs = 32 \<Longrightarrow> checksum_parse (to_hex cs) = Inr cs"
  by (simp add: checksum_parse_def length_to_hex to_hex_hexdigits pairs_of_to_hex
      collect_r_eq_Inr_iff list_all2_map1 list_all2_refl)

lemma length_pairs_of: "length (pairs_of s) = length s div 2"
  by (induction s rule: pairs_of.induct) auto

lemma checksum_parse_length: "checksum_parse hex = Inr cs \<Longrightarrow> length cs = 32"
  by (auto simp: checksum_parse_def length_pairs_of split: if_splits dest!: collect_r_length)

section \<open>Claims\<close>

text \<open>
  A rendered file name parses back to the same identifier and direction, for every identifier
  that the constructor accepts.
\<close>

lemma filename_parse_file_name:
  assumes "migration_id_new version name = Inr i"
  shows "filename_parse (file_name \<lparr>mf_id = i, mf_kind = kind\<rparr>) = Inr \<lparr>mf_id = i, mf_kind = kind\<rparr>"
  by (rule filename_parse_file_name_aux)
    (use assms in \<open>auto simp: migration_id_new_def bindr_eq_Inr_iff valid_id_def\<close>)

lemma filename_parse_file_name_witness:
  "filename_parse (file_name \<lparr>mf_id = MigrationId 1 ''init'', mf_kind = Up\<rparr>) =
     Inr \<lparr>mf_id = MigrationId 1 ''init'', mf_kind = Up\<rparr>"
  by (rule filename_parse_file_name [of 1 "''init''"])
    (simp add: migration_id_new_def validate_name_def contains_def name_char_def
      is_ascii_lowercase_def)

text \<open>
  A checksum survives the migration state table: its hexadecimal form has 64 characters and
  parses back to the same 32 bytes.
\<close>

lemma checksum_parse_to_hex:
  assumes "length cs = 32"
  shows "checksum_parse (to_hex cs) = Inr cs \<and> length (to_hex cs) = 64"
  using assms by (simp add: checksum_parse_to_hex_aux length_to_hex)

lemma checksum_parse_to_hex_witness:
  "checksum_parse (to_hex (replicate 32 171)) = Inr (replicate 32 171)
   \<and> length (to_hex (replicate 32 171)) = 64"
  by (rule checksum_parse_to_hex) simp

end
