(* ===== verification/Migration_Model.thy ===== *)
theory Migration_Model
  imports Migration_Filename "HOL-Library.Product_Lexorder" "HOL-Library.Multiset"
begin

text \<open>
  Migration scripts, pairs and applied rows (\<open>migration/model.rs\<close>), the assets of a source and
  their discovery on disk (\<open>migration/source.rs\<close>), and the state table's name and DDL
  (\<open>migration/table.rs\<close>).
\<close>

section \<open>Scripts\<close>

datatype transaction_mode = Transactional | NonTransactional

primrec mode_as_str :: "transaction_mode \<Rightarrow> str" where
  "mode_as_str Transactional = ''transactional''"
| "mode_as_str NonTransactional = ''non_transactional''"

definition parse_directive :: "str \<Rightarrow> str \<Rightarrow> migration_error + transaction_mode" where
  "parse_directive value directive =
     (if value = ''transactional'' then Inr Transactional
      else if value = ''none'' \<or> value = ''non_transactional'' then Inr NonTransactional
      else Inl (InvalidDirective directive ''supported values are transactional and none''))"

text \<open>
  The loop over the lines of a file: blank lines are skipped, the first other line that is not a
  pragma ends the metadata. \<open>saw\<close> is \<open>saw_transaction\<close>.
\<close>

fun metadata_loop :: "transaction_mode \<Rightarrow> bool \<Rightarrow> str list \<Rightarrow> migration_error + transaction_mode" where
  "metadata_loop mode saw [] = Inr mode"
| "metadata_loop mode saw (raw_line # ls) =
     (let trimmed = trim raw_line
      in if trimmed = [] then metadata_loop mode saw ls
         else case strip_prefix ''--!'' trimmed of
           None \<Rightarrow> Inr mode
         | Some directive \<Rightarrow>
             (case strip_prefix ''babar:'' (trim directive) of
                None \<Rightarrow> Inl (InvalidDirective raw_line ''expected `--! babar:<key> = <value>`'')
              | Some d \<Rightarrow>
                  (case split_once ''='' d of
                     None \<Rightarrow> Inl (InvalidDirective raw_line ''expected `key = value`'')
                   | Some (k, v) \<Rightarrow>
                       (if trim k = ''transaction'' then
                          (if saw then Inl (InvalidDirective raw_line
                                              ''duplicate transaction directive'')
                           else bindr (parse_directive (trim v) raw_line)
                                  (\<lambda>mode'. metadata_loop mode' True ls))
                        else Inl (InvalidDirective raw_line
                                (''unsupported directive key `'' @ trim k @ ''`''))))))"

definition metadata_parse :: "str \<Rightarrow> migration_error + transaction_mode" where
  "metadata_parse contents = metadata_loop Transactional False (lines contents)"

record migration_script =
  ms_file :: migration_filename
  ms_mode :: transaction_mode
  ms_contents :: str
  ms_checksum :: checksum

abbreviation script_id :: "migration_script \<Rightarrow> migration_id" where
  "script_id s \<equiv> mf_id (ms_file s)"

abbreviation script_kind :: "migration_script \<Rightarrow> migration_kind" where
  "script_kind s \<equiv> mf_kind (ms_file s)"

definition script_new ::
    "(bytes \<Rightarrow> bytes) \<Rightarrow> migration_filename \<Rightarrow> str \<Rightarrow> migration_error + migration_script" where
  "script_new sha256 f contents =
     bindr (metadata_parse contents) (\<lambda>mode.
       Inr \<lparr>ms_file = f, ms_mode = mode, ms_contents = contents,
            ms_checksum = checksum_of_contents sha256 contents\<rparr>)"

record migration_pair =
  mp_id :: migration_id
  mp_up :: migration_script
  mp_down :: migration_script

definition pair_new :: "migration_script \<Rightarrow> migration_script \<Rightarrow> migration_error + migration_pair" where
  "pair_new up down =
     (if script_kind up \<noteq> Up \<or> script_kind down \<noteq> Down \<or> script_id up \<noteq> script_id down
      then Inl (PairMismatch (file_name (ms_file up)) (file_name (ms_file down)))
      else Inr \<lparr>mp_id = script_id up, mp_up = up, mp_down = down\<rparr>)"

text \<open>One row of the state table; \<open>applied_at\<close> is nanoseconds since the Unix epoch.\<close>

record applied_migration =
  am_id :: migration_id
  am_up_checksum :: checksum
  am_down_checksum :: checksum
  am_up_mode :: transaction_mode
  am_down_mode :: transaction_mode
  am_applied_at :: nat

section \<open>Paths and assets\<close>

text \<open>
  A path is its bytes. \<open>path_components\<close> is \<open>Path::components\<close> on Unix (repeated separators and
  inner dots vanish), as keys in the order of \<open>Path::cmp\<close>: root, current, parent, normal.
\<close>

definition component_key :: "str \<Rightarrow> nat \<times> str" where
  "component_key p = (if p = ''..'' then (2, []) else (3, p))"

definition path_components :: "str \<Rightarrow> (nat \<times> str) list" where
  "path_components path =
     (let parts = split_on (CHR ''/'') path;
          normal = map component_key (filter (\<lambda>p. p \<noteq> [] \<and> p \<noteq> ''.'') parts)
      in if take 1 path = ''/'' then (0, []) # normal
         else if hd parts = ''.'' then (1, []) # normal
         else normal)"

definition path_file_name :: "str \<Rightarrow> str option" where
  "path_file_name path =
     (case rev (path_components path) of
        (n, p) # _ \<Rightarrow> (if n = 3 then Some p else None)
      | [] \<Rightarrow> None)"

definition to_str :: "str \<Rightarrow> str option" where
  "to_str s = (if valid_str s then Some s else None)"

definition path_extension :: "str \<Rightarrow> str option" where
  "path_extension path =
     Option.bind (path_file_name path) (\<lambda>name.
       let ps = split_on (CHR ''.'') name
       in if length ps < 2 \<or> (length ps = 2 \<and> hd ps = []) then None else Some (last ps))"

definition eq_ignore_ascii_case :: "str \<Rightarrow> str \<Rightarrow> bool" where
  "eq_ignore_ascii_case s t =
     (let low = (\<lambda>c. let n = of_char c :: nat
                     in if 65 \<le> n \<and> n \<le> 90 then char_of (n + 32) else c)
      in map low s = map low t)"

record migration_asset =
  asset_path :: str
  asset_contents :: str

definition asset_parse :: "(bytes \<Rightarrow> bytes) \<Rightarrow> migration_asset \<Rightarrow> migration_error + migration_script" where
  "asset_parse sha256 a =
     bindr (ok_or (InvalidSourcePath (asset_path a) ''path must end in a UTF-8 file name'')
              (Option.bind (path_file_name (asset_path a)) to_str)) (\<lambda>name.
     bindr (filename_parse name) (\<lambda>f. script_new sha256 f (asset_contents a)))"

section \<open>Discovery on disk\<close>

text \<open>
  The file system is a parameter: the kind of the file behind a path, the entries of a directory
  (each of which may fail) and the text of a file; failures carry the rendered \<open>io::Error\<close>.
\<close>

datatype file_kind = IsDir | IsFile | IsOther

record filesystem =
  fs_metadata :: "str \<Rightarrow> str + file_kind"
  fs_read_dir :: "str \<Rightarrow> str + (str + str) list"
  fs_read_to_string :: "str \<Rightarrow> str + str"

definition load_entry ::
    "filesystem \<Rightarrow> str \<Rightarrow> str + str \<Rightarrow> migration_error + migration_asset option" where
  "load_entry fs root entry =
     bindr (map_err (InvalidSourcePath root) entry) (\<lambda>path.
     bindr (map_err (InvalidSourcePath path) (fs_metadata fs path)) (\<lambda>kind.
       if kind \<noteq> IsFile then Inr None
       else case Option.bind (path_file_name path) to_str of
         None \<Rightarrow> Inl (InvalidSourcePath path ''path must end in a UTF-8 file name'')
       | Some _ \<Rightarrow>
           (if \<not> (case path_extension path of None \<Rightarrow> False
                   | Some e \<Rightarrow> eq_ignore_ascii_case e ''sql'') then Inr None
            else bindr (map_err (InvalidSourcePath path) (fs_read_to_string fs path))
                   (\<lambda>contents. Inr (Some \<lparr>asset_path = path, asset_contents = contents\<rparr>)))))"

definition filesystem_load :: "filesystem \<Rightarrow> str \<Rightarrow> migration_error + migration_asset list" where
  "filesystem_load fs root =
     bindr (map_err (InvalidSourcePath root) (fs_metadata fs root)) (\<lambda>kind.
       if kind \<noteq> IsDir then Inl (InvalidSourcePath root ''path must point to a directory'')
       else bindr (map_err (InvalidSourcePath root) (fs_read_dir fs root)) (\<lambda>entries.
         bindr (collect_r (load_entry fs root) entries) (\<lambda>assets.
           Inr (sort_key (\<lambda>a. path_components (asset_path a))
                  (List.map_filter (\<lambda>x. x) assets)))))"

section \<open>The state table\<close>

record migration_table =
  mt_schema :: str
  mt_name :: str

definition default_table :: migration_table where
  "default_table = \<lparr>mt_schema = ''public'', mt_name = ''babar_schema_migrations''\<rparr>"

definition DEFAULT_MIGRATION_ADVISORY_LOCK_ID :: int where
  "DEFAULT_MIGRATION_ADVISORY_LOCK_ID = 0x6261626172"

definition validate_part :: "str \<Rightarrow> str \<Rightarrow> str \<Rightarrow> migration_error + unit" where
  "validate_part schema name part =
     (let value = (if part = ''schema'' then schema else name)
      in if trim value = [] \<or> char_of (0 :: nat) \<in> set value
         then Inl (InvalidTable (schema @ ''.'' @ name)
                (part @ '' must be non-empty and cannot contain NUL''))
         else Inr ())"

definition table_new :: "str \<Rightarrow> str \<Rightarrow> migration_error + migration_table" where
  "table_new schema name =
     bindr (validate_part schema name ''schema'') (\<lambda>_.
     bindr (validate_part schema name ''table'') (\<lambda>_.
       Inr \<lparr>mt_schema = schema, mt_name = name\<rparr>))"

definition quote_ident :: "str \<Rightarrow> str" where
  "quote_ident value = [dquote] @ replace_char dquote [dquote, dquote] value @ [dquote]"

definition qualified_name :: "migration_table \<Rightarrow> str" where
  "qualified_name t = quote_ident (mt_schema t) @ ''.'' @ quote_ident (mt_name t)"

definition quoted :: "str \<Rightarrow> str" where
  "quoted s = [squote] @ s @ [squote]"

definition create_if_missing_sql :: "migration_table \<Rightarrow> str" where
  "create_if_missing_sql t =
     ''CREATE TABLE IF NOT EXISTS '' @ qualified_name t @ '' ('' @
     ''version bigint PRIMARY KEY, '' @
     ''name text NOT NULL, '' @
     ''up_checksum text NOT NULL, '' @
     ''down_checksum text NOT NULL, '' @
     ''up_transaction_mode text NOT NULL CHECK (up_transaction_mode IN ('' @
     quoted ''transactional'' @ '', '' @ quoted ''non_transactional'' @ '')), '' @
     ''down_transaction_mode text NOT NULL CHECK (down_transaction_mode IN ('' @
     quoted ''transactional'' @ '', '' @ quoted ''non_transactional'' @ '')), '' @
     ''applied_at timestamptz NOT NULL DEFAULT CURRENT_TIMESTAMP'' @
     '')''"

section \<open>Lemmas\<close>

lemma parse_directive_as_str [simp]: "parse_directive (mode_as_str m) d = Inr m"
  by (cases m) (simp_all add: parse_directive_def)

lemma script_new_Inr:
  "script_new sha f c = Inr s \<Longrightarrow>
   ms_file s = f \<and> ms_contents s = c \<and> ms_checksum s = sha (as_bytes c) \<and> metadata_parse c = Inr (ms_mode s)"
  by (auto simp: script_new_def bindr_eq_Inr_iff checksum_of_contents_def)

lemma pair_new_Inr_iff:
  "pair_new up down = Inr p \<longleftrightarrow>
   script_kind up = Up \<and> script_kind down = Down \<and> script_id up = script_id down
   \<and> p = \<lparr>mp_id = script_id up, mp_up = up, mp_down = down\<rparr>"
  by (auto simp: pair_new_def)

lemma asset_parse_valid: "asset_parse sha a = Inr s \<Longrightarrow> valid_id (script_id s)"
  by (auto simp: asset_parse_def bindr_eq_Inr_iff dest!: script_new_Inr filename_parse_valid)

text \<open>
  Inside a quoted identifier every double quote is doubled, so the closing quote is the only
  unpaired one: reading the identifier back gives the original text and leaves the rest.
\<close>

fun read_quoted :: "str \<Rightarrow> (str \<times> str) option" where
  "read_quoted [] = None"
| "read_quoted (c # cs) =
     (if c = dquote then
        (case cs of
           d # ds \<Rightarrow> (if d = dquote then map_option (\<lambda>(s, r). (dquote # s, r)) (read_quoted ds)
                     else Some ([], cs))
         | [] \<Rightarrow> Some ([], []))
      else map_option (\<lambda>(s, r). (c # s, r)) (read_quoted cs))"

lemma read_quoted_replace:
  "take 1 rest \<noteq> [dquote] \<Longrightarrow>
   read_quoted (replace_char dquote [dquote, dquote] s @ dquote # rest) = Some (s, rest)"
proof (induction s)
  case Nil
  then show ?case by (cases rest) (auto simp: replace_char_def)
next
  case (Cons c s)
  then show ?case by (auto simp: replace_char_def)
qed

end
