(* ===== verification/BTree_Map.thy ===== *)
theory BTree_Map
  imports Babar_Prelude
begin

text \<open>
  The standard library's \<open>BTreeMap\<close>: an association list in strictly increasing key order. The
  interface the crate relies on (lookup after insertion, iteration in key order) is the locale
  \<open>ordered_map\<close>; the association list is its interpretation.
\<close>

fun bt_insert :: "'k::linorder \<Rightarrow> 'v \<Rightarrow> ('k \<times> 'v) list \<Rightarrow> ('k \<times> 'v) list" where
  "bt_insert k v [] = [(k, v)]"
| "bt_insert k v ((k', v') # m) =
     (if k < k' then (k, v) # (k', v') # m
      else if k = k' then (k, v) # m
      else (k', v') # bt_insert k v m)"

definition bt_get :: "('k::linorder \<times> 'v) list \<Rightarrow> 'k \<Rightarrow> 'v option" where
  "bt_get m k = map_of m k"

definition bt_wf :: "('k::linorder \<times> 'v) list \<Rightarrow> bool" where
  "bt_wf m = sorted_wrt (<) (map fst m)"

definition bt_values :: "('k::linorder \<times> 'v) list \<Rightarrow> 'v list" where
  "bt_values m = map snd m"

text \<open>The contract of an ordered map, and what its clients derive from it.\<close>

locale ordered_map =
  fixes empty :: 'm
    and get :: "'m \<Rightarrow> 'k::linorder \<Rightarrow> 'v option"
    and ins :: "'k \<Rightarrow> 'v \<Rightarrow> 'm \<Rightarrow> 'm"
    and entries :: "'m \<Rightarrow> ('k \<times> 'v) list"
    and wf :: "'m \<Rightarrow> bool"
  assumes wf_empty: "wf empty"
    and get_empty: "get empty k = None"
    and wf_ins: "wf m \<Longrightarrow> wf (ins k v m)"
    and get_ins: "wf m \<Longrightarrow> get (ins k v m) k' = (if k' = k then Some v else get m k')"
    and entries_sorted: "wf m \<Longrightarrow> sorted_wrt (<) (map fst (entries m))"
    and entries_get: "wf m \<Longrightarrow> (k, v) \<in> set (entries m) \<longleftrightarrow> get m k = Some v"
begin

lemma wf_fold: "wf m \<Longrightarrow> wf (fold (\<lambda>(k, v). ins k v) kvs m)"
  by (induction kvs arbitrary: m) (auto simp: wf_ins)

lemma keys_entries:
  assumes "wf m"
  shows "set (map fst (entries m)) = dom (get m)"
proof
  show "set (map fst (entries m)) \<subseteq> dom (get m)"
    using entries_get [OF assms] by auto
  show "dom (get m) \<subseteq> set (map fst (entries m))"
  proof
    fix k assume "k \<in> dom (get m)"
    then obtain v where "(k, v) \<in> set (entries m)"
      using entries_get [OF assms] by auto
    then show "k \<in> set (map fst (entries m))" by force
  qed
qed

lemma keys_sorted_list: "wf m \<Longrightarrow> map fst (entries m) = sorted_list_of_set (dom (get m))"
proof -
  assume wf: "wf m"
  then have "sorted (map fst (entries m))" "distinct (map fst (entries m))"
    using entries_sorted [OF wf] by (auto simp: strict_sorted_iff)
  then show ?thesis
    by (simp only: sorted_list_of_set.idem_if_sorted_distinct flip: keys_entries [OF wf])
qed

text \<open>The entries of a map are determined by its lookups alone.\<close>

lemma entries_eq: "wf m \<Longrightarrow> entries m = map (\<lambda>k. (k, the (get m k))) (sorted_list_of_set (dom (get m)))"
proof -
  assume wf: "wf m"
  have "entries m = map (\<lambda>(k, v). (k, the (get m k))) (entries m)"
  proof (rule sym, rule map_idI)
    fix x assume "x \<in> set (entries m)"
    then show "(case x of (k, v) \<Rightarrow> (k, the (get m k))) = x"
      using entries_get [OF wf, of "fst x" "snd x"] by (simp add: case_prod_beta)
  qed
  also have "\<dots> = map (\<lambda>k. (k, the (get m k))) (map fst (entries m))"
    by (simp add: comp_def case_prod_beta)
  finally show ?thesis by (simp only: keys_sorted_list [OF wf])
qed

end

lemma bt_get_Nil [simp]: "bt_get [] k = None"
  by (simp add: bt_get_def)

lemma bt_wf_Nil [simp]: "bt_wf []"
  by (simp add: bt_wf_def)

lemma bt_get_insert_aux: "bt_wf m \<Longrightarrow> bt_get (bt_insert k v m) k' = (if k' = k then Some v else bt_get m k')"
  by (induction k v m rule: bt_insert.induct) (auto simp: bt_get_def bt_wf_def)

lemma set_bt_insert: "fst ` set (bt_insert k v m) = insert k (fst ` set m)"
  by (induction k v m rule: bt_insert.induct) auto

lemma bt_wf_insert_aux: "bt_wf m \<Longrightarrow> bt_wf (bt_insert k v m)"
proof (induction k v m rule: bt_insert.induct)
  case (1 k v)
  then show ?case by (simp add: bt_wf_def)
next
  case (2 k v k' v' m)
  then have "\<forall>x \<in> fst ` set m. k' < x" and "bt_wf m"
    by (auto simp: bt_wf_def)
  with 2 show ?case
    using set_bt_insert [of k v m] by (auto simp: bt_wf_def)
qed

interpretation btm: ordered_map "[]" bt_get bt_insert "\<lambda>m. m" bt_wf
proof
  fix m :: "('k::linorder \<times> 'v) list" and k v
  assume wf: "bt_wf m"
  then have "distinct (map fst m)" by (simp add: bt_wf_def strict_sorted_iff)
  then show "(k, v) \<in> set m \<longleftrightarrow> bt_get m k = Some v"
    by (simp add: bt_get_def)
qed (auto simp: bt_get_insert_aux intro: bt_wf_insert_aux, simp add: bt_wf_def)

end
