(* ===== verification/Migration_Plan.thy ===== *)
theory Migration_Plan
  imports Migration_Model BTree_Map
begin

text \<open>
  The migration catalog and the dry-run planner (\<open>migration/plan.rs\<close>): pairing of assets into an
  ordered catalog, reconciliation of the applied rows against it, status, apply and rollback plans.
\<close>

section \<open>The catalog\<close>

record pair_builder =
  pb_id :: migration_id
  pb_up :: "(migration_script \<times> str) option"
  pb_down :: "(migration_script \<times> str) option"

definition pb_new :: "migration_id \<Rightarrow> pair_builder" where
  "pb_new i = \<lparr>pb_id = i, pb_up = None, pb_down = None\<rparr>"

definition pb_insert :: "migration_script \<Rightarrow> str \<Rightarrow> pair_builder \<Rightarrow> migration_error + pair_builder" where
  "pb_insert s path b =
     (case (case script_kind s of Up \<Rightarrow> pb_up b | Down \<Rightarrow> pb_down b) of
        Some (_, existing_path) \<Rightarrow>
          Inl (DuplicateMigrationScript (show_migration_id (pb_id b)) (kind_suffix (script_kind s))
                 existing_path path)
      | None \<Rightarrow>
          Inr (case script_kind s of
                 Up \<Rightarrow> b\<lparr>pb_up := Some (s, path)\<rparr>
               | Down \<Rightarrow> b\<lparr>pb_down := Some (s, path)\<rparr>))"

definition pb_finish :: "pair_builder \<Rightarrow> migration_error + migration_pair" where
  "pb_finish b =
     (case pb_up b of
        None \<Rightarrow> Inl (MissingMigrationScript (show_migration_id (pb_id b)) (kind_suffix Up))
      | Some (up, _) \<Rightarrow>
          (case pb_down b of
             None \<Rightarrow> Inl (MissingMigrationScript (show_migration_id (pb_id b)) (kind_suffix Down))
           | Some (down, _) \<Rightarrow> pair_new up down))"

type_synonym versions = "(u64 \<times> str) list"
type_synonym builders = "(migration_id \<times> pair_builder) list"

text \<open>One iteration of the loop of \<open>from_assets\<close>, after the asset has been parsed.\<close>

definition add_script ::
    "migration_script \<Rightarrow> str \<Rightarrow> versions \<times> builders \<Rightarrow> migration_error + (versions \<times> builders)" where
  "add_script s path st =
     (let i = script_id s
      in bindr
           (case bt_get (fst st) (mid_version i) of
              None \<Rightarrow> Inr (bt_insert (mid_version i) (mid_name i) (fst st))
            | Some existing \<Rightarrow>
                (if existing \<noteq> mid_name i
                 then Inl (ConflictingMigrationVersion (mid_version i) existing (mid_name i))
                 else Inr (fst st))) (\<lambda>vs.
         bindr (pb_insert s path
                  (case bt_get (snd st) i of None \<Rightarrow> pb_new i | Some b \<Rightarrow> b)) (\<lambda>b.
           Inr (vs, bt_insert i b (snd st)))))"

fun from_assets_loop ::
    "(bytes \<Rightarrow> bytes) \<Rightarrow> migration_asset list \<Rightarrow> versions \<times> builders \<Rightarrow>
     migration_error + (versions \<times> builders)" where
  "from_assets_loop sha256 [] st = Inr st"
| "from_assets_loop sha256 (a # as) st =
     bindr (asset_parse sha256 a) (\<lambda>s.
     bindr (add_script s (asset_path a) st) (\<lambda>st'. from_assets_loop sha256 as st'))"

type_synonym catalog = "migration_pair list"

definition from_assets :: "(bytes \<Rightarrow> bytes) \<Rightarrow> migration_asset list \<Rightarrow> migration_error + catalog" where
  "from_assets sha256 assets =
     bindr (from_assets_loop sha256 assets ([], [])) (\<lambda>(_, builders).
       collect_r pb_finish (bt_values builders))"

definition from_source ::
    "(bytes \<Rightarrow> bytes) \<Rightarrow> migration_error + migration_asset list \<Rightarrow> migration_error + catalog" where
  "from_source sha256 loaded = bindr loaded (from_assets sha256)"

section \<open>Reconciliation\<close>

definition verify_drift :: "applied_migration \<Rightarrow> migration_pair \<Rightarrow> migration_error + unit" where
  "verify_drift a p =
     (let i = show_migration_id (am_id a)
      in if am_up_checksum a \<noteq> ms_checksum (mp_up p) then
           Inl (DriftDetected i (''up checksum changed from '' @ to_hex (am_up_checksum a) @
                  '' to '' @ to_hex (ms_checksum (mp_up p))))
         else if am_down_checksum a \<noteq> ms_checksum (mp_down p) then
           Inl (DriftDetected i (''down checksum changed from '' @ to_hex (am_down_checksum a) @
                  '' to '' @ to_hex (ms_checksum (mp_down p))))
         else if am_up_mode a \<noteq> ms_mode (mp_up p) then
           Inl (DriftDetected i (''up transaction mode changed from '' @
                  mode_as_str (am_up_mode a) @ '' to '' @ mode_as_str (ms_mode (mp_up p))))
         else if am_down_mode a \<noteq> ms_mode (mp_down p) then
           Inl (DriftDetected i (''down transaction mode changed from '' @
                  mode_as_str (am_down_mode a) @ '' to '' @ mode_as_str (ms_mode (mp_down p))))
         else Inr ())"

fun reconcile_loop ::
    "catalog \<Rightarrow> nat \<Rightarrow> migration_id option \<Rightarrow> applied_migration list \<Rightarrow> migration_error + unit" where
  "reconcile_loop pairs index previous [] = Inr ()"
| "reconcile_loop pairs index previous (a # as) =
     (let current = am_id a
      in bindr
           (case previous of
              Some prev \<Rightarrow>
                (if current \<le> prev
                 then Inl (AppliedMigrationOrderMismatch
                             (''migration after '' @ show_migration_id prev)
                             (show_migration_id current))
                 else Inr ())
            | None \<Rightarrow> Inr ()) (\<lambda>_.
         if \<not> index < length pairs
         then Inl (AppliedMigrationMissing (show_migration_id current))
         else if mp_id (pairs ! index) \<noteq> current
         then Inl (AppliedMigrationOrderMismatch (show_migration_id (mp_id (pairs ! index)))
                     (show_migration_id current))
         else bindr (verify_drift a (pairs ! index)) (\<lambda>_.
                reconcile_loop pairs (Suc index) (Some current) as)))"

definition reconcile ::
    "catalog \<Rightarrow> applied_migration list \<Rightarrow> migration_error + applied_migration list" where
  "reconcile pairs applied = bindr (reconcile_loop pairs 0 None applied) (\<lambda>_. Inr applied)"

section \<open>Status and plans\<close>

datatype status_state = Applied applied_migration | Pending

record status_entry =
  se_pair :: migration_pair
  se_state :: status_state

record migration_status =
  st_entries :: "status_entry list"
  st_applied_count :: nat

definition status_entry_at :: "applied_migration list \<Rightarrow> nat \<Rightarrow> migration_pair \<Rightarrow> status_entry" where
  "status_entry_at prefix index p =
     \<lparr>se_pair = p,
      se_state = (if index < length prefix then Applied (prefix ! index) else Pending)\<rparr>"

definition status :: "catalog \<Rightarrow> applied_migration list \<Rightarrow> migration_error + migration_status" where
  "status pairs applied =
     bindr (reconcile pairs applied) (\<lambda>prefix.
       Inr \<lparr>st_entries = map (\<lambda>(i, p). status_entry_at prefix i p) (enumerate 0 pairs),
            st_applied_count = length applied\<rparr>)"

text \<open>\<open>pending_count\<close> subtracts on \<open>usize\<close>; \<^const>\<open>None\<close> is the panic (or wrap-around) on underflow.\<close>

definition pending_count :: "migration_status \<Rightarrow> nat option" where
  "pending_count st =
     (if st_applied_count st \<le> length (st_entries st)
      then Some (length (st_entries st) - st_applied_count st) else None)"

datatype plan_direction = ApplyPlan | RollbackPlan

datatype plan_step =
    ApplyStep migration_pair
  | RollbackStep migration_pair applied_migration

record migration_plan =
  plan_direction :: plan_direction
  plan_steps :: "plan_step list"

primrec step_pair :: "plan_step \<Rightarrow> migration_pair" where
  "step_pair (ApplyStep p) = p"
| "step_pair (RollbackStep p _) = p"

primrec step_kind :: "plan_step \<Rightarrow> migration_kind" where
  "step_kind (ApplyStep _) = Up"
| "step_kind (RollbackStep _ _) = Down"

primrec step_applied :: "plan_step \<Rightarrow> applied_migration option" where
  "step_applied (ApplyStep _) = None"
| "step_applied (RollbackStep _ a) = Some a"

definition plan_is_empty :: "migration_plan \<Rightarrow> bool" where
  "plan_is_empty p = (plan_steps p = [])"

definition plan_apply :: "catalog \<Rightarrow> applied_migration list \<Rightarrow> migration_error + migration_plan" where
  "plan_apply pairs applied =
     bindr (reconcile pairs applied) (\<lambda>prefix.
       Inr \<lparr>plan_direction = ApplyPlan,
            plan_steps = map ApplyStep (drop (length prefix) pairs)\<rparr>)"

definition plan_rollback ::
    "catalog \<Rightarrow> applied_migration list \<Rightarrow> nat \<Rightarrow> migration_error + migration_plan" where
  "plan_rollback pairs applied steps =
     bindr (reconcile pairs applied) (\<lambda>prefix.
       Inr \<lparr>plan_direction = RollbackPlan,
            plan_steps = map (\<lambda>(i, a). RollbackStep (pairs ! i) a)
                           (take steps (rev (enumerate 0 prefix)))\<rparr>)"

section \<open>What a catalog is\<close>

text \<open>
  The specification of the catalog: the scripts of the assets are pairwise different in identifier
  and direction, no version has two names, every identifier has both directions; then the catalog
  lists the identifiers in order with their two scripts.
\<close>

type_synonym sourced = "migration_script \<times> str"

definition slot :: "migration_script \<Rightarrow> migration_id \<times> migration_kind" where
  "slot s = (script_id s, script_kind s)"

definition consistent :: "migration_script list \<Rightarrow> bool" where
  "consistent ss =
     (\<forall>s \<in> set ss. \<forall>t \<in> set ss.
        mid_version (script_id s) = mid_version (script_id t) \<longrightarrow> script_id s = script_id t)"

definition complete :: "migration_script list \<Rightarrow> bool" where
  "complete ss =
     (\<forall>s \<in> set ss. (script_id s, Up) \<in> slot ` set ss \<and> (script_id s, Down) \<in> slot ` set ss)"

definition script_at :: "migration_id \<Rightarrow> migration_kind \<Rightarrow> migration_script list \<Rightarrow> migration_script" where
  "script_at i k ss = the (List.find (\<lambda>s. slot s = (i, k)) ss)"

definition catalog_of :: "migration_script list \<Rightarrow> catalog" where
  "catalog_of ss =
     map (\<lambda>i. \<lparr>mp_id = i, mp_up = script_at i Up ss, mp_down = script_at i Down ss\<rparr>)
       (sorted_list_of_set (script_id ` set ss))"

definition well_paired :: "migration_script list \<Rightarrow> bool" where
  "well_paired ss = (distinct (map slot ss) \<and> consistent ss \<and> complete ss)"

text \<open>The state of the loop after the scripts \<open>sps\<close> (with their paths) have been added.\<close>

definition ids :: "sourced list \<Rightarrow> migration_id set" where
  "ids sps = (script_id \<circ> fst) ` set sps"

definition builder_of :: "migration_id \<Rightarrow> sourced list \<Rightarrow> pair_builder" where
  "builder_of i sps =
     \<lparr>pb_id = i, pb_up = List.find (\<lambda>sp. slot (fst sp) = (i, Up)) sps,
      pb_down = List.find (\<lambda>sp. slot (fst sp) = (i, Down)) sps\<rparr>"

definition loop_inv :: "sourced list \<Rightarrow> versions \<times> builders \<Rightarrow> bool" where
  "loop_inv sps st =
     (bt_wf (fst st) \<and> bt_wf (snd st)
      \<and> distinct (map (slot \<circ> fst) sps) \<and> consistent (map fst sps)
      \<and> (\<forall>v n. bt_get (fst st) v = Some n \<longleftrightarrow> MigrationId v n \<in> ids sps)
      \<and> (\<forall>i. bt_get (snd st) i = (if i \<in> ids sps then Some (builder_of i sps) else None)))"

section \<open>The loop computes it\<close>

lemma find_snoc:
  "List.find P (xs @ [x]) =
   (case List.find P xs of Some y \<Rightarrow> Some y | None \<Rightarrow> if P x then Some x else None)"
  by (induction xs) auto

lemma find_None_iff': "List.find P xs = None \<longleftrightarrow> (\<forall>x \<in> set xs. \<not> P x)"
  by (auto simp: find_None_iff)

lemma ids_snoc: "ids (sps @ [(s, p)]) = insert (script_id s) (ids sps)"
  by (auto simp: ids_def)

lemma loop_inv_Nil [simp]: "loop_inv [] ([], [])"
  by (auto simp: loop_inv_def consistent_def ids_def)

lemma builder_of_new: "i \<notin> ids sps \<Longrightarrow> builder_of i sps = pb_new i"
  by (auto simp: builder_of_def pb_new_def find_None_iff' slot_def ids_def)

lemma builder_of_other: "script_id s \<noteq> i \<Longrightarrow> builder_of i (sps @ [(s, p)]) = builder_of i sps"
  by (auto simp: builder_of_def find_snoc slot_def split: option.splits)

lemma find_slot_None:
  "List.find (\<lambda>sp. slot (fst sp) = (i, k)) sps = None \<longleftrightarrow> (i, k) \<notin> set (map (slot \<circ> fst) sps)"
  by (force simp: find_None_iff')

lemma pb_insert_builder_of:
  "pb_insert s p (builder_of (script_id s) sps) = Inr b \<longleftrightarrow>
   slot s \<notin> set (map (slot \<circ> fst) sps) \<and> b = builder_of (script_id s) (sps @ [(s, p)])"
proof (cases "script_kind s")
  case Up
  then have "slot s = (script_id s, Up)" by (simp add: slot_def)
  with Up find_slot_None [of "script_id s" Up sps] show ?thesis
    by (cases "List.find (\<lambda>sp. slot (fst sp) = (script_id s, Up)) sps")
       (auto simp: pb_insert_def builder_of_def find_snoc split: option.splits)
next
  case Down
  then have "slot s = (script_id s, Down)" by (simp add: slot_def)
  with Down find_slot_None [of "script_id s" Down sps] show ?thesis
    by (cases "List.find (\<lambda>sp. slot (fst sp) = (script_id s, Down)) sps")
       (auto simp: pb_insert_def builder_of_def find_snoc split: option.splits)
qed

lemma builder_lookup:
  "loop_inv sps st \<Longrightarrow>
   (case bt_get (snd st) i of None \<Rightarrow> pb_new i | Some b \<Rightarrow> b) = builder_of i sps"
  by (auto simp: loop_inv_def builder_of_new)

lemma consistent_snoc:
  "consistent (ss @ [s]) \<longleftrightarrow>
   consistent ss \<and>
   (\<forall>t \<in> set ss. mid_version (script_id t) = mid_version (script_id s) \<longrightarrow> script_id t = script_id s)"
  unfolding consistent_def by auto

lemma version_lookup:
  assumes "loop_inv sps st"
  shows "(\<forall>n. bt_get (fst st) (mid_version (script_id s)) = Some n \<longrightarrow> n = mid_name (script_id s))
    \<longleftrightarrow> (\<forall>t \<in> set (map fst sps).
          mid_version (script_id t) = mid_version (script_id s) \<longrightarrow> script_id t = script_id s)"
proof -
  have "bt_get (fst st) v = Some n \<longleftrightarrow> MigrationId v n \<in> ids sps" for v n
    using assms by (simp add: loop_inv_def)
  then show ?thesis
    by (auto simp: ids_def image_iff)
       (metis fst_conv migration_id.collapse migration_id.sel)+
qed

lemma add_script_iff:
  assumes inv: "loop_inv sps st"
  shows "(\<exists>st'. add_script s p st = Inr st') \<longleftrightarrow>
    distinct (map (slot \<circ> fst) (sps @ [(s, p)])) \<and> consistent (map fst (sps @ [(s, p)]))"
proof -
  have "distinct (map (slot \<circ> fst) sps)" "consistent (map fst sps)"
    using inv by (auto simp: loop_inv_def)
  then have "distinct (map (slot \<circ> fst) (sps @ [(s, p)])) \<longleftrightarrow> slot s \<notin> set (map (slot \<circ> fst) sps)"
    and "consistent (map fst (sps @ [(s, p)])) \<longleftrightarrow>
      (\<forall>n. bt_get (fst st) (mid_version (script_id s)) = Some n \<longrightarrow> n = mid_name (script_id s))"
    using version_lookup [OF inv, of s] by (auto simp: consistent_snoc)
  then show ?thesis
    by (cases "bt_get (fst st) (mid_version (script_id s))")
       (auto simp: add_script_def Let_def builder_lookup [OF inv] bindr_eq_Inr_iff
         pb_insert_builder_of)
qed

lemma add_script_inv:
  assumes inv: "loop_inv sps st" and add: "add_script s p st = Inr st'"
  shows "loop_inv (sps @ [(s, p)]) st'"
proof -
  let ?i = "script_id s"
  obtain vs where vs: "fst st' = vs"
      "vs = (if bt_get (fst st) (mid_version ?i) = None
             then bt_insert (mid_version ?i) (mid_name ?i) (fst st) else fst st)"
      "\<And>n. bt_get (fst st) (mid_version ?i) = Some n \<Longrightarrow> n = mid_name ?i"
    and bs: "snd st' = bt_insert ?i (builder_of ?i (sps @ [(s, p)])) (snd st)"
    using add unfolding add_script_def Let_def builder_lookup [OF inv]
    by (cases "bt_get (fst st) (mid_version ?i)")
       (auto simp: bindr_eq_Inr_iff pb_insert_builder_of split: if_splits)
  have wf: "bt_wf (fst st)" "bt_wf (snd st)"
    and lk: "\<And>v n. bt_get (fst st) v = Some n \<longleftrightarrow> MigrationId v n \<in> ids sps"
    and bl: "\<And>i. bt_get (snd st) i = (if i \<in> ids sps then Some (builder_of i sps) else None)"
    using inv by (auto simp: loop_inv_def)
  have "bt_get vs v = Some n \<longleftrightarrow> MigrationId v n = ?i \<or> bt_get (fst st) v = Some n" for v n
    using vs(2,3) wf(1) by (cases ?i) (auto simp: bt_get_insert_aux split: if_splits)
  then have "bt_get vs v = Some n \<longleftrightarrow> MigrationId v n \<in> ids (sps @ [(s, p)])" for v n
    by (simp add: lk ids_snoc)
  moreover have "bt_get (snd st') i =
      (if i \<in> ids (sps @ [(s, p)]) then Some (builder_of i (sps @ [(s, p)])) else None)" for i
    using bl [of i] wf(2) by (auto simp: bs bt_get_insert_aux ids_snoc builder_of_other)
  moreover have "bt_wf vs" "bt_wf (snd st')"
    using wf vs(2) by (auto simp: bs intro: bt_wf_insert_aux)
  ultimately show ?thesis
    using add_script_iff [OF inv, of s p] add vs(1) by (auto simp: loop_inv_def)
qed

lemma distinct_prefix_map: "distinct (map f (xs @ ys)) \<Longrightarrow> distinct (map f xs)"
  by simp

lemma consistent_prefix: "consistent (ss @ ts) \<Longrightarrow> consistent ss"
  by (auto simp: consistent_def)

lemma loop_sound:
  assumes "loop_inv sps st" and "from_assets_loop sha as st = Inr st'"
  shows "\<exists>ss. collect_r (asset_parse sha) as = Inr ss
    \<and> loop_inv (sps @ zip ss (map asset_path as)) st'"
  using assms
proof (induction as arbitrary: sps st)
  case Nil
  then show ?case by simp
next
  case (Cons a as)
  from Cons.prems(2) obtain s st1 where s: "asset_parse sha a = Inr s"
      "add_script s (asset_path a) st = Inr st1" "from_assets_loop sha as st1 = Inr st'"
    by (auto simp: bindr_eq_Inr_iff)
  from Cons.IH [OF add_script_inv [OF Cons.prems(1) s(2)] s(3)] s(1) show ?case
    by auto
qed

lemma loop_complete:
  assumes "loop_inv sps st" and "collect_r (asset_parse sha) as = Inr ss"
    and "distinct (map (slot \<circ> fst) (sps @ zip ss (map asset_path as)))"
    and "consistent (map fst (sps @ zip ss (map asset_path as)))"
  shows "\<exists>st'. from_assets_loop sha as st = Inr st'"
  using assms
proof (induction as arbitrary: sps st ss)
  case Nil
  then show ?case by simp
next
  case (Cons a as)
  then obtain s ss' where s: "asset_parse sha a = Inr s" "ss = s # ss'"
      "collect_r (asset_parse sha) as = Inr ss'"
    by (auto simp: bindr_eq_Inr_iff)
  have rw: "sps @ zip ss (map asset_path (a # as)) =
      (sps @ [(s, asset_path a)]) @ zip ss' (map asset_path as)"
    by (simp add: s(2))
  have "distinct (map (slot \<circ> fst) (sps @ [(s, asset_path a)]))"
    using Cons.prems(3) unfolding rw by (rule distinct_prefix_map)
  moreover have "consistent (map fst (sps @ [(s, asset_path a)]))"
    using Cons.prems(4) unfolding rw map_append by (rule consistent_prefix)
  ultimately obtain st1 where st1: "add_script s (asset_path a) st = Inr st1"
    using add_script_iff [OF Cons.prems(1), of s "asset_path a"] by auto
  from Cons.IH [OF add_script_inv [OF Cons.prems(1) st1] s(3)] Cons.prems(3,4) st1 s(1)
  show ?case unfolding rw by auto
qed

lemma find_map_fst:
  "List.find (\<lambda>sp. P (fst sp)) sps = Some sp \<Longrightarrow> List.find P (map fst sps) = Some (fst sp)"
  by (induction sps) (auto split: if_splits)

lemma find_slot_obtain:
  assumes "(i, k) \<in> set (map (slot \<circ> fst) sps)"
  obtains sp where "List.find (\<lambda>sp. slot (fst sp) = (i, k)) sps = Some sp"
    and "slot (fst sp) = (i, k)" and "script_at i k (map fst sps) = fst sp"
proof -
  from assms find_slot_None [of i k sps]
  obtain sp where sp: "List.find (\<lambda>sp. slot (fst sp) = (i, k)) sps = Some sp"
    by (cases "List.find (\<lambda>sp. slot (fst sp) = (i, k)) sps") auto
  moreover have "slot (fst sp) = (i, k)"
    using sp by (auto simp: find_Some_iff)
  moreover have "script_at i k (map fst sps) = fst sp"
    using find_map_fst [of "\<lambda>s. slot s = (i, k)" sps sp] sp by (simp add: script_at_def)
  ultimately show ?thesis by (rule that)
qed

lemma pb_finish_builder_of:
  "pb_finish (builder_of i sps) = Inr p \<longleftrightarrow>
   (i, Up) \<in> set (map (slot \<circ> fst) sps) \<and> (i, Down) \<in> set (map (slot \<circ> fst) sps)
   \<and> p = \<lparr>mp_id = i, mp_up = script_at i Up (map fst sps), mp_down = script_at i Down (map fst sps)\<rparr>"
proof (cases "(i, Up) \<in> set (map (slot \<circ> fst) sps) \<and> (i, Down) \<in> set (map (slot \<circ> fst) sps)")
  case True
  then obtain u where
    u: "List.find (\<lambda>sp. slot (fst sp) = (i, Up)) sps = Some u" "slot (fst u) = (i, Up)"
       "script_at i Up (map fst sps) = fst u"
    by (blast elim: find_slot_obtain)
  from True obtain d where
    d: "List.find (\<lambda>sp. slot (fst sp) = (i, Down)) sps = Some d" "slot (fst d) = (i, Down)"
       "script_at i Down (map fst sps) = fst d"
    by (blast elim: find_slot_obtain)
  have "pb_finish (builder_of i sps) = pair_new (fst u) (fst d)"
    by (simp add: pb_finish_def builder_of_def u(1) d(1) case_prod_beta)
  moreover have "script_kind (fst u) = Up" "script_id (fst u) = i"
    "script_kind (fst d) = Down" "script_id (fst d) = i"
    using u(2) d(2) by (simp_all add: slot_def)
  ultimately show ?thesis
    using True by (simp add: pair_new_Inr_iff u(3) d(3))
next
  case False
  then show ?thesis
    using find_slot_None [of i Up sps] find_slot_None [of i Down sps]
    by (auto simp: pb_finish_def builder_of_def split: option.splits)
qed

lemma complete_alt:
  "complete ss \<longleftrightarrow>
   (\<forall>i \<in> script_id ` set ss. (i, Up) \<in> slot ` set ss \<and> (i, Down) \<in> slot ` set ss)"
  by (auto simp: complete_def)

lemma finish_builders:
  assumes inv: "loop_inv sps st"
  shows "collect_r pb_finish (bt_values (snd st)) = Inr cat \<longleftrightarrow>
    complete (map fst sps) \<and> cat = catalog_of (map fst sps)"
proof -
  have wf: "bt_wf (snd st)"
    and lk: "bt_get (snd st) i = (if i \<in> ids sps then Some (builder_of i sps) else None)" for i
    using inv by (auto simp: loop_inv_def)
  have dom: "dom (bt_get (snd st)) = ids sps"
    by (auto simp: lk split: if_splits)
  have fin: "finite (ids sps)" by (simp add: ids_def)
  have vals: "bt_values (snd st) = map (\<lambda>i. builder_of i sps) (sorted_list_of_set (ids sps))"
    by (subst btm.entries_eq [OF wf]) (use fin in \<open>auto simp: bt_values_def dom lk\<close>)
  have idset: "ids sps = script_id ` set (map fst sps)"
    by (auto simp: ids_def)
  have slots: "set (map (slot \<circ> fst) sps) = slot ` set (map fst sps)"
    by auto
  define mk where "mk i = \<lparr>mp_id = i, mp_up = script_at i Up (map fst sps),
      mp_down = script_at i Down (map fst sps)\<rparr>" for i
  have fin_iff: "pb_finish (builder_of i sps) = Inr p \<longleftrightarrow>
      (i, Up) \<in> slot ` set (map fst sps) \<and> (i, Down) \<in> slot ` set (map fst sps) \<and> p = mk i" for i p
    by (simp only: pb_finish_builder_of slots mk_def)
  have "collect_r pb_finish (bt_values (snd st)) = Inr cat \<longleftrightarrow>
      (\<forall>i \<in> ids sps. (i, Up) \<in> slot ` set (map fst sps) \<and> (i, Down) \<in> slot ` set (map fst sps))
      \<and> cat = map mk (sorted_list_of_set (ids sps))"
    unfolding vals collect_r_map_arg
    by (subst collect_r_det [where g = mk]) (use fin in \<open>simp_all add: fin_iff\<close>)
  then show ?thesis
    by (simp add: complete_alt catalog_of_def idset mk_def [abs_def])
qed

lemma from_assets_iff:
  "from_assets sha as = Inr cat \<longleftrightarrow>
   (\<exists>ss. collect_r (asset_parse sha) as = Inr ss \<and> well_paired ss \<and> cat = catalog_of ss)"
proof
  assume "from_assets sha as = Inr cat"
  then obtain st where st: "from_assets_loop sha as ([], []) = Inr st"
      and fin: "collect_r pb_finish (bt_values (snd st)) = Inr cat"
    by (auto simp: from_assets_def bindr_eq_Inr_iff split: prod.splits)
  from loop_sound [OF loop_inv_Nil st] obtain ss where
    ss: "collect_r (asset_parse sha) as = Inr ss" and inv: "loop_inv (zip ss (map asset_path as)) st"
    by auto
  have fst: "map fst (zip ss (map asset_path as)) = ss"
    using collect_r_length [OF ss] by simp
  have "distinct (map slot (map fst (zip ss (map asset_path as))))"
    and "consistent (map fst (zip ss (map asset_path as)))"
    using inv unfolding loop_inv_def map_map by auto
  moreover have "complete ss" "cat = catalog_of ss"
    using finish_builders [OF inv, of cat] fin unfolding fst by blast+
  ultimately have "well_paired ss" "cat = catalog_of ss"
    unfolding fst well_paired_def by blast+
  with ss show "\<exists>ss. collect_r (asset_parse sha) as = Inr ss \<and> well_paired ss \<and> cat = catalog_of ss"
    by blast
next
  assume "\<exists>ss. collect_r (asset_parse sha) as = Inr ss \<and> well_paired ss \<and> cat = catalog_of ss"
  then obtain ss where ss: "collect_r (asset_parse sha) as = Inr ss" "well_paired ss"
      "cat = catalog_of ss"
    by blast
  let ?sps = "zip ss (map asset_path as)"
  have fst: "map fst ?sps = ss"
    using collect_r_length [OF ss(1)] by simp
  from ss(2) have "distinct (map slot (map fst ?sps))" "consistent (map fst ?sps)"
    unfolding fst by (simp_all add: well_paired_def)
  then have "distinct (map (slot \<circ> fst) ([] @ ?sps))" "consistent (map fst ([] @ ?sps))"
    by simp_all
  from loop_complete [OF loop_inv_Nil ss(1) this] obtain st where
    st: "from_assets_loop sha as ([], []) = Inr st" by blast
  from loop_sound [OF loop_inv_Nil st] ss(1) have "loop_inv ?sps st" by auto
  from finish_builders [OF this, of cat] ss(2,3)
  have "collect_r pb_finish (bt_values (snd st)) = Inr cat"
    by (simp only: fst well_paired_def)
  with st show "from_assets sha as = Inr cat"
    by (simp add: from_assets_def case_prod_beta)
qed

section \<open>Consequences for the catalog\<close>

lemma script_at_eq:
  assumes "distinct (map slot ss)" and "s \<in> set ss" and "slot s = (i, k)"
  shows "script_at i k ss = s"
proof -
  from assms(2,3) obtain t where t: "List.find (\<lambda>s. slot s = (i, k)) ss = Some t"
    by (cases "List.find (\<lambda>s. slot s = (i, k)) ss") (auto simp: find_None_iff')
  then have "t \<in> set ss" "slot t = (i, k)"
    by (auto simp: find_Some_iff)
  with assms have "t = s"
    by (metis distinct_map inj_on_eq_iff)
  with t show ?thesis by (simp add: script_at_def)
qed

lemma well_paired_script_at:
  assumes "well_paired ss" and "i \<in> script_id ` set ss"
  shows "script_at i k ss \<in> set ss \<and> slot (script_at i k ss) = (i, k)"
proof -
  from assms have "(i, k) \<in> slot ` set ss"
    by (cases k) (auto simp: well_paired_def complete_def)
  then obtain s where "s \<in> set ss" "slot s = (i, k)" by auto
  moreover from this assms(1) have "script_at i k ss = s"
    by (auto simp: well_paired_def intro: script_at_eq)
  ultimately show ?thesis by simp
qed

lemma collect_r_perm:
  assumes "collect_r f xs = Inr ys" and "mset xs' = mset xs"
  shows "\<exists>ys'. collect_r f xs' = Inr ys' \<and> mset ys' = mset ys"
proof -
  define g where "g x = projr (f x)" for x
  have ok: "f x = Inr (g x)" if "x \<in> set xs" for x
    using assms(1) that by (auto simp: collect_r_eq_Inr_iff g_def list_all2_conv_all_nth in_set_conv_nth)
  have "set xs' = set xs" using assms(2) by (rule mset_eq_setD)
  with ok have "collect_r f xs' = Inr (map g xs')" by (intro collect_r_map) simp
  moreover have "collect_r f xs = Inr (map g xs)" using ok by (rule collect_r_map)
  ultimately show ?thesis using assms by simp
qed

lemma well_paired_perm:
  assumes "well_paired ss" and "mset ss' = mset ss"
  shows "well_paired ss' \<and> catalog_of ss' = catalog_of ss"
proof -
  have set: "set ss' = set ss" using assms(2) by (rule mset_eq_setD)
  have "mset (map slot ss') = mset (map slot ss)" using assms(2) by simp
  then have "distinct (map slot ss')"
    using assms(1) by (metis distinct_count_atmost_1 set_mset_mset well_paired_def)
  with assms(1) have wp: "well_paired ss'"
    by (simp add: well_paired_def consistent_def complete_def set)
  have "script_at i k ss' = script_at i k ss" if "i \<in> script_id ` set ss" for i k
    using well_paired_script_at [OF assms(1) that, of k] wp set
    by (auto simp: well_paired_def intro: script_at_eq)
  then have "catalog_of ss' = catalog_of ss"
    by (simp add: catalog_of_def set)
  with wp show ?thesis ..
qed

lemma from_assets_perm:
  assumes "from_assets sha as = Inr cat" and "mset bs = mset as"
  shows "from_assets sha bs = Inr cat"
proof -
  from assms(1) obtain ss where ss: "collect_r (asset_parse sha) as = Inr ss" "well_paired ss"
      "cat = catalog_of ss"
    by (auto simp: from_assets_iff)
  from collect_r_perm [OF ss(1) assms(2)] obtain ss' where
    ss': "collect_r (asset_parse sha) bs = Inr ss'" "mset ss' = mset ss" by blast
  have "well_paired ss'" "catalog_of ss' = cat"
    using well_paired_perm [OF ss(2) ss'(2)] ss(3) by simp_all
  with ss'(1) show ?thesis
    unfolding from_assets_iff by blast
qed

text \<open>The shape of every catalog the code builds.\<close>

definition catalog_wf :: "catalog \<Rightarrow> bool" where
  "catalog_wf cat =
     (sorted_wrt (\<lambda>p q. mid_version (mp_id p) < mid_version (mp_id q)) cat
      \<and> list_all (\<lambda>p. slot (mp_up p) = (mp_id p, Up) \<and> slot (mp_down p) = (mp_id p, Down)
                     \<and> valid_id (mp_id p)) cat)"

lemma catalog_of_wf:
  assumes "well_paired ss" and "\<And>s. s \<in> set ss \<Longrightarrow> valid_id (script_id s)"
  shows "catalog_wf (catalog_of ss)"
proof -
  let ?is = "sorted_list_of_set (script_id ` set ss)"
  have set: "set ?is = script_id ` set ss" by simp
  have "sorted_wrt (<) ?is" by (rule strict_sorted_list_of_set)
  moreover have "mid_version i < mid_version j" if "i < j" "i \<in> set ?is" "j \<in> set ?is" for i j
  proof -
    from that(2,3) obtain s t where "s \<in> set ss" "i = script_id s" "t \<in> set ss" "j = script_id t"
      unfolding set by auto
    with assms(1) have "mid_version i = mid_version j \<Longrightarrow> i = j"
      unfolding well_paired_def consistent_def by blast
    with that(1) show ?thesis
      by (auto simp: less_migration_id_def)
  qed
  ultimately have "sorted_wrt (\<lambda>i j. mid_version i < mid_version j) ?is"
    by (rule sorted_wrt_mono_rel [rotated])
  moreover have "valid_id i" if "i \<in> set ?is" for i
    using that assms(2) by auto
  ultimately show ?thesis
    using well_paired_script_at [OF assms(1)]
    by (auto simp: catalog_wf_def catalog_of_def sorted_wrt_map list_all_iff)
qed

lemma from_assets_wf: "from_assets sha as = Inr cat \<Longrightarrow> catalog_wf cat"
proof -
  assume "from_assets sha as = Inr cat"
  then obtain ss where ss: "collect_r (asset_parse sha) as = Inr ss" "well_paired ss"
      "cat = catalog_of ss"
    by (auto simp: from_assets_iff)
  have "valid_id (script_id s)" if "s \<in> set ss" for s
    using that ss(1)
    by (auto simp: collect_r_eq_Inr_iff list_all2_conv_all_nth in_set_conv_nth dest!: asset_parse_valid)
  with ss catalog_of_wf show ?thesis by blast
qed

lemma catalog_scripts:
  assumes "collect_r (asset_parse sha) as = Inr ss" and "well_paired ss"
  shows "set (concat (map (\<lambda>p. [mp_up p, mp_down p]) (catalog_of ss))) = set ss"
proof -
  have "s \<in> set (concat (map (\<lambda>p. [mp_up p, mp_down p]) (catalog_of ss)))" if "s \<in> set ss" for s
  proof -
    have "script_at (script_id s) (script_kind s) ss = s"
      using that assms(2) by (intro script_at_eq) (auto simp: well_paired_def slot_def)
    with that show ?thesis
      by (cases "script_kind s") (auto simp: catalog_of_def intro!: bexI [of _ s])
  qed
  moreover have "s \<in> set ss" if "s \<in> set (concat (map (\<lambda>p. [mp_up p, mp_down p]) (catalog_of ss)))" for s
    using that well_paired_script_at [OF assms(2)] by (auto simp: catalog_of_def)
  ultimately show ?thesis by blast
qed

section \<open>Reconciliation accepts exactly the matching prefixes\<close>

definition row_matches :: "applied_migration \<Rightarrow> migration_pair \<Rightarrow> bool" where
  "row_matches a p =
     (am_id a = mp_id p
      \<and> am_up_checksum a = ms_checksum (mp_up p) \<and> am_down_checksum a = ms_checksum (mp_down p)
      \<and> am_up_mode a = ms_mode (mp_up p) \<and> am_down_mode a = ms_mode (mp_down p))"

lemma verify_drift_ok_iff:
  "am_id a = mp_id p \<Longrightarrow> verify_drift a p = Inr () \<longleftrightarrow> row_matches a p"
  by (auto simp: verify_drift_def row_matches_def Let_def)

lemma reconcile_loop_iff:
  assumes "sorted_wrt (\<lambda>p q. mp_id p < mp_id q) pairs"
    and "\<And>p. prev = Some p \<Longrightarrow> 0 < index \<and> index \<le> length pairs \<and> p = mp_id (pairs ! (index - 1))"
  shows "reconcile_loop pairs index prev as = Inr () \<longleftrightarrow>
    list_all2 row_matches as (take (length as) (drop index pairs))"
  using assms
proof (induction pairs index prev as rule: reconcile_loop.induct)
  case (1 pairs index previous)
  then show ?case by simp
next
  case (2 pairs index previous a as)
  show ?case
  proof (cases "index < length pairs \<and> mp_id (pairs ! index) = am_id a")
    case False
    then show ?thesis
      by (auto simp: Let_def bindr_eq_Inr_iff take_Cons' list_all2_Cons1 row_matches_def
          hd_drop_conv_nth neq_Nil_conv Cons_nth_drop_Suc [symmetric] split: if_splits)
  next
    case True
    then have drop: "drop index pairs = pairs ! index # drop (Suc index) pairs"
      by (simp add: Cons_nth_drop_Suc)
    have "\<not> am_id a \<le> p" if "previous = Some p" for p
    proof -
      from "2.prems"(2) [OF that] True have "p < mp_id (pairs ! index)"
        using sorted_wrt_nth_less [OF "2.prems"(1), of "index - 1" index] by auto
      with True show ?thesis by simp
    qed
    then have guard: "(case previous of Some prev \<Rightarrow>
          (if am_id a \<le> prev then Inl (AppliedMigrationOrderMismatch
             (''migration after '' @ show_migration_id prev) (show_migration_id (am_id a)))
           else Inr ()) | None \<Rightarrow> Inr ()) = Inr ()"
      by (auto split: option.splits)
    have "reconcile_loop pairs (Suc index) (Some (am_id a)) as = Inr () \<longleftrightarrow>
        list_all2 row_matches as (take (length as) (drop (Suc index) pairs))"
      if "verify_drift a (pairs ! index) = Inr ()"
      using True "2.prems"(1) guard that by (intro "2.IH") auto
    with True guard show ?thesis
      by (auto simp: Let_def bindr_eq_Inr_iff drop verify_drift_ok_iff)
  qed
qed

lemma catalog_wf_sorted: "catalog_wf cat \<Longrightarrow> sorted_wrt (\<lambda>p q. mp_id p < mp_id q) cat"
  by (auto simp: catalog_wf_def less_migration_id_def elim!: sorted_wrt_mono_rel [rotated])

lemma reconcile_iff_aux:
  assumes "catalog_wf cat"
  shows "reconcile cat applied = Inr r \<longleftrightarrow>
    r = applied \<and> list_all2 row_matches applied (take (length applied) cat)"
  using reconcile_loop_iff [OF catalog_wf_sorted [OF assms], of None 0 applied]
  by (auto simp: reconcile_def bindr_eq_Inr_iff)

lemma matches_length: "list_all2 row_matches applied (take (length applied) cat) \<Longrightarrow> length applied \<le> length cat"
  by (auto dest!: list_all2_lengthD)

lemma plan_apply_iff:
  assumes "catalog_wf cat"
  shows "plan_apply cat applied = Inr plan \<longleftrightarrow>
    list_all2 row_matches applied (take (length applied) cat)
    \<and> plan = \<lparr>plan_direction = ApplyPlan, plan_steps = map ApplyStep (drop (length applied) cat)\<rparr>"
  by (auto simp: plan_apply_def bindr_eq_Inr_iff reconcile_iff_aux [OF assms])

lemma rev_enumerate_take:
  "map (\<lambda>(i, a). f (xs ! i) a) (take n (rev (enumerate 0 as))) =
   rev (map2 f (drop (length as - n) (take (length as) xs)) (drop (length as - n) as))"
  if "length as \<le> length xs"
proof -
  have "map (\<lambda>(i, a). f (xs ! i) a) (enumerate 0 as) = map2 f (take (length as) xs) as"
    using that by (auto simp: list_eq_iff_nth_eq nth_enumerate_eq)
  then have "map (\<lambda>(i, a). f (xs ! i) a) (take n (rev (enumerate 0 as))) =
      take n (rev (map2 f (take (length as) xs) as))"
    by (simp only: take_map [symmetric] rev_map [symmetric])
  also have "\<dots> = rev (drop (length as - n) (map2 f (take (length as) xs) as))"
    using that by (simp add: take_rev)
  finally show ?thesis
    by (simp add: drop_map drop_zip)
qed

lemma plan_rollback_iff:
  assumes "catalog_wf cat"
  shows "plan_rollback cat applied n = Inr plan \<longleftrightarrow>
    list_all2 row_matches applied (take (length applied) cat)
    \<and> plan = \<lparr>plan_direction = RollbackPlan,
              plan_steps = rev (map2 RollbackStep
                (drop (length applied - n) (take (length applied) cat))
                (drop (length applied - n) applied))\<rparr>"
  by (auto simp: plan_rollback_def bindr_eq_Inr_iff reconcile_iff_aux [OF assms]
      rev_enumerate_take [OF matches_length])

text \<open>The row the runner records for a pair it has applied.\<close>

definition row_for :: "nat \<Rightarrow> migration_pair \<Rightarrow> applied_migration" where
  "row_for now p =
     \<lparr>am_id = mp_id p, am_up_checksum = ms_checksum (mp_up p),
      am_down_checksum = ms_checksum (mp_down p), am_up_mode = ms_mode (mp_up p),
      am_down_mode = ms_mode (mp_down p), am_applied_at = now\<rparr>"

lemma row_for_matches [simp]: "row_matches (row_for now p) p"
  by (simp add: row_for_def row_matches_def)

lemma matches_extend:
  assumes "list_all2 row_matches applied (take (length applied) cat)"
  shows "list_all2 row_matches (applied @ map (row_for now) (drop (length applied) cat))
     (take (length (applied @ map (row_for now) (drop (length applied) cat))) cat)"
proof -
  have "list_all2 row_matches (map (row_for now) (drop (length applied) cat)) (drop (length applied) cat)"
    by (simp add: list_all2_map1 list_all2_refl)
  with assms have "list_all2 row_matches (applied @ map (row_for now) (drop (length applied) cat))
      (take (length applied) cat @ drop (length applied) cat)"
    by (rule list_all2_appendI)
  with matches_length [OF assms] show ?thesis by simp
qed

lemma matches_shrink:
  "list_all2 row_matches applied (take (length applied) cat) \<Longrightarrow> n \<le> length applied \<Longrightarrow>
   list_all2 row_matches (take n applied) (take (length (take n applied)) cat)"
  using list_all2_takeI [of row_matches applied "take (length applied) cat" n]
  by (simp add: min_absorb1)

section \<open>Claims\<close>

text \<open>
  C30. Building a catalog succeeds exactly when every asset parses to a script, no two scripts share
  identifier and direction, no version has two names and every identifier has an up and a down
  script; the catalog is then the identifiers in increasing order, each with its two scripts.
\<close>

theorem from_assets_spec:
  "from_assets sha256 assets = Inr cat \<longleftrightarrow>
   (\<exists>ss. collect_r (asset_parse sha256) assets = Inr ss \<and> well_paired ss \<and> cat = catalog_of ss)"
  by (rule from_assets_iff)

text \<open>
  The catalog does not depend on the order in which a source delivers its files, and its
  versions are strictly increasing with both scripts of each pair carrying the pair's identifier.
\<close>

theorem from_assets_deterministic:
  assumes "from_assets sha256 assets = Inr cat" and "mset assets' = mset assets"
  shows "from_assets sha256 assets' = Inr cat \<and> catalog_wf cat"
  using assms by (blast intro: from_assets_perm from_assets_wf)

definition demo_assets :: "migration_asset list" where
  "demo_assets =
     [\<lparr>asset_path = ''m/1__a.up.sql'', asset_contents = ''x''\<rparr>,
      \<lparr>asset_path = ''m/1__a.down.sql'', asset_contents = ''y''\<rparr>]"

definition demo_script :: "migration_kind \<Rightarrow> str \<Rightarrow> migration_script" where
  "demo_script k c =
     \<lparr>ms_file = \<lparr>mf_id = MigrationId 1 ''a'', mf_kind = k\<rparr>, ms_mode = Transactional,
      ms_contents = c, ms_checksum = as_bytes c\<rparr>"

definition demo_catalog :: catalog where
  "demo_catalog =
     [\<lparr>mp_id = MigrationId 1 ''a'', mp_up = demo_script Up ''x'', mp_down = demo_script Down ''y''\<rparr>]"

lemma demo_from_assets: "from_assets (\<lambda>b. b) demo_assets = Inr demo_catalog"
  by code_simp

theorem from_assets_deterministic_witness:
  "from_assets (\<lambda>b. b) (rev demo_assets) = Inr demo_catalog \<and> catalog_wf demo_catalog"
  by (rule from_assets_deterministic [OF demo_from_assets]) simp

lemma demo_catalog_wf: "catalog_wf demo_catalog"
  using demo_from_assets by (rule from_assets_wf)

text \<open>
  C29. Reconciliation against a catalog accepts exactly the histories that are a prefix of it: the
  same identifiers in the same order, with unchanged checksums and transaction modes. It never
  alters the history.
\<close>

theorem reconcile_iff:
  assumes "from_assets sha256 assets = Inr cat"
  shows "reconcile cat applied = Inr r \<longleftrightarrow>
    r = applied \<and> list_all2 row_matches applied (take (length applied) cat)"
  using from_assets_wf [OF assms] by (rule reconcile_iff_aux)

theorem reconcile_iff_witness:
  "reconcile demo_catalog [row_for 7 (hd demo_catalog)] = Inr [row_for 7 (hd demo_catalog)]"
  unfolding reconcile_iff [OF demo_from_assets] by (simp add: demo_catalog_def)

text \<open>
  After the steps of an apply plan have been recorded, nothing is pending: a second plan is
  empty, whatever time stamp the rows got.
\<close>

lemma plan_apply_idempotent:
  assumes "from_assets sha256 assets = Inr cat" and "plan_apply cat applied = Inr plan"
  shows "plan_apply cat (applied @ map (row_for now \<circ> step_pair) (plan_steps plan)) =
    Inr \<lparr>plan_direction = ApplyPlan, plan_steps = []\<rparr>"
proof -
  note wf = from_assets_wf [OF assms(1)]
  from assms(2) have m: "list_all2 row_matches applied (take (length applied) cat)"
    and steps: "plan_steps plan = map ApplyStep (drop (length applied) cat)"
    by (auto simp: plan_apply_iff [OF wf])
  have rows: "map (row_for now \<circ> step_pair) (plan_steps plan) = map (row_for now) (drop (length applied) cat)"
    by (simp add: steps comp_def)
  from matches_extend [OF m, of now] matches_length [OF m] show ?thesis
    unfolding rows plan_apply_iff [OF wf] by simp
qed

lemma plan_apply_idempotent_witness:
  "plan_apply demo_catalog ([] @ map (row_for 7 \<circ> step_pair) [ApplyStep (hd demo_catalog)]) =
     Inr \<lparr>plan_direction = ApplyPlan, plan_steps = []\<rparr>"
proof -
  have "plan_apply demo_catalog [] =
      Inr \<lparr>plan_direction = ApplyPlan, plan_steps = [ApplyStep (hd demo_catalog)]\<rparr>"
    unfolding plan_apply_iff [OF demo_catalog_wf] by (simp add: demo_catalog_def)
  from plan_apply_idempotent [OF demo_from_assets this, of 7] show ?thesis by simp
qed

lemma map_step_applied:
  assumes "length ps = length as"
  shows "map step_applied (map2 RollbackStep ps as) = map Some as"
  using assms by (induction rule: list_induct2) simp_all

lemma rollback_steps_match:
  assumes "list_all2 row_matches as ps"
  shows "list_all2 (\<lambda>s a. row_matches a (step_pair s)) (map2 RollbackStep ps as) as"
  using assms by (induction rule: list_all2_induct) simp_all

lemma map_step_pair:
  assumes "length ps = length as"
  shows "map step_pair (map2 RollbackStep ps as) = ps"
  using assms by (induction rule: list_induct2) simp_all

text \<open>
  C31. A rollback plan undoes the last applied migrations in reverse order, each step pairing the
  recorded row with the script it was made from; the history that remains is accepted again and
  planning to apply from it starts with the migrations just rolled back, in catalog order.
\<close>

theorem plan_rollback_spec:
  assumes "from_assets sha256 assets = Inr cat" and "plan_rollback cat applied n = Inr plan"
  shows "map step_applied (plan_steps plan) = map Some (take n (rev applied))
    \<and> list_all2 (\<lambda>s a. row_matches a (step_pair s)) (plan_steps plan) (take n (rev applied))
    \<and> plan_apply cat (take (length applied - n) applied) =
        Inr \<lparr>plan_direction = ApplyPlan,
             plan_steps = map ApplyStep (rev (map step_pair (plan_steps plan)) @ drop (length applied) cat)\<rparr>"
proof -
  note wf = from_assets_wf [OF assms(1)]
  let ?k = "length applied - n"
  from assms(2) have m: "list_all2 row_matches applied (take (length applied) cat)"
    and steps: "plan_steps plan =
      rev (map2 RollbackStep (drop ?k (take (length applied) cat)) (drop ?k applied))"
    by (auto simp: plan_rollback_iff [OF wf])
  note len = matches_length [OF m]
  have rows: "take n (rev applied) = rev (drop ?k applied)"
    by (simp add: take_rev)
  have l: "length (drop ?k (take (length applied) cat)) = length (drop ?k applied)"
    using len by simp
  have "map step_applied (plan_steps plan) = map Some (take n (rev applied))"
    unfolding rows steps rev_map [symmetric] map_step_applied [OF l] ..
  moreover have "list_all2 (\<lambda>s a. row_matches a (step_pair s)) (plan_steps plan) (take n (rev applied))"
  proof -
    have "list_all2 row_matches (drop ?k applied) (drop ?k (take (length applied) cat))"
      using m by (rule list_all2_dropI)
    then have "list_all2 (\<lambda>s a. row_matches a (step_pair s))
        (map2 RollbackStep (drop ?k (take (length applied) cat)) (drop ?k applied)) (drop ?k applied)"
      by (rule rollback_steps_match)
    then show ?thesis unfolding rows steps by (simp add: list_all2_rev)
  qed
  moreover have "plan_apply cat (take ?k applied) = Inr \<lparr>plan_direction = ApplyPlan,
      plan_steps = map ApplyStep (rev (map step_pair (plan_steps plan)) @ drop (length applied) cat)\<rparr>"
  proof -
    have "rev (map step_pair (plan_steps plan)) = drop ?k (take (length applied) cat)"
      unfolding steps rev_map [symmetric] map_step_pair [OF l] by simp
    then have "rev (map step_pair (plan_steps plan)) @ drop (length applied) cat = drop ?k cat"
      using len by (simp add: drop_take) (metis append_take_drop_id diff_diff_cancel diff_le_self
          drop_drop le_add_diff_inverse2 add.commute)
    with matches_shrink [OF m, of ?k] show ?thesis
      unfolding plan_apply_iff [OF wf] by (simp add: min_absorb1)
  qed
  ultimately show ?thesis by blast
qed

theorem plan_rollback_spec_witness:
  "map step_applied [RollbackStep (hd demo_catalog) (row_for 7 (hd demo_catalog))] =
     map Some (take 1 (rev [row_for 7 (hd demo_catalog)]))"
proof -
  have "plan_rollback demo_catalog [row_for 7 (hd demo_catalog)] 1 =
      Inr \<lparr>plan_direction = RollbackPlan,
           plan_steps = [RollbackStep (hd demo_catalog) (row_for 7 (hd demo_catalog))]\<rparr>"
    unfolding plan_rollback_iff [OF demo_catalog_wf] by (simp add: demo_catalog_def)
  from plan_rollback_spec [OF demo_from_assets this] show ?thesis by simp
qed

text \<open>
  The status lists every migration of the catalog, the applied ones first and with their own
  rows; the subtraction of \<open>pending_count\<close> never underflows and the two counts add up.
\<close>

lemma status_spec:
  assumes "from_assets sha256 assets = Inr cat" and "status cat applied = Inr st"
  shows "map se_pair (st_entries st) = cat
    \<and> map se_state (st_entries st) = map Applied applied @ replicate (length cat - length applied) Pending
    \<and> pending_count st = Some (length cat - st_applied_count st)
    \<and> st_applied_count st = length applied"
proof -
  from assms have m: "list_all2 row_matches applied (take (length applied) cat)"
    and st: "st = \<lparr>st_entries = map (\<lambda>(i, p). status_entry_at applied i p) (enumerate 0 cat),
                  st_applied_count = length applied\<rparr>"
    by (auto simp: status_def bindr_eq_Inr_iff reconcile_iff_aux [OF from_assets_wf])
  note len = matches_length [OF m]
  have "map se_pair (st_entries st) = cat"
    by (simp add: st status_entry_at_def case_prod_beta comp_def)
  moreover have "map se_state (st_entries st) =
      map Applied applied @ replicate (length cat - length applied) Pending"
    using len by (auto simp: st status_entry_at_def list_eq_iff_nth_eq nth_append nth_enumerate_eq)
  moreover have "pending_count st = Some (length cat - st_applied_count st)"
    using len by (simp add: pending_count_def st)
  ultimately show ?thesis by (simp add: st)
qed

lemma status_spec_witness:
  "pending_count \<lparr>st_entries = [status_entry_at [] 0 (hd demo_catalog)], st_applied_count = 0\<rparr> = Some 1"
proof -
  have "status demo_catalog [] =
      Inr \<lparr>st_entries = [status_entry_at [] 0 (hd demo_catalog)], st_applied_count = 0\<rparr>"
    by (simp add: status_def reconcile_iff_aux [OF demo_catalog_wf] reconcile_def demo_catalog_def)
  from status_spec [OF demo_from_assets this] show ?thesis by (simp add: demo_catalog_def)
qed

end
