(* ===== verification/Migration_Runner.thy ===== *)
theory Migration_Runner
  imports Migration_Plan
begin

text \<open>
  The migration runner (\<open>migration/runner.rs\<close>, \<open>migration/mod.rs\<close>): the statements it sends through
  the \<open>MigrationExecutor\<close> interface, transactional batches, the advisory lock and the state table.
  The executor is the parameter \<open>exec\<close>: it answers one SQL string and changes its own state; every
  statement sent and its answer are recorded in \<open>w_log\<close>, in order.
\<close>

section \<open>The executor\<close>

type_synonym answer = "raw_rows list result"
type_synonym 's executor = "str \<Rightarrow> 's \<Rightarrow> answer \<times> 's"

record 's world =
  w_state :: 's
  w_log :: "(str \<times> answer) list"

type_synonym ('s, 'a) run = "'s world \<Rightarrow> 'a result \<times> 's world"

definition simple_query_raw :: "'s executor \<Rightarrow> str \<Rightarrow> ('s, raw_rows list) run" where
  "simple_query_raw exec sql w =
     (let (r, s') = exec sql (w_state w)
      in (r, \<lparr>w_state = s', w_log = w_log w @ [(sql, r)]\<rparr>))"

fun batch_loop :: "'s executor \<Rightarrow> str list \<Rightarrow> ('s, unit) run" where
  "batch_loop exec [] w = (Inr (), w)"
| "batch_loop exec (statement # statements) w =
     (case simple_query_raw exec statement w of
        (Inl err, w') \<Rightarrow> (Inl err, snd (simple_query_raw exec ''ROLLBACK'' w'))
      | (Inr _, w') \<Rightarrow> batch_loop exec statements w')"

definition transactional_batch :: "'s executor \<Rightarrow> str list \<Rightarrow> ('s, unit) run" where
  "transactional_batch exec statements =
     bindm (simple_query_raw exec ''BEGIN'') (\<lambda>_.
     bindm (batch_loop exec statements) (\<lambda>_.
     bindm (simple_query_raw exec ''COMMIT'') (\<lambda>_. ret ())))"

section \<open>Reading the state table\<close>

definition invalid_row :: "str \<Rightarrow> error" where
  "invalid_row reason = Migration (InvalidAppliedMigrationRow reason)"

definition parse_required_text :: "raw_row \<Rightarrow> nat \<Rightarrow> str \<Rightarrow> str result" where
  "parse_required_text row index column =
     (if \<not> index < length row
      then Inl (invalid_row (''missing '' @ column @ '' column at index '' @ show_nat index))
      else case row ! index of
        None \<Rightarrow> Inl (invalid_row (column @ '' cannot be NULL''))
      | Some cell \<Rightarrow>
          map_err (\<lambda>err. invalid_row (column @ '' was not valid UTF-8: '' @ show_utf8_error err))
            (from_utf8 cell))"

definition parse_row_u64 :: "raw_row \<Rightarrow> nat \<Rightarrow> str \<Rightarrow> u64 result" where
  "parse_row_u64 row index column =
     bindr (parse_required_text row index column) (\<lambda>text.
       map_err (\<lambda>err. invalid_row (''could not parse '' @ column @ '': '' @ show_parse_int_error err))
         (parse_u64 text))"

definition parse_transaction_mode :: "raw_row \<Rightarrow> nat \<Rightarrow> str \<Rightarrow> transaction_mode result" where
  "parse_transaction_mode row index column =
     bindr (parse_required_text row index column) (\<lambda>text.
       map_err Migration (parse_directive text column))"

text \<open>
  Floating point is a parameter: \<open>f64_parse\<close> is \<open>str::parse::<f64>\<close> with its rendered error,
  \<open>f64_finite\<close> and \<open>f64_negative\<close> are the two tests, \<open>f64_nanos\<close> is \<open>Duration::from_secs_f64\<close> in
  nanoseconds, for the values that fit a \<open>Duration\<close>.
\<close>

record 'f f64_ops =
  f64_parse :: "str \<Rightarrow> str + 'f"
  f64_finite :: "'f \<Rightarrow> bool"
  f64_negative :: "'f \<Rightarrow> bool"
  f64_nanos :: "'f \<Rightarrow> nat"

definition parse_epoch_system_time :: "'f f64_ops \<Rightarrow> str \<Rightarrow> nat result" where
  "parse_epoch_system_time F epoch =
     bindr (map_err (\<lambda>err. invalid_row (''could not parse applied_at epoch seconds: '' @ err))
              (f64_parse F epoch)) (\<lambda>seconds.
       if \<not> f64_finite F seconds \<or> f64_negative F seconds
       then Inl (invalid_row (''applied_at epoch seconds must be a finite, non-negative value: '' @ epoch))
       else Inr (f64_nanos F seconds))"

definition parse_applied_row :: "'f f64_ops \<Rightarrow> raw_row \<Rightarrow> applied_migration result" where
  "parse_applied_row F row =
     (if length row \<noteq> 7
      then Inl (invalid_row (''expected 7 columns, found '' @ show_nat (length row)))
      else
        bindr (parse_row_u64 row 0 ''version'') (\<lambda>version.
        bindr (parse_required_text row 1 ''name'') (\<lambda>name.
        bindr (map_err Migration (migration_id_new version name)) (\<lambda>i.
        bindr (parse_required_text row 2 ''up_checksum'') (\<lambda>up_text.
        bindr (map_err Migration (checksum_parse up_text)) (\<lambda>up_checksum.
        bindr (parse_required_text row 3 ''down_checksum'') (\<lambda>down_text.
        bindr (map_err Migration (checksum_parse down_text)) (\<lambda>down_checksum.
        bindr (parse_transaction_mode row 4 ''up_transaction_mode'') (\<lambda>up_mode.
        bindr (parse_transaction_mode row 5 ''down_transaction_mode'') (\<lambda>down_mode.
        bindr (parse_required_text row 6 ''applied_at'') (\<lambda>epoch.
        bindr (parse_epoch_system_time F epoch) (\<lambda>applied_at.
          Inr \<lparr>am_id = i, am_up_checksum = up_checksum, am_down_checksum = down_checksum,
               am_up_mode = up_mode, am_down_mode = down_mode, am_applied_at = applied_at\<rparr>))))))))))))"

definition select_applied_sql :: "migration_table \<Rightarrow> str" where
  "select_applied_sql t =
     ''SELECT version::text, name, up_checksum, down_checksum, up_transaction_mode, '' @
     ''down_transaction_mode, EXTRACT(EPOCH FROM applied_at)::text FROM '' @ qualified_name t @
     '' ORDER BY version ASC''"

definition rows_of_sets :: "'f f64_ops \<Rightarrow> raw_rows list \<Rightarrow> applied_migration list result" where
  "rows_of_sets F result_sets =
     (case result_sets of
        [] \<Rightarrow> Inr []
      | rows # _ \<Rightarrow> collect_r (parse_applied_row F) rows)"

definition load_applied_migrations ::
    "'f f64_ops \<Rightarrow> 's executor \<Rightarrow> migration_table \<Rightarrow> ('s, applied_migration list) run" where
  "load_applied_migrations F exec t =
     bindm (simple_query_raw exec (select_applied_sql t)) (\<lambda>result_sets.
       of_result (rows_of_sets F result_sets))"

definition ensure_state_table :: "'s executor \<Rightarrow> migration_table \<Rightarrow> ('s, unit) run" where
  "ensure_state_table exec t =
     bindm (simple_query_raw exec (create_if_missing_sql t)) (\<lambda>_. ret ())"

section \<open>State changes\<close>

definition escape_sql_literal :: "str \<Rightarrow> str" where
  "escape_sql_literal value = replace_char squote [squote, squote] value"

definition insert_applied_migration_sql :: "migration_table \<Rightarrow> migration_pair \<Rightarrow> str" where
  "insert_applied_migration_sql t p =
     ''INSERT INTO '' @ qualified_name t @
     '' (version, name, up_checksum, down_checksum, up_transaction_mode, down_transaction_mode) VALUES ('' @
     show_nat (unat (mid_version (mp_id p))) @ '', '' @
     quoted (escape_sql_literal (mid_name (mp_id p))) @ '', '' @
     quoted (to_hex (ms_checksum (mp_up p))) @ '', '' @
     quoted (to_hex (ms_checksum (mp_down p))) @ '', '' @
     quoted (mode_as_str (ms_mode (mp_up p))) @ '', '' @
     quoted (mode_as_str (ms_mode (mp_down p))) @ '')''"

definition delete_applied_migration_sql :: "migration_table \<Rightarrow> u64 \<Rightarrow> str" where
  "delete_applied_migration_sql t version =
     ''DELETE FROM '' @ qualified_name t @ '' WHERE version = '' @ show_nat (unat version)"

definition execute_script_and_state_change ::
    "'s executor \<Rightarrow> str \<Rightarrow> transaction_mode \<Rightarrow> str \<Rightarrow> ('s, unit) run" where
  "execute_script_and_state_change exec script_sql mode state_change_sql =
     (case mode of
        Transactional \<Rightarrow> transactional_batch exec [script_sql, state_change_sql]
      | NonTransactional \<Rightarrow>
          bindm (simple_query_raw exec script_sql) (\<lambda>_.
            transactional_batch exec [state_change_sql]))"

fun execute_step :: "'s executor \<Rightarrow> migration_table \<Rightarrow> plan_step \<Rightarrow> ('s, unit) run" where
  "execute_step exec t (ApplyStep p) =
     execute_script_and_state_change exec (ms_contents (mp_up p)) (ms_mode (mp_up p))
       (insert_applied_migration_sql t p)"
| "execute_step exec t (RollbackStep p a) =
     execute_script_and_state_change exec (ms_contents (mp_down p)) (ms_mode (mp_down p))
       (delete_applied_migration_sql t (mid_version (mp_id p)))"

fun execute_steps :: "'s executor \<Rightarrow> migration_table \<Rightarrow> plan_step list \<Rightarrow> ('s, unit) run" where
  "execute_steps exec t [] w = (Inr (), w)"
| "execute_steps exec t (s # ss) w =
     bindm (execute_step exec t s) (\<lambda>_. execute_steps exec t ss) w"

definition execute_plan :: "'s executor \<Rightarrow> migration_table \<Rightarrow> migration_plan \<Rightarrow> ('s, unit) run" where
  "execute_plan exec t plan = execute_steps exec t (plan_steps plan)"

section \<open>The advisory lock\<close>

definition lock_sql :: "i64 \<Rightarrow> str" where
  "lock_sql lock_id = ''SELECT pg_advisory_lock('' @ show_int (sint lock_id) @ '')''"

definition unlock_sql :: "i64 \<Rightarrow> str" where
  "unlock_sql lock_id = ''SELECT pg_advisory_unlock('' @ show_int (sint lock_id) @ '')''"

definition acquire_advisory_lock :: "'s executor \<Rightarrow> i64 \<Rightarrow> ('s, unit) run" where
  "acquire_advisory_lock exec lock_id =
     bindm (simple_query_raw exec (lock_sql lock_id)) (\<lambda>_. ret ())"

definition unlock_answer :: "raw_rows list \<Rightarrow> unit result" where
  "unlock_answer result_sets =
     (case result_sets of
        [] \<Rightarrow> Inl (invalid_row ''advisory unlock did not return a result row'')
      | [] # _ \<Rightarrow> Inl (invalid_row ''advisory unlock returned an empty result set'')
      | (row # _) # _ \<Rightarrow>
          bindr (parse_required_text row 0 ''pg_advisory_unlock'') (\<lambda>unlocked.
            if unlocked = ''t'' then Inr ()
            else Inl (invalid_row (''advisory unlock returned '' @ debug_str unlocked @
                        '' instead of '' @ [dquote] @ ''t'' @ [dquote]))))"

definition release_advisory_lock :: "'s executor \<Rightarrow> i64 \<Rightarrow> ('s, unit) run" where
  "release_advisory_lock exec lock_id =
     bindm (simple_query_raw exec (unlock_sql lock_id)) (\<lambda>sets. of_result (unlock_answer sets))"

fun finish_locked_operation :: "'a result \<Rightarrow> unit result \<Rightarrow> 'a result" where
  "finish_locked_operation (Inr value) _ = Inr value"
| "finish_locked_operation (Inl err) _ = Inl err"

section \<open>The migrator\<close>

record migrator_options =
  mo_table :: migration_table
  mo_advisory_lock_id :: i64

definition default_options :: migrator_options where
  "default_options =
     \<lparr>mo_table = default_table, mo_advisory_lock_id = word_of_int DEFAULT_MIGRATION_ADVISORY_LOCK_ID\<rparr>"

text \<open>
  A migrator is its source, reduced to what \<open>MigrationSource::load\<close> returns, with its options.
\<close>

record migrator =
  mg_source :: "migration_error + migration_asset list"
  mg_options :: migrator_options

definition migrator_catalog :: "(bytes \<Rightarrow> bytes) \<Rightarrow> migrator \<Rightarrow> migration_error + catalog" where
  "migrator_catalog sha256 m = from_source sha256 (mg_source m)"

definition migrator_status ::
    "(bytes \<Rightarrow> bytes) \<Rightarrow> migrator \<Rightarrow> applied_migration list \<Rightarrow> migration_error + migration_status" where
  "migrator_status sha256 m applied = bindr (migrator_catalog sha256 m) (\<lambda>cat. status cat applied)"

definition migrator_plan_apply ::
    "(bytes \<Rightarrow> bytes) \<Rightarrow> migrator \<Rightarrow> applied_migration list \<Rightarrow> migration_error + migration_plan" where
  "migrator_plan_apply sha256 m applied =
     bindr (migrator_catalog sha256 m) (\<lambda>cat. plan_apply cat applied)"

definition migrator_plan_rollback ::
    "(bytes \<Rightarrow> bytes) \<Rightarrow> migrator \<Rightarrow> applied_migration list \<Rightarrow> nat \<Rightarrow> migration_error + migration_plan" where
  "migrator_plan_rollback sha256 m applied steps =
     bindr (migrator_catalog sha256 m) (\<lambda>cat. plan_rollback cat applied steps)"

definition applied_migrations ::
    "'f f64_ops \<Rightarrow> migrator \<Rightarrow> 's executor \<Rightarrow> ('s, applied_migration list) run" where
  "applied_migrations F m exec =
     bindm (ensure_state_table exec (mo_table (mg_options m))) (\<lambda>_.
       load_applied_migrations F exec (mo_table (mg_options m)))"

text \<open>The part of \<open>apply\<close> and \<open>rollback\<close> between taking and releasing the lock.\<close>

definition plan_and_execute ::
    "'f f64_ops \<Rightarrow> (applied_migration list \<Rightarrow> migration_error + migration_plan) \<Rightarrow> migration_table \<Rightarrow>
     's executor \<Rightarrow> ('s, migration_plan) run" where
  "plan_and_execute F planner t exec =
     bindm (load_applied_migrations F exec t) (\<lambda>applied.
     bindm (of_result (map_err Migration (planner applied))) (\<lambda>plan.
     bindm (execute_plan exec t plan) (\<lambda>_. ret plan)))"

definition locked ::
    "'s executor \<Rightarrow> migrator_options \<Rightarrow> ('s, 'a) run \<Rightarrow> ('s, 'a) run" where
  "locked exec opts body =
     bindm (ensure_state_table exec (mo_table opts)) (\<lambda>_.
     bindm (acquire_advisory_lock exec (mo_advisory_lock_id opts)) (\<lambda>_ w.
       let (outcome, w') = body w;
           (unlock, w'') = release_advisory_lock exec (mo_advisory_lock_id opts) w'
       in (finish_locked_operation outcome unlock, w'')))"

definition migrator_apply ::
    "'f f64_ops \<Rightarrow> (bytes \<Rightarrow> bytes) \<Rightarrow> migrator \<Rightarrow> 's executor \<Rightarrow> ('s, migration_plan) run" where
  "migrator_apply F sha256 m exec =
     locked exec (mg_options m)
       (plan_and_execute F (migrator_plan_apply sha256 m) (mo_table (mg_options m)) exec)"

definition migrator_rollback ::
    "'f f64_ops \<Rightarrow> (bytes \<Rightarrow> bytes) \<Rightarrow> migrator \<Rightarrow> 's executor \<Rightarrow> nat \<Rightarrow> ('s, migration_plan) run" where
  "migrator_rollback F sha256 m exec steps =
     locked exec (mg_options m)
       (plan_and_execute F (\<lambda>applied. migrator_plan_rollback sha256 m applied steps)
          (mo_table (mg_options m)) exec)"

section \<open>What the server has acknowledged\<close>

text \<open>
  The reading of a log by the transaction rules of SQL: outside a transaction a statement takes
  effect when it succeeds; inside, the statements take effect together when \<open>COMMIT\<close> succeeds, and
  not at all once one of them has failed or after \<open>ROLLBACK\<close>.
\<close>

datatype tx = Auto | InTx "str list" | Aborted

fun acknowledged :: "tx \<Rightarrow> (str \<times> answer) list \<Rightarrow> str list" where
  "acknowledged tx [] = []"
| "acknowledged Auto ((sql, Inl e) # l) = acknowledged Auto l"
| "acknowledged Auto ((sql, Inr a) # l) =
     (if sql = ''BEGIN'' then acknowledged (InTx []) l else sql # acknowledged Auto l)"
| "acknowledged (InTx acc) ((sql, r) # l) =
     (if sql = ''ROLLBACK'' then acknowledged Auto l
      else if sql = ''COMMIT'' then
        (case r of Inl e \<Rightarrow> acknowledged Auto l | Inr a \<Rightarrow> acc @ acknowledged Auto l)
      else (case r of Inl e \<Rightarrow> acknowledged Aborted l | Inr a \<Rightarrow> acknowledged (InTx (acc @ [sql])) l))"
| "acknowledged Aborted ((sql, r) # l) =
     acknowledged (if sql = ''ROLLBACK'' \<or> sql = ''COMMIT'' then Auto else Aborted) l"

definition plain :: "str \<Rightarrow> bool" where
  "plain sql = (sql \<notin> {''BEGIN'', ''COMMIT'', ''ROLLBACK''})"

definition step_script :: "plan_step \<Rightarrow> migration_script" where
  "step_script s = (case step_kind s of Up \<Rightarrow> mp_up (step_pair s) | Down \<Rightarrow> mp_down (step_pair s))"

definition step_state_sql :: "migration_table \<Rightarrow> plan_step \<Rightarrow> str" where
  "step_state_sql t s =
     (case step_kind s of
        Up \<Rightarrow> insert_applied_migration_sql t (step_pair s)
      | Down \<Rightarrow> delete_applied_migration_sql t (mid_version (mp_id (step_pair s))))"

definition step_statements :: "migration_table \<Rightarrow> plan_step \<Rightarrow> str list" where
  "step_statements t s = [ms_contents (step_script s), step_state_sql t s]"

definition plain_plan :: "plan_step list \<Rightarrow> bool" where
  "plain_plan ss = list_all (\<lambda>s. plain (ms_contents (step_script s))) ss"

section \<open>Lemmas\<close>

lemma query_log:
  "simple_query_raw exec sql w = (r, w') \<Longrightarrow> w_log w' = w_log w @ [(sql, r)]"
  by (auto simp: simple_query_raw_def split: prod.splits)

lemma query_snd_log:
  "\<exists>r. w_log (snd (simple_query_raw exec sql w)) = w_log w @ [(sql, r)]"
  using query_log [of exec sql w] by (cases "simple_query_raw exec sql w") auto

text \<open>
  \<open>leaves l tx r tx'\<close>: reading \<open>l\<close> from \<open>tx\<close> acknowledges the statements \<open>r\<close> and goes on from \<open>tx'\<close>.
\<close>

definition leaves :: "(str \<times> answer) list \<Rightarrow> tx \<Rightarrow> str list \<Rightarrow> tx \<Rightarrow> bool" where
  "leaves l tx r tx' = (\<forall>l'. acknowledged tx (l @ l') = r @ acknowledged tx' l')"

lemma leaves_append:
  "leaves l1 tx r1 tx1 \<Longrightarrow> leaves l2 tx1 r2 tx2 \<Longrightarrow> leaves (l1 @ l2) tx (r1 @ r2) tx2"
  by (simp add: leaves_def)

lemma leaves_acknowledged: "leaves l tx r tx' \<Longrightarrow> acknowledged tx l = r"
  unfolding leaves_def by (metis append.right_neutral acknowledged.simps(1))

lemma leaves_auto: "plain sql \<Longrightarrow> leaves [(sql, r)] Auto (if isl r then [] else [sql]) Auto"
  by (cases r) (simp_all add: leaves_def plain_def)

lemma leaves_begin: "leaves [(''BEGIN'', r)] Auto [] (if isl r then Auto else InTx [])"
  by (cases r) (simp_all add: leaves_def)

lemma leaves_commit: "leaves [(''COMMIT'', r)] (InTx acc) (if isl r then [] else acc) Auto"
  by (cases r) (simp_all add: leaves_def)

lemma batch_loop_leaves:
  assumes "list_all plain sts" and "batch_loop exec sts w = (r, w')"
  shows "\<exists>l. w_log w' = w_log w @ l \<and>
    leaves l (InTx acc) [] (if isl r then Auto else InTx (acc @ sts))"
  using assms
proof (induction sts arbitrary: w acc)
  case Nil
  then show ?case by (auto simp: leaves_def)
next
  case (Cons s sts)
  obtain a w1 where q: "simple_query_raw exec s w = (a, w1)" by fastforce
  note log1 = query_log [OF q]
  show ?case
  proof (cases a)
    case (Inl e)
    obtain b where "w_log (snd (simple_query_raw exec ''ROLLBACK'' w1)) = w_log w1 @ [(''ROLLBACK'', b)]"
      using query_snd_log by blast
    then have "w_log w' = w_log w @ [(s, a), (''ROLLBACK'', b)]" "isl r"
      using Cons.prems q Inl log1 by auto
    with Cons.prems Inl show ?thesis by (auto simp: leaves_def plain_def)
  next
    case (Inr x)
    with Cons.prems q have "batch_loop exec sts w1 = (r, w')" "list_all plain sts" by auto
    from Cons.IH [OF this(2,1), of "acc @ [s]"] obtain l
      where l: "w_log w' = w_log w1 @ l"
        "leaves l (InTx (acc @ [s])) [] (if isl r then Auto else InTx ((acc @ [s]) @ sts))"
      by blast
    with log1 have "w_log w' = w_log w @ ((s, a) # l)" by simp
    with l(2) Inr Cons.prems(1) show ?thesis by (fastforce simp: leaves_def plain_def)
  qed
qed

lemma transactional_batch_leaves:
  assumes "list_all plain sts" and "transactional_batch exec sts w = (r, w')"
  shows "\<exists>l. w_log w' = w_log w @ l \<and> leaves l Auto (if isl r then [] else sts) Auto"
proof -
  obtain a w1 where q: "simple_query_raw exec ''BEGIN'' w = (a, w1)" by fastforce
  note log1 = query_log [OF q]
  show ?thesis
  proof (cases a)
    case (Inl e)
    with assms q have "w' = w1" "isl r" by (auto simp: transactional_batch_def bindm_def)
    with log1 leaves_begin [of a] Inl show ?thesis by auto
  next
    case (Inr x)
    obtain b w2 where loop: "batch_loop exec sts w1 = (b, w2)" by fastforce
    from batch_loop_leaves [OF assms(1) loop, of "[]"] obtain l2
      where l2: "w_log w2 = w_log w1 @ l2"
        "leaves l2 (InTx []) [] (if isl b then Auto else InTx sts)"
      unfolding append_Nil by blast
    have begin_l2: "leaves ((''BEGIN'', a) # l2) Auto [] (if isl b then Auto else InTx sts)"
      using leaves_append [OF leaves_begin [of a], of l2] l2(2) Inr by (cases b) auto
    show ?thesis
    proof (cases b)
      case (Inl e)
      with assms q Inr loop have "w' = w2" "isl r" by (auto simp: transactional_batch_def bindm_def)
      with log1 l2(1) begin_l2 Inl show ?thesis by auto
    next
      case b: (Inr y)
      obtain c w3 where com: "simple_query_raw exec ''COMMIT'' w2 = (c, w3)" by fastforce
      have "w' = w3 \<and> isl r = isl c"
        using assms q Inr loop b com
        by (auto simp: transactional_batch_def bindm_def ret_def split: sum.splits)
      with log1 l2(1) query_log [OF com]
        leaves_append [OF begin_l2, of "[(''COMMIT'', c)]"] leaves_commit [of c sts] b
      show ?thesis by auto
    qed
  qed
qed

lemma state_sql_plain [simp]: "plain (step_state_sql t s)"
  by (cases s) (simp_all add: plain_def step_state_sql_def insert_applied_migration_sql_def
      delete_applied_migration_sql_def)

lemma execute_step_eq:
  "execute_step exec t s =
     execute_script_and_state_change exec (ms_contents (step_script s)) (ms_mode (step_script s))
       (step_state_sql t s)"
  by (cases s) (simp_all add: step_script_def step_state_sql_def)

definition partial_step :: "plan_step \<Rightarrow> str list \<Rightarrow> bool" where
  "partial_step s fin =
     (fin = [] \<or> ms_mode (step_script s) = NonTransactional \<and> fin = [ms_contents (step_script s)])"

lemma execute_step_leaves:
  assumes "plain (ms_contents (step_script s))" and "execute_step exec t s w = (r, w')"
  shows "\<exists>l fin. w_log w' = w_log w @ l \<and> leaves l Auto fin Auto \<and>
    (if isl r then partial_step s fin else fin = step_statements t s)"
proof (cases "ms_mode (step_script s)")
  case Transactional
  with assms have "transactional_batch exec (step_statements t s) w = (r, w')"
    by (simp add: execute_step_eq execute_script_and_state_change_def step_statements_def)
  moreover have "list_all plain (step_statements t s)"
    using assms by (simp add: step_statements_def)
  ultimately obtain l where "w_log w' = w_log w @ l"
    "leaves l Auto (if isl r then [] else step_statements t s) Auto"
    using transactional_batch_leaves by blast
  then show ?thesis by (cases r) (auto simp: partial_step_def)
next
  case NonTransactional
  let ?c = "ms_contents (step_script s)"
  obtain a w1 where q: "simple_query_raw exec ?c w = (a, w1)" by fastforce
  note log1 = query_log [OF q] and lv1 = leaves_auto [OF assms(1), of a]
  show ?thesis
  proof (cases a)
    case (Inl e)
    with NonTransactional assms q have "w' = w1" "isl r"
      by (auto simp: execute_step_eq execute_script_and_state_change_def bindm_def)
    with log1 lv1 Inl show ?thesis by (auto simp: partial_step_def)
  next
    case (Inr x)
    with NonTransactional assms q have "transactional_batch exec [step_state_sql t s] w1 = (r, w')"
      by (simp add: execute_step_eq execute_script_and_state_change_def bindm_def)
    then obtain l where l: "w_log w' = w_log w1 @ l"
      "leaves l Auto (if isl r then [] else [step_state_sql t s]) Auto"
      using transactional_batch_leaves [of "[step_state_sql t s]" exec w1 r w'] by fastforce
    with leaves_append [OF lv1 l(2)] log1 Inr NonTransactional show ?thesis
      by (cases r) (auto simp: partial_step_def step_statements_def)
  qed
qed

lemma execute_steps_leaves:
  assumes "plain_plan ss" and "execute_steps exec t ss w = (r, w')"
  shows "\<exists>l k part. w_log w' = w_log w @ l \<and>
    leaves l Auto (concat (map (step_statements t) (take k ss)) @ part) Auto \<and>
    (if isl r then k < length ss \<and> partial_step (ss ! k) part else k = length ss \<and> part = [])"
  using assms
proof (induction ss arbitrary: w)
  case Nil
  then show ?case by (auto simp: leaves_def)
next
  case (Cons s ss)
  obtain a w1 where e: "execute_step exec t s w = (a, w1)" by fastforce
  from Cons.prems(1) have pl: "plain (ms_contents (step_script s))" "plain_plan ss"
    by (simp_all add: plain_plan_def)
  from execute_step_leaves [OF pl(1) e] obtain l1 d1 where
    l1: "w_log w1 = w_log w @ l1" "leaves l1 Auto d1 Auto"
    "if isl a then partial_step s d1 else d1 = step_statements t s" by blast
  show ?case
  proof (cases a)
    case (Inl err)
    with Cons.prems(2) e have "w' = w1" "isl r" by (auto simp: bindm_def)
    with l1 Inl show ?thesis
      by (intro exI [of _ l1] exI [of _ 0] exI [of _ d1]) auto
  next
    case (Inr u)
    with Cons.prems(2) e have "execute_steps exec t ss w1 = (r, w')" by (simp add: bindm_def)
    from Cons.IH [OF pl(2) this] obtain l k part where
      l: "w_log w' = w_log w1 @ l"
      "leaves l Auto (concat (map (step_statements t) (take k ss)) @ part) Auto"
      "if isl r then k < length ss \<and> partial_step (ss ! k) part else k = length ss \<and> part = []"
      by blast
    from leaves_append [OF l1(2) l(2)] l1 l Inr show ?thesis
      by (intro exI [of _ "l1 @ l"] exI [of _ "Suc k"] exI [of _ part]) (auto split: if_splits)
  qed
qed

lemma locked_trace:
  assumes "locked exec opts body w = (r, w')"
  obtains (no_table) e where "r = Inl e"
      and "w_log w' = w_log w @ [(create_if_missing_sql (mo_table opts), Inl e)]"
  | (no_lock) a e where "r = Inl e"
      and "w_log w' = w_log w @ [(create_if_missing_sql (mo_table opts), Inr a),
             (lock_sql (mo_advisory_lock_id opts), Inl e)]"
  | (ran) a b c w1 w2 where "body w1 = (r, w2)"
      and "w_log w1 = w_log w @ [(create_if_missing_sql (mo_table opts), Inr a),
             (lock_sql (mo_advisory_lock_id opts), Inr b)]"
      and "w_log w' = w_log w2 @ [(unlock_sql (mo_advisory_lock_id opts), c)]"
proof -
  let ?create = "create_if_missing_sql (mo_table opts)" and ?lock = "lock_sql (mo_advisory_lock_id opts)"
    and ?unlock = "unlock_sql (mo_advisory_lock_id opts)"
  obtain a w0 where q0: "simple_query_raw exec ?create w = (a, w0)" by fastforce
  obtain b w1 where q1: "simple_query_raw exec ?lock w0 = (b, w1)" by fastforce
  obtain out w2 where q2: "body w1 = (out, w2)" by fastforce
  obtain c w3 where q3: "simple_query_raw exec ?unlock w2 = (c, w3)" by fastforce
  note logs = query_log [OF q0] query_log [OF q1] query_log [OF q3]
  note defs = locked_def ensure_state_table_def acquire_advisory_lock_def release_advisory_lock_def
    bindm_def ret_def of_result_def q0 q1 q2 q3
  show thesis
  proof (cases a)
    case (Inl e)
    with assms logs show ?thesis by (auto simp: defs intro: no_table)
  next
    case a: (Inr x)
    show ?thesis
    proof (cases b)
      case (Inl e)
      with a assms logs show ?thesis by (auto simp: defs intro: no_lock)
    next
      case (Inr y)
      with a assms have "w' = w3" "r = finish_locked_operation out (fst (release_advisory_lock exec (mo_advisory_lock_id opts) w2))"
        by (auto simp: defs split: sum.splits)
      moreover have "finish_locked_operation out u = out" for u by (cases out) auto
      ultimately show ?thesis using ran [OF _ _ _] q2 logs a Inr by auto
    qed
  qed
qed

lemma load_trace:
  assumes "load_applied_migrations F exec t w = (r, w')"
  shows "\<exists>a. w_log w' = w_log w @ [(select_applied_sql t, a)] \<and>
    r = bindr a (rows_of_sets F)"
  using assms query_log [of exec "select_applied_sql t" w]
  by (cases "simple_query_raw exec (select_applied_sql t) w")
    (auto simp: load_applied_migrations_def bindm_def of_result_def split: sum.splits)

lemma plan_and_execute_cases:
  assumes "plan_and_execute F planner t exec w = (r, w')"
  obtains (load) a e where "r = Inl e" and "w_log w' = w_log w @ [(select_applied_sql t, a)]"
  | (plan) a e applied where "r = Inl e" and "w_log w' = w_log w @ [(select_applied_sql t, Inr a)]"
      and "rows_of_sets F a = Inr applied"
      and "isl (planner applied)"
  | (exec) a applied plan w1 u where "w_log w1 = w_log w @ [(select_applied_sql t, Inr a)]"
      and "rows_of_sets F a = Inr applied"
      and "planner applied = Inr plan" and "execute_plan exec t plan w1 = (u, w')"
      and "r = map_sum id (\<lambda>_. plan) u"
proof -
  obtain l w1 where ld: "load_applied_migrations F exec t w = (l, w1)" by fastforce
  then obtain a where a: "w_log w1 = w_log w @ [(select_applied_sql t, a)]"
    "l = bindr a (rows_of_sets F)"
    using load_trace by blast
  note unf = plan_and_execute_def bindm_def of_result_def ret_def ld
  show thesis
  proof (cases l)
    case (Inl e)
    with assms have "w' = w1" "r = Inl e" by (simp_all add: unf)
    with a(1) show ?thesis by (simp add: load)
  next
    case l: (Inr applied)
    with a obtain sets where sets: "a = Inr sets"
      "rows_of_sets F sets = Inr applied"
      by (cases a) auto
    show ?thesis
    proof (cases "planner applied")
      case (Inl e)
      with assms l have "w' = w1" "r = Inl (Migration e)" by (simp_all add: unf)
      with a(1) sets Inl show ?thesis by (simp add: plan)
    next
      case (Inr p)
      obtain u w2 where ep: "execute_plan exec t p w1 = (u, w2)" by fastforce
      with assms Inr l have "w' = w2" "r = map_sum id (\<lambda>_. p) u"
        by (auto simp: unf split: sum.splits)
      with exec [OF _ sets(2) Inr, of w1 u] a sets ep show ?thesis by simp
    qed
  qed
qed

lemma query_extends: "\<exists>l. w_log (snd (simple_query_raw exec sql w)) = w_log w @ l"
  using query_snd_log by fast

lemma bindm_extends:
  assumes "\<And>w. \<exists>l. w_log (snd (m w)) = w_log w @ l"
    and "\<And>a w. \<exists>l. w_log (snd (f a w)) = w_log w @ l"
  shows "\<exists>l. w_log (snd (bindm m f w)) = w_log w @ l"
proof (cases "m w")
  case (Pair r w1)
  with assms(1) [of w] obtain l where l: "w_log w1 = w_log w @ l" by auto
  show ?thesis
  proof (cases r)
    case (Inl e)
    with Pair l show ?thesis by (simp add: bindm_def)
  next
    case (Inr a)
    with assms(2) [of a w1] Pair l show ?thesis by (auto simp: bindm_def)
  qed
qed

lemma batch_loop_extends: "\<exists>l. w_log (snd (batch_loop exec sts w)) = w_log w @ l"
proof (induction sts arbitrary: w)
  case (Cons s sts)
  obtain a w1 where q: "simple_query_raw exec s w = (a, w1)" by fastforce
  with Cons.IH [of w1] query_log [OF q] query_snd_log [of exec "''ROLLBACK''" w1] show ?case
    by (cases a) auto
qed simp

lemma execute_plan_extends:
  "execute_plan exec t plan w = (u, w') \<Longrightarrow> \<exists>l. w_log w' = w_log w @ l"
proof -
  have ret: "\<exists>l. w_log (snd (ret a w)) = w_log w @ l" for a :: 'b and w :: "'a world"
    by (simp add: ret_def)
  have batch: "\<exists>l. w_log (snd (transactional_batch exec sts w)) = w_log w @ l" for sts w
    unfolding transactional_batch_def by (intro bindm_extends query_extends batch_loop_extends ret)
  have step: "\<exists>l. w_log (snd (execute_step exec t s w)) = w_log w @ l" for s w
    unfolding execute_step_eq execute_script_and_state_change_def
    by (cases "ms_mode (step_script s)") (auto intro!: bindm_extends query_extends batch)
  have "\<exists>l. w_log (snd (execute_steps exec t ss w)) = w_log w @ l" for ss
    by (induction ss arbitrary: w) (auto intro!: bindm_extends step)
  from this [of "plan_steps plan"] show "execute_plan exec t plan w = (u, w') \<Longrightarrow> ?thesis"
    by (simp add: execute_plan_def)
qed

lemma valid_name_ascii: "validate_name s = Inr () \<Longrightarrow> ascii_str s"
  by (auto simp: validate_name_def ascii_str_def list_all_iff name_char_def is_ascii_lowercase_def
      is_ascii_digit_def split: if_splits)

lemma ascii_to_hex [simp]: "ascii_str (to_hex cs)"
  by (induction cs) (simp_all add: to_hex_def ascii_str_def [of "[]"])

lemma ascii_mode [simp]: "ascii_str (mode_as_str m)"
  by (cases m) (simp_all add: ascii_str_def)

section \<open>Claims\<close>

text \<open>
  C10. Executing a plan: whatever the server answers, the statements it has acknowledged are the
  script and the history change of the first \<open>k\<close> steps, in plan order. The plan succeeds exactly when
  all steps are in; when step \<open>k\<close> fails nothing of it remains, except the script itself when it is
  not transactional, and then its history row is still unchanged. The scripts are assumed not to be
  bare transaction control statements.
\<close>

theorem execute_plan_acknowledged:
  assumes "plain_plan (plan_steps plan)"
    and "execute_plan exec t plan \<lparr>w_state = s, w_log = []\<rparr> = (r, w')"
  shows "\<exists>k part.
    acknowledged Auto (w_log w') = concat (map (step_statements t) (take k (plan_steps plan))) @ part
    \<and> (if isl r then k < length (plan_steps plan) \<and> partial_step (plan_steps plan ! k) part
       else k = length (plan_steps plan) \<and> part = [])"
proof -
  from execute_steps_leaves [OF assms(1) assms(2) [unfolded execute_plan_def]]
  obtain l k part where l: "w_log w' = l"
    "leaves l Auto (concat (map (step_statements t) (take k (plan_steps plan))) @ part) Auto"
    "if isl r then k < length (plan_steps plan) \<and> partial_step (plan_steps plan ! k) part
     else k = length (plan_steps plan) \<and> part = []" by auto
  from leaves_acknowledged [OF l(2)] l(1,3) show ?thesis by blast
qed

definition failing_exec :: "nat executor" where
  "failing_exec sql n = (if n = 0 then Inl closed else Inr [], n - 1)"

definition demo_plan :: migration_plan where
  "demo_plan = \<lparr>plan_direction = ApplyPlan, plan_steps = [ApplyStep (hd demo_catalog)]\<rparr>"

theorem execute_plan_acknowledged_witness:
  "\<exists>k part. acknowledged Auto
      (w_log (snd (execute_plan failing_exec default_table demo_plan \<lparr>w_state = 2, w_log = []\<rparr>))) =
      concat (map (step_statements default_table) (take k (plan_steps demo_plan))) @ part
    \<and> k < length (plan_steps demo_plan) \<and> partial_step (plan_steps demo_plan ! k) part"
proof -
  have plain: "plain_plan (plan_steps demo_plan)"
    by (simp add: plain_plan_def demo_plan_def plain_def step_script_def demo_catalog_def demo_script_def)
  have "isl (fst (execute_plan failing_exec default_table demo_plan \<lparr>w_state = 2, w_log = []\<rparr>))"
    by (simp add: execute_plan_def demo_plan_def bindm_def transactional_batch_def failing_exec_def
        simple_query_raw_def execute_script_and_state_change_def demo_catalog_def demo_script_def)
  then obtain e w' where
    "execute_plan failing_exec default_table demo_plan \<lparr>w_state = 2, w_log = []\<rparr> = (Inl e, w')"
    by (metis isl_def prod.collapse)
  from execute_plan_acknowledged [OF plain this] this show ?thesis by simp
qed

definition lock_discipline :: "migrator_options \<Rightarrow> ('s, 'a) run \<Rightarrow> 'a result \<times> 's world \<Rightarrow> bool" where
  "lock_discipline opts body out =
     (let create = create_if_missing_sql (mo_table opts); lock = lock_sql (mo_advisory_lock_id opts)
      in (\<exists>e. out = (Inl e, snd out) \<and> (w_log (snd out) = [(create, Inl e)]
                \<or> (\<exists>a. w_log (snd out) = [(create, Inr a), (lock, Inl e)])))
       \<or> (\<exists>a b c w1 w2. body w1 = (fst out, w2) \<and> w_log w1 = [(create, Inr a), (lock, Inr b)]
            \<and> w_log (snd out) = w_log w2 @ [(unlock_sql (mo_advisory_lock_id opts), c)]))"

lemma locked_discipline:
  "lock_discipline opts body (locked exec opts body \<lparr>w_state = s, w_log = []\<rparr>)"
proof (cases "locked exec opts body \<lparr>w_state = s, w_log = []\<rparr>")
  case (Pair r w')
  then show ?thesis
  proof (cases rule: locked_trace)
    case (ran a b c w1 w2)
    then have "w_log w1 = [(create_if_missing_sql (mo_table opts), Inr a),
      (lock_sql (mo_advisory_lock_id opts), Inr b)]" by simp
    with ran(1,3) show ?thesis
      unfolding lock_discipline_def Let_def Pair fst_conv snd_conv by blast
  qed (auto simp: lock_discipline_def Let_def Pair)
qed

text \<open>
  C11. The advisory lock: both \<open>apply\<close> and \<open>rollback\<close> take it before they read the history, and once
  they hold it the last statement they send is the unlock, whatever happened in between; the outcome
  is that of the work under the lock and a failed unlock never replaces it.
\<close>

theorem migrator_releases_lock:
  "lock_discipline (mg_options m)
     (plan_and_execute F (migrator_plan_apply sha256 m) (mo_table (mg_options m)) exec)
     (migrator_apply F sha256 m exec \<lparr>w_state = s, w_log = []\<rparr>)
   \<and> lock_discipline (mg_options m)
     (plan_and_execute F (\<lambda>applied. migrator_plan_rollback sha256 m applied n) (mo_table (mg_options m)) exec)
     (migrator_rollback F sha256 m exec n \<lparr>w_state = s, w_log = []\<rparr>)"
  by (simp add: migrator_apply_def migrator_rollback_def locked_discipline)

text \<open>
  C12. A successful \<open>apply\<close> is complete: the plan it returns is the one computed from the history it
  read under the lock, and the server has acknowledged the script and the history row of every step
  of it, in order.
\<close>

theorem migrator_apply_complete:
  assumes "migrator_apply F sha256 m exec \<lparr>w_state = s, w_log = []\<rparr> = (Inr plan, w')"
    and "plain_plan (plan_steps plan)"
  shows "\<exists>sets applied c.
    rows_of_sets F sets = Inr applied
    \<and> (select_applied_sql (mo_table (mg_options m)), Inr sets) \<in> set (w_log w')
    \<and> migrator_plan_apply sha256 m applied = Inr plan
    \<and> acknowledged Auto (w_log w') =
        [create_if_missing_sql (mo_table (mg_options m)), lock_sql (mo_advisory_lock_id (mg_options m)),
         select_applied_sql (mo_table (mg_options m))] @
        concat (map (step_statements (mo_table (mg_options m))) (plan_steps plan)) @
        (if c then [unlock_sql (mo_advisory_lock_id (mg_options m))] else [])"
proof -
  let ?t = "mo_table (mg_options m)" and ?id = "mo_advisory_lock_id (mg_options m)"
  from assms(1) [unfolded migrator_apply_def] show ?thesis
  proof (cases rule: locked_trace)
    case (ran a b c w1 w2)
    from ran(1) show ?thesis
    proof (cases rule: plan_and_execute_cases)
      case (exec sets applied p w3 u)
      then have p: "p = plan" and u: "u = Inr ()" by (cases u; simp)+
      from execute_steps_leaves [OF assms(2) exec(4) [unfolded p u execute_plan_def]]
      obtain l where l: "w_log w2 = w_log w3 @ l"
        "leaves l Auto (concat (map (step_statements ?t) (plan_steps plan))) Auto" by auto
      define ll :: "(str \<times> answer) list" where "ll = [(create_if_missing_sql ?t, Inr a), (lock_sql ?id, Inr b),
        (select_applied_sql ?t, Inr sets)]"
      have "leaves ll Auto [create_if_missing_sql ?t, lock_sql ?id, select_applied_sql ?t] Auto"
        by (simp add: leaves_def ll_def create_if_missing_sql_def lock_sql_def select_applied_sql_def)
      from leaves_append [OF leaves_append [OF this l(2)] leaves_auto [of "unlock_sql ?id" c]]
      have "acknowledged Auto ((ll @ l) @ [(unlock_sql ?id, c)]) =
          ([create_if_missing_sql ?t, lock_sql ?id, select_applied_sql ?t] @
           concat (map (step_statements ?t) (plan_steps plan))) @ (if isl c then [] else [unlock_sql ?id])"
        by (intro leaves_acknowledged) (simp add: plain_def unlock_sql_def)
      moreover have log: "w_log w' = (ll @ l) @ [(unlock_sql ?id, c)]"
        using ran(2,3) exec(1) l(1) by (simp add: ll_def)
      ultimately show ?thesis
        using exec(2,3) p by (intro exI [of _ sets] exI [of _ applied] exI [of _ "\<not> isl c"])
          (simp add: log ll_def)
    qed simp_all
  qed simp_all
qed

definition demo_f64 :: "nat f64_ops" where
  "demo_f64 =
     \<lparr>f64_parse = (\<lambda>s. map_err show_parse_int_error (parse_usize s)), f64_finite = (\<lambda>_. True),
      f64_negative = (\<lambda>_. False), f64_nanos = (\<lambda>n. n)\<rparr>"

definition half_migrator :: migrator where
  "half_migrator = \<lparr>mg_source = Inr (take 1 demo_assets), mg_options = default_options\<rparr>"

definition demo_migrator :: migrator where
  "demo_migrator = \<lparr>mg_source = Inr demo_assets, mg_options = default_options\<rparr>"

definition empty_exec :: "unit executor" where
  "empty_exec sql s = (Inr [], s)"

theorem migrator_apply_complete_witness:
  "\<exists>sets applied. rows_of_sets demo_f64 sets = Inr applied
    \<and> migrator_plan_apply (\<lambda>b. b) demo_migrator applied = Inr demo_plan"
proof -
  have cat: "migrator_catalog (\<lambda>b. b) demo_migrator = Inr demo_catalog"
    by (simp add: migrator_catalog_def from_source_def demo_migrator_def demo_from_assets)
  have "plan_apply demo_catalog [] = Inr demo_plan"
    unfolding plan_apply_iff [OF demo_catalog_wf] by (simp add: demo_catalog_def demo_plan_def)
  with cat have plan: "migrator_plan_apply (\<lambda>b. b) demo_migrator [] = Inr demo_plan"
    by (simp add: migrator_plan_apply_def)
  have "fst (migrator_apply demo_f64 (\<lambda>b. b) demo_migrator empty_exec \<lparr>w_state = (), w_log = []\<rparr>) = Inr demo_plan"
    by (simp add: migrator_apply_def locked_def plan_and_execute_def load_applied_migrations_def
        bindm_def of_result_def ret_def simple_query_raw_def empty_exec_def rows_of_sets_def plan
        ensure_state_table_def acquire_advisory_lock_def release_advisory_lock_def execute_plan_def)
     (simp add: demo_plan_def bindm_def execute_script_and_state_change_def transactional_batch_def
        demo_catalog_def demo_script_def simple_query_raw_def empty_exec_def ret_def unlock_answer_def)
  then obtain w' where run: "migrator_apply demo_f64 (\<lambda>b. b) demo_migrator empty_exec
      \<lparr>w_state = (), w_log = []\<rparr> = (Inr demo_plan, w')"
    by (metis prod.collapse)
  have "plain_plan (plan_steps demo_plan)"
    by (simp add: plain_plan_def demo_plan_def plain_def step_script_def demo_catalog_def demo_script_def)
  from migrator_apply_complete [OF run this] show ?thesis by blast
qed

text \<open>
  A source that does not extend the recorded history stops the run before any script: when
  planning fails, the only statements sent are the table creation, the lock, the query for the
  history and the unlock.
\<close>

lemma migrator_apply_refuses:
  assumes "migrator_apply F sha256 m exec \<lparr>w_state = s, w_log = []\<rparr> = (r, w')"
    and "\<And>sets applied. (select_applied_sql (mo_table (mg_options m)), Inr sets) \<in> set (w_log w') \<Longrightarrow>
      rows_of_sets F sets = Inr applied \<Longrightarrow> isl (migrator_plan_apply sha256 m applied)"
  shows "isl r \<and> set (map fst (w_log w')) \<subseteq>
    {create_if_missing_sql (mo_table (mg_options m)), lock_sql (mo_advisory_lock_id (mg_options m)),
     select_applied_sql (mo_table (mg_options m)), unlock_sql (mo_advisory_lock_id (mg_options m))}"
  using assms(1) [unfolded migrator_apply_def]
proof (cases rule: locked_trace)
  case (ran a b c w1 w2)
  from ran(1) show ?thesis
  proof (cases rule: plan_and_execute_cases)
    case (exec sets applied p w3 u)
    from execute_plan_extends [OF exec(4)] ran(3) exec(1)
    have "(select_applied_sql (mo_table (mg_options m)), Inr sets) \<in> set (w_log w')" by auto
    from assms(2) [OF this exec(2)] exec(3) show ?thesis by simp
  qed (use ran in auto)
qed auto

lemma migrator_apply_refuses_witness:
  "isl (fst (migrator_apply demo_f64 (\<lambda>b. b) half_migrator empty_exec \<lparr>w_state = (), w_log = []\<rparr>))"
proof -
  have "isl (migrator_catalog (\<lambda>b. b) half_migrator)" by code_simp
  then have "isl (migrator_plan_apply (\<lambda>b. b) half_migrator applied)" for applied
    by (auto simp: migrator_plan_apply_def isl_def)
  with migrator_apply_refuses [of demo_f64 "\<lambda>b. b" half_migrator empty_exec "()"] show ?thesis
    by (metis prod.collapse)
qed

definition row_text :: "str \<Rightarrow> applied_migration \<Rightarrow> raw_row" where
  "row_text epoch a =
     map (Some \<circ> as_bytes)
       [show_nat (unat (mid_version (am_id a))), mid_name (am_id a), to_hex (am_up_checksum a),
        to_hex (am_down_checksum a), mode_as_str (am_up_mode a), mode_as_str (am_down_mode a), epoch]"

lemma required_text_nth:
  assumes "index < length row" and "row ! index = Some (as_bytes s)" and "valid_str s"
  shows "parse_required_text row index column = Inr s"
  using assms by (simp add: parse_required_text_def from_utf8_as_bytes)

text \<open>
  The history table round trip: the text columns PostgreSQL returns for a recorded migration
  (\<open>row_text\<close>: decimal version, name, hexadecimal checksums, mode names, epoch seconds) are parsed
  back to that migration.
\<close>

lemma parse_applied_row_row_text:
  assumes "migration_id_new (mid_version (am_id a)) (mid_name (am_id a)) = Inr (am_id a)"
    and "length (am_up_checksum a) = 32" and "length (am_down_checksum a) = 32"
    and "valid_str epoch" and "parse_epoch_system_time F epoch = Inr (am_applied_at a)"
  shows "parse_applied_row F (row_text epoch a) = Inr a"
proof -
  have name: "valid_str (mid_name (am_id a))"
    using assms(1) by (auto simp: migration_id_new_def bindr_eq_Inr_iff
        intro!: ascii_valid_str valid_name_ascii)
  have ascii: "valid_str (show_nat n)" "valid_str (to_hex cs)" "valid_str (mode_as_str m)" for n cs m
    by (simp_all add: ascii_valid_str)
  let ?row = "row_text epoch a"
  have texts: "parse_required_text ?row 0 c = Inr (show_nat (unat (mid_version (am_id a))))"
    "parse_required_text ?row 1 c = Inr (mid_name (am_id a))"
    "parse_required_text ?row 2 c = Inr (to_hex (am_up_checksum a))"
    "parse_required_text ?row 3 c = Inr (to_hex (am_down_checksum a))"
    "parse_required_text ?row 4 c = Inr (mode_as_str (am_up_mode a))"
    "parse_required_text ?row 5 c = Inr (mode_as_str (am_down_mode a))"
    "parse_required_text ?row 6 c = Inr epoch" for c
    by (rule required_text_nth; simp add: row_text_def ascii name assms(4))+
  have len: "length ?row = 7" by (simp add: row_text_def)
  show ?thesis
    unfolding parse_applied_row_def parse_row_u64_def parse_transaction_mode_def texts len
    using assms by (simp add: checksum_parse_to_hex_aux)
qed

lemma parse_applied_row_row_text_witness:
  "parse_applied_row demo_f64 (row_text ''7''
     \<lparr>am_id = MigrationId 1 ''a'', am_up_checksum = replicate 32 1, am_down_checksum = replicate 32 2,
      am_up_mode = Transactional, am_down_mode = NonTransactional, am_applied_at = 7\<rparr>) =
   Inr \<lparr>am_id = MigrationId 1 ''a'', am_up_checksum = replicate 32 1, am_down_checksum = replicate 32 2,
      am_up_mode = Transactional, am_down_mode = NonTransactional, am_applied_at = 7\<rparr>"
proof (rule parse_applied_row_row_text)
  show "parse_epoch_system_time demo_f64 ''7'' = Inr (am_applied_at
     \<lparr>am_id = MigrationId 1 ''a'', am_up_checksum = replicate 32 1, am_down_checksum = replicate 32 2,
      am_up_mode = Transactional, am_down_mode = NonTransactional, am_applied_at = 7\<rparr>)"
    by code_simp
qed (simp_all add: migration_id_new_def validate_name_def contains_def name_char_def
    is_ascii_lowercase_def ascii_valid_str ascii_str_def)

end
