(* ===== verification/Codec_Values.thy ===== *)
theory Codec_Values
  imports Codec_Core Babar_Error
begin

text \<open>
  Codecs with a value type of their own: \<open>interval\<close> (\<open>codec/interval.rs\<close>), \<open>macaddr\<close> and \<open>macaddr8\<close>
  (\<open>codec/macaddr.rs\<close>) and bit strings (\<open>codec/bits.rs\<close>). Each keeps the contract of
  \<open>codec_laws\<close> on its well-formed values.
\<close>

unbundle bit_operations_syntax

section \<open>Reading the column\<close>

definition column_bytes :: "str \<Rightarrow> raw_row \<Rightarrow> bytes result" where
  "column_bytes kind columns =
     (case columns of
        [] \<Rightarrow> Inl (Codec (kind @ '': decoder needs 1 column, got 0''))
      | None # _ \<Rightarrow> Inl (Codec (kind @ '': unexpected NULL; use nullable() to allow it''))
      | Some bytes # _ \<Rightarrow> Inr bytes)"

definition column_text :: "str \<Rightarrow> raw_row \<Rightarrow> str result" where
  "column_text kind columns =
     bindr (column_bytes kind columns) (\<lambda>bytes.
       map_err (\<lambda>e. Codec (kind @ '': column not UTF-8: '' @ show_utf8_error e)) (from_utf8 bytes))"

lemma column_bytes_Some [simp]: "column_bytes kind (Some bs # rest) = Inr bs"
  by (simp add: column_bytes_def)

lemma column_text_Some [simp]: "valid_str s \<Longrightarrow> column_text kind (Some (as_bytes s) # rest) = Inr s"
  by (simp add: column_text_def)

section \<open>Intervals\<close>

record interval_value =
  iv_months :: i32
  iv_days :: i32
  iv_microseconds :: i64

definition interval_encode :: "interval_value \<Rightarrow> bytes" where
  "interval_encode v = be_bytes 8 (iv_microseconds v) @ be_bytes 4 (iv_days v) @ be_bytes 4 (iv_months v)"

definition interval_decode :: "raw_row \<Rightarrow> interval_value result" where
  "interval_decode columns =
     bindr (column_bytes ''interval'' columns) (\<lambda>bs.
       if length bs \<noteq> 16
       then Inl (Codec (''interval: expected 16 binary bytes, got '' @ show_nat (length bs)))
       else Inr \<lparr>iv_months = of_be (take 4 (drop 12 bs)), iv_days = of_be (take 4 (drop 8 bs)),
                 iv_microseconds = of_be (take 8 bs)\<rparr>)"

definition interval :: "interval_value codec" where
  "interval = scalar INTERVAL FORMAT_BINARY interval_encode interval_decode"

interpretation interval: codec_laws interval "\<lambda>_. True"
  unfolding interval_def by (rule scalar_laws) (simp add: interval_decode_def interval_encode_def)

section \<open>Hardware addresses\<close>

text \<open>
  \<open>MacAddr\<close> and \<open>MacAddr8\<close> wrap arrays of six and eight octets; \<open>n\<close> is the const parameter \<open>N\<close> of
  the parser.
\<close>

fun write_mac_octets :: "bytes \<Rightarrow> str" where
  "write_mac_octets [] = []"
| "write_mac_octets [b] = hex2 b"
| "write_mac_octets (b # bs) = hex2 b @ '':'' @ write_mac_octets bs"

definition parse_octet :: "str \<Rightarrow> str + u8" where
  "parse_octet part =
     (if length part \<noteq> 2
      then Inl (''invalid octet '' @ debug_str part @ ''; expected exactly two hex digits'')
      else map_err (\<lambda>_. ''invalid octet '' @ debug_str part @ ''; expected hexadecimal digits'')
             (parse_u8_hex part))"

definition parse_mac :: "nat \<Rightarrow> str \<Rightarrow> str + bytes" where
  "parse_mac n text =
     bindr (if CHR '':'' \<in> set text then Inr (CHR '':'')
            else if CHR ''-'' \<in> set text then Inr (CHR ''-'')
            else Inl (''expected '' @ show_nat n @ '' hexadecimal octets separated by '' @
                   [squote, CHR '':'', squote] @ '' or '' @ [squote, CHR ''-'', squote])) (\<lambda>separator.
       let parts = split_on separator text
       in if length parts \<noteq> n
          then Inl (''expected '' @ show_nat n @ '' hexadecimal octets, got '' @
                 show_nat (length parts) @ '' in '' @ debug_str text)
          else collect_r parse_octet parts)"

definition decode_mac_text :: "nat \<Rightarrow> str \<Rightarrow> raw_row \<Rightarrow> bytes result" where
  "decode_mac_text n kind columns =
     bindr (column_text kind columns) (\<lambda>text.
       map_err (\<lambda>e. Codec (kind @ '': '' @ e)) (parse_mac n text))"

definition macaddr :: "bytes codec" where
  "macaddr = scalar MACADDR FORMAT_TEXT (\<lambda>v. as_bytes (write_mac_octets v)) (decode_mac_text 6 ''macaddr'')"

definition macaddr8 :: "bytes codec" where
  "macaddr8 = scalar MACADDR8 FORMAT_TEXT (\<lambda>v. as_bytes (write_mac_octets v)) (decode_mac_text 8 ''macaddr8'')"

lemma ascii_write_mac [simp]: "ascii_str (write_mac_octets bs)"
  by (induction bs rule: write_mac_octets.induct) (simp_all, simp_all add: ascii_str_def)

lemma hex2_no_colon: "CHR '':'' \<notin> set (hex2 b)"
proof -
  have "digit_char d \<noteq> CHR '':''" if "d < 16" for d
    using of_char_digit_char [OF that] by (auto split: if_splits)
  from this [of "unat b div 16"] this [of "unat b mod 16"] unat_byte_lt [of b] show ?thesis
    by (simp add: hex2_def less_mult_imp_div_less)
qed

lemma split_on_mac: "bs \<noteq> [] \<Longrightarrow> split_on CHR '':'' (write_mac_octets bs) = map hex2 bs"
proof (induction bs rule: write_mac_octets.induct)
  case (3 b c cs)
  then show ?case by (simp add: split_on_append_sep hex2_no_colon)
qed (simp_all add: split_on_no_sep hex2_no_colon)

lemma colon_in_mac: "2 \<le> length bs \<Longrightarrow> CHR '':'' \<in> set (write_mac_octets bs)"
  by (induction bs rule: write_mac_octets.induct) auto

lemma parse_octet_hex2 [simp]: "parse_octet (hex2 b) = Inr b"
  by (simp add: parse_octet_def) (simp add: hex2_def)

lemma parse_mac_write:
  assumes "length bs = n" and "2 \<le> n"
  shows "parse_mac n (write_mac_octets bs) = Inr bs"
proof -
  have "bs \<noteq> []" using assms by auto
  with assms show ?thesis
    by (simp add: parse_mac_def colon_in_mac split_on_mac collect_r_map_arg collect_r_map [where g = id])
qed

interpretation macaddr: codec_laws macaddr "\<lambda>v. length v = 6"
  unfolding macaddr_def by (rule scalar_laws) (simp add: decode_mac_text_def ascii_valid_str parse_mac_write)

interpretation macaddr8: codec_laws macaddr8 "\<lambda>v. length v = 8"
  unfolding macaddr8_def by (rule scalar_laws) (simp add: decode_mac_text_def ascii_valid_str parse_mac_write)

text \<open>What the parser accepts: always \<open>n\<close> octets, one for each part of two characters.\<close>

lemma parse_mac_length: "parse_mac n text = Inr bs \<Longrightarrow> length bs = n"
  by (auto simp: parse_mac_def bindr_eq_Inr_iff Let_def dest: collect_r_length split: if_splits)

section \<open>Bit strings\<close>

record bit_string =
  bs_bytes :: bytes
  bs_bit_len :: nat

text \<open>\<open>{:?}\<close> of a byte converted to a character: quotes, escapes, and Latin-1 above 127.\<close>

definition debug_byte_char :: "byte \<Rightarrow> str" where
  "debug_byte_char b =
     (let n = unat b in [squote] @
        (if n = 39 then [bslash, squote]
         else if n = 34 then [dquote]
         else if n < 128 then debug_char (char_of n)
         else if n \<le> 160 \<or> n = 173 then [bslash, CHR ''u'', CHR ''{''] @ show_hex n @ [CHR ''}'']
         else [char_of (192 + n div 64), char_of (128 + n mod 64)]) @ [squote])"

definition bits_from_bytes :: "bytes \<Rightarrow> nat \<Rightarrow> bit_string result" where
  "bits_from_bytes bytes bit_len =
     (if bit_len > min (length bytes * 8) (2 ^ 64 - 1)
      then Inl (Codec (''bit string: declared length '' @ show_nat bit_len @
             '' exceeds backing storage of '' @ show_nat (length bytes * 8) @ '' bits''))
      else bindr
        (let trailing = bit_len mod 8
         in if trailing \<noteq> 0
            then (let mask = push_bit (8 - trailing) (1 :: u8) - 1
                  in if bytes = [] then Inl (Codec ''bit string: missing final byte'')
                     else if last bytes AND mask \<noteq> 0
                     then Inl (Codec ''bit string: unused trailing bits must be zero'')
                     else Inr ())
            else Inr ())
        (\<lambda>_. Inr \<lparr>bs_bytes = bytes, bs_bit_len = bit_len\<rparr>))"

text \<open>The loop of \<open>from_text\<close>; the byte index is always in range (\<open>from_text_bits\<close> below).\<close>

fun from_text_loop :: "nat \<Rightarrow> bytes \<Rightarrow> bytes \<Rightarrow> bytes result" where
  "from_text_loop index [] bytes = Inr bytes"
| "from_text_loop index (ch # chs) bytes =
     (if ch = byte_of (CHR ''0'') then from_text_loop (Suc index) chs bytes
      else if ch = byte_of (CHR ''1'')
      then (let byte = index div 8; bit_offset = 7 - index mod 8
            in from_text_loop (Suc index) chs
                 (bytes[byte := (bytes ! byte) OR push_bit bit_offset 1]))
      else Inl (Codec (''bit string: invalid character '' @ debug_byte_char ch @
             ''; expected only '' @ [squote, CHR ''0'', squote] @ '' or '' @ [squote, CHR ''1'', squote])))"

definition bits_from_text :: "str \<Rightarrow> bit_string result" where
  "bits_from_text text =
     bindr (from_text_loop 0 (as_bytes text) (replicate ((length text + 7) div 8) 0)) (\<lambda>bytes.
       bits_from_bytes bytes (length text))"

definition bits_get :: "bit_string \<Rightarrow> nat \<Rightarrow> bool option" where
  "bits_get v index =
     (if index \<ge> bs_bit_len v then None
      else Some ((bs_bytes v ! (index div 8)) AND push_bit (7 - index mod 8) 1 \<noteq> 0))"

definition to_bit_text :: "bit_string \<Rightarrow> str" where
  "to_bit_text v =
     map (\<lambda>index. if (case bits_get v index of Some b \<Rightarrow> b | None \<Rightarrow> False) then CHR ''1'' else CHR ''0'')
       [0..<bs_bit_len v]"

definition decode_bits_text :: "str \<Rightarrow> raw_row \<Rightarrow> bit_string result" where
  "decode_bits_text kind columns =
     bindr (column_text kind columns) (\<lambda>text.
       map_err (\<lambda>e. Codec (kind @ '': '' @ show_error e)) (bits_from_text text))"

definition bit_codec :: "bit_string codec" where
  "bit_codec = scalar BIT FORMAT_TEXT (\<lambda>v. as_bytes (to_bit_text v)) (decode_bits_text ''bit'')"

definition varbit :: "bit_string codec" where
  "varbit = scalar VARBIT FORMAT_TEXT (\<lambda>v. as_bytes (to_bit_text v)) (decode_bits_text ''varbit'')"

text \<open>
  The canonical values: no storage beyond the last bit, the unused bits zero, and a length that is a
  \<open>usize\<close>.
\<close>

definition bits_canonical :: "bit_string \<Rightarrow> bool" where
  "bits_canonical v =
     (length (bs_bytes v) = (bs_bit_len v + 7) div 8 \<and> bs_bit_len v < 2 ^ 64
      \<and> bits_from_bytes (bs_bytes v) (bs_bit_len v) = Inr v)"

text \<open>Logical bit \<open>j\<close> of a byte sequence.\<close>

definition bit_at :: "bytes \<Rightarrow> nat \<Rightarrow> bool" where
  "bit_at bs j = bit (bs ! (j div 8)) (7 - j mod 8)"

lemma bits_get_bit_at: "bits_get v j = (if j < bs_bit_len v then Some (bit_at (bs_bytes v) j) else None)"
  by (simp add: bits_get_def bit_at_def bit_iff_and_push_bit_not_eq_0)

lemma bit_at_set:
  assumes "i div 8 < length bs"
  shows "bit_at (bs[i div 8 := (bs ! (i div 8)) OR 2 ^ (7 - i mod 8)]) j = (j = i \<or> bit_at bs j)"
proof (cases "i div 8 = j div 8")
  case True
  have "i = 8 * (j div 8) + i mod 8" using True by (metis mult_div_mod_eq)
  moreover have "j = 8 * (j div 8) + j mod 8" by simp
  moreover have "i mod 8 \<le> 7" "j mod 8 \<le> 7" by (simp_all add: less_Suc_eq_le [symmetric])
  ultimately have "7 - i mod 8 = 7 - j mod 8 \<longleftrightarrow> i = j" by linarith
  moreover have "7 - j mod 8 < 8" by simp
  ultimately show ?thesis using assms True
    by (auto simp: bit_at_def bit_or_iff bit_exp_iff)
next
  case False
  with assms show ?thesis by (auto simp: bit_at_def)
qed

lemma bytes_bit_eqI:
  assumes "length bs = length cs" and "\<And>j. j < 8 * length bs \<Longrightarrow> bit_at bs j = bit_at cs j"
  shows "bs = cs"
proof (rule nth_equalityI)
  fix i assume i: "i < length bs"
  show "bs ! i = cs ! i"
  proof (rule bit_word_eqI)
    fix n assume "n < LENGTH(8)"
    then have n: "n \<le> 7" by simp
    with i have "8 * i + (7 - n) < 8 * length bs" by simp
    moreover have "(8 * i + (7 - n)) div 8 = i" and "(8 * i + (7 - n)) mod 8 = 7 - n" by simp_all
    ultimately show "bit (bs ! i) n = bit (cs ! i) n"
      using assms(2) [of "8 * i + (7 - n)"] n by (simp only: bit_at_def) simp
  qed
qed (rule assms(1))

lemma from_text_loop_bits:
  assumes "from_text_loop index chs bytes = Inr out" and "index + length chs \<le> 8 * length bytes"
  shows "set chs \<subseteq> {48, 49} \<and> length out = length bytes
    \<and> (\<forall>j < 8 * length bytes. bit_at out j = (bit_at bytes j \<or>
          index \<le> j \<and> j < index + length chs \<and> chs ! (j - index) = 49))"
  using assms
proof (induction index chs bytes rule: from_text_loop.induct)
  case (2 index ch chs bytes)
  define bytes' where "bytes' = (if ch = 48 then bytes
    else bytes[index div 8 := (bytes ! (index div 8)) OR push_bit (7 - index mod 8) 1])"
  have ch: "ch = 48 \<or> ch = 49" using 2(3) by (auto simp: byte_of_def split: if_splits)
  have step: "from_text_loop (Suc index) chs bytes' = Inr out"
    using 2(3) ch by (auto simp: byte_of_def bytes'_def Let_def)
  have len: "length bytes' = length bytes" by (simp add: bytes'_def)
  have "index div 8 < length bytes" using 2(4) by (simp add: less_mult_imp_div_less)
  then have bits: "bit_at bytes' j = (bit_at bytes j \<or> j = index \<and> ch = 49)" for j
    using ch by (auto simp: bytes'_def bit_at_set)
  have "set chs \<subseteq> {48, 49} \<and> length out = length bytes'
    \<and> (\<forall>j < 8 * length bytes'. bit_at out j = (bit_at bytes' j \<or>
          Suc index \<le> j \<and> j < Suc index + length chs \<and> chs ! (j - Suc index) = 49))"
    using ch 2(1,2) 2(4) step len by (fastforce simp: byte_of_def bytes'_def)
  then show ?case using ch len by (auto simp: bits nth_Cons' not_le Suc_le_eq)
qed auto

lemma from_text_loop_total: "set chs \<subseteq> {48, 49} \<Longrightarrow> \<exists>out. from_text_loop index chs bytes = Inr out"
  by (induction index chs bytes rule: from_text_loop.induct) (auto simp: byte_of_def Let_def)

lemma and_mask_zero_iff: "(b :: byte) AND (2 ^ k - 1) = 0 \<longleftrightarrow> (\<forall>n < k. \<not> bit b n)"
  using bit_imp_le_length [of b]
  by (auto simp: bit_eq_iff bit_and_iff bit_mask_iff simp flip: mask_eq_exp_minus_1)

lemma of_char_byte_inj: "(of_char c :: byte) = of_char d \<longleftrightarrow> c = d"
  by (metis unat_of_char of_char_eq_iff)

lemma last_byte_bits:
  assumes "len mod 8 \<noteq> 0" and "length bytes = (len + 7) div 8"
  shows "(\<forall>n < 8 - len mod 8. \<not> bit (last bytes) n)
    \<longleftrightarrow> (\<forall>j. len \<le> j \<and> j < 8 * length bytes \<longrightarrow> \<not> bit_at bytes j)"
proof -
  have "len + 7 = (len mod 8 - 1) + Suc (len div 8) * 8" using assms(1) by simp
  then have "(len + 7) div 8 = Suc (len div 8)" by (simp only: div_mult_self1)
  then have L: "length bytes = Suc (len div 8)" using assms by simp
  then have last: "last bytes = bytes ! (len div 8)"
    by (metis diff_Suc_1 last_conv_nth length_0_conv nat.distinct(1))
  have dec: "len = 8 * (len div 8) + len mod 8" by simp
  show ?thesis
  proof (intro iffI allI impI)
    fix j assume z: "\<forall>n < 8 - len mod 8. \<not> bit (last bytes) n" and j: "len \<le> j \<and> j < 8 * length bytes"
    have "len div 8 \<le> j div 8" "j div 8 < length bytes"
      using j div_le_mono [of len j 8] by (simp_all add: less_mult_imp_div_less)
    then have q: "j div 8 = len div 8" using L by simp
    moreover have "j = 8 * (len div 8) + j mod 8" using q by (metis mult_div_mod_eq)
    then have "len mod 8 \<le> j mod 8" using j dec by linarith
    then have "7 - j mod 8 < 8 - len mod 8" using mod_less_divisor [of 8 len] by linarith
    ultimately show "\<not> bit_at bytes j" using z by (simp add: bit_at_def last)
  next
    fix n assume z: "\<forall>j. len \<le> j \<and> j < 8 * length bytes \<longrightarrow> \<not> bit_at bytes j" and n: "n < 8 - len mod 8"
    have "len \<le> 8 * (len div 8) + (7 - n)" using n dec by linarith
    then have "\<not> bit_at bytes (8 * (len div 8) + (7 - n))" using z L by simp
    moreover have "(8 * (len div 8) + (7 - n)) div 8 = len div 8" "(8 * (len div 8) + (7 - n)) mod 8 = 7 - n"
      by simp_all
    moreover have "7 - (7 - n) = n" using n by simp
    ultimately show "\<not> bit (last bytes) n" by (simp only: bit_at_def last not_False_eq_True)
  qed
qed

lemma bits_from_bytes_exact:
  assumes "length bytes = (len + 7) div 8" and "len < 2 ^ 64"
  shows "bits_from_bytes bytes len = Inr v \<longleftrightarrow> v = \<lparr>bs_bytes = bytes, bs_bit_len = len\<rparr>
    \<and> (\<forall>j. len \<le> j \<and> j < 8 * length bytes \<longrightarrow> \<not> bit_at bytes j)"
proof -
  have le: "len \<le> length bytes * 8" "len \<le> 2 ^ 64 - 1" using assms by auto
  show ?thesis
  proof (cases "len mod 8 = 0")
    case True
    then have "8 * length bytes = len" using assms(1) by presburger
    with True le show ?thesis by (auto simp: bits_from_bytes_def)
  next
    case False
    then have "bytes \<noteq> []" using assms(1) by auto
    with False le last_byte_bits [OF False assms(1)] show ?thesis
      by (auto simp: bits_from_bytes_def Let_def and_mask_zero_iff)
  qed
qed

lemma bits_from_text_parts:
  assumes "bits_from_text text = Inr v" and "length text < 2 ^ 64"
  shows "set text \<subseteq> {CHR ''0'', CHR ''1''}" and "bs_bit_len v = length text"
    and "length (bs_bytes v) = (length text + 7) div 8"
    and "j < 8 * length (bs_bytes v) \<Longrightarrow> bit_at (bs_bytes v) j = (j < length text \<and> text ! j = CHR ''1'')"
proof -
  let ?n = "(length text + 7) div 8"
  from assms(1) obtain out where out: "from_text_loop 0 (as_bytes text) (replicate ?n 0) = Inr out"
      "bits_from_bytes out (length text) = Inr v"
    by (auto simp: bits_from_text_def bindr_eq_Inr_iff)
  have "length text \<le> 8 * ?n" by simp
  with from_text_loop_bits [OF out(1)] have
    o: "set (as_bytes text) \<subseteq> {48, 49}" "length out = ?n"
      "\<And>j. j < 8 * ?n \<Longrightarrow> bit_at out j = (bit_at (replicate ?n 0) j \<or> j < length text \<and> as_bytes text ! j = 49)"
    by simp_all
  from bits_from_bytes_exact [of out "length text" v] o(2) assms(2) out(2)
  have v: "v = \<lparr>bs_bytes = out, bs_bit_len = length text\<rparr>" by simp
  show "set text \<subseteq> {CHR ''0'', CHR ''1''}"
  proof
    fix c assume "c \<in> set text"
    with o(1) have "(of_char c :: byte) = of_char CHR ''0'' \<or> (of_char c :: byte) = of_char CHR ''1''"
      by (auto simp: as_bytes_def)
    then show "c \<in> {CHR ''0'', CHR ''1''}" by (simp only: of_char_byte_inj) simp
  qed
  show "bs_bit_len v = length text" and "length (bs_bytes v) = ?n" using v o(2) by simp_all
  show "bit_at (bs_bytes v) j = (j < length text \<and> text ! j = CHR ''1'')" if "j < 8 * length (bs_bytes v)"
  proof -
    have j: "j < 8 * ?n" using that v o(2) by simp
    then have "\<not> bit_at (replicate ?n 0) j" by (simp add: bit_at_def less_mult_imp_div_less)
    moreover have "as_bytes text ! j = 49 \<longleftrightarrow> text ! j = CHR ''1''" if "j < length text"
      using that of_char_byte_inj [of "text ! j" "CHR ''1''"] by (simp add: as_bytes_def)
    ultimately show ?thesis using o(3) [OF j] v by auto
  qed
qed

lemma to_bit_text_bits: "to_bit_text v = map (\<lambda>j. if bit_at (bs_bytes v) j then CHR ''1'' else CHR ''0'') [0..<bs_bit_len v]"
  by (simp add: to_bit_text_def bits_get_bit_at)

lemma to_bit_text_from_text:
  assumes "bits_from_text text = Inr v" and "length text < 2 ^ 64"
  shows "to_bit_text v = text"
proof (rule nth_equalityI)
  note parts = bits_from_text_parts [OF assms]
  show "length (to_bit_text v) = length text" by (simp add: to_bit_text_def parts)
  fix j assume "j < length (to_bit_text v)"
  then have j: "j < length text" by (simp add: to_bit_text_def parts)
  then have "j < 8 * length (bs_bytes v)" by (simp add: parts)
  moreover have "text ! j = CHR ''0'' \<or> text ! j = CHR ''1''" using parts(1) nth_mem [OF j] by blast
  ultimately show "to_bit_text v ! j = text ! j"
    using parts(4) [of j] j by (auto simp: to_bit_text_bits parts(2))
qed

lemma bits_from_text_to_bit_text:
  assumes "bits_canonical v"
  shows "bits_from_text (to_bit_text v) = Inr v"
proof -
  let ?n = "bs_bit_len v" and ?t = "to_bit_text v"
  from assms have c: "length (bs_bytes v) = (?n + 7) div 8" "?n < 2 ^ 64"
      "\<And>j. ?n \<le> j \<and> j < 8 * length (bs_bytes v) \<Longrightarrow> \<not> bit_at (bs_bytes v) j"
    using bits_from_bytes_exact [of "bs_bytes v" ?n v] by (auto simp: bits_canonical_def)
  have t: "length ?t = ?n" by (simp add: to_bit_text_def)
  have "set (as_bytes ?t) \<subseteq> {48, 49}" by (auto simp: to_bit_text_bits as_bytes_def split: if_splits)
  from from_text_loop_total [OF this] obtain out where
    out: "from_text_loop 0 (as_bytes ?t) (replicate ((?n + 7) div 8) 0) = Inr out" by blast
  have "?n \<le> 8 * ((?n + 7) div 8)" by simp
  with from_text_loop_bits [OF out] t have o: "length out = (?n + 7) div 8"
      "\<And>j. j < 8 * ((?n + 7) div 8) \<Longrightarrow> bit_at out j = (bit_at (replicate ((?n + 7) div 8) 0) j \<or> j < ?n \<and> as_bytes ?t ! j = 49)"
    by simp_all
  have "out = bs_bytes v"
  proof (rule bytes_bit_eqI)
    fix j assume "j < 8 * length out"
    then have "j < 8 * ((?n + 7) div 8)" using o(1) by simp
    with o(2) [OF this] c(1) c(3) [of j] show "bit_at out j = bit_at (bs_bytes v) j"
      by (cases "j < ?n") (auto simp: bit_at_def as_bytes_def to_bit_text_bits less_mult_imp_div_less)
  qed (simp add: o(1) c(1))
  with out t assms show ?thesis by (simp add: bits_from_text_def bits_canonical_def)
qed

lemma ascii_to_bit_text: "ascii_str (to_bit_text v)"
  by (auto simp: to_bit_text_def ascii_str_def list_all_iff)

interpretation bit_codec: codec_laws bit_codec bits_canonical
  unfolding bit_codec_def
  by (rule scalar_laws) (simp add: decode_bits_text_def ascii_valid_str ascii_to_bit_text bits_from_text_to_bit_text)

interpretation varbit: codec_laws varbit bits_canonical
  unfolding varbit_def
  by (rule scalar_laws) (simp add: decode_bits_text_def ascii_valid_str ascii_to_bit_text bits_from_text_to_bit_text)

section \<open>Claims\<close>

text \<open>
  A bit string read from text prints as the same text, and the text contained only zeros and
  ones; logical bit \<open>j\<close> is character \<open>j\<close>.
\<close>

theorem bits_text_roundtrip:
  assumes "bits_from_text text = Inr v" and "length text < 2 ^ 64"
  shows "to_bit_text v = text \<and> set text \<subseteq> {CHR ''0'', CHR ''1''} \<and> bs_bit_len v = length text
    \<and> (\<forall>j < length text. bits_get v j = Some (text ! j = CHR ''1''))"
proof -
  note parts = bits_from_text_parts [OF assms]
  have "bits_get v j = Some (text ! j = CHR ''1'')" if "j < length text" for j
    using that parts(4) [of j] by (simp add: bits_get_bit_at parts(2,3))
  with to_bit_text_from_text [OF assms] parts(1,2) show ?thesis by blast
qed

theorem bits_text_roundtrip_witness:
  "bits_from_text ''101'' = Inr \<lparr>bs_bytes = [0xA0], bs_bit_len = 3\<rparr>
   \<and> to_bit_text \<lparr>bs_bytes = [0xA0], bs_bit_len = 3\<rparr> = ''101''"
proof -
  have v: "bits_from_text ''101'' = Inr \<lparr>bs_bytes = [0xA0], bs_bit_len = 3\<rparr>"
    by (simp add: bits_from_text_def bits_from_bytes_def byte_of_def)
  with bits_text_roundtrip [OF v] show ?thesis by simp
qed

text \<open>
  Only the last stored byte is checked for unused bits: \<open>from_bytes\<close> accepts a value with
  storage beyond its last bit, and such a value does not survive the round trip through its codec.
\<close>

lemma bits_from_bytes_surplus_storage:
  "\<exists>v w. bits_from_bytes [0xFF, 0] 3 = Inr v \<and> to_bit_text v = ''111''
     \<and> bindr (cd_encode varbit v) (cd_decode varbit) = Inr w \<and> w \<noteq> v"
proof -
  let ?v = "\<lparr>bs_bytes = [0xFF, 0], bs_bit_len = 3\<rparr>" and ?w = "\<lparr>bs_bytes = [0xE0], bs_bit_len = 3\<rparr>"
  have v: "bits_from_bytes [0xFF, 0] 3 = Inr ?v" by (simp add: bits_from_bytes_def)
  have t: "to_bit_text ?v = ''111''" by (simp add: to_bit_text_def bits_get_def upt_rec)
  have w: "bits_from_text ''111'' = Inr ?w"
    by (simp add: bits_from_text_def bits_from_bytes_def byte_of_def)
  have "column_text ''varbit'' [Some (as_bytes ''111'')] = Inr ''111''"
    by (rule column_text_Some) (simp add: ascii_valid_str ascii_str_def)
  then have "bindr (cd_encode varbit ?v) (cd_decode varbit) = Inr ?w"
    using t w by (simp add: varbit_def scalar_def decode_bits_text_def del: as_bytes_Cons)
  with v t show ?thesis by (intro exI [of _ ?v] exI [of _ ?w]) simp
qed

text \<open>
  A hardware address prints to text that parses back to it, for every number of octets from two
  on, and a successful parse always yields the number of octets asked for.
\<close>

lemma mac_text_roundtrip:
  assumes "length bs = n" and "2 \<le> n"
  shows "parse_mac n (write_mac_octets bs) = Inr bs \<and> (\<forall>text out. parse_mac n text = Inr out \<longrightarrow> length out = n)"
  using parse_mac_write [OF assms] parse_mac_length by blast

lemma mac_text_roundtrip_witness:
  "parse_mac 6 (write_mac_octets [8, 0, 43, 1, 2, 3]) = Inr [8, 0, 43, 1, 2, 3]"
  using mac_text_roundtrip [of "[8, 0, 43, 1, 2, 3]" 6] by simp

text \<open>
  An octet may be a plus sign and one digit, although the parser asks for two hexadecimal
  digits.
\<close>

lemma mac_accepts_plus_sign: "parse_mac 6 ''+8:00:2b:01:02:+f'' = Inr [8, 0, 43, 1, 2, 15]"
  by (simp add: parse_mac_def parse_octet_def parse_u8_hex_def from_str_radix_def to_digit_def)

end
