(* ===== verification/Codec_Hstore.thy ===== *)
theory Codec_Hstore
  imports Codec_Values BTree_Map "HOL-Library.Char_ord" "HOL-Library.List_Lexorder"
begin

text \<open>
  The \<open>hstore\<close> codec (\<open>codec/hstore.rs\<close>): a map from strings to optional strings, in the quoted text
  form of the extension. The map is a \<open>BTreeMap\<close>; strings are ordered by their bytes. The parser's
  cursor into the text is the list of the bytes it has not consumed. The quoted characters are
  ASCII, so escaping by character and escaping by byte agree.
\<close>

type_synonym hstore_map = "(str \<times> str option) list"

definition hstore_new :: hstore_map where
  "hstore_new = []"

definition hstore_insert :: "str \<Rightarrow> str option \<Rightarrow> hstore_map \<Rightarrow> str option option \<times> hstore_map" where
  "hstore_insert key v m = (bt_get m key, bt_insert key v m)"

definition hstore_len :: "hstore_map \<Rightarrow> nat" where
  "hstore_len m = length m"

section \<open>Printing\<close>

definition push_quoted :: "str \<Rightarrow> str" where
  "push_quoted text =
     [dquote] @ concat (map (\<lambda>ch. if ch = dquote \<or> ch = bslash then [bslash, ch] else [ch]) text) @ [dquote]"

definition encode_entry :: "str \<times> str option \<Rightarrow> str" where
  "encode_entry = (\<lambda>(key, entry).
     push_quoted key @ ''=>'' @ (case entry of Some text \<Rightarrow> push_quoted text | None \<Rightarrow> ''NULL''))"

fun encode_hstore_text :: "hstore_map \<Rightarrow> str" where
  "encode_hstore_text [] = []"
| "encode_hstore_text [e] = encode_entry e"
| "encode_hstore_text (e # es) = encode_entry e @ '', '' @ encode_hstore_text es"

section \<open>Parsing\<close>

fun quoted_loop :: "bytes \<Rightarrow> bytes \<Rightarrow> str + str \<times> bytes" where
  "quoted_loop out [] = Inl ''unterminated quoted string''"
| "quoted_loop out (b # bs) =
     (if b = byte_of dquote
      then bindr (map_err (\<lambda>_. ''quoted hstore value was not valid UTF-8'') (from_utf8 out)) (\<lambda>s. Inr (s, bs))
      else if b = byte_of bslash
      then (case bs of [] \<Rightarrow> Inl ''unterminated escape'' | escaped # bs' \<Rightarrow> quoted_loop (out @ [escaped]) bs')
      else quoted_loop (out @ [b]) bs)"

definition parse_quoted :: "bytes \<Rightarrow> str + str \<times> bytes" where
  "parse_quoted bs =
     (case bs of
        [] \<Rightarrow> Inl ''expected opening quote''
      | b # bs' \<Rightarrow> if b = byte_of dquote then quoted_loop [] bs' else Inl ''expected opening quote'')"

definition is_ws :: "byte \<Rightarrow> bool" where
  "is_ws b = (b \<in> {32, 9, 10, 13})"

definition skip_ws :: "bytes \<Rightarrow> bytes" where
  "skip_ws bs = dropWhile is_ws bs"

definition expect :: "str \<Rightarrow> bytes \<Rightarrow> str + bytes" where
  "expect token bs =
     (if take (length token) bs = as_bytes token then Inr (drop (length token) bs)
      else Inl (''expected '' @ debug_str token))"

definition parse_entry :: "bytes \<Rightarrow> str + (str \<times> str option) \<times> bytes" where
  "parse_entry bs =
     bindr (parse_quoted bs) (\<lambda>(key, r1).
     bindr (expect ''='' (skip_ws r1)) (\<lambda>r2.
     bindr (expect ''>'' r2) (\<lambda>r3.
     let r4 = skip_ws r3 in
     if (case r4 of [] \<Rightarrow> False | b # _ \<Rightarrow> b = byte_of (CHR ''N''))
     then bindr (expect ''NULL'' r4) (\<lambda>r5. Inr ((key, None), r5))
     else bindr (parse_quoted r4) (\<lambda>(v, r5). Inr ((key, Some v), r5)))))"

lemma quoted_loop_shorter: "quoted_loop out bs = Inr (s, r) \<Longrightarrow> length r < length bs"
proof (induction out bs rule: quoted_loop.induct)
  case (2 out b bs)
  then show ?case
    by (force split: if_splits list.splits simp: less_Suc_eq bindr_eq_Inr_iff)
qed simp

lemma parse_quoted_shorter: "parse_quoted bs = Inr (s, r) \<Longrightarrow> length r < length bs"
  by (auto simp: parse_quoted_def dest!: quoted_loop_shorter split: list.splits if_splits)

lemma expect_length: "expect token bs = Inr r \<Longrightarrow> length r \<le> length bs"
  by (auto simp: expect_def split: if_splits)

lemma skip_ws_length: "length (skip_ws bs) \<le> length bs"
  by (simp add: skip_ws_def length_dropWhile_le)

lemma parse_entry_shorter: "parse_entry bs = Inr (e, r) \<Longrightarrow> length r < length bs"
proof -
  assume "parse_entry bs = Inr (e, r)"
  then obtain key r1 r2 r3 where
    r: "parse_quoted bs = Inr (key, r1)" "expect ''='' (skip_ws r1) = Inr r2" "expect ''>'' r2 = Inr r3"
      "length r \<le> length (skip_ws r3)"
    by (auto simp: parse_entry_def bindr_eq_Inr_iff Let_def split: if_splits
        dest!: expect_length [of "''NULL''"] parse_quoted_shorter [of "skip_ws _"])
  from parse_quoted_shorter [OF r(1)] expect_length [OF r(2)] expect_length [OF r(3)] r(4)
    skip_ws_length [of r1] skip_ws_length [of r3] show ?thesis by linarith
qed

function parse_entries :: "hstore_map \<Rightarrow> bytes \<Rightarrow> str + hstore_map" where
  "parse_entries out bs =
     (if bs = [] then Inr out
      else (case parse_entry bs of
              Inl e \<Rightarrow> Inl e
            | Inr ((key, v), r) \<Rightarrow>
                (let out' = bt_insert key v out; r1 = skip_ws r
                 in if r1 = [] then Inr out'
                    else bindr (expect '','' r1) (\<lambda>r2. parse_entries out' (skip_ws r2)))))"
  by pat_completeness auto
termination
  using skip_ws_length expect_length parse_entry_shorter
  by (relation "measure (\<lambda>(out, bs). length bs)") (auto, meson le_trans le_less_trans)

declare parse_entries.simps [simp del]

definition parse_hstore_text :: "str \<Rightarrow> str + hstore_map" where
  "parse_hstore_text text =
     (let bs = skip_ws (as_bytes text) in if bs = [] then Inr [] else parse_entries [] bs)"

definition hstore_decode :: "raw_row \<Rightarrow> hstore_map result" where
  "hstore_decode columns =
     bindr (column_text ''hstore'' columns) (\<lambda>text.
       map_err (\<lambda>e. Codec (''hstore: '' @ e)) (parse_hstore_text text))"

definition HSTORE_TYPE :: pg_type where
  "HSTORE_TYPE = type_extension ''hstore'' ''hstore''"

definition hstore :: "hstore_map codec" where
  "hstore = (scalar 0 FORMAT_TEXT (\<lambda>v. as_bytes (encode_hstore_text v)) hstore_decode)\<lparr>cd_types := [HSTORE_TYPE]\<rparr>"

section \<open>Substituting ASCII characters keeps UTF-8\<close>

lemma tail_ok_take: "tail_ok n k bs = Inr () \<Longrightarrow> tail_ok n k (take n bs) = Inr ()"
  by (induction n k bs rule: tail_ok.induct) (auto split: if_splits)

lemma tail_ok_high: "tail_ok n k bs = Inr () \<Longrightarrow> b \<in> set (take n bs) \<Longrightarrow> 128 \<le> unat b"
  by (induction n k bs rule: tail_ok.induct) (auto simp: is_cont_def in_range_def split: if_splits)

lemma second_ok_high: "second_ok b c \<Longrightarrow> 128 \<le> unat c"
  by (auto simp: second_ok_def is_cont_def in_range_def split: if_splits)

lemma utf8_next_wide:
  assumes "utf8_next b bs = Inr n" and "128 \<le> unat b"
  shows "utf8_next b (take (n - 1) bs) = Inr n" and "c \<in> set (take (n - 1) bs) \<Longrightarrow> 128 \<le> unat c"
proof -
  from assms obtain c0 cs where bs: "bs = c0 # cs" and n: "n = utf8_char_width b" "n \<noteq> 0" "n \<noteq> 1"
      and ok: "second_ok b c0" "tail_ok (n - 2) 2 cs = Inr ()"
    by (auto simp: utf8_next_def Let_def bindr_eq_Inr_iff utf8_char_width_def split: if_splits list.splits)
  have take: "take (n - 1) bs = c0 # take (n - 2) cs"
  proof -
    have "n - 1 = Suc (n - 2)" using n by simp
    then show ?thesis by (simp add: bs)
  qed
  show "utf8_next b (take (n - 1) bs) = Inr n"
    using n ok tail_ok_take [OF ok(2)] unfolding take by (simp add: utf8_next_def)
  show "128 \<le> unat c" if "c \<in> set (take (n - 1) bs)"
    using that second_ok_high [OF ok(1)] tail_ok_high [OF ok(2)] unfolding take by auto
qed

lemma valid_utf8_substitute:
  assumes wide: "\<And>b. 128 \<le> unat b \<Longrightarrow> f b = [b]" and ascii: "\<And>b. unat b < 128 \<Longrightarrow> valid_utf8 (f b)"
  shows "valid_utf8 bs \<Longrightarrow> valid_utf8 (concat (map f bs))"
proof (induction "length bs" arbitrary: bs rule: less_induct)
  case less
  show ?case
  proof (cases bs)
    case (Cons b bs')
    with less.prems obtain n where n: "utf8_next b bs' = Inr n" "valid_utf8 (drop n (b # bs'))"
      by (auto simp: valid_utf8_Cons_iff)
    note pos = utf8_next_pos [OF n(1)]
    then have tail: "valid_utf8 (concat (map f (drop n bs)))"
      using n(2) Cons by (intro less.hyps) auto
    have "valid_utf8 (concat (map f (take n bs)))"
    proof (cases "unat b < 128")
      case True
      then have "n = 1" using n(1) utf8_next_ascii by simp
      with True ascii Cons show ?thesis by simp
    next
      case False
      then have high: "128 \<le> unat b" by simp
      have "take n bs = b # take (n - 1) bs'" using pos Cons by (cases n) auto
      moreover from this have "\<And>c. c \<in> set (take n bs) \<Longrightarrow> f c = [c]"
        using wide high utf8_next_wide(2) [OF n(1) high] by auto
      then have "map f (take n bs) = map (\<lambda>c. [c]) (take n bs)" by simp
      then have "concat (map f (take n bs)) = take n bs" by (simp only: concat_map_singleton list.map_ident)
      moreover have "valid_utf8 (b # take (n - 1) bs')"
        using utf8_next_wide(1) [OF n(1) high] pos by (subst valid_utf8_Cons_iff) (simp add: drop_Cons')
      ultimately show ?thesis by simp
    qed
    from valid_utf8_append [OF this tail] show ?thesis
      by (metis append_take_drop_id concat_append map_append)
  qed simp
qed

section \<open>Parsing what was printed\<close>

definition escape_byte :: "byte \<Rightarrow> bytes" where
  "escape_byte b = (if b = 34 \<or> b = 92 then [92, b] else [b])"

lemma dquote_literal: "dquote = CHR 0x22" and bslash_literal: "bslash = CHR 0x5C"
  by (simp_all add: dquote_def bslash_def char_of_eq_iff)

lemma quote_bytes [simp]: "byte_of dquote = 34" "byte_of bslash = 92" "(of_char dquote :: byte) = 34"
  "(of_char bslash :: byte) = 92" "(of_char dquote :: nat) = 34" "(of_char bslash :: nat) = 92"
  by (simp_all add: byte_of_def dquote_literal bslash_literal)

lemma as_bytes_push_quoted: "as_bytes (push_quoted s) = 34 # concat (map escape_byte (as_bytes s)) @ [34]"
proof -
  have "as_bytes (if ch = dquote \<or> ch = bslash then [bslash, ch] else [ch]) = escape_byte (of_char ch)" for ch
    using of_char_byte_inj [of ch dquote] of_char_byte_inj [of ch bslash] by (auto simp: escape_byte_def)
  then have "as_bytes (concat (map (\<lambda>ch. if ch = dquote \<or> ch = bslash then [bslash, ch] else [ch]) s))
      = concat (map escape_byte (as_bytes s))"
    by (induction s) simp_all
  then show ?thesis by (simp add: push_quoted_def)
qed

lemma quoted_loop_escaped:
  "quoted_loop out (concat (map escape_byte bs) @ 34 # rest) =
     bindr (map_err (\<lambda>_. ''quoted hstore value was not valid UTF-8'') (from_utf8 (out @ bs))) (\<lambda>s. Inr (s, rest))"
  by (induction bs arbitrary: out) (simp_all add: escape_byte_def)

lemma parse_quoted_push [simp]:
  "valid_str s \<Longrightarrow> parse_quoted (as_bytes (push_quoted s) @ rest) = Inr (s, rest)"
  by (simp add: as_bytes_push_quoted parse_quoted_def quoted_loop_escaped)

lemma valid_push_quoted [simp]: "valid_str s \<Longrightarrow> valid_str (push_quoted s)"
proof -
  assume "valid_str s"
  then have "valid_utf8 (concat (map escape_byte (as_bytes s)))"
    by (intro valid_utf8_substitute) (auto simp: escape_byte_def valid_str_def)
  from valid_utf8_append [OF this, of "[34]"] show ?thesis
    by (simp add: valid_str_def as_bytes_push_quoted)
qed

definition valid_entry :: "str \<times> str option \<Rightarrow> bool" where
  "valid_entry = (\<lambda>(key, entry). valid_str key \<and> pred_option valid_str entry)"

definition hstore_valid :: "hstore_map \<Rightarrow> bool" where
  "hstore_valid m = (bt_wf m \<and> list_all valid_entry m)"

lemma hstore_valid_new: "hstore_valid hstore_new"
  by (simp add: hstore_valid_def hstore_new_def)

lemma bt_insert_list_all: "list_all P m \<Longrightarrow> P (k, v) \<Longrightarrow> list_all P (bt_insert k v m)"
  by (induction k v m rule: bt_insert.induct) auto

lemma hstore_valid_insert:
  "hstore_valid m \<Longrightarrow> valid_str key \<Longrightarrow> pred_option valid_str v \<Longrightarrow> hstore_valid (snd (hstore_insert key v m))"
  by (simp add: hstore_valid_def hstore_insert_def bt_wf_insert_aux bt_insert_list_all valid_entry_def)

lemma skip_ws_quoted [simp]: "skip_ws (as_bytes (push_quoted s) @ rest) = as_bytes (push_quoted s) @ rest"
  by (simp add: skip_ws_def as_bytes_push_quoted is_ws_def)

lemma parse_entry_encode: "valid_entry e \<Longrightarrow> parse_entry (as_bytes (encode_entry e) @ rest) = Inr (e, rest)"
proof (cases e)
  case (Pair key entry)
  assume "valid_entry e"
  with Pair have v: "valid_str key" "pred_option valid_str entry" by (auto simp: valid_entry_def)
  have arrow: "skip_ws (61 # 62 # r) = 61 # 62 # r" "expect ''='' (61 # 62 # r) = Inr (62 # r)"
      "expect ''>'' (62 # r) = Inr r" for r
    by (simp_all add: skip_ws_def is_ws_def expect_def)
  have null: "skip_ws (78 # 85 # 76 # 76 # rest) = 78 # 85 # 76 # 76 # rest"
      "expect ''NULL'' (78 # 85 # 76 # 76 # rest) = Inr rest"
    by (simp_all add: skip_ws_def is_ws_def expect_def)
  show ?thesis
  proof (cases entry)
    case None
    with Pair v show ?thesis by (simp add: encode_entry_def parse_entry_def arrow null byte_of_def)
  next
    case (Some t)
    have "(case as_bytes (push_quoted t) @ rest of [] \<Rightarrow> False | b # _ \<Rightarrow> b = byte_of (CHR ''N'')) = False"
      by (simp add: as_bytes_push_quoted byte_of_def)
    with Pair v Some show ?thesis by (simp add: encode_entry_def parse_entry_def arrow Let_def)
  qed
qed

lemma bt_insert_last: "list_all (\<lambda>(k', v'). k' < k) m \<Longrightarrow> bt_insert k v m = m @ [(k, v)]"
  by (induction k v m rule: bt_insert.induct) auto

lemma encode_entry_nonempty: "as_bytes (encode_entry e) @ rest \<noteq> []"
  by (simp add: encode_entry_def as_bytes_push_quoted split: prod.split)

lemma skip_ws_entry: "skip_ws (as_bytes (encode_entry e) @ rest) = as_bytes (encode_entry e) @ rest"
  by (simp add: encode_entry_def split: prod.split)

lemma encode_hstore_Cons:
  "es \<noteq> [] \<Longrightarrow> as_bytes (encode_hstore_text (e # es)) = as_bytes (encode_entry e) @ 44 # 32 # as_bytes (encode_hstore_text es)"
  by (cases es) simp_all

lemma skip_ws_encoded: "skip_ws (as_bytes (encode_hstore_text m)) = as_bytes (encode_hstore_text m)"
  by (cases m rule: encode_hstore_text.cases) (simp_all add: skip_ws_entry skip_ws_entry [where rest = "[]", simplified], simp add: skip_ws_def)

lemma parse_entries_encoded:
  "bt_wf (out @ es) \<Longrightarrow> list_all valid_entry es \<Longrightarrow>
     parse_entries out (as_bytes (encode_hstore_text es)) = Inr (out @ es)"
proof (induction es arbitrary: out)
  case Nil
  then show ?case by (simp add: parse_entries.simps)
next
  case (Cons e es)
  obtain k v where e: "e = (k, v)" by (cases e)
  have ins: "bt_insert k v out = out @ [e]"
    using Cons.prems(1) bt_insert_last [of k out v]
    by (simp add: e bt_wf_def sorted_wrt_append list_all_iff case_prod_beta)
  have step: "parse_entry (as_bytes (encode_entry e) @ rest) = Inr ((k, v), rest)" for rest
    using Cons.prems(2) parse_entry_encode [of e rest] by (simp add: e)
  show ?case
  proof (cases "es = []")
    case True
    with step [of "[]"] encode_entry_nonempty [of e "[]"] ins show ?thesis
      by (subst parse_entries.simps) (simp add: skip_ws_def)
  next
    case False
    have ws: "skip_ws (44 # 32 # r) = 44 # 32 # r" "expect '','' (44 # 32 # r) = Inr (32 # r)"
        "skip_ws (32 # r) = skip_ws r" for r
      by (simp_all add: skip_ws_def is_ws_def expect_def)
    have "parse_entries out (as_bytes (encode_hstore_text (e # es))) =
        parse_entries (out @ [e]) (as_bytes (encode_hstore_text es))"
      using step encode_entry_nonempty [of e] ins
      by (subst parse_entries.simps) (simp add: encode_hstore_Cons [OF False] ws skip_ws_encoded)
    with Cons.IH [of "out @ [e]"] Cons.prems show ?thesis by simp
  qed
qed

lemma parse_hstore_encode: "hstore_valid m \<Longrightarrow> parse_hstore_text (encode_hstore_text m) = Inr m"
  using parse_entries_encoded [of "[]" m]
  by (auto simp: parse_hstore_text_def skip_ws_encoded hstore_valid_def Let_def parse_entries.simps)

lemma valid_encode_entry: "valid_entry e \<Longrightarrow> valid_str (encode_entry e)"
  by (auto simp: encode_entry_def valid_entry_def intro!: valid_str_append split: option.split)

lemma valid_encode_hstore: "list_all valid_entry m \<Longrightarrow> valid_str (encode_hstore_text m)"
  by (induction m rule: encode_hstore_text.induct) (simp_all add: valid_encode_entry valid_str_append)

interpretation hstore: codec_laws hstore hstore_valid
proof
  fix m assume m: "hstore_valid m"
  then have "valid_str (encode_hstore_text m)" by (simp add: valid_encode_hstore hstore_valid_def)
  with m show "\<exists>slots. cd_encode hstore m = Inr slots \<and> length slots = cd_n_columns hstore
      \<and> (\<forall>rest. cd_decode hstore (slots @ rest) = Inr m)"
    by (simp add: hstore_def scalar_def hstore_decode_def parse_hstore_encode)
qed (simp_all add: hstore_def scalar_def)

section \<open>Claims\<close>

text \<open>
  C34. Every \<open>hstore\<close> map prints to text that parses back to the same map: absent values, quotes,
  backslashes and non-ASCII characters included.
\<close>

theorem hstore_text_roundtrip:
  assumes "bt_wf m" and "\<And>key entry. (key, entry) \<in> set m \<Longrightarrow> valid_str key \<and> pred_option valid_str entry"
  shows "parse_hstore_text (encode_hstore_text m) = Inr m"
  using assms by (intro parse_hstore_encode) (auto simp: hstore_valid_def valid_entry_def list_all_iff)

theorem hstore_text_roundtrip_witness:
  "parse_hstore_text (encode_hstore_text [(''alpha'', Some [CHR ''a'', dquote, CHR ''b'']), (''beta'', None)])
     = Inr [(''alpha'', Some [CHR ''a'', dquote, CHR ''b'']), (''beta'', None)]"
proof (rule hstore_text_roundtrip)
  show "bt_wf [(''alpha'', Some [CHR ''a'', dquote, CHR ''b'']), (''beta'', None)]"
    by (simp add: bt_wf_def less_char_def)
qed (auto simp: ascii_valid_str ascii_str_def)

end
