(* ===== verification/Codec_Postgis.thy ===== *)
theory Codec_Postgis
  imports Codec_Primitive
begin

text \<open>
  The PostGIS codecs (\<open>codec/postgis.rs\<close>): values of the \<open>geo-types\<close> crate written and read as EWKB. Doubles
  are their bits. The crate's \<open>Polygon::new\<close>, which closes the rings it is given, is a parameter of the
  reader. \<^const>\<open>None\<close> is a panic when writing; when reading it stands for a recursion that exceeds the
  given depth, and \<open>decode_spatial\<close> passes a depth that is always enough.
\<close>

section \<open>Values\<close>

type_synonym coord = "u64 \<times> u64"

datatype polygon = Polygon (exterior: "coord list") (interiors: "coord list list")

datatype geo_geometry =
    GPoint coord
  | GLine coord coord
  | GLineString "coord list"
  | GPolygon polygon
  | GMultiPoint "coord list"
  | GMultiLineString "coord list list"
  | GMultiPolygon "polygon list"
  | GCollection "geo_geometry list"
  | GRect coord coord
  | GTriangle coord coord coord

datatype spatial_kind = SpatialGeometry | SpatialGeography

fun sql_name :: "spatial_kind \<Rightarrow> str" where
  "sql_name SpatialGeometry = ''geometry''"
| "sql_name SpatialGeography = ''geography''"

type_synonym srid = u32

definition WGS84 :: srid where
  "WGS84 = 4326"

record 't spatial =
  spl_value :: 't
  spl_srid :: "srid option"

definition spatial_new :: "'t \<Rightarrow> 't spatial" where
  "spatial_new v = \<lparr>spl_value = v, spl_srid = None\<rparr>"

definition with_srid :: "'t \<Rightarrow> srid \<Rightarrow> 't spatial" where
  "with_srid v s = \<lparr>spl_value = v, spl_srid = Some s\<rparr>"

definition wgs84 :: "'t \<Rightarrow> 't spatial" where
  "wgs84 v = with_srid v WGS84"

fun geometry_variant_name :: "geo_geometry \<Rightarrow> str" where
  "geometry_variant_name (GPoint p) = ''Point''"
| "geometry_variant_name (GLine a b) = ''Line''"
| "geometry_variant_name (GLineString l) = ''LineString''"
| "geometry_variant_name (GPolygon p) = ''Polygon''"
| "geometry_variant_name (GMultiPoint ps) = ''MultiPoint''"
| "geometry_variant_name (GMultiLineString ls) = ''MultiLineString''"
| "geometry_variant_name (GMultiPolygon ps) = ''MultiPolygon''"
| "geometry_variant_name (GCollection gs) = ''GeometryCollection''"
| "geometry_variant_name (GRect a b) = ''Rect''"
| "geometry_variant_name (GTriangle a b c) = ''Triangle''"

definition postgis_error :: "spatial_kind \<Rightarrow> str \<Rightarrow> error" where
  "postgis_error kind m = Codec (''postgis '' @ sql_name kind @ '': '' @ m)"

definition v1_limitation :: "spatial_kind \<Rightarrow> str \<Rightarrow> error" where
  "v1_limitation kind name = postgis_error kind (name @ '' is intentionally unsupported in v1'')"

definition usize_to_u32 :: "nat \<Rightarrow> spatial_kind \<Rightarrow> str \<Rightarrow> u32 result" where
  "usize_to_u32 v kind field =
     (if int v < 2 ^ 32 then Inr (of_nat v) else Inl (postgis_error kind (field @ '' exceeds EWKB u32 limit'')))"

section \<open>Type codes\<close>

definition WKB_POINT :: u32 where "WKB_POINT = 1"
definition WKB_LINESTRING :: u32 where "WKB_LINESTRING = 2"
definition WKB_POLYGON :: u32 where "WKB_POLYGON = 3"
definition WKB_MULTIPOINT :: u32 where "WKB_MULTIPOINT = 4"
definition WKB_MULTILINESTRING :: u32 where "WKB_MULTILINESTRING = 5"
definition WKB_MULTIPOLYGON :: u32 where "WKB_MULTIPOLYGON = 6"
definition WKB_GEOMETRY_COLLECTION :: u32 where "WKB_GEOMETRY_COLLECTION = 7"
definition EWKB_Z_FLAG :: u32 where "EWKB_Z_FLAG = 0x80000000"
definition EWKB_M_FLAG :: u32 where "EWKB_M_FLAG = 0x40000000"
definition EWKB_SRID_FLAG :: u32 where "EWKB_SRID_FLAG = 0x20000000"
definition EWKB_TYPE_MASK :: u32 where "EWKB_TYPE_MASK = 0x0000FFFF"

lemmas wkb_defs = WKB_POINT_def WKB_LINESTRING_def WKB_POLYGON_def WKB_MULTIPOINT_def WKB_MULTILINESTRING_def
  WKB_MULTIPOLYGON_def WKB_GEOMETRY_COLLECTION_def EWKB_Z_FLAG_def EWKB_M_FLAG_def EWKB_SRID_FLAG_def EWKB_TYPE_MASK_def

section \<open>Writing\<close>

type_synonym 'a panicking = "'a result option"

definition bindo :: "'a panicking \<Rightarrow> ('a \<Rightarrow> 'b panicking) \<Rightarrow> 'b panicking" where
  "bindo m k = (case m of None \<Rightarrow> None | Some (Inl e) \<Rightarrow> Some (Inl e) | Some (Inr x) \<Rightarrow> k x)"

definition le_bytes :: "nat \<Rightarrow> 'a::len word \<Rightarrow> bytes" where
  "le_bytes n w = rev (be_bytes n w)"

definition of_le :: "bytes \<Rightarrow> 'a::len word" where
  "of_le bs = of_be (rev bs)"

definition write_point :: "coord \<Rightarrow> bytes" where
  "write_point p = le_bytes 8 (fst p) @ le_bytes 8 (snd p)"

definition write_line_string :: "coord list \<Rightarrow> bytes option" where
  "write_line_string line =
     (if int (length line) < 2 ^ 32
      then Some (le_bytes 4 (of_nat (length line) :: u32) @ concat (map (\<lambda>c. le_bytes 8 (fst c) @ le_bytes 8 (snd c)) line))
      else None)"

definition write_polygon :: "polygon \<Rightarrow> bytes option" where
  "write_polygon p =
     (let ring_count = 1 + length (interiors p) in
      if int ring_count < 2 ^ 32
      then map_option (\<lambda>rings. le_bytes 4 (of_nat ring_count :: u32) @ concat rings)
             (those (map write_line_string (exterior p # interiors p)))
      else None)"

fun write_all :: "('a \<Rightarrow> bytes panicking) \<Rightarrow> 'a list \<Rightarrow> bytes panicking" where
  "write_all f [] = Some (Inr [])"
| "write_all f (x # xs) = bindo (f x) (\<lambda>b. bindo (write_all f xs) (\<lambda>bs. Some (Inr (b @ bs))))"

definition type_id_of :: "spatial_kind \<Rightarrow> geo_geometry \<Rightarrow> u32 result" where
  "type_id_of kind g =
     (case g of
        GPoint _ \<Rightarrow> Inr WKB_POINT
      | GLineString _ \<Rightarrow> Inr WKB_LINESTRING
      | GPolygon _ \<Rightarrow> Inr WKB_POLYGON
      | GMultiPoint _ \<Rightarrow> Inr WKB_MULTIPOINT
      | GMultiLineString _ \<Rightarrow> Inr WKB_MULTILINESTRING
      | GMultiPolygon _ \<Rightarrow> Inr WKB_MULTIPOLYGON
      | _ \<Rightarrow> Inl (v1_limitation kind (geometry_variant_name g)))"

definition write_header :: "u32 \<Rightarrow> srid option \<Rightarrow> bool \<Rightarrow> bytes" where
  "write_header type_id srid include_srid =
     [1] @ le_bytes 4 (if include_srid \<and> srid \<noteq> None then or type_id EWKB_SRID_FLAG else type_id)
     @ (if include_srid then (case srid of None \<Rightarrow> [] | Some s \<Rightarrow> le_bytes 4 s) else [])"

definition is_multi :: "geo_geometry \<Rightarrow> bool" where
  "is_multi g = (case g of GMultiPoint _ \<Rightarrow> True | GMultiLineString _ \<Rightarrow> True | GMultiPolygon _ \<Rightarrow> True | _ \<Rightarrow> False)"

function write_geometry :: "geo_geometry \<Rightarrow> srid option \<Rightarrow> bool \<Rightarrow> spatial_kind \<Rightarrow> bytes panicking" where
  "write_geometry g srid include_srid kind =
     bindo (Some (type_id_of kind g)) (\<lambda>type_id.
     bindo
       (case g of
          GPoint p \<Rightarrow> Some (Inr (write_point p))
        | GLineString l \<Rightarrow> map_option Inr (write_line_string l)
        | GPolygon p \<Rightarrow> map_option Inr (write_polygon p)
        | GMultiPoint ps \<Rightarrow>
            bindo (Some (usize_to_u32 (length ps) kind ''MultiPoint count'')) (\<lambda>n.
            bindo (write_all (\<lambda>p. write_geometry (GPoint p) None False kind) ps) (\<lambda>bs. Some (Inr (le_bytes 4 n @ bs))))
        | GMultiLineString ls \<Rightarrow>
            bindo (Some (usize_to_u32 (length ls) kind ''MultiLineString count'')) (\<lambda>n.
            bindo (write_all (\<lambda>l. write_geometry (GLineString l) None False kind) ls) (\<lambda>bs. Some (Inr (le_bytes 4 n @ bs))))
        | GMultiPolygon ps \<Rightarrow>
            bindo (Some (usize_to_u32 (length ps) kind ''MultiPolygon count'')) (\<lambda>n.
            bindo (write_all (\<lambda>p. write_geometry (GPolygon p) None False kind) ps) (\<lambda>bs. Some (Inr (le_bytes 4 n @ bs))))
        | _ \<Rightarrow> None)
       (\<lambda>body. Some (Inr (write_header type_id srid include_srid @ body))))"
  by pat_completeness auto
termination
  by (relation "measure (\<lambda>(g, srid, include_srid, kind). if is_multi g then 1 else 0)") (auto simp: is_multi_def)

declare write_geometry.simps [simp del]

definition encode_spatial :: "spatial_kind \<Rightarrow> srid option \<Rightarrow> geo_geometry \<Rightarrow> bytes panicking" where
  "encode_spatial kind srid g = write_geometry g srid True kind"

section \<open>Reading\<close>

type_synonym 'a geo_reader = "bytes \<Rightarrow> ('a \<times> bytes) result"

definition read_exact :: "nat \<Rightarrow> bytes geo_reader" where
  "read_exact len input =
     (if length input < len then Inl (Codec ''postgis: truncated EWKB payload while decoding spatial value'')
      else Inr (take len input, drop len input))"

definition wkb_read_u8 :: "u8 geo_reader" where
  "wkb_read_u8 input = bindr (read_exact 1 input) (\<lambda>(raw, rest). Inr (hd raw, rest))"

definition wkb_read_u32 :: "bool \<Rightarrow> u32 geo_reader" where
  "wkb_read_u32 little_endian input =
     bindr (read_exact 4 input) (\<lambda>(raw, rest). Inr (if little_endian then of_le raw else of_be raw, rest))"

definition wkb_read_i32 :: "bool \<Rightarrow> i32 geo_reader" where
  "wkb_read_i32 little_endian input =
     bindr (read_exact 4 input) (\<lambda>(raw, rest). Inr (if little_endian then of_le raw else of_be raw, rest))"

definition read_f64 :: "bool \<Rightarrow> u64 geo_reader" where
  "read_f64 little_endian input =
     bindr (read_exact 8 input) (\<lambda>(raw, rest). Inr (if little_endian then of_le raw else of_be raw, rest))"

definition read_point :: "bool \<Rightarrow> coord geo_reader" where
  "read_point le input =
     bindr (read_f64 le input) (\<lambda>(x, input). bindr (read_f64 le input) (\<lambda>(y, input). Inr ((x, y), input)))"

fun read_times :: "nat \<Rightarrow> 'a geo_reader \<Rightarrow> 'a list geo_reader" where
  "read_times 0 r input = Inr ([], input)"
| "read_times (Suc n) r input =
     bindr (r input) (\<lambda>(x, input). bindr (read_times n r input) (\<lambda>(xs, input). Inr (x # xs, input)))"

definition read_line_string :: "bool \<Rightarrow> coord list geo_reader" where
  "read_line_string le input = bindr (wkb_read_u32 le input) (\<lambda>(count, input). read_times (unat count) (read_point le) input)"

definition read_polygon :: "(coord list \<Rightarrow> coord list list \<Rightarrow> polygon) \<Rightarrow> bool \<Rightarrow> polygon geo_reader" where
  "read_polygon polygon_new le input =
     bindr (wkb_read_u32 le input) (\<lambda>(ring_count, input).
     if ring_count = 0 then Inr (polygon_new [] [], input)
     else
       bindr (read_line_string le input) (\<lambda>(ext, input).
       bindr (read_times (unat ring_count - 1) (read_line_string le) input) (\<lambda>(ints, input).
       Inr (polygon_new ext ints, input))))"

type_synonym decoded_spatial = "geo_geometry \<times> srid option"

fun repeat_member :: "nat \<Rightarrow> (bytes \<Rightarrow> ('a \<times> bytes) panicking) \<Rightarrow> bytes \<Rightarrow> ('a list \<times> bytes) panicking" where
  "repeat_member 0 r input = Some (Inr ([], input))"
| "repeat_member (Suc n) r input =
     bindo (r input) (\<lambda>(x, input). bindo (repeat_member n r input) (\<lambda>(xs, input). Some (Inr (x # xs, input))))"

definition read_member ::
    "spatial_kind \<Rightarrow> str \<Rightarrow> (geo_geometry \<Rightarrow> 'a option) \<Rightarrow> (bytes \<Rightarrow> (decoded_spatial \<times> bytes) panicking)
     \<Rightarrow> bytes \<Rightarrow> ('a \<times> bytes) panicking" where
  "read_member kind member sel reader input =
     bindo (reader input) (\<lambda>((g, srid), input).
     if srid \<noteq> None then Some (Inl (postgis_error kind ''nested SRIDs are not supported in v1''))
     else (case sel g of
             Some x \<Rightarrow> Some (Inr (x, input))
           | None \<Rightarrow> Some (Inl (postgis_error kind
               (''expected '' @ member @ '' inside Multi'' @ member @ '', got '' @ geometry_variant_name g)))))"

definition sel_point :: "geo_geometry \<Rightarrow> coord option" where
  "sel_point g = (case g of GPoint p \<Rightarrow> Some p | _ \<Rightarrow> None)"

definition sel_line_string :: "geo_geometry \<Rightarrow> coord list option" where
  "sel_line_string g = (case g of GLineString l \<Rightarrow> Some l | _ \<Rightarrow> None)"

definition sel_polygon :: "geo_geometry \<Rightarrow> polygon option" where
  "sel_polygon g = (case g of GPolygon p \<Rightarrow> Some p | _ \<Rightarrow> None)"

text \<open>\<open>read_multi_point\<close>, \<open>read_multi_line_string\<close> and \<open>read_multi_polygon\<close>.\<close>

definition read_multi ::
    "spatial_kind \<Rightarrow> str \<Rightarrow> (geo_geometry \<Rightarrow> 'a option) \<Rightarrow> (bytes \<Rightarrow> (decoded_spatial \<times> bytes) panicking)
     \<Rightarrow> bool \<Rightarrow> bytes \<Rightarrow> ('a list \<times> bytes) panicking" where
  "read_multi kind member sel reader le input =
     bindo (Some (wkb_read_u32 le input)) (\<lambda>(count, input).
     repeat_member (unat count) (read_member kind member sel reader) input)"

definition read_srid :: "spatial_kind \<Rightarrow> bool \<Rightarrow> u32 \<Rightarrow> srid option geo_reader" where
  "read_srid kind le type_id input =
     (if and type_id EWKB_SRID_FLAG \<noteq> 0 then
        bindr (wkb_read_i32 le input) (\<lambda>(srid, input).
        if sint srid < 0
        then Inl (postgis_error kind (''negative SRIDs are not supported (got '' @ show_int (sint srid) @ '')''))
        else Inr (Some srid, input))
      else Inr (None, input))"

definition wrap :: "('a \<Rightarrow> geo_geometry) \<Rightarrow> ('a \<times> bytes) panicking \<Rightarrow> (geo_geometry \<times> bytes) panicking" where
  "wrap f r = bindo r (\<lambda>(x, input). Some (Inr (f x, input)))"

text \<open>The match on the type code; \<open>reader\<close> reads the members of a collection.\<close>

definition read_body ::
    "(coord list \<Rightarrow> coord list list \<Rightarrow> polygon) \<Rightarrow> spatial_kind \<Rightarrow> (bytes \<Rightarrow> (decoded_spatial \<times> bytes) panicking)
     \<Rightarrow> bool \<Rightarrow> u32 \<Rightarrow> bytes \<Rightarrow> (geo_geometry \<times> bytes) panicking" where
  "read_body polygon_new kind reader le code input =
     (if code = WKB_POINT then wrap GPoint (Some (read_point le input))
      else if code = WKB_LINESTRING then wrap GLineString (Some (read_line_string le input))
      else if code = WKB_POLYGON then wrap GPolygon (Some (read_polygon polygon_new le input))
      else if code = WKB_MULTIPOINT then wrap GMultiPoint (read_multi kind ''Point'' sel_point reader le input)
      else if code = WKB_MULTILINESTRING then wrap GMultiLineString (read_multi kind ''LineString'' sel_line_string reader le input)
      else if code = WKB_MULTIPOLYGON then wrap GMultiPolygon (read_multi kind ''Polygon'' sel_polygon reader le input)
      else if code = WKB_GEOMETRY_COLLECTION then Some (Inl (v1_limitation kind ''GeometryCollection''))
      else Some (Inl (postgis_error kind (''unsupported EWKB type id '' @ show_nat (unat code)))))"

fun read_geometry ::
    "(coord list \<Rightarrow> coord list list \<Rightarrow> polygon) \<Rightarrow> nat \<Rightarrow> spatial_kind \<Rightarrow> bytes \<Rightarrow> (decoded_spatial \<times> bytes) panicking" where
  "read_geometry polygon_new 0 kind input = None"
| "read_geometry polygon_new (Suc depth) kind input =
     bindo (Some (wkb_read_u8 input)) (\<lambda>(endian, input).
     if endian \<noteq> 0 \<and> endian \<noteq> 1
     then Some (Inl (postgis_error kind (''invalid EWKB endian marker '' @ show_nat (unat endian))))
     else
       (let le = (endian = 1) in
        bindo (Some (wkb_read_u32 le input)) (\<lambda>(type_id, input).
        if and type_id EWKB_Z_FLAG \<noteq> 0 \<or> and type_id EWKB_M_FLAG \<noteq> 0
        then Some (Inl (postgis_error kind ''only 2D EWKB is supported in v1''))
        else
          bindo (Some (read_srid kind le type_id input)) (\<lambda>(srid, input).
          bindo (read_body polygon_new kind (read_geometry polygon_new depth kind) le (and type_id EWKB_TYPE_MASK) input)
            (\<lambda>(g, input). Some (Inr ((g, srid), input)))))))"

declare read_geometry.simps(2) [simp del]

definition decode_spatial :: "(coord list \<Rightarrow> coord list list \<Rightarrow> polygon) \<Rightarrow> raw_row \<Rightarrow> spatial_kind \<Rightarrow> decoded_spatial panicking" where
  "decode_spatial polygon_new columns kind =
     (case columns of
        [] \<Rightarrow> Some (Inl (postgis_error kind ''decoder needs 1 column, got 0''))
      | None # _ \<Rightarrow> Some (Inl (postgis_error kind ''unexpected NULL; use nullable() to allow it''))
      | Some bs # _ \<Rightarrow>
          bindo (read_geometry polygon_new (Suc (length bs)) kind bs) (\<lambda>(decoded, input).
          if input \<noteq> [] then Some (Inl (postgis_error kind ''unexpected trailing EWKB bytes''))
          else Some (Inr decoded)))"

section \<open>Typed values\<close>

text \<open>The trait \<open>GeoValue\<close>: a shape turned into a geometry and back.\<close>

record 't geo_value =
  gv_into_geometry :: "'t \<Rightarrow> geo_geometry"
  gv_try_from_geometry :: "geo_geometry \<Rightarrow> 't result"

definition geometry_value :: "geo_geometry geo_value" where
  "geometry_value = \<lparr>gv_into_geometry = id, gv_try_from_geometry = Inr\<rparr>"

definition variant_value :: "('t \<Rightarrow> geo_geometry) \<Rightarrow> (geo_geometry \<Rightarrow> 't option) \<Rightarrow> str \<Rightarrow> 't geo_value" where
  "variant_value into sel name =
     \<lparr>gv_into_geometry = into,
      gv_try_from_geometry = (\<lambda>g. case sel g of
        Some v \<Rightarrow> Inr v
      | None \<Rightarrow> Inl (Codec (''postgis: expected '' @ name @ '', got '' @ geometry_variant_name g)))\<rparr>"

definition point_value :: "coord geo_value" where
  "point_value = variant_value GPoint sel_point ''Point''"

definition line_string_value :: "coord list geo_value" where
  "line_string_value = variant_value GLineString sel_line_string ''LineString''"

definition polygon_value :: "polygon geo_value" where
  "polygon_value = variant_value GPolygon sel_polygon ''Polygon''"

definition multi_point_value :: "coord list geo_value" where
  "multi_point_value = variant_value GMultiPoint (\<lambda>g. case g of GMultiPoint v \<Rightarrow> Some v | _ \<Rightarrow> None) ''MultiPoint''"

definition multi_line_string_value :: "coord list list geo_value" where
  "multi_line_string_value =
     variant_value GMultiLineString (\<lambda>g. case g of GMultiLineString v \<Rightarrow> Some v | _ \<Rightarrow> None) ''MultiLineString''"

definition multi_polygon_value :: "polygon list geo_value" where
  "multi_polygon_value = variant_value GMultiPolygon (\<lambda>g. case g of GMultiPolygon v \<Rightarrow> Some v | _ \<Rightarrow> None) ''MultiPolygon''"

text \<open>Both codecs, for their kind.\<close>

definition spatial_encode :: "spatial_kind \<Rightarrow> 't geo_value \<Rightarrow> 't spatial \<Rightarrow> raw_row panicking" where
  "spatial_encode kind gv v =
     bindo (encode_spatial kind (spl_srid v) (gv_into_geometry gv (spl_value v))) (\<lambda>bs. Some (Inr [Some bs]))"

definition spatial_decode ::
    "(coord list \<Rightarrow> coord list list \<Rightarrow> polygon) \<Rightarrow> spatial_kind \<Rightarrow> 't geo_value \<Rightarrow> raw_row \<Rightarrow> 't spatial panicking" where
  "spatial_decode polygon_new kind gv columns =
     bindo (decode_spatial polygon_new columns kind) (\<lambda>(g, srid).
     bindo (Some (gv_try_from_geometry gv g)) (\<lambda>v. Some (Inr \<lparr>spl_value = v, spl_srid = srid\<rparr>)))"

section \<open>Reading what was written\<close>

lemma bindo_simps [simp]: "bindo None k = None" "bindo (Some (Inl e)) k = Some (Inl e)" "bindo (Some (Inr x)) k = k x"
  by (simp_all add: bindo_def)

lemma of_le_le_bytes [simp]: "of_le (le_bytes 4 (w :: 32 word)) = w" "of_le (le_bytes 8 (v :: 64 word)) = v"
  by (simp_all add: of_le_def le_bytes_def)

lemma length_le_bytes [simp]: "length (le_bytes n w) = n"
  by (simp add: le_bytes_def)

lemma read_exact_append: "length a = len \<Longrightarrow> read_exact len (a @ rest) = Inr (a, rest)"
  by (simp add: read_exact_def)

lemma read_numbers [simp]:
  "wkb_read_u32 True (le_bytes 4 w @ rest) = Inr (w, rest)"
  "wkb_read_i32 True (le_bytes 4 w @ rest) = Inr (w, rest)"
  "read_f64 True (le_bytes 8 v @ rest) = Inr (v, rest)"
  by (simp_all add: wkb_read_u32_def wkb_read_i32_def read_f64_def read_exact_append)

lemma read_write_point [simp]: "read_point True (write_point p @ rest) = Inr (p, rest)"
  by (simp add: read_point_def write_point_def)

lemma read_times_concat:
  assumes "\<And>x rest. x \<in> set xs \<Longrightarrow> r (enc x @ rest) = Inr (x, rest)"
  shows "read_times (length xs) r (concat (map enc xs) @ rest) = Inr (xs, rest)"
  using assms by (induction xs) auto

definition count_ok :: "'a list \<Rightarrow> bool" where
  "count_ok xs = (int (length xs) < 2 ^ 32)"

lemma unat_count: "int n < 2 ^ 32 \<Longrightarrow> unat (of_nat n :: u32) = n"
  by (simp only: unat_of_nat) (simp add: take_bit_nat_eq_self)

definition line_string_bytes :: "coord list \<Rightarrow> bytes" where
  "line_string_bytes l = le_bytes 4 (of_nat (length l) :: u32) @ concat (map write_point l)"

lemma write_line_string_ok: "count_ok l \<Longrightarrow> write_line_string l = Some (line_string_bytes l)"
  by (simp add: write_line_string_def line_string_bytes_def count_ok_def write_point_def [abs_def])

lemma read_line_string_ok: "count_ok l \<Longrightarrow> read_line_string True (line_string_bytes l @ rest) = Inr (l, rest)"
  by (simp add: read_line_string_def line_string_bytes_def count_ok_def unat_count read_times_concat)

text \<open>A polygon as \<open>Polygon::new\<close> leaves it: building it again from its rings changes nothing.\<close>

definition polygon_ok :: "(coord list \<Rightarrow> coord list list \<Rightarrow> polygon) \<Rightarrow> polygon \<Rightarrow> bool" where
  "polygon_ok polygon_new p \<longleftrightarrow> int (1 + length (interiors p)) < 2 ^ 32 \<and> list_all count_ok (exterior p # interiors p)
     \<and> polygon_new (exterior p) (interiors p) = p"

definition polygon_bytes :: "polygon \<Rightarrow> bytes" where
  "polygon_bytes p =
     le_bytes 4 (of_nat (1 + length (interiors p)) :: u32) @ line_string_bytes (exterior p)
     @ concat (map line_string_bytes (interiors p))"

lemma those_map_Some: "(\<And>x. x \<in> set xs \<Longrightarrow> f x = Some (g x)) \<Longrightarrow> those (map f xs) = Some (map g xs)"
  by (induction xs) auto

lemma write_polygon_ok: "polygon_ok mk p \<Longrightarrow> write_polygon p = Some (polygon_bytes p)"
proof -
  assume ok: "polygon_ok mk p"
  have "those (map write_line_string (exterior p # interiors p)) = Some (map line_string_bytes (exterior p # interiors p))"
    by (rule those_map_Some) (use ok in \<open>auto simp: polygon_ok_def list_all_iff write_line_string_ok\<close>)
  then show ?thesis
    using ok by (simp only: write_polygon_def Let_def) (simp add: polygon_bytes_def polygon_ok_def)
qed

lemma read_polygon_ok:
  assumes "polygon_ok mk p"
  shows "read_polygon mk True (polygon_bytes p @ rest) = Inr (p, rest)"
proof -
  have n: "unat (of_nat (1 + length (interiors p)) :: u32) = 1 + length (interiors p)"
    using assms by (intro unat_count) (simp add: polygon_ok_def)
  then have "(of_nat (1 + length (interiors p)) :: u32) \<noteq> 0" by (metis unat_0 add_eq_0_iff_both_eq_0 zero_neq_one)
  moreover have "read_times (length (interiors p)) (read_line_string True) (concat (map line_string_bytes (interiors p)) @ rest)
      = Inr (interiors p, rest)"
    by (rule read_times_concat) (use assms read_line_string_ok in \<open>auto simp: polygon_ok_def list_all_iff\<close>)
  ultimately show ?thesis
    using assms n
    by (simp add: read_polygon_def polygon_bytes_def read_line_string_ok polygon_ok_def del: of_nat_add of_nat_Suc)
qed

lemma repeat_member_concat:
  assumes "\<And>x rest. x \<in> set xs \<Longrightarrow> r (enc x @ rest) = Some (Inr (x, rest))"
  shows "repeat_member (length xs) r (concat (map enc xs) @ rest) = Some (Inr (xs, rest))"
  using assms by (induction xs) auto

definition srid_ok :: "srid option \<Rightarrow> bool" where
  "srid_ok s = (case s of None \<Rightarrow> True | Some w \<Rightarrow> 0 \<le> sint w)"

lemma read_header:
  assumes "type_id \<in> {1, 2, 3, 4, 5, 6}" "srid_ok srid"
  shows "read_geometry mk (Suc d) kind (write_header type_id srid include_srid @ input) =
    bindo (read_body mk kind (read_geometry mk d kind) True type_id input)
      (\<lambda>(g, input). Some (Inr ((g, if include_srid then srid else None), input)))"
proof -
  have codes: "and type_id EWKB_Z_FLAG = 0" "and type_id EWKB_M_FLAG = 0" "and type_id EWKB_SRID_FLAG = 0"
    "and type_id EWKB_TYPE_MASK = type_id" "and (or type_id EWKB_SRID_FLAG) EWKB_Z_FLAG = 0"
    "and (or type_id EWKB_SRID_FLAG) EWKB_M_FLAG = 0" "and (or type_id EWKB_SRID_FLAG) EWKB_SRID_FLAG \<noteq> 0"
    "and (or type_id EWKB_SRID_FLAG) EWKB_TYPE_MASK = type_id" "EWKB_SRID_FLAG \<noteq> 0"
    using assms(1) by (auto simp: wkb_defs)
  have u8: "wkb_read_u8 (1 # xs) = Inr (1, xs)" for xs by (simp add: wkb_read_u8_def read_exact_def)
  show ?thesis
    using assms(2)
    by (cases srid; cases include_srid)
      (auto simp: read_geometry.simps(2) write_header_def u8 codes read_srid_def srid_ok_def not_less)
qed

text \<open>A geometry that can be written: supported, with counts that fit, and polygons with closed rings.\<close>

fun writable :: "(coord list \<Rightarrow> coord list list \<Rightarrow> polygon) \<Rightarrow> geo_geometry \<Rightarrow> bool" where
  "writable mk (GPoint p) = True"
| "writable mk (GLineString l) = count_ok l"
| "writable mk (GPolygon p) = polygon_ok mk p"
| "writable mk (GMultiPoint ps) = count_ok ps"
| "writable mk (GMultiLineString ls) = (count_ok ls \<and> list_all count_ok ls)"
| "writable mk (GMultiPolygon ps) = (count_ok ps \<and> list_all (polygon_ok mk) ps)"
| "writable mk g = False"

definition reads_back ::
    "(coord list \<Rightarrow> coord list list \<Rightarrow> polygon) \<Rightarrow> nat \<Rightarrow> spatial_kind \<Rightarrow> geo_geometry \<Rightarrow> srid option \<Rightarrow> bool \<Rightarrow> bytes \<Rightarrow> bool" where
  "reads_back mk d kind g srid include_srid bs \<longleftrightarrow>
     write_geometry g srid include_srid kind = Some (Inr bs)
     \<and> (\<forall>rest. read_geometry mk d kind (bs @ rest) = Some (Inr ((g, if include_srid then srid else None), rest)))"

lemmas spatial_unfold = write_geometry.simps type_id_of_def read_header read_body_def wrap_def wkb_defs

lemma simple_reads_back:
  assumes "srid_ok srid"
  shows "reads_back mk (Suc d) kind (GPoint p) srid include_srid (write_header 1 srid include_srid @ write_point p)"
    and "count_ok l \<Longrightarrow>
      reads_back mk (Suc d) kind (GLineString l) srid include_srid (write_header 2 srid include_srid @ line_string_bytes l)"
    and "polygon_ok mk q \<Longrightarrow>
      reads_back mk (Suc d) kind (GPolygon q) srid include_srid (write_header 3 srid include_srid @ polygon_bytes q)"
  using assms
  by (auto simp: reads_back_def spatial_unfold write_line_string_ok read_line_string_ok write_polygon_ok read_polygon_ok)

lemma write_all_ok: "(\<And>x. x \<in> set xs \<Longrightarrow> f x = Some (Inr (enc x))) \<Longrightarrow> write_all f xs = Some (Inr (concat (map enc xs)))"
  by (induction xs) auto

text \<open>A collection is read back when its members are.\<close>

lemma multi_reads_back:
  assumes "\<And>x. x \<in> set xs \<Longrightarrow> reads_back mk d kind (member x) None False (enc x)"
    and "\<And>x. sel (member x) = Some x" and "count_ok xs"
  shows "write_all (\<lambda>x. write_geometry (member x) None False kind) xs = Some (Inr (concat (map enc xs)))"
    and "usize_to_u32 (length xs) kind field = Inr (of_nat (length xs))"
    and "read_multi kind name sel (read_geometry mk d kind) True
      (le_bytes 4 (of_nat (length xs) :: u32) @ concat (map enc xs) @ rest) = Some (Inr (xs, rest))"
proof -
  show "write_all (\<lambda>x. write_geometry (member x) None False kind) xs = Some (Inr (concat (map enc xs)))"
    by (rule write_all_ok) (use assms(1) in \<open>auto simp: reads_back_def\<close>)
  show "usize_to_u32 (length xs) kind field = Inr (of_nat (length xs))"
    using assms(3) by (simp add: usize_to_u32_def count_ok_def)
  have "repeat_member (length xs) (read_member kind name sel (read_geometry mk d kind)) (concat (map enc xs) @ rest) = Some (Inr (xs, rest))"
    by (rule repeat_member_concat) (use assms(1,2) in \<open>auto simp: reads_back_def read_member_def\<close>)
  then show "read_multi kind name sel (read_geometry mk d kind) True
      (le_bytes 4 (of_nat (length xs) :: u32) @ concat (map enc xs) @ rest) = Some (Inr (xs, rest))"
    using assms(3) by (simp add: read_multi_def unat_count count_ok_def)
qed

lemma geometry_reads_back:
  assumes "writable mk g" "srid_ok srid" "0 < d"
  shows "\<exists>bs. reads_back mk (Suc d) kind g srid include_srid bs"
proof -
  obtain d' where d: "d = Suc d'" using assms(3) by (cases d) auto
  have member: "srid_ok None" by (simp add: srid_ok_def)
  note simple = simple_reads_back [OF member, where mk = mk and d = d' and kind = kind and include_srid = False, folded d]
  show ?thesis
  proof (cases g)
    case (GMultiPoint ps)
    note m = multi_reads_back [of ps mk d kind GPoint, OF simple(1), of sel_point]
    show ?thesis
      using assms GMultiPoint m
      by (intro exI [of _ "write_header 4 srid include_srid @ le_bytes 4 (of_nat (length ps) :: u32)
            @ concat (map (\<lambda>p. write_header 1 None False @ write_point p) ps)"])
        (simp add: reads_back_def spatial_unfold sel_point_def)
  next
    case (GMultiLineString ls)
    note m = multi_reads_back [of ls mk d kind GLineString, OF simple(2), of sel_line_string]
    show ?thesis
      using assms GMultiLineString m
      by (intro exI [of _ "write_header 5 srid include_srid @ le_bytes 4 (of_nat (length ls) :: u32)
            @ concat (map (\<lambda>l. write_header 2 None False @ line_string_bytes l) ls)"])
        (simp add: reads_back_def spatial_unfold sel_line_string_def list_all_iff)
  next
    case (GMultiPolygon ps)
    note m = multi_reads_back [of ps mk d kind GPolygon, OF simple(3), of sel_polygon]
    show ?thesis
      using assms GMultiPolygon m
      by (intro exI [of _ "write_header 6 srid include_srid @ le_bytes 4 (of_nat (length ps) :: u32)
            @ concat (map (\<lambda>p. write_header 3 None False @ polygon_bytes p) ps)"])
        (simp add: reads_back_def spatial_unfold sel_polygon_def list_all_iff)
  qed (use assms(1,2) in \<open>auto intro!: exI simple_reads_back\<close>)
qed

section \<open>The depth is enough\<close>

definition never_grows :: "(bytes \<Rightarrow> ('a \<times> bytes) panicking) \<Rightarrow> bool" where
  "never_grows r \<longleftrightarrow> (\<forall>input x rest. r input = Some (Inr (x, rest)) \<longrightarrow> length rest \<le> length input)"

definition answers_below :: "nat \<Rightarrow> (bytes \<Rightarrow> ('a \<times> bytes) panicking) \<Rightarrow> bool" where
  "answers_below n r \<longleftrightarrow> (\<forall>input. length input < n \<longrightarrow> r input \<noteq> None)"

lemma bindo_SomeE:
  assumes "bindo m k = Some (Inr y)"
  obtains x where "m = Some (Inr x)" "k x = Some (Inr y)"
  using assms by (auto simp: bindo_def split: option.splits sum.splits)

lemma bindo_None: "bindo m k = None \<longleftrightarrow> m = None \<or> (\<exists>x. m = Some (Inr x) \<and> k x = None)"
  by (auto simp: bindo_def split: option.splits sum.splits)

lemma read_exact_shrinks: "read_exact n input = Inr (x, rest) \<Longrightarrow> length rest + n = length input"
  by (auto simp: read_exact_def split: if_splits)

lemma read_number_shrinks:
  "wkb_read_u8 input = Inr (b, rest) \<Longrightarrow> length rest < length input"
  "wkb_read_u32 le input = Inr (w, rest) \<Longrightarrow> length rest \<le> length input"
  "wkb_read_i32 le input = Inr (i, rest) \<Longrightarrow> length rest \<le> length input"
  "read_f64 le input = Inr (v, rest) \<Longrightarrow> length rest \<le> length input"
  by (auto simp: wkb_read_u8_def wkb_read_u32_def wkb_read_i32_def read_f64_def elim!: bindr_InrE dest!: read_exact_shrinks)

lemma read_point_shrinks: "read_point le input = Inr (p, rest) \<Longrightarrow> length rest \<le> length input"
  by (auto simp: read_point_def elim!: bindr_InrE dest!: read_number_shrinks)

lemma read_times_shrinks:
  "(\<And>input x rest. r input = Inr (x, rest) \<Longrightarrow> length rest \<le> length input) \<Longrightarrow>
   read_times n r input = Inr (xs, rest) \<Longrightarrow> length rest \<le> length input"
  by (induction n arbitrary: input xs) (fastforce elim!: bindr_InrE)+

lemma read_points_shrink: "read_times n (read_point le) input = Inr (xs, rest) \<Longrightarrow> length rest \<le> length input"
  by (erule read_times_shrinks [rotated]) (erule read_point_shrinks)

lemma read_line_string_shrinks: "read_line_string le input = Inr (l, rest) \<Longrightarrow> length rest \<le> length input"
  by (auto simp: read_line_string_def elim!: bindr_InrE dest!: read_number_shrinks read_points_shrink)

lemma read_lines_shrink: "read_times n (read_line_string le) input = Inr (xs, rest) \<Longrightarrow> length rest \<le> length input"
  by (erule read_times_shrinks [rotated]) (erule read_line_string_shrinks)

lemma read_polygon_shrinks: "read_polygon mk le input = Inr (p, rest) \<Longrightarrow> length rest \<le> length input"
  by (auto simp: read_polygon_def elim!: bindr_InrE split: if_splits dest!: read_number_shrinks read_line_string_shrinks
    read_lines_shrink)

lemma repeat_member_shrinks: "never_grows r \<Longrightarrow> never_grows (repeat_member n r)"
proof (induction n)
  case (Suc n)
  then show ?case unfolding never_grows_def by (fastforce elim!: bindo_SomeE)
qed (simp add: never_grows_def)

lemma read_multi_shrinks: "never_grows r \<Longrightarrow> never_grows (read_multi kind name sel r le)"
proof -
  assume "never_grows r"
  then have "never_grows (read_member kind name sel r)"
    unfolding never_grows_def read_member_def by (fastforce elim!: bindo_SomeE split: if_splits option.splits)
  from repeat_member_shrinks [OF this] show ?thesis
    unfolding never_grows_def read_multi_def by (fastforce elim!: bindo_SomeE dest: read_number_shrinks)
qed

lemma shrinks_if: "never_grows r \<Longrightarrow> never_grows r' \<Longrightarrow> never_grows (\<lambda>input. if c then r input else r' input)"
  by (simp add: never_grows_def)

lemma shrinks_wrap: "never_grows r \<Longrightarrow> never_grows (\<lambda>input. wrap f (r input))"
  unfolding never_grows_def wrap_def by (fastforce elim!: bindo_SomeE)

lemma shrinks_lift: "(\<And>input x rest. r input = Inr (x, rest) \<Longrightarrow> length rest \<le> length input) \<Longrightarrow> never_grows (\<lambda>input. Some (r input))"
  by (auto simp: never_grows_def)

lemma shrinks_error: "never_grows (\<lambda>input. Some (Inl e))"
  by (simp add: never_grows_def)

lemma read_body_shrinks: "never_grows r \<Longrightarrow> never_grows (read_body mk kind r le code)"
  unfolding read_body_def [abs_def]
  by (intro shrinks_if shrinks_wrap shrinks_error shrinks_lift read_multi_shrinks read_point_shrinks
    read_line_string_shrinks read_polygon_shrinks)

lemma read_srid_shrinks: "read_srid kind le type_id input = Inr (s, rest) \<Longrightarrow> length rest \<le> length input"
  by (auto simp: read_srid_def elim!: bindr_InrE split: if_splits dest!: read_number_shrinks)

lemma read_geometry_shrinks: "never_grows (read_geometry mk d kind)"
proof (induction d)
  case (Suc d)
  from read_body_shrinks [OF this] show ?case
    unfolding never_grows_def
    by (auto simp: read_geometry.simps(2) Let_def elim!: bindo_SomeE split: if_splits
      dest!: read_number_shrinks read_srid_shrinks; fastforce)
qed (simp add: never_grows_def)

lemma repeat_member_answers: "never_grows r \<Longrightarrow> answers_below n r \<Longrightarrow> answers_below n (repeat_member k r)"
proof (induction k)
  case (Suc k)
  then show ?case unfolding never_grows_def answers_below_def by (auto simp: bindo_None) fastforce
qed (simp add: answers_below_def)

lemma read_multi_answers:
  assumes "never_grows r" "answers_below n r"
  shows "answers_below n (read_multi kind name sel r le)"
proof -
  have "never_grows (read_member kind name sel r)"
    using assms(1) unfolding never_grows_def read_member_def by (fastforce elim!: bindo_SomeE split: if_splits option.splits)
  moreover have "answers_below n (read_member kind name sel r)"
    using assms(2) unfolding answers_below_def read_member_def by (auto simp: bindo_None split: if_splits option.splits)
  ultimately have "answers_below n (repeat_member k (read_member kind name sel r))" for k
    by (rule repeat_member_answers)
  then show ?thesis
    unfolding answers_below_def read_multi_def by (auto simp: bindo_None dest!: read_number_shrinks)
qed

lemma answers_if: "answers_below n r \<Longrightarrow> answers_below n r' \<Longrightarrow> answers_below n (\<lambda>input. if c then r input else r' input)"
  by (simp add: answers_below_def)

lemma answers_wrap: "answers_below n r \<Longrightarrow> answers_below n (\<lambda>input. wrap f (r input))"
  by (auto simp: answers_below_def wrap_def bindo_None split_beta)

lemma answers_lift: "answers_below n (\<lambda>input. Some (r input))"
  by (simp add: answers_below_def)

lemma read_body_answers: "never_grows r \<Longrightarrow> answers_below n r \<Longrightarrow> answers_below n (read_body mk kind r le code)"
  unfolding read_body_def [abs_def] by (intro answers_if answers_wrap answers_lift read_multi_answers)

lemma read_geometry_answers: "answers_below n (read_geometry mk n kind)"
proof (induction n)
  case (Suc n)
  have body: "read_body mk kind (read_geometry mk n kind) le code input = None \<Longrightarrow> n \<le> length input" for le code input
    using read_body_answers [OF read_geometry_shrinks Suc, where mk = mk and kind = kind and le = le and code = code]
    unfolding answers_below_def by (meson not_le)
  have False if "length input < Suc n" "read_geometry mk (Suc n) kind input = None" for input
    using that by (auto simp: read_geometry.simps(2) Let_def bindo_None split: if_splits
      dest!: read_number_shrinks read_srid_shrinks body)
  then show ?case unfolding answers_below_def by blast
qed (simp add: answers_below_def)

text \<open>Reading a value always ends: the depth that \<^const>\<open>decode_spatial\<close> passes is never exceeded.\<close>

lemma decode_spatial_answers: "decode_spatial mk columns kind \<noteq> None"
proof (cases columns)
  case (Cons c cs)
  have "read_geometry mk (Suc (length bs)) kind bs \<noteq> None" for bs
    using read_geometry_answers [of "Suc (length bs)" mk kind] unfolding answers_below_def by blast
  then show ?thesis
    unfolding decode_spatial_def Cons by (auto simp: bindo_None simp del: not_None_eq split: option.splits if_splits)
qed (simp add: decode_spatial_def)

text \<open>
  C33. EWKB round trip, for both spatial kinds. Let \<open>polygon_new\<close> be the constructor of polygons. A
  geometry of a supported shape whose counts fit 32 bits and whose polygons are as the constructor leaves
  them, with no SRID or one below \<open>2 ^ 31\<close>, is encoded, and decoding its slot gives the same geometry
  and SRID, also through the typed wrapper of its shape.
\<close>

theorem spatial_roundtrip:
  assumes "writable polygon_new (gv_into_geometry gv (spl_value v))" and "srid_ok (spl_srid v)"
    and "gv_try_from_geometry gv (gv_into_geometry gv (spl_value v)) = Inr (spl_value v)"
  shows "\<exists>bs. spatial_encode kind gv v = Some (Inr [Some bs])
    \<and> (\<forall>rest. spatial_decode polygon_new kind gv (Some bs # rest) = Some (Inr v))"
proof -
  let ?g = "gv_into_geometry gv (spl_value v)"
  obtain bs where bs: "write_geometry ?g (spl_srid v) True kind = Some (Inr bs)"
    using geometry_reads_back [OF assms(1,2), of 1 kind True] by (auto simp: reads_back_def)
  then have "bs \<noteq> []" by (auto simp: write_geometry.simps write_header_def elim!: bindo_SomeE)
  then have "0 < length bs" by simp
  from geometry_reads_back [OF assms(1,2) this, of kind True]
  have "\<forall>rest. read_geometry polygon_new (Suc (length bs)) kind (bs @ rest) = Some (Inr ((?g, spl_srid v), rest))"
    using bs by (auto simp: reads_back_def)
  from spec [OF this, of "[]"]
  have "read_geometry polygon_new (Suc (length bs)) kind bs = Some (Inr ((?g, spl_srid v), []))" by simp
  then show ?thesis
    using bs assms(3) by (auto simp: spatial_encode_def encode_spatial_def spatial_decode_def decode_spatial_def)
qed

text \<open>A constructor that closes rings the way the crate documents it.\<close>

definition close_ring :: "coord list \<Rightarrow> coord list" where
  "close_ring r = (if r \<noteq> [] \<and> hd r \<noteq> last r then r @ [hd r] else r)"

definition closing_polygon_new :: "coord list \<Rightarrow> coord list list \<Rightarrow> polygon" where
  "closing_polygon_new ext ints = Polygon (close_ring ext) (map close_ring ints)"

lemma close_ring_closed: "close_ring (close_ring r) = close_ring r"
  by (auto simp: close_ring_def)

theorem spatial_roundtrip_witness:
  "\<exists>bs. spatial_encode SpatialGeography multi_polygon_value
      (wgs84 [closing_polygon_new [(0, 0), (1, 0), (1, 1)] [[(2, 2), (3, 2), (3, 3)]]]) = Some (Inr [Some bs])
    \<and> (\<forall>rest. spatial_decode closing_polygon_new SpatialGeography multi_polygon_value (Some bs # rest)
          = Some (Inr (wgs84 [closing_polygon_new [(0, 0), (1, 0), (1, 1)] [[(2, 2), (3, 2), (3, 3)]]])))"
  by (rule spatial_roundtrip)
    (simp_all add: wgs84_def with_srid_def WGS84_def multi_polygon_value_def variant_value_def closing_polygon_new_def
      close_ring_def polygon_ok_def count_ok_def srid_ok_def)

section \<open>Values that are not read back\<close>

text \<open>An SRID of \<open>2 ^ 31\<close> or more is written, but its encoding is refused when it is read.\<close>

lemma large_srid_not_read:
  "\<exists>bs. spatial_encode kind point_value (with_srid (0, 0) 0x80000000) = Some (Inr [Some bs])
    \<and> spatial_decode mk kind point_value [Some bs] =
        Some (Inl (postgis_error kind (''negative SRIDs are not supported (got '' @ show_int (- 2147483648) @ '')'')))"
proof -
  have "spatial_encode kind point_value (with_srid (0, 0) 0x80000000) =
      Some (Inr [Some (write_header 1 (Some 0x80000000) True @ write_point (0, 0))])"
    by (simp add: spatial_encode_def point_value_def variant_value_def with_srid_def encode_spatial_def
      write_geometry.simps type_id_of_def wkb_defs)
  moreover have "wkb_read_u8 (1 # xs) = Inr (1, xs)" for xs by (simp add: wkb_read_u8_def read_exact_def)
  then have "read_geometry mk (Suc d) kind (write_header 1 (Some 0x80000000) True @ xs) =
      Some (Inl (postgis_error kind (''negative SRIDs are not supported (got '' @ show_int (- 2147483648) @ '')'')))" for d xs
    by (simp add: read_geometry.simps(2) write_header_def wkb_defs read_srid_def)
  ultimately show ?thesis
    by (simp add: spatial_decode_def decode_spatial_def)
qed

text \<open>
  The type of a member is checked only after the member has been read, so collections may be nested: a
  value of \<open>9 n\<close> bytes makes the reader call itself more than \<open>n\<close> times before it is refused.
\<close>

fun nested_payload :: "nat \<Rightarrow> bytes" where
  "nested_payload 0 = []"
| "nested_payload (Suc n) = write_header WKB_MULTIPOINT None False @ le_bytes 4 (1 :: u32) @ nested_payload n"

lemma length_nested_payload: "length (nested_payload n) = 9 * n"
  by (induction n) (simp_all add: write_header_def)

lemma nested_recursion: "depth \<le> n \<Longrightarrow> read_geometry mk depth kind (nested_payload n) = None"
proof (induction n arbitrary: depth)
  case (Suc n)
  show ?case
  proof (cases depth)
    case (Suc d)
    with Suc.prems Suc.IH [of d] show ?thesis
      by (simp add: read_header srid_ok_def wkb_defs read_body_def read_multi_def read_member_def wrap_def)
  qed simp
qed simp

end
