(* ===== verification/Codec_Range.thy ===== *)
theory Codec_Range
  imports Codec_Primitive
begin

text \<open>
  Ranges and multiranges of a scalar codec (\<open>codec/range.rs\<close>, \<open>codec/multirange.rs\<close>). The wire format of a
  range is written and read by the \<open>postgres-protocol\<close> crate: its three functions are parameters, and what
  the codecs rely on is the locale \<open>range_wire\<close>. The framing of a multirange is the repository's own.
\<close>

section \<open>Values\<close>

datatype 'a range_bound = RInclusive 'a | RExclusive 'a | RUnbounded

datatype 'a range = REmpty | RNonEmpty "'a range_bound" "'a range_bound"

text \<open>The types of the crate: a bound and a range, over what is known of the bytes of a bound.\<close>

datatype 'b pg_bound = PgInclusive 'b | PgExclusive 'b | PgUnbounded

datatype 'b pg_range = PgEmpty | PgNonempty "'b pg_bound" "'b pg_bound"

text \<open>
  \<open>rw_to_sql\<close> gets what the two closures leave: an error, or the kind of the bound with the bytes written
  for it. \<open>rw_from_sql\<close> gives the bytes of a bound, or none for a NULL.
\<close>

record range_protocol =
  rw_empty :: bytes
  rw_to_sql :: "str + bytes pg_bound \<Rightarrow> str + bytes pg_bound \<Rightarrow> str + bytes"
  rw_from_sql :: "bytes \<Rightarrow> str + bytes option pg_range"

section \<open>Ranges\<close>

definition binary_scalar_oid :: "'a codec \<Rightarrow> str \<Rightarrow> oid result" where
  "binary_scalar_oid c ctx =
     (if length (cd_oids c) \<noteq> 1 \<or> cd_n_columns c \<noteq> 1
      then Inl (Codec (ctx @ '': inner codec must be scalar (1 OID / 1 column)''))
      else
        (let format = (case cd_format_codes c of [] \<Rightarrow> FORMAT_TEXT | f # _ \<Rightarrow> f) in
         if format \<noteq> FORMAT_BINARY then Inl (Codec (ctx @ '': inner codec must use binary format''))
         else Inr (hd (cd_oids c))))"

definition range_oid_for_scalar :: "oid \<Rightarrow> oid option" where
  "range_oid_for_scalar e =
     (if e = INT4 then Some INT4_RANGE else if e = INT8 then Some INT8_RANGE else if e = NUMERIC then Some NUM_RANGE
      else if e = DATE then Some DATE_RANGE else if e = TIMESTAMP then Some TS_RANGE
      else if e = TIMESTAMPTZ then Some TSTZ_RANGE else None)"

definition container_oid :: "(oid \<Rightarrow> oid option) \<Rightarrow> 'a codec \<Rightarrow> oid" where
  "container_oid oid_for c =
     (let scalar_oid = (case cd_oids c of [] \<Rightarrow> 0 | e # _ \<Rightarrow> e) in
      case oid_for scalar_oid of None \<Rightarrow> 0 | Some e \<Rightarrow> e)"

definition null_bound :: error where
  "null_bound = Codec ''range: NULL bounds are invalid; use unbounded instead''"

definition range_encode_scalar :: "'a codec \<Rightarrow> 'a \<Rightarrow> bytes result" where
  "range_encode_scalar c v =
     bindr (cd_encode c v) (\<lambda>slots.
     if length slots \<noteq> 1 then Inl (Codec ''range: inner codec must produce exactly 1 parameter slot'')
     else (case hd slots of Some bs \<Rightarrow> Inr bs | None \<Rightarrow> Inl null_bound))"

definition encode_bound :: "'a codec \<Rightarrow> 'a range_bound \<Rightarrow> bytes pg_bound result" where
  "encode_bound c b =
     (case b of
        RUnbounded \<Rightarrow> Inr PgUnbounded
      | RInclusive v \<Rightarrow> map_sum id PgInclusive (range_encode_scalar c v)
      | RExclusive v \<Rightarrow> map_sum id PgExclusive (range_encode_scalar c v))"

definition encode_range_value :: "range_protocol \<Rightarrow> 'a codec \<Rightarrow> 'a range \<Rightarrow> bytes result" where
  "encode_range_value rw c r =
     (case r of
        REmpty \<Rightarrow> Inr (rw_empty rw)
      | RNonEmpty lower upper \<Rightarrow>
          map_err (\<lambda>e. Codec (''range: '' @ e))
            (rw_to_sql rw (map_err show_error (encode_bound c lower)) (map_err show_error (encode_bound c upper))))"

definition range_decode_scalar :: "'a codec \<Rightarrow> bytes \<Rightarrow> oid \<Rightarrow> 'a result" where
  "range_decode_scalar c bs expected_oid =
     (case cd_oids c of
        [] \<Rightarrow> Inl (Codec ''range: inner codec produced no OIDs'')
      | e # _ \<Rightarrow>
          if e \<noteq> expected_oid
          then Inl (Codec (''range: server element OID '' @ show_nat (unat expected_oid) @ '' does not match inner codec OID '' @ show_nat (unat e)))
          else cd_decode c [Some bs])"

definition decode_bound :: "'a codec \<Rightarrow> bytes option pg_bound \<Rightarrow> oid \<Rightarrow> 'a range_bound result" where
  "decode_bound c b expected_oid =
     (case b of
        PgUnbounded \<Rightarrow> Inr RUnbounded
      | PgInclusive (Some bs) \<Rightarrow> map_sum id RInclusive (range_decode_scalar c bs expected_oid)
      | PgExclusive (Some bs) \<Rightarrow> map_sum id RExclusive (range_decode_scalar c bs expected_oid)
      | _ \<Rightarrow> Inl null_bound)"

definition decode_range_value :: "range_protocol \<Rightarrow> 'a codec \<Rightarrow> bytes \<Rightarrow> oid \<Rightarrow> 'a range result" where
  "decode_range_value rw c bs expected_oid =
     bindr (map_err (\<lambda>e. Codec (''range: '' @ e)) (rw_from_sql rw bs)) (\<lambda>r.
     case r of
       PgEmpty \<Rightarrow> Inr REmpty
     | PgNonempty lower upper \<Rightarrow>
         bindr (decode_bound c lower expected_oid) (\<lambda>l.
         bindr (decode_bound c upper expected_oid) (\<lambda>u. Inr (RNonEmpty l u))))"

text \<open>The check that starts every method of both codecs.\<close>

definition inner_oid :: "str \<Rightarrow> (oid \<Rightarrow> oid option) \<Rightarrow> 'a codec \<Rightarrow> oid result" where
  "inner_oid ctx oid_for c =
     bindr (binary_scalar_oid c ctx) (\<lambda>element_oid.
     if container_oid oid_for c = 0
     then Inl (Codec (ctx @ '': unsupported inner OID '' @ show_nat (unat element_oid))) else Inr element_oid)"

definition container_column :: "str \<Rightarrow> raw_row \<Rightarrow> bytes result" where
  "container_column ctx columns =
     (case columns of
        [] \<Rightarrow> Inl (Codec (ctx @ '': decoder needs 1 column, got 0''))
      | None # _ \<Rightarrow> Inl (Codec (ctx @ '': unexpected NULL; use nullable() to allow it''))
      | Some bs # _ \<Rightarrow> Inr bs)"

definition container :: "oid \<Rightarrow> ('a \<Rightarrow> bytes result) \<Rightarrow> (raw_row \<Rightarrow> 'a result) \<Rightarrow> 'a codec" where
  "container o0 enc dec =
     \<lparr>cd_encode = (\<lambda>v. map_sum id (\<lambda>bs. [Some bs]) (enc v)), cd_decode = dec, cd_n_columns = 1, cd_oids = [o0],
      cd_types = types_for_oids [o0], cd_format_codes = [FORMAT_BINARY]\<rparr>"

definition range_codec :: "range_protocol \<Rightarrow> 'a codec \<Rightarrow> 'a range codec" where
  "range_codec rw c = container (container_oid range_oid_for_scalar c)
     (\<lambda>r. bindr (inner_oid ''range'' range_oid_for_scalar c) (\<lambda>_. encode_range_value rw c r))
     (\<lambda>columns. bindr (container_column ''range'' columns) (\<lambda>bs.
        bindr (inner_oid ''range'' range_oid_for_scalar c) (\<lambda>expected. decode_range_value rw c bs expected)))"

section \<open>Multiranges\<close>

definition multirange_oid_for_scalar :: "oid \<Rightarrow> oid option" where
  "multirange_oid_for_scalar e =
     (if e = INT4 then Some INT4_MULTIRANGE else if e = INT8 then Some INT8_MULTIRANGE
      else if e = NUMERIC then Some NUM_MULTIRANGE else if e = DATE then Some DATE_MULTIRANGE
      else if e = TIMESTAMP then Some TS_MULTIRANGE else if e = TIMESTAMPTZ then Some TSTZ_MULTIRANGE else None)"

definition i32_try_from :: "nat \<Rightarrow> str \<Rightarrow> i32 result" where
  "i32_try_from n m = (if int n < 2 ^ 31 then Inr (of_nat n) else Inl (Codec m))"

fun encode_ranges :: "range_protocol \<Rightarrow> 'a codec \<Rightarrow> 'a range list \<Rightarrow> bytes result" where
  "encode_ranges rw c [] = Inr []"
| "encode_ranges rw c (r # rs) =
     bindr (encode_range_value rw c r) (\<lambda>bs.
     bindr (i32_try_from (length bs) ''multirange: encoded range too large'') (\<lambda>len.
     bindr (encode_ranges rw c rs) (\<lambda>rest. Inr (be_bytes 4 len @ bs @ rest))))"

definition encode_multirange :: "range_protocol \<Rightarrow> 'a codec \<Rightarrow> 'a range list \<Rightarrow> bytes result" where
  "encode_multirange rw c rs =
     bindr (i32_try_from (length rs) ''multirange: too many ranges'') (\<lambda>count.
     bindr (encode_ranges rw c rs) (\<lambda>bs. Inr (be_bytes 4 count @ bs)))"

definition multirange_size_error :: error where
  "multirange_size_error = Codec ''multirange: invalid message size''"

text \<open>The loop over the embedded ranges; the bytes from the offset on are the argument.\<close>

fun decode_ranges :: "range_protocol \<Rightarrow> 'a codec \<Rightarrow> oid \<Rightarrow> nat \<Rightarrow> bytes \<Rightarrow> ('a range list \<times> bytes) result" where
  "decode_ranges rw c expected 0 bs = Inr ([], bs)"
| "decode_ranges rw c expected (Suc n) bs =
     (if length bs < 4 then Inl multirange_size_error
      else
        (let len = sint (of_be (take 4 bs) :: i32); bs = drop 4 bs in
         if len < 0 then Inl (Codec ''multirange: invalid embedded range size'')
         else if length bs < nat len then Inl multirange_size_error
         else
           bindr (decode_range_value rw c (take (nat len) bs) expected) (\<lambda>r.
           bindr (decode_ranges rw c expected n (drop (nat len) bs)) (\<lambda>(rs, rest). Inr (r # rs, rest)))))"

definition decode_multirange :: "range_protocol \<Rightarrow> 'a codec \<Rightarrow> oid \<Rightarrow> bytes \<Rightarrow> 'a range list result" where
  "decode_multirange rw c expected bs =
     (if length bs < 4 then Inl multirange_size_error
      else
        (let count = sint (of_be (take 4 bs) :: i32) in
         if count < 0 then Inl (Codec ''multirange: invalid range count'')
         else bindr (decode_ranges rw c expected (nat count) (drop 4 bs)) (\<lambda>(rs, rest).
           if rest \<noteq> [] then Inl multirange_size_error else Inr rs)))"

definition multirange_codec :: "range_protocol \<Rightarrow> 'a codec \<Rightarrow> 'a range list codec" where
  "multirange_codec rw c = container (container_oid multirange_oid_for_scalar c)
     (\<lambda>rs. bindr (inner_oid ''multirange'' multirange_oid_for_scalar c) (\<lambda>_. encode_multirange rw c rs))
     (\<lambda>columns. bindr (container_column ''multirange'' columns) (\<lambda>bs.
        bindr (inner_oid ''multirange'' multirange_oid_for_scalar c) (\<lambda>expected. decode_multirange rw c expected bs)))"

section \<open>Values that survive\<close>

text \<open>The inner codec has one binary column of the given OID.\<close>

definition scalar_inner :: "'a codec \<Rightarrow> oid \<Rightarrow> bool" where
  "scalar_inner c e \<longleftrightarrow> cd_oids c = [e] \<and> cd_n_columns c = 1 \<and> take 1 (cd_format_codes c) = [FORMAT_BINARY]"

fun bound_value :: "'a range_bound \<Rightarrow> 'a option" where
  "bound_value (RInclusive v) = Some v"
| "bound_value (RExclusive v) = Some v"
| "bound_value RUnbounded = None"

definition slot_fits :: "nat \<Rightarrow> raw_row result \<Rightarrow> bool" where
  "slot_fits n r = (case r of Inr slots \<Rightarrow> (case slots of [s] \<Rightarrow> (case s of Some bs \<Rightarrow> length bs \<le> n | None \<Rightarrow> False) | _ \<Rightarrow> False)
     | Inl _ \<Rightarrow> False)"

lemma slot_fitsE:
  assumes "slot_fits n r"
  obtains bs where "r = Inr [Some bs]" and "length bs \<le> n"
  using assms by (auto simp: slot_fits_def split: sum.splits list.splits option.splits)

text \<open>A bound is not NULL and is encoded in at most \<open>n\<close> bytes.\<close>

definition bound_valid :: "'a codec \<Rightarrow> ('a \<Rightarrow> bool) \<Rightarrow> nat \<Rightarrow> 'a range_bound \<Rightarrow> bool" where
  "bound_valid c valid n b =
     (case bound_value b of
        None \<Rightarrow> True
      | Some v \<Rightarrow> valid v \<and> slot_fits n (cd_encode c v))"

definition range_valid :: "'a codec \<Rightarrow> ('a \<Rightarrow> bool) \<Rightarrow> nat \<Rightarrow> 'a range \<Rightarrow> bool" where
  "range_valid c valid n r =
     (case r of REmpty \<Rightarrow> True | RNonEmpty l u \<Rightarrow> bound_valid c valid n l \<and> bound_valid c valid n u)"

lemma sint_of_nat_small: "int k < 2 ^ 31 \<Longrightarrow> sint (of_nat k :: i32) = int k"
  by (simp add: signed_of_nat signed_take_bit_int_eq_self)

lemma inner_oid_ok:
  assumes "scalar_inner c e" "oid_for e = Some o0" "o0 \<noteq> 0"
  shows "inner_oid ctx oid_for c = Inr e" and "container_oid oid_for c = o0"
  using assms
  by (cases "cd_format_codes c"; simp add: scalar_inner_def inner_oid_def binary_scalar_oid_def container_oid_def)+

section \<open>The contract of the wire functions\<close>

fun bound_size :: "bytes pg_bound \<Rightarrow> nat" where
  "bound_size (PgInclusive bs) = length bs"
| "bound_size (PgExclusive bs) = length bs"
| "bound_size PgUnbounded = 0"

fun map_bound :: "('b \<Rightarrow> 'c) \<Rightarrow> 'b pg_bound \<Rightarrow> 'c pg_bound" where
  "map_bound f (PgInclusive b) = PgInclusive (f b)"
| "map_bound f (PgExclusive b) = PgExclusive (f b)"
| "map_bound f PgUnbounded = PgUnbounded"

text \<open>Bounds of less than 2 GB each are written, in at most nine more bytes, and read back.\<close>

locale range_wire =
  fixes rw :: range_protocol
  assumes from_empty: "rw_from_sql rw (rw_empty rw) = Inr PgEmpty" and empty_size: "length (rw_empty rw) \<le> 9"
    and to_sql: "bound_size l < 2 ^ 31 \<Longrightarrow> bound_size u < 2 ^ 31 \<Longrightarrow>
      \<exists>bs. rw_to_sql rw (Inr l) (Inr u) = Inr bs \<and> length bs \<le> 9 + bound_size l + bound_size u
        \<and> rw_from_sql rw bs = Inr (PgNonempty (map_bound Some l) (map_bound Some u))"
begin

lemma bound_ok:
  assumes "codec_laws c valid" "bound_valid c valid n b" "cd_oids c = [e]" "int n < 2 ^ 31"
  shows "\<exists>pb. encode_bound c b = Inr pb \<and> bound_size pb \<le> n \<and> decode_bound c (map_bound Some pb) e = Inr b"
proof (cases "bound_value b")
  case None
  then have "b = RUnbounded" by (cases b) auto
  then show ?thesis by (auto simp: encode_bound_def decode_bound_def)
next
  case (Some v)
  then obtain bs where v: "valid v" "cd_encode c v = Inr [Some bs]" "length bs \<le> n"
    using assms(2) by (auto simp: bound_valid_def elim: slot_fitsE)
  have "cd_decode c [Some bs] = Inr v" using codec_laws.roundtrip [OF assms(1) v(1)] v(2) by simp
  then show ?thesis
    using Some v assms(3)
    by (cases b) (auto simp: encode_bound_def decode_bound_def range_encode_scalar_def range_decode_scalar_def)
qed

lemma range_value_ok:
  assumes "codec_laws c valid" "range_valid c valid n r" "cd_oids c = [e]" "int n < 2 ^ 31"
  shows "\<exists>bs. encode_range_value rw c r = Inr bs \<and> length bs \<le> 9 + 2 * n \<and> decode_range_value rw c bs e = Inr r"
proof (cases r)
  case REmpty
  then show ?thesis
    using empty_size from_empty by (auto simp: encode_range_value_def decode_range_value_def)
next
  case (RNonEmpty l u)
  obtain pl where l: "encode_bound c l = Inr pl" "bound_size pl \<le> n" "decode_bound c (map_bound Some pl) e = Inr l"
    using bound_ok [OF assms(1) _ assms(3,4)] assms(2) RNonEmpty by (auto simp: range_valid_def)
  obtain pu where u: "encode_bound c u = Inr pu" "bound_size pu \<le> n" "decode_bound c (map_bound Some pu) e = Inr u"
    using bound_ok [OF assms(1) _ assms(3,4)] assms(2) RNonEmpty by (auto simp: range_valid_def)
  obtain bs where "rw_to_sql rw (Inr pl) (Inr pu) = Inr bs" "length bs \<le> 9 + bound_size pl + bound_size pu"
    "rw_from_sql rw bs = Inr (PgNonempty (map_bound Some pl) (map_bound Some pu))"
    using to_sql [of pl pu] l(2) u(2) assms(4) by auto
  then show ?thesis
    using RNonEmpty l u by (auto simp: encode_range_value_def decode_range_value_def)
qed

lemma ranges_ok:
  assumes "codec_laws c valid" "list_all (range_valid c valid n) rs" "cd_oids c = [e]" "9 + 2 * int n < 2 ^ 31"
  shows "\<exists>bs. encode_ranges rw c rs = Inr bs \<and> (\<forall>rest. decode_ranges rw c e (length rs) (bs @ rest) = Inr (rs, rest))"
  using assms(2)
proof (induction rs)
  case (Cons r rs)
  have n: "int n < 2 ^ 31" using assms(4) by linarith
  obtain b where b: "encode_range_value rw c r = Inr b" "length b \<le> 9 + 2 * n" "decode_range_value rw c b e = Inr r"
    using range_value_ok [OF assms(1) _ assms(3) n] Cons.prems by auto
  obtain bs where bs: "encode_ranges rw c rs = Inr bs" "\<And>rest. decode_ranges rw c e (length rs) (bs @ rest) = Inr (rs, rest)"
    using Cons by auto
  have small: "int (length b) < 2 ^ 31" using b(2) assms(4) by linarith
  have len: "sint (of_be (be_bytes 4 (of_nat (length b) :: i32)) :: i32) = int (length b)"
    using small by (simp add: sint_of_nat_small)
  show ?case
    using b bs small len by (simp add: i32_try_from_def)
qed simp

lemma range_laws:
  assumes "codec_laws c valid" "scalar_inner c e" "range_oid_for_scalar e = Some o0" "o0 \<noteq> 0" "int n < 2 ^ 31"
  shows "codec_laws (range_codec rw c) (range_valid c valid n)"
proof
  fix r assume "range_valid c valid n r"
  then obtain bs where "encode_range_value rw c r = Inr bs" "decode_range_value rw c bs e = Inr r"
    using range_value_ok [OF assms(1) _ _ assms(5)] assms(2) by (auto simp: scalar_inner_def)
  then show "\<exists>slots. cd_encode (range_codec rw c) r = Inr slots \<and> length slots = cd_n_columns (range_codec rw c)
      \<and> (\<forall>rest. cd_decode (range_codec rw c) (slots @ rest) = Inr r)"
    using inner_oid_ok [of c e range_oid_for_scalar o0] assms(2-4) by (simp add: range_codec_def container_def container_column_def)
qed (simp_all add: range_codec_def container_def types_for_oids_def)

lemma multirange_laws:
  assumes "codec_laws c valid" "scalar_inner c e" "multirange_oid_for_scalar e = Some o0" "o0 \<noteq> 0" "9 + 2 * int n < 2 ^ 31"
  shows "codec_laws (multirange_codec rw c) (\<lambda>rs. int (length rs) < 2 ^ 31 \<and> list_all (range_valid c valid n) rs)"
proof
  fix rs assume rs: "int (length rs) < 2 ^ 31 \<and> list_all (range_valid c valid n) rs"
  then obtain bs where bs: "encode_ranges rw c rs = Inr bs" "\<And>rest. decode_ranges rw c e (length rs) (bs @ rest) = Inr (rs, rest)"
    using ranges_ok [OF assms(1) _ _ assms(5), of rs e] assms(2) by (auto simp: scalar_inner_def)
  have "sint (of_be (be_bytes 4 (of_nat (length rs) :: i32)) :: i32) = int (length rs)"
    using rs by (simp add: sint_of_nat_small)
  with bs(1) bs(2) [of "[]"] rs have "encode_multirange rw c rs = Inr (be_bytes 4 (of_nat (length rs) :: i32) @ bs)"
    "decode_multirange rw c e (be_bytes 4 (of_nat (length rs) :: i32) @ bs) = Inr rs"
    by (simp_all add: encode_multirange_def decode_multirange_def i32_try_from_def)
  then show "\<exists>slots. cd_encode (multirange_codec rw c) rs = Inr slots \<and> length slots = cd_n_columns (multirange_codec rw c)
      \<and> (\<forall>rest. cd_decode (multirange_codec rw c) (slots @ rest) = Inr rs)"
    using inner_oid_ok [of c e multirange_oid_for_scalar o0] assms(2-4) by (simp add: multirange_codec_def container_def container_column_def)
qed (simp_all add: multirange_codec_def container_def types_for_oids_def)

end

section \<open>The documented wire format\<close>

text \<open>
  The format PostgreSQL documents for a range: a byte of flags (empty 1, lower inclusive 2, upper inclusive 4,
  lower infinite 8, upper infinite 16), then every finite bound with its length in four bytes. It meets the
  contract, so the contract can hold.
\<close>

fun bound_flags :: "u8 \<Rightarrow> u8 \<Rightarrow> bytes pg_bound \<Rightarrow> u8" where
  "bound_flags incl endless (PgInclusive _) = incl"
| "bound_flags incl endless (PgExclusive _) = 0"
| "bound_flags incl endless PgUnbounded = endless"

fun bound_bytes :: "bytes pg_bound \<Rightarrow> bytes" where
  "bound_bytes (PgInclusive bs) = be_bytes 4 (of_nat (length bs) :: i32) @ bs"
| "bound_bytes (PgExclusive bs) = be_bytes 4 (of_nat (length bs) :: i32) @ bs"
| "bound_bytes PgUnbounded = []"

definition wire_bound :: "bool \<Rightarrow> bool \<Rightarrow> bytes \<Rightarrow> str + bytes option pg_bound \<times> bytes" where
  "wire_bound incl endless bs =
     (if endless then Inr (PgUnbounded, bs)
      else if length bs < 4 then Inl ''invalid buffer length''
      else
        (let len = sint (of_be (take 4 bs) :: i32); bs = drop 4 bs;
             kind = (if incl then PgInclusive else PgExclusive) in
         if len < 0 then Inr (kind None, bs)
         else if length bs < nat len then Inl ''invalid buffer length''
         else Inr (kind (Some (take (nat len) bs)), drop (nat len) bs)))"

definition documented_to_sql :: "str + bytes pg_bound \<Rightarrow> str + bytes pg_bound \<Rightarrow> str + bytes" where
  "documented_to_sql lower upper =
     bindr lower (\<lambda>l. bindr upper (\<lambda>u.
       if int (bound_size l) < 2 ^ 31 \<and> int (bound_size u) < 2 ^ 31
       then Inr ((bound_flags 2 8 l + bound_flags 4 16 u) # bound_bytes l @ bound_bytes u)
       else Inl ''value too large to transmit''))"

definition documented_from_sql :: "bytes \<Rightarrow> str + bytes option pg_range" where
  "documented_from_sql bs =
     (case bs of
        [] \<Rightarrow> Inl ''invalid message size''
      | tag # bs \<Rightarrow>
          if bit tag 0 then (if bs \<noteq> [] then Inl ''invalid message size'' else Inr PgEmpty)
          else
            bindr (wire_bound (bit tag 1) (bit tag 3) bs) (\<lambda>(l, bs).
            bindr (wire_bound (bit tag 2) (bit tag 4) bs) (\<lambda>(u, bs).
            if bs \<noteq> [] then Inl ''invalid message size'' else Inr (PgNonempty l u))))"

definition documented_wire :: range_protocol where
  "documented_wire = \<lparr>rw_empty = [1], rw_to_sql = documented_to_sql, rw_from_sql = documented_from_sql\<rparr>"

fun is_inclusive :: "'b pg_bound \<Rightarrow> bool" where
  "is_inclusive (PgInclusive _) = True"
| "is_inclusive _ = False"

fun is_unbounded :: "'b pg_bound \<Rightarrow> bool" where
  "is_unbounded PgUnbounded = True"
| "is_unbounded _ = False"

lemma wire_bound_bytes:
  assumes "int (bound_size b) < 2 ^ 31"
  shows "wire_bound (is_inclusive b) (is_unbounded b) (bound_bytes b @ rest) = Inr (map_bound Some b, rest)"
  using assms by (cases b) (simp_all add: wire_bound_def sint_of_nat_small)

lemma flag_bits:
  assumes "tag = bound_flags 2 8 l + bound_flags 4 16 u"
  shows "\<not> bit tag 0" and "bit tag 1 = is_inclusive l" and "bit tag 3 = is_unbounded l"
    and "bit tag 2 = is_inclusive u" and "bit tag 4 = is_unbounded u"
  unfolding assms by (cases l; cases u; simp; code_simp)+

lemma bound_bytes_length: "length (bound_bytes b) \<le> 4 + bound_size b"
  by (cases b) simp_all

lemma documented_bounds:
  assumes "bound_size l < 2 ^ 31" "bound_size u < 2 ^ 31"
  shows "\<exists>bs. documented_to_sql (Inr l) (Inr u) = Inr bs \<and> length bs \<le> 9 + bound_size l + bound_size u
    \<and> documented_from_sql bs = Inr (PgNonempty (map_bound Some l) (map_bound Some u))"
proof -
  define tag where "tag = bound_flags 2 8 l + bound_flags 4 16 u"
  note bits = flag_bits [OF tag_def]
  have small: "int (bound_size l) < 2 ^ 31" "int (bound_size u) < 2 ^ 31" using assms by simp_all
  then have "documented_to_sql (Inr l) (Inr u) = Inr (tag # bound_bytes l @ bound_bytes u)"
    by (simp add: documented_to_sql_def tag_def)
  moreover have "documented_from_sql (tag # bound_bytes l @ bound_bytes u) =
      Inr (PgNonempty (map_bound Some l) (map_bound Some u))"
    using wire_bound_bytes [OF small(1)] wire_bound_bytes [OF small(2), of "[]"]
    unfolding documented_from_sql_def list.case bits by (simp add: bits del: One_nat_def)
  ultimately show ?thesis using bound_bytes_length [of l] bound_bytes_length [of u] by simp
qed

interpretation documented: range_wire documented_wire
  by unfold_locales (use documented_bounds in \<open>simp_all add: documented_wire_def documented_from_sql_def\<close>)

section \<open>Properties\<close>

text \<open>
  Multiranges survive the wire. Over wire functions that keep their contract, and a lawful inner codec of
  one binary column whose OID has a multirange type, a multirange whose ranges have bounds encoded in at most
  \<open>n\<close> bytes is sent in one binary slot of the multirange's OID and read back as it was: empty ranges, open and
  closed bounds and missing bounds included, in their order.
\<close>

theorem multirange_roundtrip:
  assumes "range_wire rw" "codec_laws c valid" "scalar_inner c e" "multirange_oid_for_scalar e = Some o0" "o0 \<noteq> 0"
    and "9 + 2 * int n < 2 ^ 31" "int (length rs) < 2 ^ 31" "list_all (range_valid c valid n) rs"
  shows "cd_oids (multirange_codec rw c) = [o0]
    \<and> (\<exists>bs. cd_encode (multirange_codec rw c) rs = Inr [Some bs] \<and> cd_decode (multirange_codec rw c) [Some bs] = Inr rs)"
proof -
  have laws: "codec_laws (multirange_codec rw c) (\<lambda>rs. int (length rs) < 2 ^ 31 \<and> list_all (range_valid c valid n) rs)"
    by (rule range_wire.multirange_laws [OF assms(1-6)])
  have oid: "cd_oids (multirange_codec rw c) = [o0]"
    using inner_oid_ok [of c e multirange_oid_for_scalar o0] assms(3-5) by (simp add: multirange_codec_def container_def)
  obtain slots where "cd_encode (multirange_codec rw c) rs = Inr slots" "\<And>rest. cd_decode (multirange_codec rw c) (slots @ rest) = Inr rs"
    using codec_laws.encodesE [OF laws, of rs] assms(7,8) by blast
  moreover from this(1) obtain bs where "slots = [Some bs]"
    by (auto simp: multirange_codec_def container_def map_sum_def split: sum.splits)
  ultimately have "cd_encode (multirange_codec rw c) rs = Inr [Some bs]" "cd_decode (multirange_codec rw c) [Some bs] = Inr rs"
    by (simp, metis append_Nil2)
  with oid show ?thesis by blast
qed

theorem multirange_roundtrip_witness:
  "\<exists>bs. cd_encode (multirange_codec documented_wire int4) [RNonEmpty (RInclusive 3) (RExclusive 7), REmpty, RNonEmpty RUnbounded (RInclusive 9)] = Inr [Some bs]
    \<and> cd_decode (multirange_codec documented_wire int4) [Some bs] = Inr [RNonEmpty (RInclusive 3) (RExclusive 7), REmpty, RNonEmpty RUnbounded (RInclusive 9)]"
proof -
  have "scalar_inner int4 INT4" by (simp add: scalar_inner_def int4_def scalar_def)
  moreover have "multirange_oid_for_scalar INT4 = Some INT4_MULTIRANGE" by (simp add: multirange_oid_for_scalar_def)
  moreover have "INT4_MULTIRANGE \<noteq> 0" by (simp add: INT4_MULTIRANGE_def)
  moreover have "list_all (range_valid int4 (\<lambda>_. True) 4) [RNonEmpty (RInclusive 3) (RExclusive 7), REmpty, RNonEmpty RUnbounded (RInclusive 9)]"
    by (simp add: range_valid_def bound_valid_def slot_fits_def int4_def scalar_def)
  ultimately show ?thesis
    using multirange_roundtrip [OF documented.range_wire_axioms int4.codec_laws_axioms, of INT4 INT4_MULTIRANGE 4] by simp
qed

end
