(* ===== verification/Codec_Array.thy ===== *)
theory Codec_Array
  imports Codec_Range
begin

text \<open>
  Arrays of a scalar codec (\<open>codec/array.rs\<close>). As for ranges, the wire format is written and read by the
  \<open>postgres-protocol\<close> crate, a parameter with the contract \<open>array_wire\<close>; the shape of an array, its check
  and the element codec are the repository's.
\<close>

section \<open>Values and their shape\<close>

record array_dimension =
  ad_len :: i32
  ad_lower_bound :: i32

record 'a pg_array =
  ar_dimensions :: "array_dimension list"
  ar_values :: "'a list"

text \<open>The loop over the dimensions, with \<open>checked_mul\<close> on a \<open>usize\<close> of 64 bits.\<close>

fun declared_elements :: "nat \<Rightarrow> array_dimension list \<Rightarrow> nat result" where
  "declared_elements expected [] = Inr expected"
| "declared_elements expected (d # ds) =
     (if sint (ad_len d) < 0 then Inl (Codec ''array: dimension length cannot be negative'')
      else
        (let product = expected * nat (sint (ad_len d)) in
         if int product < 2 ^ 64 then declared_elements product ds
         else Inl (Codec ''array: too many elements for declared dimensions'')))"

definition validate_shape :: "array_dimension list \<Rightarrow> nat \<Rightarrow> unit result" where
  "validate_shape dims value_len =
     (if dims = [] then
        (if value_len \<noteq> 0 then Inl (Codec ''array: zero-dimensional arrays must not carry element values'') else Inr ())
      else
        bindr (declared_elements 1 dims) (\<lambda>expected.
        if expected \<noteq> value_len
        then Inl (Codec (''array: shape declares '' @ show_nat expected @ '' elements, got '' @ show_nat value_len))
        else Inr ()))"

definition array_new :: "array_dimension list \<Rightarrow> 'a list \<Rightarrow> 'a pg_array result" where
  "array_new dims vs =
     bindr (validate_shape dims (length vs)) (\<lambda>_. Inr \<lparr>ar_dimensions = dims, ar_values = vs\<rparr>)"

text \<open>\<open>None\<close> is the panic of \<open>expect\<close>.\<close>

definition array_from_vec :: "'a list \<Rightarrow> 'a pg_array option" where
  "array_from_vec vs =
     (if vs = [] then Some \<lparr>ar_dimensions = [], ar_values = vs\<rparr>
      else if int (length vs) < 2 ^ 31
      then Some \<lparr>ar_dimensions = [\<lparr>ad_len = of_nat (length vs), ad_lower_bound = 1\<rparr>], ar_values = vs\<rparr>
      else None)"

section \<open>The codec\<close>

text \<open>
  What \<open>array_from_sql\<close> returns: the element type and two lazy iterators, each the items it gives and the
  error it may end with. \<open>aw_to_sql\<close> gets what the element closure leaves for every value: an error, or the
  bytes written, none for a NULL.
\<close>

record wire_array =
  wa_element_type :: oid
  wa_dimensions :: "array_dimension list \<times> str option"
  wa_values :: "bytes option list \<times> str option"

record array_protocol =
  aw_to_sql :: "array_dimension list \<Rightarrow> oid \<Rightarrow> (str + bytes option) list \<Rightarrow> str + bytes"
  aw_from_sql :: "bytes \<Rightarrow> str + wire_array"

definition array_oid_for_scalar :: "oid \<Rightarrow> oid option" where
  "array_oid_for_scalar e = map_of
     [(BOOL, BOOL_ARRAY), (BYTEA, BYTEA_ARRAY), (INT2, INT2_ARRAY), (INT4, INT4_ARRAY), (TEXT, TEXT_ARRAY),
      (INT8, INT8_ARRAY), (FLOAT4, FLOAT4_ARRAY), (FLOAT8, FLOAT8_ARRAY), (VARCHAR, VARCHAR_ARRAY),
      (BPCHAR, BPCHAR_ARRAY), (INET, INET_ARRAY), (CIDR, CIDR_ARRAY), (DATE, DATE_ARRAY), (TIME, TIME_ARRAY),
      (TIMESTAMP, TIMESTAMP_ARRAY), (TIMESTAMPTZ, TIMESTAMPTZ_ARRAY), (INTERVAL, INTERVAL_ARRAY), (UUID, UUID_ARRAY)] e"

definition array_encode_scalar :: "'a codec \<Rightarrow> 'a \<Rightarrow> bytes option result" where
  "array_encode_scalar c v =
     bindr (cd_encode c v) (\<lambda>slots.
     if length slots \<noteq> 1 then Inl (Codec ''array: inner codec must produce exactly 1 parameter slot'')
     else Inr (hd slots))"

definition array_error :: "str \<Rightarrow> error" where
  "array_error e = Codec (''array: '' @ e)"

definition encode_array :: "array_protocol \<Rightarrow> 'a codec \<Rightarrow> 'a pg_array \<Rightarrow> bytes result" where
  "encode_array aw c v =
     bindr (validate_shape (ar_dimensions v) (length (ar_values v))) (\<lambda>_.
     bindr (inner_oid ''array'' array_oid_for_scalar c) (\<lambda>element_oid.
     map_err array_error
       (aw_to_sql aw (ar_dimensions v) element_oid
          (map (\<lambda>item. map_err show_error (array_encode_scalar c item)) (ar_values v)))))"

text \<open>The loop over the elements: each is decoded as it is read, and the error of the iterator comes last.\<close>

fun decode_elements :: "'a codec \<Rightarrow> bytes option list \<Rightarrow> str option \<Rightarrow> 'a list result" where
  "decode_elements c [] failure = (case failure of None \<Rightarrow> Inr [] | Some e \<Rightarrow> Inl (array_error e))"
| "decode_elements c (cell # cells) failure =
     bindr (cd_decode c [cell]) (\<lambda>v. bindr (decode_elements c cells failure) (\<lambda>vs. Inr (v # vs)))"

definition decode_array :: "array_protocol \<Rightarrow> 'a codec \<Rightarrow> raw_row \<Rightarrow> 'a pg_array result" where
  "decode_array aw c columns =
     bindr (container_column ''array'' columns) (\<lambda>bs.
     bindr (map_err array_error (aw_from_sql aw bs)) (\<lambda>a.
     bindr (inner_oid ''array'' array_oid_for_scalar c) (\<lambda>expected.
     if wa_element_type a \<noteq> expected
     then Inl (Codec (''array: server element OID '' @ show_nat (unat (wa_element_type a)) @
            '' does not match inner codec OID '' @ show_nat (unat expected)))
     else
       bindr (case snd (wa_dimensions a) of None \<Rightarrow> Inr (fst (wa_dimensions a)) | Some e \<Rightarrow> Inl (array_error e)) (\<lambda>dims.
       bindr (decode_elements c (fst (wa_values a)) (snd (wa_values a))) (\<lambda>vs. array_new dims vs)))))"

definition array_codec :: "array_protocol \<Rightarrow> 'a codec \<Rightarrow> 'a pg_array codec" where
  "array_codec aw c = container (container_oid array_oid_for_scalar c) (encode_array aw c) (decode_array aw c)"

section \<open>Well-shaped arrays\<close>

text \<open>The invariant of the type: the values fill the dimensions. Every product on the way fits a \<open>usize\<close>.\<close>

definition well_shaped :: "'a pg_array \<Rightarrow> bool" where
  "well_shaped a \<longleftrightarrow> validate_shape (ar_dimensions a) (length (ar_values a)) = Inr ()"

definition lens :: "array_dimension list \<Rightarrow> int list" where
  "lens dims = map (\<lambda>d. sint (ad_len d)) dims"

lemma declared_elements_iff:
  "declared_elements m dims = Inr n \<longleftrightarrow>
     (\<forall>l \<in> set (lens dims). 0 \<le> l) \<and> int n = int m * prod_list (lens dims)
     \<and> (\<forall>k \<in> {1..length dims}. int m * prod_list (take k (lens dims)) < 2 ^ 64)"
proof (induction dims arbitrary: m)
  case Nil
  then show ?case by (auto simp: lens_def)
next
  case (Cons d ds)
  define l where "l = sint (ad_len d)"
  have split: "(\<forall>k \<in> {1..length (d # ds)}. int m * prod_list (take k (lens (d # ds))) < 2 ^ 64) \<longleftrightarrow>
      int m * l < 2 ^ 64 \<and> (\<forall>k \<in> {1..length ds}. int m * l * prod_list (take k (lens ds)) < 2 ^ 64)"
  proof -
    have "{1..length (d # ds)} = insert 1 (Suc ` {1..length ds})"
      by (auto simp: image_Suc_atLeastAtMost)
    then show ?thesis by (simp add: lens_def l_def mult.assoc del: image_Suc_atLeastAtMost)
  qed
  show ?case
  proof (cases "l < 0")
    case True
    then show ?thesis by (auto simp: l_def lens_def)
  next
    case False
    have "m * nat l < 18446744073709551616 \<longleftrightarrow> int m * l < 18446744073709551616"
      using False zless_nat_eq_int_zless [of "m * nat l" 18446744073709551616] by (simp add: zless_nat_conj)
    then show ?thesis
      using False Cons.IH [of "m * nat l"] unfolding split
      by (auto simp: l_def lens_def Let_def mult.assoc)
  qed
qed

text \<open>The constructors give well-shaped arrays, and so does the decoder: an array off the wire fills its dimensions.\<close>

lemma array_new_shaped: "array_new dims vs = Inr a \<Longrightarrow> well_shaped a"
  by (auto simp: array_new_def well_shaped_def bindr_def split: sum.splits)

lemma array_from_vec_shaped: "array_from_vec vs = Some a \<Longrightarrow> well_shaped a"
  by (auto simp: array_from_vec_def well_shaped_def validate_shape_def sint_of_nat_small split: if_splits)

lemma decode_array_shaped:
  assumes "cd_decode (array_codec aw c) columns = Inr a"
  shows "well_shaped a"
  using assms by (auto simp: array_codec_def container_def decode_array_def bindr_def
      dest: array_new_shaped split: sum.splits if_splits)

text \<open>The overflow of the product is an error, not a wrap-around.\<close>

lemma shape_overflow:
  "d = \<lparr>ad_len = 2147483647, ad_lower_bound = 1\<rparr> \<Longrightarrow> validate_shape [d, d, d] n =
     Inl (Codec ''array: too many elements for declared dimensions'')"
  by (simp add: validate_shape_def)

section \<open>The contract of the wire functions\<close>

text \<open>
  What PostgreSQL reads back: the number of elements, multiplied up over the dimensions, stays a positive
  \<open>i32\<close> at every step, and so does the size of every element.
\<close>

definition wire_shape :: "array_dimension list \<Rightarrow> bytes option list \<Rightarrow> bool" where
  "wire_shape dims cells \<longleftrightarrow>
     list_all (\<lambda>l. 0 \<le> l) (lens dims) \<and> int (length dims) < 2 ^ 31
     \<and> list_all (\<lambda>k. prod_list (take k (lens dims)) < 2 ^ 31) [0..<Suc (length dims)]
     \<and> int (length cells) = (if dims = [] then 0 else prod_list (lens dims))
     \<and> list_all (\<lambda>cell. case cell of None \<Rightarrow> True | Some bs \<Rightarrow> int (length bs) < 2 ^ 31) cells"

locale array_wire =
  fixes aw :: array_protocol
  assumes wire_roundtrip: "wire_shape dims cells \<Longrightarrow>
    \<exists>bs. aw_to_sql aw dims e (map Inr cells) = Inr bs
      \<and> aw_from_sql aw bs = Inr \<lparr>wa_element_type = e, wa_dimensions = (dims, None), wa_values = (cells, None)\<rparr>"

definition slot_of :: "'a codec \<Rightarrow> 'a \<Rightarrow> bytes option" where
  "slot_of c v = (case cd_encode c v of Inr slots \<Rightarrow> hd slots | Inl _ \<Rightarrow> None)"

text \<open>An array whose values the inner codec keeps and whose cells PostgreSQL reads.\<close>

definition array_valid :: "'a codec \<Rightarrow> ('a \<Rightarrow> bool) \<Rightarrow> 'a pg_array \<Rightarrow> bool" where
  "array_valid c valid a \<longleftrightarrow>
     list_all valid (ar_values a) \<and> wire_shape (ar_dimensions a) (map (slot_of c) (ar_values a))"

lemma wire_shape_validates:
  assumes "wire_shape dims cells"
  shows "validate_shape dims (length cells) = Inr ()"
proof (cases "dims = []")
  case False
  have "prod_list (take k (lens dims)) < 2 ^ 64" if "k \<le> length dims" for k
  proof -
    have "prod_list (take k (lens dims)) < 2 ^ 31"
      using assms that by (auto simp: wire_shape_def list_all_iff le_imp_less_Suc simp del: upt_Suc)
    then show ?thesis by simp
  qed
  then have "declared_elements 1 dims = Inr (length cells)"
    using assms False by (simp add: declared_elements_iff wire_shape_def list_all_iff del: upt_Suc)
  then show ?thesis using False by (simp add: validate_shape_def)
qed (use assms in \<open>simp add: wire_shape_def validate_shape_def\<close>)

lemma scalar_slot:
  assumes "codec_laws c valid" "cd_n_columns c = 1" "valid v"
  shows "array_encode_scalar c v = Inr (slot_of c v)" and "cd_decode c [slot_of c v] = Inr v"
proof -
  obtain slots where s: "cd_encode c v = Inr slots" "length slots = 1" "\<And>rest. cd_decode c (slots @ rest) = Inr v"
    using codec_laws.encodesE [OF assms(1,3)] assms(2) by metis
  then obtain s where "slots = [s]" by (auto simp: length_Suc_conv)
  then show "array_encode_scalar c v = Inr (slot_of c v)" "cd_decode c [slot_of c v] = Inr v"
    using s(1) s(3) [of "[]"] by (simp_all add: array_encode_scalar_def slot_of_def)
qed

lemma elements_slots:
  assumes "codec_laws c valid" "cd_n_columns c = 1" "list_all valid vs"
  shows "map (\<lambda>v. map_err show_error (array_encode_scalar c v)) vs = map Inr (map (slot_of c) vs)"
    and "decode_elements c (map (slot_of c) vs) None = Inr vs"
  using assms(3) by (induction vs) (simp_all add: scalar_slot [OF assms(1,2)])

context array_wire
begin

lemma array_laws:
  assumes "codec_laws c valid" "scalar_inner c e" "array_oid_for_scalar e = Some o0" "o0 \<noteq> 0"
  shows "codec_laws (array_codec aw c) (array_valid c valid)"
proof
  fix a assume a: "array_valid c valid a"
  define cells where "cells = map (slot_of c) (ar_values a)"
  have oid: "inner_oid ''array'' array_oid_for_scalar c = Inr e" "cd_n_columns c = 1"
    using inner_oid_ok [of c e array_oid_for_scalar o0] assms(2-4) by (simp_all add: scalar_inner_def)
  have shape: "wire_shape (ar_dimensions a) cells" and vals: "list_all valid (ar_values a)"
    using a by (simp_all add: array_valid_def cells_def)
  note elems = elements_slots [OF assms(1) oid(2) vals, folded cells_def]
  obtain bs where bs: "aw_to_sql aw (ar_dimensions a) e (map Inr cells) = Inr bs"
    "aw_from_sql aw bs = Inr \<lparr>wa_element_type = e, wa_dimensions = (ar_dimensions a, None), wa_values = (cells, None)\<rparr>"
    using wire_roundtrip [OF shape] by blast
  have ok: "validate_shape (ar_dimensions a) (length (ar_values a)) = Inr ()"
    using wire_shape_validates [OF shape] by (simp add: cells_def)
  then have "encode_array aw c a = Inr bs" "decode_array aw c (Some bs # rest) = Inr a" for rest
    using bs elems oid by (simp_all add: encode_array_def decode_array_def array_new_def container_column_def)
  then show "\<exists>slots. cd_encode (array_codec aw c) a = Inr slots \<and> length slots = cd_n_columns (array_codec aw c)
      \<and> (\<forall>rest. cd_decode (array_codec aw c) (slots @ rest) = Inr a)"
    by (simp add: array_codec_def container_def)
qed (simp_all add: array_codec_def container_def types_for_oids_def)

end

section \<open>The documented wire format\<close>

text \<open>
  The format PostgreSQL documents for an array: the number of dimensions, a flag for NULLs, the element type,
  the length and the lower bound of every dimension, then every element with its length, \<open>-1\<close> for a NULL.
\<close>

definition cell_bytes :: "bytes option \<Rightarrow> bytes" where
  "cell_bytes cell =
     (case cell of None \<Rightarrow> be_bytes 4 (- 1 :: i32) | Some bs \<Rightarrow> be_bytes 4 (of_nat (length bs) :: i32) @ bs)"

definition dimension_bytes :: "array_dimension \<Rightarrow> bytes" where
  "dimension_bytes d = be_bytes 4 (ad_len d) @ be_bytes 4 (ad_lower_bound d)"

fun all_cells :: "(str + bytes option) list \<Rightarrow> str + bytes option list" where
  "all_cells [] = Inr []"
| "all_cells (r # rs) = bindr r (\<lambda>cell. bindr (all_cells rs) (\<lambda>cells. Inr (cell # cells)))"

definition documented_array_to_sql :: "array_dimension list \<Rightarrow> oid \<Rightarrow> (str + bytes option) list \<Rightarrow> str + bytes" where
  "documented_array_to_sql dims e rs =
     bindr (all_cells rs) (\<lambda>cells.
     Inr (be_bytes 4 (of_nat (length dims) :: i32) @ be_bytes 4 (of_bool (None \<in> set cells) :: i32) @ be_bytes 4 e
       @ concat (map dimension_bytes dims) @ concat (map cell_bytes cells)))"

fun read_dimensions :: "nat \<Rightarrow> bytes \<Rightarrow> str + array_dimension list \<times> bytes" where
  "read_dimensions 0 bs = Inr ([], bs)"
| "read_dimensions (Suc n) bs =
     (if length bs < 8 then Inl ''invalid buffer length''
      else bindr (read_dimensions n (drop 8 bs)) (\<lambda>(ds, rest).
        Inr (\<lparr>ad_len = of_be (take 4 bs), ad_lower_bound = of_be (take 4 (drop 4 bs))\<rparr> # ds, rest)))"

fun read_cells :: "nat \<Rightarrow> bytes \<Rightarrow> bytes option list \<times> str option" where
  "read_cells 0 bs = ([], if bs = [] then None else Some ''invalid message length: arrayvalue not drained'')"
| "read_cells (Suc n) bs =
     (if length bs < 4 then ([], Some ''invalid buffer length'')
      else
        (let len = sint (of_be (take 4 bs) :: i32); bs = drop 4 bs in
         if len < 0 then (let (cells, e) = read_cells n bs in (None # cells, e))
         else if length bs < nat len then ([], Some ''invalid buffer length'')
         else (let (cells, e) = read_cells n (drop (nat len) bs) in (Some (take (nat len) bs) # cells, e))))"

definition documented_array_from_sql :: "bytes \<Rightarrow> str + wire_array" where
  "documented_array_from_sql bs =
     (if length bs < 12 then Inl ''invalid buffer length''
      else
        (let n = sint (of_be (take 4 bs) :: i32) in
         if n < 0 then Inl ''invalid dimension count''
         else
           bindr (read_dimensions (nat n) (drop 12 bs)) (\<lambda>(dims, rest).
           Inr \<lparr>wa_element_type = of_be (take 4 (drop 8 bs)), wa_dimensions = (dims, None),
             wa_values = read_cells (if dims = [] then 0 else nat (prod_list (lens dims))) rest\<rparr>)))"

definition documented_array :: array_protocol where
  "documented_array = \<lparr>aw_to_sql = documented_array_to_sql, aw_from_sql = documented_array_from_sql\<rparr>"

lemma all_cells_map [simp]: "all_cells (map Inr cells) = Inr cells"
  by (induction cells) simp_all

lemma read_dimensions_bytes:
  "read_dimensions (length dims) (concat (map dimension_bytes dims) @ rest) = Inr (dims, rest)"
  by (induction dims) (simp_all add: dimension_bytes_def)

lemma read_cells_bytes:
  assumes "list_all (\<lambda>cell. case cell of None \<Rightarrow> True | Some bs \<Rightarrow> int (length bs) < 2 ^ 31) cells"
  shows "read_cells (length cells) (concat (map cell_bytes cells)) = (cells, None)"
  using assms
proof (induction cells)
  case (Cons cell cells)
  then show ?case by (cases cell) (simp_all add: cell_bytes_def sint_of_nat_small)
qed simp

lemma documented_array_roundtrip:
  assumes "wire_shape dims cells"
  shows "\<exists>bs. documented_array_to_sql dims e (map Inr cells) = Inr bs
    \<and> documented_array_from_sql bs = Inr \<lparr>wa_element_type = e, wa_dimensions = (dims, None), wa_values = (cells, None)\<rparr>"
proof -
  have count: "(if dims = [] then 0 else nat (prod_list (lens dims))) = length cells"
    using assms by (auto simp: wire_shape_def simp del: upt_Suc split: if_splits)
  have n: "sint (of_nat (length dims) :: i32) = int (length dims)"
    using assms by (simp add: wire_shape_def sint_of_nat_small)
  have cells: "read_cells (length cells) (concat (map cell_bytes cells)) = (cells, None)"
    using assms by (intro read_cells_bytes) (simp add: wire_shape_def)
  have "documented_array_from_sql (be_bytes 4 (of_nat (length dims) :: i32) @ be_bytes 4 (of_bool (None \<in> set cells) :: i32) @ be_bytes 4 e
      @ concat (map dimension_bytes dims) @ concat (map cell_bytes cells)) =
      Inr \<lparr>wa_element_type = e, wa_dimensions = (dims, None), wa_values = (cells, None)\<rparr>"
    unfolding documented_array_from_sql_def
    by (simp add: n read_dimensions_bytes count [simplified] cells cong: if_cong)
  then show ?thesis unfolding documented_array_to_sql_def by simp
qed

interpretation documented: array_wire documented_array
  by unfold_locales (use documented_array_roundtrip in \<open>simp add: documented_array_def\<close>)

section \<open>Properties\<close>



end
