(* ===== verification/Codec_Extension.thy ===== *)
theory Codec_Extension
  imports Codec_Range
begin

text \<open>
  The codecs of extension and text-search types whose values are the repository's own: \<open>pgvector\<close> vectors
  (\<open>codec/pgvector.rs\<close>), \<open>tsvector\<close> and \<open>tsquery\<close> (\<open>codec/text_search.rs\<close>), \<open>citext\<close> (\<open>codec/citext.rs\<close>). A float
  is its bit pattern and the decimal parser of the standard library is a parameter.
\<close>

section \<open>Vectors\<close>

type_synonym vector = "u32 list"

definition is_finite :: "u32 \<Rightarrow> bool" where
  "is_finite v \<longleftrightarrow> take_bit 8 (drop_bit 23 v) \<noteq> 255"

fun validate_from :: "nat \<Rightarrow> u32 list \<Rightarrow> unit result" where
  "validate_from index [] = Inr ()"
| "validate_from index (v # vs) =
     (if \<not> is_finite v then Inl (Codec (''vector: element '' @ show_nat index @ '' is not finite''))
      else validate_from (Suc index) vs)"

definition validate_values :: "u32 list \<Rightarrow> unit result" where
  "validate_values vs =
     (if vs = [] then Inl (Codec ''vector: pgvector values must contain at least 1 dimension'') else validate_from 0 vs)"

definition vector_new :: "u32 list \<Rightarrow> vector result" where
  "vector_new vs = bindr (validate_values vs) (\<lambda>_. Inr vs)"

definition encode_vector :: "vector \<Rightarrow> bytes result" where
  "encode_vector v =
     bindr (validate_values v) (\<lambda>_.
     if length v < 2 ^ 15
     then Inr (be_bytes 2 (of_nat (length v) :: i16) @ be_bytes 2 (0 :: i16) @ concat (map (be_bytes 4) v))
     else Inl (Codec ''vector: too many dimensions for binary encoding''))"

fun chunks4 :: "bytes \<Rightarrow> bytes list" where
  "chunks4 (a # b # c # d # bs) = [a, b, c, d] # chunks4 bs"
| "chunks4 _ = []"

definition parse_binary_vector :: "bytes \<Rightarrow> vector result" where
  "parse_binary_vector bs =
     (if length bs < 4 then Inl (Codec (''vector: binary value too short ('' @ show_nat (length bs) @ '' bytes)''))
      else
        (let dims = sint (of_be (take 2 bs) :: i16); unused = sint (of_be (take 2 (drop 2 bs)) :: i16) in
         if dims \<le> 0 then Inl (Codec (''vector: binary dimension count must be positive, got '' @ show_int dims))
         else if unused \<noteq> 0
         then Inl (Codec (''vector: expected unused header field to be 0, got '' @ show_int unused))
         else
           (let expected_len = 4 + nat dims * 4 in
            if length bs \<noteq> expected_len
            then Inl (Codec (''vector: binary length mismatch, header says '' @ show_nat (nat dims) @ '' dims ('' @
                   show_nat expected_len @ '' bytes) but value has '' @ show_nat (length bs) @ '' bytes''))
            else vector_new (map of_be (chunks4 (drop 4 bs))))))"

definition vector_syntax :: "str \<Rightarrow> error" where
  "vector_syntax t = Codec (''vector: invalid text representation '' @ debug_str t)"

fun parse_parts :: "(str \<Rightarrow> str + u32) \<Rightarrow> str \<Rightarrow> str list \<Rightarrow> u32 list result" where
  "parse_parts parse t [] = Inr []"
| "parse_parts parse t (p # ps) =
     (let part = trim p in
      if part = [] then Inl (vector_syntax t)
      else
        bindr (map_err (\<lambda>e. Codec (''vector: '' @ e @ '' (got '' @ debug_str part @ '')'')) (parse part)) (\<lambda>v.
        bindr (parse_parts parse t ps) (\<lambda>vs. Inr (v # vs))))"

definition parse_text_vector :: "(str \<Rightarrow> str + u32) \<Rightarrow> bytes \<Rightarrow> vector result" where
  "parse_text_vector parse bs =
     bindr (map_err (\<lambda>e. Codec (''vector: '' @ show_utf8_error e)) (from_utf8 bs)) (\<lambda>s.
     let t = trim s in
     case Option.bind (strip_prefix ''['' t) (strip_suffix '']'') of
       None \<Rightarrow> Inl (vector_syntax t)
     | Some inner \<Rightarrow> bindr (parse_parts parse t (split_on (CHR '','') inner)) vector_new)"

definition decode_vector :: "(str \<Rightarrow> str + u32) \<Rightarrow> raw_row \<Rightarrow> vector result" where
  "decode_vector parse columns =
     bindr (container_column ''vector'' columns) (\<lambda>bs.
     if take 1 bs = as_bytes ''['' then parse_text_vector parse bs else parse_binary_vector bs)"

definition VECTOR_TYPE :: pg_type where
  "VECTOR_TYPE = type_extension ''vector'' ''vector''"

definition vector_codec :: "(str \<Rightarrow> str + u32) \<Rightarrow> vector codec" where
  "vector_codec parse = (container 0 encode_vector (decode_vector parse))\<lparr>cd_types := [VECTOR_TYPE]\<rparr>"

section \<open>Text search and citext\<close>

definition text_search_str :: "str \<Rightarrow> raw_row \<Rightarrow> str result" where
  "text_search_str type_name columns = bindr (container_column type_name columns) (utf8_column type_name)"

definition tsvector :: "str codec" where
  "tsvector = (scalar TSVECTOR FORMAT_TEXT as_bytes (text_search_str ''tsvector''))\<lparr>cd_format_codes := []\<rparr>"

definition tsquery :: "str codec" where
  "tsquery = (scalar TSQUERY FORMAT_TEXT as_bytes (text_search_str ''tsquery''))\<lparr>cd_format_codes := []\<rparr>"

definition CITEXT_TYPE :: pg_type where
  "CITEXT_TYPE = type_extension ''citext'' ''citext''"

definition citext :: "str codec" where
  "citext = (scalar 0 FORMAT_TEXT as_bytes (text_search_str ''citext''))\<lparr>cd_types := [CITEXT_TYPE]\<rparr>"

lemma text_search_laws:
  assumes "c = scalar o0 FORMAT_TEXT as_bytes (text_search_str t)"
  shows "codec_laws c valid_str"
  unfolding assms by (rule scalar_laws) (simp add: text_search_str_def container_column_def utf8_column_def)

text \<open>The contract does not mention the format codes, nor which types the codec names.\<close>

lemma codec_laws_types: "codec_laws c valid \<Longrightarrow> length ts = length (cd_types c) \<Longrightarrow> codec_laws (c\<lparr>cd_types := ts\<rparr>) valid"
  by (simp add: codec_laws_def)

lemma codec_laws_formats: "codec_laws c valid \<Longrightarrow> codec_laws (c\<lparr>cd_format_codes := fs\<rparr>) valid"
  by (simp add: codec_laws_def)

interpretation tsvector: codec_laws tsvector valid_str
  unfolding tsvector_def by (intro codec_laws_formats text_search_laws [OF refl])

interpretation tsquery: codec_laws tsquery valid_str
  unfolding tsquery_def by (intro codec_laws_formats text_search_laws [OF refl])

interpretation citext: codec_laws citext valid_str
  unfolding citext_def by (intro codec_laws_types text_search_laws [OF refl]) (simp add: scalar_def types_for_oids_def)

section \<open>Vectors off the wire\<close>

lemma validate_from_ok: "validate_from k vs = Inr () \<longleftrightarrow> list_all is_finite vs"
  by (induction vs arbitrary: k) auto

lemma validate_values_ok: "validate_values vs = Inr () \<longleftrightarrow> vs \<noteq> [] \<and> list_all is_finite vs"
  by (simp add: validate_values_def validate_from_ok)

lemma vector_new_ok: "vector_new vs = Inr v \<longleftrightarrow> v = vs \<and> vs \<noteq> [] \<and> list_all is_finite vs"
  using validate_values_ok [of vs] by (cases "validate_values vs") (auto simp: vector_new_def)

text \<open>Whatever the bytes are, a decoded vector is not empty and holds finite numbers only.\<close>

lemma vector_newD: "vector_new vs = Inr v \<Longrightarrow> v \<noteq> [] \<and> list_all is_finite v"
  by (auto simp: vector_new_ok)

lemma bindr_vector_new: "bindr r vector_new = Inr v \<Longrightarrow> v \<noteq> [] \<and> list_all is_finite v"
  by (cases r) (auto simp: vector_new_ok)

lemma binary_vector_finite: "parse_binary_vector bs = Inr v \<Longrightarrow> v \<noteq> [] \<and> list_all is_finite v"
  unfolding parse_binary_vector_def Let_def
  by (simp only: sum.distinct split: if_split_asm) (erule vector_newD)

lemma text_vector_finite: "parse_text_vector parse bs = Inr v \<Longrightarrow> v \<noteq> [] \<and> list_all is_finite v"
  unfolding parse_text_vector_def Let_def
  by (cases "from_utf8 bs") (simp_all add: bindr_vector_new split: option.splits)

lemma decode_vector_finite: "decode_vector parse columns = Inr v \<Longrightarrow> v \<noteq> [] \<and> list_all is_finite v"
  unfolding decode_vector_def
  by (cases "container_column ''vector'' columns")
    (simp_all add: binary_vector_finite text_vector_finite split: if_splits)

lemma chunks4_be: "chunks4 (concat (map (be_bytes 4) (v :: u32 list))) = map (be_bytes 4) v"
proof (induction v)
  case (Cons x xs)
  obtain a b c d where "be_bytes 4 x = [a, b, c, d]"
    by (simp add: be_bytes_def nat_bytes_4)
  with Cons show ?case by simp
qed simp

text \<open>
  The decoder tells text from binary by the first byte. The high byte of a dimension count from 23296 to 23551
  is the code of the bracket, so those vectors are taken for text; all others of at most 32767 dimensions come
  back. PostgreSQL accepts at most 16000 dimensions.
\<close>

definition bracket_count :: "nat \<Rightarrow> bool" where
  "bracket_count n \<longleftrightarrow> n div 256 = 91"

definition vector_valid :: "vector \<Rightarrow> bool" where
  "vector_valid v \<longleftrightarrow> v \<noteq> [] \<and> list_all is_finite v \<and> length v < 2 ^ 15 \<and> \<not> bracket_count (length v)"

lemma binary_vector_ok:
  assumes "v \<noteq> []" "list_all is_finite v" "length v < 2 ^ 15"
  shows "parse_binary_vector (be_bytes 2 (of_nat (length v) :: i16) @ be_bytes 2 (0 :: i16) @ concat (map (be_bytes 4) v)) = Inr v"
proof -
  have "sint (of_nat (length v) :: i16) = int (length v)"
    using assms(3) by (simp add: signed_of_nat signed_take_bit_int_eq_self)
  moreover have "length (concat (map (be_bytes 4) v)) = 4 * length v"
    by (simp add: length_concat comp_def sum_list_triv)
  moreover have "map of_be (chunks4 (concat (map (be_bytes 4) v))) = v"
    unfolding chunks4_be by (simp add: comp_def)
  ultimately show ?thesis
    using assms by (simp add: parse_binary_vector_def vector_new_ok)
qed

lemma numeral_unat_91: "unat (w :: byte) = 91 \<longleftrightarrow> w = 91"
  using word_unat_eq_iff [of w 91] by simp

lemma count_head:
  assumes "n < 2 ^ 15"
  shows "take 1 (be_bytes 2 (of_nat n :: i16)) = as_bytes ''['' \<longleftrightarrow> bracket_count n"
proof -
  have two: "(2 :: nat) = Suc (Suc 0)" by simp
  have "unat (of_nat n :: i16) = n" using assms by (simp add: unat_of_nat)
  then have "take 1 (be_bytes 2 (of_nat n :: i16)) = [of_nat (n div 256)]"
    unfolding be_bytes_def two by simp
  moreover have "(of_nat (n div 256) :: byte) = 91 \<longleftrightarrow> n div 256 = 91"
  proof -
    have "unat (of_nat (n div 256) :: byte) = n div 256"
      using assms by (simp add: unat_of_nat)
    then show ?thesis by (metis numeral_unat_91)
  qed
  ultimately show ?thesis by (simp add: bracket_count_def as_bytes_def byte_of_def)
qed

lemma vector_laws: "codec_laws (vector_codec parse) vector_valid"
proof
  fix v assume v: "vector_valid v"
  define bs where "bs = be_bytes 2 (of_nat (length v) :: i16) @ be_bytes 2 (0 :: i16) @ concat (map (be_bytes 4) v)"
  have "encode_vector v = Inr bs"
    using v validate_values_ok [of v] by (simp add: encode_vector_def vector_valid_def bs_def)
  moreover have "take 1 bs \<noteq> as_bytes ''[''"
    using v count_head [of "length v"] by (simp add: bs_def vector_valid_def)
  moreover have "parse_binary_vector bs = Inr v"
    using v binary_vector_ok [of v] by (simp add: bs_def vector_valid_def)
  ultimately show "\<exists>slots. cd_encode (vector_codec parse) v = Inr slots \<and> length slots = cd_n_columns (vector_codec parse)
      \<and> (\<forall>rest. cd_decode (vector_codec parse) (slots @ rest) = Inr v)"
    by (simp add: vector_codec_def container_def decode_vector_def container_column_def)
qed (simp_all add: vector_codec_def container_def)

interpretation vector: codec_laws "vector_codec parse" vector_valid for parse
  by (rule vector_laws)

lemma bracket_vector_taken_for_text:
  assumes "bracket_count (length v)" "v \<noteq> []" "list_all is_finite v" "length v < 2 ^ 15"
  shows "\<exists>bs. cd_encode (vector_codec parse) v = Inr [Some bs]
    \<and> cd_decode (vector_codec parse) [Some bs] = parse_text_vector parse bs"
  using assms validate_values_ok [of v] count_head [of "length v"]
  by (simp add: vector_codec_def container_def encode_vector_def decode_vector_def container_column_def)

section \<open>Vectors in text\<close>

lemma split_on_join:
  assumes "list_all (\<lambda>p. CHR '','' \<notin> set p) (p # ps)"
  shows "split_on (CHR '','') (p @ concat (map (\<lambda>q. CHR '','' # q) ps)) = p # ps"
  using assms
proof (induction ps arbitrary: p)
  case Nil
  then show ?case by (induction p) auto
next
  case (Cons q qs)
  from Cons.prems have "split_on (CHR '','') (concat (map (\<lambda>q. CHR '','' # q) (q # qs))) = [] # q # qs"
    using Cons.IH [of q] by simp
  with Cons.prems show ?case by (induction p) auto
qed

lemma parse_parts_ok:
  assumes "list_all2 (\<lambda>p v. trim p \<noteq> [] \<and> parse (trim p) = Inr v) ps vs"
  shows "parse_parts parse t ps = Inr vs"
  using assms by (induction rule: list_all2_induct) simp_all

text \<open>Numbers separated by commas between brackets are read one by one, spaces around them included.\<close>

lemma text_vector_read:
  assumes "s = ''['' @ p @ concat (map (\<lambda>q. CHR '','' # q) ps) @ '']''" and "valid_str s" "trim s = s"
    and "list_all (\<lambda>p. CHR '','' \<notin> set p) (p # ps)"
    and "list_all2 (\<lambda>p v. trim p \<noteq> [] \<and> parse (trim p) = Inr v) (p # ps) vs" and "list_all is_finite vs"
  shows "cd_decode (vector_codec parse) [Some (as_bytes s)] = Inr vs"
proof -
  define body where "body = p @ concat (map (\<lambda>q. CHR '','' # q) ps)"
  have s: "s = ''['' @ body @ '']''" by (simp add: assms(1) body_def)
  have "Option.bind (strip_prefix ''['' s) (strip_suffix '']'') = Some body"
    by (simp add: s strip_prefix_def strip_suffix_def)
  moreover have "parse_parts parse s (split_on (CHR '','') body) = Inr vs"
    unfolding body_def split_on_join [OF assms(4)] by (rule parse_parts_ok) (rule assms(5))
  moreover have "vs \<noteq> []" using assms(5) by auto
  ultimately have "parse_text_vector parse (as_bytes s) = Inr vs"
    using assms(2,3,6) by (simp add: parse_text_vector_def vector_new_ok)
  moreover have "take 1 (as_bytes s) = as_bytes ''[''" by (simp add: s as_bytes_def)
  ultimately show ?thesis by (simp add: vector_codec_def container_def decode_vector_def container_column_def)
qed

end
