(* ===== verification/Codec_Foreign.thy ===== *)
theory Codec_Foreign
  imports Codec_Extension
begin

text \<open>
  The codecs of values that belong to other crates: UUIDs (\<open>codec/uuid.rs\<close>), JSON (\<open>codec/json.rs\<close>), network
  addresses (\<open>codec/net.rs\<close>) and decimal numbers (\<open>codec/numeric.rs\<close>). The functions of those crates are
  parameters; the contract \<open>wire_value\<close> is that reading undoes writing.
\<close>

section \<open>A writer and its reader\<close>

locale wire_value =
  fixes put :: "'a \<Rightarrow> bytes" and get :: "bytes \<Rightarrow> 'e + 'a" and valid :: "'a \<Rightarrow> bool"
  assumes get_put: "valid v \<Longrightarrow> get (put v) = Inr v"
begin

text \<open>A codec that writes with the one and reads with the other keeps the contract of codecs.\<close>

lemma value_laws:
  assumes "\<And>v. enc v = put v" "\<And>bs rest. dec (Some bs # rest) = map_err f (get bs)"
  shows "codec_laws (scalar o0 format enc dec) valid"
  by (rule scalar_laws) (simp add: assms get_put)

end

text \<open>The integers in network order are such a pair.\<close>

definition read_word :: "nat \<Rightarrow> bytes \<Rightarrow> str + 'w::len word" where
  "read_word n bs = (if length bs = n then Inr (of_be bs) else Inl ''invalid buffer size'')"

interpretation be32: wire_value "be_bytes 4" "read_word 4 :: bytes \<Rightarrow> str + i32" "\<lambda>_. True"
  by unfold_locales (simp add: read_word_def)

interpretation be64: wire_value "be_bytes 8" "read_word 8 :: bytes \<Rightarrow> str + i64" "\<lambda>_. True"
  by unfold_locales (simp add: read_word_def)

section \<open>UUIDs\<close>

text \<open>A UUID is its sixteen bytes.\<close>

record uuid_crate =
  uc_to_sql :: "bytes \<Rightarrow> bytes"
  uc_from_sql :: "bytes \<Rightarrow> str + bytes"
  uc_parse :: "str \<Rightarrow> str + bytes"

definition uuid_decode :: "uuid_crate \<Rightarrow> raw_row \<Rightarrow> bytes result" where
  "uuid_decode u columns =
     bindr (container_column ''uuid'' columns) (\<lambda>bs.
     if length bs = 16 then map_err (\<lambda>e. Codec (''uuid: '' @ e)) (uc_from_sql u bs)
     else
       bindr (utf8_column ''uuid'' bs) (\<lambda>s.
       map_err (\<lambda>e. Codec (''uuid: '' @ e @ '' (got '' @ debug_str s @ '')'')) (uc_parse u s)))"

definition uuid_codec :: "uuid_crate \<Rightarrow> bytes codec" where
  "uuid_codec u = scalar UUID FORMAT_BINARY (uc_to_sql u) (uuid_decode u)"

lemma uuid_laws:
  assumes "wire_value (uc_to_sql u) (uc_from_sql u) (\<lambda>v. length v = 16)"
    and "\<And>v. length v = 16 \<Longrightarrow> length (uc_to_sql u v) = 16"
  shows "codec_laws (uuid_codec u) (\<lambda>v. length v = 16)"
  unfolding uuid_codec_def
  by (rule scalar_laws) (simp add: uuid_decode_def container_column_def assms(2) wire_value.get_put [OF assms(1)])

text \<open>Text is read as well, and a text of sixteen bytes is not text.\<close>

lemma uuid_reads_text:
  assumes "valid_str s" "length s \<noteq> 16"
  shows "cd_decode (uuid_codec u) [Some (as_bytes s)] =
    map_err (\<lambda>e. Codec (''uuid: '' @ e @ '' (got '' @ debug_str s @ '')'')) (uc_parse u s)"
  using assms by (simp add: uuid_codec_def scalar_def uuid_decode_def container_column_def utf8_column_def)

section \<open>JSON\<close>

record 'v json_crate =
  jc_to_vec :: "'v \<Rightarrow> str + bytes"
  jc_from_slice :: "bytes \<Rightarrow> str + 'v"

definition decode_json :: "'v json_crate \<Rightarrow> str \<Rightarrow> raw_row \<Rightarrow> 'v result" where
  "decode_json j kind columns =
     bindr (container_column kind columns) (\<lambda>bs. map_err (\<lambda>e. Codec (kind @ '': '' @ e)) (jc_from_slice j bs))"

definition json_of_kind :: "str \<Rightarrow> oid \<Rightarrow> 'v json_crate \<Rightarrow> 'v codec" where
  "json_of_kind kind o0 j =
     (container o0 (\<lambda>v. map_err (\<lambda>e. Codec (kind @ '': '' @ e)) (jc_to_vec j v)) (decode_json j kind))\<lparr>cd_format_codes := [FORMAT_TEXT]\<rparr>"

definition json_codec :: "'v json_crate \<Rightarrow> 'v codec" where
  "json_codec = json_of_kind ''json'' JSON"

definition jsonb_codec :: "'v json_crate \<Rightarrow> 'v codec" where
  "jsonb_codec = json_of_kind ''jsonb'' JSONB"

definition typed_json :: "'v json_crate \<Rightarrow> 'v codec" where
  "typed_json = json_of_kind ''typed jsonb'' JSONB"

definition typed_json_text :: "'v json_crate \<Rightarrow> 'v codec" where
  "typed_json_text = json_of_kind ''typed json'' JSON"

text \<open>The values that serialise and whose serialisation is read back as they were.\<close>

definition json_valid :: "'v json_crate \<Rightarrow> 'v \<Rightarrow> bool" where
  "json_valid j v = (case jc_to_vec j v of Inl _ \<Rightarrow> False | Inr bs \<Rightarrow> (case jc_from_slice j bs of Inl _ \<Rightarrow> False | Inr w \<Rightarrow> w = v))"

lemma json_laws: "codec_laws (json_of_kind kind o0 j) (json_valid j)"
  unfolding json_of_kind_def
  by (rule codec_laws_formats, unfold_locales)
    (auto simp: container_def types_for_oids_def json_valid_def decode_json_def container_column_def split: sum.splits)

interpretation json: codec_laws "json_codec j" "json_valid j" for j
  unfolding json_codec_def by (rule json_laws)

interpretation jsonb: codec_laws "jsonb_codec j" "json_valid j" for j
  unfolding jsonb_codec_def by (rule json_laws)

interpretation typed_json: codec_laws "typed_json j" "json_valid j" for j
  unfolding typed_json_def by (rule json_laws)

interpretation typed_json_text: codec_laws "typed_json_text j" "json_valid j" for j
  unfolding typed_json_text_def by (rule json_laws)

section \<open>Network addresses\<close>

datatype ip_addr = V4 bytes | V6 bytes

record net_crate =
  nc_to_sql :: "ip_addr \<Rightarrow> u8 \<Rightarrow> bytes"
  nc_from_sql :: "bytes \<Rightarrow> str + ip_addr \<times> u8"
  nc_show :: "ip_addr \<Rightarrow> str"

fun host_mask :: "ip_addr \<Rightarrow> u8" where
  "host_mask (V4 _) = 32"
| "host_mask (V6 _) = 128"

definition encode_host :: "net_crate \<Rightarrow> ip_addr \<Rightarrow> bytes" where
  "encode_host n v = nc_to_sql n v (host_mask v)"

definition decode_host :: "net_crate \<Rightarrow> str \<Rightarrow> raw_row \<Rightarrow> ip_addr result" where
  "decode_host n kind columns =
     bindr (container_column kind columns) (\<lambda>bs.
     bindr (map_err (\<lambda>e. Codec (kind @ '': '' @ e)) (nc_from_sql n bs)) (\<lambda>(addr, netmask).
     if netmask \<noteq> host_mask addr
     then Inl (Codec (kind @ '': '' @ nc_show n addr @ ''/'' @ show_nat (unat netmask) @
            '' is not a host address; IpAddr codecs require a full-width netmask''))
     else Inr addr))"

definition inet :: "net_crate \<Rightarrow> ip_addr codec" where
  "inet n = scalar INET FORMAT_BINARY (encode_host n) (decode_host n ''inet'')"

definition cidr :: "net_crate \<Rightarrow> ip_addr codec" where
  "cidr n = scalar CIDR FORMAT_BINARY (encode_host n) (decode_host n ''cidr'')"

lemma host_laws:
  assumes "wire_value (\<lambda>(a, m). nc_to_sql n a m) (nc_from_sql n) (\<lambda>(a, m). valid a)"
  shows "codec_laws (scalar o0 FORMAT_BINARY (encode_host n) (decode_host n kind)) valid"
proof (rule scalar_laws)
  fix v rest assume "valid v"
  then have "nc_from_sql n (nc_to_sql n v (host_mask v)) = Inr (v, host_mask v)"
    using wire_value.get_put [OF assms, of "(v, host_mask v)"] by simp
  then show "decode_host n kind (Some (encode_host n v) # rest) = Inr v"
    by (simp add: encode_host_def decode_host_def container_column_def)
qed

text \<open>A network, and a host with a shorter mask, is refused rather than cut down to its address.\<close>

lemma network_refused:
  assumes "nc_from_sql n bs = Inr (a, m)" "m \<noteq> host_mask a"
  shows "\<exists>e. cd_decode (cidr n) [Some bs] = Inl (Codec e)"
  using assms by (simp add: cidr_def scalar_def decode_host_def container_column_def)

section \<open>Decimal numbers\<close>

text \<open>\<open>dc_to_string\<close> is \<open>normalize().to_string()\<close>, which drops trailing zeros.\<close>

record 'd decimal_crate =
  dc_to_string :: "'d \<Rightarrow> str"
  dc_parse :: "str \<Rightarrow> str + 'd"

definition numeric_decode :: "'d decimal_crate \<Rightarrow> raw_row \<Rightarrow> 'd result" where
  "numeric_decode d columns =
     bindr (container_column ''numeric'' columns) (\<lambda>bs.
     bindr (utf8_column ''numeric'' bs) (\<lambda>s.
     map_err (\<lambda>e. Codec (''numeric: '' @ e @ '' (got '' @ debug_str s @ '')'')) (dc_parse d s)))"

definition numeric :: "'d decimal_crate \<Rightarrow> 'd codec" where
  "numeric d = scalar NUMERIC FORMAT_TEXT (\<lambda>v. as_bytes (dc_to_string d v)) (numeric_decode d)"

lemma numeric_laws:
  assumes "\<And>v. valid v \<Longrightarrow> dc_parse d (dc_to_string d v) = Inr v" "\<And>v. valid v \<Longrightarrow> valid_str (dc_to_string d v)"
  shows "codec_laws (numeric d) valid"
  unfolding numeric_def
  by (rule scalar_laws) (simp add: assms numeric_decode_def container_column_def utf8_column_def)

text \<open>
  The decimal codec is a text codec, so the range and multirange codecs refuse it, although they have OIDs for
  ranges of numbers: every value of \<open>numrange\<close> is an error.
\<close>

lemma numeric_ranges_refused:
  "range_oid_for_scalar NUMERIC = Some NUM_RANGE"
  "cd_encode (range_codec rw (numeric d)) r = Inl (Codec ''range: inner codec must use binary format'')"
  "cd_encode (multirange_codec rw (numeric d)) rs = Inl (Codec ''multirange: inner codec must use binary format'')"
  by (simp_all add: range_oid_for_scalar_def oid_defs range_codec_def multirange_codec_def container_def numeric_def scalar_def
      inner_oid_def binary_scalar_oid_def FORMAT_TEXT_def FORMAT_BINARY_def)

end
