(* ===== verification/Codec_Temporal.thy ===== *)
theory Codec_Temporal
  imports Codec_Foreign
begin

text \<open>
  Dates, times and timestamps (\<open>codec/time.rs\<close> for the \<open>time\<close> crate, \<open>codec/chrono.rs\<close> for \<open>chrono\<close>). The
  calendars of the two crates are parameters: how many days or microseconds lie between a value and the
  PostgreSQL epoch (the start of the year 2000), and the value so far from the epoch. The additions of both
  crates panic when the result is out of their range; a decoder therefore returns an option, \<open>None\<close> being
  the panic. The wire functions are those of \<open>postgres-protocol\<close>.
\<close>

record temporal_wire =
  tw_date_to_sql :: "i32 \<Rightarrow> bytes"
  tw_date_from_sql :: "bytes \<Rightarrow> str + i32"
  tw_time_to_sql :: "i64 \<Rightarrow> bytes"
  tw_time_from_sql :: "bytes \<Rightarrow> str + i64"
  tw_timestamp_to_sql :: "i64 \<Rightarrow> bytes"
  tw_timestamp_from_sql :: "bytes \<Rightarrow> str + i64"

text \<open>Between a value and the epoch: days for a date, microseconds for a timestamp.\<close>

record 'd calendar =
  ca_since_epoch :: "'d \<Rightarrow> int"
  ca_from_epoch :: "int \<Rightarrow> 'd option"

definition fits :: "nat \<Rightarrow> int \<Rightarrow> bool" where
  "fits w i \<longleftrightarrow> - (2 ^ (w - 1)) \<le> i \<and> i < 2 ^ (w - 1)"

definition type_error :: "str \<Rightarrow> str \<Rightarrow> error" where
  "type_error type_name e = Codec (type_name @ '': '' @ e)"

section \<open>Dates and timestamps\<close>

text \<open>The two crates differ in the names in their errors only.\<close>

definition date_encode :: "temporal_wire \<Rightarrow> 'd calendar \<Rightarrow> str \<Rightarrow> 'd \<Rightarrow> raw_row result" where
  "date_encode tw cal type_name v =
     (let days = ca_since_epoch cal v in
      if fits 32 days then Inr [Some (tw_date_to_sql tw (word_of_int days))]
      else Inl (Codec (type_name @ '' out of Postgres range'')))"

definition date_decode :: "temporal_wire \<Rightarrow> 'd calendar \<Rightarrow> str \<Rightarrow> raw_row \<Rightarrow> 'd result option" where
  "date_decode tw cal type_name columns =
     (case bindr (container_column type_name columns) (\<lambda>bs. map_err (type_error type_name) (tw_date_from_sql tw bs)) of
        Inl e \<Rightarrow> Some (Inl e)
      | Inr days \<Rightarrow> map_option Inr (ca_from_epoch cal (sint days)))"

definition timestamp_encode :: "temporal_wire \<Rightarrow> 'd calendar \<Rightarrow> str \<Rightarrow> 'd \<Rightarrow> raw_row result" where
  "timestamp_encode tw cal type_name v =
     (let micros = ca_since_epoch cal v in
      if fits 64 micros then Inr [Some (tw_timestamp_to_sql tw (word_of_int micros))]
      else Inl (Codec (type_name @ '' out of Postgres range'')))"

definition timestamp_decode :: "temporal_wire \<Rightarrow> 'd calendar \<Rightarrow> str \<Rightarrow> raw_row \<Rightarrow> 'd result option" where
  "timestamp_decode tw cal type_name columns =
     (case bindr (container_column type_name columns) (\<lambda>bs. map_err (type_error type_name) (tw_timestamp_from_sql tw bs)) of
        Inl e \<Rightarrow> Some (Inl e)
      | Inr micros \<Rightarrow> map_option Inr (ca_from_epoch cal (sint micros)))"

text \<open>A timestamp with an offset is taken to UTC first, so what comes back is the same instant in UTC.\<close>

definition timestamptz_encode :: "temporal_wire \<Rightarrow> 'd calendar \<Rightarrow> ('z \<Rightarrow> 'd) \<Rightarrow> str \<Rightarrow> 'z \<Rightarrow> raw_row result" where
  "timestamptz_encode tw cal to_utc type_name v = timestamp_encode tw cal type_name (to_utc v)"

section \<open>Times of day\<close>

text \<open>The remainder of Rust has the sign of the dividend.\<close>

definition rust_rem :: "int \<Rightarrow> int \<Rightarrow> int" where
  "rust_rem a b = sgn a * (\<bar>a\<bar> mod \<bar>b\<bar>)"

record 't clock =
  ck_hour :: "'t \<Rightarrow> u8"
  ck_minute :: "'t \<Rightarrow> u8"
  ck_second :: "'t \<Rightarrow> u8"
  ck_nanosecond :: "'t \<Rightarrow> u32"
  ck_from_hms_nano :: "u8 \<Rightarrow> u8 \<Rightarrow> u8 \<Rightarrow> u32 \<Rightarrow> str + 't"

definition time_micros :: "'t clock \<Rightarrow> 't \<Rightarrow> int" where
  "time_micros ck t =
     int (unat (ck_hour ck t)) * 3600000000 + int (unat (ck_minute ck t)) * 60000000
     + int (unat (ck_second ck t)) * 1000000 + int (unat (ck_nanosecond ck t) div 1000)"

definition time_encode :: "temporal_wire \<Rightarrow> 't clock \<Rightarrow> 't \<Rightarrow> raw_row result" where
  "time_encode tw ck t = Inr [Some (tw_time_to_sql tw (word_of_int (time_micros ck t)))]"

definition try_unsigned :: "nat \<Rightarrow> error \<Rightarrow> int \<Rightarrow> 'w::len word result" where
  "try_unsigned w e i = (if 0 \<le> i \<and> i < 2 ^ w then Inr (word_of_int i) else Inl e)"

definition time_decode :: "temporal_wire \<Rightarrow> 't clock \<Rightarrow> raw_row \<Rightarrow> 't result" where
  "time_decode tw ck columns =
     bindr (container_column ''time::Time'' columns) (\<lambda>bs.
     bindr (map_err (type_error ''time::Time'') (tw_time_from_sql tw bs)) (\<lambda>w.
     let micros = sint w in
     bindr (try_unsigned 8 (Codec ''time::Time: hour out of range'') (micros div 3600000000)) (\<lambda>hour.
     bindr (try_unsigned 8 (Codec ''time::Time: minute out of range'') (rust_rem (micros div 60000000) 60)) (\<lambda>minute.
     bindr (try_unsigned 8 (Codec ''time::Time: second out of range'') (rust_rem (micros div 1000000) 60)) (\<lambda>second.
     bindr (try_unsigned 32 (Codec ''time::Time: nanosecond out of range'') (micros mod 1000000 * 1000)) (\<lambda>nano.
     map_err (type_error ''time::Time'') (ck_from_hms_nano ck hour minute second nano)))))))"

text \<open>
  The \<open>chrono\<close> time of day: seconds from midnight and nanoseconds, which reach two thousand million in a leap
  second.
\<close>

record 't chrono_clock =
  cc_seconds :: "'t \<Rightarrow> u32"
  cc_nanosecond :: "'t \<Rightarrow> u32"
  cc_from_seconds :: "u32 \<Rightarrow> u32 \<Rightarrow> 't option"

definition chrono_micros :: "'t chrono_clock \<Rightarrow> 't \<Rightarrow> int" where
  "chrono_micros ck t = int (unat (cc_seconds ck t)) * 1000000 + int (unat (cc_nanosecond ck t) div 1000)"

definition chrono_time_encode :: "temporal_wire \<Rightarrow> 't chrono_clock \<Rightarrow> 't \<Rightarrow> raw_row result" where
  "chrono_time_encode tw ck t = Inr [Some (tw_time_to_sql tw (word_of_int (chrono_micros ck t)))]"

definition chrono_time_decode :: "temporal_wire \<Rightarrow> 't chrono_clock \<Rightarrow> raw_row \<Rightarrow> 't result" where
  "chrono_time_decode tw ck columns =
     bindr (container_column ''chrono::NaiveTime'' columns) (\<lambda>bs.
     bindr (map_err (type_error ''chrono::NaiveTime'') (tw_time_from_sql tw bs)) (\<lambda>w.
     let micros = sint w; secs = micros div 1000000; micros_part = micros mod 1000000 in
     bindr (try_unsigned 32 (Codec ''chrono::NaiveTime: nanoseconds out of range'') (micros_part * 1000)) (\<lambda>nanos.
     bindr (try_unsigned 32 (Codec ''chrono::NaiveTime: seconds out of range'') secs) (\<lambda>s.
     case cc_from_seconds ck s nanos of
       None \<Rightarrow> Inl (Codec ''chrono::NaiveTime: invalid time value'')
     | Some t \<Rightarrow> Inr t))))"

section \<open>The codecs\<close>

record ('e, 'd) temporal =
  te_encode :: "'e \<Rightarrow> raw_row result"
  te_decode :: "raw_row \<Rightarrow> 'd result option"
  te_n_columns :: nat
  te_oids :: "oid list"
  te_format_codes :: "i16 list"

definition temporal :: "oid \<Rightarrow> ('e \<Rightarrow> raw_row result) \<Rightarrow> (raw_row \<Rightarrow> 'd result option) \<Rightarrow> ('e, 'd) temporal" where
  "temporal o0 enc dec =
     \<lparr>te_encode = enc, te_decode = dec, te_n_columns = 1, te_oids = [o0], te_format_codes = [FORMAT_BINARY]\<rparr>"

definition date_codec :: "temporal_wire \<Rightarrow> 'd calendar \<Rightarrow> ('d, 'd) temporal" where
  "date_codec tw cal = temporal DATE (date_encode tw cal ''time::Date'') (date_decode tw cal ''time::Date'')"

definition time_codec :: "temporal_wire \<Rightarrow> 't clock \<Rightarrow> ('t, 't) temporal" where
  "time_codec tw ck = temporal TIME (time_encode tw ck) (\<lambda>columns. Some (time_decode tw ck columns))"

definition timestamp_codec :: "temporal_wire \<Rightarrow> 'd calendar \<Rightarrow> ('d, 'd) temporal" where
  "timestamp_codec tw cal =
     temporal TIMESTAMP (timestamp_encode tw cal ''time::PrimitiveDateTime'') (timestamp_decode tw cal ''time::PrimitiveDateTime'')"

text \<open>The offset is a part of the value that is sent and not of the one that is read.\<close>

definition timestamptz_codec :: "temporal_wire \<Rightarrow> 'd calendar \<Rightarrow> ('z \<Rightarrow> 'd) \<Rightarrow> ('z, 'd) temporal" where
  "timestamptz_codec tw cal to_utc =
     temporal TIMESTAMPTZ (timestamptz_encode tw cal to_utc ''time::OffsetDateTime'') (timestamp_decode tw cal ''time::OffsetDateTime'')"

definition chrono_date :: "temporal_wire \<Rightarrow> 'd calendar \<Rightarrow> ('d, 'd) temporal" where
  "chrono_date tw cal = temporal DATE (date_encode tw cal ''chrono::NaiveDate'') (date_decode tw cal ''chrono::NaiveDate'')"

definition chrono_time :: "temporal_wire \<Rightarrow> 't chrono_clock \<Rightarrow> ('t, 't) temporal" where
  "chrono_time tw ck = temporal TIME (chrono_time_encode tw ck) (\<lambda>columns. Some (chrono_time_decode tw ck columns))"

definition chrono_timestamp :: "temporal_wire \<Rightarrow> 'd calendar \<Rightarrow> ('d, 'd) temporal" where
  "chrono_timestamp tw cal =
     temporal TIMESTAMP (timestamp_encode tw cal ''chrono::NaiveDateTime'') (timestamp_decode tw cal ''chrono::NaiveDateTime'')"

definition chrono_timestamptz :: "temporal_wire \<Rightarrow> 'd calendar \<Rightarrow> ('d, 'd) temporal" where
  "chrono_timestamptz tw cal =
     temporal TIMESTAMPTZ (timestamp_encode tw cal ''chrono::DateTime<Utc>'') (timestamp_decode tw cal ''chrono::DateTime<Utc>'')"

lemmas temporal_defs =
  temporal_def date_codec_def time_codec_def timestamp_codec_def timestamptz_codec_def
  chrono_date_def chrono_time_def chrono_timestamp_def chrono_timestamptz_def

section \<open>The contracts of the crates\<close>

text \<open>What both calendars document: a value in their range is its distance from the epoch.\<close>

locale calendar_crate =
  fixes cal :: "'d calendar" and in_calendar :: "'d \<Rightarrow> bool"
  assumes from_since: "in_calendar d \<Longrightarrow> ca_from_epoch cal (ca_since_epoch cal d) = Some d"

text \<open>What the \<open>time\<close> crate documents of its times of day: the parts have their usual ranges and determine the time.\<close>

definition clock_range :: "u8 \<Rightarrow> u8 \<Rightarrow> u8 \<Rightarrow> u32 \<Rightarrow> bool" where
  "clock_range h m s n \<longleftrightarrow> unat h < 24 \<and> unat m < 60 \<and> unat s < 60 \<and> int (unat n) < 1000000000"

definition clock_parts :: "'t clock \<Rightarrow> 't \<Rightarrow> u8 \<times> u8 \<times> u8 \<times> u32" where
  "clock_parts ck t = (ck_hour ck t, ck_minute ck t, ck_second ck t, ck_nanosecond ck t)"

locale clock_crate =
  fixes ck :: "'t clock" and is_time :: "'t \<Rightarrow> bool"
  assumes range: "is_time t \<Longrightarrow> clock_parts ck t = (h, m, s, n) \<Longrightarrow> clock_range h m s n"
    and build: "clock_range h m s n \<Longrightarrow> \<exists>t. ck_from_hms_nano ck h m s n = Inr t \<and> is_time t \<and> clock_parts ck t = (h, m, s, n)"
    and reject: "\<not> clock_range h m s n \<Longrightarrow> \<exists>e. ck_from_hms_nano ck h m s n = Inl e"

text \<open>What \<open>chrono\<close> documents, leap seconds set aside.\<close>

locale chrono_crate =
  fixes ck :: "'t chrono_clock"
  assumes build: "unat s < 86400 \<Longrightarrow> int (unat n) < 1000000000 \<Longrightarrow>
    \<exists>t. cc_from_seconds ck s n = Some t \<and> cc_seconds ck t = s \<and> cc_nanosecond ck t = n"

locale temporal_codec =
  fixes tw :: temporal_wire
  assumes date: "tw_date_from_sql tw (tw_date_to_sql tw d) = Inr d"
    and time: "tw_time_from_sql tw (tw_time_to_sql tw m) = Inr m"
    and timestamp: "tw_timestamp_from_sql tw (tw_timestamp_to_sql tw m) = Inr m"

section \<open>Arithmetic of the day\<close>

lemma sint_fits: "fits 32 i \<Longrightarrow> sint (word_of_int i :: i32) = i" "fits 64 i \<Longrightarrow> sint (word_of_int i :: i64) = i"
  by (simp_all add: fits_def signed_of_int signed_take_bit_int_eq_self)

lemma try_unsigned_word:
  "try_unsigned 8 e (int (unat (w :: u8))) = Inr w" "try_unsigned 32 e (int (unat (v :: u32))) = Inr v"
  using uint_bounded [of w] uint_bounded [of v] by (simp_all add: try_unsigned_def)

lemma rust_rem_pos: "0 \<le> a \<Longrightarrow> rust_rem a 60 = a mod 60"
  by (cases "a = 0") (simp_all add: rust_rem_def)

lemma hms_split:
  fixes h m s u :: int
  assumes "0 \<le> h" "0 \<le> m" "m < 60" "0 \<le> s" "s < 60" "0 \<le> u" "u < 1000000"
    and M: "M = h * 3600000000 + m * 60000000 + s * 1000000 + u"
  shows "M div 3600000000 = h" "rust_rem (M div 60000000) 60 = m" "rust_rem (M div 1000000) 60 = s" "M mod 1000000 = u"
proof -
  show "M div 3600000000 = h"
    by (rule int_div_pos_eq [where r = "m * 60000000 + s * 1000000 + u"]) (use assms in auto)
  have "M div 60000000 = h * 60 + m"
    by (rule int_div_pos_eq [where r = "s * 1000000 + u"]) (use assms in auto)
  moreover have "(h * 60 + m) mod 60 = m" using assms by simp
  ultimately show "rust_rem (M div 60000000) 60 = m" using assms by (simp add: rust_rem_pos)
  have "M div 1000000 = (h * 60 + m) * 60 + s"
    by (rule int_div_pos_eq [where r = u]) (use assms in auto)
  moreover have "((h * 60 + m) * 60 + s) mod 60 = s" using assms(4,5) unfolding mod_mult_self3 by simp
  ultimately show "rust_rem (M div 1000000) 60 = s" using assms by (simp add: rust_rem_pos)
  show "M mod 1000000 = u"
    by (rule int_mod_pos_eq [where q = "h * 3600 + m * 60 + s"]) (use assms in auto)
qed

section \<open>Values that survive\<close>

text \<open>A \<open>time\<close> value comes back cut to microseconds.\<close>

lemma time_of_day_truncates:
  assumes tw: "temporal_codec tw" and ck: "clock_crate ck is_time" and t: "is_time t" "clock_parts ck t = (h, m, s, n)"
  shows "\<exists>slots t'. time_encode tw ck t = Inr slots \<and> time_decode tw ck slots = Inr t' \<and> is_time t'
    \<and> clock_parts ck t' = (h, m, s, word_of_int (int (unat n) div 1000 * 1000))"
proof -
  define M where "M = time_micros ck t"
  define u where "u = int (unat n) div 1000"
  have parts: "ck_hour ck t = h" "ck_minute ck t = m" "ck_second ck t = s" "ck_nanosecond ck t = n"
    using t(2) by (simp_all add: clock_parts_def)
  have r: "unat h < 24" "unat m < 60" "unat s < 60" "int (unat n) < 1000000000"
    using clock_crate.range [OF ck t] by (simp_all add: clock_range_def)
  then have u: "0 \<le> u" "u < 1000000" by (simp_all add: u_def pos_imp_zdiv_nonneg_iff)
  have M: "M = int (unat h) * 3600000000 + int (unat m) * 60000000 + int (unat s) * 1000000 + u"
    by (simp add: M_def time_micros_def parts u_def zdiv_int)
  have r': "0 \<le> int (unat h)" "0 \<le> int (unat m)" "int (unat m) < 60" "0 \<le> int (unat s)" "int (unat s) < 60"
    using r by (simp_all only: of_nat_0_le_iff)
  note split = hms_split [OF r' u M]
  have "0 \<le> M" "M < 1000000000000" using M r(1-3) u by linarith+
  then have "fits 64 M" by (simp add: fits_def)
  then have sM: "sint (word_of_int M :: i64) = M" by (rule sint_fits)
  define N :: u32 where "N = word_of_int (u * 1000)"
  have nano: "u * 1000 = int (unat N)"
    unfolding N_def using u by (simp add: unsigned_of_int take_bit_int_eq_self del: of_int_mult)
  have range: "clock_range h m s N"
    unfolding clock_range_def nano [symmetric] using r u by simp
  obtain t' where t': "ck_from_hms_nano ck h m s N = Inr t'" "is_time t'"
    "clock_parts ck t' = (h, m, s, N)"
    using clock_crate.build [OF ck range] by blast
  have "time_decode tw ck [Some (tw_time_to_sql tw (word_of_int M))] = Inr t'"
    unfolding time_decode_def container_column_def list.case option.case temporal_codec.time [OF tw] bindr_Inr Let_def sM
      map_err_simps split nano try_unsigned_word by (simp add: t'(1) del: of_int_mult)
  then show ?thesis using t'(2,3) by (simp add: time_encode_def M_def N_def u_def)
qed

lemma date_roundtrip:
  assumes "temporal_codec tw" "calendar_crate cal ok" "ok v" "fits 32 (ca_since_epoch cal v)"
  shows "\<exists>slots. date_encode tw cal n v = Inr slots \<and> date_decode tw cal n slots = Some (Inr v)"
  using assms calendar_crate.from_since [OF assms(2,3)]
  by (simp add: date_encode_def date_decode_def container_column_def temporal_codec.date sint_fits)

lemma timestamp_roundtrip:
  assumes "temporal_codec tw" "calendar_crate cal ok" "ok v" "fits 64 (ca_since_epoch cal v)"
  shows "\<exists>slots. timestamp_encode tw cal n v = Inr slots \<and> timestamp_decode tw cal n slots = Some (Inr v)"
  using assms calendar_crate.from_since [OF assms(2,3)]
  by (simp add: timestamp_encode_def timestamp_decode_def container_column_def temporal_codec.timestamp sint_fits)

text \<open>
  So every date codec of the two crates, and every timestamp codec, gives back what it was given; the codec
  with an offset gives back the instant in UTC.
\<close>

lemma calendar_codecs:
  assumes "temporal_codec tw" "calendar_crate cal ok" "ok v" "fits 32 (ca_since_epoch cal v)"
  shows "\<forall>tc \<in> {date_codec tw cal, chrono_date tw cal}. \<exists>slots. te_encode tc v = Inr slots \<and> te_decode tc slots = Some (Inr v)"
  using date_roundtrip [OF assms] by (simp add: temporal_defs)

lemma timestamp_codecs:
  assumes "temporal_codec tw" "calendar_crate cal ok" "ok v" "fits 64 (ca_since_epoch cal v)"
  shows "\<forall>tc \<in> {timestamp_codec tw cal, chrono_timestamp tw cal, chrono_timestamptz tw cal}.
    \<exists>slots. te_encode tc v = Inr slots \<and> te_decode tc slots = Some (Inr v)"
  using timestamp_roundtrip [OF assms] by (simp add: temporal_defs)

lemma timestamptz_in_utc:
  assumes "temporal_codec tw" "calendar_crate cal ok" "ok (to_utc z)" "fits 64 (ca_since_epoch cal (to_utc z))"
  shows "\<exists>slots. te_encode (timestamptz_codec tw cal to_utc) z = Inr slots
    \<and> te_decode (timestamptz_codec tw cal to_utc) slots = Some (Inr (to_utc z))"
  using timestamp_roundtrip [OF assms] by (simp add: temporal_defs timestamptz_encode_def)

text \<open>A \<open>chrono\<close> time comes back cut to microseconds, unless it is within a leap second, which moves to the next second.\<close>

lemma chrono_time_truncates:
  assumes tw: "temporal_codec tw" and ck: "chrono_crate ck"
    and t: "unat (cc_seconds ck t) < 86400" "int (unat (cc_nanosecond ck t)) < 1000000000"
  shows "\<exists>slots t'. chrono_time_encode tw ck t = Inr slots \<and> chrono_time_decode tw ck slots = Inr t'
    \<and> cc_seconds ck t' = cc_seconds ck t \<and> cc_nanosecond ck t' = word_of_int (int (unat (cc_nanosecond ck t)) div 1000 * 1000)"
proof -
  define M where "M = chrono_micros ck t"
  define u where "u = int (unat (cc_nanosecond ck t)) div 1000"
  have u: "0 \<le> u" "u < 1000000" using t(2) by (simp_all add: u_def pos_imp_zdiv_nonneg_iff)
  have M: "M = int (unat (cc_seconds ck t)) * 1000000 + u"
    by (simp add: M_def chrono_micros_def u_def zdiv_int)
  have parts: "M div 1000000 = int (unat (cc_seconds ck t))" "M mod 1000000 = u"
    using u by (simp_all add: M)
  have "0 \<le> M" "M < 1000000000000" using M t(1) u by linarith+
  then have "fits 64 M" by (simp add: fits_def)
  then have sM: "sint (word_of_int M :: i64) = M" by (rule sint_fits)
  define N :: u32 where "N = word_of_int (u * 1000)"
  have nano: "u * 1000 = int (unat N)"
    unfolding N_def using u by (simp add: unsigned_of_int take_bit_int_eq_self del: of_int_mult)
  have small: "int (unat N) < 1000000000"
    unfolding nano [symmetric] using u by simp
  obtain t' where t': "cc_from_seconds ck (cc_seconds ck t) N = Some t'"
    "cc_seconds ck t' = cc_seconds ck t" "cc_nanosecond ck t' = N"
    using chrono_crate.build [OF ck t(1) small] by blast
  have "chrono_time_decode tw ck [Some (tw_time_to_sql tw (word_of_int M))] = Inr t'"
    unfolding chrono_time_decode_def container_column_def list.case option.case temporal_codec.time [OF tw] bindr_Inr Let_def sM
      map_err_simps parts nano try_unsigned_word by (simp add: t'(1) del: of_int_mult)
  then show ?thesis using t'(2,3) by (simp add: chrono_time_encode_def M_def N_def u_def)
qed

section \<open>The documented behaviour\<close>

definition documented_temporal :: temporal_wire where
  "documented_temporal =
     \<lparr>tw_date_to_sql = be_bytes 4, tw_date_from_sql = read_word 4, tw_time_to_sql = be_bytes 8, tw_time_from_sql = read_word 8,
      tw_timestamp_to_sql = be_bytes 8, tw_timestamp_from_sql = read_word 8\<rparr>"

interpretation documented: temporal_codec documented_temporal
  by unfold_locales (simp_all add: documented_temporal_def be32.get_put be64.get_put)

text \<open>The dates of the \<open>time\<close> crate lie in the years -9999 to 9999; a date is its number of days from the epoch.\<close>

definition documented_dates :: "int calendar" where
  "documented_dates =
     \<lparr>ca_since_epoch = (\<lambda>d. d), ca_from_epoch = (\<lambda>d. if - 4382544 \<le> d \<and> d \<le> 2921939 then Some d else None)\<rparr>"

interpretation documented: calendar_crate documented_dates "\<lambda>d. - 4382544 \<le> d \<and> d \<le> 2921939"
  by unfold_locales (simp add: documented_dates_def)

definition documented_clock :: "(u8 \<times> u8 \<times> u8 \<times> u32) clock" where
  "documented_clock =
     \<lparr>ck_hour = (\<lambda>(h, m, s, n). h), ck_minute = (\<lambda>(h, m, s, n). m), ck_second = (\<lambda>(h, m, s, n). s),
      ck_nanosecond = (\<lambda>(h, m, s, n). n),
      ck_from_hms_nano = (\<lambda>h m s n. if clock_range h m s n then Inr (h, m, s, n) else Inl ''component out of range'')\<rparr>"

interpretation documented: clock_crate documented_clock "\<lambda>(h, m, s, n). clock_range h m s n"
  by unfold_locales (auto simp: documented_clock_def clock_parts_def)

definition documented_chrono :: "(u32 \<times> u32) chrono_clock" where
  "documented_chrono =
     \<lparr>cc_seconds = fst, cc_nanosecond = snd,
      cc_from_seconds = (\<lambda>s n. if unat s < 86400 \<and> (int (unat n) < 1000000000 \<or> unat s mod 60 = 59 \<and> int (unat n) < 2000000000)
        then Some (s, n) else None)\<rparr>"

interpretation documented_chrono: chrono_crate documented_chrono
  by unfold_locales (simp add: documented_chrono_def)

text \<open>
  The infinite date of PostgreSQL is the greatest integer, and its calendar goes on to the year 5874897: the
  decoder panics on the one, and on the first day of the year 10000.
\<close>

lemma infinite_date_panics:
  "date_decode documented_temporal documented_dates type_name [Some (be_bytes 4 (2147483647 :: i32))] = None"
  "date_decode documented_temporal documented_dates type_name [Some (be_bytes 4 (2921940 :: i32))] = None"
  by (simp_all add: date_decode_def container_column_def documented_temporal_def documented_dates_def be32.get_put)

text \<open>The time 24:00:00, which PostgreSQL stores, is an error for both crates.\<close>

lemma end_of_day_refused:
  "\<exists>e. time_decode documented_temporal documented_clock [Some (be_bytes 8 (86400000000 :: i64))] = Inl e"
  "chrono_time_decode documented_temporal documented_chrono [Some (be_bytes 8 (86400000000 :: i64))] =
     Inl (Codec ''chrono::NaiveTime: invalid time value'')"
  by (simp_all add: time_decode_def chrono_time_decode_def container_column_def documented_temporal_def documented_clock_def
      documented_chrono_def be64.get_put try_unsigned_def rust_rem_def clock_range_def type_error_def)

text \<open>A leap second is encoded as the second after it.\<close>

lemma leap_second_moves:
  "bindr (chrono_time_encode documented_temporal documented_chrono (59, 1500000000))
     (chrono_time_decode documented_temporal documented_chrono) = Inr (60, 500000000)"
  by (simp add: chrono_time_encode_def chrono_micros_def chrono_time_decode_def container_column_def documented_temporal_def
      documented_chrono_def be64.get_put try_unsigned_def)

end
