(* ===== verification/Typed_Ir.thy ===== *)
theory Typed_Ir
  imports Rust_Text "HOL-Library.Char_ord" "HOL-Library.List_Lexorder"
begin

text \<open>
  The intermediate representation of the schema-aware SQL macros (\<open>macros/src/typed_sql/ir.rs\<close>) and
  the error type of their stages (\<open>typed_sql/mod.rs\<close>). Structs are records and enums are datatypes
  with the constructors of the source; \<open>Box\<close> and \<open>Vec\<close> disappear into recursion and lists.

  Byte offsets, node identifiers and placeholder numbers are \<open>u32\<close> in the source and natural numbers
  here: every offset passes the checked conversion \<open>to_u32\<close> of \<open>source.rs\<close> before anything is
  built, so a text with \<open>2\<^sup>3\<^sup>2\<close> bytes or more is refused, and there are fewer nodes, placeholders and
  relations than bytes.
\<close>

section \<open>Text\<close>

fun join_str :: "str \<Rightarrow> str list \<Rightarrow> str" where
  "join_str sep [] = []"
| "join_str sep [x] = x"
| "join_str sep (x # y # xs) = x @ sep @ join_str sep (y # xs)"

lemma join_str_Cons: "join_str sep (x # xs) = x @ (if xs = [] then [] else sep @ join_str sep xs)"
  by (cases xs) auto

section \<open>Syntax\<close>

type_synonym ast_id = nat
type_synonym placeholder_id = nat

record source_span =
  span_start :: nat
  span_end :: nat

definition span_new :: "nat \<Rightarrow> nat \<Rightarrow> source_span" where
  "span_new s e = \<lparr>span_start = s, span_end = e\<rparr>"

definition show_span :: "source_span \<Rightarrow> str" where
  "show_span s = show_nat (span_start s) @ ''..'' @ show_nat (span_end s)"

record ident_syntax =
  id_value :: str
  id_span :: source_span

record object_name_syntax =
  on_parts :: "ident_syntax list"
  on_span :: source_span

datatype output_name_syntax =
    ONExplicit ident_syntax
  | ONImplicit ident_syntax
  | ONAnonymous

datatype statement_kind = SkQuery | SkInsert | SkUpdate | SkDelete

datatype statement_result_kind = ResRows | ResCommand

datatype row_statement_kind = RowSelect | RowInsert | RowUpdate | RowDelete

datatype command_statement_kind = CmdInsert | CmdUpdate | CmdDelete

datatype join_kind = JInner | JLeft | JRight | JFull

datatype order_direction = Asc | Desc

datatype nulls_order = NullsFirst | NullsLast

datatype unary_op = OpNot | OpPlus | OpMinus

datatype binary_op = OpEq | OpNotEq | OpLt | OpLtEq | OpGt | OpGtEq

datatype bool_op = OpAnd | OpOr

datatype literal =
    Number str
  | StringLit str
  | Boolean bool
  | NullLit

record column_ref_syntax =
  cr_id :: ast_id
  cr_span :: source_span
  cr_binding :: ident_syntax
  cr_column :: ident_syntax

record placeholder_ref =
  pr_id :: ast_id
  pr_span :: source_span
  pr_placeholder_id :: placeholder_id
  pr_name :: str
  pr_slot :: nat
  pr_optional :: bool

record parsed_literal =
  pl_id :: ast_id
  pl_span :: source_span
  pl_value :: literal

datatype parsed_expr =
    PColumn column_ref_syntax
  | PPlaceholder placeholder_ref
  | PLiteral parsed_literal
  | POptionalGroup ast_id source_span parsed_expr
  | PUnary ast_id source_span unary_op parsed_expr
  | PBinary ast_id source_span binary_op parsed_expr parsed_expr
  | PIsNull ast_id source_span bool parsed_expr
  | PBoolChain ast_id source_span bool_op "parsed_expr list"

record parsed_projection =
  pp_id :: ast_id
  pp_span :: source_span
  pp_expr :: parsed_expr
  pp_output_name :: output_name_syntax

record parsed_from =
  pf_id :: ast_id
  pf_span :: source_span
  pf_table_name :: object_name_syntax
  pf_binding_name :: ident_syntax

record parsed_join =
  pj_id :: ast_id
  pj_span :: source_span
  pj_kind :: join_kind
  pj_right :: parsed_from
  pj_on :: parsed_expr

record parsed_order_by =
  po_id :: ast_id
  po_span :: source_span
  po_expr :: parsed_expr
  po_direction :: order_direction
  po_nulls :: "nulls_order option"

record parsed_limit =
  plim_id :: ast_id
  plim_span :: source_span
  plim_expr :: parsed_expr

record parsed_select =
  ps_id :: ast_id
  ps_span :: source_span
  ps_projections :: "parsed_projection list"
  ps_from :: parsed_from
  ps_joins :: "parsed_join list"
  ps_filter :: "parsed_expr option"
  ps_order_by :: "parsed_order_by list"
  ps_limit :: "parsed_limit option"
  ps_offset :: "parsed_limit option"

record parsed_values_row =
  pv_id :: ast_id
  pv_span :: source_span
  pv_values :: "parsed_expr list"

record parsed_insert =
  pi_id :: ast_id
  pi_span :: source_span
  pi_target :: parsed_from
  pi_columns :: "ident_syntax list"
  pi_values :: "parsed_values_row list"
  pi_returning :: "parsed_projection list"

record parsed_assignment_target =
  pt_span :: source_span
  pt_binding :: "ident_syntax option"
  pt_column :: ident_syntax

record parsed_assignment =
  pa_id :: ast_id
  pa_span :: source_span
  pa_target :: parsed_assignment_target
  pa_value :: parsed_expr

record parsed_update =
  pu_id :: ast_id
  pu_span :: source_span
  pu_target :: parsed_from
  pu_assignments :: "parsed_assignment list"
  pu_filter :: parsed_expr
  pu_returning :: "parsed_projection list"

record parsed_delete =
  pd_id :: ast_id
  pd_span :: source_span
  pd_target :: parsed_from
  pd_filter :: parsed_expr
  pd_returning :: "parsed_projection list"

record parsed_row_column =
  pc_id :: ast_id
  pc_span :: source_span
  pc_output_name :: output_name_syntax

datatype row_statement_body =
    RSelect parsed_select
  | RInsert parsed_insert
  | RUpdate parsed_update
  | RDelete parsed_delete

record parsed_row_statement =
  prs_kind :: row_statement_kind
  prs_shape :: "parsed_row_column list"
  prs_body :: row_statement_body

datatype command_statement_body =
    CInsert parsed_insert
  | CUpdate parsed_update
  | CDelete parsed_delete

record parsed_command_statement =
  pcs_kind :: command_statement_kind
  pcs_body :: command_statement_body

datatype parsed_statement_body =
    BodyRows parsed_row_statement
  | BodyCommand parsed_command_statement

record parsed_statement =
  pst_kind :: statement_kind
  pst_result :: statement_result_kind
  pst_body :: parsed_statement_body

section \<open>Constructors of statements\<close>

definition shape_from_projections :: "parsed_projection list \<Rightarrow> parsed_row_column list" where
  "shape_from_projections =
     map (\<lambda>p. \<lparr>pc_id = pp_id p, pc_span = pp_span p, pc_output_name = pp_output_name p\<rparr>)"

definition row_select :: "parsed_select \<Rightarrow> parsed_row_statement" where
  "row_select s = \<lparr>prs_kind = RowSelect, prs_shape = shape_from_projections (ps_projections s), prs_body = RSelect s\<rparr>"

definition row_insert :: "parsed_insert \<Rightarrow> parsed_row_statement" where
  "row_insert s = \<lparr>prs_kind = RowInsert, prs_shape = shape_from_projections (pi_returning s), prs_body = RInsert s\<rparr>"

definition row_update :: "parsed_update \<Rightarrow> parsed_row_statement" where
  "row_update s = \<lparr>prs_kind = RowUpdate, prs_shape = shape_from_projections (pu_returning s), prs_body = RUpdate s\<rparr>"

definition row_delete :: "parsed_delete \<Rightarrow> parsed_row_statement" where
  "row_delete s = \<lparr>prs_kind = RowDelete, prs_shape = shape_from_projections (pd_returning s), prs_body = RDelete s\<rparr>"

definition command_insert :: "parsed_insert \<Rightarrow> parsed_command_statement" where
  "command_insert s = \<lparr>pcs_kind = CmdInsert, pcs_body = CInsert s\<rparr>"

definition command_update :: "parsed_update \<Rightarrow> parsed_command_statement" where
  "command_update s = \<lparr>pcs_kind = CmdUpdate, pcs_body = CUpdate s\<rparr>"

definition command_delete :: "parsed_delete \<Rightarrow> parsed_command_statement" where
  "command_delete s = \<lparr>pcs_kind = CmdDelete, pcs_body = CDelete s\<rparr>"

definition statement_query :: "parsed_row_statement \<Rightarrow> parsed_statement" where
  "statement_query rows = \<lparr>pst_kind = SkQuery, pst_result = ResRows, pst_body = BodyRows rows\<rparr>"

definition statement_rows :: "statement_kind \<Rightarrow> parsed_row_statement \<Rightarrow> parsed_statement" where
  "statement_rows k rows = \<lparr>pst_kind = k, pst_result = ResRows, pst_body = BodyRows rows\<rparr>"

definition statement_command :: "statement_kind \<Rightarrow> parsed_command_statement \<Rightarrow> parsed_statement" where
  "statement_command k c = \<lparr>pst_kind = k, pst_result = ResCommand, pst_body = BodyCommand c\<rparr>"

definition row_statement :: "parsed_statement \<Rightarrow> parsed_row_statement option" where
  "row_statement s = (case pst_body s of BodyRows rows \<Rightarrow> Some rows | BodyCommand _ \<Rightarrow> None)"

definition row_as_select :: "parsed_row_statement \<Rightarrow> parsed_select option" where
  "row_as_select r = (case prs_body r of RSelect s \<Rightarrow> Some s | _ \<Rightarrow> None)"

definition as_select :: "parsed_statement \<Rightarrow> parsed_select option" where
  "as_select s = (case row_statement s of None \<Rightarrow> None | Some rows \<Rightarrow> row_as_select rows)"

fun expr_span :: "parsed_expr \<Rightarrow> source_span" where
  "expr_span (PColumn c) = cr_span c"
| "expr_span (PPlaceholder p) = pr_span p"
| "expr_span (PLiteral l) = pl_span l"
| "expr_span (POptionalGroup i s e) = s"
| "expr_span (PUnary i s op e) = s"
| "expr_span (PBinary i s op l r) = s"
| "expr_span (PIsNull i s n e) = s"
| "expr_span (PBoolChain i s op ts) = s"

section \<open>Errors\<close>

datatype typed_sql_error_kind = TkParse | TkUnsupported | TkResolve | TkType | TkInternal

record typed_sql_error =
  te_kind :: typed_sql_error_kind
  te_message :: str
  te_span :: "source_span option"

type_synonym 'a tresult = "typed_sql_error + 'a"

definition parse_with_optional_span :: "str \<Rightarrow> source_span option \<Rightarrow> typed_sql_error" where
  "parse_with_optional_span m s = \<lparr>te_kind = TkParse, te_message = m, te_span = s\<rparr>"

definition unsupported :: "str \<Rightarrow> typed_sql_error" where
  "unsupported m = \<lparr>te_kind = TkUnsupported, te_message = m, te_span = None\<rparr>"

definition unsupported_at :: "str \<Rightarrow> source_span \<Rightarrow> typed_sql_error" where
  "unsupported_at m s = \<lparr>te_kind = TkUnsupported, te_message = m, te_span = Some s\<rparr>"

definition unsupported_with_optional_span :: "str \<Rightarrow> source_span option \<Rightarrow> typed_sql_error" where
  "unsupported_with_optional_span m s = \<lparr>te_kind = TkUnsupported, te_message = m, te_span = s\<rparr>"

definition resolve_at :: "str \<Rightarrow> source_span \<Rightarrow> typed_sql_error" where
  "resolve_at m s = \<lparr>te_kind = TkResolve, te_message = m, te_span = Some s\<rparr>"

definition type_at :: "str \<Rightarrow> source_span \<Rightarrow> typed_sql_error" where
  "type_at m s = \<lparr>te_kind = TkType, te_message = m, te_span = Some s\<rparr>"

definition internal :: "str \<Rightarrow> typed_sql_error" where
  "internal m = \<lparr>te_kind = TkInternal, te_message = m, te_span = None\<rparr>"

fun stage_name :: "typed_sql_error_kind \<Rightarrow> str" where
  "stage_name TkParse = ''parse''"
| "stage_name TkUnsupported = ''normalize''"
| "stage_name TkResolve = ''resolve''"
| "stage_name TkType = ''type''"
| "stage_name TkInternal = ''internal''"

fun headline :: "typed_sql_error_kind \<Rightarrow> str" where
  "headline TkParse = ''invalid SQL for typed_sql v1''"
| "headline TkUnsupported = ''this SQL construct is outside the typed_sql v1 subset''"
| "headline TkResolve = ''could not resolve a table or column in typed_sql v1''"
| "headline TkType = ''typed_sql v1 could not prove this query is well-typed''"
| "headline TkInternal = ''typed_sql v1 hit an internal error''"

definition error_help :: "typed_sql_error \<Rightarrow> str option" where
  "error_help e =
     (let has = (\<lambda>pat. contains pat (te_message e)) in
      case te_kind e of
        TkParse \<Rightarrow>
          (if has ''expected an expression''
           then Some ''add a placeholder like `$id`, a literal, or a qualified column like `users.id`'' else None)
      | TkUnsupported \<Rightarrow>
          (if has ''wildcard projections''
           then Some ''list each selected column explicitly, for example `SELECT users.id, users.name ...`''
           else if has ''fully qualified column references''
           then Some ''qualify the column with its relation binding, for example `users.id` or `u.id`''
           else if has ''plain table references''
           then Some ''rewrite the query to select directly from real tables with JOIN ... ON''
           else if has ''`$value?`''
           then Some ''attach `?` only when the placeholder directly owns an entire WHERE/JOIN comparison or the full LIMIT/OFFSET expression; use `(...)?` for larger predicate groups''
           else if has ''`(...)?`''
           then Some ''wrap an entire parenthesized WHERE/JOIN predicate or a single ORDER BY expression, for example `(users.id = $id?)?`; do not wrap whole clauses or LIMIT/OFFSET''
           else None)
      | TkResolve \<Rightarrow> None
      | TkType \<Rightarrow>
          (if has ''never constrained''
           then Some ''compare the placeholder against a qualified column, or use it in LIMIT/OFFSET so its SQL type becomes known''
           else None)
      | TkInternal \<Rightarrow> Some ''this is a bug in babar; please file an issue with the query that triggered it'')"

definition show_typed_sql_error :: "typed_sql_error \<Rightarrow> str" where
  "show_typed_sql_error e =
     headline (te_kind e) @ '': '' @ te_message e
     @ (case error_help e of Some help \<Rightarrow> lf # ''help: '' @ help | None \<Rightarrow> [])
     @ (case te_span e of Some s \<Rightarrow> lf # ''span: '' @ show_span s | None \<Rightarrow> [])"

end
