(* ===== verification/Typed_Resolver.thy ===== *)
theory Typed_Resolver
  imports Typed_Ir BTree_Map
begin

text \<open>
  The checker of the schema-aware SQL macros (\<open>macros/src/typed_sql/resolver.rs\<close>): names are
  resolved against a catalog of tables, the SQL type and the nullability of every expression and of
  every placeholder are inferred, and the checked statement carries both.

  The four passes of the source are the four groups of definitions below: \<open>resolve_expr\<close> (names),
  \<open>analyze_expr\<close> (constraints on placeholders), \<open>solve\<close> (their solution) and \<open>finalize_expr\<close> (the
  checked expression). The \<open>InferenceContext\<close> that the second pass mutates is threaded through it;
  every error ends the whole check, so a failing step returns no context.

  \<open>HashMap\<close>s that are only looked up are maps. The placeholders of an inference context and the
  bindings of a scope are also enumerated, always into a list that is sorted next, so they are kept
  as ordered association lists (theory \<open>BTree_Map\<close>).
\<close>

section \<open>Types, nullability and the catalog\<close>

type_synonym table_id = nat
type_synonym column_id = nat
type_synonym binding_id = nat

datatype sql_type =
    TyBool | TyBytea | TyVarchar | TyText | TyInt2 | TyInt4 | TyInt8 | TyFloat4 | TyFloat8
  | TyUuid | TyDate | TyTime | TyTimestamp | TyTimestamptz | TyJson | TyJsonb | TyNumeric
  | TyOther str

fun sql_type_name :: "sql_type \<Rightarrow> str" where
  "sql_type_name TyBool = ''bool''"
| "sql_type_name TyBytea = ''bytea''"
| "sql_type_name TyVarchar = ''varchar''"
| "sql_type_name TyText = ''text''"
| "sql_type_name TyInt2 = ''int2''"
| "sql_type_name TyInt4 = ''int4''"
| "sql_type_name TyInt8 = ''int8''"
| "sql_type_name TyFloat4 = ''float4''"
| "sql_type_name TyFloat8 = ''float8''"
| "sql_type_name TyUuid = ''uuid''"
| "sql_type_name TyDate = ''date''"
| "sql_type_name TyTime = ''time''"
| "sql_type_name TyTimestamp = ''timestamp''"
| "sql_type_name TyTimestamptz = ''timestamptz''"
| "sql_type_name TyJson = ''json''"
| "sql_type_name TyJsonb = ''jsonb''"
| "sql_type_name TyNumeric = ''numeric''"
| "sql_type_name (TyOther name) = name"

definition is_text_like :: "sql_type \<Rightarrow> bool" where
  "is_text_like t = (t \<in> {TyText, TyVarchar})"

definition is_integer_like :: "sql_type \<Rightarrow> bool" where
  "is_integer_like t = (t \<in> {TyInt2, TyInt4, TyInt8})"

definition is_numeric_like :: "sql_type \<Rightarrow> bool" where
  "is_numeric_like t = (t \<in> {TyInt2, TyInt4, TyInt8, TyFloat4, TyFloat8, TyNumeric})"

definition supports_unary_sign :: "sql_type \<Rightarrow> bool" where
  "supports_unary_sign t = is_numeric_like t"

definition comparable_to :: "sql_type \<Rightarrow> sql_type \<Rightarrow> bool" where
  "comparable_to t u =
     (t = u \<or> is_text_like t \<and> is_text_like u \<or> is_integer_like t \<and> is_integer_like u)"

definition limit_compatible :: "sql_type \<Rightarrow> bool" where
  "limit_compatible t = is_integer_like t"

datatype nullability = NonNull | Nullable

definition widen :: "nullability \<Rightarrow> nullability \<Rightarrow> nullability" where
  "widen m n = (if m = Nullable \<or> n = Nullable then Nullable else NonNull)"

lemma widen_eq_NonNull_iff [simp]: "widen m n = NonNull \<longleftrightarrow> m = NonNull \<and> n = NonNull"
  by (cases m; cases n) (auto simp: widen_def)

record schema_column =
  sc_name :: str
  sc_sql_type :: sql_type
  sc_nullability :: nullability

record schema_table =
  st_schema :: "str option"
  st_name :: str
  st_columns :: "schema_column list"
  st_columns_by_name :: "str \<rightharpoonup> column_id"

fun index_columns :: "str \<Rightarrow> nat \<Rightarrow> schema_column list \<Rightarrow> (str \<rightharpoonup> column_id) \<Rightarrow> (str \<rightharpoonup> column_id) tresult" where
  "index_columns name index [] m = Inr m"
| "index_columns name index (c # cs) m =
     (case m (sc_name c) of
        None \<Rightarrow> index_columns name (Suc index) cs (m(sc_name c \<mapsto> index))
      | Some _ \<Rightarrow> Inl (internal (''duplicate column `'' @ sc_name c @ ''` on schema table `'' @ name @ ''`'')))"

definition schema_table_new :: "str option \<Rightarrow> str \<Rightarrow> schema_column list \<Rightarrow> schema_table tresult" where
  "schema_table_new schema name columns =
     bindr (index_columns name 0 columns Map.empty) (\<lambda>by_name.
     Inr \<lparr>st_schema = schema, st_name = name, st_columns = columns, st_columns_by_name = by_name\<rparr>)"

definition qualified_name_parts :: "schema_table \<Rightarrow> str list" where
  "qualified_name_parts t = (case st_schema t of Some schema \<Rightarrow> [schema, st_name t] | None \<Rightarrow> [st_name t])"

definition display_name :: "schema_table \<Rightarrow> str" where
  "display_name t = join_str ''.'' (qualified_name_parts t)"

record schema_catalog =
  ct_tables :: "schema_table list"
  ct_by_qualified_name :: "str list \<rightharpoonup> table_id"
  ct_by_unqualified_name :: "str \<rightharpoonup> table_id list"

fun index_tables ::
    "nat \<Rightarrow> schema_table list \<Rightarrow> (str list \<rightharpoonup> table_id) \<Rightarrow> (str \<rightharpoonup> table_id list)
     \<Rightarrow> ((str list \<rightharpoonup> table_id) \<times> (str \<rightharpoonup> table_id list)) tresult" where
  "index_tables index [] q u = Inr (q, u)"
| "index_tables index (t # ts) q u =
     (let parts = qualified_name_parts t in
      case q parts of
        Some _ \<Rightarrow> Inl (internal (''duplicate schema table `'' @ join_str ''.'' parts @ ''` in catalog''))
      | None \<Rightarrow>
          index_tables (Suc index) ts (q(parts \<mapsto> index))
            (u(st_name t \<mapsto> (case u (st_name t) of None \<Rightarrow> [] | Some l \<Rightarrow> l) @ [index])))"

definition schema_catalog_new :: "schema_table list \<Rightarrow> schema_catalog tresult" where
  "schema_catalog_new tables =
     bindr (index_tables 0 tables Map.empty Map.empty) (\<lambda>(q, u).
     Inr \<lparr>ct_tables = tables, ct_by_qualified_name = q, ct_by_unqualified_name = u\<rparr>)"

definition resolve_table :: "schema_catalog \<Rightarrow> str list \<Rightarrow> source_span \<Rightarrow> table_id tresult" where
  "resolve_table cat parts span =
     (case ct_by_qualified_name cat parts of
        Some table_id \<Rightarrow> Inr table_id
      | None \<Rightarrow>
          (case parts of
             [name] \<Rightarrow>
               (case ct_by_unqualified_name cat name of
                  None \<Rightarrow> Inl (resolve_at (''unknown table `'' @ name @ ''`'') span)
                | Some matches \<Rightarrow>
                    (if length matches = 1 then Inr (matches ! 0)
                     else Inl (resolve_at (''table `'' @ name @ ''` is ambiguous; qualify it with a schema name'') span)))
           | _ \<Rightarrow> Inl (resolve_at (''unknown table `'' @ join_str ''.'' parts @ ''`'') span)))"

definition ct_table :: "schema_catalog \<Rightarrow> table_id \<Rightarrow> schema_table" where
  "ct_table cat t = ct_tables cat ! t"

definition ct_column :: "schema_catalog \<Rightarrow> table_id \<Rightarrow> column_id \<Rightarrow> schema_column" where
  "ct_column cat t c = st_columns (ct_tables cat ! t) ! c"

definition lookup_column_by_display_name :: "schema_catalog \<Rightarrow> str \<Rightarrow> str \<Rightarrow> schema_column option" where
  "lookup_column_by_display_name cat table_name column_name =
     (case find (\<lambda>t. display_name t = table_name) (ct_tables cat) of
        None \<Rightarrow> None
      | Some t \<Rightarrow> map_option (\<lambda>c. st_columns t ! c) (st_columns_by_name t column_name))"

section \<open>Scopes and resolved names\<close>

type_synonym scope_map = "(str \<times> binding_id) list"

definition scope_insert :: "scope_map \<Rightarrow> str \<Rightarrow> binding_id \<Rightarrow> source_span \<Rightarrow> scope_map tresult" where
  "scope_insert scope name b span =
     (case bt_get scope name of
        None \<Rightarrow> Inr (bt_insert name b scope)
      | Some _ \<Rightarrow> Inl (resolve_at
          (''binding `'' @ name @ ''` is already defined in this SELECT scope; choose a distinct alias'') span))"

definition scope_lookup :: "scope_map \<Rightarrow> str \<Rightarrow> source_span \<Rightarrow> binding_id tresult" where
  "scope_lookup scope name span =
     (case bt_get scope name of
        Some b \<Rightarrow> Inr b
      | None \<Rightarrow>
          (let visible = map fst scope;
               suffix = (if visible = [] then ''; no relation bindings are visible here''
                         else ''; visible bindings: '' @ join_str '', '' visible)
           in Inl (resolve_at (''unknown table/alias binding `'' @ name @ ''`'' @ suffix) span)))"

record resolved_binding =
  rb_id :: binding_id
  rb_binding_name :: str
  rb_table :: table_id

record resolved_column_ref =
  rc_binding :: binding_id
  rc_table :: table_id
  rc_column :: column_id
  rc_span :: source_span

record resolved_placeholder_ref =
  rp_id :: placeholder_id
  rp_name :: str
  rp_slot :: nat
  rp_span :: source_span
  rp_optional :: bool

definition from_placeholder :: "placeholder_ref \<Rightarrow> resolved_placeholder_ref" where
  "from_placeholder p =
     \<lparr>rp_id = pr_placeholder_id p, rp_name = pr_name p, rp_slot = pr_slot p, rp_span = pr_span p,
      rp_optional = pr_optional p\<rparr>"

datatype resolved_expr = ResolvedExpr (re_span: source_span) (re_node: resolved_node)
and resolved_node =
    RColumn resolved_column_ref
  | RPlaceholder resolved_placeholder_ref
  | RLiteral literal
  | ROptionalGroup ast_id resolved_expr
  | RUnary unary_op resolved_expr
  | RBinary binary_op resolved_expr resolved_expr
  | RIsNull bool resolved_expr
  | RBoolChain bool_op "resolved_expr list"

definition available_columns :: "schema_table \<Rightarrow> str" where
  "available_columns t = join_str '', '' (map sc_name (st_columns t))"

definition resolve_column ::
    "scope_map \<Rightarrow> resolved_binding list \<Rightarrow> schema_catalog \<Rightarrow> column_ref_syntax \<Rightarrow> resolved_column_ref tresult" where
  "resolve_column scope bindings cat c =
     bindr (scope_lookup scope (id_value (cr_binding c)) (id_span (cr_binding c))) (\<lambda>b.
     let table_id = rb_table (bindings ! b); table = ct_table cat table_id in
     case st_columns_by_name table (id_value (cr_column c)) of
       None \<Rightarrow> Inl (resolve_at
         (''unknown column `'' @ id_value (cr_binding c) @ ''.'' @ id_value (cr_column c)
          @ ''` on bound table `'' @ display_name table @ ''`; available columns: '' @ available_columns table)
         (id_span (cr_column c)))
     | Some column_id \<Rightarrow>
         Inr \<lparr>rc_binding = b, rc_table = table_id, rc_column = column_id, rc_span = cr_span c\<rparr>)"

fun resolve_expr ::
    "scope_map \<Rightarrow> resolved_binding list \<Rightarrow> schema_catalog \<Rightarrow> parsed_expr \<Rightarrow> resolved_expr tresult" where
  "resolve_expr scope bindings cat (PColumn c) =
     bindr (resolve_column scope bindings cat c) (\<lambda>r. Inr (ResolvedExpr (cr_span c) (RColumn r)))"
| "resolve_expr scope bindings cat (PPlaceholder p) =
     Inr (ResolvedExpr (pr_span p) (RPlaceholder (from_placeholder p)))"
| "resolve_expr scope bindings cat (PLiteral l) = Inr (ResolvedExpr (pl_span l) (RLiteral (pl_value l)))"
| "resolve_expr scope bindings cat (POptionalGroup i s e) =
     bindr (resolve_expr scope bindings cat e) (\<lambda>r. Inr (ResolvedExpr s (ROptionalGroup i r)))"
| "resolve_expr scope bindings cat (PUnary i s op e) =
     bindr (resolve_expr scope bindings cat e) (\<lambda>r. Inr (ResolvedExpr s (RUnary op r)))"
| "resolve_expr scope bindings cat (PBinary i s op left right) =
     bindr (resolve_expr scope bindings cat left) (\<lambda>l.
     bindr (resolve_expr scope bindings cat right) (\<lambda>r. Inr (ResolvedExpr s (RBinary op l r))))"
| "resolve_expr scope bindings cat (PIsNull i s negated e) =
     bindr (resolve_expr scope bindings cat e) (\<lambda>r. Inr (ResolvedExpr s (RIsNull negated r)))"
| "resolve_expr scope bindings cat (PBoolChain i s op terms) =
     bindr (collect_r (\<lambda>t. resolve_expr scope bindings cat t) terms) (\<lambda>rs.
     Inr (ResolvedExpr s (RBoolChain op rs)))"

definition resolve_from ::
    "parsed_from \<Rightarrow> schema_catalog \<Rightarrow> nat \<Rightarrow> scope_map \<Rightarrow> (resolved_binding \<times> nat \<times> scope_map) tresult" where
  "resolve_from from cat next_binding_id scope =
     bindr (resolve_table cat (map id_value (on_parts (pf_table_name from))) (on_span (pf_table_name from))) (\<lambda>table.
     let name = id_value (pf_binding_name from);
         binding = \<lparr>rb_id = next_binding_id, rb_binding_name = name, rb_table = table\<rparr> in
     bindr (scope_insert scope name (rb_id binding) (id_span (pf_binding_name from))) (\<lambda>scope'.
     Inr (binding, next_binding_id + 1, scope')))"

datatype projection_output_name = OutExplicit str | OutImplicit str | OutAnonymous

fun render_output_name :: "projection_output_name \<Rightarrow> str" where
  "render_output_name (OutExplicit name) = name"
| "render_output_name (OutImplicit name) = name"
| "render_output_name OutAnonymous = ''<anonymous>''"

record resolved_projection =
  rj_expr :: resolved_expr
  rj_output_name :: projection_output_name

definition resolve_projection ::
    "scope_map \<Rightarrow> resolved_binding list \<Rightarrow> schema_catalog \<Rightarrow> parsed_projection \<Rightarrow> resolved_projection tresult" where
  "resolve_projection scope bindings cat p =
     bindr (resolve_expr scope bindings cat (pp_expr p)) (\<lambda>e.
     Inr \<lparr>rj_expr = e,
          rj_output_name =
            (case pp_output_name p of
               ONExplicit ident \<Rightarrow> OutExplicit (id_value ident)
             | ONImplicit ident \<Rightarrow> OutImplicit (id_value ident)
             | ONAnonymous \<Rightarrow> OutAnonymous)\<rparr>)"

record resolved_join =
  rjn_kind :: join_kind
  rjn_right_binding :: binding_id
  rjn_on :: resolved_expr

section \<open>Row environments\<close>

type_synonym row_env = "binding_id \<rightharpoonup> nullability"

definition env_new :: "binding_id \<Rightarrow> row_env" where
  "env_new b = [b \<mapsto> NonNull]"

definition with_binding :: "row_env \<Rightarrow> binding_id \<Rightarrow> nullability \<Rightarrow> row_env" where
  "with_binding env b n = env(b \<mapsto> n)"

definition env_nullability :: "row_env \<Rightarrow> binding_id \<Rightarrow> nullability" where
  "env_nullability env b = (case env b of Some n \<Rightarrow> n | None \<Rightarrow> NonNull)"

definition mark_all_nullable :: "row_env \<Rightarrow> row_env" where
  "mark_all_nullable env = (\<lambda>b. map_option (\<lambda>_. Nullable) (env b))"

fun apply_join_nullability :: "join_kind \<Rightarrow> row_env \<Rightarrow> binding_id \<Rightarrow> row_env" where
  "apply_join_nullability JInner env b = with_binding env b NonNull"
| "apply_join_nullability JLeft env b = with_binding env b Nullable"
| "apply_join_nullability JRight env b = with_binding (mark_all_nullable env) b NonNull"
| "apply_join_nullability JFull env b = with_binding (mark_all_nullable env) b Nullable"

section \<open>Inference\<close>

record placeholder_state =
  ph_id :: placeholder_id
  ph_name :: "str option"
  ph_slot :: "nat option"
  ph_inferred_type :: "sql_type option"
  ph_nullability :: nullability
  ph_optional :: bool
  ph_first_span :: source_span

record pending_constraint =
  pn_left :: placeholder_id
  pn_right :: placeholder_id
  pn_span :: source_span

record inference =
  inf_placeholders :: "(placeholder_id \<times> placeholder_state) list"
  inf_pending :: "pending_constraint list"

definition inference_new :: inference where
  "inference_new = \<lparr>inf_placeholders = [], inf_pending = []\<rparr>"

definition fresh_placeholder :: "placeholder_id \<Rightarrow> source_span \<Rightarrow> placeholder_state" where
  "fresh_placeholder p span =
     \<lparr>ph_id = p, ph_name = None, ph_slot = None, ph_inferred_type = None, ph_nullability = NonNull,
      ph_optional = False, ph_first_span = span\<rparr>"

definition state_of :: "inference \<Rightarrow> placeholder_id \<Rightarrow> source_span \<Rightarrow> placeholder_state" where
  "state_of ic p span =
     (case bt_get (inf_placeholders ic) p of Some st \<Rightarrow> st | None \<Rightarrow> fresh_placeholder p span)"

definition put_state :: "inference \<Rightarrow> placeholder_id \<Rightarrow> placeholder_state \<Rightarrow> inference" where
  "put_state ic p st = ic\<lparr>inf_placeholders := bt_insert p st (inf_placeholders ic)\<rparr>"

definition placeholder_nullability :: "inference \<Rightarrow> placeholder_id \<Rightarrow> nullability" where
  "placeholder_nullability ic p =
     (case bt_get (inf_placeholders ic) p of Some st \<Rightarrow> ph_nullability st | None \<Rightarrow> NonNull)"

definition placeholder_sql_type :: "inference \<Rightarrow> placeholder_id \<Rightarrow> sql_type option" where
  "placeholder_sql_type ic p =
     (case bt_get (inf_placeholders ic) p of Some st \<Rightarrow> ph_inferred_type st | None \<Rightarrow> None)"

definition shown_placeholder :: "placeholder_state \<Rightarrow> str" where
  "shown_placeholder st = (case ph_name st of Some name \<Rightarrow> name | None \<Rightarrow> ''?'')"

definition expect_placeholder ::
    "inference \<Rightarrow> placeholder_id \<Rightarrow> sql_type \<Rightarrow> nullability \<Rightarrow> source_span \<Rightarrow> inference tresult" where
  "expect_placeholder ic p expected n span =
     (let st = state_of ic p span; st' = st\<lparr>ph_nullability := widen (ph_nullability st) n\<rparr> in
      case ph_inferred_type st of
        Some actual \<Rightarrow>
          (if actual \<noteq> expected then
             Inl (type_at (''placeholder `$'' @ shown_placeholder st @ ''` was inferred as `'' @ sql_type_name actual
               @ ''` but is also required to be `'' @ sql_type_name expected @ ''`'') span)
           else Inr (put_state ic p st'))
      | None \<Rightarrow> Inr (put_state ic p (st'\<lparr>ph_inferred_type := Some expected\<rparr>)))"

definition observe_placeholder :: "inference \<Rightarrow> resolved_placeholder_ref \<Rightarrow> inference" where
  "observe_placeholder ic p =
     (let st = state_of ic (rp_id p) (rp_span p) in
      put_state ic (rp_id p)
        (st\<lparr>ph_name := Some (rp_name p), ph_slot := Some (rp_slot p), ph_optional := ph_optional st \<or> rp_optional p\<rparr>))"

definition ensure_state :: "inference \<Rightarrow> placeholder_id \<Rightarrow> source_span \<Rightarrow> inference" where
  "ensure_state ic p span = put_state ic p (state_of ic p span)"

definition relate_placeholders ::
    "inference \<Rightarrow> placeholder_id \<Rightarrow> placeholder_id \<Rightarrow> source_span \<Rightarrow> inference" where
  "relate_placeholders ic left right span =
     (let ic' = (if left \<noteq> right
                  then ic\<lparr>inf_pending := inf_pending ic @ [\<lparr>pn_left = left, pn_right = right, pn_span = span\<rparr>]\<rparr>
                  else ic)
      in ensure_state (ensure_state ic' left span) right span)"

datatype value_type =
    VConcrete sql_type
  | VPlaceholder placeholder_id
  | VIntegerLiteral
  | VNumericLiteral
  | VStringLiteral
  | VNull

datatype expr_kind = ValueExpr | PredicateExpr

record expr_meta =
  em_kind :: expr_kind
  em_value_type :: value_type
  em_nullability :: nullability

definition is_integer_literal :: "str \<Rightarrow> bool" where
  "is_integer_literal number =
     list_all (\<lambda>c. (CHR ''0'' \<le> c \<and> c \<le> CHR ''9'') \<or> c = CHR ''_'' \<or> c = CHR ''-'' \<or> c = CHR ''+'') number"

fun literal_value_type :: "literal \<Rightarrow> value_type" where
  "literal_value_type (Number n) = (if is_integer_literal n then VIntegerLiteral else VNumericLiteral)"
| "literal_value_type (StringLit s) = VStringLiteral"
| "literal_value_type (Boolean b) = VConcrete TyBool"
| "literal_value_type NullLit = VNull"

definition finalize_literal_type :: "literal \<Rightarrow> sql_type option" where
  "finalize_literal_type l =
     (case literal_value_type l of
        VConcrete t \<Rightarrow> Some t
      | VIntegerLiteral \<Rightarrow> Some TyInt8
      | VNumericLiteral \<Rightarrow> Some TyNumeric
      | VStringLiteral \<Rightarrow> Some TyText
      | VNull \<Rightarrow> None
      | VPlaceholder _ \<Rightarrow> None)"

fun literal_compatible :: "sql_type \<Rightarrow> value_type \<Rightarrow> bool" where
  "literal_compatible t VIntegerLiteral = is_numeric_like t"
| "literal_compatible t VNumericLiteral = (t \<in> {TyFloat4, TyFloat8, TyNumeric})"
| "literal_compatible t VStringLiteral = is_text_like t"
| "literal_compatible t _ = False"

definition literals_comparable :: "value_type \<Rightarrow> value_type \<Rightarrow> bool" where
  "literals_comparable l r =
     (l \<in> {VIntegerLiteral, VNumericLiteral} \<and> r \<in> {VIntegerLiteral, VNumericLiteral}
      \<or> l = VStringLiteral \<and> r = VStringLiteral)"

fun describe_value_type :: "value_type \<Rightarrow> str" where
  "describe_value_type (VConcrete t) = sql_type_name t"
| "describe_value_type (VPlaceholder p) = ''placeholder''"
| "describe_value_type VIntegerLiteral = ''integer literal''"
| "describe_value_type VNumericLiteral = ''numeric literal''"
| "describe_value_type VStringLiteral = ''string literal''"
| "describe_value_type VNull = ''NULL''"

definition describe_expr_meta :: "expr_meta \<Rightarrow> str" where
  "describe_expr_meta m =
     (case em_kind m of
        PredicateExpr \<Rightarrow> ''a predicate expression''
      | ValueExpr \<Rightarrow> ''a value expression of SQL type `'' @ describe_value_type (em_value_type m) @ ''`'')"

definition ensure_signed_numeric_operand :: "expr_meta \<Rightarrow> source_span \<Rightarrow> unit tresult" where
  "ensure_signed_numeric_operand m span =
     (let bad = Inl (type_at (''typed_sql v1 only supports unary `+` and `-` on numeric expressions, but this operand is ''
                @ describe_expr_meta m) span) in
      case em_value_type m of
        VConcrete t \<Rightarrow> (if supports_unary_sign t then Inr () else bad)
      | VPlaceholder _ \<Rightarrow> Inr ()
      | VIntegerLiteral \<Rightarrow> Inr ()
      | VNumericLiteral \<Rightarrow> Inr ()
      | _ \<Rightarrow> bad)"

definition cannot_compare :: "str \<Rightarrow> str \<Rightarrow> source_span \<Rightarrow> typed_sql_error" where
  "cannot_compare l r span = type_at (''typed_sql v1 cannot compare `'' @ l @ ''` to `'' @ r @ ''`'') span"

definition constrain_comparison ::
    "expr_meta \<Rightarrow> source_span \<Rightarrow> expr_meta \<Rightarrow> source_span \<Rightarrow> source_span \<Rightarrow> inference \<Rightarrow> inference tresult" where
  "constrain_comparison left left_span right right_span span ic =
     (let null_error = Inl (type_at ''typed_sql v1 requires `IS NULL` / `IS NOT NULL` instead of direct `NULL` comparisons'' span);
          with_literal = (\<lambda>t v. if literal_compatible t v then Inr ic
                                else Inl (cannot_compare (sql_type_name t) (describe_value_type v) span));
          both_literals = (\<lambda>l r. if literals_comparable l r then Inr ic
                                 else Inl (cannot_compare (describe_value_type l) (describe_value_type r) span)) in
      case em_value_type left of
        VNull \<Rightarrow> null_error
      | VConcrete l \<Rightarrow>
          (case em_value_type right of
             VNull \<Rightarrow> null_error
           | VConcrete r \<Rightarrow>
               (if comparable_to l r then Inr ic else Inl (cannot_compare (sql_type_name l) (sql_type_name r) span))
           | VPlaceholder p \<Rightarrow> expect_placeholder ic p l (em_nullability left) right_span
           | v \<Rightarrow> with_literal l v)
      | VPlaceholder p \<Rightarrow>
          (case em_value_type right of
             VNull \<Rightarrow> null_error
           | VConcrete r \<Rightarrow> expect_placeholder ic p r (em_nullability right) left_span
           | VPlaceholder q \<Rightarrow> Inr (relate_placeholders ic p q span)
           | _ \<Rightarrow> Inr ic)
      | l \<Rightarrow>
          (case em_value_type right of
             VNull \<Rightarrow> null_error
           | VConcrete r \<Rightarrow> with_literal r l
           | VPlaceholder _ \<Rightarrow> Inr ic
           | r \<Rightarrow> both_literals l r))"

fun analyze_expr :: "row_env \<Rightarrow> schema_catalog \<Rightarrow> resolved_expr \<Rightarrow> inference \<Rightarrow> (expr_meta \<times> inference) tresult"
and analyze_chain :: "row_env \<Rightarrow> schema_catalog \<Rightarrow> source_span \<Rightarrow> resolved_expr list \<Rightarrow> nullability \<Rightarrow> inference \<Rightarrow> (nullability \<times> inference) tresult" where
  "analyze_expr env cat (ResolvedExpr span (RColumn c)) ic =
     (let sc = ct_column cat (rc_table c) (rc_column c) in
      Inr (\<lparr>em_kind = ValueExpr, em_value_type = VConcrete (sc_sql_type sc),
            em_nullability = widen (sc_nullability sc) (env_nullability env (rc_binding c))\<rparr>, ic))"
| "analyze_expr env cat (ResolvedExpr span (RPlaceholder p)) ic =
     (let ic' = observe_placeholder ic p in
      Inr (\<lparr>em_kind = ValueExpr, em_value_type = VPlaceholder (rp_id p),
            em_nullability = placeholder_nullability ic' (rp_id p)\<rparr>, ic'))"
| "analyze_expr env cat (ResolvedExpr span (RLiteral l)) ic =
     Inr (\<lparr>em_kind = ValueExpr, em_value_type = literal_value_type l,
           em_nullability = (if l = NullLit then Nullable else NonNull)\<rparr>, ic)"
| "analyze_expr env cat (ResolvedExpr span (ROptionalGroup i e)) ic = analyze_expr env cat e ic"
| "analyze_expr env cat (ResolvedExpr span (RUnary op e)) ic =
     bindr (analyze_expr env cat e ic) (\<lambda>(inner, ic').
     case op of
       OpNot \<Rightarrow>
         (if em_kind inner \<noteq> PredicateExpr then
            Inl (type_at (''typed_sql v1 requires `NOT` to apply to a predicate expression, but this operand is ''
              @ describe_expr_meta inner) span)
          else Inr (\<lparr>em_kind = PredicateExpr, em_value_type = VConcrete TyBool, em_nullability = em_nullability inner\<rparr>, ic'))
     | _ \<Rightarrow>
         bindr (ensure_signed_numeric_operand inner span) (\<lambda>_.
         Inr (\<lparr>em_kind = ValueExpr, em_value_type = em_value_type inner, em_nullability = em_nullability inner\<rparr>, ic')))"
| "analyze_expr env cat (ResolvedExpr span (RBinary op left right)) ic =
     bindr (analyze_expr env cat left ic) (\<lambda>(l, ic1).
     bindr (analyze_expr env cat right ic1) (\<lambda>(r, ic2).
     bindr (constrain_comparison l (re_span left) r (re_span right) span ic2) (\<lambda>ic3.
     Inr (\<lparr>em_kind = PredicateExpr, em_value_type = VConcrete TyBool,
           em_nullability = widen (em_nullability l) (em_nullability r)\<rparr>, ic3))))"
| "analyze_expr env cat (ResolvedExpr span (RIsNull negated e)) ic =
     bindr (analyze_expr env cat e ic) (\<lambda>(_, ic').
     Inr (\<lparr>em_kind = PredicateExpr, em_value_type = VConcrete TyBool, em_nullability = NonNull\<rparr>, ic'))"
| "analyze_expr env cat (ResolvedExpr span (RBoolChain op terms)) ic =
     bindr (analyze_chain env cat span terms NonNull ic) (\<lambda>(n, ic').
     Inr (\<lparr>em_kind = PredicateExpr, em_value_type = VConcrete TyBool, em_nullability = n\<rparr>, ic'))"
| "analyze_chain env cat span [] n ic = Inr (n, ic)"
| "analyze_chain env cat span (t # ts) n ic =
     bindr (analyze_expr env cat t ic) (\<lambda>(m, ic').
     if em_kind m \<noteq> PredicateExpr then
       Inl (type_at (''typed_sql v1 requires boolean chains to contain predicate expressions, but one term is ''
         @ describe_expr_meta m) span)
     else analyze_chain env cat span ts (widen n (em_nullability m)) ic')"

definition require_predicate :: "expr_meta \<Rightarrow> source_span \<Rightarrow> unit tresult" where
  "require_predicate m span =
     (if em_kind m = PredicateExpr then Inr ()
      else Inl (type_at (''typed_sql v1 requires predicate expressions in `WHERE` and `JOIN ... ON` clauses, but this expression is ''
             @ describe_expr_meta m) span))"

definition require_limit_like :: "expr_meta \<Rightarrow> source_span \<Rightarrow> inference \<Rightarrow> inference tresult" where
  "require_limit_like m span ic =
     (let bad = Inl (type_at (''typed_sql v1 requires LIMIT/OFFSET expressions to be int8-compatible, but this expression is ''
                @ describe_expr_meta m) span) in
      case em_value_type m of
        VConcrete t \<Rightarrow> (if limit_compatible t then Inr ic else bad)
      | VPlaceholder p \<Rightarrow> expect_placeholder ic p TyInt8 NonNull span
      | VIntegerLiteral \<Rightarrow> Inr ic
      | _ \<Rightarrow> bad)"

definition constrain_assignment ::
    "sql_type \<Rightarrow> nullability \<Rightarrow> expr_meta \<Rightarrow> source_span \<Rightarrow> inference \<Rightarrow> inference tresult" where
  "constrain_assignment expected expected_nullability actual span ic =
     (let bad = Inl (type_at (''typed_sql v1 cannot assign '' @ describe_expr_meta actual @ '' to `''
                @ sql_type_name expected @ ''` columns'') span) in
      case em_value_type actual of
        VConcrete t \<Rightarrow> (if comparable_to expected t then Inr ic else bad)
      | VPlaceholder p \<Rightarrow> expect_placeholder ic p expected expected_nullability span
      | VNull \<Rightarrow>
          (if expected_nullability = Nullable then Inr ic
           else Inl (type_at (''typed_sql v1 cannot assign NULL to non-null `'' @ sql_type_name expected @ ''` columns'') span))
      | v \<Rightarrow> (if literal_compatible expected v then Inr ic else bad))"


section \<open>Solving\<close>

fun solve_round :: "pending_constraint list \<Rightarrow> bool \<Rightarrow> inference \<Rightarrow> (bool \<times> inference) tresult" where
  "solve_round [] changed ic = Inr (changed, ic)"
| "solve_round (c # cs) changed ic =
     (case (placeholder_sql_type ic (pn_left c), placeholder_sql_type ic (pn_right c)) of
        (Some left, Some right) \<Rightarrow>
          (if left \<noteq> right then
             Inl (type_at (''placeholders in the same comparison must solve to one SQL type, but `''
               @ sql_type_name left @ ''` and `'' @ sql_type_name right @ ''` differ'') (pn_span c))
           else solve_round cs changed ic)
      | (Some left, None) \<Rightarrow>
          bindr (expect_placeholder ic (pn_right c) left (placeholder_nullability ic (pn_left c)) (pn_span c))
            (solve_round cs True)
      | (None, Some right) \<Rightarrow>
          bindr (expect_placeholder ic (pn_left c) right (placeholder_nullability ic (pn_right c)) (pn_span c))
            (solve_round cs True)
      | (None, None) \<Rightarrow> solve_round cs changed ic)"

definition untyped :: "inference \<Rightarrow> placeholder_id set" where
  "untyped ic =
     {p \<in> pn_left ` set (inf_pending ic) \<union> pn_right ` set (inf_pending ic). placeholder_sql_type ic p = None}"

lemma bt_get_bt_insert: "bt_get (bt_insert k v m) k' = (if k' = k then Some v else bt_get m k')"
  by (induction k v m rule: bt_insert.induct) (auto simp: bt_get_def)

lemma sql_type_put_state:
  "placeholder_sql_type (put_state ic p st) q = (if q = p then ph_inferred_type st else placeholder_sql_type ic q)"
  by (simp add: placeholder_sql_type_def put_state_def bt_get_bt_insert)

lemma nullability_put_state:
  "placeholder_nullability (put_state ic p st) q = (if q = p then ph_nullability st else placeholder_nullability ic q)"
  by (simp add: placeholder_nullability_def put_state_def bt_get_bt_insert)

lemma state_of_type: "ph_inferred_type (state_of ic p span) = placeholder_sql_type ic p"
  by (simp add: state_of_def placeholder_sql_type_def fresh_placeholder_def split: option.splits)

lemma state_of_nullability: "ph_nullability (state_of ic p span) = placeholder_nullability ic p"
  by (simp add: state_of_def placeholder_nullability_def fresh_placeholder_def split: option.splits)

lemmas inference_simps =
  sql_type_put_state nullability_put_state state_of_type state_of_nullability

lemma pending_put_state [simp]: "inf_pending (put_state ic p st) = inf_pending ic"
  by (simp add: put_state_def)

lemma expect_placeholder_ok:
  assumes "expect_placeholder ic p t n span = Inr ic'"
  shows "inf_pending ic' = inf_pending ic"
    and "placeholder_sql_type ic' q = (if q = p then Some t else placeholder_sql_type ic q)"
    and "placeholder_nullability ic' q =
         (if q = p then widen (placeholder_nullability ic p) n else placeholder_nullability ic q)"
    and "placeholder_sql_type ic p \<in> {None, Some t}"
  using assms
  by (auto simp: expect_placeholder_def Let_def inference_simps split: option.splits if_splits)

text \<open>
  A round of the solver that changes something gives a type to a placeholder of a pending comparison
  that had none. This is why the loop of \<open>solve\<close> ends.
\<close>

lemma solve_round_ok:
  assumes "solve_round cs changed ic = Inr (changed', ic')"
  shows "inf_pending ic' = inf_pending ic"
    and "placeholder_sql_type ic q = Some t \<Longrightarrow> placeholder_sql_type ic' q = Some t"
    and "changed \<Longrightarrow> changed'"
    and "changed' \<Longrightarrow> \<not> changed \<Longrightarrow>
      \<exists>p \<in> pn_left ` set cs \<union> pn_right ` set cs. placeholder_sql_type ic p = None \<and> placeholder_sql_type ic' p \<noteq> None"
proof -
  have "inf_pending ic' = inf_pending ic
    \<and> (\<forall>q t. placeholder_sql_type ic q = Some t \<longrightarrow> placeholder_sql_type ic' q = Some t)
    \<and> (changed \<longrightarrow> changed')
    \<and> (changed' \<and> \<not> changed \<longrightarrow> (\<exists>p \<in> pn_left ` set cs \<union> pn_right ` set cs.
        placeholder_sql_type ic p = None \<and> placeholder_sql_type ic' p \<noteq> None))"
    using assms
  proof (induction cs arbitrary: changed ic)
    case Nil
    then show ?case by simp
  next
    case (Cons c cs)
    have step: ?case
      if untyped_p: "placeholder_sql_type ic p = None" and p: "p \<in> {pn_left c, pn_right c}"
        and e: "expect_placeholder ic p t n span = Inr ic1" and r: "solve_round cs True ic1 = Inr (changed', ic')"
      for p t n span ic1
    proof -
      note ok = expect_placeholder_ok [OF e]
      note ih = Cons.IH [OF r]
      have "placeholder_sql_type ic' p = Some t"
        using ih ok(2) [of p] by simp
      moreover have "placeholder_sql_type ic' q = Some u" if "placeholder_sql_type ic q = Some u" for q u
        using ih ok(2) [of q] that untyped_p by (cases "q = p") auto
      ultimately show ?thesis
        using ih ok(1) untyped_p p by auto
    qed
    have skip: ?case if "solve_round cs changed ic = Inr (changed', ic')"
      using Cons.IH [OF that] by auto
    show ?case
    proof (cases "placeholder_sql_type ic (pn_left c)"; cases "placeholder_sql_type ic (pn_right c)")
      fix t
      assume *: "placeholder_sql_type ic (pn_left c) = None" "placeholder_sql_type ic (pn_right c) = Some t"
      with Cons.prems obtain ic1 where
        "expect_placeholder ic (pn_left c) t (placeholder_nullability ic (pn_right c)) (pn_span c) = Inr ic1"
        and "solve_round cs True ic1 = Inr (changed', ic')"
        by (auto elim!: bindr_InrE)
      with * show ?case
        by (intro step [of "pn_left c"]) auto
    next
      fix t
      assume *: "placeholder_sql_type ic (pn_left c) = Some t" "placeholder_sql_type ic (pn_right c) = None"
      with Cons.prems obtain ic1 where
        "expect_placeholder ic (pn_right c) t (placeholder_nullability ic (pn_left c)) (pn_span c) = Inr ic1"
        and "solve_round cs True ic1 = Inr (changed', ic')"
        by (auto elim!: bindr_InrE)
      with * show ?case
        by (intro step [of "pn_right c"]) auto
    qed (rule skip, use Cons.prems in \<open>simp split: if_splits\<close>)+
  qed
  then show "inf_pending ic' = inf_pending ic"
    and "placeholder_sql_type ic q = Some t \<Longrightarrow> placeholder_sql_type ic' q = Some t"
    and "changed \<Longrightarrow> changed'"
    and "changed' \<Longrightarrow> \<not> changed \<Longrightarrow>
      \<exists>p \<in> pn_left ` set cs \<union> pn_right ` set cs. placeholder_sql_type ic p = None \<and> placeholder_sql_type ic' p \<noteq> None"
    by blast+
qed

lemma finite_untyped [simp]: "finite (untyped ic)"
  by (simp add: untyped_def)

lemma solve_round_decreases:
  assumes "solve_round (inf_pending ic) False ic = Inr (True, ic')"
  shows "card (untyped ic') < card (untyped ic)"
proof (rule psubset_card_mono)
  note ok = solve_round_ok [OF assms]
  show "finite (untyped ic)" by simp
  obtain p where p: "p \<in> pn_left ` set (inf_pending ic) \<union> pn_right ` set (inf_pending ic)"
      "placeholder_sql_type ic p = None" "placeholder_sql_type ic' p \<noteq> None"
    using ok(4) by auto
  then have "p \<in> untyped ic - untyped ic'"
    by (simp add: untyped_def)
  moreover have "untyped ic' \<subseteq> untyped ic"
    using ok(1,2) by (auto simp: untyped_def) (metis not_None_eq)+
  ultimately show "untyped ic' \<subset> untyped ic" by blast
qed

function solve_loop :: "inference \<Rightarrow> inference tresult" where
  "solve_loop ic =
     bindr (solve_round (inf_pending ic) False ic) (\<lambda>(changed, ic').
     if changed then solve_loop ic' else Inr ic')"
  by pat_completeness auto
termination
  by (relation "measure (\<lambda>ic. card (untyped ic))") (auto dest: solve_round_decreases)

declare solve_loop.simps [simp del]

definition solve :: "inference \<Rightarrow> inference tresult" where
  "solve ic =
     bindr (solve_loop ic) (\<lambda>ic'.
     case filter (\<lambda>st. ph_inferred_type st = None) (bt_values (inf_placeholders ic')) of
       [] \<Rightarrow> Inr ic'
     | st # _ \<Rightarrow> Inl (type_at (''placeholder `$'' @ shown_placeholder st
         @ ''` is never constrained to a concrete SQL type in typed_sql v1'') (ph_first_span st)))"

record checked_parameter =
  cp_id :: placeholder_id
  cp_name :: str
  cp_slot :: nat
  cp_sql_type :: sql_type
  cp_nullability :: nullability
  cp_optional :: bool

definition checked_parameter_of :: "placeholder_state \<Rightarrow> checked_parameter option" where
  "checked_parameter_of st =
     map_option (\<lambda>t.
       \<lparr>cp_id = ph_id st,
        cp_name = (case ph_name st of Some name \<Rightarrow> name | None \<Rightarrow> ''p'' @ show_nat (ph_id st + 1)),
        cp_slot = (case ph_slot st of Some slot \<Rightarrow> slot | None \<Rightarrow> ph_id st + 1),
        cp_sql_type = t, cp_nullability = ph_nullability st, cp_optional = ph_optional st\<rparr>)
       (ph_inferred_type st)"

definition parameters :: "inference \<Rightarrow> checked_parameter list" where
  "parameters ic = sort_key cp_slot (List.map_filter checked_parameter_of (bt_values (inf_placeholders ic)))"

section \<open>Checked expressions\<close>

datatype checked_expr =
    CheckedExpr (ce_span: source_span) (ce_kind: expr_kind) (ce_sql_type: sql_type)
      (ce_nullability: nullability) (ce_node: checked_node)
and checked_node =
    CColumn resolved_column_ref
  | CPlaceholder resolved_placeholder_ref
  | CLiteral literal
  | COptionalGroup ast_id checked_expr "placeholder_id list"
  | CUnary unary_op checked_expr
  | CBinary binary_op checked_expr checked_expr
  | CIsNull bool checked_expr
  | CBoolChain bool_op "checked_expr list"

fun collect_optional_placeholders_into :: "checked_expr \<Rightarrow> placeholder_id list" where
  "collect_optional_placeholders_into (CheckedExpr sp k t n (CPlaceholder p)) =
     (if rp_optional p then [rp_id p] else [])"
| "collect_optional_placeholders_into (CheckedExpr sp k t n (COptionalGroup i e required)) =
     required @ collect_optional_placeholders_into e"
| "collect_optional_placeholders_into (CheckedExpr sp k t n (CUnary op e)) = collect_optional_placeholders_into e"
| "collect_optional_placeholders_into (CheckedExpr sp k t n (CIsNull negated e)) = collect_optional_placeholders_into e"
| "collect_optional_placeholders_into (CheckedExpr sp k t n (CBinary op l r)) =
     collect_optional_placeholders_into l @ collect_optional_placeholders_into r"
| "collect_optional_placeholders_into (CheckedExpr sp k t n (CBoolChain op ts)) =
     concat (map collect_optional_placeholders_into ts)"
| "collect_optional_placeholders_into (CheckedExpr sp k t n (CColumn c)) = []"
| "collect_optional_placeholders_into (CheckedExpr sp k t n (CLiteral l)) = []"

definition sort_dedup :: "nat list \<Rightarrow> nat list" where
  "sort_dedup xs = remdups_adj (sort xs)"

definition collect_optional_placeholders :: "checked_expr \<Rightarrow> placeholder_id list" where
  "collect_optional_placeholders e = sort_dedup (collect_optional_placeholders_into e)"

fun finalize_expr :: "row_env \<Rightarrow> schema_catalog \<Rightarrow> inference \<Rightarrow> resolved_expr \<Rightarrow> checked_expr tresult" where
  "finalize_expr env cat ic (ResolvedExpr span (RColumn c)) =
     (let sc = ct_column cat (rc_table c) (rc_column c) in
      Inr (CheckedExpr span ValueExpr (sc_sql_type sc)
        (widen (sc_nullability sc) (env_nullability env (rc_binding c))) (CColumn c)))"
| "finalize_expr env cat ic (ResolvedExpr span (RPlaceholder p)) =
     bindr (ok_or (internal (''placeholder `$'' @ rp_name p @ ''` should be solved before finalization''))
       (placeholder_sql_type ic (rp_id p))) (\<lambda>t.
     Inr (CheckedExpr span ValueExpr t (placeholder_nullability ic (rp_id p)) (CPlaceholder p)))"
| "finalize_expr env cat ic (ResolvedExpr span (RLiteral l)) =
     (case finalize_literal_type l of
        None \<Rightarrow> Inl (type_at ''typed_sql v1 does not infer a concrete type for bare `NULL` literals'' span)
      | Some t \<Rightarrow> Inr (CheckedExpr span ValueExpr t (if l = NullLit then Nullable else NonNull) (CLiteral l)))"
| "finalize_expr env cat ic (ResolvedExpr span (ROptionalGroup i e)) =
     bindr (finalize_expr env cat ic e) (\<lambda>inner.
     Inr (CheckedExpr span (ce_kind inner) (ce_sql_type inner) (ce_nullability inner)
       (COptionalGroup i inner (collect_optional_placeholders inner))))"
| "finalize_expr env cat ic (ResolvedExpr span (RUnary op e)) =
     bindr (finalize_expr env cat ic e) (\<lambda>inner.
     case op of
       OpNot \<Rightarrow> Inr (CheckedExpr span PredicateExpr TyBool (ce_nullability inner) (CUnary op inner))
     | _ \<Rightarrow>
         (if \<not> supports_unary_sign (ce_sql_type inner) then
            Inl (type_at (''typed_sql v1 only supports unary `+` and `-` on numeric expressions, but this operand has SQL type `''
              @ sql_type_name (ce_sql_type inner) @ ''`'') span)
          else Inr (CheckedExpr span ValueExpr (ce_sql_type inner) (ce_nullability inner) (CUnary op inner))))"
| "finalize_expr env cat ic (ResolvedExpr span (RBinary op left right)) =
     bindr (finalize_expr env cat ic left) (\<lambda>l.
     bindr (finalize_expr env cat ic right) (\<lambda>r.
     Inr (CheckedExpr span PredicateExpr TyBool (widen (ce_nullability l) (ce_nullability r)) (CBinary op l r))))"
| "finalize_expr env cat ic (ResolvedExpr span (RIsNull negated e)) =
     bindr (finalize_expr env cat ic e) (\<lambda>inner.
     Inr (CheckedExpr span PredicateExpr TyBool NonNull (CIsNull negated inner)))"
| "finalize_expr env cat ic (ResolvedExpr span (RBoolChain op terms)) =
     bindr (collect_r (\<lambda>t. finalize_expr env cat ic t) terms) (\<lambda>cs.
     Inr (CheckedExpr span PredicateExpr TyBool
       (foldl (\<lambda>acc c. widen acc (ce_nullability c)) NonNull cs) (CBoolChain op cs)))"


section \<open>Statements\<close>

record checked_binding =
  cb_id :: binding_id
  cb_binding_name :: str
  cb_table_name :: str
  cb_nullability :: nullability

record checked_projection =
  cj_ordinal :: nat
  cj_output_name :: str
  cj_sql_type :: sql_type
  cj_nullability :: nullability
  cj_expr :: checked_expr

record checked_join =
  cjn_kind :: join_kind
  cjn_right_binding :: binding_id
  cjn_on :: checked_expr

record checked_select =
  cs_bindings :: "checked_binding list"
  cs_projections :: "checked_projection list"
  cs_filter :: "checked_expr option"
  cs_joins :: "checked_join list"
  cs_order_by :: "checked_expr list"
  cs_limit :: "checked_expr option"
  cs_offset :: "checked_expr option"
  cs_parameters :: "checked_parameter list"

record checked_insert =
  ci_target :: checked_binding
  ci_projections :: "checked_projection list"
  ci_parameters :: "checked_parameter list"

record checked_assignment =
  ca_target :: resolved_column_ref
  ca_value :: checked_expr

record checked_update =
  cu_target :: checked_binding
  cu_assignments :: "checked_assignment list"
  cu_filter :: checked_expr
  cu_projections :: "checked_projection list"
  cu_parameters :: "checked_parameter list"

record checked_delete =
  cdl_target :: checked_binding
  cdl_filter :: checked_expr
  cdl_projections :: "checked_projection list"
  cdl_parameters :: "checked_parameter list"

datatype checked_statement_body =
    CkSelect checked_select
  | CkInsert checked_insert
  | CkUpdate checked_update
  | CkDelete checked_delete

record checked_statement =
  ckst_kind :: statement_kind
  ckst_result :: statement_result_kind
  ckst_body :: checked_statement_body

definition statement_parameters :: "checked_statement \<Rightarrow> checked_parameter list" where
  "statement_parameters s =
     (case ckst_body s of
        CkSelect c \<Rightarrow> cs_parameters c
      | CkInsert c \<Rightarrow> ci_parameters c
      | CkUpdate c \<Rightarrow> cu_parameters c
      | CkDelete c \<Rightarrow> cdl_parameters c)"

definition opt_r :: "('a \<Rightarrow> 'b tresult) \<Rightarrow> 'a option \<Rightarrow> 'b option tresult" where
  "opt_r f x = (case x of None \<Rightarrow> Inr None | Some a \<Rightarrow> bindr (f a) (\<lambda>b. Inr (Some b)))"

fun resolve_joins ::
    "schema_catalog \<Rightarrow> parsed_join list \<Rightarrow> nat \<Rightarrow> scope_map \<Rightarrow> resolved_binding list
     \<Rightarrow> (resolved_join list \<times> scope_map \<times> resolved_binding list) tresult" where
  "resolve_joins cat [] next scope bindings = Inr ([], scope, bindings)"
| "resolve_joins cat (j # js) next scope bindings =
     bindr (resolve_from (pj_right j) cat next scope) (\<lambda>(right, next', scope').
     let bindings' = bindings @ [right] in
     bindr (resolve_expr scope' bindings' cat (pj_on j)) (\<lambda>on.
     bindr (resolve_joins cat js next' scope' bindings') (\<lambda>(rest, scope'', bindings'').
     Inr (\<lparr>rjn_kind = pj_kind j, rjn_right_binding = rb_id right, rjn_on = on\<rparr> # rest, scope'', bindings''))))"

fun analyze_joins ::
    "schema_catalog \<Rightarrow> resolved_join list \<Rightarrow> row_env \<Rightarrow> inference \<Rightarrow> (row_env list \<times> row_env \<times> inference) tresult" where
  "analyze_joins cat [] env ic = Inr ([], env, ic)"
| "analyze_joins cat (j # js) env ic =
     (let on_env = with_binding env (rjn_right_binding j) NonNull in
      bindr (analyze_expr on_env cat (rjn_on j) ic) (\<lambda>(on, ic').
      bindr (require_predicate on (re_span (rjn_on j))) (\<lambda>_.
      bindr (analyze_joins cat js (apply_join_nullability (rjn_kind j) env (rjn_right_binding j)) ic') (\<lambda>(plans, env', ic'').
      Inr (on_env # plans, env', ic'')))))"

definition needs_alias :: "resolved_projection \<Rightarrow> bool" where
  "needs_alias p =
     ((case rj_output_name p of OutExplicit _ \<Rightarrow> False | _ \<Rightarrow> True)
      \<and> (case re_node (rj_expr p) of RColumn _ \<Rightarrow> False | _ \<Rightarrow> True))"

fun analyze_projections ::
    "str \<Rightarrow> row_env \<Rightarrow> schema_catalog \<Rightarrow> resolved_projection list \<Rightarrow> inference \<Rightarrow> inference tresult" where
  "analyze_projections what env cat [] ic = Inr ic"
| "analyze_projections what env cat (p # ps) ic =
     (if needs_alias p then
        Inl (type_at (''typed_sql v1 requires computed '' @ what @ '' expressions to use `AS alias`'') (re_span (rj_expr p)))
      else bindr (analyze_expr env cat (rj_expr p) ic) (\<lambda>(_, ic'). analyze_projections what env cat ps ic'))"

fun analyze_exprs :: "row_env \<Rightarrow> schema_catalog \<Rightarrow> resolved_expr list \<Rightarrow> inference \<Rightarrow> inference tresult" where
  "analyze_exprs env cat [] ic = Inr ic"
| "analyze_exprs env cat (e # es) ic = bindr (analyze_expr env cat e ic) (\<lambda>(_, ic'). analyze_exprs env cat es ic')"

definition analyze_predicate :: "row_env \<Rightarrow> schema_catalog \<Rightarrow> resolved_expr \<Rightarrow> inference \<Rightarrow> inference tresult" where
  "analyze_predicate env cat e ic =
     bindr (analyze_expr env cat e ic) (\<lambda>(m, ic').
     bindr (require_predicate m (re_span e)) (\<lambda>_. Inr ic'))"

definition analyze_limit :: "row_env \<Rightarrow> schema_catalog \<Rightarrow> resolved_expr option \<Rightarrow> inference \<Rightarrow> inference tresult" where
  "analyze_limit env cat x ic =
     (case x of
        None \<Rightarrow> Inr ic
      | Some e \<Rightarrow> bindr (analyze_expr env cat e ic) (\<lambda>(m, ic'). require_limit_like m (re_span e) ic'))"

definition finalize_projection ::
    "row_env \<Rightarrow> schema_catalog \<Rightarrow> inference \<Rightarrow> nat \<times> resolved_projection \<Rightarrow> checked_projection tresult" where
  "finalize_projection env cat ic = (\<lambda>(ordinal, p).
     bindr (finalize_expr env cat ic (rj_expr p)) (\<lambda>e.
     Inr \<lparr>cj_ordinal = ordinal, cj_output_name = render_output_name (rj_output_name p),
          cj_sql_type = ce_sql_type e, cj_nullability = ce_nullability e, cj_expr = e\<rparr>))"

definition finalize_projections ::
    "row_env \<Rightarrow> schema_catalog \<Rightarrow> inference \<Rightarrow> resolved_projection list \<Rightarrow> checked_projection list tresult" where
  "finalize_projections env cat ic ps = collect_r (finalize_projection env cat ic) (enumerate 0 ps)"

definition checked_target_binding :: "row_env \<Rightarrow> schema_catalog \<Rightarrow> resolved_binding \<Rightarrow> checked_binding" where
  "checked_target_binding env cat b =
     \<lparr>cb_id = rb_id b, cb_binding_name = rb_binding_name b, cb_table_name = display_name (ct_table cat (rb_table b)),
      cb_nullability = env_nullability env (rb_id b)\<rparr>"

definition finalize_joins ::
    "schema_catalog \<Rightarrow> inference \<Rightarrow> (resolved_join \<times> row_env) list \<Rightarrow> checked_join list tresult" where
  "finalize_joins cat ic =
     collect_r (\<lambda>(j, on_env).
       bindr (finalize_expr on_env cat ic (rjn_on j)) (\<lambda>on.
       Inr \<lparr>cjn_kind = rjn_kind j, cjn_right_binding = rjn_right_binding j, cjn_on = on\<rparr>))"

record resolved_select =
  rs_from :: resolved_binding
  rs_bindings :: "resolved_binding list"
  rs_joins :: "resolved_join list"
  rs_projections :: "resolved_projection list"
  rs_filter :: "resolved_expr option"
  rs_order_by :: "resolved_expr list"
  rs_limit :: "resolved_expr option"
  rs_offset :: "resolved_expr option"

text \<open>\<open>resolve_select\<close> in its three phases: names, constraints, checked expressions.\<close>

definition resolve_names :: "parsed_select \<Rightarrow> schema_catalog \<Rightarrow> resolved_select tresult" where
  "resolve_names select cat =
     bindr (resolve_from (ps_from select) cat 0 []) (\<lambda>(from, next, scope0).
     bindr (resolve_joins cat (ps_joins select) next scope0 [from]) (\<lambda>(joins, scope, bindings).
     bindr (collect_r (resolve_projection scope bindings cat) (ps_projections select)) (\<lambda>projections.
     bindr (opt_r (resolve_expr scope bindings cat) (ps_filter select)) (\<lambda>filter_expr.
     bindr (collect_r (\<lambda>item. resolve_expr scope bindings cat (po_expr item)) (ps_order_by select)) (\<lambda>order_by.
     bindr (opt_r (\<lambda>l. resolve_expr scope bindings cat (plim_expr l)) (ps_limit select)) (\<lambda>limit.
     bindr (opt_r (\<lambda>l. resolve_expr scope bindings cat (plim_expr l)) (ps_offset select)) (\<lambda>offset.
     Inr \<lparr>rs_from = from, rs_bindings = bindings, rs_joins = joins, rs_projections = projections,
          rs_filter = filter_expr, rs_order_by = order_by, rs_limit = limit, rs_offset = offset\<rparr>)))))))"

definition analyze_select :: "resolved_select \<Rightarrow> schema_catalog \<Rightarrow> (row_env list \<times> row_env \<times> inference) tresult" where
  "analyze_select r cat =
     bindr (analyze_joins cat (rs_joins r) (env_new (rb_id (rs_from r))) inference_new) (\<lambda>(plans, env, ic1).
     bindr (case rs_filter r of None \<Rightarrow> Inr ic1 | Some e \<Rightarrow> analyze_predicate env cat e ic1) (\<lambda>ic2.
     bindr (analyze_projections ''projection'' env cat (rs_projections r) ic2) (\<lambda>ic3.
     bindr (analyze_exprs env cat (rs_order_by r) ic3) (\<lambda>ic4.
     bindr (analyze_limit env cat (rs_limit r) ic4) (\<lambda>ic5.
     bindr (analyze_limit env cat (rs_offset r) ic5) (\<lambda>ic6.
     Inr (plans, env, ic6)))))))"

definition finalize_select ::
    "resolved_select \<Rightarrow> schema_catalog \<Rightarrow> row_env list \<Rightarrow> row_env \<Rightarrow> inference \<Rightarrow> checked_select tresult" where
  "finalize_select r cat plans env ic =
     bindr (finalize_joins cat ic (zip (rs_joins r) plans)) (\<lambda>joins.
     bindr (opt_r (finalize_expr env cat ic) (rs_filter r)) (\<lambda>filter_expr.
     bindr (finalize_projections env cat ic (rs_projections r)) (\<lambda>projections.
     bindr (collect_r (finalize_expr env cat ic) (rs_order_by r)) (\<lambda>order_by.
     bindr (opt_r (finalize_expr env cat ic) (rs_limit r)) (\<lambda>limit.
     bindr (opt_r (finalize_expr env cat ic) (rs_offset r)) (\<lambda>offset.
     Inr \<lparr>cs_bindings = map (checked_target_binding env cat) (rs_bindings r), cs_projections = projections,
          cs_filter = filter_expr, cs_joins = joins, cs_order_by = order_by, cs_limit = limit,
          cs_offset = offset, cs_parameters = parameters ic\<rparr>))))))"

definition resolve_select :: "parsed_select \<Rightarrow> schema_catalog \<Rightarrow> checked_select tresult" where
  "resolve_select select cat =
     bindr (resolve_names select cat) (\<lambda>r.
     bindr (analyze_select r cat) (\<lambda>(plans, env, ic).
     bindr (solve ic) (\<lambda>ic'.
     finalize_select r cat plans env ic')))"

definition resolve_single_target ::
    "parsed_from \<Rightarrow> schema_catalog \<Rightarrow> (resolved_binding \<times> scope_map \<times> resolved_binding list) tresult" where
  "resolve_single_target from cat =
     bindr (resolve_from from cat 0 []) (\<lambda>(binding, _, scope). Inr (binding, scope, [binding]))"

definition resolve_target_column :: "schema_table \<Rightarrow> str \<Rightarrow> source_span \<Rightarrow> column_id tresult" where
  "resolve_target_column table name span =
     ok_or (resolve_at (''unknown column `'' @ name @ ''` on target table `'' @ display_name table
       @ ''`; available columns: '' @ available_columns table) span) (st_columns_by_name table name)"

definition resolve_assignment_target ::
    "scope_map \<Rightarrow> resolved_binding list \<Rightarrow> schema_catalog \<Rightarrow> parsed_assignment_target \<Rightarrow> resolved_column_ref tresult" where
  "resolve_assignment_target scope bindings cat t =
     bindr (case pt_binding t of
              Some b \<Rightarrow> scope_lookup scope (id_value b) (id_span b)
            | None \<Rightarrow> Inr (rb_id (bindings ! 0))) (\<lambda>binding_id.
     let table_id = rb_table (bindings ! binding_id) in
     bindr (resolve_target_column (ct_table cat table_id) (id_value (pt_column t)) (id_span (pt_column t))) (\<lambda>column_id.
     Inr \<lparr>rc_binding = binding_id, rc_table = table_id, rc_column = column_id, rc_span = pt_span t\<rparr>))"

definition resolve_returning ::
    "scope_map \<Rightarrow> resolved_binding list \<Rightarrow> row_env \<Rightarrow> schema_catalog \<Rightarrow> parsed_projection list \<Rightarrow> inference
     \<Rightarrow> (resolved_projection list \<times> inference) tresult" where
  "resolve_returning scope bindings env cat ps ic =
     bindr (collect_r (resolve_projection scope bindings cat) ps) (\<lambda>rs.
     bindr (analyze_projections ''RETURNING'' env cat rs ic) (\<lambda>ic'. Inr (rs, ic')))"

definition assign_value ::
    "scope_map \<Rightarrow> resolved_binding list \<Rightarrow> row_env \<Rightarrow> schema_catalog \<Rightarrow> table_id \<Rightarrow> column_id \<Rightarrow> parsed_expr \<Rightarrow> inference
     \<Rightarrow> (resolved_expr \<times> inference) tresult" where
  "assign_value scope bindings env cat table_id column_id e ic =
     bindr (resolve_expr scope bindings cat e) (\<lambda>r.
     bindr (analyze_expr env cat r ic) (\<lambda>(m, ic').
     let column = ct_column cat table_id column_id in
     bindr (constrain_assignment (sc_sql_type column) (sc_nullability column) m (re_span r) ic') (\<lambda>ic''.
     Inr (r, ic''))))"

fun insert_row ::
    "scope_map \<Rightarrow> resolved_binding list \<Rightarrow> row_env \<Rightarrow> schema_catalog \<Rightarrow> table_id \<Rightarrow> (parsed_expr \<times> column_id) list \<Rightarrow> inference
     \<Rightarrow> inference tresult" where
  "insert_row scope bindings env cat table_id [] ic = Inr ic"
| "insert_row scope bindings env cat table_id ((e, c) # rest) ic =
     bindr (assign_value scope bindings env cat table_id c e ic) (\<lambda>(_, ic').
     insert_row scope bindings env cat table_id rest ic')"

fun insert_rows ::
    "scope_map \<Rightarrow> resolved_binding list \<Rightarrow> row_env \<Rightarrow> schema_catalog \<Rightarrow> table_id \<Rightarrow> column_id list \<Rightarrow> parsed_values_row list \<Rightarrow> inference
     \<Rightarrow> inference tresult" where
  "insert_rows scope bindings env cat table_id columns [] ic = Inr ic"
| "insert_rows scope bindings env cat table_id columns (row # rows) ic =
     (if length (pv_values row) \<noteq> length columns then
        Inl (type_at (''typed_sql v1 expected '' @ show_nat (length columns)
          @ '' INSERT values for target columns, but found '' @ show_nat (length (pv_values row))) (pv_span row))
      else bindr (insert_row scope bindings env cat table_id (zip (pv_values row) columns) ic) (\<lambda>ic'.
           insert_rows scope bindings env cat table_id columns rows ic'))"

definition resolve_insert :: "parsed_insert \<Rightarrow> schema_catalog \<Rightarrow> checked_insert tresult" where
  "resolve_insert ins cat =
     bindr (resolve_single_target (pi_target ins) cat) (\<lambda>(target, scope, bindings).
     let env = env_new (rb_id target); table_id = rb_table (bindings ! 0); table = ct_table cat table_id in
     bindr (if pi_columns ins = [] then Inr [0..<length (st_columns table)]
            else collect_r (\<lambda>c. resolve_target_column table (id_value c) (id_span c)) (pi_columns ins)) (\<lambda>columns.
     bindr (insert_rows scope bindings env cat table_id columns (pi_values ins) inference_new) (\<lambda>ic1.
     bindr (resolve_returning scope bindings env cat (pi_returning ins) ic1) (\<lambda>(ps, ic2).
     bindr (solve ic2) (\<lambda>ic.
     bindr (finalize_projections env cat ic ps) (\<lambda>projections.
     Inr \<lparr>ci_target = checked_target_binding env cat target, ci_projections = projections,
          ci_parameters = parameters ic\<rparr>))))))"

fun update_assignments ::
    "scope_map \<Rightarrow> resolved_binding list \<Rightarrow> row_env \<Rightarrow> schema_catalog \<Rightarrow> parsed_assignment list \<Rightarrow> inference
     \<Rightarrow> ((resolved_column_ref \<times> resolved_expr) list \<times> inference) tresult" where
  "update_assignments scope bindings env cat [] ic = Inr ([], ic)"
| "update_assignments scope bindings env cat (a # rest) ic =
     bindr (resolve_assignment_target scope bindings cat (pa_target a)) (\<lambda>t.
     bindr (assign_value scope bindings env cat (rc_table t) (rc_column t) (pa_value a) ic) (\<lambda>(v, ic').
     bindr (update_assignments scope bindings env cat rest ic') (\<lambda>(vs, ic'').
     Inr ((t, v) # vs, ic''))))"

definition resolve_update :: "parsed_update \<Rightarrow> schema_catalog \<Rightarrow> checked_update tresult" where
  "resolve_update upd cat =
     bindr (resolve_single_target (pu_target upd) cat) (\<lambda>(target, scope, bindings).
     let env = env_new (rb_id target) in
     bindr (update_assignments scope bindings env cat (pu_assignments upd) inference_new) (\<lambda>(assignments, ic1).
     bindr (resolve_expr scope bindings cat (pu_filter upd)) (\<lambda>filter_expr.
     bindr (analyze_predicate env cat filter_expr ic1) (\<lambda>ic2.
     bindr (resolve_returning scope bindings env cat (pu_returning upd) ic2) (\<lambda>(ps, ic3).
     bindr (solve ic3) (\<lambda>ic.
     bindr (collect_r (\<lambda>(t, v). bindr (finalize_expr env cat ic v) (\<lambda>e. Inr \<lparr>ca_target = t, ca_value = e\<rparr>)) assignments) (\<lambda>checked.
     bindr (finalize_expr env cat ic filter_expr) (\<lambda>f.
     bindr (finalize_projections env cat ic ps) (\<lambda>projections.
     Inr \<lparr>cu_target = checked_target_binding env cat target, cu_assignments = checked, cu_filter = f,
          cu_projections = projections, cu_parameters = parameters ic\<rparr>)))))))))"

definition resolve_delete :: "parsed_delete \<Rightarrow> schema_catalog \<Rightarrow> checked_delete tresult" where
  "resolve_delete del cat =
     bindr (resolve_single_target (pd_target del) cat) (\<lambda>(target, scope, bindings).
     let env = env_new (rb_id target) in
     bindr (resolve_expr scope bindings cat (pd_filter del)) (\<lambda>filter_expr.
     bindr (analyze_predicate env cat filter_expr inference_new) (\<lambda>ic1.
     bindr (resolve_returning scope bindings env cat (pd_returning del) ic1) (\<lambda>(ps, ic2).
     bindr (solve ic2) (\<lambda>ic.
     bindr (finalize_expr env cat ic filter_expr) (\<lambda>f.
     bindr (finalize_projections env cat ic ps) (\<lambda>projections.
     Inr \<lparr>cdl_target = checked_target_binding env cat target, cdl_filter = f,
          cdl_projections = projections, cdl_parameters = parameters ic\<rparr>)))))))"

definition checked_statement_of ::
    "statement_kind \<Rightarrow> statement_result_kind \<Rightarrow> ('a \<Rightarrow> checked_statement_body) \<Rightarrow> 'a tresult \<Rightarrow> checked_statement tresult" where
  "checked_statement_of k res body r = bindr r (\<lambda>c. Inr \<lparr>ckst_kind = k, ckst_result = res, ckst_body = body c\<rparr>)"

definition resolve_statement :: "parsed_statement \<Rightarrow> schema_catalog \<Rightarrow> checked_statement tresult" where
  "resolve_statement s cat =
     (case pst_kind s of
        SkQuery \<Rightarrow>
          bindr (ok_or (internal ''query statement missing SELECT body'') (as_select s)) (\<lambda>select.
          checked_statement_of SkQuery ResRows CkSelect (resolve_select select cat))
      | SkInsert \<Rightarrow>
          checked_statement_of SkInsert (pst_result s) CkInsert
            (case pst_body s of
               BodyRows rows \<Rightarrow>
                 (case prs_body rows of RInsert i \<Rightarrow> resolve_insert i cat
                  | _ \<Rightarrow> Inl (internal ''insert statement did not carry insert body''))
             | BodyCommand c \<Rightarrow>
                 (case pcs_body c of CInsert i \<Rightarrow> resolve_insert i cat
                  | _ \<Rightarrow> Inl (internal ''insert command did not carry insert body'')))
      | SkUpdate \<Rightarrow>
          checked_statement_of SkUpdate (pst_result s) CkUpdate
            (case pst_body s of
               BodyRows rows \<Rightarrow>
                 (case prs_body rows of RUpdate u \<Rightarrow> resolve_update u cat
                  | _ \<Rightarrow> Inl (internal ''update statement did not carry update body''))
             | BodyCommand c \<Rightarrow>
                 (case pcs_body c of CUpdate u \<Rightarrow> resolve_update u cat
                  | _ \<Rightarrow> Inl (internal ''update command did not carry update body'')))
      | SkDelete \<Rightarrow>
          checked_statement_of SkDelete (pst_result s) CkDelete
            (case pst_body s of
               BodyRows rows \<Rightarrow>
                 (case prs_body rows of RDelete d \<Rightarrow> resolve_delete d cat
                  | _ \<Rightarrow> Inl (internal ''delete statement did not carry delete body''))
             | BodyCommand c \<Rightarrow>
                 (case pcs_body c of CDelete d \<Rightarrow> resolve_delete d cat
                  | _ \<Rightarrow> Inl (internal ''delete command did not carry delete body''))))"


section \<open>Invariants of the inference\<close>

text \<open>
  The passes change the inference context only through \<open>expect_placeholder\<close>, \<open>observe_placeholder\<close>
  and \<open>relate_placeholders\<close>. What these three keep, every pass keeps.
\<close>

locale inference_invariant =
  fixes P :: "inference \<Rightarrow> bool"
  assumes new: "P inference_new"
    and expect: "P ic \<Longrightarrow> expect_placeholder ic p t n span = Inr ic' \<Longrightarrow> P ic'"
    and observe: "P ic \<Longrightarrow> P (observe_placeholder ic r)"
    and relate: "P ic \<Longrightarrow> P (relate_placeholders ic p q span)"
begin

lemma comparison: "P ic \<Longrightarrow> constrain_comparison l ls r rs span ic = Inr ic' \<Longrightarrow> P ic'"
  by (auto simp: constrain_comparison_def Let_def intro: expect relate split: value_type.splits if_splits)

lemma assignment: "P ic \<Longrightarrow> constrain_assignment t n m span ic = Inr ic' \<Longrightarrow> P ic'"
  by (auto simp: constrain_assignment_def Let_def intro: expect split: value_type.splits if_splits)

lemma limit_like: "P ic \<Longrightarrow> require_limit_like m span ic = Inr ic' \<Longrightarrow> P ic'"
  by (auto simp: require_limit_like_def Let_def intro: expect split: value_type.splits if_splits)

lemma analyze:
  "P ic \<Longrightarrow> analyze_expr env cat e ic = Inr (m, ic') \<Longrightarrow> P ic'"
  "P ic \<Longrightarrow> analyze_chain env cat span es n ic = Inr (n', ic') \<Longrightarrow> P ic'"
proof (induction env cat e ic and env cat span es n ic arbitrary: m ic' and n' ic'
    rule: analyze_expr_analyze_chain.induct)
  case (6 env cat span op left right ic)
  from "6.prems"(2) obtain l ic1 r ic2 where
    l: "analyze_expr env cat left ic = Inr (l, ic1)"
    and r: "analyze_expr env cat right ic1 = Inr (r, ic2)"
    and c: "constrain_comparison l (re_span left) r (re_span right) span ic2 = Inr ic'"
    by (auto elim!: bindr_InrE)
  have "P ic1" by (rule "6.IH"(1) [OF "6.prems"(1) l])
  then have "P ic2" by (rule "6.IH"(2) [OF l refl _ r])
  then show ?case by (rule comparison [OF _ c])
qed (auto simp: Let_def elim!: bindr_InrE intro: observe split: if_splits unary_op.splits)

lemma predicate: "P ic \<Longrightarrow> analyze_predicate env cat e ic = Inr ic' \<Longrightarrow> P ic'"
  by (auto simp: analyze_predicate_def elim!: bindr_InrE intro: analyze(1))

lemma limit: "P ic \<Longrightarrow> analyze_limit env cat x ic = Inr ic' \<Longrightarrow> P ic'"
  by (auto simp: analyze_limit_def elim!: bindr_InrE intro: analyze(1) limit_like split: option.splits)

lemma exprs: "P ic \<Longrightarrow> analyze_exprs env cat es ic = Inr ic' \<Longrightarrow> P ic'"
  by (induction es arbitrary: ic) (auto elim!: bindr_InrE intro: analyze(1))

lemma projections: "P ic \<Longrightarrow> analyze_projections what env cat ps ic = Inr ic' \<Longrightarrow> P ic'"
  by (induction ps arbitrary: ic) (auto elim!: bindr_InrE intro: analyze(1) split: if_splits)

lemma joins: "P ic \<Longrightarrow> analyze_joins cat js env ic = Inr (plans, env', ic') \<Longrightarrow> P ic'"
proof (induction js arbitrary: env ic plans)
  case (Cons j js)
  then show ?case
    by (auto simp: Let_def elim!: bindr_InrE dest!: analyze(1) [rotated])
qed simp

lemma select:
  assumes "analyze_select r cat = Inr (plans, env, ic)"
  shows "P ic"
proof -
  from assms obtain ic1 ic2 ic3 ic4 ic5 where
    1: "analyze_joins cat (rs_joins r) (env_new (rb_id (rs_from r))) inference_new = Inr (plans, env, ic1)"
    and 2: "(case rs_filter r of None \<Rightarrow> Inr ic1 | Some e \<Rightarrow> analyze_predicate env cat e ic1) = Inr ic2"
    and 3: "analyze_projections ''projection'' env cat (rs_projections r) ic2 = Inr ic3"
    and 4: "analyze_exprs env cat (rs_order_by r) ic3 = Inr ic4"
    and 5: "analyze_limit env cat (rs_limit r) ic4 = Inr ic5"
    and 6: "analyze_limit env cat (rs_offset r) ic5 = Inr ic"
    by (auto simp: analyze_select_def elim!: bindr_InrE)
  have "P ic2"
    using 2 joins [OF new 1] by (auto split: option.splits dest: predicate [rotated])
  then show ?thesis
    using limit [OF limit [OF exprs [OF projections [OF _ 3] 4] 5] 6] by blast
qed

lemma round: "P ic \<Longrightarrow> solve_round cs ch ic = Inr (ch', ic') \<Longrightarrow> P ic'"
  by (induction cs arbitrary: ch ic) (auto elim!: bindr_InrE intro: expect split: option.splits if_splits)

lemma loop: "P ic \<Longrightarrow> solve_loop ic = Inr ic' \<Longrightarrow> P ic'"
proof (induction ic rule: solve_loop.induct)
  case (1 ic)
  from "1.prems"(2) obtain ch ic1 where r: "solve_round (inf_pending ic) False ic = Inr (ch, ic1)"
    and l: "(if ch then solve_loop ic1 else Inr ic1) = Inr ic'"
    by (subst (asm) solve_loop.simps) (auto elim!: bindr_InrE)
  have "P ic1" by (rule round [OF "1.prems"(1) r])
  then show ?case
    using "1.IH" [OF r refl] l by (cases ch) auto
qed

lemma solved: "P ic \<Longrightarrow> solve ic = Inr ic' \<Longrightarrow> P ic'"
  by (auto simp: solve_def elim!: bindr_InrE intro: loop split: list.splits)

end

end
