(* ===== verification/Typed_Soundness.thy ===== *)
theory Typed_Soundness
  imports Typed_Resolver
begin

text \<open>
  Soundness of the checker. What a checked statement promises is stated against the meaning SQL gives
  to it: three-valued expressions, inner and outer joins. The data types of the server are a parameter
  \<open>'v sql_sem\<close>; the theorems ask of it only what PostgreSQL documents about the types of literals, of
  signed numbers and of comparisons.
\<close>

section \<open>What expressions and joins mean\<close>

record 'v sql_sem =
  sem_type :: "'v \<Rightarrow> sql_type"
  sem_literal :: "literal \<Rightarrow> 'v"
  sem_sign :: "unary_op \<Rightarrow> 'v \<Rightarrow> 'v"
  sem_compare :: "binary_op \<Rightarrow> 'v \<Rightarrow> 'v \<Rightarrow> bool"
  sem_bool :: "bool \<Rightarrow> 'v"
  sem_truth :: "'v \<Rightarrow> bool"

text \<open>
  The documented types: a sign keeps the type of a number, truth values are \<open>bool\<close>, a string constant
  is \<open>text\<close>, a constant with a decimal point or an exponent is \<open>numeric\<close>.
\<close>

definition sem_typed :: "'v sql_sem \<Rightarrow> bool" where
  "sem_typed S \<longleftrightarrow>
     (\<forall>b. sem_type S (sem_bool S b) = TyBool)
     \<and> (\<forall>op v. sem_type S (sem_sign S op v) = sem_type S v)
     \<and> (\<forall>b. sem_type S (sem_literal S (Boolean b)) = TyBool)
     \<and> (\<forall>s. sem_type S (sem_literal S (StringLit s)) = TyText)
     \<and> (\<forall>n. \<not> is_integer_literal n \<longrightarrow> sem_type S (sem_literal S (Number n)) = TyNumeric)"

type_synonym 'v table_row = "column_id \<Rightarrow> 'v option"
type_synonym 'v sql_row = "binding_id \<Rightarrow> 'v table_row option"
type_synonym 'v sql_args = "placeholder_id \<Rightarrow> 'v option"

definition chain_value :: "bool_op \<Rightarrow> bool option list \<Rightarrow> bool option" where
  "chain_value op vs =
     (case op of
        OpAnd \<Rightarrow> (if Some False \<in> set vs then Some False else if None \<in> set vs then None else Some True)
      | OpOr \<Rightarrow> (if Some True \<in> set vs then Some True else if None \<in> set vs then None else Some False))"

fun eval :: "'v sql_sem \<Rightarrow> 'v sql_args \<Rightarrow> 'v sql_row \<Rightarrow> checked_expr \<Rightarrow> 'v option" where
  "eval S args row (CheckedExpr sp k t n (CColumn c)) =
     (case row (rc_binding c) of None \<Rightarrow> None | Some r \<Rightarrow> r (rc_column c))"
| "eval S args row (CheckedExpr sp k t n (CPlaceholder p)) = args (rp_id p)"
| "eval S args row (CheckedExpr sp k t n (CLiteral l)) = (if l = NullLit then None else Some (sem_literal S l))"
| "eval S args row (CheckedExpr sp k t n (COptionalGroup i e req)) = eval S args row e"
| "eval S args row (CheckedExpr sp k t n (CUnary op e)) =
     (case eval S args row e of
        None \<Rightarrow> None
      | Some v \<Rightarrow> Some (if op = OpNot then sem_bool S (\<not> sem_truth S v) else sem_sign S op v))"
| "eval S args row (CheckedExpr sp k t n (CBinary op l r)) =
     (case (eval S args row l, eval S args row r) of
        (Some v, Some w) \<Rightarrow> Some (sem_bool S (sem_compare S op v w))
      | _ \<Rightarrow> None)"
| "eval S args row (CheckedExpr sp k t n (CIsNull negated e)) =
     Some (sem_bool S ((eval S args row e = None) \<noteq> negated))"
| "eval S args row (CheckedExpr sp k t n (CBoolChain op es)) =
     map_option (sem_bool S) (chain_value op (map (\<lambda>e. map_option (sem_truth S) (eval S args row e)) es))"

definition holds :: "'v sql_sem \<Rightarrow> 'v sql_args \<Rightarrow> checked_expr \<Rightarrow> 'v sql_row \<Rightarrow> bool" where
  "holds S args e row = (case eval S args row e of None \<Rightarrow> False | Some v \<Rightarrow> sem_truth S v)"

text \<open>
  The rows of a join: the matching pairs, and for the outer kinds the unmatched rows of one or both
  sides, extended by an absent row on the other side.
\<close>

definition join_rows ::
    "join_kind \<Rightarrow> ('v sql_row \<Rightarrow> bool) \<Rightarrow> binding_id \<Rightarrow> 'v sql_row list \<Rightarrow> 'v table_row list \<Rightarrow> 'v sql_row list" where
  "join_rows kind on b ls rs =
     concat (map (\<lambda>l. filter on (map (\<lambda>r. l(b := Some r)) rs)) ls)
     @ (if kind = JLeft \<or> kind = JFull
        then filter (\<lambda>l. list_all (\<lambda>r. \<not> on (l(b := Some r))) rs) ls else [])
     @ (if kind = JRight \<or> kind = JFull
        then map (\<lambda>r. (\<lambda>_. None)(b := Some r)) (filter (\<lambda>r. list_all (\<lambda>l. \<not> on (l(b := Some r))) ls) rs) else [])"

type_synonym 'v sql_db = "str \<Rightarrow> 'v table_row list"

definition binding_rows :: "'v sql_db \<Rightarrow> checked_binding list \<Rightarrow> binding_id \<Rightarrow> 'v table_row list" where
  "binding_rows db bindings b = db (cb_table_name (bindings ! b))"

fun joined_rows ::
    "'v sql_db \<Rightarrow> checked_binding list \<Rightarrow> (checked_join \<times> ('v sql_row \<Rightarrow> bool)) list \<Rightarrow> 'v sql_row list \<Rightarrow> 'v sql_row list" where
  "joined_rows db bindings [] rows = rows"
| "joined_rows db bindings ((j, on) # js) rows =
     joined_rows db bindings js
       (join_rows (cjn_kind j) on (cjn_right_binding j) rows (binding_rows db bindings (cjn_right_binding j)))"

definition from_rows :: "'v sql_db \<Rightarrow> checked_binding list \<Rightarrow> 'v sql_row list" where
  "from_rows db bindings = map (\<lambda>r. (\<lambda>_. None)(0 := Some r)) (binding_rows db bindings 0)"

text \<open>
  The rows a checked SELECT reads, for an arbitrary meaning \<open>ons\<close> of its ON clauses. With the clauses
  evaluated it is the SELECT itself; with other meanings it covers every variant of a statement with
  optional parts, which only drops predicates.
\<close>

definition source_rows ::
    "'v sql_db \<Rightarrow> checked_select \<Rightarrow> ('v sql_row \<Rightarrow> bool) list \<Rightarrow> 'v sql_row list" where
  "source_rows db c ons =
     joined_rows db (cs_bindings c) (zip (cs_joins c) ons) (from_rows db (cs_bindings c))"

definition select_rows :: "'v sql_sem \<Rightarrow> 'v sql_db \<Rightarrow> 'v sql_args \<Rightarrow> checked_select \<Rightarrow> 'v sql_row list" where
  "select_rows S db args c =
     filter (\<lambda>row. case cs_filter c of None \<Rightarrow> True | Some e \<Rightarrow> holds S args e row)
       (source_rows db c (map (\<lambda>j. holds S args (cjn_on j)) (cs_joins c)))"

section \<open>Data that conforms to the catalog\<close>

definition value_ok :: "'v sql_sem \<Rightarrow> sql_type \<Rightarrow> nullability \<Rightarrow> 'v option \<Rightarrow> bool" where
  "value_ok S t n v = (case v of None \<Rightarrow> n = Nullable | Some x \<Rightarrow> sem_type S x = t)"

definition table_row_ok :: "'v sql_sem \<Rightarrow> schema_table \<Rightarrow> 'v table_row \<Rightarrow> bool" where
  "table_row_ok S t r =
     (\<forall>i < length (st_columns t). value_ok S (sc_sql_type (st_columns t ! i)) (sc_nullability (st_columns t ! i)) (r i))"

definition db_ok :: "'v sql_sem \<Rightarrow> schema_catalog \<Rightarrow> 'v sql_db \<Rightarrow> bool" where
  "db_ok S cat db = (\<forall>t \<in> set (ct_tables cat). \<forall>r \<in> set (db (display_name t)). table_row_ok S t r)"

definition args_ok :: "'v sql_sem \<Rightarrow> checked_parameter list \<Rightarrow> 'v sql_args \<Rightarrow> bool" where
  "args_ok S ps args = (\<forall>p \<in> set ps. value_ok S (cp_sql_type p) (cp_nullability p) (args (cp_id p)))"

text \<open>A catalog as the macros build it, from declarations of tables.\<close>

definition build_catalog :: "(str option \<times> str \<times> schema_column list) list \<Rightarrow> schema_catalog tresult" where
  "build_catalog decls =
     bindr (collect_r (\<lambda>(schema, name, columns). schema_table_new schema name columns) decls) schema_catalog_new"

definition table_wf :: "schema_table \<Rightarrow> bool" where
  "table_wf t \<longleftrightarrow> (\<forall>name c. st_columns_by_name t name = Some c \<longrightarrow> c < length (st_columns t))"

definition catalog_wf :: "schema_catalog \<Rightarrow> bool" where
  "catalog_wf cat \<longleftrightarrow>
     (\<forall>t \<in> set (ct_tables cat). table_wf t)
     \<and> (\<forall>parts t. ct_by_qualified_name cat parts = Some t \<longrightarrow> t < length (ct_tables cat))
     \<and> (\<forall>name ts. ct_by_unqualified_name cat name = Some ts \<longrightarrow> (\<forall>t \<in> set ts. t < length (ct_tables cat)))"

lemma index_columns_bound:
  "index_columns name i cs m = Inr m' \<Longrightarrow> \<forall>k c. m k = Some c \<longrightarrow> c < b \<Longrightarrow> i + length cs \<le> b
   \<Longrightarrow> \<forall>k c. m' k = Some c \<longrightarrow> c < b"
proof (induction cs arbitrary: i m)
  case (Cons c cs)
  from Cons.prems(1) have 1: "index_columns name (Suc i) cs (m(sc_name c \<mapsto> i)) = Inr m'"
    by (simp split: option.splits)
  have "i < b" using Cons.prems(3) by simp
  then have 2: "\<forall>k c'. (m(sc_name c \<mapsto> i)) k = Some c' \<longrightarrow> c' < b"
    using Cons.prems(2) by (metis fun_upd_apply option.inject)
  show ?case
    by (rule Cons.IH [OF 1 2]) (use Cons.prems(3) in simp)
qed simp

lemma schema_table_new_wf: "schema_table_new schema name columns = Inr t \<Longrightarrow> table_wf t"
  unfolding schema_table_new_def table_wf_def
  by (auto elim!: bindr_InrE dest: index_columns_bound [where b = "length columns"])

lemma index_tables_bound:
  "index_tables i ts q u = Inr (q', u') \<Longrightarrow> \<forall>k c. q k = Some c \<longrightarrow> c < b
   \<Longrightarrow> \<forall>k cs. u k = Some cs \<longrightarrow> (\<forall>c \<in> set cs. c < b) \<Longrightarrow> i + length ts \<le> b
   \<Longrightarrow> (\<forall>k c. q' k = Some c \<longrightarrow> c < b) \<and> (\<forall>k cs. u' k = Some cs \<longrightarrow> (\<forall>c \<in> set cs. c < b))"
proof (induction ts arbitrary: i q u)
  case (Cons t ts)
  let ?u = "u(st_name t \<mapsto> (case u (st_name t) of None \<Rightarrow> [] | Some l \<Rightarrow> l) @ [i])"
  from Cons.prems(1) have 1:
    "index_tables (Suc i) ts (q(qualified_name_parts t \<mapsto> i)) ?u = Inr (q', u')"
    by (simp add: Let_def split: option.splits)
  have "i < b" using Cons.prems(4) by simp
  then have 2: "\<forall>k c. (q(qualified_name_parts t \<mapsto> i)) k = Some c \<longrightarrow> c < b"
    using Cons.prems(2) by (metis fun_upd_apply option.inject)
  have "\<forall>c \<in> set (case u (st_name t) of None \<Rightarrow> [] | Some l \<Rightarrow> l). c < b"
    using Cons.prems(3) by (cases "u (st_name t)") auto
  with \<open>i < b\<close> Cons.prems(3) have 3: "\<forall>k cs. ?u k = Some cs \<longrightarrow> (\<forall>c \<in> set cs. c < b)"
    by (metis (no_types, lifting) Un_iff empty_iff empty_set fun_upd_apply insert_iff list.simps(15) option.inject set_append)
  show ?case
    by (rule Cons.IH [OF 1 2 3]) (use Cons.prems(4) in simp)
qed auto

lemma build_catalog_wf: "build_catalog decls = Inr cat \<Longrightarrow> catalog_wf cat"
proof -
  assume "build_catalog decls = Inr cat"
  then obtain tables where t: "collect_r (\<lambda>(schema, name, columns). schema_table_new schema name columns) decls = Inr tables"
    and c: "schema_catalog_new tables = Inr cat"
    by (auto simp: build_catalog_def elim!: bindr_InrE)
  have "\<forall>t \<in> set tables. table_wf t"
    using t by (auto simp: collect_r_eq_Inr_iff list_all2_conv_all_nth in_set_conv_nth)
      (metis schema_table_new_wf case_prod_beta)
  with c show ?thesis
    by (auto simp: schema_catalog_new_def catalog_wf_def elim!: bindr_InrE
        dest!: index_tables_bound [where b = "length tables"])
qed

section \<open>Resolved names refer to columns that exist\<close>

definition column_ok :: "resolved_binding list \<Rightarrow> schema_catalog \<Rightarrow> resolved_column_ref \<Rightarrow> bool" where
  "column_ok bindings cat c \<longleftrightarrow>
     rc_binding c < length bindings \<and> rc_table c = rb_table (bindings ! rc_binding c)
     \<and> rc_column c < length (st_columns (ct_table cat (rc_table c)))"

fun refs_ok :: "resolved_binding list \<Rightarrow> schema_catalog \<Rightarrow> resolved_expr \<Rightarrow> bool" where
  "refs_ok bs cat (ResolvedExpr sp (RColumn c)) = column_ok bs cat c"
| "refs_ok bs cat (ResolvedExpr sp (RPlaceholder p)) = True"
| "refs_ok bs cat (ResolvedExpr sp (RLiteral l)) = True"
| "refs_ok bs cat (ResolvedExpr sp (ROptionalGroup i e)) = refs_ok bs cat e"
| "refs_ok bs cat (ResolvedExpr sp (RUnary op e)) = refs_ok bs cat e"
| "refs_ok bs cat (ResolvedExpr sp (RBinary op l r)) = (refs_ok bs cat l \<and> refs_ok bs cat r)"
| "refs_ok bs cat (ResolvedExpr sp (RIsNull n e)) = refs_ok bs cat e"
| "refs_ok bs cat (ResolvedExpr sp (RBoolChain op es)) = list_all (refs_ok bs cat) es"

text \<open>
  The bindings of a statement: the \<open>i\<close>-th one has identifier \<open>i\<close> and refers to a table of the catalog,
  and the scope maps names to them.
\<close>

definition bindings_ok :: "schema_catalog \<Rightarrow> scope_map \<Rightarrow> resolved_binding list \<Rightarrow> bool" where
  "bindings_ok cat scope bs \<longleftrightarrow>
     (\<forall>i < length bs. rb_id (bs ! i) = i \<and> rb_table (bs ! i) < length (ct_tables cat))
     \<and> (\<forall>name b. bt_get scope name = Some b \<longrightarrow> b < length bs)"

lemma scope_lookup_ok: "scope_lookup scope name span = Inr b \<Longrightarrow> bt_get scope name = Some b"
  by (auto simp: scope_lookup_def Let_def split: option.splits)

lemma ct_table_wf: "catalog_wf cat \<Longrightarrow> t < length (ct_tables cat) \<Longrightarrow> table_wf (ct_table cat t)"
  by (simp add: catalog_wf_def ct_table_def)

lemma resolve_column_ok:
  assumes "catalog_wf cat" "bindings_ok cat scope bs" "resolve_column scope bs cat c = Inr r"
  shows "column_ok bs cat r"
proof -
  from assms(3) obtain b where b: "scope_lookup scope (id_value (cr_binding c)) (id_span (cr_binding c)) = Inr b"
    and r: "rc_binding r = b" "rc_table r = rb_table (bs ! b)"
      "st_columns_by_name (ct_table cat (rc_table r)) (id_value (cr_column c)) = Some (rc_column r)"
    by (auto simp: resolve_column_def Let_def elim!: bindr_InrE split: option.splits)
  note b = scope_lookup_ok [OF b]
  have "b < length bs" and "rb_table (bs ! b) < length (ct_tables cat)"
    using assms(2) b by (auto simp: bindings_ok_def)
  then show ?thesis
    using r ct_table_wf [OF assms(1), of "rc_table r"] by (simp add: column_ok_def table_wf_def)
qed

lemma resolve_expr_ok:
  assumes "catalog_wf cat" "bindings_ok cat scope bs"
  shows "resolve_expr scope bs cat e = Inr r \<Longrightarrow> refs_ok bs cat r"
proof (induction e arbitrary: r)
  case (PBoolChain i s op ts)
  then show ?case
    by (auto elim!: bindr_InrE simp: collect_r_eq_Inr_iff list_all2_conv_all_nth list_all_length)
      (metis nth_mem)
qed (use resolve_column_ok [OF assms] in \<open>auto elim!: bindr_InrE\<close>)

lemma resolve_table_bound: "catalog_wf cat \<Longrightarrow> resolve_table cat parts span = Inr t \<Longrightarrow> t < length (ct_tables cat)"
  by (force simp: catalog_wf_def resolve_table_def length_Suc_conv split: option.splits list.splits if_splits)

lemma resolve_from_ok:
  assumes "catalog_wf cat" "bindings_ok cat scope bs"
    and "resolve_from from cat (length bs) scope = Inr (b, next, scope')"
  shows "next = length (bs @ [b])" "rb_id b = length bs" "bindings_ok cat scope' (bs @ [b])"
  using assms
  by (auto simp: resolve_from_def Let_def scope_insert_def bindings_ok_def nth_append bt_get_bt_insert
      dest: resolve_table_bound elim!: bindr_InrE split: option.splits if_splits)
    (metis less_Suc_eq)+

lemma resolve_joins_ok:
  assumes "catalog_wf cat" "bindings_ok cat scope bs"
    and "resolve_joins cat js (length bs) scope bs = Inr (rs, scope', bs')"
  shows "bindings_ok cat scope' bs'" and "\<exists>more. bs' = bs @ more"
    and "map rjn_right_binding rs = [length bs..<length bs']"
  using assms(2,3)
proof (induction js arbitrary: scope bs rs)
  case Nil
  {
    case 1
    then show ?case by simp
  next
    case 2
    then show ?case by simp
  next
    case 3
    then show ?case by simp
  }
next
  case (Cons j js)
  have step: "bindings_ok cat scope' bs' \<and> (\<exists>more. bs' = bs @ more) \<and> map rjn_right_binding rs = [length bs..<length bs']"
    if ok: "bindings_ok cat scope bs" and r: "resolve_joins cat (j # js) (length bs) scope bs = Inr (rs, scope', bs')"
    for scope bs rs
  proof -
    from r obtain b next' scope1 on rest where
      f: "resolve_from (pj_right j) cat (length bs) scope = Inr (b, next', scope1)"
      and rest: "resolve_joins cat js next' scope1 (bs @ [b]) = Inr (rest, scope', bs')"
      and rs: "rs = \<lparr>rjn_kind = pj_kind j, rjn_right_binding = rb_id b, rjn_on = on\<rparr> # rest"
      by (auto simp: Let_def elim!: bindr_InrE)
    note from_ok = resolve_from_ok [OF assms(1) ok f]
    note ih = Cons.IH [OF from_ok(3) rest [unfolded from_ok(1)]]
    from ih(2) obtain more where "bs' = bs @ [b] @ more" by auto
    then show ?thesis
      using ih from_ok rs by (simp add: upt_rec)
  qed
  {
    case 1
    show ?case using step [OF 1] by blast
  next
    case 2
    show ?case using step [OF 2] by blast
  next
    case 3
    show ?case using step [OF 3] by blast
  }
qed


section \<open>Parameters and the solution of the inference\<close>

definition ids_ok :: "inference \<Rightarrow> bool" where
  "ids_ok ic \<longleftrightarrow> bt_wf (inf_placeholders ic) \<and> (\<forall>p st. bt_get (inf_placeholders ic) p = Some st \<longrightarrow> ph_id st = p)"

lemma ids_ok_put_state: "ids_ok ic \<Longrightarrow> ph_id st = p \<Longrightarrow> ids_ok (put_state ic p st)"
  by (simp add: ids_ok_def put_state_def bt_get_bt_insert bt_wf_insert_aux)

lemma ids_ok_state_of: "ids_ok ic \<Longrightarrow> ph_id (state_of ic p span) = p"
  by (simp add: ids_ok_def state_of_def fresh_placeholder_def split: option.splits)

lemma ids_ok_pending [simp]: "ids_ok (ic\<lparr>inf_pending := cs\<rparr>) = ids_ok ic"
  by (simp add: ids_ok_def)

lemma ids_ok_ensure_state: "ids_ok ic \<Longrightarrow> ids_ok (ensure_state ic p span)"
  by (simp add: ensure_state_def ids_ok_put_state ids_ok_state_of)

interpretation ids: inference_invariant ids_ok
proof
  show "ids_ok inference_new"
    by (simp add: ids_ok_def inference_new_def)
  fix ic ic' p q t n span r
  assume ok: "ids_ok ic"
  then show "expect_placeholder ic p t n span = Inr ic' \<Longrightarrow> ids_ok ic'"
    by (auto simp: expect_placeholder_def Let_def ids_ok_state_of intro!: ids_ok_put_state split: option.splits if_splits)
  show "ids_ok (observe_placeholder ic r)"
    using ok by (auto simp: observe_placeholder_def Let_def ids_ok_state_of intro!: ids_ok_put_state)
  show "ids_ok (relate_placeholders ic p q span)"
    using ok by (simp add: relate_placeholders_def Let_def ids_ok_ensure_state)
qed

lemma parameter_of_placeholder:
  assumes "ids_ok ic" "placeholder_sql_type ic p = Some t"
  obtains cp where "cp \<in> set (parameters ic)" "cp_id cp = p" "cp_sql_type cp = t"
    "cp_nullability cp = placeholder_nullability ic p"
proof -
  from assms(2) obtain st where st: "bt_get (inf_placeholders ic) p = Some st" "ph_inferred_type st = Some t"
    by (auto simp: placeholder_sql_type_def split: option.splits)
  then have "st \<in> set (bt_values (inf_placeholders ic))"
    by (auto simp: bt_get_def bt_values_def dest!: map_of_SomeD intro: rev_image_eqI)
  moreover obtain cp where cp: "checked_parameter_of st = Some cp" "cp_id cp = ph_id st" "cp_sql_type cp = t"
      "cp_nullability cp = ph_nullability st"
    using st(2) by (simp add: checked_parameter_of_def)
  ultimately have "cp \<in> set (parameters ic)"
    by (auto simp: parameters_def map_filter_def intro!: image_eqI [of _ _ st])
  then show ?thesis
    using that cp st(1) assms(1) by (simp add: ids_ok_def placeholder_nullability_def)
qed

section \<open>Soundness of expressions\<close>

fun integer_constant :: "checked_expr \<Rightarrow> bool" where
  "integer_constant (CheckedExpr sp k t n (CLiteral (Number m))) = is_integer_literal m"
| "integer_constant (CheckedExpr sp k t n (COptionalGroup i e req)) = integer_constant e"
| "integer_constant (CheckedExpr sp k t n (CUnary op e)) = (op \<noteq> OpNot \<and> integer_constant e)"
| "integer_constant (CheckedExpr sp k t n _) = False"

definition row_ok :: "'v sql_sem \<Rightarrow> schema_catalog \<Rightarrow> resolved_binding list \<Rightarrow> row_env \<Rightarrow> 'v sql_row \<Rightarrow> bool" where
  "row_ok S cat bs env row \<longleftrightarrow>
     (\<forall>b < length bs. case row b of
        None \<Rightarrow> env_nullability env b = Nullable
      | Some r \<Rightarrow> table_row_ok S (ct_table cat (rb_table (bs ! b))) r)"

definition sound_value :: "'v sql_sem \<Rightarrow> 'v sql_args \<Rightarrow> 'v sql_row \<Rightarrow> checked_expr \<Rightarrow> bool" where
  "sound_value S args row e \<longleftrightarrow>
     (eval S args row e = None \<longrightarrow> ce_nullability e = Nullable)
     \<and> (\<forall>v. eval S args row e = Some v \<longrightarrow> \<not> integer_constant e \<longrightarrow> sem_type S v = ce_sql_type e)"

lemma foldl_widen_Nullable:
  "foldl (\<lambda>acc c. widen acc (ce_nullability c)) n cs = Nullable
   \<longleftrightarrow> n = Nullable \<or> (\<exists>c \<in> set cs. ce_nullability c = Nullable)"
  by (induction cs arbitrary: n) (auto simp: widen_def)

lemma chain_value_None: "chain_value op vs = None \<Longrightarrow> None \<in> set vs"
  by (auto simp: chain_value_def split: bool_op.splits if_splits)

lemma sound_literal:
  "sem_typed S \<Longrightarrow> finalize_literal_type l = Some t \<Longrightarrow>
   sound_value S args row (CheckedExpr sp ValueExpr t (if l = NullLit then Nullable else NonNull) (CLiteral l))"
  by (cases l) (auto simp: sound_value_def sem_typed_def finalize_literal_type_def split: if_splits)

lemma sound_column:
  assumes "row_ok S cat bs env row" "column_ok bs cat c"
  shows "sound_value S args row
    (CheckedExpr sp ValueExpr (sc_sql_type (ct_column cat (rc_table c) (rc_column c)))
      (widen (sc_nullability (ct_column cat (rc_table c) (rc_column c))) (env_nullability env (rc_binding c))) (CColumn c))"
  using assms
  by (auto simp: sound_value_def row_ok_def column_ok_def table_row_ok_def value_ok_def ct_column_def ct_table_def
      widen_def split: option.splits)

lemma sound_placeholder:
  assumes "ids_ok ic" "args_ok S (parameters ic) args" "placeholder_sql_type ic (rp_id p) = Some t"
  shows "sound_value S args row (CheckedExpr sp ValueExpr t (placeholder_nullability ic (rp_id p)) (CPlaceholder p))"
proof -
  obtain cp where "cp \<in> set (parameters ic)" "cp_id cp = rp_id p" "cp_sql_type cp = t"
    "cp_nullability cp = placeholder_nullability ic (rp_id p)"
    using parameter_of_placeholder [OF assms(1,3)] .
  with assms(2) have "value_ok S t (placeholder_nullability ic (rp_id p)) (args (rp_id p))"
    unfolding args_ok_def by metis
  then show ?thesis
    by (simp add: value_ok_def sound_value_def split: option.splits)
qed

lemma sound_chain:
  assumes "sem_typed S" "\<And>c. c \<in> set cs \<Longrightarrow> sound_value S args row c"
  shows "sound_value S args row (CheckedExpr sp PredicateExpr TyBool
    (foldl (\<lambda>acc c. widen acc (ce_nullability c)) NonNull cs) (CBoolChain op cs))"
proof -
  have "\<exists>c \<in> set cs. ce_nullability c = Nullable"
    if "chain_value op (map (\<lambda>e. map_option (sem_truth S) (eval S args row e)) cs) = None"
    using chain_value_None [OF that] assms(2) by (auto simp: sound_value_def)
  then show ?thesis
    using assms(1) by (auto simp: sound_value_def sem_typed_def foldl_widen_Nullable)
qed

lemma finalize_sound:
  assumes S: "sem_typed S"
  shows "finalize_expr env cat ic r = Inr e \<Longrightarrow> refs_ok bs cat r \<Longrightarrow> ids_ok ic
    \<Longrightarrow> args_ok S (parameters ic) args \<Longrightarrow> row_ok S cat bs env row \<Longrightarrow> sound_value S args row e"
proof (induction env cat ic r arbitrary: e rule: finalize_expr.induct)
  case (1 env cat ic span c)
  then show ?case using sound_column by (auto simp: Let_def)
next
  case (2 env cat ic span p)
  then show ?case using sound_placeholder by (auto elim!: bindr_InrE)
next
  case (3 env cat ic span l)
  then show ?case using sound_literal [OF S] by (auto split: option.splits)
next
  case (4 env cat ic span i e')
  then show ?case by (auto simp: sound_value_def elim!: bindr_InrE)
next
  case (5 env cat ic span op e')
  from "5.prems"(1) obtain inner where "finalize_expr env cat ic e' = Inr inner"
    and e: "e = CheckedExpr span (if op = OpNot then PredicateExpr else ValueExpr)
       (if op = OpNot then TyBool else ce_sql_type inner) (ce_nullability inner) (CUnary op inner)"
    by (auto elim!: bindr_InrE split: unary_op.splits if_splits)
  then have "sound_value S args row inner"
    using 5 by simp
  then show ?case
    using S unfolding e by (auto simp: sound_value_def sem_typed_def split: option.splits)
next
  case (6 env cat ic span op left right)
  from "6.prems"(1) obtain l r where lr: "finalize_expr env cat ic left = Inr l" "finalize_expr env cat ic right = Inr r"
    and e: "e = CheckedExpr span PredicateExpr TyBool (widen (ce_nullability l) (ce_nullability r)) (CBinary op l r)"
    by (auto elim!: bindr_InrE)
  then have "sound_value S args row l" "sound_value S args row r"
    using 6 by simp_all
  then show ?case
    using S unfolding e by (auto simp: sound_value_def sem_typed_def widen_def split: option.splits)
next
  case (7 env cat ic span negated e')
  then show ?case using S by (auto simp: sound_value_def sem_typed_def elim!: bindr_InrE)
next
  case (8 env cat ic span op terms)
  from "8.prems"(1) obtain cs where cs: "list_all2 (\<lambda>t c. finalize_expr env cat ic t = Inr c) terms cs"
    and e: "e = CheckedExpr span PredicateExpr TyBool
       (foldl (\<lambda>acc c. widen acc (ce_nullability c)) NonNull cs) (CBoolChain op cs)"
    by (auto elim!: bindr_InrE simp: collect_r_eq_Inr_iff)
  have "sound_value S args row c" if "c \<in> set cs" for c
  proof -
    from that obtain k where k: "k < length cs" "cs ! k = c"
      by (auto simp: in_set_conv_nth)
    with cs have "terms ! k \<in> set terms" "finalize_expr env cat ic (terms ! k) = Inr c"
      by (auto simp: list_all2_conv_all_nth)
    then show ?thesis
      by (rule "8.IH") (use "8.prems" \<open>terms ! k \<in> set terms\<close> in \<open>simp_all add: list_all_iff\<close>)
  qed
  then show ?case unfolding e by (rule sound_chain [OF S])
qed


section \<open>Soundness of joins\<close>

definition rows_ok :: "'v sql_db \<Rightarrow> checked_binding list \<Rightarrow> nat \<Rightarrow> row_env \<Rightarrow> 'v sql_row list \<Rightarrow> bool" where
  "rows_ok db cbs n env rows \<longleftrightarrow>
     dom env = {..<n}
     \<and> (\<forall>row \<in> set rows. \<forall>b. case row b of
          None \<Rightarrow> b < n \<longrightarrow> env_nullability env b = Nullable
        | Some r \<Rightarrow> b < n \<and> r \<in> set (binding_rows db cbs b))"

lemma env_nullability_with_binding:
  "env_nullability (with_binding env b n) b' = (if b' = b then n else env_nullability env b')"
  by (simp add: env_nullability_def with_binding_def)

lemma env_nullability_mark_all: "b \<in> dom env \<Longrightarrow> env_nullability (mark_all_nullable env) b = Nullable"
  by (auto simp: env_nullability_def mark_all_nullable_def)

lemma env_nullability_mark_all_keeps:
  "env_nullability env b = Nullable \<Longrightarrow> env_nullability (mark_all_nullable env) b = Nullable"
  by (auto simp: env_nullability_def mark_all_nullable_def split: option.splits)

lemma dom_apply_join: "dom (apply_join_nullability k env b) = insert b (dom env)"
  by (cases k) (auto simp: with_binding_def mark_all_nullable_def dom_def)

text \<open>The nullability the checker gives to the relations of a join covers every absent row.\<close>

lemma join_rows_ok:
  assumes "rows_ok db cbs n env rows"
  shows "rows_ok db cbs (Suc n) (apply_join_nullability k env n) (join_rows k on n rows (binding_rows db cbs n))"
proof -
  let ?env = "apply_join_nullability k env n"
  have dom: "dom env = {..<n}"
    and old: "\<And>row b. row \<in> set rows \<Longrightarrow>
      (row b = None \<longrightarrow> b < n \<longrightarrow> env_nullability env b = Nullable)
      \<and> (\<forall>r. row b = Some r \<longrightarrow> b < n \<and> r \<in> set (binding_rows db cbs b))"
    using assms unfolding rows_ok_def by (force split: option.splits)+
  have keeps: "env_nullability ?env b = Nullable" if "env_nullability env b = Nullable" "b < n" for b
    using that by (cases k) (auto simp: env_nullability_with_binding env_nullability_mark_all_keeps)
  have left: "env_nullability ?env n = Nullable" if "k = JLeft \<or> k = JFull"
    using that by (auto simp: env_nullability_with_binding)
  have right: "env_nullability ?env b = Nullable" if "k = JRight \<or> k = JFull" "b < n" for b
    using that dom by (auto simp: env_nullability_with_binding env_nullability_mark_all)
  have "(case row b of
          None \<Rightarrow> b < Suc n \<longrightarrow> env_nullability ?env b = Nullable
        | Some r \<Rightarrow> b < Suc n \<and> r \<in> set (binding_rows db cbs b))"
    if row: "row \<in> set (join_rows k on n rows (binding_rows db cbs n))" for row b
  proof -
    from row consider
        (matched) l r where "l \<in> set rows" "r \<in> set (binding_rows db cbs n)" "row = l(n := Some r)"
      | (unmatched_left) "k = JLeft \<or> k = JFull" "row \<in> set rows"
      | (unmatched_right) r where "k = JRight \<or> k = JFull" "r \<in> set (binding_rows db cbs n)"
          "row = (\<lambda>_. None)(n := Some r)"
      by (auto simp: join_rows_def split: if_splits)
    then show ?thesis
    proof cases
      case matched
      then show ?thesis using old [of l b] keeps [of b] by (auto split: option.splits)
    next
      case unmatched_left
      then show ?thesis using old [of row b] keeps [of b] left by (auto split: option.splits simp: less_Suc_eq)
    next
      case unmatched_right
      then show ?thesis using right [of b] by (auto split: option.splits simp: less_Suc_eq)
    qed
  qed
  moreover have "dom ?env = {..<Suc n}"
    by (simp add: dom_apply_join dom lessThan_Suc)
  ultimately show ?thesis
    unfolding rows_ok_def by blast
qed

definition join_env :: "row_env \<Rightarrow> (join_kind \<times> binding_id) list \<Rightarrow> row_env" where
  "join_env env js = foldl (\<lambda>env (k, b). apply_join_nullability k env b) env js"

lemma joined_rows_ok:
  assumes "rows_ok db cbs n env rows" "map cjn_right_binding js = [n..<m]" "n \<le> m" "length ons = length js"
  shows "rows_ok db cbs m (join_env env (map (\<lambda>j. (cjn_kind j, cjn_right_binding j)) js))
    (joined_rows db cbs (zip js ons) rows)"
  using assms
proof (induction js arbitrary: n env rows ons)
  case Nil
  then have "length [n..<m] = 0" by (metis list.map(1) list.size(3))
  with Nil.prems(3) have "n = m" by simp
  with Nil show ?case by (simp add: join_env_def)
next
  case (Cons j js)
  from Cons.prems(4) obtain on ons' where ons: "ons = on # ons'" "length ons' = length js"
    by (cases ons) auto
  from Cons.prems(2) have n: "n < m"
    by (metis list.discI list.map(2) upt_eq_Nil_conv not_le_imp_less)
  with Cons.prems(2) have b: "cjn_right_binding j = n" and rest: "map cjn_right_binding js = [Suc n..<m]"
    by (simp_all add: upt_conv_Cons)
  have "rows_ok db cbs m
      (join_env (apply_join_nullability (cjn_kind j) env n) (map (\<lambda>j. (cjn_kind j, cjn_right_binding j)) js))
      (joined_rows db cbs (zip js ons') (join_rows (cjn_kind j) on n rows (binding_rows db cbs n)))"
    by (rule Cons.IH [OF join_rows_ok [OF Cons.prems(1)] rest _ ons(2)]) (use n in simp)
  then show ?case
    by (simp add: ons b join_env_def)
qed

lemma from_rows_ok: "rows_ok db cbs 1 (env_new 0) (from_rows db cbs)"
  by (auto simp: rows_ok_def from_rows_def env_new_def split: option.splits)

lemma analyze_joins_env:
  "analyze_joins cat js env ic = Inr (plans, env', ic') \<Longrightarrow>
   env' = join_env env (map (\<lambda>j. (rjn_kind j, rjn_right_binding j)) js) \<and> length plans = length js"
  by (induction js arbitrary: env ic plans) (auto simp: Let_def join_env_def elim!: bindr_InrE)

lemma finalize_joins_shape:
  assumes "finalize_joins cat ic (zip js plans) = Inr cjs" "length plans = length js"
  shows "map (\<lambda>j. (cjn_kind j, cjn_right_binding j)) cjs = map (\<lambda>j. (rjn_kind j, rjn_right_binding j)) js"
proof (rule nth_equalityI)
  from assms have *: "length js = length cjs"
    "\<forall>i < length cjs. \<exists>on. cjs ! i = \<lparr>cjn_kind = rjn_kind (js ! i), cjn_right_binding = rjn_right_binding (js ! i), cjn_on = on\<rparr>"
    by (auto simp: finalize_joins_def collect_r_eq_Inr_iff list_all2_conv_all_nth bindr_eq_Inr_iff) metis
  then show "length (map (\<lambda>j. (cjn_kind j, cjn_right_binding j)) cjs) =
      length (map (\<lambda>j. (rjn_kind j, rjn_right_binding j)) js)" by simp
  fix i assume "i < length (map (\<lambda>j. (cjn_kind j, cjn_right_binding j)) cjs)"
  then show "map (\<lambda>j. (cjn_kind j, cjn_right_binding j)) cjs ! i =
      map (\<lambda>j. (rjn_kind j, rjn_right_binding j)) js ! i"
    using * by fastforce
qed

lemma finalize_projections_shape:
  assumes "finalize_projections env cat ic ps = Inr cps" "p \<in> set cps"
  obtains q where "q \<in> set ps" "finalize_expr env cat ic (rj_expr q) = Inr (cj_expr p)"
    "cj_sql_type p = ce_sql_type (cj_expr p)" "cj_nullability p = ce_nullability (cj_expr p)"
proof -
  from assms obtain k where k: "k < length ps" "finalize_projection env cat ic (k, ps ! k) = Inr p"
    by (auto simp: finalize_projections_def collect_r_eq_Inr_iff list_all2_conv_all_nth in_set_conv_nth nth_enumerate_eq)
  then show ?thesis
    using that [of "ps ! k"] by (auto simp: finalize_projection_def elim!: bindr_InrE)
qed

lemma projections_sound:
  assumes "catalog_wf cat" "bindings_ok cat scope bs" "sem_typed S" "ids_ok ic" "args_ok S (parameters ic) args"
    and "collect_r (resolve_projection scope bs cat) pps = Inr ps"
    and "finalize_projections env cat ic ps = Inr cps" "p \<in> set cps" "row_ok S cat bs env row"
  shows "sound_value S args row (cj_expr p)"
    and "cj_sql_type p = ce_sql_type (cj_expr p)" and "cj_nullability p = ce_nullability (cj_expr p)"
proof -
  obtain q where q: "q \<in> set ps" and e: "finalize_expr env cat ic (rj_expr q) = Inr (cj_expr p)"
    and "cj_sql_type p = ce_sql_type (cj_expr p)" "cj_nullability p = ce_nullability (cj_expr p)"
    using finalize_projections_shape [OF assms(7,8)] .
  then show "cj_sql_type p = ce_sql_type (cj_expr p)" "cj_nullability p = ce_nullability (cj_expr p)"
    by auto
  from assms(6) q obtain pp where "resolve_projection scope bs cat pp = Inr q"
    by (auto simp: collect_r_eq_Inr_iff list_all2_conv_all_nth in_set_conv_nth)
  then have "refs_ok bs cat (rj_expr q)"
    by (auto simp: resolve_projection_def elim!: bindr_InrE intro: resolve_expr_ok [OF assms(1,2)])
  then show "sound_value S args row (cj_expr p)"
    by (rule finalize_sound [OF assms(3) e _ assms(4,5,9)])
qed

lemma bindings_ok_Nil: "bindings_ok cat [] []"
  by (simp add: bindings_ok_def)

lemma rows_ok_row_ok:
  assumes "rows_ok db (map (checked_target_binding env' cat) bs) (length bs) env rows" "row \<in> set rows"
    and "bindings_ok cat scope bs" "db_ok S cat db"
  shows "row_ok S cat bs env row"
  unfolding row_ok_def
proof (intro allI impI)
  fix b assume b: "b < length bs"
  then have t: "ct_table cat (rb_table (bs ! b)) \<in> set (ct_tables cat)"
    using assms(3) by (simp add: bindings_ok_def ct_table_def)
  have "case row b of None \<Rightarrow> env_nullability env b = Nullable
      | Some r \<Rightarrow> r \<in> set (db (display_name (ct_table cat (rb_table (bs ! b)))))"
    using assms(1,2) b
    by (auto simp: rows_ok_def binding_rows_def checked_target_binding_def dest!: bspec [of _ _ row] spec [of _ b]
        split: option.splits)
  then show "case row b of None \<Rightarrow> env_nullability env b = Nullable
      | Some r \<Rightarrow> table_row_ok S (ct_table cat (rb_table (bs ! b))) r"
    using assms(4) t by (auto simp: db_ok_def split: option.splits)
qed

lemma select_sound_aux:
  assumes cat: "build_catalog decls = Inr cat" and c: "resolve_select select cat = Inr c"
    and S: "sem_typed S" "db_ok S cat db" "args_ok S (cs_parameters c) args"
    and row: "length ons = length (cs_joins c)" "row \<in> set (source_rows db c ons)"
    and p: "p \<in> set (cs_projections c)"
  shows "sound_value S args row (cj_expr p)"
    and "cj_sql_type p = ce_sql_type (cj_expr p)" and "cj_nullability p = ce_nullability (cj_expr p)"
proof -
  note wf = build_catalog_wf [OF cat]
  from c obtain r plans env ic ic' where r: "resolve_names select cat = Inr r"
    and an: "analyze_select r cat = Inr (plans, env, ic)" and so: "solve ic = Inr ic'"
    and fin: "finalize_select r cat plans env ic' = Inr c"
    by (auto simp: resolve_select_def elim!: bindr_InrE)
  have ids: "ids_ok ic'" using ids.solved [OF ids.select [OF an] so] .
  from r obtain b0 nx scope0 scope where f: "resolve_from (ps_from select) cat 0 [] = Inr (b0, nx, scope0)"
    and j: "resolve_joins cat (ps_joins select) nx scope0 [b0] = Inr (rs_joins r, scope, rs_bindings r)"
    and pr: "collect_r (resolve_projection scope (rs_bindings r) cat) (ps_projections select) = Inr (rs_projections r)"
    and b0: "rs_from r = b0"
    by (auto simp: resolve_names_def elim!: bindr_InrE)
  have f0: "nx = length [b0]" "rb_id b0 = 0" "bindings_ok cat scope0 [b0]"
    using resolve_from_ok [OF wf bindings_ok_Nil] f by simp_all
  note jok = resolve_joins_ok [OF wf f0(3) j [unfolded f0(1)]]
  from an have env: "env = join_env (env_new 0) (map (\<lambda>j. (rjn_kind j, rjn_right_binding j)) (rs_joins r))"
    and len: "length plans = length (rs_joins r)"
    by (auto simp: analyze_select_def b0 f0(2) elim!: bindr_InrE dest!: analyze_joins_env)
  from fin obtain cjs where cjs: "finalize_joins cat ic' (zip (rs_joins r) plans) = Inr cjs" "cs_joins c = cjs"
    and cps: "finalize_projections env cat ic' (rs_projections r) = Inr (cs_projections c)"
    and cb: "cs_bindings c = map (checked_target_binding env cat) (rs_bindings r)" "cs_parameters c = parameters ic'"
    by (auto simp: finalize_select_def elim!: bindr_InrE)
  note shape = finalize_joins_shape [OF cjs(1) len]
  have "map cjn_right_binding cjs = [1..<length (rs_bindings r)]"
    using arg_cong [OF shape, of "map snd"] jok(3) by (simp add: comp_def)
  moreover have "1 \<le> length (rs_bindings r)"
    using jok(2) by auto
  ultimately have "rows_ok db (cs_bindings c) (length (rs_bindings r)) env (source_rows db c ons)"
    using joined_rows_ok [OF from_rows_ok [of db "cs_bindings c"], of cjs "length (rs_bindings r)" ons] row(1)
    by (simp add: source_rows_def cjs(2) shape env)
  then have rok: "row_ok S cat (rs_bindings r) env row"
    using rows_ok_row_ok [OF _ row(2) jok(1) S(2)] by (simp add: cb)
  from projections_sound [OF wf jok(1) S(1) ids S(3) [unfolded cb] pr cps p rok]
  show "sound_value S args row (cj_expr p)"
    "cj_sql_type p = ce_sql_type (cj_expr p)" "cj_nullability p = ce_nullability (cj_expr p)"
    by auto
qed


section \<open>The checked types and nullabilities of a SELECT\<close>

text \<open>
  C5. Soundness of the checker for SELECT. Take a catalog built from table declarations, a statement the
  checker accepts, a database whose rows have the declared types and no NULL in NOT NULL columns, and
  arguments that fit the inferred parameters. Then in every row of the joined relations, for any
  outcome of the ON predicates and hence for every variant of a statement with optional parts, a
  projection that is declared NOT NULL is not NULL, and its value has the declared SQL type unless the
  projection is an integer constant.
\<close>

theorem select_sound:
  assumes "build_catalog decls = Inr cat" and "resolve_select select cat = Inr c"
    and "sem_typed S" and "db_ok S cat db" and "args_ok S (cs_parameters c) args"
    and "length ons = length (cs_joins c)" and "row \<in> set (source_rows db c ons)"
    and "p \<in> set (cs_projections c)"
  shows "(cj_nullability p = NonNull \<longrightarrow> eval S args row (cj_expr p) \<noteq> None)
    \<and> (\<forall>v. eval S args row (cj_expr p) = Some v \<longrightarrow> \<not> integer_constant (cj_expr p) \<longrightarrow> sem_type S v = cj_sql_type p)"
  using select_sound_aux [OF assms] by (auto simp: sound_value_def)

definition no_span :: source_span where
  "no_span = span_new 0 0"

definition demo_ident :: "str \<Rightarrow> ident_syntax" where
  "demo_ident name = \<lparr>id_value = name, id_span = no_span\<rparr>"

definition demo_column :: "str \<Rightarrow> str \<Rightarrow> parsed_expr" where
  "demo_column b c = PColumn \<lparr>cr_id = 0, cr_span = no_span, cr_binding = demo_ident b, cr_column = demo_ident c\<rparr>"

definition demo_placeholder :: "nat \<Rightarrow> str \<Rightarrow> bool \<Rightarrow> parsed_expr" where
  "demo_placeholder i name opt = PPlaceholder
     \<lparr>pr_id = 0, pr_span = no_span, pr_placeholder_id = i, pr_name = name, pr_slot = i + 1, pr_optional = opt\<rparr>"

definition demo_from :: "str \<Rightarrow> str \<Rightarrow> parsed_from" where
  "demo_from table name =
     \<lparr>pf_id = 0, pf_span = no_span, pf_table_name = \<lparr>on_parts = [demo_ident table], on_span = no_span\<rparr>,
      pf_binding_name = demo_ident name\<rparr>"

definition demo_projection :: "parsed_expr \<Rightarrow> str \<Rightarrow> parsed_projection" where
  "demo_projection e name = \<lparr>pp_id = 0, pp_span = no_span, pp_expr = e, pp_output_name = ONExplicit (demo_ident name)\<rparr>"

definition demo_literal :: "literal \<Rightarrow> parsed_expr" where
  "demo_literal l = PLiteral \<lparr>pl_id = 0, pl_span = no_span, pl_value = l\<rparr>"

definition demo_decls :: "(str option \<times> str \<times> schema_column list) list" where
  "demo_decls =
     [(Some ''public'', ''users'',
        [\<lparr>sc_name = ''id'', sc_sql_type = TyInt4, sc_nullability = NonNull\<rparr>,
         \<lparr>sc_name = ''name'', sc_sql_type = TyText, sc_nullability = Nullable\<rparr>]),
      (Some ''public'', ''pets'',
        [\<lparr>sc_name = ''owner'', sc_sql_type = TyInt4, sc_nullability = NonNull\<rparr>])]"

definition demo_catalog :: schema_catalog where
  "demo_catalog = projr (build_catalog demo_decls)"

text \<open>\<open>SELECT u.id AS i, p.owner AS o FROM users AS u LEFT JOIN pets AS p ON p.owner = u.id WHERE u.id = $x\<close>\<close>

definition demo_select :: parsed_select where
  "demo_select =
     \<lparr>ps_id = 0, ps_span = no_span,
      ps_projections = [demo_projection (demo_column ''u'' ''id'') ''i'', demo_projection (demo_column ''p'' ''owner'') ''o''],
      ps_from = demo_from ''users'' ''u'',
      ps_joins = [\<lparr>pj_id = 0, pj_span = no_span, pj_kind = JLeft, pj_right = demo_from ''pets'' ''p'',
        pj_on = PBinary 0 no_span OpEq (demo_column ''p'' ''owner'') (demo_column ''u'' ''id'')\<rparr>],
      ps_filter = Some (PBinary 0 no_span OpEq (demo_column ''u'' ''id'') (demo_placeholder 0 ''x'' False)),
      ps_order_by = [], ps_limit = None, ps_offset = None\<rparr>"

definition demo_sem :: "(sql_type \<times> nat) sql_sem" where
  "demo_sem =
     \<lparr>sem_type = fst,
      sem_literal = (\<lambda>l. case l of Number n \<Rightarrow> (if is_integer_literal n then TyInt4 else TyNumeric, 0)
        | StringLit s \<Rightarrow> (TyText, length s) | Boolean b \<Rightarrow> (TyBool, if b then 1 else 0) | NullLit \<Rightarrow> (TyText, 0)),
      sem_sign = (\<lambda>op v. v), sem_compare = (\<lambda>op v w. snd v = snd w),
      sem_bool = (\<lambda>b. (TyBool, if b then 1 else 0)), sem_truth = (\<lambda>v. snd v = 1)\<rparr>"

definition demo_db :: "(sql_type \<times> nat) sql_db" where
  "demo_db name = (if name = ''public.users'' then [\<lambda>c. if c = 0 then Some (TyInt4, 7) else None]
                   else [\<lambda>c. Some (TyInt4, 8)])"

definition demo_args :: "(sql_type \<times> nat) sql_args" where
  "demo_args p = Some (TyInt4, 7)"

definition demo_checked :: checked_select where
  "demo_checked = projr (resolve_select demo_select demo_catalog)"

lemma demo_sem_typed: "sem_typed demo_sem"
  by (simp add: sem_typed_def demo_sem_def)

lemma demo_catalog_built: "build_catalog demo_decls = Inr demo_catalog"
proof -
  have "\<not> isl (build_catalog demo_decls)" by code_simp
  then show ?thesis unfolding demo_catalog_def by (cases "build_catalog demo_decls") auto
qed

lemma demo_select_checked: "resolve_select demo_select demo_catalog = Inr demo_checked"
proof -
  have "\<not> isl (resolve_select demo_select demo_catalog)" by code_simp
  then show ?thesis unfolding demo_checked_def by (cases "resolve_select demo_select demo_catalog") auto
qed

text \<open>
  The user without pets is read with an absent row for \<open>p\<close>: the first projection is not NULL, the
  second is NULL and declared nullable.
\<close>

theorem select_sound_witness:
  "length (select_rows demo_sem demo_db demo_args demo_checked) = 1
   \<and> map cj_nullability (cs_projections demo_checked) = [NonNull, Nullable]
   \<and> (let row = select_rows demo_sem demo_db demo_args demo_checked ! 0 in
      eval demo_sem demo_args row (cj_expr (cs_projections demo_checked ! 0)) \<noteq> None
      \<and> eval demo_sem demo_args row (cj_expr (cs_projections demo_checked ! 1)) = None)"
proof -
  let ?ons = "map (\<lambda>j. holds demo_sem demo_args (cjn_on j)) (cs_joins demo_checked)"
  let ?row = "select_rows demo_sem demo_db demo_args demo_checked ! 0"
  have len: "length (select_rows demo_sem demo_db demo_args demo_checked) = 1" by code_simp
  then have "?row \<in> set (select_rows demo_sem demo_db demo_args demo_checked)" by (metis nth_mem less_one)
  then have row: "?row \<in> set (source_rows demo_db demo_checked ?ons)" by (simp add: select_rows_def)
  have nulls: "map cj_nullability (cs_projections demo_checked) = [NonNull, Nullable]" by code_simp
  have p: "cs_projections demo_checked ! 0 \<in> set (cs_projections demo_checked)"
    by (rule nth_mem) (use arg_cong [OF nulls, of length] in simp)
  have "cj_nullability (cs_projections demo_checked ! 0) = NonNull" by code_simp
  moreover have "db_ok demo_sem demo_catalog demo_db" by code_simp
  moreover have "args_ok demo_sem (cs_parameters demo_checked) demo_args" by code_simp
  ultimately have "eval demo_sem demo_args ?row (cj_expr (cs_projections demo_checked ! 0)) \<noteq> None"
    using select_sound [OF demo_catalog_built demo_select_checked demo_sem_typed _ _ _ row p] by simp
  moreover have "eval demo_sem demo_args ?row (cj_expr (cs_projections demo_checked ! 1)) = None" by code_simp
  ultimately show ?thesis using len nulls by (simp add: Let_def)
qed


section \<open>The solution of the inference\<close>

text \<open>
  A solution gives every placeholder a type that extends what is already known and makes the two sides
  of every pending comparison equal.
\<close>

definition solution :: "inference \<Rightarrow> (placeholder_id \<Rightarrow> sql_type) \<Rightarrow> bool" where
  "solution ic \<sigma> \<longleftrightarrow>
     (\<forall>p t. placeholder_sql_type ic p = Some t \<longrightarrow> \<sigma> p = t)
     \<and> (\<forall>c \<in> set (inf_pending ic). \<sigma> (pn_left c) = \<sigma> (pn_right c))"

lemma expect_placeholder_fails:
  "expect_placeholder ic p t n span = Inl e \<Longrightarrow> \<exists>u. placeholder_sql_type ic p = Some u \<and> u \<noteq> t"
  by (auto simp: expect_placeholder_def Let_def inference_simps split: option.splits if_splits)

lemma expect_placeholder_solution:
  assumes "solution ic \<sigma>" "expect_placeholder ic p (\<sigma> p) n span = Inr ic'"
  shows "solution ic' \<sigma>"
  using assms(1) expect_placeholder_ok [OF assms(2)] by (auto simp: solution_def split: if_splits)

lemma solve_round_solution:
  assumes "solution ic \<sigma>" "set cs \<subseteq> set (inf_pending ic)"
  shows "\<exists>ch' ic'. solve_round cs ch ic = Inr (ch', ic') \<and> solution ic' \<sigma>"
  using assms
proof (induction cs arbitrary: ch ic)
  case (Cons c cs)
  have \<sigma>: "\<sigma> (pn_left c) = \<sigma> (pn_right c)" and known: "\<And>p t. placeholder_sql_type ic p = Some t \<Longrightarrow> \<sigma> p = t"
    using Cons.prems by (auto simp: solution_def)
  have step: "\<exists>ic1. expect_placeholder ic p (\<sigma> p) n span = Inr ic1 \<and> solution ic1 \<sigma> \<and> inf_pending ic1 = inf_pending ic"
    if "placeholder_sql_type ic p = None" for p n span
  proof (cases "expect_placeholder ic p (\<sigma> p) n span")
    case (Inl e)
    with that show ?thesis by (auto dest: expect_placeholder_fails)
  next
    case (Inr ic1)
    then show ?thesis
      using expect_placeholder_solution [OF Cons.prems(1)] expect_placeholder_ok(1) by blast
  qed
  show ?case
  proof (cases "placeholder_sql_type ic (pn_left c)"; cases "placeholder_sql_type ic (pn_right c)")
    fix t
    assume *: "placeholder_sql_type ic (pn_left c) = None" "placeholder_sql_type ic (pn_right c) = Some t"
    from step [OF *(1), of "placeholder_nullability ic (pn_right c)" "pn_span c"] obtain ic1 where
      "expect_placeholder ic (pn_left c) (\<sigma> (pn_left c)) (placeholder_nullability ic (pn_right c)) (pn_span c) = Inr ic1"
      "solution ic1 \<sigma>" "inf_pending ic1 = inf_pending ic" by blast
    with * known [OF *(2)] \<sigma> Cons.IH [of ic1 True] Cons.prems(2) show ?thesis by simp
  next
    fix t
    assume *: "placeholder_sql_type ic (pn_left c) = Some t" "placeholder_sql_type ic (pn_right c) = None"
    from step [OF *(2), of "placeholder_nullability ic (pn_left c)" "pn_span c"] obtain ic1 where
      "expect_placeholder ic (pn_right c) (\<sigma> (pn_right c)) (placeholder_nullability ic (pn_left c)) (pn_span c) = Inr ic1"
      "solution ic1 \<sigma>" "inf_pending ic1 = inf_pending ic" by blast
    with * known [OF *(1)] \<sigma> Cons.IH [of ic1 True] Cons.prems(2) show ?thesis by simp
  next
    fix t u
    assume *: "placeholder_sql_type ic (pn_left c) = Some t" "placeholder_sql_type ic (pn_right c) = Some u"
    with known \<sigma> have "t = u" by metis
    with * Cons.IH [of ic ch] Cons.prems show ?thesis by simp
  next
    assume "placeholder_sql_type ic (pn_left c) = None" "placeholder_sql_type ic (pn_right c) = None"
    with Cons.IH [of ic ch] Cons.prems show ?thesis by simp
  qed
qed simp

lemma solve_round_unchanged:
  "solve_round cs ch ic = Inr (False, ic') \<Longrightarrow>
   ic' = ic \<and> (\<forall>c \<in> set cs. placeholder_sql_type ic (pn_left c) = placeholder_sql_type ic (pn_right c))"
proof (induction cs arbitrary: ch)
  case (Cons c cs)
  have False if "solve_round cs True ic1 = Inr (False, ic')" for ic1
    using solve_round_ok(3) [OF that] by simp
  with Cons show ?case
    by (auto elim!: bindr_InrE split: option.splits if_splits)
qed simp

lemma solve_loop_keeps:
  assumes "solve_loop ic = Inr ic'"
  shows "inf_pending ic' = inf_pending ic"
    and "placeholder_sql_type ic p = Some t \<Longrightarrow> placeholder_sql_type ic' p = Some t"
    and "\<forall>c \<in> set (inf_pending ic). placeholder_sql_type ic' (pn_left c) = placeholder_sql_type ic' (pn_right c)"
    and "solution ic \<sigma> \<Longrightarrow> solution ic' \<sigma>"
proof -
  have "inf_pending ic' = inf_pending ic
    \<and> (\<forall>p t. placeholder_sql_type ic p = Some t \<longrightarrow> placeholder_sql_type ic' p = Some t)
    \<and> (\<forall>c \<in> set (inf_pending ic). placeholder_sql_type ic' (pn_left c) = placeholder_sql_type ic' (pn_right c))
    \<and> (solution ic \<sigma> \<longrightarrow> solution ic' \<sigma>)"
    using assms
  proof (induction ic rule: solve_loop.induct)
    case (1 ic)
    from "1.prems" obtain ch ic1 where r: "solve_round (inf_pending ic) False ic = Inr (ch, ic1)"
      and l: "(if ch then solve_loop ic1 else Inr ic1) = Inr ic'"
      by (subst (asm) solve_loop.simps) (auto elim!: bindr_InrE)
    have sol: "solution ic1 \<sigma>" if "solution ic \<sigma>"
      using solve_round_solution [OF that subset_refl, of False] r by auto
    show ?case
    proof (cases ch)
      case True
      with l "1.IH" [OF r refl] solve_round_ok(1,2) [OF r] sol show ?thesis by auto
    next
      case False
      with l r solve_round_unchanged [of "inf_pending ic" False ic ic1] sol show ?thesis by auto
    qed
  qed
  then show "inf_pending ic' = inf_pending ic"
    and "placeholder_sql_type ic p = Some t \<Longrightarrow> placeholder_sql_type ic' p = Some t"
    and "\<forall>c \<in> set (inf_pending ic). placeholder_sql_type ic' (pn_left c) = placeholder_sql_type ic' (pn_right c)"
    and "solution ic \<sigma> \<Longrightarrow> solution ic' \<sigma>"
    by auto
qed

lemma solve_loop_succeeds: "solution ic \<sigma> \<Longrightarrow> \<exists>ic'. solve_loop ic = Inr ic'"
proof (induction ic rule: solve_loop.induct)
  case (1 ic)
  from solve_round_solution [OF "1.prems" subset_refl, of False] obtain ch ic1 where
    r: "solve_round (inf_pending ic) False ic = Inr (ch, ic1)" and "solution ic1 \<sigma>" by auto
  then show ?case
    using "1.IH" [OF r refl] by (subst solve_loop.simps) auto
qed

text \<open>
  C24. The solver terminates on every set of constraints, and when it succeeds its result is the only
  one possible: known types are kept, the two sides of every comparison of placeholders get the same
  type, every placeholder has a type, and every solution of the constraints assigns these types. When
  the constraints have a solution, the solver can fail only because a placeholder is not constrained
  at all.
\<close>

theorem solve_principal:
  "(solve ic = Inr ic' \<longrightarrow>
      (\<forall>p t. placeholder_sql_type ic p = Some t \<longrightarrow> placeholder_sql_type ic' p = Some t)
      \<and> (\<forall>c \<in> set (inf_pending ic). placeholder_sql_type ic' (pn_left c) = placeholder_sql_type ic' (pn_right c))
      \<and> (\<forall>(p, st) \<in> set (inf_placeholders ic'). ph_inferred_type st \<noteq> None)
      \<and> (\<forall>\<sigma> p t. solution ic \<sigma> \<longrightarrow> placeholder_sql_type ic' p = Some t \<longrightarrow> \<sigma> p = t))
   \<and> (solve ic = Inl e \<longrightarrow> solution ic \<sigma> \<longrightarrow>
      (\<exists>ic1. solve_loop ic = Inr ic1 \<and> (\<exists>(p, st) \<in> set (inf_placeholders ic1). ph_inferred_type st = None)))"
proof (intro conjI impI)
  assume s: "solve ic = Inr ic'"
  then have l: "solve_loop ic = Inr ic'"
    and f: "filter (\<lambda>st. ph_inferred_type st = None) (bt_values (inf_placeholders ic')) = []"
    by (auto simp: solve_def elim!: bindr_InrE split: list.splits)
  note keeps = solve_loop_keeps [OF l]
  show "\<forall>p t. placeholder_sql_type ic p = Some t \<longrightarrow> placeholder_sql_type ic' p = Some t"
    using keeps(2) by blast
  show "\<forall>c \<in> set (inf_pending ic). placeholder_sql_type ic' (pn_left c) = placeholder_sql_type ic' (pn_right c)"
    by (rule keeps(3))
  show "\<forall>(p, st) \<in> set (inf_placeholders ic'). ph_inferred_type st \<noteq> None"
    using f by (auto simp: filter_empty_conv bt_values_def)
  show "\<forall>\<sigma> p t. solution ic \<sigma> \<longrightarrow> placeholder_sql_type ic' p = Some t \<longrightarrow> \<sigma> p = t"
    using keeps(4) unfolding solution_def [of ic'] by blast
next
  assume s: "solve ic = Inl e" and "solution ic \<sigma>"
  then obtain ic1 where l: "solve_loop ic = Inr ic1"
    using solve_loop_succeeds by blast
  have "filter (\<lambda>st. ph_inferred_type st = None) (bt_values (inf_placeholders ic1)) \<noteq> []"
    using s l by (auto simp: solve_def split: list.splits)
  then have "\<exists>st \<in> set (bt_values (inf_placeholders ic1)). ph_inferred_type st = None"
    by (simp add: filter_empty_conv)
  then show "\<exists>ic1. solve_loop ic = Inr ic1 \<and> (\<exists>(p, st) \<in> set (inf_placeholders ic1). ph_inferred_type st = None)"
    using l by (auto simp: bt_values_def)
qed

definition demo_constraints :: inference where
  "demo_constraints =
     \<lparr>inf_placeholders = [(0, fresh_placeholder 0 no_span), (1, (fresh_placeholder 1 no_span)\<lparr>ph_inferred_type := Some TyInt4\<rparr>)],
      inf_pending = [\<lparr>pn_left = 0, pn_right = 1, pn_span = no_span\<rparr>]\<rparr>"

theorem solve_principal_witness:
  "\<exists>ic'. solve demo_constraints = Inr ic' \<and> placeholder_sql_type ic' 0 = placeholder_sql_type ic' 1
     \<and> placeholder_sql_type ic' 1 = Some TyInt4"
proof -
  have "\<not> isl (solve demo_constraints)" by code_simp
  then obtain ic' where s: "solve demo_constraints = Inr ic'"
    by (cases "solve demo_constraints") auto
  have "placeholder_sql_type demo_constraints 1 = Some TyInt4"
    "\<lparr>pn_left = 0, pn_right = 1, pn_span = no_span\<rparr> \<in> set (inf_pending demo_constraints)"
    by (simp_all add: demo_constraints_def placeholder_sql_type_def bt_get_def fresh_placeholder_def)
  moreover from solve_principal [of demo_constraints ic'] s
  have "\<forall>p t. placeholder_sql_type demo_constraints p = Some t \<longrightarrow> placeholder_sql_type ic' p = Some t"
    "\<forall>c \<in> set (inf_pending demo_constraints). placeholder_sql_type ic' (pn_left c) = placeholder_sql_type ic' (pn_right c)"
    by blast+
  ultimately show ?thesis using s by (metis pending_constraint.select_convs(1,2))
qed


section \<open>INSERT, UPDATE and DELETE\<close>

text \<open>The row a RETURNING clause reads: the written row of the target table.\<close>

definition target_row :: "'v table_row \<Rightarrow> 'v sql_row" where
  "target_row r = (\<lambda>_. None)(0 := Some r)"

lemma returning_sound:
  assumes "catalog_wf cat" "resolve_single_target from cat = Inr (target, scope, bs)"
    and "sem_typed S" "ids_ok ic" "args_ok S (parameters ic) args"
    and "collect_r (resolve_projection scope bs cat) pps = Inr ps"
    and "finalize_projections (env_new (rb_id target)) cat ic ps = Inr cps" "p \<in> set cps"
    and "table_row_ok S (ct_table cat (rb_table target)) r"
  shows "cj_nullability p = NonNull \<longrightarrow> eval S args (target_row r) (cj_expr p) \<noteq> None"
    and "eval S args (target_row r) (cj_expr p) = Some v \<Longrightarrow> \<not> integer_constant (cj_expr p) \<Longrightarrow> sem_type S v = cj_sql_type p"
proof -
  from assms(2) obtain nx where f: "resolve_from from cat 0 [] = Inr (target, nx, scope)" and bs: "bs = [target]"
    by (auto simp: resolve_single_target_def elim!: bindr_InrE)
  have ok: "bindings_ok cat scope bs"
    using resolve_from_ok(3) [OF assms(1) bindings_ok_Nil] f bs by simp
  have "row_ok S cat bs (env_new (rb_id target)) (target_row r)"
    using assms(9) by (simp add: row_ok_def target_row_def bs)
  from projections_sound [OF assms(1) ok assms(3-8) this]
  show "cj_nullability p = NonNull \<longrightarrow> eval S args (target_row r) (cj_expr p) \<noteq> None"
    and "eval S args (target_row r) (cj_expr p) = Some v \<Longrightarrow> \<not> integer_constant (cj_expr p) \<Longrightarrow> sem_type S v = cj_sql_type p"
    by (auto simp: sound_value_def)
qed

lemma ids_assign_value: "ids_ok ic \<Longrightarrow> assign_value scope bs env cat t c e ic = Inr (r, ic') \<Longrightarrow> ids_ok ic'"
  by (auto simp: assign_value_def Let_def elim!: bindr_InrE dest!: ids.analyze(1) [rotated] ids.assignment [rotated])

lemma ids_update_assignments:
  "ids_ok ic \<Longrightarrow> update_assignments scope bs env cat as ic = Inr (vs, ic') \<Longrightarrow> ids_ok ic'"
proof (induction as arbitrary: ic vs)
  case (Cons a as)
  then show ?case by (auto elim!: bindr_InrE dest!: ids_assign_value [rotated])
qed simp

lemma ids_resolve_returning:
  "ids_ok ic \<Longrightarrow> resolve_returning scope bs env cat pps ic = Inr (ps, ic') \<Longrightarrow>
   ids_ok ic' \<and> collect_r (resolve_projection scope bs cat) pps = Inr ps"
  by (auto simp: resolve_returning_def elim!: bindr_InrE dest!: ids.projections [rotated])

text \<open>The columns an accepted UPDATE returns are sound for every row that conforms to the target table.\<close>

lemma update_returning_sound:
  assumes "build_catalog decls = Inr cat" "resolve_update upd cat = Inr c" "sem_typed S"
    and "args_ok S (cu_parameters c) args" "p \<in> set (cu_projections c)"
    and "resolve_table cat (map id_value (on_parts (pf_table_name (pu_target upd)))) (on_span (pf_table_name (pu_target upd))) = Inr t"
    and "table_row_ok S (ct_table cat t) r"
  shows "cj_nullability p = NonNull \<longrightarrow> eval S args (target_row r) (cj_expr p) \<noteq> None"
proof -
  from assms(2) obtain target scope bs vs ic1 f ic2 ps ic3 ic where
    t: "resolve_single_target (pu_target upd) cat = Inr (target, scope, bs)"
    and 1: "update_assignments scope bs (env_new (rb_id target)) cat (pu_assignments upd) inference_new = Inr (vs, ic1)"
    and 2: "analyze_predicate (env_new (rb_id target)) cat f ic1 = Inr ic2"
    and 3: "resolve_returning scope bs (env_new (rb_id target)) cat (pu_returning upd) ic2 = Inr (ps, ic3)"
    and 4: "solve ic3 = Inr ic"
    and 5: "finalize_projections (env_new (rb_id target)) cat ic ps = Inr (cu_projections c)"
    and 6: "cu_parameters c = parameters ic"
    by (auto simp: resolve_update_def Let_def elim!: bindr_InrE)
  have "ids_ok ic2" by (rule ids.predicate [OF ids_update_assignments [OF ids.new 1] 2])
  note ret = ids_resolve_returning [OF this 3]
  have "rb_table target = t"
    using t assms(6) by (auto simp: resolve_single_target_def resolve_from_def Let_def elim!: bindr_InrE)
  with assms(7) have "table_row_ok S (ct_table cat (rb_table target)) r" by simp
  with returning_sound(1) [OF build_catalog_wf [OF assms(1)] t assms(3) ids.solved [OF _ 4] assms(4) [unfolded 6] _ 5 assms(5)]
    ret show ?thesis by blast
qed

text \<open>
  The last pass gives no type to a bare NULL, and UPDATE runs it over its assignments: an UPDATE that
  sets a column to NULL is always refused, although the assignment itself is checked and accepted
  for nullable columns.
\<close>

lemma update_assignments_mem:
  assumes "update_assignments scope bs env cat as ic = Inr (vs, ic')" "a \<in> set as"
  shows "\<exists>t v. (t, v) \<in> set vs \<and> resolve_expr scope bs cat (pa_value a) = Inr v"
  using assms
proof (induction as arbitrary: ic vs)
  case (Cons b as)
  then show ?case by (fastforce simp: assign_value_def Let_def elim!: bindr_InrE)
qed simp

text \<open>
  The checker refuses every UPDATE that assigns a NULL literal, whatever the column.
\<close>

theorem update_to_null_refused:
  assumes "a \<in> set (pu_assignments upd)" and "pa_value a = PLiteral l" and "pl_value l = NullLit"
  shows "\<nexists>c. resolve_update upd cat = Inr c"
proof
  assume "\<exists>c. resolve_update upd cat = Inr c"
  then obtain c target scope bs env vs ic1 ic cs where
    1: "update_assignments scope bs env cat (pu_assignments upd) inference_new = Inr (vs, ic1)"
    and 2: "collect_r (\<lambda>(t, v). bindr (finalize_expr env cat ic v) (\<lambda>e. Inr \<lparr>ca_target = t, ca_value = e\<rparr>)) vs = Inr cs"
    by (auto simp: resolve_update_def Let_def elim!: bindr_InrE)
  from update_assignments_mem [OF 1 assms(1)] obtain t where
    "(t, ResolvedExpr (pl_span l) (RLiteral NullLit)) \<in> set vs"
    by (auto simp: assms)
  then obtain k where k: "k < length vs" "vs ! k = (t, ResolvedExpr (pl_span l) (RLiteral NullLit))"
    by (auto simp: in_set_conv_nth)
  from 2 k have "bindr (finalize_expr env cat ic (snd (vs ! k))) (\<lambda>e. Inr \<lparr>ca_target = t, ca_value = e\<rparr>) = Inr (cs ! k)"
    by (auto simp: collect_r_eq_Inr_iff list_all2_conv_all_nth simp del: finalize_expr.simps dest!: spec [of _ k])
  then show False
    using k by (simp add: finalize_literal_type_def)
qed

definition demo_update :: parsed_update where
  "demo_update =
     \<lparr>pu_id = 0, pu_span = no_span, pu_target = demo_from ''users'' ''u'',
      pu_assignments = [\<lparr>pa_id = 0, pa_span = no_span,
        pa_target = \<lparr>pt_span = no_span, pt_binding = None, pt_column = demo_ident ''name''\<rparr>, pa_value = demo_literal NullLit\<rparr>],
      pu_filter = PBinary 0 no_span OpEq (demo_column ''u'' ''id'') (demo_placeholder 0 ''x'' False), pu_returning = []\<rparr>"

theorem update_to_null_refused_witness:
  "constrain_assignment TyText Nullable \<lparr>em_kind = ValueExpr, em_value_type = VNull, em_nullability = Nullable\<rparr> no_span inference_new
     = Inr inference_new
   \<and> (\<nexists>c. resolve_update demo_update demo_catalog = Inr c)"
proof
  show "\<nexists>c. resolve_update demo_update demo_catalog = Inr c"
    by (rule update_to_null_refused [of "pu_assignments demo_update ! 0" _ "\<lparr>pl_id = 0, pl_span = no_span, pl_value = NullLit\<rparr>"])
      (simp_all add: demo_update_def demo_literal_def)
qed (simp add: constrain_assignment_def)

section \<open>What the checker lets through\<close>

fun compared_types :: "checked_expr \<Rightarrow> (sql_type \<times> sql_type) list" where
  "compared_types (CheckedExpr sp k t n (COptionalGroup i e req)) = compared_types e"
| "compared_types (CheckedExpr sp k t n (CUnary op e)) = compared_types e"
| "compared_types (CheckedExpr sp k t n (CBinary op l r)) =
     (ce_sql_type l, ce_sql_type r) # compared_types l @ compared_types r"
| "compared_types (CheckedExpr sp k t n (CIsNull negated e)) = compared_types e"
| "compared_types (CheckedExpr sp k t n (CBoolChain op es)) = concat (map compared_types es)"
| "compared_types (CheckedExpr sp k t n _) = []"

text \<open>\<open>SELECT u.id AS i FROM users AS u WHERE u.name = $x AND $x = 5\<close>\<close>

definition demo_ill_typed :: parsed_select where
  "demo_ill_typed = demo_select\<lparr>ps_projections := [demo_projection (demo_column ''u'' ''id'') ''i''], ps_joins := [],
     ps_filter := Some (PBoolChain 0 no_span OpAnd
       [PBinary 0 no_span OpEq (demo_column ''u'' ''name'') (demo_placeholder 0 ''x'' False),
        PBinary 0 no_span OpEq (demo_placeholder 0 ''x'' False) (demo_literal (Number ''5''))])\<rparr>"

text \<open>
  A comparison of a placeholder with a literal constrains nothing: the checker accepts a statement
  that compares a placeholder it has inferred to be text with an integer.
\<close>

theorem accepts_text_integer_comparison:
  "\<exists>c f. resolve_select demo_ill_typed demo_catalog = Inr c \<and> cs_filter c = Some f
     \<and> (TyText, TyInt8) \<in> set (compared_types f) \<and> \<not> comparable_to TyText TyInt8"
proof -
  have "case resolve_select demo_ill_typed demo_catalog of
      Inr c \<Rightarrow> (case cs_filter c of Some f \<Rightarrow> (TyText, TyInt8) \<in> set (compared_types f) | None \<Rightarrow> False) | Inl _ \<Rightarrow> False"
    by code_simp
  moreover have "\<not> comparable_to TyText TyInt8" by code_simp
  ultimately show ?thesis by (auto split: sum.splits option.splits)
qed

text \<open>\<open>INSERT INTO users AS u (name) VALUES (- $x)\<close>\<close>

definition demo_insert :: parsed_insert where
  "demo_insert =
     \<lparr>pi_id = 0, pi_span = no_span, pi_target = demo_from ''users'' ''u'', pi_columns = [demo_ident ''name''],
      pi_values = [\<lparr>pv_id = 0, pv_span = no_span, pv_values = [PUnary 0 no_span OpMinus (demo_placeholder 0 ''x'' False)]\<rparr>],
      pi_returning = []\<rparr>"

text \<open>
  The sign of a placeholder is checked in the last pass only, and INSERT does not run it over its
  values: the negation of a text parameter is accepted.
\<close>

lemma insert_accepts_negated_text:
  "\<exists>c. resolve_insert demo_insert demo_catalog = Inr c \<and> map cp_sql_type (ci_parameters c) = [TyText]
     \<and> \<not> supports_unary_sign TyText"
proof -
  have "case resolve_insert demo_insert demo_catalog of
      Inr c \<Rightarrow> map cp_sql_type (ci_parameters c) = [TyText] | Inl _ \<Rightarrow> False"
    by code_simp
  moreover have "\<not> supports_unary_sign TyText" by code_simp
  ultimately show ?thesis by (auto split: sum.splits)
qed

text \<open>An integer constant is always given the type \<open>int8\<close>; PostgreSQL gives it \<open>int4\<close> when it fits.\<close>

lemma integer_constant_type:
  "finalize_expr env cat ic (ResolvedExpr sp (RLiteral (Number n))) = Inr e \<Longrightarrow> is_integer_literal n \<Longrightarrow> ce_sql_type e = TyInt8"
  by (auto simp: finalize_literal_type_def)

end
