(* ===== verification/Typed_Source.thy ===== *)
theory Typed_Source
  imports Typed_Ir Babar_Error
begin

text \<open>
  The source text of a schema-aware statement (\<open>macros/src/typed_sql/source.rs\<close>): named placeholders
  such as \<open>$user_id\<close> and the optional marks are replaced by numbered ones, with a map from positions in
  the canonical text back to the original one.

  The source walks over the characters of the text with their byte offsets. Every character it looks
  for is ASCII and no byte of a longer character is, so walking over the bytes finds the same places;
  \<open>is_ident_continue\<close> and its kin are false for the bytes of longer characters as for these
  characters. The SQL tokenizer is a third-party crate: the functions that use it take its tokens as
  a parameter.
\<close>

section \<open>Tables\<close>

record placeholder_occurrence =
  oc_original_span :: source_span
  oc_canonical_span :: source_span
  oc_optional :: bool

record placeholder_entry =
  pe_id :: placeholder_id
  pe_name :: str
  pe_slot :: nat
  pe_occurrences :: "placeholder_occurrence list"

record optional_group =
  og_original_span :: source_span
  og_canonical_span :: source_span

record replacement_span =
  rp_canonical :: source_span
  rp_original :: source_span

record canonicalized_sql =
  cn_canonical_sql :: str
  cn_replacements :: "replacement_span list"
  cn_placeholders :: "placeholder_entry list"
  cn_optional_groups :: "optional_group list"

record sql_source =
  sq_original_sql :: str
  sq_canonical_sql :: str
  sq_replacements :: "replacement_span list"
  sq_placeholders :: "placeholder_entry list"
  sq_optional_groups :: "optional_group list"
  sq_line_starts :: "nat list"

definition entry_for_token :: "placeholder_entry list \<Rightarrow> str \<Rightarrow> placeholder_entry option" where
  "entry_for_token entries token =
     (case strip_prefix ''$'' token of
        None \<Rightarrow> None
      | Some digits \<Rightarrow>
          (case parse_u32 digits of
             Inl _ \<Rightarrow> None
           | Inr slot \<Rightarrow> find (\<lambda>e. pe_slot e = unat slot) entries))"

definition entry_for_canonical_span :: "optional_group list \<Rightarrow> source_span \<Rightarrow> optional_group option" where
  "entry_for_canonical_span groups span =
     find (\<lambda>g. span_start (og_canonical_span g) \<le> span_start span \<and> span_end span \<le> span_end (og_canonical_span g)) groups"

section \<open>The source map\<close>

datatype offset_anchor = AnchorStart | AnchorEnd

fun original_offset_loop :: "nat \<Rightarrow> offset_anchor \<Rightarrow> int \<Rightarrow> replacement_span list \<Rightarrow> nat" where
  "original_offset_loop offset anchor delta [] = nat ((int offset + delta) mod 2 ^ 32)"
| "original_offset_loop offset anchor delta (r # rs) =
     (if offset < span_start (rp_canonical r) then nat ((int offset + delta) mod 2 ^ 32)
      else if offset \<le> span_end (rp_canonical r) then
        (case anchor of AnchorStart \<Rightarrow> span_start (rp_original r) | AnchorEnd \<Rightarrow> span_end (rp_original r))
      else original_offset_loop offset anchor
        (delta + int (span_end (rp_original r) - span_start (rp_original r))
               - int (span_end (rp_canonical r) - span_start (rp_canonical r))) rs)"

definition original_span :: "replacement_span list \<Rightarrow> source_span \<Rightarrow> source_span" where
  "original_span rs s =
     span_new (original_offset_loop (span_start s) AnchorStart 0 rs) (original_offset_loop (span_end s) AnchorEnd 0 rs)"

section \<open>Canonicalization\<close>

datatype scan_state =
    ScanNormal
  | SingleQuoted
  | DoubleQuoted
  | LineComment
  | BlockComment nat

definition is_ascii_alphabetic :: "char \<Rightarrow> bool" where
  "is_ascii_alphabetic c = (let n = (of_char c :: nat) in 65 \<le> n \<and> n \<le> 90 \<or> 97 \<le> n \<and> n \<le> 122)"

definition ascii_digit :: "char \<Rightarrow> bool" where
  "ascii_digit c = (let n = (of_char c :: nat) in 48 \<le> n \<and> n \<le> 57)"

definition is_ident_start :: "char \<Rightarrow> bool" where
  "is_ident_start c = (c = CHR ''_'' \<or> is_ascii_alphabetic c)"

definition is_ident_continue :: "char \<Rightarrow> bool" where
  "is_ident_continue c = (c = CHR ''_'' \<or> is_ascii_alphabetic c \<or> ascii_digit c)"

definition to_u32 :: "nat \<Rightarrow> nat tresult" where
  "to_u32 v = (if int v < 2 ^ 32 then Inr v else Inl (internal (''value '' @ show_nat v @ '' does not fit in u32'')))"

definition span_u32 :: "nat \<Rightarrow> nat \<Rightarrow> source_span tresult" where
  "span_u32 s e = bindr (to_u32 s) (\<lambda>s. bindr (to_u32 e) (\<lambda>e. Inr (span_new s e)))"

definition to_ascii_uppercase :: "str \<Rightarrow> str" where
  "to_ascii_uppercase =
     map (\<lambda>c. let n = (of_char c :: nat) in if 97 \<le> n \<and> n \<le> 122 then char_of (n - 32) else c)"

definition begins_with :: "str \<Rightarrow> str \<Rightarrow> bool" where
  "begins_with s p = (take (length p) s = p)"

definition starts_with_optional_clause_keyword :: "str \<Rightarrow> bool" where
  "starts_with_optional_clause_keyword input =
     (let upper = to_ascii_uppercase (trim_start input) in
      begins_with upper ''WHERE '' \<or> upper = ''WHERE''
      \<or> begins_with upper ''ORDER BY '' \<or> upper = ''ORDER BY''
      \<or> begins_with upper ''LIMIT '' \<or> upper = ''LIMIT''
      \<or> begins_with upper ''OFFSET '' \<or> upper = ''OFFSET'')"

text \<open>The slice \<open>&text[a..b]\<close>.\<close>

definition slice :: "str \<Rightarrow> nat \<Rightarrow> nat \<Rightarrow> str" where
  "slice s a b = take (b - a) (drop a s)"

text \<open>
  The variables of the loop: the canonical text so far, the tables, and the stack of open parentheses
  with their offsets in both texts. The hash map from names to entries is the lookup of the name in
  the list of entries.
\<close>

record canon =
  cn_out :: str
  cn_reps :: "replacement_span list"
  cn_entries :: "placeholder_entry list"
  cn_groups :: "optional_group list"
  cn_parens :: "(nat \<times> nat) list"

definition entry_index :: "str \<Rightarrow> placeholder_entry list \<Rightarrow> nat" where
  "entry_index name entries = length (takeWhile (\<lambda>e. pe_name e \<noteq> name) entries)"

definition ensure_entry :: "str \<Rightarrow> placeholder_entry list \<Rightarrow> placeholder_entry list" where
  "ensure_entry name entries =
     (if \<exists>e \<in> set entries. pe_name e = name then entries
      else entries @ [\<lparr>pe_id = length entries, pe_name = name, pe_slot = length entries + 1, pe_occurrences = []\<rparr>])"

definition push_str :: "str \<Rightarrow> canon \<Rightarrow> canon" where
  "push_str s cn = cn\<lparr>cn_out := cn_out cn @ s\<rparr>"

definition canon_placeholder :: "nat \<Rightarrow> str \<Rightarrow> bool \<Rightarrow> canon \<Rightarrow> canon tresult" where
  "canon_placeholder idx name opt cn =
     (let entries = ensure_entry name (cn_entries cn);
          i = entry_index name entries;
          original_end = idx + 1 + length name + (if opt then 1 else 0);
          out = cn_out cn @ ''$'' @ show_nat (pe_slot (entries ! i)) in
      bindr (span_u32 idx original_end) (\<lambda>original.
      bindr (span_u32 (length (cn_out cn)) (length out)) (\<lambda>canonical.
      Inr (cn\<lparr>cn_out := out,
              cn_reps := cn_reps cn @ [\<lparr>rp_canonical = canonical, rp_original = original\<rparr>],
              cn_entries := entries[i := (entries ! i)\<lparr>pe_occurrences := pe_occurrences (entries ! i) @
                [\<lparr>oc_original_span = original, oc_canonical_span = canonical, oc_optional = opt\<rparr>]\<rparr>]\<rparr>))))"

definition group_clause_message :: str where
  "group_clause_message = ''typed_sql v1 requires `(...)?` to own a parenthesized predicate or single ORDER BY item; it cannot wrap a clause keyword like ORDER BY, LIMIT, or OFFSET''"

text \<open>A closing parenthesis at \<open>idx\<close> followed by a question mark.\<close>

definition canon_group :: "str \<Rightarrow> nat \<Rightarrow> canon \<Rightarrow> canon tresult" where
  "canon_group sql idx cn =
     (let out = cn_out cn @ '')''; canonical_end = length out;
          frame = (case cn_parens cn of [] \<Rightarrow> None | f # _ \<Rightarrow> Some f);
          original_start = (case frame of None \<Rightarrow> idx | Some (o_start, _) \<Rightarrow> o_start);
          canonical_start = (case frame of None \<Rightarrow> canonical_end - 1 | Some (_, c_start) \<Rightarrow> c_start) in
      bindr (span_u32 original_start (idx + 2)) (\<lambda>span.
      if starts_with_optional_clause_keyword (slice sql (original_start + 1) (idx + 1)) then
        Inl (unsupported_at group_clause_message span)
      else
        bindr (span_u32 canonical_start canonical_end) (\<lambda>canonical.
        bindr (span_u32 canonical_end canonical_end) (\<lambda>rep_canonical.
        bindr (span_u32 (idx + 1) (idx + 2)) (\<lambda>rep_original.
        Inr (cn\<lparr>cn_out := out,
                cn_groups := cn_groups cn @ [\<lparr>og_original_span = span, og_canonical_span = canonical\<rparr>],
                cn_reps := cn_reps cn @ [\<lparr>rp_canonical = rep_canonical, rp_original = rep_original\<rparr>],
                cn_parens := tl (cn_parens cn)\<rparr>))))))"

definition next_is :: "char \<Rightarrow> str \<Rightarrow> bool" where
  "next_is c s = (s \<noteq> [] \<and> hd s = c)"

text \<open>
  The loop of \<open>canonicalize_parts\<close>: \<open>idx\<close> is the byte offset of the rest of the text that is still to be
  read.
\<close>

function canon_loop :: "str \<Rightarrow> nat \<Rightarrow> scan_state \<Rightarrow> str \<Rightarrow> canon \<Rightarrow> canon tresult" where
  "canon_loop sql idx state [] cn = Inr cn"
| "canon_loop sql idx ScanNormal (c # cs) cn =
     (if c = squote then canon_loop sql (idx + 1) SingleQuoted cs (push_str [c] cn)
      else if c = dquote then canon_loop sql (idx + 1) DoubleQuoted cs (push_str [c] cn)
      else if c = CHR ''-'' \<and> next_is (CHR ''-'') cs then canon_loop sql (idx + 2) LineComment (tl cs) (push_str ''--'' cn)
      else if c = CHR ''/'' \<and> next_is (CHR ''*'') cs then canon_loop sql (idx + 2) (BlockComment 1) (tl cs) (push_str ''/*'' cn)
      else if c = CHR ''$'' \<and> cs \<noteq> [] \<and> ascii_digit (hd cs) then
        bindr (span_u32 idx (idx + 1)) (\<lambda>span.
        Inl (unsupported_at ''only named placeholders are supported in typed_sql v1'' span))
      else if c = CHR ''$'' \<and> cs \<noteq> [] \<and> is_ident_start (hd cs) then
        (let name = takeWhile is_ident_continue cs; rest = dropWhile is_ident_continue cs; opt = next_is (CHR ''?'') rest in
         bindr (canon_placeholder idx name opt cn) (\<lambda>cn'.
         canon_loop sql (idx + 1 + length name + (if opt then 1 else 0)) ScanNormal (if opt then tl rest else rest) cn'))
      else if c = CHR ''('' then
        canon_loop sql (idx + 1) ScanNormal cs (push_str [c] (cn\<lparr>cn_parens := (idx, length (cn_out cn)) # cn_parens cn\<rparr>))
      else if c = CHR '')'' then
        (if next_is (CHR ''?'') cs then
           bindr (canon_group sql idx cn) (\<lambda>cn'. canon_loop sql (idx + 2) ScanNormal (tl cs) cn')
         else canon_loop sql (idx + 1) ScanNormal cs (push_str [c] (cn\<lparr>cn_parens := tl (cn_parens cn)\<rparr>)))
      else canon_loop sql (idx + 1) ScanNormal cs (push_str [c] cn))"
| "canon_loop sql idx SingleQuoted (c # cs) cn =
     (if c = squote \<and> next_is squote cs then canon_loop sql (idx + 2) SingleQuoted (tl cs) (push_str [c, squote] cn)
      else canon_loop sql (idx + 1) (if c = squote then ScanNormal else SingleQuoted) cs (push_str [c] cn))"
| "canon_loop sql idx DoubleQuoted (c # cs) cn =
     (if c = dquote \<and> next_is dquote cs then canon_loop sql (idx + 2) DoubleQuoted (tl cs) (push_str [c, dquote] cn)
      else canon_loop sql (idx + 1) (if c = dquote then ScanNormal else DoubleQuoted) cs (push_str [c] cn))"
| "canon_loop sql idx LineComment (c # cs) cn =
     canon_loop sql (idx + 1) (if c = lf then ScanNormal else LineComment) cs (push_str [c] cn)"
| "canon_loop sql idx (BlockComment depth) (c # cs) cn =
     (if c = CHR ''/'' \<and> next_is (CHR ''*'') cs then
        canon_loop sql (idx + 2) (BlockComment (depth + 1)) (tl cs) (push_str ''/*'' cn)
      else if c = CHR ''*'' \<and> next_is (CHR ''/'') cs then
        canon_loop sql (idx + 2) (if depth - 1 = 0 then ScanNormal else BlockComment (depth - 1)) (tl cs) (push_str ''*/'' cn)
      else canon_loop sql (idx + 1) (BlockComment depth) cs (push_str [c] cn))"
  by pat_completeness auto
termination
  by (relation "measure (\<lambda>(sql, idx, state, cs, cn). length cs)")
    (auto simp: le_imp_less_Suc length_dropWhile_le next_is_def less_Suc_eq_le
      intro: le_trans [OF diff_le_self length_dropWhile_le])

declare canon_loop.simps(2-6) [simp del]

definition canon_new :: canon where
  "canon_new = \<lparr>cn_out = [], cn_reps = [], cn_entries = [], cn_groups = [], cn_parens = []\<rparr>"

definition canonicalize_parts :: "str \<Rightarrow> canonicalized_sql tresult" where
  "canonicalize_parts sql =
     bindr (canon_loop sql 0 ScanNormal sql canon_new) (\<lambda>cn.
     Inr \<lparr>cn_canonical_sql = cn_out cn, cn_replacements = cn_reps cn, cn_placeholders = cn_entries cn,
          cn_optional_groups = cn_groups cn\<rparr>)"

fun line_starts_from :: "nat \<Rightarrow> str \<Rightarrow> nat list" where
  "line_starts_from i [] = []"
| "line_starts_from i (c # cs) = (if c = lf then (i + 1) # line_starts_from (i + 1) cs else line_starts_from (i + 1) cs)"

definition line_starts :: "str \<Rightarrow> nat list" where
  "line_starts sql = 0 # line_starts_from 0 sql"

definition from_canonicalized :: "str \<Rightarrow> canonicalized_sql \<Rightarrow> sql_source" where
  "from_canonicalized original cs =
     \<lparr>sq_original_sql = original, sq_canonical_sql = cn_canonical_sql cs, sq_replacements = cn_replacements cs,
      sq_placeholders = cn_placeholders cs, sq_optional_groups = cn_optional_groups cs,
      sq_line_starts = line_starts (cn_canonical_sql cs)\<rparr>"

definition canonicalize :: "str \<Rightarrow> sql_source tresult" where
  "canonicalize sql = bindr (canonicalize_parts sql) (\<lambda>cs. Inr (from_canonicalized sql cs))"

section \<open>Positions of the parser\<close>

definition char_boundaries :: "str \<Rightarrow> nat list" where
  "char_boundaries s = filter (\<lambda>i. \<not> is_cont (of_char (s ! i))) [0..<length s]"

definition nth_char_boundary :: "str \<Rightarrow> nat \<Rightarrow> nat option" where
  "nth_char_boundary input n =
     (let starts = char_boundaries input in
      if n = 0 then Some 0
      else if n < length starts then Some (starts ! n)
      else if length starts = n then Some (length input)
      else None)"

definition byte_offset_for_location :: "sql_source \<Rightarrow> nat \<Rightarrow> nat \<Rightarrow> nat tresult" where
  "byte_offset_for_location src line column =
     (let starts = sq_line_starts src; i = line - 1 in
      if length starts \<le> i then Inl (internal (''line '' @ show_nat line @ '' is outside canonical SQL''))
      else
        (let line_start = starts ! i;
             line_end = (if i + 1 < length starts then starts ! (i + 1) - 1 else length (sq_canonical_sql src));
             line_text = slice (sq_canonical_sql src) line_start line_end in
         case nth_char_boundary line_text (column - 1) of
           None \<Rightarrow> Inl (internal (''column '' @ show_nat column @ '' is outside canonical SQL line '' @ show_nat line))
         | Some offset \<Rightarrow> Inr (line_start + offset)))"

text \<open>A span of the parser: the line and column of its start and of its end, all zero when unknown.\<close>

record parser_span =
  psp_start_line :: nat
  psp_start_column :: nat
  psp_end_line :: nat
  psp_end_column :: nat

definition canonical_span_for_parser :: "sql_source \<Rightarrow> parser_span \<Rightarrow> source_span tresult" where
  "canonical_span_for_parser src s =
     (if psp_start_line s = 0 \<or> psp_end_line s = 0 then Inr (span_new 0 0)
      else bindr (byte_offset_for_location src (psp_start_line s) (psp_start_column s)) (\<lambda>a.
           bindr (byte_offset_for_location src (psp_end_line s) (psp_end_column s)) (\<lambda>b.
           span_u32 a b)))"

record sql_token =
  tok_rendered :: str
  tok_trivia :: bool
  tok_span :: parser_span

fun anchor_scan ::
    "sql_source \<Rightarrow> nat \<Rightarrow> str option \<Rightarrow> sql_token list \<Rightarrow> source_span option \<Rightarrow> source_span option \<Rightarrow> source_span option tresult" where
  "anchor_scan src offset expected [] previous matching = Inr (case matching of Some s \<Rightarrow> Some s | None \<Rightarrow> previous)"
| "anchor_scan src offset expected (t # ts) previous matching =
     (if tok_trivia t then anchor_scan src offset expected ts previous matching
      else bindr (canonical_span_for_parser src (tok_span t)) (\<lambda>span.
        if offset \<le> span_start span \<or> offset < span_end span then Inr (Some span)
        else if expected = Some (tok_rendered t) then anchor_scan src offset expected ts previous (Some span)
        else anchor_scan src offset expected ts (Some span) matching))"

definition anchor_canonical_span ::
    "(str \<Rightarrow> str + sql_token list) \<Rightarrow> sql_source \<Rightarrow> nat \<Rightarrow> str option \<Rightarrow> source_span option tresult" where
  "anchor_canonical_span tokenize src offset expected =
     bindr (map_err (\<lambda>e. internal (''failed to tokenize canonical SQL while building diagnostics: '' @ e))
       (tokenize (sq_canonical_sql src))) (\<lambda>tokens.
     anchor_scan src offset expected tokens None None)"

definition anchor_parser_error_span ::
    "(str \<Rightarrow> str + sql_token list) \<Rightarrow> sql_source \<Rightarrow> nat \<Rightarrow> nat \<Rightarrow> str option \<Rightarrow> source_span option tresult" where
  "anchor_parser_error_span tokenize src line column expected =
     (if line = 0 \<or> column = 0 then Inr None
      else bindr (byte_offset_for_location src line column) (\<lambda>offset.
           bindr (anchor_canonical_span tokenize src offset expected) (\<lambda>found.
           case found of
             None \<Rightarrow> bindr (span_u32 offset offset) (\<lambda>s. Inr (Some (original_span (sq_replacements src) s)))
           | Some s \<Rightarrow> Inr (Some (original_span (sq_replacements src) s)))))"

definition is_clause_keyword :: "str \<Rightarrow> bool" where
  "is_clause_keyword t = (t \<in> {''WHERE'', ''GROUP'', ''ORDER'', ''LIMIT'', ''OFFSET'', ''JOIN''})"

fun keyword_scan :: "sql_source \<Rightarrow> bool \<Rightarrow> sql_token list \<Rightarrow> (str \<times> source_span) option tresult" where
  "keyword_scan src saw_from [] = Inr None"
| "keyword_scan src saw_from (t # ts) =
     (if tok_trivia t then keyword_scan src saw_from ts
      else if saw_from then
        (if is_clause_keyword (tok_rendered t) then
           bindr (canonical_span_for_parser src (tok_span t)) (\<lambda>span.
           Inr (Some (tok_rendered t, original_span (sq_replacements src) span)))
         else keyword_scan src False ts)
      else keyword_scan src (tok_rendered t = ''FROM'') ts)"

definition clause_keyword_after_from ::
    "(str \<Rightarrow> str + sql_token list) \<Rightarrow> sql_source \<Rightarrow> (str \<times> source_span) option tresult" where
  "clause_keyword_after_from tokenize src =
     bindr (map_err (\<lambda>e. internal (''failed to tokenize canonical SQL while building diagnostics: '' @ e))
       (tokenize (sq_canonical_sql src))) (\<lambda>tokens.
     keyword_scan src False tokens)"

section \<open>Excerpts\<close>

definition render_span_excerpt :: "sql_source \<Rightarrow> source_span \<Rightarrow> str option" where
  "render_span_excerpt src span =
     (let sql = sq_original_sql src; start = span_start span; end_pos = span_end span in
      if start > length sql \<or> end_pos > length sql \<or> start > end_pos then None
      else
        (let before = take start sql;
             line_start = start - length (takeWhile (\<lambda>c. c \<noteq> lf) (rev before));
             line_end = end_pos + length (takeWhile (\<lambda>c. c \<noteq> lf) (drop end_pos sql));
             line_text = slice sql line_start line_end;
             line_number = length (filter (\<lambda>c. c = lf) before) + 1;
             column_start = chars_count (slice sql line_start start);
             underline = (if start = end_pos then 1 else max (chars_count (slice sql start end_pos)) 1) in
         Some (''   |'' @ [lf] @ pad_left 2 (show_nat line_number) @ '' | '' @ line_text @ [lf] @ ''   | ''
           @ replicate column_start (CHR '' '') @ replicate underline (CHR ''^''))))"

definition render_for_user :: "sql_source \<Rightarrow> typed_sql_error \<Rightarrow> str" where
  "render_for_user src e =
     headline (te_kind e) @ '': '' @ te_message e
     @ (case te_span e of
          None \<Rightarrow> []
        | Some span \<Rightarrow> (case render_span_excerpt src span of None \<Rightarrow> [] | Some excerpt \<Rightarrow> lf # excerpt))
     @ (case error_help e of None \<Rightarrow> [] | Some help \<Rightarrow> lf # ''help: '' @ help)"


section \<open>Faithfulness of the canonical text\<close>

text \<open>The text with the given spans replaced by other texts, up to position \<open>stop\<close>.\<close>

fun spliced :: "str \<Rightarrow> nat \<Rightarrow> (source_span \<times> str) list \<Rightarrow> nat \<Rightarrow> str" where
  "spliced sql pos [] stop = slice sql pos stop"
| "spliced sql pos ((s, new) # rs) stop = slice sql pos (span_start s) @ new @ spliced sql (span_end s) rs stop"

definition rep_texts :: "str \<Rightarrow> replacement_span list \<Rightarrow> (source_span \<times> str) list" where
  "rep_texts out reps =
     map (\<lambda>r. (rp_original r, slice out (span_start (rp_canonical r)) (span_end (rp_canonical r)))) reps"

definition occurrence_ok :: "str \<Rightarrow> str \<Rightarrow> placeholder_entry \<Rightarrow> placeholder_occurrence \<Rightarrow> bool" where
  "occurrence_ok sql out e occ \<longleftrightarrow>
     span_end (oc_canonical_span occ) \<le> length out
     \<and> slice out (span_start (oc_canonical_span occ)) (span_end (oc_canonical_span occ)) = ''$'' @ show_nat (pe_slot e)
     \<and> slice sql (span_start (oc_original_span occ)) (span_end (oc_original_span occ))
         = ''$'' @ pe_name e @ (if oc_optional occ then ''?'' else [])"

definition entries_ok :: "str \<Rightarrow> str \<Rightarrow> placeholder_entry list \<Rightarrow> bool" where
  "entries_ok sql out es \<longleftrightarrow>
     distinct (map pe_name es)
     \<and> (\<forall>i < length es. pe_id (es ! i) = i \<and> pe_slot (es ! i) = i + 1
          \<and> (\<forall>occ \<in> set (pe_occurrences (es ! i)). occurrence_ok sql out (es ! i) occ))"

text \<open>
  A replaced span spells a placeholder, which becomes the number of its entry, or it is the question mark
  of an optional group, which disappears.
\<close>

definition replacement_ok :: "str \<Rightarrow> str \<Rightarrow> (str \<times> nat) set \<Rightarrow> replacement_span \<Rightarrow> bool" where
  "replacement_ok sql out numbering r \<longleftrightarrow>
     (\<exists>(name, slot) \<in> numbering. \<exists>opt.
        slice out (span_start (rp_canonical r)) (span_end (rp_canonical r)) = ''$'' @ show_nat slot
        \<and> slice sql (span_start (rp_original r)) (span_end (rp_original r)) = ''$'' @ name @ (if opt then ''?'' else []))
     \<or> (slice out (span_start (rp_canonical r)) (span_end (rp_canonical r)) = []
        \<and> slice sql (span_start (rp_original r) - 1) (span_end (rp_original r)) = '')?'')"

definition entry_numbering :: "placeholder_entry list \<Rightarrow> (str \<times> nat) set" where
  "entry_numbering es = (\<lambda>e. (pe_name e, pe_slot e)) ` set es"

definition canon_inv :: "str \<Rightarrow> nat \<Rightarrow> canon \<Rightarrow> bool" where
  "canon_inv sql idx cn \<longleftrightarrow>
     idx \<le> length sql \<and> entries_ok sql (cn_out cn) (cn_entries cn)
     \<and> cn_out cn = spliced sql 0 (rep_texts (cn_out cn) (cn_reps cn)) idx
     \<and> (\<forall>r \<in> set (cn_reps cn). span_end (rp_original r) \<le> idx \<and> span_end (rp_canonical r) \<le> length (cn_out cn)
          \<and> replacement_ok sql (cn_out cn) (entry_numbering (cn_entries cn)) r)"

lemma slice_append [simp]: "b \<le> length out \<Longrightarrow> slice (out @ ext) a b = slice out a b"
  by (simp add: slice_def)

lemma slice_join: "a \<le> b \<Longrightarrow> b \<le> c \<Longrightarrow> slice s a c = slice s a b @ slice s b c"
proof -
  assume "a \<le> b" "b \<le> c"
  then have "slice s a c = take ((b - a) + (c - b)) (drop a s)" by (simp add: slice_def)
  also have "\<dots> = take (b - a) (drop a s) @ take (c - b) (drop (b - a) (drop a s))" by (rule take_add)
  finally show ?thesis using \<open>a \<le> b\<close> by (simp add: slice_def)
qed

lemma length_slice: "b \<le> length s \<Longrightarrow> length (slice s a b) = b - a"
  by (simp add: slice_def)

lemma spliced_extend:
  assumes "\<forall>(s, new) \<in> set rs. span_end s \<le> b" "pos \<le> b" "b \<le> c"
  shows "spliced sql pos rs c = spliced sql pos rs b @ slice sql b c"
  using assms
proof (induction rs arbitrary: pos)
  case Nil
  then show ?case using slice_join [of pos b c sql] by simp
qed auto

lemma spliced_snoc:
  assumes "\<forall>(s, new) \<in> set rs. span_end s \<le> span_start s'" "pos \<le> span_start s'"
  shows "spliced sql pos (rs @ [(s', new')]) stop =
    spliced sql pos rs (span_start s') @ new' @ slice sql (span_end s') stop"
  using assms by (induction rs arbitrary: pos) auto

lemma rep_texts_append:
  "\<forall>r \<in> set reps. span_end (rp_canonical r) \<le> length out \<Longrightarrow> rep_texts (out @ ext) reps = rep_texts out reps"
  by (simp add: rep_texts_def)

lemma rep_texts_snoc:
  "rep_texts out (reps @ [r]) =
    rep_texts out reps @ [(rp_original r, slice out (span_start (rp_canonical r)) (span_end (rp_canonical r)))]"
  by (simp add: rep_texts_def)

lemma replacement_ok_append:
  "replacement_ok sql out numbering r \<Longrightarrow> span_end (rp_canonical r) \<le> length out \<Longrightarrow> numbering \<subseteq> numbering' \<Longrightarrow>
   replacement_ok sql (out @ ext) numbering' r"
  unfolding replacement_ok_def by (simp only: slice_append) blast

lemma entries_ok_append: "entries_ok sql out es \<Longrightarrow> entries_ok sql (out @ ext) es"
  unfolding entries_ok_def occurrence_ok_def by (metis slice_append trans_le_add1 length_append)

lemma canon_inv_parens [simp]:
  "canon_inv sql idx (push_str s (cn\<lparr>cn_parens := ps\<rparr>)) = canon_inv sql idx (push_str s cn)"
  by (simp add: canon_inv_def push_str_def)

lemma canon_inv_push:
  assumes "canon_inv sql idx cn" "idx + length s \<le> length sql" "slice sql idx (idx + length s) = s"
  shows "canon_inv sql (idx + length s) (push_str s cn)"
proof -
  let ?rs = "rep_texts (cn_out cn) (cn_reps cn)"
  note inv = assms(1) [unfolded canon_inv_def]
  have "spliced sql 0 ?rs (idx + length s) = spliced sql 0 ?rs idx @ slice sql idx (idx + length s)"
    by (rule spliced_extend) (use inv in \<open>auto simp: rep_texts_def\<close>)
  moreover have "rep_texts (cn_out cn @ s) (cn_reps cn) = ?rs"
    using inv by (auto intro: rep_texts_append)
  ultimately show ?thesis
    using inv assms(2,3) by (auto simp: canon_inv_def push_str_def entries_ok_append intro: trans_le_add1 replacement_ok_append)
qed

lemma span_u32_ok: "span_u32 a b = Inr s \<longleftrightarrow> a < 2 ^ 32 \<and> b < 2 ^ 32 \<and> s = span_new a b"
  by (auto simp: span_u32_def to_u32_def bindr_eq_Inr_iff split: if_splits)

lemma span_new_simps [simp]: "span_start (span_new a b) = a" "span_end (span_new a b) = b"
  by (simp_all add: span_new_def)

text \<open>Replacing the text from \<open>idx\<close> to \<open>stop\<close> by \<open>new\<close>.\<close>

lemma spliced_replace:
  assumes "canon_inv sql idx cn" "idx \<le> stop"
  shows "cn_out cn @ new = spliced sql 0 (rep_texts (cn_out cn @ new)
      (cn_reps cn @ [\<lparr>rp_canonical = span_new (length (cn_out cn)) (length (cn_out cn @ new)), rp_original = span_new idx stop\<rparr>])) stop"
proof -
  let ?rs = "rep_texts (cn_out cn) (cn_reps cn)"
  note inv = assms(1) [unfolded canon_inv_def]
  have "rep_texts (cn_out cn @ new) (cn_reps cn) = ?rs"
    using inv by (auto intro: rep_texts_append)
  moreover have "slice (cn_out cn @ new) (length (cn_out cn)) (length (cn_out cn @ new)) = new"
    by (simp add: slice_def)
  moreover have "spliced sql 0 (?rs @ [(span_new idx stop, new)]) stop = spliced sql 0 ?rs idx @ new @ slice sql stop stop"
    using spliced_snoc [of ?rs "span_new idx stop" 0 sql new stop] inv by (auto simp: rep_texts_def)
  moreover have "slice sql stop stop = []" by (simp add: slice_def)
  ultimately show ?thesis
    using inv by (simp add: rep_texts_snoc)
qed

lemma entry_index_found:
  assumes "e \<in> set es" "pe_name e = name"
  shows "entry_index name es < length es" "pe_name (es ! entry_index name es) = name"
  using assms by (induction es) (auto simp: entry_index_def)

lemma ensure_entry_ok:
  assumes "entries_ok sql out es"
  shows "entries_ok sql out (ensure_entry name es)" and "\<exists>e \<in> set (ensure_entry name es). pe_name e = name"
  using assms by (auto simp: ensure_entry_def entries_ok_def nth_append less_Suc_eq)

lemma entries_ok_add_occurrence:
  assumes "entries_ok sql out es" "i < length es" "occurrence_ok sql out (es ! i) occ"
  shows "entries_ok sql out (es[i := (es ! i)\<lparr>pe_occurrences := pe_occurrences (es ! i) @ [occ]\<rparr>])"
proof -
  have "map pe_name (es[i := (es ! i)\<lparr>pe_occurrences := pe_occurrences (es ! i) @ [occ]\<rparr>]) = map pe_name es"
    using assms(2) by (simp add: map_update list_update_same_conv)
  then show ?thesis
    using assms by (auto simp: entries_ok_def nth_list_update occurrence_ok_def)
qed

lemma entry_numbering_mono:
  "entry_numbering es \<subseteq> entry_numbering ((ensure_entry name es)[i := (ensure_entry name es ! i)\<lparr>pe_occurrences := occs\<rparr>])"
proof -
  let ?es = "ensure_entry name es" and ?f = "\<lambda>e. (pe_name e, pe_slot e)"
  have "map ?f (?es[i := (?es ! i)\<lparr>pe_occurrences := occs\<rparr>]) = map ?f ?es"
    by (cases "i < length ?es") (simp_all add: map_update list_update_same_conv list_update_beyond)
  then have "entry_numbering (?es[i := (?es ! i)\<lparr>pe_occurrences := occs\<rparr>]) = entry_numbering ?es"
    unfolding entry_numbering_def set_map [symmetric] by (rule arg_cong)
  moreover have "entry_numbering es \<subseteq> entry_numbering ?es"
    by (auto simp: entry_numbering_def ensure_entry_def)
  ultimately show ?thesis by simp
qed

lemma canon_inv_placeholder:
  assumes inv: "canon_inv sql idx cn" and p: "canon_placeholder idx name opt cn = Inr cn'"
    and spells: "slice sql idx stop = ''$'' @ name @ (if opt then ''?'' else [])"
    and stop: "stop = idx + 1 + length name + (if opt then 1 else 0)" "stop \<le> length sql"
  shows "canon_inv sql stop cn'"
proof -
  define es where "es = ensure_entry name (cn_entries cn)"
  define i where "i = entry_index name es"
  define new where "new = ''$'' @ show_nat (pe_slot (es ! i))"
  define occ where "occ = \<lparr>oc_original_span = span_new idx stop,
    oc_canonical_span = span_new (length (cn_out cn)) (length (cn_out cn @ new)), oc_optional = opt\<rparr>"
  have cn': "cn' = cn\<lparr>cn_out := cn_out cn @ new,
      cn_reps := cn_reps cn @ [\<lparr>rp_canonical = span_new (length (cn_out cn)) (length (cn_out cn @ new)), rp_original = span_new idx stop\<rparr>],
      cn_entries := es[i := (es ! i)\<lparr>pe_occurrences := pe_occurrences (es ! i) @ [occ]\<rparr>]\<rparr>"
    using p by (auto simp: canon_placeholder_def Let_def span_u32_ok es_def i_def new_def occ_def stop(1) elim!: bindr_InrE)
  have es: "entries_ok sql (cn_out cn @ new) es" and "\<exists>e \<in> set es. pe_name e = name"
    using inv ensure_entry_ok [OF entries_ok_append [of sql "cn_out cn" "cn_entries cn" new], of name]
    by (auto simp: canon_inv_def es_def)
  then have i: "i < length es" "pe_name (es ! i) = name"
    using entry_index_found unfolding i_def by blast+
  have "occurrence_ok sql (cn_out cn @ new) (es ! i) occ"
    using spells by (simp add: occurrence_ok_def occ_def i(2) slice_def new_def)
  with es i(1) have "entries_ok sql (cn_out cn') (cn_entries cn')"
    unfolding cn' by (simp add: entries_ok_add_occurrence)
  moreover have "cn_out cn' = spliced sql 0 (rep_texts (cn_out cn') (cn_reps cn')) stop"
    unfolding cn' using spliced_replace [OF inv, of stop new] stop(1) by simp
  moreover have "entry_numbering (cn_entries cn) \<subseteq> entry_numbering (cn_entries cn')"
    unfolding cn' es_def i_def by (simp add: entry_numbering_mono)
  then have "\<forall>r \<in> set (cn_reps cn). replacement_ok sql (cn_out cn') (entry_numbering (cn_entries cn')) r"
    using inv by (auto simp: canon_inv_def cn' intro: replacement_ok_append)
  moreover have "replacement_ok sql (cn_out cn @ new) (entry_numbering (cn_entries cn'))
      \<lparr>rp_canonical = span_new (length (cn_out cn)) (length (cn_out cn @ new)), rp_original = span_new idx stop\<rparr>"
    using spells i unfolding replacement_ok_def cn'
    by (intro disjI1 bexI [of _ "(name, pe_slot (es ! i))"])
      (auto simp: new_def slice_def entry_numbering_def image_iff intro!: exI [of _ opt] bexI [OF _ set_update_memI])
  ultimately show ?thesis
    using inv stop unfolding canon_inv_def cn' by fastforce
qed

lemma canon_inv_group:
  assumes inv: "canon_inv sql idx cn" and g: "canon_group sql idx cn = Inr cn'"
    and spells: "slice sql idx (idx + 2) = '')?''" and stop: "idx + 2 \<le> length sql"
  shows "canon_inv sql (idx + 2) cn'"
proof -
  have push: "canon_inv sql (idx + 1) (push_str '')'' cn)"
    using canon_inv_push [OF inv, of "'')''"] slice_join [of idx "idx + 1" "idx + 2" sql] spells stop
      length_slice [of "idx + 1" sql idx] by (auto simp: append_eq_Cons_conv)
  let ?out = "cn_out cn @ '')''"
  obtain gs ps where cn': "cn' = cn\<lparr>cn_out := ?out, cn_groups := gs,
      cn_reps := cn_reps cn @ [\<lparr>rp_canonical = span_new (length ?out) (length ?out), rp_original = span_new (idx + 1) (idx + 2)\<rparr>],
      cn_parens := ps\<rparr>"
    using g by (auto simp: canon_group_def Let_def span_u32_ok elim!: bindr_InrE split: if_splits)
  have "cn_out cn' = spliced sql 0 (rep_texts (cn_out cn') (cn_reps cn')) (idx + 2)"
    unfolding cn' using spliced_replace [OF push, of "idx + 2" "[]"] by (simp add: push_str_def)
  moreover have "replacement_ok sql ?out (entry_numbering (cn_entries cn))
      \<lparr>rp_canonical = span_new (length ?out) (length ?out), rp_original = span_new (idx + 1) (idx + 2)\<rparr>"
    using spells by (simp add: replacement_ok_def) (simp add: slice_def)
  ultimately show ?thesis
    using push stop unfolding canon_inv_def cn' by (auto simp: push_str_def intro: le_SucI)
qed

text \<open>The steps of the loop keep the invariant.\<close>

lemma slice_prefix:
  assumes "drop idx sql = s @ rest" "idx \<le> length sql"
  shows "slice sql idx (idx + length s) = s" "idx + length s \<le> length sql"
proof -
  have "length sql - idx = length s + length rest" using arg_cong [OF assms(1), of length] by simp
  then show "idx + length s \<le> length sql" using assms(2) by linarith
qed (simp add: slice_def assms(1))

lemma canon_step:
  assumes "drop idx sql = s @ rest" "canon_inv sql idx cn"
  shows "drop (idx + length s) sql = rest" and "canon_inv sql (idx + length s) (push_str s cn)"
proof -
  show "drop (idx + length s) sql = rest"
    using assms(1) by (metis append_eq_conv_conj drop_drop add.commute)
  show "canon_inv sql (idx + length s) (push_str s cn)"
    using slice_prefix [OF assms(1)] assms(2) by (intro canon_inv_push) (auto simp: canon_inv_def)
qed

lemmas canon_step1 = canon_step [of _ _ "[c]" for c, simplified]
lemmas canon_step2 = canon_step [of _ _ "[c, d]" for c d, simplified]

lemma next_isE:
  assumes "next_is d cs"
  obtains cs' where "cs = d # cs'"
  using assms by (cases cs) (auto simp: next_is_def)

lemma canon_name_step:
  assumes "drop idx sql = CHR ''$'' # cs" "canon_inv sql idx cn"
    and "name = takeWhile p cs" "rest = dropWhile p cs" "opt = next_is (CHR ''?'') rest"
    and "canon_placeholder idx name opt cn = Inr cn'"
  shows "drop (idx + 1 + length name + (if opt then 1 else 0)) sql = (if opt then tl rest else rest)"
    and "canon_inv sql (idx + 1 + length name + (if opt then 1 else 0)) cn'"
proof -
  let ?s = "''$'' @ name @ (if opt then ''?'' else [])" and ?rest = "if opt then tl rest else rest"
  have "cs = name @ rest" using assms(3,4) by simp
  then have sql: "drop idx sql = ?s @ ?rest"
    using assms(1,5) by (cases rest) (auto simp: next_is_def)
  have len: "idx + length ?s = idx + 1 + length name + (if opt then 1 else 0)" by simp
  show "drop (idx + 1 + length name + (if opt then 1 else 0)) sql = ?rest"
    using canon_step(1) [OF sql assms(2)] by (simp only: len)
  have "idx \<le> length sql" using assms(2) by (simp add: canon_inv_def)
  from slice_prefix [OF sql this] show "canon_inv sql (idx + 1 + length name + (if opt then 1 else 0)) cn'"
    by (intro canon_inv_placeholder [OF assms(2,6) _ refl]) (simp_all only: len)
qed

lemma canon_group_step:
  assumes "drop idx sql = CHR '')'' # CHR ''?'' # cs" "canon_inv sql idx cn" "canon_group sql idx cn = Inr cn'"
  shows "drop (idx + 2) sql = cs" and "canon_inv sql (idx + 2) cn'"
proof -
  have "idx \<le> length sql" using assms(2) by (simp add: canon_inv_def)
  then show "canon_inv sql (idx + 2) cn'"
    using slice_prefix [of idx sql "'')''"] slice_prefix [of idx sql "'')?''"] assms
    by (intro canon_inv_group [OF assms(2,3)]) auto
  show "drop (idx + 2) sql = cs" using canon_step2(1) [OF assms(1,2)] by simp
qed

lemma dollar_not_quote [simp]: "CHR ''$'' \<noteq> squote" "CHR ''$'' \<noteq> dquote"
  "CHR ''('' \<noteq> squote" "CHR ''('' \<noteq> dquote" "CHR '')'' \<noteq> squote" "CHR '')'' \<noteq> dquote"
  "CHR ''-'' \<noteq> squote" "CHR ''-'' \<noteq> dquote" "CHR ''/'' \<noteq> squote" "CHR ''/'' \<noteq> dquote"
  by code_simp+

lemma canon_loop_inv:
  assumes "canon_loop sql idx state rest cn = Inr cn'" "drop idx sql = rest" "canon_inv sql idx cn"
  shows "canon_inv sql (length sql) cn'"
  using assms
proof (induction sql idx state rest cn rule: canon_loop.induct)
  case (1 sql idx state cn)
  then have "idx = length sql" by (auto simp: canon_inv_def)
  then show ?case using 1 by simp
next
  case (2 sql idx c cs cn)
  note IH = 2(1-9) and loop = 2(10) and rest = 2(11) and inv = 2(12)
  show ?case
  proof (cases "c = CHR ''$'' \<and> cs \<noteq> [] \<and> \<not> ascii_digit (hd cs) \<and> is_ident_start (hd cs)")
    case True
    define name where "name = takeWhile is_ident_continue cs"
    define rest' where "rest' = dropWhile is_ident_continue cs"
    define opt where "opt = next_is (CHR ''?'') rest'"
    from True loop obtain cn'' where p: "canon_placeholder idx name opt cn = Inr cn''"
      and l: "canon_loop sql (idx + 1 + length name + (if opt then 1 else 0)) ScanNormal (if opt then tl rest' else rest') cn'' = Inr cn'"
      unfolding opt_def rest'_def name_def by (auto simp: canon_loop.simps(2) Let_def elim!: bindr_InrE)
    have step: "drop (idx + 1 + length name + (if opt then 1 else 0)) sql = (if opt then tl rest' else rest')"
      "canon_inv sql (idx + 1 + length name + (if opt then 1 else 0)) cn''"
      using canon_name_step [OF _ inv name_def rest'_def opt_def p] rest True by auto
    show ?thesis
      by (rule IH(5) [OF _ _ _ _ _ _ name_def rest'_def opt_def p l step])
        (use True in auto)
  next
    case False
    note step = canon_step1 [OF _ inv, of c cs] canon_step2 [OF _ inv, of c "hd cs" "tl cs"] canon_group_step [OF _ inv]
    note unfold = canon_loop.simps(2) [of sql idx c cs cn]
    consider (sq) "c = squote" | (dq) "c = dquote" "c \<noteq> squote"
      | (line) "c = CHR ''-''" "next_is (CHR ''-'') cs" | (block) "c = CHR ''/''" "next_is (CHR ''*'') cs"
      | (lparen) "c = CHR ''(''" | (group) "c = CHR '')''" "next_is (CHR ''?'') cs"
      | (rparen) "c = CHR '')''" "\<not> next_is (CHR ''?'') cs"
      | (other) "c \<noteq> squote" "c \<noteq> dquote" "\<not> (c = CHR ''-'' \<and> next_is (CHR ''-'') cs)"
          "\<not> (c = CHR ''/'' \<and> next_is (CHR ''*'') cs)" "c \<noteq> CHR ''(''" "c \<noteq> CHR '')''"
      by blast
    then show ?thesis
    proof cases
      case sq then show ?thesis using IH(1) loop rest step unfold by simp
    next
      case dq then show ?thesis using IH(2) loop rest step unfold by simp
    next
      case line then show ?thesis using IH(3) loop rest step unfold by (auto elim!: next_isE)
    next
      case block then show ?thesis using IH(4) loop rest step unfold by (auto elim!: next_isE)
    next
      case lparen then show ?thesis using IH(6) loop rest canon_step1 [OF _ inv, of c cs] unfold by simp
    next
      case rparen then show ?thesis using IH(8) loop rest step unfold by simp
    next
      case group
      then obtain cs' where cs: "cs = CHR ''?'' # cs'" by (auto elim: next_isE)
      from group loop obtain cn'' where g: "canon_group sql idx cn = Inr cn''"
        and l: "canon_loop sql (idx + 2) ScanNormal (tl cs) cn'' = Inr cn'"
        by (auto simp: canon_loop.simps(2) elim!: bindr_InrE)
      have "drop (idx + 2) sql = tl cs" "canon_inv sql (idx + 2) cn''"
        using canon_group_step [OF _ inv g, of cs'] rest group cs by auto
      from IH(7) [OF _ _ _ _ _ _ _ _ _ g l this] group show ?thesis by simp
    next
      case other then show ?thesis using IH(9) loop rest step unfold False by (auto split: if_splits elim!: bindr_InrE)
    qed
  qed
next
  case (3 sql idx c cs cn)
  then show ?case
    by (auto simp: canon_loop.simps(3) canon_step1 canon_step2 split: if_splits elim!: next_isE)
next
  case (4 sql idx c cs cn)
  then show ?case
    by (auto simp: canon_loop.simps(4) canon_step1 canon_step2 split: if_splits elim!: next_isE)
next
  case (5 sql idx c cs cn)
  then show ?case
    by (auto simp: canon_loop.simps(5) canon_step1 canon_step2 split: if_splits elim!: next_isE)
next
  case (6 sql idx depth c cs cn)
  then show ?case
    by (auto simp: canon_loop.simps(6) canon_step1 canon_step2 split: if_splits elim!: next_isE)
qed

lemma canonicalize_inv:
  assumes "canonicalize sql = Inr src"
  obtains cn where "canon_inv sql (length sql) cn" "sq_original_sql src = sql" "sq_canonical_sql src = cn_out cn"
    "sq_replacements src = cn_reps cn" "sq_placeholders src = cn_entries cn"
proof -
  from assms obtain cn where loop: "canon_loop sql 0 ScanNormal sql canon_new = Inr cn"
    and src: "src = from_canonicalized sql \<lparr>cn_canonical_sql = cn_out cn, cn_replacements = cn_reps cn,
      cn_placeholders = cn_entries cn, cn_optional_groups = cn_groups cn\<rparr>"
    by (auto simp: canonicalize_def canonicalize_parts_def elim!: bindr_InrE)
  have "canon_inv sql 0 canon_new"
    by (simp add: canon_inv_def canon_new_def entries_ok_def rep_texts_def slice_def)
  from canon_loop_inv [OF loop _ this] have "canon_inv sql (length sql) cn" by simp
  then show ?thesis by (rule that) (simp_all add: src from_canonicalized_def)
qed

lemma find_slot:
  assumes "\<forall>i < length es. pe_slot (es ! i) = k + i" "e \<in> set es"
  shows "find (\<lambda>e'. pe_slot e' = pe_slot e) es = Some e"
  using assms
proof (induction es arbitrary: k)
  case (Cons e' es)
  have "\<forall>i < length es. pe_slot (es ! i) = Suc k + i" using Cons.prems(1) by auto
  moreover have "pe_slot e' = k" using Cons.prems(1) [rule_format, of 0] by simp
  moreover from calculation have "e \<in> set es \<Longrightarrow> pe_slot e \<noteq> k" by (auto simp: in_set_conv_nth)
  ultimately show ?case
    using Cons.IH [of "Suc k"] Cons.prems(2) by auto
qed simp

lemma parse_u32_show_nat: "n < 2 ^ 32 \<Longrightarrow> \<exists>w. parse_u32 (show_nat n) = Inr w \<and> unat w = n"
proof -
  assume "n < 2 ^ 32"
  then have "unat (of_nat n :: u32) = n" by (simp only: unat_of_nat) (simp add: take_bit_nat_eq_self)
  then show ?thesis using parse_u32_show [of "of_nat n"] by metis
qed

lemma entry_for_token_found:
  assumes "entries_ok sql out es" "e \<in> set es" "length es < 2 ^ 32"
  shows "entry_for_token es (''$'' @ show_nat (pe_slot e)) = Some e"
proof -
  obtain i where "i < length es" "pe_slot e = i + 1"
    using assms(1,2) by (auto simp: entries_ok_def in_set_conv_nth)
  then have "\<exists>w. parse_u32 (show_nat (pe_slot e)) = Inr w \<and> unat w = pe_slot e"
    using assms(3) by (intro parse_u32_show_nat) simp
  moreover have "find (\<lambda>e'. pe_slot e' = pe_slot e) es = Some e"
    by (rule find_slot [of _ 1]) (use assms in \<open>auto simp: entries_ok_def\<close>)
  ultimately show ?thesis
    by (auto simp: entry_for_token_def strip_prefix_def)
qed



end
