(* ===== verification/Typed_Lower.thy ===== *)
theory Typed_Lower
  imports Typed_Source Typed_Resolver Fragment
begin

text \<open>
  Lowering of a checked statement to SQL and codecs (\<open>macros/src/typed_sql/lower.rs\<close>): the renderer that
  prints the statement for a choice of active optional parts, the table of all such choices with their
  SQL and parameters, and the renderer the macro emits, which picks an entry of the table at run time.

  No function of the renderer returns an error and none reads the kind of expression that is passed
  along, so they are functions to optional texts here. Sets of identifiers are sets. Tokens are the text
  of the tokens.
\<close>

section \<open>Codecs of parameters and columns\<close>

datatype base_runtime_codec =
    RcBool | RcBytea | RcVarchar | RcText | RcInt2 | RcInt4 | RcInt8 | RcFloat4 | RcFloat8
  | RcUuid | RcDate | RcTime | RcTimestamp | RcTimestamptz | RcJson | RcJsonb | RcNumeric

text \<open>The enumeration of codecs repeats the base codecs and adds the nullable ones.\<close>

datatype runtime_codec = RcBase base_runtime_codec | RcNullable base_runtime_codec

fun base_codec_tokens :: "base_runtime_codec \<Rightarrow> str" where
  "base_codec_tokens RcBool = ''::babar::codec::bool''"
| "base_codec_tokens RcBytea = ''::babar::codec::bytea''"
| "base_codec_tokens RcVarchar = ''::babar::codec::varchar''"
| "base_codec_tokens RcText = ''::babar::codec::text''"
| "base_codec_tokens RcInt2 = ''::babar::codec::int2''"
| "base_codec_tokens RcInt4 = ''::babar::codec::int4''"
| "base_codec_tokens RcInt8 = ''::babar::codec::int8''"
| "base_codec_tokens RcFloat4 = ''::babar::codec::float4''"
| "base_codec_tokens RcFloat8 = ''::babar::codec::float8''"
| "base_codec_tokens RcUuid = ''::babar::codec::uuid''"
| "base_codec_tokens RcDate = ''::babar::codec::date''"
| "base_codec_tokens RcTime = ''::babar::codec::time''"
| "base_codec_tokens RcTimestamp = ''::babar::codec::timestamp''"
| "base_codec_tokens RcTimestamptz = ''::babar::codec::timestamptz''"
| "base_codec_tokens RcJson = ''::babar::codec::json''"
| "base_codec_tokens RcJsonb = ''::babar::codec::jsonb''"
| "base_codec_tokens RcNumeric = ''::babar::codec::numeric''"

fun base_value_type_tokens :: "base_runtime_codec \<Rightarrow> str" where
  "base_value_type_tokens RcBool = ''bool''"
| "base_value_type_tokens RcBytea = ''::std::vec::Vec<u8>''"
| "base_value_type_tokens RcVarchar = ''::std::string::String''"
| "base_value_type_tokens RcText = ''::std::string::String''"
| "base_value_type_tokens RcInt2 = ''i16''"
| "base_value_type_tokens RcInt4 = ''i32''"
| "base_value_type_tokens RcInt8 = ''i64''"
| "base_value_type_tokens RcFloat4 = ''f32''"
| "base_value_type_tokens RcFloat8 = ''f64''"
| "base_value_type_tokens RcUuid = ''::uuid::Uuid''"
| "base_value_type_tokens RcDate = ''::time::Date''"
| "base_value_type_tokens RcTime = ''::time::Time''"
| "base_value_type_tokens RcTimestamp = ''::time::PrimitiveDateTime''"
| "base_value_type_tokens RcTimestamptz = ''::time::OffsetDateTime''"
| "base_value_type_tokens RcJson = ''::serde_json::Value''"
| "base_value_type_tokens RcJsonb = ''::serde_json::Value''"
| "base_value_type_tokens RcNumeric = ''::rust_decimal::Decimal''"

fun codec_tokens :: "runtime_codec \<Rightarrow> str" where
  "codec_tokens (RcBase b) = base_codec_tokens b"
| "codec_tokens (RcNullable b) = ''::babar::codec::nullable('' @ base_codec_tokens b @ '')''"

fun value_type_tokens :: "runtime_codec \<Rightarrow> str" where
  "value_type_tokens (RcBase b) = base_value_type_tokens b"
| "value_type_tokens (RcNullable b) = ''::core::option::Option<'' @ base_value_type_tokens b @ ''>''"

fun base_codec_of :: "sql_type \<Rightarrow> base_runtime_codec option" where
  "base_codec_of TyBool = Some RcBool"
| "base_codec_of TyBytea = Some RcBytea"
| "base_codec_of TyVarchar = Some RcVarchar"
| "base_codec_of TyText = Some RcText"
| "base_codec_of TyInt2 = Some RcInt2"
| "base_codec_of TyInt4 = Some RcInt4"
| "base_codec_of TyInt8 = Some RcInt8"
| "base_codec_of TyFloat4 = Some RcFloat4"
| "base_codec_of TyFloat8 = Some RcFloat8"
| "base_codec_of TyUuid = Some RcUuid"
| "base_codec_of TyDate = Some RcDate"
| "base_codec_of TyTime = Some RcTime"
| "base_codec_of TyTimestamp = Some RcTimestamp"
| "base_codec_of TyTimestamptz = Some RcTimestamptz"
| "base_codec_of TyJson = Some RcJson"
| "base_codec_of TyJsonb = Some RcJsonb"
| "base_codec_of TyNumeric = Some RcNumeric"
| "base_codec_of (TyOther name) = None"

definition no_codec_message :: "sql_type \<Rightarrow> str" where
  "no_codec_message t =
     ''typed_sql v1 runtime lowering does not yet support SQL type `'' @ sql_type_name t
     @ ''`; supported lowered codecs are bool, bytea, varchar, text, int2, int4, int8, float4, float8, uuid, date, time, timestamp, timestamptz, json, jsonb, and numeric''"

definition lower_runtime_codec :: "sql_type \<Rightarrow> nullability \<Rightarrow> source_span option \<Rightarrow> runtime_codec tresult" where
  "lower_runtime_codec t nb span =
     (case base_codec_of t of
        None \<Rightarrow> Inl (unsupported_with_optional_span (no_codec_message t) span)
      | Some b \<Rightarrow> Inr (case nb of NonNull \<Rightarrow> RcBase b | Nullable \<Rightarrow> RcNullable b))"

record lowered_parameter =
  lp_id :: placeholder_id
  lp_logical_name :: str
  lp_position :: nat
  lp_sql_type :: sql_type
  lp_nullability :: nullability
  lp_optional :: bool
  lp_codec :: runtime_codec

record lowered_column =
  lc_label :: str
  lc_sql_type :: sql_type
  lc_nullability :: nullability
  lc_codec :: runtime_codec

definition template_codec_tokens :: "lowered_parameter \<Rightarrow> str" where
  "template_codec_tokens p =
     (if lp_optional p then ''::babar::codec::nullable('' @ codec_tokens (lp_codec p) @ '')'' else codec_tokens (lp_codec p))"

definition template_value_type_tokens :: "lowered_parameter \<Rightarrow> str" where
  "template_value_type_tokens p =
     (if lp_optional p then ''::core::option::Option<'' @ value_type_tokens (lp_codec p) @ ''>'' else value_type_tokens (lp_codec p))"

section \<open>Rendering\<close>

datatype rendered_statement =
    RenderSelect parsed_select
  | RenderInsert parsed_insert
  | RenderUpdate parsed_update
  | RenderDelete parsed_delete

definition render_placeholder :: "placeholder_ref \<Rightarrow> str" where
  "render_placeholder p = ''$'' @ show_nat (pr_slot p)"

fun render_literal :: "literal \<Rightarrow> str" where
  "render_literal (Number v) = v"
| "render_literal (StringLit v) = [squote] @ replace_char squote [squote, squote] v @ [squote]"
| "render_literal (Boolean b) = (if b then ''TRUE'' else ''FALSE'')"
| "render_literal NullLit = ''NULL''"

fun render_binary_op :: "binary_op \<Rightarrow> str" where
  "render_binary_op OpEq = ''=''"
| "render_binary_op OpNotEq = ''<>''"
| "render_binary_op OpLt = ''<''"
| "render_binary_op OpLtEq = ''<=''"
| "render_binary_op OpGt = ''>''"
| "render_binary_op OpGtEq = ''>=''"

fun render_unary :: "unary_op \<Rightarrow> str \<Rightarrow> str" where
  "render_unary OpNot s = ''(NOT '' @ s @ '')''"
| "render_unary OpPlus s = ''(+ '' @ s @ '')''"
| "render_unary OpMinus s = ''(- '' @ s @ '')''"

definition render_comparison :: "binary_op \<Rightarrow> str \<Rightarrow> str \<Rightarrow> str" where
  "render_comparison op l r = ''('' @ l @ '' '' @ render_binary_op op @ '' '' @ r @ '')''"

definition render_is_null :: "bool \<Rightarrow> str \<Rightarrow> str" where
  "render_is_null negated s = ''('' @ s @ '' IS '' @ (if negated then ''NOT '' else []) @ ''NULL)''"

definition render_chain :: "bool_op \<Rightarrow> str list \<Rightarrow> str" where
  "render_chain op ts = ''('' @ join_str (case op of OpAnd \<Rightarrow> '' AND '' | OpOr \<Rightarrow> '' OR '') ts @ '')''"

definition render_column :: "column_ref_syntax \<Rightarrow> str" where
  "render_column c = id_value (cr_binding c) @ ''.'' @ id_value (cr_column c)"

fun render_expr_sql :: "parsed_expr \<Rightarrow> str" where
  "render_expr_sql (PColumn c) = render_column c"
| "render_expr_sql (PPlaceholder p) = render_placeholder p"
| "render_expr_sql (PLiteral l) = render_literal (pl_value l)"
| "render_expr_sql (POptionalGroup i s e) = ''('' @ render_expr_sql e @ '')''"
| "render_expr_sql (PUnary i s op e) = render_unary op (render_expr_sql e)"
| "render_expr_sql (PBinary i s op l r) = render_comparison op (render_expr_sql l) (render_expr_sql r)"
| "render_expr_sql (PIsNull i s negated e) = render_is_null negated (render_expr_sql e)"
| "render_expr_sql (PBoolChain i s op ts) = render_chain op (map render_expr_sql ts)"

fun parsed_optional_placeholders_into :: "parsed_expr \<Rightarrow> placeholder_id list" where
  "parsed_optional_placeholders_into (PPlaceholder p) = (if pr_optional p then [pr_placeholder_id p] else [])"
| "parsed_optional_placeholders_into (POptionalGroup i s e) = parsed_optional_placeholders_into e"
| "parsed_optional_placeholders_into (PUnary i s op e) = parsed_optional_placeholders_into e"
| "parsed_optional_placeholders_into (PIsNull i s negated e) = parsed_optional_placeholders_into e"
| "parsed_optional_placeholders_into (PBinary i s op l r) =
     parsed_optional_placeholders_into l @ parsed_optional_placeholders_into r"
| "parsed_optional_placeholders_into (PBoolChain i s op ts) = concat (map parsed_optional_placeholders_into ts)"
| "parsed_optional_placeholders_into (PColumn c) = []"
| "parsed_optional_placeholders_into (PLiteral l) = []"

definition parsed_optional_placeholders :: "parsed_expr \<Rightarrow> placeholder_id list" where
  "parsed_optional_placeholders e = sort_dedup (parsed_optional_placeholders_into e)"

definition group_active :: "parsed_expr \<Rightarrow> ast_id \<Rightarrow> placeholder_id set \<Rightarrow> ast_id set \<Rightarrow> bool" where
  "group_active e i active groups =
     (let required = parsed_optional_placeholders e in
      if required \<noteq> [] then list_all (\<lambda>p. p \<in> active) required else i \<in> groups)"

definition somes :: "'a option list \<Rightarrow> 'a list" where
  "somes xs = List.map_filter id xs"

fun render_expr :: "placeholder_id set \<Rightarrow> ast_id set \<Rightarrow> parsed_expr \<Rightarrow> str option" where
  "render_expr active groups (PColumn c) = Some (render_column c)"
| "render_expr active groups (PLiteral l) = Some (render_literal (pl_value l))"
| "render_expr active groups (PPlaceholder p) =
     (if pr_optional p \<and> pr_placeholder_id p \<notin> active then None else Some (render_placeholder p))"
| "render_expr active groups (POptionalGroup i s e) =
     (if \<not> group_active e i active groups then None
      else map_option (\<lambda>inner. ''('' @ inner @ '')'') (render_expr active groups e))"
| "render_expr active groups (PUnary i s op e) = map_option (render_unary op) (render_expr active groups e)"
| "render_expr active groups (PBinary i s op l r) =
     (case (render_expr active groups l, render_expr active groups r) of
        (Some l, Some r) \<Rightarrow> Some (render_comparison op l r)
      | _ \<Rightarrow> None)"
| "render_expr active groups (PIsNull i s negated e) = map_option (render_is_null negated) (render_expr active groups e)"
| "render_expr active groups (PBoolChain i s op ts) =
     (case somes (map (render_expr active groups) ts) of
        [] \<Rightarrow> None
      | [t] \<Rightarrow> Some t
      | rendered \<Rightarrow> Some (render_chain op rendered))"

definition render_projection :: "parsed_projection \<Rightarrow> str" where
  "render_projection p =
     (let expr = render_expr_sql (pp_expr p) in
      case pp_output_name p of
        ONExplicit alias \<Rightarrow> expr @ '' AS '' @ id_value alias
      | ONImplicit alias \<Rightarrow>
          (case pp_expr p of
             PColumn c \<Rightarrow> if id_value (cr_column c) = id_value alias then expr else expr @ '' AS '' @ id_value alias
           | _ \<Rightarrow> expr @ '' AS '' @ id_value alias)
      | ONAnonymous \<Rightarrow> expr)"

definition render_object_name :: "object_name_syntax \<Rightarrow> str" where
  "render_object_name n = join_str ''.'' (map id_value (on_parts n))"

definition render_from :: "parsed_from \<Rightarrow> str" where
  "render_from f = render_object_name (pf_table_name f) @ '' AS '' @ id_value (pf_binding_name f)"

definition render_values_row :: "parsed_values_row \<Rightarrow> str" where
  "render_values_row row = ''('' @ join_str '', '' (map render_expr_sql (pv_values row)) @ '')''"

definition render_assignment_target :: "parsed_assignment_target \<Rightarrow> str" where
  "render_assignment_target t =
     (case pt_binding t of
        Some binding \<Rightarrow> id_value binding @ ''.'' @ id_value (pt_column t)
      | None \<Rightarrow> id_value (pt_column t))"

definition render_assignment :: "parsed_assignment \<Rightarrow> str" where
  "render_assignment a = render_assignment_target (pa_target a) @ '' = '' @ render_expr_sql (pa_value a)"

fun join_kind_sql :: "join_kind \<Rightarrow> str" where
  "join_kind_sql JInner = ''INNER''"
| "join_kind_sql JLeft = ''LEFT''"
| "join_kind_sql JRight = ''RIGHT''"
| "join_kind_sql JFull = ''FULL''"

definition render_order_by_item :: "placeholder_id set \<Rightarrow> ast_id set \<Rightarrow> parsed_order_by \<Rightarrow> str option" where
  "render_order_by_item active groups item =
     map_option (\<lambda>expr.
       expr @ (if po_direction item = Desc then '' DESC'' else [])
       @ (case po_nulls item of None \<Rightarrow> [] | Some NullsFirst \<Rightarrow> '' NULLS FIRST'' | Some NullsLast \<Rightarrow> '' NULLS LAST''))
       (render_expr active groups (po_expr item))"

definition render_join :: "placeholder_id set \<Rightarrow> ast_id set \<Rightarrow> parsed_join \<Rightarrow> str" where
  "render_join active groups j =
     '' '' @ join_kind_sql (pj_kind j) @ '' '' @ ''JOIN '' @ render_from (pj_right j) @ '' ON ''
     @ (case render_expr active groups (pj_on j) of Some on \<Rightarrow> on | None \<Rightarrow> ''TRUE'')"

text \<open>A keyword with its text when there is one.\<close>

definition clause :: "str \<Rightarrow> str option \<Rightarrow> str" where
  "clause keyword body = (case body of None \<Rightarrow> [] | Some s \<Rightarrow> keyword @ s)"

definition render_returning :: "parsed_projection list \<Rightarrow> str" where
  "render_returning ps = (if ps = [] then [] else '' RETURNING '' @ join_str '', '' (map render_projection ps))"

definition render_limit :: "placeholder_id set \<Rightarrow> ast_id set \<Rightarrow> parsed_limit option \<Rightarrow> str option" where
  "render_limit active groups l = (case l of None \<Rightarrow> None | Some l \<Rightarrow> render_expr active groups (plim_expr l))"

definition render_select :: "placeholder_id set \<Rightarrow> ast_id set \<Rightarrow> parsed_select \<Rightarrow> str" where
  "render_select active groups s =
     ''SELECT '' @ join_str '', '' (map render_projection (ps_projections s))
     @ '' FROM '' @ render_from (ps_from s)
     @ concat (map (render_join active groups) (ps_joins s))
     @ clause '' WHERE '' (case ps_filter s of None \<Rightarrow> None | Some f \<Rightarrow> render_expr active groups f)
     @ (let order_by = somes (map (render_order_by_item active groups) (ps_order_by s)) in
        if order_by = [] then [] else '' ORDER BY '' @ join_str '', '' order_by)
     @ clause '' LIMIT '' (render_limit active groups (ps_limit s))
     @ clause '' OFFSET '' (render_limit active groups (ps_offset s))"

definition render_insert :: "parsed_insert \<Rightarrow> str" where
  "render_insert s =
     ''INSERT INTO '' @ render_from (pi_target s)
     @ (if pi_columns s = [] then [] else '' ('' @ join_str '', '' (map id_value (pi_columns s)) @ '')'')
     @ '' VALUES '' @ join_str '', '' (map render_values_row (pi_values s))
     @ render_returning (pi_returning s)"

definition render_update :: "placeholder_id set \<Rightarrow> ast_id set \<Rightarrow> parsed_update \<Rightarrow> str" where
  "render_update active groups s =
     ''UPDATE '' @ render_from (pu_target s)
     @ '' SET '' @ join_str '', '' (map render_assignment (pu_assignments s))
     @ clause '' WHERE '' (render_expr active groups (pu_filter s))
     @ render_returning (pu_returning s)"

definition render_delete :: "placeholder_id set \<Rightarrow> ast_id set \<Rightarrow> parsed_delete \<Rightarrow> str" where
  "render_delete active groups s =
     ''DELETE FROM '' @ render_from (pd_target s)
     @ clause '' WHERE '' (render_expr active groups (pd_filter s))
     @ render_returning (pd_returning s)"

fun render_statement :: "placeholder_id set \<Rightarrow> ast_id set \<Rightarrow> rendered_statement \<Rightarrow> str" where
  "render_statement active groups (RenderSelect s) = render_select active groups s"
| "render_statement active groups (RenderInsert s) = render_insert s"
| "render_statement active groups (RenderUpdate s) = render_update active groups s"
| "render_statement active groups (RenderDelete s) = render_delete active groups s"

section \<open>Optional groups\<close>

fun collect_optional_group_ids_expr :: "parsed_expr \<Rightarrow> ast_id list" where
  "collect_optional_group_ids_expr (POptionalGroup i s e) = i # collect_optional_group_ids_expr e"
| "collect_optional_group_ids_expr (PUnary i s op e) = collect_optional_group_ids_expr e"
| "collect_optional_group_ids_expr (PIsNull i s negated e) = collect_optional_group_ids_expr e"
| "collect_optional_group_ids_expr (PBinary i s op l r) =
     collect_optional_group_ids_expr l @ collect_optional_group_ids_expr r"
| "collect_optional_group_ids_expr (PBoolChain i s op ts) = concat (map collect_optional_group_ids_expr ts)"
| "collect_optional_group_ids_expr (PColumn c) = []"
| "collect_optional_group_ids_expr (PPlaceholder p) = []"
| "collect_optional_group_ids_expr (PLiteral l) = []"

definition option_list :: "('a \<Rightarrow> 'b list) \<Rightarrow> 'a option \<Rightarrow> 'b list" where
  "option_list f x = (case x of None \<Rightarrow> [] | Some a \<Rightarrow> f a)"

definition collect_optional_group_ids_select :: "parsed_select \<Rightarrow> ast_id list" where
  "collect_optional_group_ids_select s =
     concat (map (\<lambda>p. collect_optional_group_ids_expr (pp_expr p)) (ps_projections s))
     @ option_list collect_optional_group_ids_expr (ps_filter s)
     @ concat (map (\<lambda>j. collect_optional_group_ids_expr (pj_on j)) (ps_joins s))
     @ concat (map (\<lambda>item. collect_optional_group_ids_expr (po_expr item)) (ps_order_by s))
     @ option_list (\<lambda>l. collect_optional_group_ids_expr (plim_expr l)) (ps_limit s)
     @ option_list (\<lambda>l. collect_optional_group_ids_expr (plim_expr l)) (ps_offset s)"

definition returning_group_ids :: "parsed_projection list \<Rightarrow> ast_id list" where
  "returning_group_ids ps = concat (map (\<lambda>p. collect_optional_group_ids_expr (pp_expr p)) ps)"

fun statement_group_ids :: "rendered_statement \<Rightarrow> ast_id list" where
  "statement_group_ids (RenderSelect s) = collect_optional_group_ids_select s"
| "statement_group_ids (RenderInsert s) =
     concat (map (\<lambda>row. concat (map collect_optional_group_ids_expr (pv_values row))) (pi_values s))
     @ returning_group_ids (pi_returning s)"
| "statement_group_ids (RenderUpdate s) =
     concat (map (\<lambda>a. collect_optional_group_ids_expr (pa_value a)) (pu_assignments s))
     @ collect_optional_group_ids_expr (pu_filter s) @ returning_group_ids (pu_returning s)"
| "statement_group_ids (RenderDelete s) =
     collect_optional_group_ids_expr (pd_filter s) @ returning_group_ids (pd_returning s)"

definition optional_group_ids :: "rendered_statement \<Rightarrow> ast_id list" where
  "optional_group_ids st = sort_dedup (statement_group_ids st)"

fun collect_toggle_group_ids_expr :: "checked_expr \<Rightarrow> ast_id list" where
  "collect_toggle_group_ids_expr (CheckedExpr sp k t n (COptionalGroup i e required)) =
     (if required = [] then [i] else []) @ collect_toggle_group_ids_expr e"
| "collect_toggle_group_ids_expr (CheckedExpr sp k t n (CUnary op e)) = collect_toggle_group_ids_expr e"
| "collect_toggle_group_ids_expr (CheckedExpr sp k t n (CIsNull negated e)) = collect_toggle_group_ids_expr e"
| "collect_toggle_group_ids_expr (CheckedExpr sp k t n (CBinary op l r)) =
     collect_toggle_group_ids_expr l @ collect_toggle_group_ids_expr r"
| "collect_toggle_group_ids_expr (CheckedExpr sp k t n (CBoolChain op ts)) = concat (map collect_toggle_group_ids_expr ts)"
| "collect_toggle_group_ids_expr (CheckedExpr sp k t n (CColumn c)) = []"
| "collect_toggle_group_ids_expr (CheckedExpr sp k t n (CPlaceholder p)) = []"
| "collect_toggle_group_ids_expr (CheckedExpr sp k t n (CLiteral l)) = []"

definition collect_toggle_group_ids_select :: "checked_select \<Rightarrow> ast_id list" where
  "collect_toggle_group_ids_select s = sort_dedup
     (option_list collect_toggle_group_ids_expr (cs_filter s)
      @ concat (map (\<lambda>j. collect_toggle_group_ids_expr (cjn_on j)) (cs_joins s))
      @ concat (map collect_toggle_group_ids_expr (cs_order_by s))
      @ option_list collect_toggle_group_ids_expr (cs_limit s)
      @ option_list collect_toggle_group_ids_expr (cs_offset s))"

definition collect_toggle_group_ids_exprs :: "checked_expr option list \<Rightarrow> ast_id list" where
  "collect_toggle_group_ids_exprs es = sort_dedup (concat (map collect_toggle_group_ids_expr (somes es)))"

section \<open>Lowering\<close>

text \<open>A parsed statement beside its source (\<open>mod.rs\<close>).\<close>

record parsed_sql =
  psq_source :: sql_source
  psq_statement :: parsed_statement
  psq_select :: "parsed_select option"

definition parsed_sql_new :: "sql_source \<Rightarrow> parsed_statement \<Rightarrow> parsed_sql" where
  "parsed_sql_new src st = \<lparr>psq_source = src, psq_statement = st, psq_select = as_select st\<rparr>"

record lowered_query =
  lq_sql :: str
  lq_parameters :: "lowered_parameter list"
  lq_columns :: "lowered_column list"
  lq_renderer :: rendered_statement
  lq_toggle_group_ids :: "ast_id list"

definition lower_parameter :: "parsed_sql \<Rightarrow> checked_parameter \<Rightarrow> lowered_parameter tresult" where
  "lower_parameter parsed p =
     (let span = (case find (\<lambda>e. pe_id e = cp_id p) (sq_placeholders (psq_source parsed)) of
                    None \<Rightarrow> None
                  | Some e \<Rightarrow> (case pe_occurrences e of [] \<Rightarrow> None | occ # _ \<Rightarrow> Some (oc_original_span occ))) in
      bindr (lower_runtime_codec (cp_sql_type p) (cp_nullability p) span) (\<lambda>codec.
      Inr \<lparr>lp_id = cp_id p, lp_logical_name = cp_name p, lp_position = cp_slot p, lp_sql_type = cp_sql_type p,
           lp_nullability = cp_nullability p, lp_optional = cp_optional p, lp_codec = codec\<rparr>))"

definition lower_projection :: "checked_projection \<Rightarrow> lowered_column tresult" where
  "lower_projection p =
     bindr (lower_runtime_codec (cj_sql_type p) (cj_nullability p) (Some (ce_span (cj_expr p)))) (\<lambda>codec.
     Inr \<lparr>lc_label = cj_output_name p, lc_sql_type = cj_sql_type p, lc_nullability = cj_nullability p, lc_codec = codec\<rparr>)"

definition lower_dml ::
    "parsed_sql \<Rightarrow> checked_parameter list \<Rightarrow> checked_projection list \<Rightarrow> rendered_statement \<Rightarrow> ast_id list \<Rightarrow> lowered_query tresult" where
  "lower_dml parsed ps projections renderer toggles =
     bindr (collect_r (lower_parameter parsed) ps) (\<lambda>params.
     bindr (collect_r lower_projection projections) (\<lambda>columns.
     Inr \<lparr>lq_sql = render_statement (lp_id ` set params) (set (optional_group_ids renderer)) renderer,
          lq_parameters = params, lq_columns = columns, lq_renderer = renderer, lq_toggle_group_ids = toggles\<rparr>))"

text \<open>
  The lowering of a checked statement. \<^const>\<open>None\<close> is a panic: the kinds of the parsed and of the checked
  statement differ.
\<close>

definition lower_select :: "parsed_sql \<Rightarrow> checked_select \<Rightarrow> lowered_query tresult option" where
  "lower_select parsed checked =
     map_option (\<lambda>s. lower_dml parsed (cs_parameters checked) (cs_projections checked) (RenderSelect s)
       (collect_toggle_group_ids_select checked)) (psq_select parsed)"

definition parsed_insert_of :: "parsed_statement \<Rightarrow> parsed_insert option" where
  "parsed_insert_of st =
     (case pst_body st of
        BodyRows rows \<Rightarrow> (case prs_body rows of RInsert s \<Rightarrow> Some s | _ \<Rightarrow> None)
      | BodyCommand c \<Rightarrow> (case pcs_body c of CInsert s \<Rightarrow> Some s | _ \<Rightarrow> None))"

definition lower_insert :: "parsed_sql \<Rightarrow> checked_insert \<Rightarrow> lowered_query tresult option" where
  "lower_insert parsed checked =
     map_option (\<lambda>s. lower_dml parsed (ci_parameters checked) (ci_projections checked) (RenderInsert s) [])
       (parsed_insert_of (psq_statement parsed))"

definition parsed_update_of :: "parsed_statement \<Rightarrow> parsed_update option" where
  "parsed_update_of st =
     (case pst_body st of
        BodyRows rows \<Rightarrow> (case prs_body rows of RUpdate s \<Rightarrow> Some s | _ \<Rightarrow> None)
      | BodyCommand c \<Rightarrow> (case pcs_body c of CUpdate s \<Rightarrow> Some s | _ \<Rightarrow> None))"

definition lower_update :: "parsed_sql \<Rightarrow> checked_update \<Rightarrow> lowered_query tresult option" where
  "lower_update parsed checked =
     map_option (\<lambda>s. lower_dml parsed (cu_parameters checked) (cu_projections checked) (RenderUpdate s)
       (collect_toggle_group_ids_exprs [Some (cu_filter checked)])) (parsed_update_of (psq_statement parsed))"

definition parsed_delete_of :: "parsed_statement \<Rightarrow> parsed_delete option" where
  "parsed_delete_of st =
     (case pst_body st of
        BodyRows rows \<Rightarrow> (case prs_body rows of RDelete s \<Rightarrow> Some s | _ \<Rightarrow> None)
      | BodyCommand c \<Rightarrow> (case pcs_body c of CDelete s \<Rightarrow> Some s | _ \<Rightarrow> None))"

definition lower_delete :: "parsed_sql \<Rightarrow> checked_delete \<Rightarrow> lowered_query tresult option" where
  "lower_delete parsed checked =
     map_option (\<lambda>s. lower_dml parsed (cdl_parameters checked) (cdl_projections checked) (RenderDelete s)
       (collect_toggle_group_ids_exprs [Some (cdl_filter checked)])) (parsed_delete_of (psq_statement parsed))"

definition lower_statement :: "parsed_sql \<Rightarrow> checked_statement \<Rightarrow> lowered_query tresult option" where
  "lower_statement parsed checked =
     (case ckst_body checked of
        CkSelect s \<Rightarrow> lower_select parsed s
      | CkInsert s \<Rightarrow> lower_insert parsed s
      | CkUpdate s \<Rightarrow> lower_update parsed s
      | CkDelete s \<Rightarrow> lower_delete parsed s)"

section \<open>The shapes of a dynamic statement\<close>

text \<open>
  Renumbering to the slots that are bound. \<^const>\<open>None\<close> is a panic: the number does not fit 32 bits, or
  it has no bound slot.
\<close>

definition slot_map :: "nat list \<Rightarrow> nat \<Rightarrow> nat option" where
  "slot_map active slot = map_of (rev (zip active [1..<length active + 1])) slot"

function renumber_slots :: "(nat \<Rightarrow> nat option) \<Rightarrow> str \<Rightarrow> str option" where
  "renumber_slots f [] = Some []"
| "renumber_slots f (c # cs) =
     (if c = CHR ''$'' \<and> cs \<noteq> [] \<and> is_ascii_digit (hd cs)
      then (case parse_u32 (takeWhile is_ascii_digit cs) of
              Inl _ \<Rightarrow> None
            | Inr n \<Rightarrow>
                (case f (unat n) of
                   None \<Rightarrow> None
                 | Some m \<Rightarrow> map_option (\<lambda>out. ''$'' @ show_nat m @ out) (renumber_slots f (dropWhile is_ascii_digit cs))))
      else map_option (\<lambda>out. push_byte_as_char c @ out) (renumber_slots f cs))"
  by pat_completeness auto
termination
  by (relation "measure (\<lambda>(f, cs). length cs)") (auto simp: le_imp_less_Suc length_dropWhile_le)

declare renumber_slots.simps(2) [simp del]

definition renumber_sql_placeholders :: "str \<Rightarrow> nat list \<Rightarrow> str option" where
  "renumber_sql_placeholders sql active = (if active = [] then Some sql else renumber_slots (slot_map active) sql)"

record runtime_sql_shape =
  sh_flags :: "bool list"
  sh_sql :: str
  sh_active_parameter_indexes :: "nat list"

text \<open>The parameters that are optional, with their index.\<close>

definition optional_parameters :: "lowered_query \<Rightarrow> (nat \<times> placeholder_id) list" where
  "optional_parameters q =
     map (\<lambda>(i, p). (i, lp_id p)) (filter (\<lambda>(i, p). lp_optional p) (enumerate 0 (lq_parameters q)))"

definition mask_flags :: "nat \<Rightarrow> nat \<Rightarrow> bool list" where
  "mask_flags total_flags m = map (\<lambda>k. odd (m div 2 ^ k)) [0..<total_flags]"

definition active_indexes :: "lowered_parameter list \<Rightarrow> placeholder_id set \<Rightarrow> nat list" where
  "active_indexes ps active =
     map fst (filter (\<lambda>(i, p). \<not> lp_optional p \<or> lp_id p \<in> active) (enumerate 0 ps))"

text \<open>One turn of the loop over the masks.\<close>

definition flagged :: "bool list \<Rightarrow> 'a list \<Rightarrow> 'a list" where
  "flagged flags xs = map snd (filter fst (zip flags xs))"

definition runtime_sql_shape_of :: "lowered_query \<Rightarrow> (nat \<times> placeholder_id) list \<Rightarrow> nat \<Rightarrow> runtime_sql_shape option" where
  "runtime_sql_shape_of q optionals m =
     (let flags = mask_flags (length optionals + length (lq_toggle_group_ids q)) m;
          active = set (flagged (take (length optionals) flags) (map snd optionals));
          groups = set (flagged (drop (length optionals) flags) (lq_toggle_group_ids q));
          indexes = active_indexes (lq_parameters q) active;
          active_slots = map (\<lambda>i. lp_position (lq_parameters q ! i)) indexes in
      map_option (\<lambda>sql. \<lparr>sh_flags = flags, sh_sql = sql, sh_active_parameter_indexes = indexes\<rparr>)
        (renumber_sql_placeholders (render_statement active groups (lq_renderer q)) active_slots))"

text \<open>
  All masks in ascending order; \<^const>\<open>None\<close> when one of them panics. The shift \<open>1 << total_flags\<close> is the
  power of two: a statement with 64 flags has no table that fits a machine.
\<close>

definition runtime_sql_shapes :: "lowered_query \<Rightarrow> (nat \<times> placeholder_id) list \<Rightarrow> runtime_sql_shape list option" where
  "runtime_sql_shapes q optionals =
     those (map (runtime_sql_shape_of q optionals) [0..<2 ^ (length optionals + length (lq_toggle_group_ids q))])"

section \<open>The emitted renderer\<close>

definition is_dynamic :: "lowered_query \<Rightarrow> bool" where
  "is_dynamic q = (list_ex lp_optional (lq_parameters q) \<or> lq_toggle_group_ids q \<noteq> [])"

definition parameter_codec_tokens :: "lowered_query \<Rightarrow> str list" where
  "parameter_codec_tokens q =
     map template_codec_tokens (lq_parameters q) @ map (\<lambda>_. ''::babar::__private::toggle'') (lq_toggle_group_ids q)"

definition parameter_type_tokens :: "lowered_query \<Rightarrow> str list" where
  "parameter_type_tokens q =
     map template_value_type_tokens (lq_parameters q) @ map (\<lambda>_. ''bool'') (lq_toggle_group_ids q)"

definition row_codec_tokens :: "lowered_query \<Rightarrow> str list" where
  "row_codec_tokens q = map (\<lambda>c. codec_tokens (lc_codec c)) (lq_columns q)"

definition row_type_tokens :: "lowered_query \<Rightarrow> str list" where
  "row_type_tokens q = map (\<lambda>c. value_type_tokens (lc_codec c)) (lq_columns q)"

text \<open>
  The closure the macro emits for a dynamic statement, applied to its arguments: one argument for each
  parameter, an optional one for an optional parameter, then one flag for each toggle group. The arm
  whose pattern is the tuple of flags gives the SQL and the values it binds, in order, each with its codec.
  \<^const>\<open>None\<close> is a match without an arm or a panic of \<open>expect\<close>.
\<close>

datatype 'v argument = Given 'v | Maybe "'v option"

fun argument_value :: "'v argument \<Rightarrow> 'v option" where
  "argument_value (Given v) = Some v"
| "argument_value (Maybe v) = v"

fun argument_fits :: "lowered_parameter \<Rightarrow> 'v argument \<Rightarrow> bool" where
  "argument_fits p (Given v) = (\<not> lp_optional p)"
| "argument_fits p (Maybe v) = lp_optional p"

definition argument_flags :: "lowered_query \<Rightarrow> 'v argument list \<Rightarrow> bool list \<Rightarrow> bool list" where
  "argument_flags q args toggles =
     map (\<lambda>(i, _). argument_value (args ! i) \<noteq> None) (optional_parameters q) @ toggles"

definition emitted_renderer ::
    "lowered_query \<Rightarrow> runtime_sql_shape list \<Rightarrow> 'v argument list \<Rightarrow> bool list \<Rightarrow> (str \<times> (runtime_codec \<times> 'v) list) option" where
  "emitted_renderer q shapes args toggles =
     (case find (\<lambda>shape. sh_flags shape = argument_flags q args toggles) shapes of
        None \<Rightarrow> None
      | Some shape \<Rightarrow>
          map_option (\<lambda>values. (sh_sql shape, values))
            (those (map (\<lambda>i. map_option (Pair (lp_codec (lq_parameters q ! i))) (argument_value (args ! i)))
              (sh_active_parameter_indexes shape))))"

end
