(* ===== verification/Typed_Shapes.thy ===== *)
theory Typed_Shapes
  imports Typed_Lower
begin

text \<open>
  Correctness of the dynamic statements of \<open>lower.rs\<close>: the table of shapes has one entry for every choice
  of the optional inputs, and the emitted renderer gives the statement for exactly the supplied inputs,
  with its placeholders numbered like the bound values.
\<close>

section \<open>Every choice has one shape\<close>

lemma length_mask_flags [simp]: "length (mask_flags n m) = n"
  by (simp add: mask_flags_def)

lemma mask_flags_inject:
  assumes "mask_flags n m = mask_flags n m'" "m < 2 ^ n" "m' < 2 ^ n"
  shows "m = m'"
proof (rule bit_eqI)
  fix k
  have high: "\<And>x :: nat. x < 2 ^ n \<Longrightarrow> n \<le> k \<Longrightarrow> \<not> bit x k"
    by (metis bit_take_bit_iff not_le take_bit_nat_eq_self)
  have "k < n \<Longrightarrow> mask_flags n m ! k = mask_flags n m' ! k" using assms(1) by simp
  then show "bit m k = bit m' k"
    using high assms(2,3) by (cases "k < n") (auto simp: mask_flags_def bit_iff_odd)
qed

lemma mask_flags_image: "mask_flags n ` {0..<2 ^ n} = {flags. length flags = n}"
proof (rule card_subset_eq)
  have sets: "{flags :: bool list. length flags = n} = {flags. set flags \<subseteq> UNIV \<and> length flags = n}" by simp
  show "finite {flags :: bool list. length flags = n}"
    unfolding sets by (rule finite_lists_length_eq) simp
  have "inj_on (mask_flags n) {0..<2 ^ n}" by (rule inj_onI) (auto intro: mask_flags_inject)
  then have "card (mask_flags n ` {0..<2 ^ n}) = 2 ^ n" by (simp add: card_image)
  also have "\<dots> = card {flags :: bool list. length flags = n}"
    unfolding sets by (subst card_lists_length_eq) (auto simp: card_UNIV_bool)
  finally show "card (mask_flags n ` {0..<2 ^ n}) = card {flags :: bool list. length flags = n}" .
qed auto

lemma those_Some: "those xs = Some ys \<longleftrightarrow> xs = map Some ys"
  by (induction xs arbitrary: ys) (auto split: option.splits)

lemma map_Some_image:
  "map g xs = map Some ys \<Longrightarrow> (\<And>x y. g x = Some y \<Longrightarrow> h y = k x) \<Longrightarrow> map h ys = map k xs"
  by (induction xs arbitrary: ys) (auto simp: Cons_eq_map_conv)

lemma shape_of_flags:
  "runtime_sql_shape_of q optionals m = Some shape \<Longrightarrow>
   sh_flags shape = mask_flags (length optionals + length (lq_toggle_group_ids q)) m"
  by (auto simp: runtime_sql_shape_of_def Let_def)

lemma shapes_flags:
  assumes "runtime_sql_shapes q optionals = Some shapes"
  shows "map sh_flags shapes =
    map (mask_flags (length optionals + length (lq_toggle_group_ids q))) [0..<2 ^ (length optionals + length (lq_toggle_group_ids q))]"
proof -
  have "map (runtime_sql_shape_of q optionals) [0..<2 ^ (length optionals + length (lq_toggle_group_ids q))] = map Some shapes"
    using assms by (simp add: runtime_sql_shapes_def those_Some)
  then show ?thesis by (rule map_Some_image) (rule shape_of_flags)
qed

section \<open>Renumbering a rendered text\<close>

definition clean_text :: "str \<Rightarrow> bool" where
  "clean_text s = list_all (\<lambda>c. (of_char c :: nat) < 128 \<and> c \<noteq> CHR ''$'') s"

text \<open>The second text is the first one with every placeholder renumbered.\<close>

inductive renumbered :: "(nat \<Rightarrow> nat option) \<Rightarrow> str \<Rightarrow> str \<Rightarrow> bool" for f where
  renumbered_Nil: "renumbered f [] []"
| renumbered_char: "(of_char c :: nat) < 128 \<Longrightarrow> c \<noteq> CHR ''$'' \<Longrightarrow> renumbered f s t \<Longrightarrow> renumbered f (c # s) (c # t)"
| renumbered_slot: "f n = Some m \<Longrightarrow> n < 2 ^ 32 \<Longrightarrow> \<not> starts_digit s \<Longrightarrow> renumbered f s t \<Longrightarrow>
    renumbered f (''$'' @ show_nat n @ s) (''$'' @ show_nat m @ t)"

lemma renumber_slots_renumbered: "renumbered f s t \<Longrightarrow> renumber_slots f s = Some t"
proof (induction rule: renumbered.induct)
  case (renumbered_char c s t)
  then show ?case by (simp add: renumber_slots.simps(2) push_byte_as_char_def)
next
  case (renumbered_slot n m s t)
  obtain w where "parse_u32 (show_nat n) = Inr w" "unat w = n"
    using parse_u32_show_nat [OF renumbered_slot(2)] by blast
  moreover have "show_nat n @ s \<noteq> []" "is_ascii_digit (hd (show_nat n @ s))"
    using show_nat_ascii_digits [of _ n] by (simp_all add: hd_append)
  ultimately show ?case
    using renumbered_slot digits_of_slot [of s n] by (simp add: renumber_slots.simps(2))
qed simp

lemma renumbered_none: "renumbered (\<lambda>_. None) s t \<Longrightarrow> s = t"
  by (induction rule: renumbered.induct) auto

lemma renumbered_append:
  assumes "renumbered f s t" "renumbered f s' t'" "\<not> starts_digit s'"
  shows "renumbered f (s @ s') (t @ t')"
  using assms(1)
proof (induction rule: renumbered.induct)
  case (renumbered_slot n m s t)
  then show ?case
    using assms(3) renumbered.renumbered_slot [of f n m "s @ s'" "t @ t'"] by (simp add: starts_digit_append)
qed (use assms in \<open>auto intro: renumbered.intros\<close>)

lemma renumbered_text: "clean_text a \<Longrightarrow> renumbered f s t \<Longrightarrow> renumbered f (a @ s) (a @ t)"
  by (induction a) (auto simp: clean_text_def intro: renumbered_char)

lemma renumbered_clean: "clean_text a \<Longrightarrow> renumbered f a a"
  using renumbered_text [OF _ renumbered_Nil] by simp

lemma renumbered_between:
  "clean_text a \<Longrightarrow> renumbered f s t \<Longrightarrow> clean_text b \<Longrightarrow> \<not> starts_digit b \<Longrightarrow> renumbered f (a @ s @ b) (a @ t @ b)"
  by (intro renumbered_text renumbered_append renumbered_clean)

lemma renumbered_join:
  assumes "list_all2 (renumbered f) ss ts" "clean_text sep" "sep \<noteq> []" "\<not> starts_digit sep"
  shows "renumbered f (join_str sep ss) (join_str sep ts)"
  using assms(1)
proof (induction rule: list_all2_induct)
  case (Cons s ss t ts)
  then have "ss = [] \<longleftrightarrow> ts = []" by auto
  with Cons assms(2-) show ?case
    by (auto simp: join_str_Cons starts_digit_append intro!: renumbered_append renumbered_text)
qed (simp add: renumbered_Nil)

lemma somes_rel: "list_all2 (rel_option R) xs ys \<Longrightarrow> list_all2 R (somes xs) (somes ys)"
  by (induction rule: list_all2_induct) (auto simp: somes_def List.map_filter_simps split: option.splits)

section \<open>Renaming the slots of a statement\<close>

fun map_slots :: "(nat \<Rightarrow> nat) \<Rightarrow> parsed_expr \<Rightarrow> parsed_expr" where
  "map_slots g (PPlaceholder p) = PPlaceholder (p\<lparr>pr_slot := g (pr_slot p)\<rparr>)"
| "map_slots g (POptionalGroup i s e) = POptionalGroup i s (map_slots g e)"
| "map_slots g (PUnary i s op e) = PUnary i s op (map_slots g e)"
| "map_slots g (PBinary i s op l r) = PBinary i s op (map_slots g l) (map_slots g r)"
| "map_slots g (PIsNull i s negated e) = PIsNull i s negated (map_slots g e)"
| "map_slots g (PBoolChain i s op ts) = PBoolChain i s op (map (map_slots g) ts)"
| "map_slots g (PColumn c) = PColumn c"
| "map_slots g (PLiteral l) = PLiteral l"

definition map_slots_projection :: "(nat \<Rightarrow> nat) \<Rightarrow> parsed_projection \<Rightarrow> parsed_projection" where
  "map_slots_projection g p = p\<lparr>pp_expr := map_slots g (pp_expr p)\<rparr>"

fun map_slots_statement :: "(nat \<Rightarrow> nat) \<Rightarrow> rendered_statement \<Rightarrow> rendered_statement" where
  "map_slots_statement g (RenderSelect s) = RenderSelect (s\<lparr>
     ps_projections := map (map_slots_projection g) (ps_projections s),
     ps_joins := map (\<lambda>j. j\<lparr>pj_on := map_slots g (pj_on j)\<rparr>) (ps_joins s),
     ps_filter := map_option (map_slots g) (ps_filter s),
     ps_order_by := map (\<lambda>item. item\<lparr>po_expr := map_slots g (po_expr item)\<rparr>) (ps_order_by s),
     ps_limit := map_option (\<lambda>l. l\<lparr>plim_expr := map_slots g (plim_expr l)\<rparr>) (ps_limit s),
     ps_offset := map_option (\<lambda>l. l\<lparr>plim_expr := map_slots g (plim_expr l)\<rparr>) (ps_offset s)\<rparr>)"
| "map_slots_statement g (RenderInsert s) = RenderInsert (s\<lparr>
     pi_values := map (\<lambda>row. row\<lparr>pv_values := map (map_slots g) (pv_values row)\<rparr>) (pi_values s),
     pi_returning := map (map_slots_projection g) (pi_returning s)\<rparr>)"
| "map_slots_statement g (RenderUpdate s) = RenderUpdate (s\<lparr>
     pu_assignments := map (\<lambda>a. a\<lparr>pa_value := map_slots g (pa_value a)\<rparr>) (pu_assignments s),
     pu_filter := map_slots g (pu_filter s),
     pu_returning := map (map_slots_projection g) (pu_returning s)\<rparr>)"
| "map_slots_statement g (RenderDelete s) = RenderDelete (s\<lparr>
     pd_filter := map_slots g (pd_filter s),
     pd_returning := map (map_slots_projection g) (pd_returning s)\<rparr>)"

text \<open>
  The texts an expression prints are clean, and the placeholders satisfy \<open>P\<close>.
\<close>

definition clean_ident :: "ident_syntax \<Rightarrow> bool" where
  "clean_ident i = clean_text (id_value i)"

fun expr_ok :: "(placeholder_ref \<Rightarrow> bool) \<Rightarrow> parsed_expr \<Rightarrow> bool" where
  "expr_ok P (PColumn c) = (clean_ident (cr_binding c) \<and> clean_ident (cr_column c))"
| "expr_ok P (PPlaceholder p) = P p"
| "expr_ok P (PLiteral l) = clean_text (render_literal (pl_value l))"
| "expr_ok P (POptionalGroup i s e) = expr_ok P e"
| "expr_ok P (PUnary i s op e) = expr_ok P e"
| "expr_ok P (PBinary i s op l r) = (expr_ok P l \<and> expr_ok P r)"
| "expr_ok P (PIsNull i s negated e) = expr_ok P e"
| "expr_ok P (PBoolChain i s op ts) = list_all (expr_ok P) ts"

text \<open>The placeholder has the number \<open>f\<close> gives it, or it is an optional one that is not active.\<close>

definition slot_ok :: "(nat \<Rightarrow> nat option) \<Rightarrow> (nat \<Rightarrow> nat) \<Rightarrow> placeholder_ref \<Rightarrow> bool" where
  "slot_ok f g p \<longleftrightarrow> f (pr_slot p) = Some (g (pr_slot p)) \<and> pr_slot p < 2 ^ 32"

lemma clean_text_simps [simp]:
  "clean_text []" "clean_text (c # s) \<longleftrightarrow> (of_char c :: nat) < 128 \<and> c \<noteq> CHR ''$'' \<and> clean_text s"
  "clean_text (s @ t) \<longleftrightarrow> clean_text s \<and> clean_text t"
  by (simp_all add: clean_text_def)

lemma starts_digit_Cons [simp]: "starts_digit (c # s) = is_ascii_digit c" "\<not> starts_digit []"
  by (simp_all add: starts_digit_def)

lemma is_ascii_digit_separators [simp]:
  "\<not> is_ascii_digit (CHR '' '')" "\<not> is_ascii_digit (CHR '')'')" "\<not> is_ascii_digit (CHR '','')"
  by (simp_all add: is_ascii_digit_def)

lemma renumbered_placeholder: "slot_ok f g p \<Longrightarrow> renumbered f (render_placeholder p) (render_placeholder (p\<lparr>pr_slot := g (pr_slot p)\<rparr>))"
  using renumbered_slot [OF _ _ _ renumbered_Nil, of f "pr_slot p" "g (pr_slot p)"]
  by (simp add: slot_ok_def render_placeholder_def)

lemma renumbered_unary: "renumbered f s t \<Longrightarrow> renumbered f (render_unary op s) (render_unary op t)"
  by (cases op) (auto intro!: renumbered_char renumbered_append renumbered_clean)

lemma clean_binary_op [simp]: "clean_text (render_binary_op op)"
  by (cases op) simp_all

lemma renumbered_comparison:
  "renumbered f l l' \<Longrightarrow> renumbered f r r' \<Longrightarrow> renumbered f (render_comparison op l r) (render_comparison op l' r')"
  unfolding render_comparison_def
  by (auto simp: starts_digit_append intro!: renumbered_char renumbered_append renumbered_text renumbered_clean)

lemma renumbered_is_null: "renumbered f s t \<Longrightarrow> renumbered f (render_is_null negated s) (render_is_null negated t)"
  unfolding render_is_null_def by (auto intro!: renumbered_char renumbered_append renumbered_clean)

lemma renumbered_chain: "list_all2 (renumbered f) ss ts \<Longrightarrow> renumbered f (render_chain op ss) (render_chain op ts)"
  unfolding render_chain_def
  by (cases op) (auto intro!: renumbered_char renumbered_append renumbered_join renumbered_clean)

lemmas renumbered_render = renumbered_placeholder renumbered_unary renumbered_comparison renumbered_is_null renumbered_chain

lemma renumbered_expr_sql: "expr_ok (slot_ok f g) e \<Longrightarrow> renumbered f (render_expr_sql e) (render_expr_sql (map_slots g e))"
proof (induction e)
  case (PColumn c)
  then show ?case by (auto simp: render_column_def clean_ident_def intro: renumbered_clean)
next
  case (PBoolChain i s op ts)
  then have "list_all2 (renumbered f) (map render_expr_sql ts) (map (render_expr_sql \<circ> map_slots g) ts)"
    by (auto simp: list_all2_conv_all_nth list_all_length)
  then show ?case by (simp add: renumbered_chain)
next
  case (POptionalGroup i s e)
  then show ?case using renumbered_between [of "''(''" f _ _ "'')''"] by simp
qed (auto intro: renumbered_render renumbered_clean)

lemma parsed_optional_map_slots [simp]:
  "parsed_optional_placeholders_into (map_slots g e) = parsed_optional_placeholders_into e"
  by (induction e) (auto simp: comp_def intro!: arg_cong [of _ _ concat])

lemma group_active_map_slots [simp]: "group_active (map_slots g e) i active groups = group_active e i active groups"
  by (simp add: group_active_def parsed_optional_placeholders_def)

text \<open>An optional placeholder that is not active is not rendered, so its slot needs no number.\<close>

definition active_slot_ok :: "placeholder_id set \<Rightarrow> (nat \<Rightarrow> nat option) \<Rightarrow> (nat \<Rightarrow> nat) \<Rightarrow> placeholder_ref \<Rightarrow> bool" where
  "active_slot_ok active f g p \<longleftrightarrow> (pr_optional p \<and> pr_placeholder_id p \<notin> active) \<or> slot_ok f g p"

lemma renumbered_expr:
  "expr_ok (active_slot_ok active f g) e \<Longrightarrow>
   rel_option (renumbered f) (render_expr active groups e) (render_expr active groups (map_slots g e))"
proof (induction e)
  case (PColumn c)
  then show ?case by (auto simp: render_column_def clean_ident_def intro: renumbered_clean)
next
  case (PPlaceholder p)
  then show ?case by (auto simp: active_slot_ok_def intro: renumbered_placeholder)
next
  case (PBinary i s op l r)
  then show ?case by (auto simp: option_rel_Some1 split: option.splits elim: option.rel_cases intro: renumbered_comparison)
next
  case (PBoolChain i s op ts)
  let ?xs = "map (render_expr active groups) ts" and ?ys = "map (render_expr active groups \<circ> map_slots g) ts"
  have "list_all2 (rel_option (renumbered f)) ?xs ?ys"
    using PBoolChain by (auto simp: list_all2_conv_all_nth list_all_length)
  then have "list_all2 (renumbered f) (somes ?xs) (somes ?ys)" by (rule somes_rel)
  then show ?case by (auto simp: list_all2_Cons1 renumbered_chain split: list.splits)
next
  case (POptionalGroup i s e)
  then show ?case
    using renumbered_between [of "''(''" f _ _ "'')''"]
    by (auto simp: option.rel_map elim: option.rel_mono_strong)
next
  case (PUnary i s op e)
  then show ?case by (auto simp: option.rel_map elim: option.rel_mono_strong intro: renumbered_unary)
next
  case (PIsNull i s negated e)
  then show ?case by (auto simp: option.rel_map elim: option.rel_mono_strong intro: renumbered_is_null)
qed (auto intro: renumbered_clean)

section \<open>Statements\<close>

definition tail_piece :: "(nat \<Rightarrow> nat option) \<Rightarrow> str \<Rightarrow> str \<Rightarrow> bool" where
  "tail_piece f s t \<longleftrightarrow> renumbered f s t \<and> \<not> starts_digit s"

lemma piece_append: "tail_piece f s t \<Longrightarrow> tail_piece f s' t' \<Longrightarrow> tail_piece f (s @ s') (t @ t')"
  unfolding tail_piece_def by (simp add: starts_digit_append renumbered_append)

lemma piece_text: "clean_text a \<Longrightarrow> a \<noteq> [] \<Longrightarrow> \<not> starts_digit a \<Longrightarrow> renumbered f s t \<Longrightarrow> tail_piece f (a @ s) (a @ t)"
  by (auto simp: tail_piece_def starts_digit_append intro: renumbered_text)

lemma piece_Cons:
  "renumbered f s t \<Longrightarrow> (of_char c :: nat) < 128 \<Longrightarrow> c \<noteq> CHR ''$'' \<Longrightarrow> \<not> is_ascii_digit c \<Longrightarrow> tail_piece f (c # s) (c # t)"
  by (simp add: tail_piece_def renumbered_char)

lemma renumbered_then: "renumbered f s t \<Longrightarrow> tail_piece f s' t' \<Longrightarrow> renumbered f (s @ s') (t @ t')"
  by (simp add: tail_piece_def renumbered_append)

lemma piece_Nil [simp]: "tail_piece f [] []"
  by (simp add: tail_piece_def renumbered_Nil)

lemma piece_clause:
  "rel_option (renumbered f) b b' \<Longrightarrow> clean_text kw \<Longrightarrow> kw \<noteq> [] \<Longrightarrow> \<not> starts_digit kw \<Longrightarrow>
   tail_piece f (clause kw b) (clause kw b')"
  by (cases b; cases b') (auto simp: clause_def intro: piece_text)

lemma piece_concat: "list_all2 (tail_piece f) ss ts \<Longrightarrow> tail_piece f (concat ss) (concat ts)"
  by (induction rule: list_all2_induct) (auto intro: piece_append)

definition projection_ok :: "(placeholder_ref \<Rightarrow> bool) \<Rightarrow> parsed_projection \<Rightarrow> bool" where
  "projection_ok P p \<longleftrightarrow> expr_ok P (pp_expr p)
     \<and> (case pp_output_name p of ONExplicit a \<Rightarrow> clean_ident a | ONImplicit a \<Rightarrow> clean_ident a | ONAnonymous \<Rightarrow> True)"

definition from_ok :: "parsed_from \<Rightarrow> bool" where
  "from_ok x \<longleftrightarrow> list_all clean_ident (on_parts (pf_table_name x)) \<and> clean_ident (pf_binding_name x)"

definition target_ok :: "parsed_assignment_target \<Rightarrow> bool" where
  "target_ok t \<longleftrightarrow> clean_ident (pt_column t) \<and> (case pt_binding t of None \<Rightarrow> True | Some b \<Rightarrow> clean_ident b)"

text \<open>
  The placeholders of the parts that are always rendered satisfy \<open>P\<close>, those of the parts that may be
  left out satisfy \<open>Q\<close>.
\<close>

fun statement_ok :: "(placeholder_ref \<Rightarrow> bool) \<Rightarrow> (placeholder_ref \<Rightarrow> bool) \<Rightarrow> rendered_statement \<Rightarrow> bool" where
  "statement_ok P Q (RenderSelect s) \<longleftrightarrow>
     list_all (projection_ok P) (ps_projections s) \<and> from_ok (ps_from s)
     \<and> list_all (\<lambda>j. from_ok (pj_right j) \<and> expr_ok Q (pj_on j)) (ps_joins s)
     \<and> pred_option (expr_ok Q) (ps_filter s)
     \<and> list_all (\<lambda>item. expr_ok Q (po_expr item)) (ps_order_by s)
     \<and> pred_option (\<lambda>l. expr_ok Q (plim_expr l)) (ps_limit s)
     \<and> pred_option (\<lambda>l. expr_ok Q (plim_expr l)) (ps_offset s)"
| "statement_ok P Q (RenderInsert s) \<longleftrightarrow>
     from_ok (pi_target s) \<and> list_all clean_ident (pi_columns s)
     \<and> list_all (\<lambda>row. list_all (expr_ok P) (pv_values row)) (pi_values s)
     \<and> list_all (projection_ok P) (pi_returning s)"
| "statement_ok P Q (RenderUpdate s) \<longleftrightarrow>
     from_ok (pu_target s) \<and> list_all (\<lambda>a. target_ok (pa_target a) \<and> expr_ok P (pa_value a)) (pu_assignments s)
     \<and> expr_ok Q (pu_filter s) \<and> list_all (projection_ok P) (pu_returning s)"
| "statement_ok P Q (RenderDelete s) \<longleftrightarrow>
     from_ok (pd_target s) \<and> expr_ok Q (pd_filter s) \<and> list_all (projection_ok P) (pd_returning s)"

lemma clean_join: "list_all clean_text ss \<Longrightarrow> clean_text sep \<Longrightarrow> clean_text (join_str sep ss)"
  by (induction ss) (auto simp: join_str_Cons)

lemma clean_from: "from_ok x \<Longrightarrow> clean_text (render_from x)"
  by (auto simp: from_ok_def render_from_def render_object_name_def clean_ident_def [abs_def] list.pred_map comp_def intro!: clean_join)

lemma clean_join_kind [simp]: "clean_text (join_kind_sql k)"
  by (cases k) simp_all

lemma clean_target: "target_ok t \<Longrightarrow> clean_text (render_assignment_target t)"
  by (auto simp: target_ok_def render_assignment_target_def clean_ident_def split: option.splits)

lemma renumbered_projection:
  assumes "projection_ok (slot_ok f g) p"
  shows "renumbered f (render_projection p) (render_projection (map_slots_projection g p))"
proof -
  have e: "renumbered f (render_expr_sql (pp_expr p)) (render_expr_sql (map_slots g (pp_expr p)))"
    using assms renumbered_expr_sql by (simp add: projection_ok_def)
  have as: "\<And>a. clean_ident a \<Longrightarrow> tail_piece f ('' AS '' @ id_value a) ('' AS '' @ id_value a)"
    by (rule piece_text) (auto simp: clean_ident_def intro: renumbered_clean)
  show ?thesis
    using assms e renumbered_then [OF e as]
    by (cases "pp_expr p") (auto simp: render_projection_def map_slots_projection_def projection_ok_def Let_def
      split: output_name_syntax.splits)
qed

lemma renumbered_map_join:
  "list_all P xs \<Longrightarrow> (\<And>x. P x \<Longrightarrow> renumbered f (r x) (r (h x))) \<Longrightarrow>
   renumbered f (join_str '', '' (map r xs)) (join_str '', '' (map r (map h xs)))"
  by (rule renumbered_join) (auto simp: list_all2_conv_all_nth list_all_length)

lemma piece_returning:
  assumes "list_all (projection_ok (slot_ok f g)) ps"
  shows "tail_piece f (render_returning ps) (render_returning (map (map_slots_projection g) ps))"
  using renumbered_map_join [of "projection_ok (slot_ok f g)" ps f render_projection "map_slots_projection g"]
    assms renumbered_projection by (auto simp: render_returning_def intro!: piece_Cons renumbered_char)

lemma piece_join:
  assumes "from_ok (pj_right j)" "expr_ok (active_slot_ok active f g) (pj_on j)"
  shows "tail_piece f (render_join active groups j) (render_join active groups (j\<lparr>pj_on := map_slots g (pj_on j)\<rparr>))"
proof -
  have "rel_option (renumbered f) (render_expr active groups (pj_on j)) (render_expr active groups (map_slots g (pj_on j)))"
    by (rule renumbered_expr) (rule assms(2))
  then have "renumbered f (case render_expr active groups (pj_on j) of Some on \<Rightarrow> on | None \<Rightarrow> ''TRUE'')
      (case render_expr active groups (map_slots g (pj_on j)) of Some on \<Rightarrow> on | None \<Rightarrow> ''TRUE'')"
    by (cases "render_expr active groups (pj_on j)"; cases "render_expr active groups (map_slots g (pj_on j))")
      (auto intro: renumbered_clean)
  then have "tail_piece f (('' '' @ join_kind_sql (pj_kind j) @ '' '' @ ''JOIN '' @ render_from (pj_right j) @ '' ON '')
      @ (case render_expr active groups (pj_on j) of Some on \<Rightarrow> on | None \<Rightarrow> ''TRUE''))
     (('' '' @ join_kind_sql (pj_kind j) @ '' '' @ ''JOIN '' @ render_from (pj_right j) @ '' ON '')
      @ (case render_expr active groups (map_slots g (pj_on j)) of Some on \<Rightarrow> on | None \<Rightarrow> ''TRUE''))"
    by (intro piece_text) (use assms(1) clean_from in auto)
  then show ?thesis by (simp add: render_join_def)
qed

lemma rel_order_by:
  assumes "expr_ok (active_slot_ok active f g) (po_expr item)"
  shows "rel_option (renumbered f) (render_order_by_item active groups item)
    (render_order_by_item active groups (item\<lparr>po_expr := map_slots g (po_expr item)\<rparr>))"
  using renumbered_expr [OF assms, of groups]
  by (auto simp: render_order_by_item_def option.rel_map elim!: option.rel_mono_strong
    intro!: renumbered_then piece_Cons renumbered_clean split: option.splits nulls_order.splits)

lemma rel_limit:
  assumes "pred_option (\<lambda>l. expr_ok (active_slot_ok active f g) (plim_expr l)) l"
  shows "rel_option (renumbered f) (render_limit active groups l)
    (render_limit active groups (map_option (\<lambda>l. l\<lparr>plim_expr := map_slots g (plim_expr l)\<rparr>) l))"
  using assms renumbered_expr by (cases l) (auto simp: render_limit_def)

lemma rel_filter:
  assumes "pred_option (expr_ok (active_slot_ok active f g)) e"
  shows "rel_option (renumbered f) (case e of None \<Rightarrow> None | Some e \<Rightarrow> render_expr active groups e)
    (case map_option (map_slots g) e of None \<Rightarrow> None | Some e \<Rightarrow> render_expr active groups e)"
  using assms renumbered_expr by (cases e) auto

lemma piece_order_by:
  assumes "list_all (\<lambda>item. expr_ok (active_slot_ok active f g) (po_expr item)) items"
  shows "tail_piece f (let xs = somes (map (render_order_by_item active groups) items) in
      if xs = [] then [] else '' ORDER BY '' @ join_str '', '' xs)
    (let xs = somes (map (render_order_by_item active groups) (map (\<lambda>item. item\<lparr>po_expr := map_slots g (po_expr item)\<rparr>) items)) in
      if xs = [] then [] else '' ORDER BY '' @ join_str '', '' xs)"
proof -
  define xs where "xs = somes (map (render_order_by_item active groups) items)"
  define ys where "ys = somes (map (render_order_by_item active groups)
    (map (\<lambda>item. item\<lparr>po_expr := map_slots g (po_expr item)\<rparr>) items))"
  have rel: "list_all2 (renumbered f) xs ys"
    unfolding xs_def ys_def
    by (rule somes_rel) (use assms rel_order_by in \<open>auto simp: list_all2_conv_all_nth list_all_length\<close>)
  then have "xs = [] \<longleftrightarrow> ys = []" by auto
  moreover have "renumbered f (join_str '', '' xs) (join_str '', '' ys)"
    by (rule renumbered_join [OF rel]) auto
  ultimately show ?thesis
    unfolding Let_def xs_def [symmetric] ys_def [symmetric] by (auto intro!: piece_Cons renumbered_char)
qed

lemma renumbered_select:
  assumes "statement_ok (slot_ok f g) (active_slot_ok active f g) (RenderSelect s)"
  shows "renumbered f (render_statement active groups (RenderSelect s))
    (render_statement active groups (map_slots_statement g (RenderSelect s)))"
proof -
  let ?m = "map_slots g"
  have projections: "renumbered f (join_str '', '' (map render_projection (ps_projections s)))
      (join_str '', '' (map render_projection (map (map_slots_projection g) (ps_projections s))))"
    by (rule renumbered_map_join [of "projection_ok (slot_ok f g)"]) (use assms renumbered_projection in auto)
  have from_part: "tail_piece f ('' FROM '' @ render_from (ps_from s)) ('' FROM '' @ render_from (ps_from s))"
    by (rule piece_text) (use assms in \<open>auto intro: renumbered_clean clean_from\<close>)
  have joins: "tail_piece f (concat (map (render_join active groups) (ps_joins s)))
      (concat (map (render_join active groups) (map (\<lambda>j. j\<lparr>pj_on := ?m (pj_on j)\<rparr>) (ps_joins s))))"
    by (rule piece_concat) (use assms piece_join in \<open>auto simp: list_all2_conv_all_nth list_all_length\<close>)
  have clauses: "tail_piece f (clause '' WHERE '' (case ps_filter s of None \<Rightarrow> None | Some e \<Rightarrow> render_expr active groups e))
      (clause '' WHERE '' (case map_option ?m (ps_filter s) of None \<Rightarrow> None | Some e \<Rightarrow> render_expr active groups e))"
    "tail_piece f (clause '' LIMIT '' (render_limit active groups (ps_limit s)))
      (clause '' LIMIT '' (render_limit active groups (map_option (\<lambda>l. l\<lparr>plim_expr := ?m (plim_expr l)\<rparr>) (ps_limit s))))"
    "tail_piece f (clause '' OFFSET '' (render_limit active groups (ps_offset s)))
      (clause '' OFFSET '' (render_limit active groups (map_option (\<lambda>l. l\<lparr>plim_expr := ?m (plim_expr l)\<rparr>) (ps_offset s))))"
    using assms by (intro piece_clause rel_filter rel_limit; simp)+
  have order_by: "list_all (\<lambda>item. expr_ok (active_slot_ok active f g) (po_expr item)) (ps_order_by s)"
    using assms by simp
  note tail = piece_append [OF from_part piece_append [OF joins piece_append [OF clauses(1)
    piece_append [OF piece_order_by [OF order_by, of groups] piece_append [OF clauses(2,3)]]]]]
  have "renumbered f (''SELECT '' @ join_str '', '' (map render_projection (ps_projections s))) 
      (''SELECT '' @ join_str '', '' (map render_projection (map (map_slots_projection g) (ps_projections s))))"
    by (rule renumbered_text [OF _ projections]) simp
  from renumbered_then [OF this tail] show ?thesis
    by (simp add: render_select_def del: map_map)
qed

lemma piece_where_returning:
  assumes "expr_ok (active_slot_ok active f g) e" "list_all (projection_ok (slot_ok f g)) ps"
  shows "tail_piece f (clause '' WHERE '' (render_expr active groups e) @ render_returning ps)
    (clause '' WHERE '' (render_expr active groups (map_slots g e)) @ render_returning (map (map_slots_projection g) ps))"
  using assms by (intro piece_append piece_clause renumbered_expr piece_returning) simp_all

lemma renumbered_statement:
  assumes "statement_ok (slot_ok f g) (active_slot_ok active f g) st"
  shows "renumbered f (render_statement active groups st) (render_statement active groups (map_slots_statement g st))"
proof (cases st)
  case (RenderSelect s)
  then show ?thesis using renumbered_select assms by blast
next
  case (RenderInsert s)
  have rows: "renumbered f (join_str '', '' (map render_values_row (pi_values s)))
      (join_str '', '' (map render_values_row (map (\<lambda>row. row\<lparr>pv_values := map (map_slots g) (pv_values row)\<rparr>) (pi_values s))))"
  proof (rule renumbered_map_join [of "\<lambda>row. list_all (expr_ok (slot_ok f g)) (pv_values row)"])
    fix row :: parsed_values_row assume "list_all (expr_ok (slot_ok f g)) (pv_values row)"
    from renumbered_map_join [OF this, of f render_expr_sql "map_slots g"] renumbered_expr_sql
    show "renumbered f (render_values_row row) (render_values_row (row\<lparr>pv_values := map (map_slots g) (pv_values row)\<rparr>))"
      by (auto simp: render_values_row_def intro!: renumbered_char renumbered_append renumbered_clean)
  qed (use assms RenderInsert in simp)
  have "clean_text (join_str '', '' (map id_value (pi_columns s)))"
    by (rule clean_join) (use assms RenderInsert in \<open>auto simp: list.pred_map comp_def clean_ident_def [abs_def]\<close>)
  then have header: "clean_text (''INSERT INTO '' @ render_from (pi_target s)
      @ (if pi_columns s = [] then [] else '' ('' @ join_str '', '' (map id_value (pi_columns s)) @ '')'') @ '' VALUES '')"
    using assms RenderInsert by (simp add: clean_from)
  have "tail_piece f (render_returning (pi_returning s)) (render_returning (map (map_slots_projection g) (pi_returning s)))"
    by (rule piece_returning) (use assms RenderInsert in simp)
  from renumbered_text [OF header renumbered_then [OF rows this]] show ?thesis
    using RenderInsert by (cases "pi_columns s = []") (simp_all add: render_insert_def)
next
  case (RenderUpdate s)
  have "renumbered f (join_str '', '' (map render_assignment (pu_assignments s)))
      (join_str '', '' (map render_assignment (map (\<lambda>a. a\<lparr>pa_value := map_slots g (pa_value a)\<rparr>) (pu_assignments s))))"
    by (rule renumbered_map_join [of "\<lambda>a. target_ok (pa_target a) \<and> expr_ok (slot_ok f g) (pa_value a)"])
      (use assms RenderUpdate in \<open>auto simp: render_assignment_def intro!: renumbered_text renumbered_char clean_target renumbered_expr_sql\<close>)
  note set_part = renumbered_then [OF this piece_where_returning [of active f g "pu_filter s" "pu_returning s" groups]]
  have header: "clean_text (''UPDATE '' @ render_from (pu_target s) @ '' SET '')"
    using assms RenderUpdate by (simp add: clean_from)
  show ?thesis
    using renumbered_text [OF header set_part] assms RenderUpdate
    by (simp add: render_update_def)
next
  case (RenderDelete s)
  note tail = piece_where_returning [of active f g "pd_filter s" "pd_returning s" groups]
  have header: "clean_text (''DELETE FROM '' @ render_from (pd_target s))"
    using assms RenderDelete by (simp add: clean_from)
  show ?thesis
    using renumbered_then [OF renumbered_clean [OF header] tail] assms RenderDelete by (simp add: render_delete_def)
qed

section \<open>The table of shapes\<close>

definition new_slot :: "nat list \<Rightarrow> nat \<Rightarrow> nat" where
  "new_slot bound slot = (case slot_map bound slot of Some m \<Rightarrow> m | None \<Rightarrow> 0)"

text \<open>The placeholder is a use of one of the parameters, with the same mark.\<close>

definition param_ref :: "lowered_parameter list \<Rightarrow> placeholder_ref \<Rightarrow> bool" where
  "param_ref ps p \<longleftrightarrow> list_ex (\<lambda>lp. lp_id lp = pr_placeholder_id p \<and> lp_position lp = pr_slot p \<and> lp_optional lp = pr_optional p) ps"

text \<open>
  A statement whose texts are ASCII without dollar signs, whose placeholders all belong to parameters, and
  where a parameter is optional at all of its uses or at none; parts that are always rendered have no
  optional ones.
\<close>

definition renderable :: "lowered_query \<Rightarrow> bool" where
  "renderable q \<longleftrightarrow>
     distinct (map lp_id (lq_parameters q)) \<and> distinct (map lp_position (lq_parameters q))
     \<and> list_all (\<lambda>p. int (lp_position p) < 2 ^ 32) (lq_parameters q)
     \<and> statement_ok (\<lambda>p. param_ref (lq_parameters q) p \<and> \<not> pr_optional p) (param_ref (lq_parameters q)) (lq_renderer q)"

lemma slot_map_dom: "slot_map active slot = None \<longleftrightarrow> slot \<notin> set active"
  by (simp add: slot_map_def map_of_eq_None_iff del: upt_Suc flip: set_map)

lemma slot_map_nth: "distinct active \<Longrightarrow> i < length active \<Longrightarrow> slot_map active (active ! i) = Some (i + 1)"
  unfolding slot_map_def by (subst map_of_eq_Some_iff) (auto simp: rev_map [symmetric] set_zip simp del: upt_Suc)

lemma expr_ok_mono: "expr_ok P e \<Longrightarrow> (\<And>p. P p \<Longrightarrow> Q p) \<Longrightarrow> expr_ok Q e"
  by (induction e) (auto simp: list_all_iff)

lemma projection_ok_mono: "projection_ok P p \<Longrightarrow> (\<And>p. P p \<Longrightarrow> Q p) \<Longrightarrow> projection_ok Q p"
  by (auto simp: projection_ok_def intro: expr_ok_mono)

lemma statement_ok_mono:
  assumes "statement_ok P Q st" "\<And>p. P p \<Longrightarrow> P' p" "\<And>p. Q p \<Longrightarrow> Q' p"
  shows "statement_ok P' Q' st"
proof -
  have P: "expr_ok P e \<Longrightarrow> expr_ok P' e" and Q: "expr_ok Q e \<Longrightarrow> expr_ok Q' e" for e
    using expr_ok_mono assms(2,3) by blast+
  have "list_all (projection_ok P) ps \<Longrightarrow> list_all (projection_ok P') ps" for ps
    by (erule list.pred_mono_strong) (rule projection_ok_mono [OF _ assms(2)])
  moreover have "list_all (\<lambda>j. from_ok (pj_right j) \<and> expr_ok Q (pj_on j)) js \<Longrightarrow>
      list_all (\<lambda>j. from_ok (pj_right j) \<and> expr_ok Q' (pj_on j)) js" for js :: "parsed_join list"
    by (erule list.pred_mono_strong) (simp add: Q)
  moreover have "list_all (\<lambda>item. expr_ok Q (po_expr item)) items \<Longrightarrow> list_all (\<lambda>item. expr_ok Q' (po_expr item)) items"
    for items :: "parsed_order_by list"
    by (erule list.pred_mono_strong) (rule Q)
  moreover have "pred_option (\<lambda>l. expr_ok Q (plim_expr l)) l \<Longrightarrow> pred_option (\<lambda>l. expr_ok Q' (plim_expr l)) l"
    "pred_option (expr_ok Q) e \<Longrightarrow> pred_option (expr_ok Q') e" for l :: "parsed_limit option" and e
    by (erule option.pred_mono_strong, erule Q)+
  moreover have "list_all (\<lambda>row. list_all (expr_ok P) (pv_values row)) rows \<Longrightarrow>
      list_all (\<lambda>row. list_all (expr_ok P') (pv_values row)) rows" for rows :: "parsed_values_row list"
    by (erule list.pred_mono_strong, erule list.pred_mono_strong) (rule P)
  moreover have "list_all (\<lambda>a. target_ok (pa_target a) \<and> expr_ok P (pa_value a)) as \<Longrightarrow>
      list_all (\<lambda>a. target_ok (pa_target a) \<and> expr_ok P' (pa_value a)) as" for as :: "parsed_assignment list"
    by (erule list.pred_mono_strong) (simp add: P)
  ultimately show ?thesis
    using assms(1) by (cases st) (simp_all add: Q)
qed

lemma enumerate_nth: "enumerate 0 xs = map (\<lambda>i. (i, xs ! i)) [0..<length xs]"
  by (rule nth_equalityI) (simp_all add: nth_enumerate_eq)

lemma active_indexes_eq:
  "active_indexes ps active = filter (\<lambda>i. \<not> lp_optional (ps ! i) \<or> lp_id (ps ! i) \<in> active) [0..<length ps]"
  by (simp add: active_indexes_def enumerate_nth filter_map comp_def)

lemma render_shape:
  assumes "renderable q"
  defines "active_slots A \<equiv> map (\<lambda>i. lp_position (lq_parameters q ! i)) (active_indexes (lq_parameters q) A)"
  shows "renumber_sql_placeholders (render_statement A G (lq_renderer q)) (active_slots A) =
    Some (render_statement A G (map_slots_statement (new_slot (active_slots A)) (lq_renderer q)))"
proof -
  let ?ps = "lq_parameters q" and ?f = "slot_map (active_slots A)" and ?g = "new_slot (active_slots A)"
  have slot: "slot_ok ?f ?g p" if "param_ref ?ps p" "pr_optional p \<Longrightarrow> pr_placeholder_id p \<in> A" for p
  proof -
    from that(1) obtain i where i: "i < length ?ps" "lp_id (?ps ! i) = pr_placeholder_id p"
      "lp_position (?ps ! i) = pr_slot p" "lp_optional (?ps ! i) = pr_optional p"
      by (auto simp: param_ref_def list_ex_length)
    then have "i \<in> set (active_indexes ?ps A)" using that(2) by (auto simp: active_indexes_eq)
    then have "pr_slot p \<in> set (active_slots A)" using i(3) by (force simp: active_slots_def)
    moreover have "int (pr_slot p) < 2 ^ 32" using assms(1) i by (auto simp: renderable_def list_all_length)
    ultimately show ?thesis
      using slot_map_dom [of "active_slots A" "pr_slot p"] by (auto simp: slot_ok_def new_slot_def split: option.splits)
  qed
  have "statement_ok (slot_ok ?f ?g) (active_slot_ok A ?f ?g) (lq_renderer q)"
    by (rule statement_ok_mono [of "\<lambda>p. param_ref ?ps p \<and> \<not> pr_optional p" "param_ref ?ps"])
      (use assms(1) slot in \<open>auto simp: renderable_def active_slot_ok_def\<close>)
  from renumbered_statement [OF this, of G]
  have R: "renumbered ?f (render_statement A G (lq_renderer q)) (render_statement A G (map_slots_statement ?g (lq_renderer q)))" .
  have "active_slots A = [] \<Longrightarrow> ?f = (\<lambda>_. None)" by (simp add: slot_map_def fun_eq_iff)
  with R show ?thesis
    using renumber_slots_renumbered [OF R] renumbered_none by (auto simp: renumber_sql_placeholders_def)
qed

section \<open>The emitted renderer\<close>

definition bound_indexes :: "'v argument list \<Rightarrow> nat list" where
  "bound_indexes args = filter (\<lambda>i. argument_value (args ! i) \<noteq> None) [0..<length args]"

definition bound_slots :: "lowered_query \<Rightarrow> 'v argument list \<Rightarrow> nat list" where
  "bound_slots q args = map (\<lambda>i. lp_position (lq_parameters q ! i)) (bound_indexes args)"

definition bound_values :: "lowered_query \<Rightarrow> 'v argument list \<Rightarrow> (runtime_codec \<times> 'v) list" where
  "bound_values q args =
     map (\<lambda>i. (lp_codec (lq_parameters q ! i), the (argument_value (args ! i)))) (bound_indexes args)"

text \<open>The optional parameters that are supplied and the toggle groups that are switched on.\<close>

definition supplied :: "lowered_query \<Rightarrow> 'v argument list \<Rightarrow> placeholder_id set" where
  "supplied q args = (\<lambda>i. lp_id (lq_parameters q ! i)) ` {i \<in> set (bound_indexes args). lp_optional (lq_parameters q ! i)}"

definition switched_on :: "lowered_query \<Rightarrow> bool list \<Rightarrow> ast_id set" where
  "switched_on q toggles = set (flagged toggles (lq_toggle_group_ids q))"

lemma optional_parameters_eq:
  "optional_parameters q = map (\<lambda>i. (i, lp_id (lq_parameters q ! i)))
     (filter (\<lambda>i. lp_optional (lq_parameters q ! i)) [0..<length (lq_parameters q)])"
  by (simp add: optional_parameters_def enumerate_nth filter_map comp_def)

lemma flagged_map: "flagged (map f xs) (map g xs) = map g (filter f xs)"
  by (induction xs) (auto simp: flagged_def)

lemma supplied_flags:
  assumes "length args = length (lq_parameters q)"
  shows "set (flagged (map (\<lambda>(i, _). argument_value (args ! i) \<noteq> None) (optional_parameters q)) (map snd (optional_parameters q)))
    = supplied q args"
  unfolding flagged_map
  using assms by (auto simp: supplied_def bound_indexes_def optional_parameters_eq image_iff) blast

lemma active_indexes_supplied:
  assumes "list_all2 argument_fits (lq_parameters q) args" "distinct (map lp_id (lq_parameters q))"
  shows "active_indexes (lq_parameters q) (supplied q args) = bound_indexes args"
proof -
  let ?ps = "lq_parameters q"
  have len: "length args = length ?ps" using assms(1) by (simp add: list_all2_lengthD)
  have "(\<not> lp_optional (?ps ! i) \<or> lp_id (?ps ! i) \<in> supplied q args) \<longleftrightarrow> argument_value (args ! i) \<noteq> None"
    if i: "i < length ?ps" for i
  proof -
    have fits: "argument_fits (?ps ! i) (args ! i)" using assms(1) i by (simp add: list_all2_nthD)
    have "lp_id (?ps ! i) \<in> supplied q args \<longleftrightarrow> lp_optional (?ps ! i) \<and> argument_value (args ! i) \<noteq> None"
      using assms(2) i len by (auto simp: supplied_def bound_indexes_def distinct_conv_nth image_iff)
    with fits show ?thesis by (cases "args ! i") auto
  qed
  then show ?thesis
    unfolding active_indexes_eq bound_indexes_def len by (intro filter_cong refl) auto
qed

text \<open>The entry for a vector of flags.\<close>

definition shape_for :: "lowered_query \<Rightarrow> bool list \<Rightarrow> runtime_sql_shape" where
  "shape_for q flags =
     (let k = length (optional_parameters q);
          active = set (flagged (take k flags) (map snd (optional_parameters q)));
          groups = switched_on q (drop k flags);
          indexes = active_indexes (lq_parameters q) active;
          slots = map (\<lambda>i. lp_position (lq_parameters q ! i)) indexes in
      \<lparr>sh_flags = flags, sh_sql = render_statement active groups (map_slots_statement (new_slot slots) (lq_renderer q)),
       sh_active_parameter_indexes = indexes\<rparr>)"

lemma shapes_eq:
  assumes "renderable q"
  defines "n \<equiv> length (optional_parameters q) + length (lq_toggle_group_ids q)"
  shows "runtime_sql_shapes q (optional_parameters q) = Some (map (\<lambda>m. shape_for q (mask_flags n m)) [0..<2 ^ n])"
  using render_shape [OF assms(1)]
  by (simp add: runtime_sql_shapes_def those_Some runtime_sql_shape_of_def shape_for_def switched_on_def Let_def n_def)

lemma find_shape:
  assumes "length flags = n"
  shows "find (\<lambda>shape. sh_flags shape = flags) (map (\<lambda>m. shape_for q (mask_flags n m)) [0..<2 ^ n]) = Some (shape_for q flags)"
proof -
  let ?shapes = "map (\<lambda>m. shape_for q (mask_flags n m)) [0..<2 ^ n]"
  have flags: "sh_flags (shape_for q fs) = fs" for fs by (simp add: shape_for_def Let_def)
  have "flags \<in> mask_flags n ` {0..<2 ^ n}" using assms by (simp add: mask_flags_image)
  then obtain m where "m < 2 ^ n" "mask_flags n m = flags" by auto
  then have "find (\<lambda>shape. sh_flags shape = flags) ?shapes \<noteq> None"
    by (auto simp: find_None_iff flags)
  then obtain shape where found: "find (\<lambda>shape. sh_flags shape = flags) ?shapes = Some shape" by auto
  then have "shape \<in> set ?shapes" "sh_flags shape = flags" by (auto simp: find_Some_iff)
  then show ?thesis using found flags by auto
qed

lemma bind_values:
  "those (map (\<lambda>i. map_option (Pair (lp_codec (lq_parameters q ! i))) (argument_value (args ! i))) (bound_indexes args))
   = Some (bound_values q args)"
  by (auto simp: those_Some bound_values_def bound_indexes_def)


lemma pred_option_code [code]: "pred_option P x = (case x of None \<Rightarrow> True | Some a \<Rightarrow> P a)"
  by (cases x) simp_all

text \<open>
  \<open>SELECT users.id FROM users AS users WHERE users.name = $name? AND users.active = $active\<close>.
\<close>

definition zero_span :: source_span where
  "zero_span = span_new 0 0"

definition example_column :: "str \<Rightarrow> parsed_expr" where
  "example_column c = PColumn \<lparr>cr_id = 0, cr_span = zero_span, cr_binding = \<lparr>id_value = ''users'', id_span = zero_span\<rparr>,
     cr_column = \<lparr>id_value = c, id_span = zero_span\<rparr>\<rparr>"

definition example_comparison :: "str \<Rightarrow> placeholder_id \<Rightarrow> bool \<Rightarrow> parsed_expr" where
  "example_comparison c i opt = PBinary 0 zero_span OpEq (example_column c)
     (PPlaceholder \<lparr>pr_id = 0, pr_span = zero_span, pr_placeholder_id = i, pr_name = c, pr_slot = i + 1, pr_optional = opt\<rparr>)"

definition example_from :: parsed_from where
  "example_from = \<lparr>pf_id = 0, pf_span = zero_span,
     pf_table_name = \<lparr>on_parts = [\<lparr>id_value = ''users'', id_span = zero_span\<rparr>], on_span = zero_span\<rparr>,
     pf_binding_name = \<lparr>id_value = ''users'', id_span = zero_span\<rparr>\<rparr>"

definition example_parameter :: "str \<Rightarrow> placeholder_id \<Rightarrow> bool \<Rightarrow> lowered_parameter" where
  "example_parameter c i opt = \<lparr>lp_id = i, lp_logical_name = c, lp_position = i + 1, lp_sql_type = TyText,
     lp_nullability = NonNull, lp_optional = opt, lp_codec = RcBase RcText\<rparr>"

definition example_query :: "parsed_expr \<Rightarrow> lowered_parameter list \<Rightarrow> lowered_query" where
  "example_query e ps = \<lparr>lq_sql = [], lq_parameters = ps, lq_columns = [],
     lq_renderer = RenderSelect \<lparr>ps_id = 0, ps_span = zero_span,
       ps_projections = [\<lparr>pp_id = 0, pp_span = zero_span, pp_expr = example_column ''id'', pp_output_name = ONAnonymous\<rparr>],
       ps_from = example_from, ps_joins = [], ps_filter = Some e, ps_order_by = [], ps_limit = None, ps_offset = None\<rparr>,
     lq_toggle_group_ids = []\<rparr>"

definition example_dynamic :: lowered_query where
  "example_dynamic = example_query
     (PBoolChain 0 zero_span OpAnd [example_comparison ''name'' 0 True, example_comparison ''active'' 1 False])
     [example_parameter ''name'' 0 True, example_parameter ''active'' 1 False]"


section \<open>Where the emitted statement goes wrong\<close>

text \<open>
  A parameter that is optional at one use and not at another is an optional parameter, but its other use
  is rendered even when it is not supplied: building the table panics.
\<close>

lemma mixed_optional_use_panics:
  "runtime_sql_shapes (example_query
     (PBoolChain 0 zero_span OpAnd [example_comparison ''name'' 0 True, example_comparison ''active'' 0 False, example_comparison ''age'' 1 False])
     [example_parameter ''name'' 0 True, example_parameter ''age'' 1 False])
     [(0, 0)] = None"
  by code_simp

text \<open>Without another bound parameter there is no panic, but the statement has a placeholder that nothing is bound to.\<close>

lemma mixed_optional_use_unbound:
  "map_option (map (\<lambda>shape. (sh_flags shape, sh_sql shape, sh_active_parameter_indexes shape)))
     (runtime_sql_shapes (example_query
       (PBoolChain 0 zero_span OpAnd [example_comparison ''name'' 0 True, example_comparison ''nick'' 0 False])
       [example_parameter ''name'' 0 True]) [(0, 0)])
   = Some [([False], ''SELECT users.id FROM users AS users WHERE (users.nick = $1)'', []),
           ([True], ''SELECT users.id FROM users AS users WHERE ((users.name = $1) AND (users.nick = $1))'', [0])]"
  by code_simp

text \<open>
  A statement that deletes or updates needs a filter, yet a filter that is optional disappears when its
  input is not supplied.
\<close>

lemma optional_filter_deletes_everything:
  "render_statement {} {} (RenderDelete \<lparr>pd_id = 0, pd_span = zero_span, pd_target = example_from,
     pd_filter = example_comparison ''id'' 0 True, pd_returning = []\<rparr>) = ''DELETE FROM users AS users''"
  by code_simp

text \<open>Renumbering reads a string literal too: a dollar sign before a digit there is taken for a placeholder.\<close>

lemma literal_dollar_renumbered:
  "renumber_sql_placeholders (''SELECT u.id FROM u AS u WHERE ((u.price = '' @ [squote] @ ''$2'' @ [squote] @ '') AND (u.id = $2))'') [2]
   = Some (''SELECT u.id FROM u AS u WHERE ((u.price = '' @ [squote] @ ''$1'' @ [squote] @ '') AND (u.id = $1))'')"
  by code_simp

end
