(* ===== verification/Typed_Input.thy ===== *)
theory Typed_Input
  imports Typed_Source
begin

text \<open>
  The SQL text of a macro call (\<open>macros/src/typed_sql/public_input.rs\<close>): one string literal, or Rust tokens that are
  written out as SQL with a space where two tokens would run together. Every piece of the text keeps the
  position of its token, so that an error of the compiler is shown where the token stands. Token trees are those
  of the crate \<open>proc_macro2\<close>; their positions are opaque, with the operation \<open>join\<close> of the crate as a parameter.
\<close>

section \<open>Tokens\<close>

datatype delimiter = Parenthesis | BraceDelim | BracketDelim | NoneDelim

datatype token_lit = LitStr str | LitChar str | LitInt str | LitFloat str | LitOther

datatype 's token_tree =
    TtGroup delimiter "'s token_tree list" 's 's 's
  | TtIdent str 's
  | TtLiteral str "str + token_lit" 's
  | TtPunct char 's

text \<open>The three positions of a group are those of its opening, of its closing, and of the whole.\<close>

fun span_for_tree :: "'s token_tree \<Rightarrow> 's" where
  "span_for_tree (TtGroup d inner opened closed_at whole) = whole"
| "span_for_tree (TtIdent name s) = s"
| "span_for_tree (TtLiteral content lit s) = s"
| "span_for_tree (TtPunct c s) = s"

record 's span_ops =
  so_join :: "'s \<Rightarrow> 's \<Rightarrow> 's option"
  so_call_site :: 's

record 's syn_error =
  se_span :: 's
  se_message :: str

type_synonym ('s, 'a) syn_result = "'s syn_error + 'a"

definition syn_error_new :: "'s \<Rightarrow> str \<Rightarrow> 's syn_error" where
  "syn_error_new s m = \<lparr>se_span = s, se_message = m\<rparr>"

definition join_or :: "'s span_ops \<Rightarrow> 's \<Rightarrow> 's \<Rightarrow> 's" where
  "join_or J a b = (case so_join J a b of None \<Rightarrow> a | Some s \<Rightarrow> s)"

section \<open>The text\<close>

datatype piece_kind =
    PkWord | PkOpenDelim | PkCloseDelim | PkSuffixMarker | PkDot | PkComma | PkTightOperator | PkOperator | PkSemicolon

record 's span_segment =
  sg_sql_span :: source_span
  sg_token_span :: 's

record 's sql_text_builder =
  sb_sql :: str
  sb_segments :: "'s span_segment list"
  sb_previous_kind :: "piece_kind option"

definition sb_new :: "'s sql_text_builder" where
  "sb_new = \<lparr>sb_sql = [], sb_segments = [], sb_previous_kind = None\<rparr>"

definition needs_space :: "piece_kind option \<Rightarrow> piece_kind \<Rightarrow> bool" where
  "needs_space previous after =
     (case previous of
        None \<Rightarrow> False
      | Some p \<Rightarrow>
          if after \<in> {PkCloseDelim, PkComma, PkDot, PkSuffixMarker} \<or> p \<in> {PkOpenDelim, PkDot} then False
          else if after = PkTightOperator \<or> p = PkTightOperator then False
          else True)"

definition public_to_u32 :: "'s span_ops \<Rightarrow> nat \<Rightarrow> ('s, nat) syn_result" where
  "public_to_u32 J v = (if int v < 2 ^ 32 then Inr v else Inl (syn_error_new (so_call_site J) ''SQL input is too large''))"

definition push_piece :: "'s span_ops \<Rightarrow> str \<Rightarrow> 's \<Rightarrow> piece_kind \<Rightarrow> 's sql_text_builder \<Rightarrow> ('s, 's sql_text_builder) syn_result" where
  "push_piece J txt span kind b =
     (let before = sb_sql b @ (if needs_space (sb_previous_kind b) kind then '' '' else []);
          sql = before @ txt in
      bindr (public_to_u32 J (length before)) (\<lambda>start.
      bindr (public_to_u32 J (length sql)) (\<lambda>stop.
      Inr \<lparr>sb_sql = sql, sb_segments = sb_segments b @ [\<lparr>sg_sql_span = span_new start stop, sg_token_span = span\<rparr>],
           sb_previous_kind = Some kind\<rparr>)))"

definition render_sql_string :: "str \<Rightarrow> str" where
  "render_sql_string v = squote # concat (map (\<lambda>c. if c = squote then [squote, c] else [c]) v) @ [squote]"

definition validate_numeric_literal :: "str \<Rightarrow> str \<Rightarrow> 's \<Rightarrow> ('s, unit) syn_result" where
  "validate_numeric_literal txt suffix span =
     (if suffix \<noteq> [] then Inl (syn_error_new span ''typed_sql v1 token input only supports unsuffixed numeric literals'')
      else if CHR ''_'' \<in> set txt
      then Inl (syn_error_new span ''typed_sql v1 token input does not support `_` separators in numeric literals'')
      else Inr ())"

definition push_literal ::
    "'s span_ops \<Rightarrow> str \<Rightarrow> str + token_lit \<Rightarrow> 's \<Rightarrow> 's sql_text_builder \<Rightarrow> ('s, 's sql_text_builder) syn_result" where
  "push_literal J txt lit span b =
     (case lit of
        Inl message \<Rightarrow> Inl (syn_error_new span message)
      | Inr l \<Rightarrow>
          (case l of
             LitStr v \<Rightarrow> push_piece J (render_sql_string v) span PkWord b
           | LitChar v \<Rightarrow> push_piece J (render_sql_string v) span PkWord b
           | LitInt suffix \<Rightarrow> bindr (validate_numeric_literal txt suffix span) (\<lambda>_. push_piece J txt span PkWord b)
           | LitFloat suffix \<Rightarrow> bindr (validate_numeric_literal txt suffix span) (\<lambda>_. push_piece J txt span PkWord b)
           | LitOther \<Rightarrow> Inl (syn_error_new span
               (''typed_sql v1 token input does not support Rust literal `'' @ txt @ ''` here''))))"

definition punct_kind :: "char \<Rightarrow> piece_kind" where
  "punct_kind c =
     (if c = CHR ''.'' then PkDot else if c = CHR '','' then PkComma else if c = CHR '';'' then PkSemicolon else PkOperator)"

definition composite :: "char \<Rightarrow> char \<Rightarrow> str option" where
  "composite a b =
     (if (a, b) \<in> {(CHR ''>'', CHR ''=''), (CHR ''<'', CHR ''=''), (CHR ''!'', CHR ''=''), (CHR ''<'', CHR ''>''), (CHR '':'', CHR '':'')}
      then Some [a, b] else None)"

definition try_compose_punct ::
    "'s span_ops \<Rightarrow> char \<Rightarrow> 's \<Rightarrow> 's token_tree list \<Rightarrow> ((str \<times> 's \<times> piece_kind) \<times> 's token_tree list) option" where
  "try_compose_punct J c span tokens =
     (case tokens of
        TtPunct d dspan # rest \<Rightarrow> map_option (\<lambda>txt. ((txt, join_or J span dspan, PkTightOperator), rest)) (composite c d)
      | _ \<Rightarrow> None)"

definition placeholder_message :: str where
  "placeholder_message = ''typed_sql v1 placeholders must use a name like `$id`''"

text \<open>The operations on the stream return the tokens that are left.\<close>

definition push_punct ::
    "'s span_ops \<Rightarrow> char \<Rightarrow> 's \<Rightarrow> 's token_tree list \<Rightarrow> 's sql_text_builder \<Rightarrow> ('s, 's sql_text_builder \<times> 's token_tree list) syn_result" where
  "push_punct J c span tokens b =
     (if c = CHR ''$'' then
        (case tokens of
           [] \<Rightarrow> Inl (syn_error_new span placeholder_message)
         | TtIdent name ispan # rest \<Rightarrow>
             (let joined = join_or J span ispan in
              case rest of
                TtPunct (CHR ''?'') qspan # rest' \<Rightarrow>
                  bindr (push_piece J (''$'' @ name @ ''?'') (join_or J joined qspan) PkWord b) (\<lambda>b'. Inr (b', rest'))
              | _ \<Rightarrow> bindr (push_piece J (''$'' @ name) joined PkWord b) (\<lambda>b'. Inr (b', rest)))
         | t # rest \<Rightarrow> Inl (syn_error_new (span_for_tree t) placeholder_message))
      else
        (case try_compose_punct J c span tokens of
           Some ((txt, s, kind), rest) \<Rightarrow> bindr (push_piece J txt s kind b) (\<lambda>b'. Inr (b', rest))
         | None \<Rightarrow> bindr (push_piece J [c] span (punct_kind c) b) (\<lambda>b'. Inr (b', tokens))))"

definition optional_suffix :: "'s token_tree list \<Rightarrow> 's option \<times> 's token_tree list" where
  "optional_suffix tokens = (case tokens of TtPunct (CHR ''?'') s # rest \<Rightarrow> (Some s, rest) | _ \<Rightarrow> (None, tokens))"

definition group_error :: "'s \<Rightarrow> 's syn_error" where
  "group_error s = syn_error_new s ''typed_sql v1 token input only supports parentheses groups''"

lemma optional_suffix_size: "size_list size (snd (optional_suffix tokens)) \<le> size_list size tokens"
  by (auto simp: optional_suffix_def split: list.splits token_tree.splits char.splits bool.splits)

lemma push_punct_size: "push_punct J c span tokens b = Inr (b', rest) \<Longrightarrow> size_list size rest \<le> size_list size tokens"
  by (auto simp: push_punct_def try_compose_punct_def Let_def bindr_eq_Inr_iff
      split: if_splits list.splits token_tree.splits option.splits char.splits bool.splits)

function push_stream :: "'s span_ops \<Rightarrow> 's token_tree list \<Rightarrow> 's sql_text_builder \<Rightarrow> ('s, 's sql_text_builder) syn_result"
  and push_group ::
    "'s span_ops \<Rightarrow> delimiter \<Rightarrow> 's token_tree list \<Rightarrow> 's \<Rightarrow> 's \<Rightarrow> 's \<Rightarrow> 's option \<Rightarrow> 's sql_text_builder \<Rightarrow> ('s, 's sql_text_builder) syn_result" where
  "push_stream J [] b = Inr b"
| "push_stream J (TtGroup d inner opened closed_at whole # tokens) b =
     (let (suffix, rest) = optional_suffix tokens in
      bindr (push_group J d inner opened closed_at whole suffix b) (push_stream J rest))"
| "push_stream J (TtIdent name span # tokens) b = bindr (push_piece J name span PkWord b) (push_stream J tokens)"
| "push_stream J (TtLiteral txt lit span # tokens) b = bindr (push_literal J txt lit span b) (push_stream J tokens)"
| "push_stream J (TtPunct c span # tokens) b = bindr (push_punct J c span tokens b) (\<lambda>(b', rest). push_stream J rest b')"
| "push_group J d inner opened closed_at whole suffix b =
     (case d of
        Parenthesis \<Rightarrow>
          bindr (push_piece J ''('' opened PkOpenDelim b) (\<lambda>b1.
          bindr (push_stream J inner b1) (\<lambda>b2.
          bindr (push_piece J '')'' closed_at PkCloseDelim b2) (\<lambda>b3.
          case suffix of None \<Rightarrow> Inr b3 | Some s \<Rightarrow> push_piece J ''?'' s PkSuffixMarker b3)))
      | NoneDelim \<Rightarrow> push_stream J inner b
      | _ \<Rightarrow> Inl (group_error whole))"
  by pat_completeness auto
termination
proof (relation "measure (case_sum (\<lambda>(J, tokens, b). size_list size tokens) (\<lambda>(J, d, inner, opened, closed_at, whole, suffix, b). Suc (size_list size inner)))",
    goal_cases)
  case (3 J d inner opened closed_at whole tokens b x suffix rest b')
  then show ?case using optional_suffix_size [of tokens] by (cases "optional_suffix tokens") auto
next
  case (6 J c span tokens b a b' rest)
  then show ?case using push_punct_size [of J c span tokens b] by fastforce
qed auto

section \<open>Positions\<close>

definition touches :: "nat \<Rightarrow> nat \<Rightarrow> 's span_segment \<Rightarrow> bool" where
  "touches start stop seg \<longleftrightarrow> span_end (sg_sql_span seg) > start \<and> span_start (sg_sql_span seg) < stop"

definition span_for :: "'s span_ops \<Rightarrow> 's span_segment list \<Rightarrow> source_span option \<Rightarrow> 's option" where
  "span_for J segments span =
     (case span of
        None \<Rightarrow> None
      | Some sp \<Rightarrow>
          (let start = span_start sp;
               stop = max (span_end sp) (min (start + 1) (2 ^ 32 - 1));
               hits = filter (touches start stop) segments in
           if hits = [] then None else Some (join_or J (sg_token_span (hd hits)) (sg_token_span (last hits)))))"

section \<open>The input\<close>

record 's public_sql_input =
  pq_source :: sql_source
  pq_segments :: "'s span_segment list"

datatype 's canonicalize_error_target = SingleSpan 's | SpanMap "'s span_segment list"

definition target_syn_error :: "'s span_ops \<Rightarrow> 's canonicalize_error_target \<Rightarrow> typed_sql_error \<Rightarrow> 's syn_error" where
  "target_syn_error J target err =
     syn_error_new
       (case target of
          SingleSpan s \<Rightarrow> s
        | SpanMap segments \<Rightarrow> (case span_for J segments (te_span err) of None \<Rightarrow> so_call_site J | Some s \<Rightarrow> s))
       (show_typed_sql_error err)"

definition into_input ::
    "'s span_ops \<Rightarrow> 's canonicalize_error_target \<Rightarrow> str \<Rightarrow> 's span_segment list \<Rightarrow> ('s, 's public_sql_input) syn_result" where
  "into_input J target sql segments =
     bindr (map_err (target_syn_error J target) (canonicalize_parts sql)) (\<lambda>cs.
     Inr \<lparr>pq_source = from_canonicalized sql cs, pq_segments = segments\<rparr>)"

definition parse_literal_sql :: "'s token_tree list \<Rightarrow> ('s, (str \<times> 's) option) syn_result" where
  "parse_literal_sql tokens =
     (case tokens of
        [TtLiteral txt lit span] \<Rightarrow>
          (case lit of
             Inl message \<Rightarrow> Inl (syn_error_new span message)
           | Inr (LitStr v) \<Rightarrow> Inr (Some (v, span))
           | Inr _ \<Rightarrow> Inr None)
      | _ \<Rightarrow> Inr None)"

definition public_sql_parse :: "'s span_ops \<Rightarrow> 's token_tree list \<Rightarrow> ('s, 's public_sql_input) syn_result" where
  "public_sql_parse J tokens =
     bindr (parse_literal_sql tokens) (\<lambda>literal.
     case literal of
       Some (sql, span) \<Rightarrow>
         bindr (public_to_u32 J (length sql)) (\<lambda>n.
         into_input J (SingleSpan span) sql [\<lparr>sg_sql_span = span_new 0 n, sg_token_span = span\<rparr>])
     | None \<Rightarrow>
         bindr (push_stream J tokens sb_new) (\<lambda>b.
         if trim (sb_sql b) = [] then Inl (syn_error_new (so_call_site J) ''typed_sql v1 expects SQL tokens'')
         else into_input J (SpanMap (sb_segments b)) (sb_sql b) (sb_segments b)))"

definition public_syn_error :: "'s span_ops \<Rightarrow> 's public_sql_input \<Rightarrow> typed_sql_error \<Rightarrow> 's syn_error" where
  "public_syn_error J input err =
     syn_error_new (case span_for J (pq_segments input) (te_span err) of None \<Rightarrow> so_call_site J | Some s \<Rightarrow> s)
       (render_for_user (pq_source input) err)"

definition syn_error_message :: "'s span_ops \<Rightarrow> 's public_sql_input \<Rightarrow> str \<Rightarrow> 's syn_error" where
  "syn_error_message J input message =
     syn_error_new (case pq_segments input of [] \<Rightarrow> so_call_site J | seg # _ \<Rightarrow> sg_token_span seg) message"

definition public_parse_with :: "'s span_ops \<Rightarrow> 's public_sql_input \<Rightarrow> (sql_source \<Rightarrow> 'a tresult) \<Rightarrow> ('s, 'a) syn_result" where
  "public_parse_with J input parse = map_err (public_syn_error J input) (parse (pq_source input))"

section \<open>The segments tile the text\<close>

text \<open>One segment after the other, with nothing or one space between them.\<close>

fun tiles :: "str \<Rightarrow> nat \<Rightarrow> 's span_segment list \<Rightarrow> bool" where
  "tiles sql pos [] \<longleftrightarrow> pos = length sql"
| "tiles sql pos (seg # segs) \<longleftrightarrow>
     (span_start (sg_sql_span seg) = pos \<or> span_start (sg_sql_span seg) = Suc pos \<and> sql ! pos = CHR '' '')
     \<and> span_start (sg_sql_span seg) \<le> span_end (sg_sql_span seg) \<and> span_end (sg_sql_span seg) \<le> length sql
     \<and> tiles sql (span_end (sg_sql_span seg)) segs"

lemma tiles_extend:
  assumes "tiles sql pos segs" "s = length sql \<and> gap = [] \<or> s = Suc (length sql) \<and> gap = '' ''"
  shows "tiles (sql @ gap @ txt) pos (segs @ [\<lparr>sg_sql_span = span_new s (length (sql @ gap @ txt)), sg_token_span = t\<rparr>])"
  using assms
proof (induction segs arbitrary: pos)
  case (Cons seg segs)
  then show ?case by (auto simp: nth_append)
qed (auto simp: span_new_def nth_append)

lemma push_piece_tiles:
  assumes "push_piece J txt span kind b = Inr b'" "tiles (sb_sql b) 0 (sb_segments b)"
  shows "tiles (sb_sql b') 0 (sb_segments b')"
proof -
  let ?gap = "if needs_space (sb_previous_kind b) kind then '' '' else []"
  have "sb_sql b' = sb_sql b @ ?gap @ txt"
    "sb_segments b' = sb_segments b @ [\<lparr>sg_sql_span = span_new (length (sb_sql b @ ?gap)) (length (sb_sql b @ ?gap @ txt)), sg_token_span = span\<rparr>]"
    using assms(1) by (auto simp: push_piece_def Let_def bindr_eq_Inr_iff public_to_u32_def split: if_splits)
  then show ?thesis using tiles_extend [OF assms(2), of "length (sb_sql b @ ?gap)" ?gap "txt" span] by (simp split: if_splits)
qed

lemma push_literal_tiles: "push_literal J txt lit span b = Inr b' \<Longrightarrow> tiles (sb_sql b) 0 (sb_segments b) \<Longrightarrow> tiles (sb_sql b') 0 (sb_segments b')"
  by (auto simp: push_literal_def bindr_eq_Inr_iff split: sum.splits token_lit.splits intro: push_piece_tiles)

lemma push_punct_tiles:
  "push_punct J c span tokens b = Inr (b', rest) \<Longrightarrow> tiles (sb_sql b) 0 (sb_segments b) \<Longrightarrow> tiles (sb_sql b') 0 (sb_segments b')"
  by (auto simp: push_punct_def Let_def bindr_eq_Inr_iff intro: push_piece_tiles
      split: if_splits list.splits token_tree.splits option.splits char.splits bool.splits)

lemma push_stream_tiles:
  shows "push_stream J tokens b = Inr b' \<Longrightarrow> tiles (sb_sql b) 0 (sb_segments b) \<Longrightarrow> tiles (sb_sql b') 0 (sb_segments b')"
    and "push_group J d inner opened closed_at whole suffix b = Inr b' \<Longrightarrow> tiles (sb_sql b) 0 (sb_segments b) \<Longrightarrow>
      tiles (sb_sql b') 0 (sb_segments b')"
proof (induction J tokens b and J d inner opened closed_at whole suffix b arbitrary: b' and b' rule: push_stream_push_group.induct)
  case (2 J d inner opened closed_at whole tokens b)
  then show ?case by (auto simp: bindr_eq_Inr_iff split: prod.splits)
next
  case (5 J c span tokens b)
  then obtain b1 rest where p: "push_punct J c span tokens b = Inr (b1, rest)" "push_stream J rest b1 = Inr b'"
    by (auto simp: bindr_eq_Inr_iff)
  from "5.IH" [OF p(1) refl p(2)] push_punct_tiles [OF p(1)] "5.prems"(2) show ?case by simp
next
  case (6 J d inner opened closed_at whole suffix b)
  then show ?case by (fastforce simp: bindr_eq_Inr_iff split: delimiter.splits option.splits dest: push_piece_tiles)
qed (auto simp: bindr_eq_Inr_iff dest: push_piece_tiles push_literal_tiles push_punct_tiles)

lemma tiles_start: "tiles sql pos segs \<Longrightarrow> seg \<in> set segs \<Longrightarrow> pos \<le> span_start (sg_sql_span seg)"
  by (induction segs arbitrary: pos) fastforce+

lemma tiles_hit:
  assumes "tiles sql pos segs" "k < length segs" "span_start (sg_sql_span (segs ! k)) \<le> a" "a < b" "b \<le> span_end (sg_sql_span (segs ! k))"
  shows "filter (touches a b) segs = [segs ! k]"
  using assms
proof (induction segs arbitrary: pos k)
  case (Cons seg segs)
  show ?case
  proof (cases k)
    case 0
    have "\<not> touches a b s" if "s \<in> set segs" for s
      using tiles_start [OF _ that, of sql "span_end (sg_sql_span seg)"] Cons.prems 0 by (auto simp: touches_def)
    with Cons.prems 0 show ?thesis by (auto simp: touches_def filter_empty_conv)
  next
    case (Suc j)
    have "segs ! j \<in> set segs" using Cons.prems(2) Suc by simp
    with tiles_start [of sql "span_end (sg_sql_span seg)" segs] Cons.prems Suc have "\<not> touches a b seg"
      by (fastforce simp: touches_def)
    with Cons.IH [of "span_end (sg_sql_span seg)" j] Cons.prems Suc show ?thesis by simp
  qed
qed simp

section \<open>Properties\<close>


definition demo_ops :: "nat span_ops" where
  "demo_ops = \<lparr>so_join = (\<lambda>a b. Some (min a b)), so_call_site = 0\<rparr>"

text \<open>The tokens of \<open>a >= $x? = "it's"\<close>.\<close>

definition demo_tokens :: "nat token_tree list" where
  "demo_tokens =
     [TtIdent ''a'' 1, TtPunct (CHR ''>'') 2, TtPunct (CHR ''='') 3, TtPunct (CHR ''$'') 4, TtIdent ''x'' 5, TtPunct (CHR ''?'') 6,
      TtPunct (CHR ''='') 7, TtLiteral [] (Inr (LitStr (''it'' @ [squote] @ ''s''))) 8]"

definition demo_segments :: "nat span_segment list" where
  "demo_segments =
     [\<lparr>sg_sql_span = span_new 0 1, sg_token_span = 1\<rparr>, \<lparr>sg_sql_span = span_new 1 3, sg_token_span = 2\<rparr>, \<lparr>sg_sql_span = span_new 3 6, sg_token_span = 4\<rparr>, \<lparr>sg_sql_span = span_new 7 8, sg_token_span = 7\<rparr>, \<lparr>sg_sql_span = span_new 9 16, sg_token_span = 8\<rparr>]"

definition demo_sql :: str where
  "demo_sql = ''a>=$x? = '' @ [squote] @ ''it'' @ [squote, squote] @ ''s'' @ [squote]"

lemma demo_stream:
  "push_stream demo_ops demo_tokens sb_new = Inr \<lparr>sb_sql = demo_sql, sb_segments = demo_segments, sb_previous_kind = Some PkWord\<rparr>"
  by code_simp

lemma demo_parse: "\<exists>cs. public_sql_parse demo_ops demo_tokens = Inr \<lparr>pq_source = from_canonicalized demo_sql cs, pq_segments = demo_segments\<rparr>"
proof -
  have "\<not> isl (canonicalize_parts demo_sql)" "trim demo_sql \<noteq> []" by code_simp+
  moreover have "parse_literal_sql demo_tokens = Inr None" by code_simp
  ultimately show ?thesis
    by (cases "canonicalize_parts demo_sql") (auto simp: public_sql_parse_def demo_stream into_input_def)
qed


text \<open>A question mark after a group without delimiters, as macros produce them, is dropped.\<close>

lemma optional_mark_dropped:
  "push_stream demo_ops [TtGroup NoneDelim [TtPunct (CHR ''$'') 1, TtIdent ''x'' 2] 0 0 0, TtPunct (CHR ''?'') 3] sb_new
   = push_stream demo_ops [TtPunct (CHR ''$'') 1, TtIdent ''x'' 2] sb_new"
  by code_simp

end
