(* ===== verification/Sql_Macro.thy ===== *)
theory Sql_Macro
  imports Fragment Typed_Source
begin

text \<open>
  The macro \<open>sql!\<close> (\<open>macros/src/lib.rs\<close>): SQL text with named placeholders and bindings of the names to codec
  expressions or nested \<open>sql!\<close> calls becomes SQL text with numbered placeholders and a list of codec
  expressions. The expressions are the syntax trees of the crate \<open>syn\<close>, given by a datatype with the constructors
  the source reads; what \<open>syn\<close> makes of the tokens of a nested call is part of the tree. Names are scanned with
  the same character classes as in \<open>source.rs\<close>. \<^const>\<open>None\<close> is a panic of the macro.
\<close>

section \<open>Input\<close>

datatype rust_expr =
    XPath "str list"
  | XTuple "rust_expr list"
  | XCall rust_expr "rust_expr list"
  | XParen rust_expr
  | XGroup rust_expr
  | XMacro "str list" "str + sql_input"
  | XOther
and sql_input = SqlInput str "(str \<times> rust_expr) list"

type_synonym sql_bindings = "(str \<times> rust_expr) list"
type_synonym 'a compiled = "(str + 'a) option"

record compiled_sql =
  cq_sql :: str
  cq_codecs :: "rust_expr list"

definition cbind :: "'a compiled \<Rightarrow> ('a \<Rightarrow> 'b compiled) \<Rightarrow> 'b compiled" where
  "cbind m f = (case m of None \<Rightarrow> None | Some (Inl e) \<Rightarrow> Some (Inl e) | Some (Inr a) \<Rightarrow> f a)"

lemma cbind_cong [fundef_cong]: "m = m' \<Longrightarrow> (\<And>a. m' = Some (Inr a) \<Longrightarrow> f a = g a) \<Longrightarrow> cbind m f = cbind m' g"
  by (auto simp: cbind_def split: option.splits sum.splits)

lemma cbind_simps [simp]: "cbind (Some (Inr a)) f = f a" "cbind (Some (Inl e)) f = Some (Inl e)" "cbind None f = None"
  by (simp_all add: cbind_def)

section \<open>Compilation\<close>

definition path_ends_with_sql :: "str list \<Rightarrow> bool" where
  "path_ends_with_sql path \<longleftrightarrow> path \<noteq> [] \<and> last path = ''sql''"

definition nested_sql :: "rust_expr \<Rightarrow> str + sql_input option" where
  "nested_sql e =
     (case e of
        XMacro path parsed \<Rightarrow> if path_ends_with_sql path then map_sum id Some parsed else Inr None
      | _ \<Rightarrow> Inr None)"

definition renumber_into :: "str \<Rightarrow> nat \<Rightarrow> str \<Rightarrow> str option" where
  "renumber_into sql offset out = map_option ((@) out) (if offset = 0 then Some sql else renumber_loop offset sql)"

record compile_state =
  cp_sql :: str
  cp_codecs :: "rust_expr list"
  cp_slots :: "str \<rightharpoonup> nat"
  cp_used :: "str set"

definition cp_new :: compile_state where
  "cp_new = \<lparr>cp_sql = [], cp_codecs = [], cp_slots = Map.empty, cp_used = {}\<rparr>"

definition push_slot :: "str \<Rightarrow> rust_expr \<Rightarrow> compile_state \<Rightarrow> compile_state" where
  "push_slot name e st =
     (let st1 = (if cp_slots st name = None
                 then st\<lparr>cp_codecs := cp_codecs st @ [e], cp_slots := (cp_slots st)(name \<mapsto> Suc (length (cp_codecs st)))\<rparr>
                 else st) in
      st1\<lparr>cp_sql := cp_sql st1 @ ''$'' @ show_nat (the (cp_slots st1 name))\<rparr>)"

fun duplicate_binding :: "str list \<Rightarrow> sql_bindings \<Rightarrow> str option" where
  "duplicate_binding seen [] = None"
| "duplicate_binding seen ((name, e) # bs) = (if name \<in> set seen then Some name else duplicate_binding (name # seen) bs)"

definition unused_binding :: "str set \<Rightarrow> sql_bindings \<Rightarrow> str option" where
  "unused_binding used bs = map_option fst (find (\<lambda>b. fst b \<notin> used) bs)"

lemma nested_sql_size: "nested_sql e = Inr (Some i) \<Longrightarrow> size i < size e"
  by (auto simp: nested_sql_def map_sum_def split: rust_expr.splits if_splits sum.splits)

lemma bound_size: "map_of bs name = Some e \<Longrightarrow> size e \<le> size_list (\<lambda>b. size (snd b)) bs"
  by (induction bs) (auto split: if_splits)

lemma input_size: "size_list (\<lambda>b. size (snd b)) bs < size (SqlInput sql bs)"
  by (induction bs) auto

lemma nested_size: "map_of bs name = Some e \<Longrightarrow> nested_sql e = Inr (Some i) \<Longrightarrow> size i < size_list (\<lambda>b. size (snd b)) bs"
  using nested_sql_size bound_size by fastforce

function compile_input :: "sql_input \<Rightarrow> compiled_sql compiled"
  and compile_loop :: "sql_bindings \<Rightarrow> str \<Rightarrow> compile_state \<Rightarrow> compile_state compiled" where
  "compile_input (SqlInput sql bs) =
     (case duplicate_binding [] bs of
        Some name \<Rightarrow> Some (Inl (''duplicate sql! binding `'' @ name @ ''`''))
      | None \<Rightarrow>
          cbind (compile_loop bs sql cp_new) (\<lambda>st.
          case unused_binding (cp_used st) bs of
            Some name \<Rightarrow> Some (Inl (''sql! binding `'' @ name @ ''` is unused''))
          | None \<Rightarrow> Some (Inr \<lparr>cq_sql = cp_sql st, cq_codecs = cp_codecs st\<rparr>)))"
| "compile_loop bs [] st = Some (Inr st)"
| "compile_loop bs (c # cs) st =
     (if c = CHR ''$'' \<and> cs \<noteq> [] \<and> is_ident_start (hd cs)
      then
        (let name = takeWhile is_ident_continue cs; rest = dropWhile is_ident_continue cs in
         case map_of bs name of
           None \<Rightarrow> Some (Inl (''sql! placeholder `$'' @ name @ ''` has no binding''))
         | Some e \<Rightarrow>
             (let st1 = st\<lparr>cp_used := insert name (cp_used st)\<rparr> in
              case nested_sql e of
                Inl message \<Rightarrow> Some (Inl message)
              | Inr None \<Rightarrow> compile_loop bs rest (push_slot name e st1)
              | Inr (Some nested) \<Rightarrow>
                  cbind (compile_input nested) (\<lambda>c.
                  case renumber_into (cq_sql c) (length (cp_codecs st1)) (cp_sql st1) of
                    None \<Rightarrow> None
                  | Some out \<Rightarrow> compile_loop bs rest (st1\<lparr>cp_sql := out, cp_codecs := cp_codecs st1 @ cq_codecs c\<rparr>))))
      else compile_loop bs cs (st\<lparr>cp_sql := cp_sql st @ [c]\<rparr>))"
  by pat_completeness auto
termination
proof (relation "measures [case_sum size (\<lambda>(bs, s, st). size_list (\<lambda>b. size (snd b)) bs), case_sum (\<lambda>_. 0) (\<lambda>(bs, s, st). length s)]",
    goal_cases)
  case (2 sql bs)
  then show ?case using input_size by simp
next
  case (4 bs c cs st name rest e st1 x nested)
  then show ?case using nested_size [of bs _ e nested] by auto
qed (auto simp: le_imp_less_Suc length_dropWhile_le)

section \<open>Meaning\<close>

text \<open>
  A statement as characters and parameters. What a call of the macro means: its text with every name replaced
  by the codec expression bound to it, or by the meaning of the nested call.
\<close>

function sql_meaning :: "sql_input \<Rightarrow> (char + rust_expr) list"
  and text_meaning :: "sql_bindings \<Rightarrow> str \<Rightarrow> (char + rust_expr) list" where
  "sql_meaning (SqlInput sql bs) = text_meaning bs sql"
| "text_meaning bs [] = []"
| "text_meaning bs (c # cs) =
     (if c = CHR ''$'' \<and> cs \<noteq> [] \<and> is_ident_start (hd cs)
      then
        (case map_of bs (takeWhile is_ident_continue cs) of
           None \<Rightarrow> []
         | Some e \<Rightarrow> (case nested_sql e of Inr (Some nested) \<Rightarrow> sql_meaning nested | _ \<Rightarrow> [Inr e]))
        @ text_meaning bs (dropWhile is_ident_continue cs)
      else Inl c # text_meaning bs cs)"
  by pat_completeness auto
termination
proof (relation "measures [case_sum size (\<lambda>(bs, s). size_list (\<lambda>b. size (snd b)) bs), case_sum (\<lambda>_. 0) (\<lambda>(bs, s). length s)]",
    goal_cases)
  case (2 sql bs)
  then show ?case using input_size by simp
next
  case (3 bs c cs e x nested)
  then show ?case using nested_size [of bs _ e nested] by auto
qed (auto simp: le_imp_less_Suc length_dropWhile_le)

function text_names :: "str \<Rightarrow> str set" where
  "text_names [] = {}"
| "text_names (c # cs) =
     (if c = CHR ''$'' \<and> cs \<noteq> [] \<and> is_ident_start (hd cs)
      then insert (takeWhile is_ident_continue cs) (text_names (dropWhile is_ident_continue cs))
      else text_names cs)"
  by pat_completeness auto
termination by (relation "measure length") (auto simp: le_imp_less_Suc length_dropWhile_le)

text \<open>The calls without an error: names bound once, all of them used, and every name of the text bound.\<close>

function well_bound :: "sql_input \<Rightarrow> bool"
  and text_bound :: "sql_bindings \<Rightarrow> str \<Rightarrow> bool" where
  "well_bound (SqlInput sql bs) \<longleftrightarrow> distinct (map fst bs) \<and> text_bound bs sql \<and> fst ` set bs \<subseteq> text_names sql"
| "text_bound bs [] \<longleftrightarrow> True"
| "text_bound bs (c # cs) \<longleftrightarrow>
     (if c = CHR ''$'' \<and> cs \<noteq> [] \<and> is_ident_start (hd cs)
      then
        (case map_of bs (takeWhile is_ident_continue cs) of
           None \<Rightarrow> False
         | Some e \<Rightarrow> (case nested_sql e of Inl _ \<Rightarrow> False | Inr None \<Rightarrow> True | Inr (Some nested) \<Rightarrow> well_bound nested))
        \<and> text_bound bs (dropWhile is_ident_continue cs)
      else text_bound bs cs)"
  by pat_completeness auto
termination
proof (relation "measures [case_sum size (\<lambda>(bs, s). size_list (\<lambda>b. size (snd b)) bs), case_sum (\<lambda>_. 0) (\<lambda>(bs, s). length s)]",
    goal_cases)
  case (2 sql bs)
  then show ?case using input_size by simp
next
  case (3 bs c cs e x nested)
  then show ?case using nested_size [of bs _ e nested] by auto
qed (auto simp: le_imp_less_Suc length_dropWhile_le)

section \<open>Texts with numbered placeholders\<close>

fun print_tokens :: "(char + nat) list \<Rightarrow> str" where
  "print_tokens [] = []"
| "print_tokens (Inl c # ts) = c # print_tokens ts"
| "print_tokens (Inr n # ts) = CHR ''$'' # show_nat n @ print_tokens ts"

text \<open>The placeholders as the server reads them.\<close>

function read_tokens :: "str \<Rightarrow> (char + nat) list" where
  "read_tokens [] = []"
| "read_tokens (c # cs) =
     (if c = CHR ''$'' \<and> starts_digit cs
      then Inr (projr (parse_usize (takeWhile is_ascii_digit cs))) # read_tokens (dropWhile is_ascii_digit cs)
      else Inl c # read_tokens cs)"
  by pat_completeness auto
termination by (relation "measure length") (auto simp: le_imp_less_Suc length_dropWhile_le)

definition digit_next :: "(char + 'a) list \<Rightarrow> bool" where
  "digit_next ts = (case ts of Inl c # _ \<Rightarrow> is_ascii_digit c | _ \<Rightarrow> False)"

fun clean_tokens :: "(char + 'a) list \<Rightarrow> bool" where
  "clean_tokens [] = True"
| "clean_tokens (Inl c # ts) \<longleftrightarrow> (of_char c :: nat) < 128 \<and> (c = CHR ''$'' \<longrightarrow> \<not> digit_next ts) \<and> clean_tokens ts"
| "clean_tokens (Inr a # ts) \<longleftrightarrow> \<not> digit_next ts \<and> clean_tokens ts"

lemma digit_next_simps [simp]: "digit_next [] = False" "digit_next (Inl c # ts) = is_ascii_digit c" "digit_next (Inr a # ts) = False"
  by (simp_all add: digit_next_def)

lemma digit_next_map [simp]: "digit_next (map (map_sum (\<lambda>c. c) f) ts) = digit_next ts"
  by (cases ts rule: clean_tokens.cases) auto

lemma clean_tokens_map [simp]: "clean_tokens (map (map_sum (\<lambda>c. c) f) ts) = clean_tokens ts"
  by (induction ts rule: clean_tokens.induct) auto

lemma clean_tokens_append: "clean_tokens (ts @ us) \<Longrightarrow> clean_tokens ts \<and> clean_tokens us"
proof (induction ts rule: clean_tokens.induct)
  case (2 c ts) then show ?case by (cases ts rule: clean_tokens.cases) auto
next
  case (3 a ts) then show ?case by (cases ts rule: clean_tokens.cases) auto
qed auto

lemma print_tokens_append: "print_tokens (ts @ us) = print_tokens ts @ print_tokens us"
  by (induction ts rule: print_tokens.induct) auto

lemma starts_digit_print: "starts_digit (print_tokens ts) = digit_next ts"
  by (cases ts rule: print_tokens.cases) (auto simp: starts_digit_def is_ascii_digit_def)

lemma renumber_print:
  "clean_tokens ts \<Longrightarrow> (\<And>n. Inr n \<in> set ts \<Longrightarrow> n + offset < 2 ^ 64) \<Longrightarrow>
   renumber_loop offset (print_tokens ts) = Some (print_tokens (map (map_sum (\<lambda>c. c) (\<lambda>n. n + offset)) ts))"
proof (induction ts rule: print_tokens.induct)
  case (2 c ts)
  then have "text_clean [c] (print_tokens ts)" by (simp add: starts_digit_print)
  from renumber_text [OF this, of offset] 2 show ?case by simp
next
  case (3 n ts)
  then have "\<not> starts_digit (print_tokens ts)" by (simp add: starts_digit_print)
  with 3 show ?case by (simp add: renumber_slot)
qed simp

lemma read_print:
  "clean_tokens ts \<Longrightarrow> (\<And>n. Inr n \<in> set ts \<Longrightarrow> n < 2 ^ 64) \<Longrightarrow> read_tokens (print_tokens ts) = ts"
proof (induction ts rule: print_tokens.induct)
  case (2 c ts)
  then show ?case by (auto simp: starts_digit_print)
next
  case (3 n ts)
  then have "\<not> starts_digit (print_tokens ts)" by (simp add: starts_digit_print)
  moreover have "starts_digit (show_nat n @ print_tokens ts)"
    using show_nat_ascii_digits [of "hd (show_nat n)" n] by (simp add: starts_digit_def)
  ultimately show ?case using 3 by (simp add: digits_of_slot parse_usize_show)
qed simp

section \<open>The compiler\<close>

text \<open>A text and its codecs stand for the tokens of a statement, and every codec has a placeholder.\<close>

definition slot_numbers :: "(char + nat) list \<Rightarrow> nat set" where
  "slot_numbers ts = {n. Inr n \<in> set ts}"

definition resolve_slots :: "rust_expr list \<Rightarrow> (char + nat) list \<Rightarrow> (char + rust_expr) list" where
  "resolve_slots codecs = map (map_sum (\<lambda>c. c) (\<lambda>n. codecs ! (n - 1)))"

definition stands_for :: "str \<Rightarrow> rust_expr list \<Rightarrow> (char + rust_expr) list \<Rightarrow> bool" where
  "stands_for sql codecs ms \<longleftrightarrow>
     (\<exists>ts. sql = print_tokens ts \<and> resolve_slots codecs ts = ms \<and> slot_numbers ts = {1..length codecs})"

lemma slot_numbers_simps [simp]:
  "slot_numbers [] = {}" "slot_numbers (Inl c # ts) = slot_numbers ts" "slot_numbers (Inr n # ts) = insert n (slot_numbers ts)"
  "slot_numbers (ts @ us) = slot_numbers ts \<union> slot_numbers us"
  by (auto simp: slot_numbers_def)

lemma slot_numbers_shift: "slot_numbers (map (map_sum (\<lambda>c. c) (\<lambda>n. n + k)) ts) = (\<lambda>n. n + k) ` slot_numbers ts"
proof (induction ts)
  case (Cons t ts) then show ?case by (cases t) auto
qed simp

lemma resolve_slots_append: "resolve_slots codecs (ts @ us) = resolve_slots codecs ts @ resolve_slots codecs us"
  by (simp add: resolve_slots_def)

lemma resolve_slots_more:
  "slot_numbers ts \<subseteq> {1..length codecs} \<Longrightarrow> resolve_slots (codecs @ cs) ts = resolve_slots codecs ts"
proof (induction ts)
  case (Cons t ts)
  then show ?case by (cases t) (auto simp: resolve_slots_def nth_append)
qed (simp add: resolve_slots_def)

lemma resolve_slots_shift:
  "slot_numbers ts \<subseteq> {1..length codecs} \<Longrightarrow>
   resolve_slots (cs @ codecs) (map (map_sum (\<lambda>c. c) (\<lambda>n. n + length cs)) ts) = resolve_slots codecs ts"
proof (induction ts)
  case (Cons t ts)
  then show ?case by (cases t) (auto simp: resolve_slots_def nth_append)
qed (simp add: resolve_slots_def)

lemma stands_for_count: "stands_for sql codecs ms \<Longrightarrow> length codecs \<le> length ms"
proof -
  assume "stands_for sql codecs ms"
  then obtain ts where ts: "resolve_slots codecs ts = ms" "slot_numbers ts = {1..length codecs}" by (auto simp: stands_for_def)
  have "slot_numbers ts = projr ` {t \<in> set ts. \<not> isl t}" by (force simp: slot_numbers_def)
  then have "card (slot_numbers ts) \<le> card {t \<in> set ts. \<not> isl t}" by (simp add: card_image_le)
  also have "\<dots> \<le> card (set ts)" by (rule card_mono) auto
  also have "\<dots> \<le> length ts" by (rule card_length)
  finally show ?thesis using ts by (auto simp: resolve_slots_def)
qed

lemma stands_for_char: "stands_for sql codecs ms \<Longrightarrow> stands_for (sql @ [c]) codecs (ms @ [Inl c])"
proof -
  assume "stands_for sql codecs ms"
  then obtain ts where "sql = print_tokens ts" "resolve_slots codecs ts = ms" "slot_numbers ts = {1..length codecs}"
    by (auto simp: stands_for_def)
  then show ?thesis unfolding stands_for_def
    by (intro exI [of _ "ts @ [Inl c]"]) (simp add: print_tokens_append resolve_slots_append, simp add: resolve_slots_def)
qed

lemma stands_for_slot:
  assumes "stands_for sql codecs ms" "n \<in> {1..length codecs}"
  shows "stands_for (sql @ ''$'' @ show_nat n) codecs (ms @ [Inr (codecs ! (n - 1))])"
proof -
  from assms(1) obtain ts where "sql = print_tokens ts" "resolve_slots codecs ts = ms" "slot_numbers ts = {1..length codecs}"
    by (auto simp: stands_for_def)
  with assms(2) show ?thesis unfolding stands_for_def
    by (intro exI [of _ "ts @ [Inr n]"] conjI)
      (simp_all only: print_tokens_append resolve_slots_append slot_numbers_simps, simp_all add: resolve_slots_def insert_absorb)
qed

lemma stands_for_new_slot:
  assumes "stands_for sql codecs ms"
  shows "stands_for (sql @ ''$'' @ show_nat (Suc (length codecs))) (codecs @ [e]) (ms @ [Inr e])"
proof -
  from assms obtain ts where ts: "sql = print_tokens ts" "resolve_slots codecs ts = ms" "slot_numbers ts = {1..length codecs}"
    by (auto simp: stands_for_def)
  then have "resolve_slots (codecs @ [e]) ts = ms" by (simp add: resolve_slots_more)
  with ts show ?thesis unfolding stands_for_def
    by (intro exI [of _ "ts @ [Inr (Suc (length codecs))]"])
      (auto simp: print_tokens_append resolve_slots_append, simp_all add: resolve_slots_def)
qed

lemma stands_for_nested:
  assumes "stands_for out codecs ms" "stands_for sql cs ns" "clean_tokens ns" "length ms + length ns < 2 ^ 64"
  shows "\<exists>out'. renumber_into sql (length codecs) out = Some out' \<and> stands_for out' (codecs @ cs) (ms @ ns)"
proof -
  obtain ts where ts: "out = print_tokens ts" "resolve_slots codecs ts = ms" "slot_numbers ts = {1..length codecs}"
    using assms(1) by (auto simp: stands_for_def)
  obtain us where us: "sql = print_tokens us" "resolve_slots cs us = ns" "slot_numbers us = {1..length cs}"
    using assms(2) by (auto simp: stands_for_def)
  let ?us = "map (map_sum (\<lambda>c. c) (\<lambda>n. n + length codecs)) us"
  have same: "map_sum (\<lambda>c. c) (\<lambda>n. n) = (\<lambda>t. t)" by (rule ext) (simp add: sum.map_ident)
  have "clean_tokens us" using assms(3) us(2) by (auto simp: resolve_slots_def)
  moreover have "n + length codecs < 2 ^ 64" if "Inr n \<in> set us" for n
  proof -
    have "n \<le> length cs" using that us(3) by (auto simp: slot_numbers_def)
    then show ?thesis using stands_for_count [OF assms(1)] stands_for_count [OF assms(2)] assms(4) by linarith
  qed
  ultimately have "renumber_into sql (length codecs) out = Some (print_tokens (ts @ ?us))"
    using renumber_print [of us "length codecs"] ts(1) us(1)
    by (auto simp: renumber_into_def print_tokens_append same)
  moreover have "resolve_slots (codecs @ cs) (ts @ ?us) = ms @ ns"
    using ts us by (simp add: resolve_slots_append resolve_slots_more resolve_slots_shift)
  moreover have "slot_numbers (ts @ ?us) = {1..length (codecs @ cs)}"
  proof -
    have "(\<lambda>n. n + length codecs) ` {1..length cs} = {1 + length codecs..length cs + length codecs}" by (simp add: image_add_atLeastAtMost)
    then show ?thesis using ts(3) us(3) by (auto simp: slot_numbers_shift)
  qed
  ultimately show ?thesis by (auto simp: stands_for_def)
qed

text \<open>What the loop keeps: a name that has a slot is resolved to its own codec.\<close>

definition loop_inv :: "sql_bindings \<Rightarrow> compile_state \<Rightarrow> (char + rust_expr) list \<Rightarrow> bool" where
  "loop_inv bs st ms \<longleftrightarrow> stands_for (cp_sql st) (cp_codecs st) ms
     \<and> (\<forall>name n. cp_slots st name = Some n \<longrightarrow>
          n \<in> {1..length (cp_codecs st)} \<and> map_of bs name = Some (cp_codecs st ! (n - 1)))"

lemma loop_inv_new: "loop_inv bs cp_new []"
  by (auto simp: loop_inv_def cp_new_def stands_for_def resolve_slots_def intro: exI [of _ "[]"])

lemma loop_inv_char: "loop_inv bs st ms \<Longrightarrow> loop_inv bs (st\<lparr>cp_sql := cp_sql st @ [c]\<rparr>) (ms @ [Inl c])"
  by (simp add: loop_inv_def stands_for_char)

lemma loop_inv_slot:
  assumes "loop_inv bs st ms" "map_of bs name = Some e"
  shows "loop_inv bs (push_slot name e (st\<lparr>cp_used := u\<rparr>)) (ms @ [Inr e])"
proof (cases "cp_slots st name")
  case None
  then show ?thesis using assms
    by (fastforce simp: loop_inv_def push_slot_def stands_for_new_slot [simplified] nth_append)
next
  case (Some n)
  with assms have "n \<in> {1..length (cp_codecs st)}" "e = cp_codecs st ! (n - 1)" by (auto simp: loop_inv_def)
  with Some assms stands_for_slot [of "cp_sql st" "cp_codecs st" ms n] show ?thesis
    by (simp add: loop_inv_def push_slot_def)
qed

lemma loop_inv_nested:
  assumes "loop_inv bs st ms" "stands_for out (cp_codecs st @ cs) (ms @ ns)"
  shows "loop_inv bs (st\<lparr>cp_used := u, cp_sql := out, cp_codecs := cp_codecs st @ cs\<rparr>) (ms @ ns)"
  using assms by (fastforce simp: loop_inv_def nth_append)

lemma duplicate_binding_None: "duplicate_binding seen bs = None \<longleftrightarrow> distinct (map fst bs) \<and> set seen \<inter> fst ` set bs = {}"
  by (induction seen bs rule: duplicate_binding.induct) auto

lemma unused_binding_None: "unused_binding used bs = None \<longleftrightarrow> fst ` set bs \<subseteq> used"
  by (auto simp: unused_binding_def find_None_iff)

lemma used_push_slot [simp]: "cp_used (push_slot name e st) = cp_used st"
  by (simp add: push_slot_def Let_def)

lemma compile_complete:
  shows "well_bound i \<Longrightarrow> clean_tokens (sql_meaning i) \<Longrightarrow> length (sql_meaning i) < 2 ^ 64 \<Longrightarrow>
      \<exists>c. compile_input i = Some (Inr c) \<and> stands_for (cq_sql c) (cq_codecs c) (sql_meaning i)"
    and "text_bound bs s \<Longrightarrow> loop_inv bs st ms \<Longrightarrow> clean_tokens (text_meaning bs s) \<Longrightarrow> length (ms @ text_meaning bs s) < 2 ^ 64 \<Longrightarrow>
      \<exists>st'. compile_loop bs s st = Some (Inr st') \<and> loop_inv bs st' (ms @ text_meaning bs s)
        \<and> cp_used st' = cp_used st \<union> text_names s"
proof (induction i and bs s st arbitrary: and ms rule: compile_input_compile_loop.induct)
  case (1 sql bs)
  then have none: "duplicate_binding [] bs = None" by (simp add: duplicate_binding_None)
  from 1 none obtain st' where "compile_loop bs sql cp_new = Some (Inr st')" "loop_inv bs st' (text_meaning bs sql)"
    "cp_used st' = text_names sql"
    using "1.IH" [of "[]"] loop_inv_new by (auto simp: cp_new_def)
  moreover have "fst ` set bs \<subseteq> text_names sql" using 1 by simp
  ultimately show ?case using none by (auto simp: loop_inv_def unused_binding_None [THEN iffD2])
next
  case (2 bs st)
  then show ?case by simp
next
  case (3 bs c cs st)
  show ?case
  proof (cases "c = CHR ''$'' \<and> cs \<noteq> [] \<and> is_ident_start (hd cs)")
    case False
    then have eqs: "compile_loop bs (c # cs) st = compile_loop bs cs (st\<lparr>cp_sql := cp_sql st @ [c]\<rparr>)"
      "text_meaning bs (c # cs) = Inl c # text_meaning bs cs" "text_names (c # cs) = text_names cs" "text_bound bs (c # cs) = text_bound bs cs"
      by (simp_all only: compile_loop.simps text_meaning.simps text_names.simps text_bound.simps if_False)
    from "3.prems" "3.IH"(4) [OF False _ loop_inv_char [OF "3.prems"(2)]] show ?thesis unfolding eqs by simp
  next
    case True
    let ?name = "takeWhile is_ident_continue cs" and ?rest = "dropWhile is_ident_continue cs"
    from True "3.prems"(1) obtain e where e: "map_of bs ?name = Some e" by (auto split: option.splits)
    from True "3.prems"(1) have rest: "text_bound bs ?rest" by (auto split: option.splits)
    let ?st = "st\<lparr>cp_used := insert ?name (cp_used st)\<rparr>"
    show ?thesis
    proof (cases "nested_sql e")
      case (Inl m)
      with True e "3.prems"(1) show ?thesis by simp
    next
      case (Inr opt)
      show ?thesis
      proof (cases opt)
        case None
        with True e Inr have m: "text_meaning bs (c # cs) = [Inr e] @ text_meaning bs ?rest" by simp
        with "3.prems" have "clean_tokens (text_meaning bs ?rest)" "length ((ms @ [Inr e]) @ text_meaning bs ?rest) < 2 ^ 64" by auto
        from "3.IH"(1) [OF True refl refl e refl Inr None rest loop_inv_slot [OF "3.prems"(2) e] this] m True e Inr None
        show ?thesis by auto
      next
        case (Some nested)
        let ?ns = "sql_meaning nested"
        have m: "text_meaning bs (c # cs) = ?ns @ text_meaning bs ?rest" using True e Inr Some by simp
        have clean: "clean_tokens ?ns" "clean_tokens (text_meaning bs ?rest)"
          using "3.prems"(3) clean_tokens_append unfolding m by blast+
        have len: "length ms + length ?ns + length (text_meaning bs ?rest) < 2 ^ 64" using "3.prems"(4) unfolding m by simp
        have "well_bound nested" using True e Inr Some "3.prems"(1) by simp
        moreover have "length ?ns < 2 ^ 64" using len by linarith
        ultimately obtain q where q: "compile_input nested = Some (Inr q)" "stands_for (cq_sql q) (cq_codecs q) ?ns"
          using "3.IH"(2) [OF True refl refl e refl Inr Some _ clean(1)] by blast
        have "length ms + length ?ns < 2 ^ 64" using len by linarith
        moreover have "stands_for (cp_sql st) (cp_codecs st) ms" using "3.prems"(2) by (simp add: loop_inv_def)
        ultimately obtain out where out: "renumber_into (cq_sql q) (length (cp_codecs st)) (cp_sql st) = Some out"
          "stands_for out (cp_codecs st @ cq_codecs q) (ms @ ?ns)"
          using stands_for_nested [OF _ q(2) clean(1)] by blast
        from loop_inv_nested [OF "3.prems"(2) out(2)]
        have inv: "loop_inv bs (?st\<lparr>cp_sql := out, cp_codecs := cp_codecs ?st @ cq_codecs q\<rparr>) (ms @ ?ns)" by simp
        have len': "length ((ms @ ?ns) @ text_meaning bs ?rest) < 2 ^ 64" using len by simp
        have out': "renumber_into (cq_sql q) (length (cp_codecs ?st)) (cp_sql ?st) = Some out" using out by simp
        from "3.IH"(3) [OF True refl refl e refl Inr Some q(1) out' rest inv clean(2) len'] m True e Inr Some q(1) out(1)
        show ?thesis by auto
      qed
    qed
  qed
qed

lemma compile_sound:
  shows "compile_input i = Some (Inr c) \<Longrightarrow> well_bound i"
    and "compile_loop bs s st = Some (Inr st') \<Longrightarrow> text_bound bs s \<and> cp_used st' = cp_used st \<union> text_names s"
proof (induction i and bs s st arbitrary: c and st' rule: compile_input_compile_loop.induct)
  case (1 sql bs)
  from "1.prems" obtain st where st: "duplicate_binding [] bs = None" "compile_loop bs sql cp_new = Some (Inr st)"
    "unused_binding (cp_used st) bs = None"
    by (auto simp: cbind_def split: option.splits sum.splits)
  from "1.IH" [OF st(1,2)] st(1,3) show ?case by (auto simp: duplicate_binding_None unused_binding_None cp_new_def)
next
  case (3 bs c cs st)
  show ?case
  proof (cases "c = CHR ''$'' \<and> cs \<noteq> [] \<and> is_ident_start (hd cs)")
    case False
    then have eqs: "compile_loop bs (c # cs) st = compile_loop bs cs (st\<lparr>cp_sql := cp_sql st @ [c]\<rparr>)"
      "text_names (c # cs) = text_names cs" "text_bound bs (c # cs) = text_bound bs cs"
      by (simp_all only: compile_loop.simps text_names.simps text_bound.simps if_False)
    from "3.IH"(4) [OF False "3.prems" [unfolded eqs]] show ?thesis unfolding eqs by simp
  next
    case True
    let ?name = "takeWhile is_ident_continue cs" and ?rest = "dropWhile is_ident_continue cs"
    from True "3.prems" obtain e where e: "map_of bs ?name = Some e" by (cases "map_of bs ?name") simp_all
    from True e have eqs: "text_names (c # cs) = insert ?name (text_names ?rest)"
      "text_bound bs (c # cs) \<longleftrightarrow> (case nested_sql e of Inl _ \<Rightarrow> False | Inr None \<Rightarrow> True | Inr (Some nested) \<Rightarrow> well_bound nested) \<and> text_bound bs ?rest"
      by simp_all
    let ?st = "st\<lparr>cp_used := insert ?name (cp_used st)\<rparr>"
    from True e "3.prems" obtain opt where opt: "nested_sql e = Inr opt" by (cases "nested_sql e") auto
    show ?thesis
    proof (cases opt)
      case None
      with True e opt "3.prems" have "compile_loop bs ?rest (push_slot ?name e ?st) = Some (Inr st')" by (simp add: Let_def)
      with "3.IH"(1) [OF True refl refl e refl opt None] show ?thesis unfolding eqs by (auto simp: opt None)
    next
      case (Some nested)
      with True e opt "3.prems" obtain q out where q: "compile_input nested = Some (Inr q)"
        "renumber_into (cq_sql q) (length (cp_codecs ?st)) (cp_sql ?st) = Some out"
        "compile_loop bs ?rest (?st\<lparr>cp_sql := out, cp_codecs := cp_codecs ?st @ cq_codecs q\<rparr>) = Some (Inr st')"
        by (auto simp: cbind_def Let_def split: option.splits sum.splits)
      with "3.IH"(2) [OF True refl refl e refl opt Some q(1)] "3.IH"(3) [OF True refl refl e refl opt Some q]
      show ?thesis unfolding eqs by (auto simp: opt Some)
    qed
  qed
qed simp

section \<open>Properties\<close>

text \<open>
  C38. The macro \<open>sql!\<close> keeps the meaning of its input. A call is accepted exactly when its names are bound once,
  used, and known; the text it produces, with each numbered placeholder read as the codec at that position, is
  the given text with every name replaced by its binding and every nested call by its meaning; and every codec
  has a placeholder. The texts are ASCII and have no digit right after a dollar sign or a placeholder.
\<close>

theorem compile_input_correct:
  assumes "clean_tokens (sql_meaning i)" and "length (sql_meaning i) < 2 ^ 64"
  shows "((\<exists>c. compile_input i = Some (Inr c)) \<longleftrightarrow> well_bound i)
    \<and> (\<forall>c. compile_input i = Some (Inr c) \<longrightarrow>
          map (map_sum (\<lambda>a. a) (\<lambda>n. cq_codecs c ! (n - 1))) (read_tokens (cq_sql c)) = sql_meaning i
          \<and> {n. Inr n \<in> set (read_tokens (cq_sql c))} = {1..length (cq_codecs c)})"
proof -
  have stands: "stands_for (cq_sql c) (cq_codecs c) (sql_meaning i)" if "compile_input i = Some (Inr c)" for c
    using compile_complete(1) [OF compile_sound(1) [OF that] assms] that by auto
  have "map (map_sum (\<lambda>a. a) (\<lambda>n. codecs ! (n - 1))) (read_tokens sql) = sql_meaning i
      \<and> {n. Inr n \<in> set (read_tokens sql)} = {1..length codecs}" if s: "stands_for sql codecs (sql_meaning i)" for sql codecs
  proof -
    from s obtain ts where ts: "sql = print_tokens ts" "resolve_slots codecs ts = sql_meaning i" "slot_numbers ts = {1..length codecs}"
      by (auto simp: stands_for_def)
    have "clean_tokens ts" using assms(1) ts(2) by (metis resolve_slots_def clean_tokens_map)
    moreover have "n < 2 ^ 64" if "Inr n \<in> set ts" for n
    proof -
      have "n \<le> length codecs" using that ts(3) by (auto simp: slot_numbers_def)
      then show ?thesis using stands_for_count [OF s] assms(2) by linarith
    qed
    ultimately have "read_tokens sql = ts" unfolding ts(1) by (rule read_print)
    with ts show ?thesis by (simp add: resolve_slots_def slot_numbers_def)
  qed
  then show ?thesis using stands compile_sound(1) compile_complete(1) [OF _ assms] by blast
qed

definition example_call :: sql_input where
  "example_call = SqlInput ''a=$x AND $f AND b=$x''
     [(''x'', XPath [''int4'']), (''f'', XMacro [''babar'', ''sql''] (Inr (SqlInput ''c=$y OR d=$z'' [(''y'', XPath [''text'']), (''z'', XPath [''bool''])])))]"

theorem compile_input_correct_witness:
  "clean_tokens (sql_meaning example_call) \<and> length (sql_meaning example_call) < 2 ^ 64
   \<and> (\<exists>c. compile_input example_call = Some (Inr c)
        \<and> map (map_sum (\<lambda>a. a) (\<lambda>n. cq_codecs c ! (n - 1))) (read_tokens (cq_sql c)) = sql_meaning example_call
        \<and> {n. Inr n \<in> set (read_tokens (cq_sql c))} = {1..length (cq_codecs c)})"
proof -
  have clean: "clean_tokens (sql_meaning example_call)" by code_simp
  have "length (sql_meaning example_call) < 100" by code_simp
  then have len: "length (sql_meaning example_call) < 2 ^ 64" by simp
  have "well_bound example_call" by code_simp
  with compile_input_correct [OF clean len] clean len show ?thesis by blast
qed

section \<open>Deviations\<close>

text \<open>
  Nested text is pasted as it is: after a placeholder a text that begins with a digit changes the number of the
  placeholder, and the bytes of longer characters become characters of their own when there is a parameter before.
\<close>

lemma nested_text_changes_number:
  "map_option (map_sum id cq_sql)
     (compile_input (SqlInput ''$x$f'' [(''x'', XPath [''int4'']), (''f'', XMacro [''sql''] (Inr (SqlInput ''0'' [])))]))
   = Some (Inr ''$10'')"
  by code_simp

lemma nested_text_corrupted:
  "map_option (map_sum id cq_sql)
     (compile_input (SqlInput ''$x $f'' [(''x'', XPath [''int4'']), (''f'', XMacro [''sql''] (Inr (SqlInput [char_of (195 :: nat), char_of (169 :: nat)] [])))]))
   = Some (Inr (''$1 '' @ map char_of [195, 131, 194, 169 :: nat]))"
  by code_simp

end
