(* ===== verification/Macro_Codecs.thy ===== *)
theory Macro_Codecs
  imports Sql_Macro
begin

text \<open>
  Codec expressions in the macros (\<open>macros/src/lib.rs\<close>, \<open>verify.rs\<close>): the sublanguage of codecs that can be compared
  with a live server, what it declares and what it is compiled to, and the codecs that \<open>#[derive(Codec)]\<close> infers
  from the types of the fields. Token streams are their text; positions of errors are left out.
\<close>

section \<open>The verifiable sublanguage\<close>

record declared_type =
  dt_oid :: oid
  dt_display :: str

fun strip_expr :: "rust_expr \<Rightarrow> rust_expr" where
  "strip_expr (XParen e) = strip_expr e"
| "strip_expr (XGroup e) = strip_expr e"
| "strip_expr e = e"

definition as_path :: "rust_expr \<Rightarrow> str list option" where
  "as_path e = (case strip_expr e of XPath segments \<Rightarrow> Some segments | _ \<Rightarrow> None)"

definition codec_oid :: "str \<Rightarrow> oid option" where
  "codec_oid = map_of [(''int2'', 21), (''int4'', 23), (''int8'', 20), (''bool'', 16), (''text'', 25), (''varchar'', 1043), (''bytea'', 17)]"

definition unsupported_codec :: "str \<Rightarrow> str" where
  "unsupported_codec ident = ''unsupported verifiable codec `'' @ ident
     @ ''`; expected int2, int4, int8, bool, text, varchar, bytea, nullable(...), or tuples of these''"

definition empty_path_message :: str where
  "empty_path_message = ''unsupported empty codec path in verifiable codec DSL''"

definition dsl_message :: str where
  "dsl_message = ''unsupported verifiable codec DSL; expected a codec path, nullable(...), or a tuple of these''"

definition callee_message :: str where
  "callee_message = ''unsupported verifiable codec DSL; expected nullable(...) around a supported codec''"

definition call_message :: str where
  "call_message = ''unsupported verifiable codec call; only nullable(...) is supported''"

definition arity_message :: str where
  "arity_message = ''nullable(...) in verifiable codec DSL must have exactly one argument''"

lemma strip_size: "size (strip_expr e) \<le> size e"
  by (induction e rule: strip_expr.induct) auto

function parse_declared_scalar :: "rust_expr \<Rightarrow> str + declared_type" where
  "parse_declared_scalar e =
     (case strip_expr e of
        XPath segments \<Rightarrow>
          if segments = [] then Inl empty_path_message
          else
            (case codec_oid (last segments) of
               None \<Rightarrow> Inl (unsupported_codec (last segments))
             | Some n \<Rightarrow> Inr \<lparr>dt_oid = n, dt_display = last segments\<rparr>)
      | XCall f args \<Rightarrow>
          (case as_path f of
             None \<Rightarrow> Inl callee_message
           | Some path \<Rightarrow>
               if path = [] \<or> last path \<noteq> ''nullable'' then Inl call_message
               else
                 (case args of
                    [arg] \<Rightarrow>
                      bindr (parse_declared_scalar arg) (\<lambda>inner.
                      Inr \<lparr>dt_oid = dt_oid inner, dt_display = ''nullable('' @ dt_display inner @ '')''\<rparr>)
                  | _ \<Rightarrow> Inl arity_message))
      | _ \<Rightarrow> Inl dsl_message)"
  by pat_completeness auto
termination
proof (relation "measure size", goal_cases)
  case (2 e f args path arg rest)
  then show ?case using strip_size [of e] by simp
qed simp

declare parse_declared_scalar.simps [simp del]

function parse_declared_types_inner :: "rust_expr \<Rightarrow> str + declared_type list" where
  "parse_declared_types_inner e =
     (case e of
        XTuple elems \<Rightarrow> bindr (collect_r (\<lambda>elem. parse_declared_types_inner (strip_expr elem)) elems) (\<lambda>ts. Inr (concat ts))
      | _ \<Rightarrow> bindr (parse_declared_scalar e) (\<lambda>t. Inr [t]))"
  by pat_completeness auto
termination
proof (relation "measure size", goal_cases)
  case (2 e elems elem)
  then show ?case using strip_size [of elem] size_list_estimation' [of elem elems "size elem" size] by fastforce
qed simp

declare parse_declared_types_inner.simps [simp del]

definition parse_declared_types :: "rust_expr \<Rightarrow> str + declared_type list" where
  "parse_declared_types e = parse_declared_types_inner (strip_expr e)"

fun verifiable_param_types :: "rust_expr list \<Rightarrow> declared_type list option" where
  "verifiable_param_types [] = Some []"
| "verifiable_param_types (codec # codecs) =
     (case parse_declared_types codec of
        Inl _ \<Rightarrow> None
      | Inr ts \<Rightarrow> map_option ((@) ts) (verifiable_param_types codecs))"

section \<open>Compilation of the sublanguage\<close>

definition verifiable_name :: "str \<Rightarrow> bool" where
  "verifiable_name ident \<longleftrightarrow> ident \<in> {''int2'', ''int4'', ''int8'', ''bool'', ''text'', ''varchar'', ''bytea''}"

function compile_codec_dsl_scalar :: "rust_expr \<Rightarrow> str + str" where
  "compile_codec_dsl_scalar e =
     (case strip_expr e of
        XPath segments \<Rightarrow>
          if segments = [] then Inl empty_path_message
          else if verifiable_name (last segments) then Inr (''::babar::codec::'' @ last segments)
          else Inl (unsupported_codec (last segments))
      | XCall f args \<Rightarrow>
          (case as_path f of
             None \<Rightarrow> Inl callee_message
           | Some path \<Rightarrow>
               if path = [] \<or> last path \<noteq> ''nullable'' then Inl call_message
               else
                 (case args of
                    [arg] \<Rightarrow> bindr (compile_codec_dsl_scalar arg) (\<lambda>inner. Inr (''::babar::codec::nullable('' @ inner @ '')''))
                  | _ \<Rightarrow> Inl arity_message))
      | _ \<Rightarrow> Inl dsl_message)"
  by pat_completeness auto
termination
proof (relation "measure size", goal_cases)
  case (2 e f args path arg rest)
  then show ?case using strip_size [of e] by simp
qed simp

declare compile_codec_dsl_scalar.simps [simp del]

function flatten_codec_dsl :: "rust_expr \<Rightarrow> str + str list" where
  "flatten_codec_dsl e =
     (case strip_expr e of
        XTuple elems \<Rightarrow> bindr (collect_r flatten_codec_dsl elems) (\<lambda>ts. Inr (concat ts))
      | e' \<Rightarrow> bindr (compile_codec_dsl_scalar e') (\<lambda>t. Inr [t]))"
  by pat_completeness auto
termination
proof (relation "measure size", goal_cases)
  case (2 e elems elem)
  then show ?case using strip_size [of e] size_list_estimation' [of elem elems "size elem" size] by fastforce
qed simp

declare flatten_codec_dsl.simps [simp del]

definition tuple_text :: "str list \<Rightarrow> str" where
  "tuple_text codecs = ''('' @ concat (map (\<lambda>c. c @ '','') codecs) @ '')''"

definition compile_codec_dsl_expr :: "rust_expr \<Rightarrow> str + str" where
  "compile_codec_dsl_expr e =
     (case strip_expr e of
        XTuple elems \<Rightarrow> bindr (collect_r flatten_codec_dsl elems) (\<lambda>ts. Inr (tuple_text (concat ts)))
      | _ \<Rightarrow>
          bindr (flatten_codec_dsl e) (\<lambda>codecs.
          Inr (case codecs of [] \<Rightarrow> ''()'' | [codec] \<Rightarrow> codec | _ \<Rightarrow> tuple_text codecs)))"

section \<open>Declared and compiled codecs agree\<close>

text \<open>A codec of the sublanguage: a base codec and how many times it is made nullable.\<close>

type_synonym dsl_codec = "str \<times> nat"

fun dsl_display :: "dsl_codec \<Rightarrow> str" where
  "dsl_display (base, 0) = base"
| "dsl_display (base, Suc k) = ''nullable('' @ dsl_display (base, k) @ '')''"

fun dsl_tokens :: "dsl_codec \<Rightarrow> str" where
  "dsl_tokens (base, 0) = ''::babar::codec::'' @ base"
| "dsl_tokens (base, Suc k) = ''::babar::codec::nullable('' @ dsl_tokens (base, k) @ '')''"

text \<open>The OIDs of the codec that the tokens name, from the codecs themselves.\<close>

definition base_oids :: "str \<Rightarrow> oid list" where
  "base_oids base =
     (if base = ''int2'' then cd_oids int2 else if base = ''int4'' then cd_oids int4 else if base = ''int8'' then cd_oids int8
      else if base = ''bool'' then cd_oids (bool_codec (\<lambda>_. [])) else if base = ''text'' then cd_oids text_codec
      else if base = ''varchar'' then cd_oids varchar else if base = ''bytea'' then cd_oids bytea else [])"

definition declares :: "declared_type \<Rightarrow> dsl_codec \<Rightarrow> bool" where
  "declares t c \<longleftrightarrow> dt_display t = dsl_display c \<and> base_oids (fst c) = [dt_oid t]"

lemma codec_oid_base: "codec_oid base = Some n \<Longrightarrow> base_oids base = [n]"
  by (auto simp: codec_oid_def base_oids_def int2_def int4_def int8_def bool_codec_def text_codec_def varchar_def bytea_def
      scalar_def INT2_def INT4_def INT8_def BOOL_def TEXT_def VARCHAR_def BYTEA_def split: if_splits)

lemma verifiable_name_oid: "verifiable_name base \<longleftrightarrow> codec_oid base \<noteq> None"
  by (simp add: codec_oid_def verifiable_name_def)

definition scalar_agrees :: "declared_type \<Rightarrow> str \<Rightarrow> bool" where
  "scalar_agrees t x \<longleftrightarrow> (\<exists>c. declares t c \<and> x = dsl_tokens c)"

lemma scalar_agrees_base: "codec_oid base = Some n \<Longrightarrow> scalar_agrees \<lparr>dt_oid = n, dt_display = base\<rparr> (''::babar::codec::'' @ base)"
  unfolding scalar_agrees_def declares_def by (rule exI [of _ "(base, 0)"]) (simp add: codec_oid_base)

lemma scalar_agrees_nullable:
  assumes "scalar_agrees t x"
  shows "scalar_agrees \<lparr>dt_oid = dt_oid t, dt_display = ''nullable('' @ dt_display t @ '')''\<rparr> (''::babar::codec::nullable('' @ x @ '')'')"
proof -
  from assms obtain base k where "declares t (base, k)" "x = dsl_tokens (base, k)" by (auto simp: scalar_agrees_def)
  then show ?thesis unfolding scalar_agrees_def declares_def by (intro exI [of _ "(base, Suc k)"]) simp
qed

lemma rel_sum_bindr:
  assumes "rel_sum (=) R r q" "\<And>a b. R a b \<Longrightarrow> rel_sum (=) T (f a) (g b)"
  shows "rel_sum (=) T (bindr r f) (bindr q g)"
  using assms(1) by (cases rule: rel_sum.cases) (auto intro: assms(2))

lemma rel_sum_collect:
  "(\<And>x. x \<in> set xs \<Longrightarrow> rel_sum (=) R (f x) (g x)) \<Longrightarrow> rel_sum (=) (list_all2 R) (collect_r f xs) (collect_r g xs)"
  by (induction xs) (auto intro!: rel_sum_bindr)

lemma declared_scalar_agrees: "rel_sum (=) scalar_agrees (parse_declared_scalar e) (compile_codec_dsl_scalar e)"
proof (induction e rule: parse_declared_scalar.induct)
  case (1 e)
  show ?case
  proof (cases "strip_expr e")
    case (XPath segments)
    then show ?thesis
      by (subst parse_declared_scalar.simps, subst compile_codec_dsl_scalar.simps)
        (simp add: verifiable_name_oid scalar_agrees_base [simplified] split: option.split)
  next
    case (XCall f args)
    show ?thesis
    proof (cases "\<exists>path arg. as_path f = Some path \<and> path \<noteq> [] \<and> last path = ''nullable'' \<and> args = [arg]")
      case True
      then obtain path arg where p: "as_path f = Some path" "path \<noteq> []" "last path = ''nullable''" "args = [arg]" by blast
      then have "rel_sum (=) scalar_agrees (parse_declared_scalar arg) (compile_codec_dsl_scalar arg)"
        using "1" [OF XCall p(1) _ p(4)] by simp
      with XCall p show ?thesis
        by (subst parse_declared_scalar.simps, subst compile_codec_dsl_scalar.simps)
          (auto intro!: rel_sum_bindr scalar_agrees_nullable [simplified])
    next
      case False
      with XCall show ?thesis
        by (subst parse_declared_scalar.simps, subst compile_codec_dsl_scalar.simps) (auto split: option.splits list.splits)
    qed
  qed (subst parse_declared_scalar.simps, subst compile_codec_dsl_scalar.simps, simp)+
qed

lemma strip_strip [simp]: "strip_expr (strip_expr e) = strip_expr e"
  by (induction e rule: strip_expr.induct) auto

lemma strip_not_paren [simp]: "strip_expr e \<noteq> XParen e'" "strip_expr e \<noteq> XGroup e'"
  by (induction e rule: strip_expr.induct) auto

lemma declared_flatten_agrees: "rel_sum (=) (list_all2 scalar_agrees) (parse_declared_types e) (flatten_codec_dsl e)"
proof (induction e rule: flatten_codec_dsl.induct)
  case (1 e)
  show ?case
  proof (cases "\<exists>elems. strip_expr e = XTuple elems")
    case True
    then obtain elems where elems: "strip_expr e = XTuple elems" by blast
    have "rel_sum (=) (list_all2 (list_all2 scalar_agrees)) (collect_r parse_declared_types elems) (collect_r flatten_codec_dsl elems)"
      by (rule rel_sum_collect) (rule 1 [OF elems])
    moreover have "parse_declared_types e = bindr (collect_r parse_declared_types elems) (\<lambda>ts. Inr (concat ts))"
      by (simp add: parse_declared_types_def elems parse_declared_types_inner.simps [of "XTuple elems"] cong: collect_r_cong)
    moreover have "flatten_codec_dsl e = bindr (collect_r flatten_codec_dsl elems) (\<lambda>ts. Inr (concat ts))"
      by (subst flatten_codec_dsl.simps) (simp add: elems)
    ultimately show ?thesis by (auto intro!: rel_sum_bindr concat_transfer [unfolded rel_fun_def, rule_format])
  next
    case False
    then have "parse_declared_types e = bindr (parse_declared_scalar (strip_expr e)) (\<lambda>t. Inr [t])"
      by (auto simp: parse_declared_types_def parse_declared_types_inner.simps [of "strip_expr e"] split: rust_expr.splits)
    moreover have "flatten_codec_dsl e = bindr (compile_codec_dsl_scalar (strip_expr e)) (\<lambda>t. Inr [t])"
      using False by (subst flatten_codec_dsl.simps) (auto split: rust_expr.splits)
    ultimately show ?thesis by (auto intro!: rel_sum_bindr [OF declared_scalar_agrees])
  qed
qed

section \<open>Derived codecs\<close>

text \<open>The types and fields of the crate \<open>syn\<close>, as far as the source reads them.\<close>

datatype rust_type = TPath bool "(str \<times> path_arguments) list" | TOther
and path_arguments = NoArguments | AngleBracketed "generic_argument list" | Parenthesized
and generic_argument = ArgType rust_type | ArgOther

datatype pg_meta = MetaCodec "str + rust_expr" | MetaOther

record derive_field =
  df_ident :: str
  df_type :: rust_type
  df_type_text :: str
  df_pg_attrs :: "pg_meta list list"

datatype derive_data = NamedStruct "derive_field list" | UnnamedStruct | NotStruct

record derive_input =
  di_ident :: str
  di_generic :: bool
  di_data :: derive_data

definition type_matches :: "rust_type \<Rightarrow> str list \<Rightarrow> bool" where
  "type_matches ty expected \<longleftrightarrow> (case ty of TPath qself segments \<Rightarrow> \<not> qself \<and> map fst segments = expected | TOther \<Rightarrow> False)"

fun type_arguments :: "generic_argument list \<Rightarrow> rust_type list" where
  "type_arguments [] = []"
| "type_arguments (ArgType ty # args) = ty # type_arguments args"
| "type_arguments (ArgOther # args) = type_arguments args"

definition generic_type_arg :: "rust_type \<Rightarrow> str list \<Rightarrow> rust_type option" where
  "generic_type_arg ty expected =
     (if \<not> type_matches ty expected then None
      else
        (case ty of
           TPath qself segments \<Rightarrow>
             if segments = [] then None
             else
               (case snd (last segments) of
                  AngleBracketed args \<Rightarrow> (case type_arguments args of [first] \<Rightarrow> Some first | _ \<Rightarrow> None)
                | _ \<Rightarrow> None)
         | TOther \<Rightarrow> None))"

definition or_else :: "'a option \<Rightarrow> 'a option \<Rightarrow> 'a option" where
  "or_else x y = (case x of None \<Rightarrow> y | Some _ \<Rightarrow> x)"

definition option_arg :: "rust_type \<Rightarrow> rust_type option" where
  "option_arg ty = or_else (generic_type_arg ty [''Option''])
     (or_else (generic_type_arg ty [''std'', ''option'', ''Option'']) (generic_type_arg ty [''core'', ''option'', ''Option'']))"

definition vec_arg :: "rust_type \<Rightarrow> rust_type option" where
  "vec_arg ty = or_else (generic_type_arg ty [''Vec''])
     (or_else (generic_type_arg ty [''std'', ''vec'', ''Vec'']) (generic_type_arg ty [''alloc'', ''vec'', ''Vec'']))"

definition infer_plain :: "rust_type \<Rightarrow> str option" where
  "infer_plain ty =
     (if type_matches ty [''i16''] then Some ''int2''
      else if type_matches ty [''i32''] then Some ''int4''
      else if type_matches ty [''i64''] then Some ''int8''
      else if type_matches ty [''bool''] then Some ''bool''
      else if type_matches ty [''String''] \<or> type_matches ty [''std'', ''string'', ''String'']
        \<or> type_matches ty [''alloc'', ''string'', ''String''] then Some ''text''
      else None)"

lemma type_arguments_size: "ty \<in> set (type_arguments args) \<Longrightarrow> size ty < size_list size args"
  by (induction args rule: type_arguments.induct) auto

lemma generic_type_arg_size: "generic_type_arg ty expected = Some inner \<Longrightarrow> size inner < size ty"
proof -
  assume "generic_type_arg ty expected = Some inner"
  then obtain qself segments args where *: "ty = TPath qself segments" "segments \<noteq> []" "snd (last segments) = AngleBracketed args"
    "inner \<in> set (type_arguments args)"
    by (auto simp: generic_type_arg_def split: if_splits rust_type.splits path_arguments.splits list.splits)
  then have "size inner < size (snd (last segments))" using type_arguments_size by fastforce
  also have "\<dots> \<le> size_list (\<lambda>p. size (snd p)) segments"
    using *(2) by (intro size_list_estimation' [of "last segments"]) auto
  also have "\<dots> < size ty" unfolding *(1) by (induction segments) auto
  finally show ?thesis .
qed

function infer_codec_expr :: "rust_type \<Rightarrow> str option" where
  "infer_codec_expr ty =
     (case infer_plain ty of
        Some codec \<Rightarrow> Some codec
      | None \<Rightarrow>
          (case option_arg ty of
             Some inner \<Rightarrow> map_option (\<lambda>codec. ''nullable('' @ codec @ '')'') (infer_codec_expr inner)
           | None \<Rightarrow>
               (case vec_arg ty of
                  Some inner \<Rightarrow> if type_matches inner [''u8''] then Some ''bytea'' else None
                | None \<Rightarrow> None)))"
  by pat_completeness auto
termination
  by (relation "measure size") (auto simp: option_arg_def or_else_def dest: generic_type_arg_size split: option.splits)

declare infer_codec_expr.simps [simp del]

text \<open>\<open>syn::parse_str\<close> on the inferred text and on the text of an attribute is a parameter.\<close>

definition infer_field_codec :: "(str \<Rightarrow> str + rust_expr) \<Rightarrow> derive_field \<Rightarrow> str + rust_expr" where
  "infer_field_codec parse_str f =
     (case infer_codec_expr (df_type f) of
        None \<Rightarrow> Inl (''no default codec inference for field type `'' @ df_type_text f @ ''`; add #[pg(codec = \"...\")]'')
      | Some codec \<Rightarrow> parse_str codec)"

fun parse_pg_attr :: "pg_meta list \<Rightarrow> rust_expr option \<Rightarrow> str + rust_expr option" where
  "parse_pg_attr [] codec = Inr codec"
| "parse_pg_attr (m # ms) codec =
     (case m of
        MetaOther \<Rightarrow> Inl ''unsupported #[pg(...)] attribute; expected codec = \"...\"''
      | MetaCodec parsed \<Rightarrow>
          if codec \<noteq> None then Inl ''duplicate codec attribute''
          else bindr parsed (\<lambda>e. parse_pg_attr ms (Some e)))"

fun parse_pg_attrs :: "pg_meta list list \<Rightarrow> rust_expr option \<Rightarrow> str + rust_expr option" where
  "parse_pg_attrs [] codec = Inr codec"
| "parse_pg_attrs (a # as) codec = bindr (parse_pg_attr a codec) (parse_pg_attrs as)"

definition parse_codec_attr :: "(str \<Rightarrow> str + rust_expr) \<Rightarrow> derive_field \<Rightarrow> str + rust_expr" where
  "parse_codec_attr parse_str f =
     bindr (parse_pg_attrs (df_pg_attrs f) None) (\<lambda>codec.
     case codec of None \<Rightarrow> infer_field_codec parse_str f | Some e \<Rightarrow> Inr e)"

definition reject_generics :: "derive_input \<Rightarrow> str + unit" where
  "reject_generics i = (if di_generic i then Inl ''Codec derive does not support generic structs yet'' else Inr ())"

text \<open>What the derive emits: the fields in order with their codecs; the codec of the struct is their tuple.\<close>

definition compile_codec_derive :: "(str \<Rightarrow> str + rust_expr) \<Rightarrow> derive_input \<Rightarrow> str + (str \<times> rust_expr) list" where
  "compile_codec_derive parse_str i =
     bindr (reject_generics i) (\<lambda>_.
     case di_data i of
       NotStruct \<Rightarrow> Inl ''Codec can only be derived for structs''
     | UnnamedStruct \<Rightarrow> Inl ''Codec requires a struct with named fields''
     | NamedStruct fs \<Rightarrow> collect_r (\<lambda>f. bindr (parse_codec_attr parse_str f) (\<lambda>e. Inr (df_ident f, e))) fs)"

lemma infer_plain_known: "infer_plain ty = Some s \<Longrightarrow> verifiable_name s"
  by (auto simp: infer_plain_def verifiable_name_def split: if_splits)

text \<open>Every inferred codec is in the verifiable sublanguage.\<close>

theorem infer_codec_verifiable: "infer_codec_expr ty = Some s \<Longrightarrow> \<exists>base k. verifiable_name base \<and> s = dsl_display (base, k)"
proof (induction ty arbitrary: s rule: infer_codec_expr.induct)
  case (1 ty)
  show ?case
  proof (cases "infer_plain ty")
    case (Some codec)
    with "1.prems" have "s = dsl_display (codec, 0)" by (simp add: infer_codec_expr.simps [of ty])
    with infer_plain_known [OF Some] show ?thesis by blast
  next
    case None
    show ?thesis
    proof (cases "option_arg ty")
      case (Some inner)
      with None "1.prems" obtain codec where codec: "infer_codec_expr inner = Some codec" "s = ''nullable('' @ codec @ '')''"
        by (auto simp: infer_codec_expr.simps [of ty])
      from "1.IH" [OF None Some codec(1)] obtain base k where "verifiable_name base" "codec = dsl_display (base, k)" by blast
      with codec(2) have "verifiable_name base \<and> s = dsl_display (base, Suc k)" by simp
      then show ?thesis by blast
    next
      case none: None
      with None "1.prems" have "s = dsl_display (''bytea'', 0)"
        by (auto simp: infer_codec_expr.simps [of ty] split: option.splits if_splits)
      then show ?thesis unfolding verifiable_name_def by blast
    qed
  qed
qed

text \<open>
  For a field of type \<open>Option<Option<i32>>\<close> a codec is inferred that cannot tell \<open>Some(None)\<close> from \<open>None\<close>.
\<close>

definition option_of :: "rust_type \<Rightarrow> rust_type" where
  "option_of ty = TPath False [(''Option'', AngleBracketed [ArgType ty])]"

lemma nested_option_inferred:
  "infer_codec_expr (option_of (option_of (TPath False [(''i32'', NoArguments)]))) = Some ''nullable(nullable(int4))''"
  by code_simp

lemma nested_option_lost:
  "cd_encode (nullable (nullable int4)) (Some None) = Inr [None] \<and> cd_decode (nullable (nullable int4)) [None] = Inr None"
  by (simp add: nullable_def int4_def scalar_def)

end
