(* ===== verification/Typed_Normalize.thy ===== *)
theory Typed_Normalize
  imports Typed_Lower
begin

text \<open>
  From the syntax tree of the SQL parser to the intermediate representation
  (\<open>macros/src/typed_sql/normalize.rs\<close>, \<open>parse_backend.rs\<close>, \<open>mod.rs\<close>): unsupported constructs are refused, chains of
  \<open>AND\<close> and \<open>OR\<close> are flattened, placeholders are looked up in the table of the source text and the marks of
  optional parts are checked.

  The parser is the third-party crate \<open>sqlparser\<close>; it is a parameter. Its tree is the datatypes below: the
  constructors and fields the source reads, one constructor for all others, the position the crate computes
  for a node as a field of the node. Where the source only asks whether some clauses it does not support are
  present, there is one flag for the clauses that share an error.
\<close>

section \<open>The syntax tree of the parser\<close>

record ast_ident =
  ai_value :: str
  ai_span :: parser_span

datatype ast_name_part = PartIdentifier ast_ident | PartFunction

record ast_object_name =
  an_parts :: "ast_name_part list"
  an_span :: parser_span

text \<open>\<open>VString\<close> stands for the eleven forms of string literals that the source treats alike.\<close>

datatype ast_value = VPlaceholder str | VNumber str | VString str | VBoolean bool | VNull | VOther

datatype ast_unary = UNot | UPlus | UMinus | UOther

datatype ast_binary = BAnd | BOr | BEq | BNotEq | BLt | BLtEq | BGt | BGtEq | BOther

datatype ast_expr =
    ECompound parser_span "ast_ident list"
  | EIdentifier parser_span
  | EValue parser_span ast_value
  | EUnary parser_span ast_unary ast_expr
  | EBinary parser_span ast_expr ast_binary ast_expr
  | EIsNull parser_span ast_expr
  | EIsNotNull parser_span ast_expr
  | ENested parser_span ast_expr
  | EOther parser_span

fun ast_span :: "ast_expr \<Rightarrow> parser_span" where
  "ast_span (ECompound s ps) = s"
| "ast_span (EIdentifier s) = s"
| "ast_span (EValue s v) = s"
| "ast_span (EUnary s op e) = s"
| "ast_span (EBinary s l op r) = s"
| "ast_span (EIsNull s e) = s"
| "ast_span (EIsNotNull s e) = s"
| "ast_span (ENested s e) = s"
| "ast_span (EOther s) = s"

datatype ast_select_item =
    ItemUnnamed parser_span ast_expr
  | ItemAlias parser_span ast_expr ast_ident
  | ItemWildcard parser_span
  | ItemQualifiedWildcard parser_span

record ast_table_alias =
  ta_span :: parser_span
  ta_name :: ast_ident
  ta_has_columns :: bool

datatype ast_table_factor =
    TfTable parser_span ast_object_name "ast_table_alias option" bool
  | TfOther parser_span

fun factor_span :: "ast_table_factor \<Rightarrow> parser_span" where
  "factor_span (TfTable s name alias extra) = s"
| "factor_span (TfOther s) = s"

datatype ast_join_constraint = ConOn ast_expr | ConOther

datatype ast_join_operator =
    JoJoin ast_join_constraint
  | JoInner ast_join_constraint
  | JoLeft ast_join_constraint
  | JoLeftOuter ast_join_constraint
  | JoRight ast_join_constraint
  | JoRightOuter ast_join_constraint
  | JoFullOuter ast_join_constraint
  | JoOther

record ast_join =
  aj_span :: parser_span
  aj_global :: bool
  aj_operator :: ast_join_operator
  aj_relation :: ast_table_factor

record ast_table_with_joins =
  tw_relation :: ast_table_factor
  tw_joins :: "ast_join list"

record ast_select =
  sel_span :: parser_span
  sel_distinct :: bool
  sel_other_features :: bool
  sel_projection :: "ast_select_item list"
  sel_from :: "ast_table_with_joins list"
  sel_selection :: "ast_expr option"

record ast_values =
  av_span :: parser_span
  av_rows :: "ast_expr list list"

datatype ast_set_expr = SetSelect ast_select | SetValues ast_values | SetOther

record ast_order_item =
  oi_span :: parser_span
  oi_expr :: ast_expr
  oi_asc :: "bool option"
  oi_nulls_first :: "bool option"
  oi_with_fill :: bool

record ast_order_by =
  ob_span :: parser_span
  ob_kind :: "ast_order_item list option"

datatype ast_limit_clause =
    LcLimitOffset parser_span "ast_expr option" "(parser_span \<times> ast_expr) option" bool
  | LcOffsetCommaLimit parser_span

record ast_query =
  qy_span :: parser_span
  qy_with :: bool
  qy_fetch :: bool
  qy_locks :: bool
  qy_for_clause :: bool
  qy_other_features :: bool
  qy_body :: ast_set_expr
  qy_order_by :: "ast_order_by option"
  qy_limit_clause :: "ast_limit_clause option"

record ast_insert =
  ins_span :: parser_span
  ins_other_features :: bool
  ins_on :: bool
  ins_table :: "ast_object_name option"
  ins_table_alias :: "ast_ident option"
  ins_columns :: "ast_ident list"
  ins_source :: "ast_query option"
  ins_returning :: "ast_select_item list option"

datatype ast_assignment_target = TargetColumn ast_object_name | TargetTuple

record ast_assignment =
  as_span :: parser_span
  as_target :: ast_assignment_target
  as_value :: ast_expr

record ast_update =
  upd_span :: parser_span
  upd_other_features :: bool
  upd_from :: bool
  upd_table :: ast_table_with_joins
  upd_assignments :: "ast_assignment list"
  upd_selection :: "ast_expr option"
  upd_returning :: "ast_select_item list option"

record ast_delete =
  del_span :: parser_span
  del_other_features :: bool
  del_using :: bool
  del_from :: "ast_table_with_joins list"
  del_selection :: "ast_expr option"
  del_returning :: "ast_select_item list option"

datatype ast_statement =
    StQuery ast_query
  | StInsert ast_insert
  | StUpdate ast_update
  | StDelete ast_delete
  | StOther

section \<open>The state of the normalizer\<close>

record normalizer =
  nz_consumed :: "source_span set"
  nz_next_id :: ast_id

type_synonym 'a norm = "normalizer \<Rightarrow> ('a \<times> normalizer) tresult"

definition nz_new :: normalizer where
  "nz_new = \<lparr>nz_consumed = {}, nz_next_id = 0\<rparr>"

definition nret :: "'a \<Rightarrow> 'a norm" where
  "nret a nz = Inr (a, nz)"

definition nlift :: "'a tresult \<Rightarrow> 'a norm" where
  "nlift r nz = bindr r (\<lambda>a. Inr (a, nz))"

definition nbind :: "'a norm \<Rightarrow> ('a \<Rightarrow> 'b norm) \<Rightarrow> 'b norm" where
  "nbind m f nz = bindr (m nz) (\<lambda>(a, nz'). f a nz')"

lemma nbind_cong [fundef_cong]:
  "m nz = m' nz' \<Longrightarrow> (\<And>a nz1. m' nz' = Inr (a, nz1) \<Longrightarrow> f a nz1 = g a nz1) \<Longrightarrow> nz = nz' \<Longrightarrow> nbind m f nz = nbind m' g nz'"
  unfolding nbind_def by (rule bindr_cong) auto

definition alloc_id :: "ast_id norm" where
  "alloc_id nz = Inr (nz_next_id nz, nz\<lparr>nz_next_id := nz_next_id nz + 1\<rparr>)"

definition consume :: "source_span \<Rightarrow> unit norm" where
  "consume s nz = Inr ((), nz\<lparr>nz_consumed := insert s (nz_consumed nz)\<rparr>)"

fun collect_n :: "('a \<Rightarrow> 'b norm) \<Rightarrow> 'a list \<Rightarrow> 'b list norm" where
  "collect_n f [] nz = nret [] nz"
| "collect_n f (x # xs) nz = nbind (f x) (\<lambda>y. nbind (collect_n f xs) (\<lambda>ys. nret (y # ys))) nz"

definition option_n :: "('a \<Rightarrow> 'b norm) \<Rightarrow> 'a option \<Rightarrow> 'b option norm" where
  "option_n f x = (case x of None \<Rightarrow> nret None | Some a \<Rightarrow> nbind (f a) (\<lambda>b. nret (Some b)))"

definition source_span_of :: "sql_source \<Rightarrow> parser_span \<Rightarrow> source_span tresult" where
  "source_span_of src s = bindr (canonical_span_for_parser src s) (\<lambda>c. Inr (original_span (sq_replacements src) c))"

definition unsupported_node :: "sql_source \<Rightarrow> parser_span \<Rightarrow> str \<Rightarrow> typed_sql_error" where
  "unsupported_node src s m =
     unsupported_with_optional_span m (case source_span_of src s of Inl _ \<Rightarrow> None | Inr sp \<Rightarrow> Some sp)"

text \<open>The identifier of a node and its position, in the order of the struct literals.\<close>

definition new_node :: "sql_source \<Rightarrow> parser_span \<Rightarrow> (ast_id \<times> source_span) norm" where
  "new_node src s = nbind alloc_id (\<lambda>i. nbind (nlift (source_span_of src s)) (\<lambda>sp. nret (i, sp)))"

section \<open>Names\<close>

definition normalize_ident :: "sql_source \<Rightarrow> ast_ident \<Rightarrow> ident_syntax tresult" where
  "normalize_ident src i = bindr (source_span_of src (ai_span i)) (\<lambda>s. Inr \<lparr>id_value = ai_value i, id_span = s\<rparr>)"

definition name_parts :: "sql_source \<Rightarrow> str \<Rightarrow> ast_object_name \<Rightarrow> ident_syntax list tresult" where
  "name_parts src message name =
     collect_r (\<lambda>part. case part of
         PartIdentifier i \<Rightarrow> normalize_ident src i
       | PartFunction \<Rightarrow> Inl (unsupported_node src (an_span name) message)) (an_parts name)"

definition normalize_object_name :: "sql_source \<Rightarrow> ast_object_name \<Rightarrow> object_name_syntax tresult" where
  "normalize_object_name src name =
     bindr (name_parts src ''typed_sql v1 does not support function-based relation names'' name) (\<lambda>parts.
     bindr (source_span_of src (an_span name)) (\<lambda>s. Inr \<lparr>on_parts = parts, on_span = s\<rparr>))"

definition object_name_last_ident :: "ast_object_name \<Rightarrow> ast_ident tresult" where
  "object_name_last_ident name =
     (if an_parts name = [] then Inl (unsupported ''typed_sql v1 requires a named relation'')
      else
        (case last (an_parts name) of
           PartIdentifier i \<Rightarrow> Inr i
         | PartFunction \<Rightarrow> Inl (unsupported ''typed_sql v1 does not support function-based relation names'')))"

definition nz_binding_name :: "sql_source \<Rightarrow> ast_object_name \<Rightarrow> ast_table_alias option \<Rightarrow> ident_syntax tresult" where
  "nz_binding_name src name alias =
     bindr (case alias of
         Some a \<Rightarrow>
           (if ta_has_columns a then Inl (unsupported_node src (ta_span a) ''typed_sql v1 does not support column alias lists'')
            else Inr (ta_name a))
       | None \<Rightarrow> object_name_last_ident name) (normalize_ident src)"

section \<open>Expressions\<close>

datatype expr_context =
    CtxProjection | CtxPredicate | CtxComparisonOperand | CtxNestedComparisonOperand | CtxOrderBy | CtxLimit | CtxOffset

definition allows_optional_placeholder :: "expr_context \<Rightarrow> bool" where
  "allows_optional_placeholder c \<longleftrightarrow> c = CtxComparisonOperand \<or> c = CtxLimit \<or> c = CtxOffset"

definition allows_optional_group :: "expr_context \<Rightarrow> bool" where
  "allows_optional_group c \<longleftrightarrow> c = CtxPredicate \<or> c = CtxOrderBy"

definition comparison_operand_context :: "expr_context \<Rightarrow> expr_context" where
  "comparison_operand_context c =
     (if c = CtxPredicate \<or> c = CtxComparisonOperand \<or> c = CtxNestedComparisonOperand then CtxComparisonOperand else c)"

definition nested_value_context :: "expr_context \<Rightarrow> expr_context" where
  "nested_value_context c =
     (if c = CtxComparisonOperand \<or> c = CtxNestedComparisonOperand then CtxNestedComparisonOperand else c)"

fun map_binary_op :: "ast_binary \<Rightarrow> binary_op option" where
  "map_binary_op BEq = Some OpEq"
| "map_binary_op BNotEq = Some OpNotEq"
| "map_binary_op BLt = Some OpLt"
| "map_binary_op BLtEq = Some OpLtEq"
| "map_binary_op BGt = Some OpGt"
| "map_binary_op BGtEq = Some OpGtEq"
| "map_binary_op _ = None"

fun map_unary_op :: "ast_unary \<Rightarrow> unary_op option" where
  "map_unary_op UNot = Some OpNot"
| "map_unary_op UPlus = Some OpPlus"
| "map_unary_op UMinus = Some OpMinus"
| "map_unary_op UOther = None"

definition group_message :: str where
  "group_message = ''typed_sql v1 requires `(...)?` to own an entire parenthesized WHERE/JOIN predicate or a single ORDER BY expression; LIMIT/OFFSET and other clause bodies must use direct `$value?` placeholders instead''"

definition optional_message :: "expr_context \<Rightarrow> str" where
  "optional_message c =
     (if c = CtxNestedComparisonOperand
      then ''typed_sql v1 requires `$value?` to directly own a WHERE/JOIN comparison predicate or the full LIMIT/OFFSET expression; wrap larger predicate fragments in `(...)?` when the ownership boundary would otherwise be ambiguous''
      else ''typed_sql v1 only supports `$value?` when it owns a WHERE/JOIN comparison predicate or the full LIMIT/OFFSET expression'')"

definition normalize_placeholder ::
    "sql_source \<Rightarrow> parser_span \<Rightarrow> placeholder_entry \<Rightarrow> expr_context \<Rightarrow> placeholder_ref norm" where
  "normalize_placeholder src span entry c =
     nbind (nlift (canonical_span_for_parser src span)) (\<lambda>canonical.
     case find (\<lambda>occ. oc_canonical_span occ = canonical) (pe_occurrences entry) of
       None \<Rightarrow> nlift (Inl (internal (''parser span '' @ show_span canonical
         @ '' did not match placeholder occurrence for `$'' @ pe_name entry @ ''`'')))
     | Some occ \<Rightarrow>
         if oc_optional occ \<and> \<not> allows_optional_placeholder c
         then nlift (Inl (unsupported_at (optional_message c) (oc_original_span occ)))
         else nbind alloc_id (\<lambda>i. nret
           \<lparr>pr_id = i, pr_span = oc_original_span occ, pr_placeholder_id = pe_id entry, pr_name = pe_name entry,
            pr_slot = pe_slot entry, pr_optional = oc_optional occ\<rparr>))"

definition normalize_literal :: "sql_source \<Rightarrow> parser_span \<Rightarrow> literal \<Rightarrow> parsed_expr norm" where
  "normalize_literal src span l =
     nbind (new_node src span) (\<lambda>(i, s). nret (PLiteral \<lparr>pl_id = i, pl_span = s, pl_value = l\<rparr>))"

definition normalize_value :: "sql_source \<Rightarrow> parser_span \<Rightarrow> ast_value \<Rightarrow> expr_context \<Rightarrow> parsed_expr norm" where
  "normalize_value src span v c =
     (case v of
        VPlaceholder token \<Rightarrow>
          (case entry_for_token (sq_placeholders src) token of
             None \<Rightarrow> nlift (Inl (internal (''parser produced unknown placeholder token '' @ token)))
           | Some entry \<Rightarrow> nbind (normalize_placeholder src span entry c) (\<lambda>p. nret (PPlaceholder p)))
      | VNumber n \<Rightarrow> normalize_literal src span (Number n)
      | VString s \<Rightarrow> normalize_literal src span (StringLit s)
      | VBoolean b \<Rightarrow> normalize_literal src span (Boolean b)
      | VNull \<Rightarrow> normalize_literal src span NullLit
      | VOther \<Rightarrow> nlift (Inl (unsupported_node src span ''typed_sql v1 does not support this literal form'')))"

definition normalize_column :: "sql_source \<Rightarrow> parser_span \<Rightarrow> ast_ident list \<Rightarrow> parsed_expr norm" where
  "normalize_column src span parts =
     (case parts of
        [b, c] \<Rightarrow>
          nbind (nlift (normalize_ident src b)) (\<lambda>binding.
          nbind (nlift (normalize_ident src c)) (\<lambda>column.
          nbind (new_node src span) (\<lambda>(i, s).
          nret (PColumn \<lparr>cr_id = i, cr_span = s, cr_binding = binding, cr_column = column\<rparr>))))
      | _ \<Rightarrow> nlift (Inl (unsupported_node src span ''typed_sql v1 does not support this expression form'')))"

text \<open>The group of a parenthesized expression, once what is inside is normalized.\<close>

definition close_group :: "sql_source \<Rightarrow> source_span \<Rightarrow> expr_context \<Rightarrow> parsed_expr \<Rightarrow> parsed_expr norm" where
  "close_group src canonical c inner =
     (case entry_for_canonical_span (sq_optional_groups src) canonical of
        None \<Rightarrow> nret inner
      | Some g \<Rightarrow>
          nbind (consume (og_original_span g)) (\<lambda>_.
          if \<not> allows_optional_group c then nlift (Inl (unsupported_at group_message (og_original_span g)))
          else nbind alloc_id (\<lambda>i. nret (POptionalGroup i (og_original_span g) inner))))"

definition bool_op_of :: "ast_binary \<Rightarrow> bool_op option" where
  "bool_op_of op = (if op = BAnd then Some OpAnd else if op = BOr then Some OpOr else None)"

text \<open>\<open>collect_bool_terms\<close> returns the terms it pushes.\<close>

function (sequential) normalize_expr :: "sql_source \<Rightarrow> ast_expr \<Rightarrow> expr_context \<Rightarrow> parsed_expr norm"
  and collect_bool_terms :: "sql_source \<Rightarrow> ast_expr \<Rightarrow> bool_op \<Rightarrow> parsed_expr list norm" where
  "normalize_expr src (ECompound span parts) c nz = normalize_column src span parts nz"
| "normalize_expr src (EIdentifier span) c nz =
     Inl (unsupported_node src span ''typed_sql v1 requires fully qualified column references'')"
| "normalize_expr src (EValue span v) c nz = normalize_value src span v c nz"
| "normalize_expr src (EUnary span op e) c nz =
     (case map_unary_op op of
        None \<Rightarrow> Inl (unsupported_node src span ''typed_sql v1 only supports NOT, +, and - unary operators'')
      | Some op' \<Rightarrow>
          nbind (new_node src span) (\<lambda>(i, s).
          nbind (normalize_expr src e (nested_value_context c)) (\<lambda>inner. nret (PUnary i s op' inner))) nz)"
| "normalize_expr src (EBinary span l op r) c nz =
     (case bool_op_of op of
        Some bop \<Rightarrow>
          nbind (collect_bool_terms src l bop) (\<lambda>ts.
          nbind (collect_bool_terms src r bop) (\<lambda>us.
          nbind (new_node src span) (\<lambda>(i, s). nret (PBoolChain i s bop (ts @ us))))) nz
      | None \<Rightarrow>
          nbind (new_node src span) (\<lambda>(i, s).
          case map_binary_op op of
            None \<Rightarrow> nlift (Inl (unsupported_node src span ''typed_sql v1 only supports simple comparison operators''))
          | Some op' \<Rightarrow>
              nbind (normalize_expr src l (comparison_operand_context c)) (\<lambda>left.
              nbind (normalize_expr src r (comparison_operand_context c)) (\<lambda>right. nret (PBinary i s op' left right)))) nz)"
| "normalize_expr src (EIsNull span e) c nz =
     nbind (new_node src span) (\<lambda>(i, s).
     nbind (normalize_expr src e (nested_value_context c)) (\<lambda>inner. nret (PIsNull i s False inner))) nz"
| "normalize_expr src (EIsNotNull span e) c nz =
     nbind (new_node src span) (\<lambda>(i, s).
     nbind (normalize_expr src e (nested_value_context c)) (\<lambda>inner. nret (PIsNull i s True inner))) nz"
| "normalize_expr src (ENested span e) c nz =
     nbind (nlift (canonical_span_for_parser src span)) (\<lambda>canonical.
     nbind (normalize_expr src e c) (\<lambda>inner. close_group src canonical c inner)) nz"
| "normalize_expr src (EOther span) c nz =
     Inl (unsupported_node src span ''typed_sql v1 does not support this expression form'')"
| "collect_bool_terms src (EBinary span l op r) bop nz =
     (if bool_op_of op = Some bop
      then nbind (collect_bool_terms src l bop) (\<lambda>ts. nbind (collect_bool_terms src r bop) (\<lambda>us. nret (ts @ us))) nz
      else nbind (normalize_expr src (EBinary span l op r) CtxPredicate) (\<lambda>t. nret [t]) nz)"
| "collect_bool_terms src e bop nz = nbind (normalize_expr src e CtxPredicate) (\<lambda>t. nret [t]) nz"
  by pat_completeness auto
termination
  by (relation "measure (case_sum (\<lambda>(src, e, c, nz). 2 * size e) (\<lambda>(src, e, bop, nz). 2 * size e + 1))") auto

section \<open>Relations\<close>

definition plain_table_message :: str where
  "plain_table_message = ''typed_sql v1 only supports plain table references in FROM/JOIN''"

definition normalize_table_factor :: "sql_source \<Rightarrow> ast_table_factor \<Rightarrow> source_span \<Rightarrow> parsed_from norm" where
  "normalize_table_factor src table span =
     (case table of
        TfOther _ \<Rightarrow> nlift (Inl (unsupported_at plain_table_message span))
      | TfTable _ name alias extra \<Rightarrow>
          if extra then nlift (Inl (unsupported_at plain_table_message span))
          else
            nbind (nlift (normalize_object_name src name)) (\<lambda>table_name.
            nbind (nlift (nz_binding_name src name alias)) (\<lambda>binding.
            nbind alloc_id (\<lambda>i.
            nret \<lparr>pf_id = i, pf_span = span, pf_table_name = table_name, pf_binding_name = binding\<rparr>))))"

text \<open>A relation with its own position, as \<open>normalize_from_root\<close> and the other callers pass it.\<close>

definition normalize_relation :: "sql_source \<Rightarrow> ast_table_factor \<Rightarrow> parsed_from norm" where
  "normalize_relation src table = nbind (nlift (source_span_of src (factor_span table))) (normalize_table_factor src table)"

definition on_predicate :: "join_kind \<Rightarrow> ast_join_constraint \<Rightarrow> str + join_kind \<times> ast_expr" where
  "on_predicate kind con =
     (case con of ConOn e \<Rightarrow> Inr (kind, e) | ConOther \<Rightarrow> Inl ''typed_sql v1 requires JOIN ... ON predicates'')"

fun join_parts :: "ast_join_operator \<Rightarrow> str + join_kind \<times> ast_expr" where
  "join_parts (JoJoin con) = on_predicate JInner con"
| "join_parts (JoInner con) = on_predicate JInner con"
| "join_parts (JoLeft con) = on_predicate JLeft con"
| "join_parts (JoLeftOuter con) = on_predicate JLeft con"
| "join_parts (JoRight con) = on_predicate JRight con"
| "join_parts (JoRightOuter con) = on_predicate JRight con"
| "join_parts (JoFullOuter con) = on_predicate JFull con"
| "join_parts JoOther = Inl ''typed_sql v1 only supports INNER/LEFT/RIGHT/FULL JOIN ... ON''"

definition normalize_join :: "sql_source \<Rightarrow> ast_join \<Rightarrow> parsed_join norm" where
  "normalize_join src j =
     (if aj_global j then nlift (Inl (unsupported_node src (aj_span j) ''typed_sql v1 does not support GLOBAL joins''))
      else
        nbind (nlift (map_err (unsupported_node src (aj_span j)) (join_parts (aj_operator j)))) (\<lambda>(kind, on).
        nbind (new_node src (aj_span j)) (\<lambda>(i, s).
        nbind (normalize_relation src (aj_relation j)) (\<lambda>right.
        nbind (normalize_expr src on CtxPredicate) (\<lambda>on'.
        nret \<lparr>pj_id = i, pj_span = s, pj_kind = kind, pj_right = right, pj_on = on'\<rparr>)))))"

section \<open>Clauses\<close>

definition infer_output_name :: "sql_source \<Rightarrow> ast_expr \<Rightarrow> output_name_syntax tresult" where
  "infer_output_name src e =
     (case e of
        ECompound _ [b, c] \<Rightarrow> bindr (normalize_ident src c) (\<lambda>i. Inr (ONImplicit i))
      | _ \<Rightarrow> Inr ONAnonymous)"

definition normalize_item :: "str \<Rightarrow> sql_source \<Rightarrow> ast_select_item \<Rightarrow> parsed_projection norm" where
  "normalize_item wildcard_message src item =
     (case item of
        ItemUnnamed span e \<Rightarrow>
          nbind (nlift (infer_output_name src e)) (\<lambda>name.
          nbind (new_node src span) (\<lambda>(i, s).
          nbind (normalize_expr src e CtxProjection) (\<lambda>e'.
          nret \<lparr>pp_id = i, pp_span = s, pp_expr = e', pp_output_name = name\<rparr>)))
      | ItemAlias span e alias \<Rightarrow>
          nbind (new_node src span) (\<lambda>(i, s).
          nbind (normalize_expr src e CtxProjection) (\<lambda>e'.
          nbind (nlift (normalize_ident src alias)) (\<lambda>name.
          nret \<lparr>pp_id = i, pp_span = s, pp_expr = e', pp_output_name = ONExplicit name\<rparr>)))
      | ItemWildcard span \<Rightarrow> nlift (Inl (unsupported_node src span wildcard_message))
      | ItemQualifiedWildcard span \<Rightarrow> nlift (Inl (unsupported_node src span wildcard_message)))"

definition normalize_projection :: "sql_source \<Rightarrow> ast_select_item \<Rightarrow> parsed_projection norm" where
  "normalize_projection = normalize_item ''typed_sql v1 does not support wildcard projections''"

definition normalize_returning_projection :: "sql_source \<Rightarrow> ast_select_item \<Rightarrow> parsed_projection norm" where
  "normalize_returning_projection = normalize_item ''typed_sql v1 does not support wildcard RETURNING projections''"

definition normalize_returning :: "sql_source \<Rightarrow> ast_select_item list option \<Rightarrow> parsed_projection list norm" where
  "normalize_returning src items =
     (case items of None \<Rightarrow> nret [] | Some xs \<Rightarrow> collect_n (normalize_returning_projection src) xs)"

definition normalize_order_by_expr :: "sql_source \<Rightarrow> ast_order_item \<Rightarrow> parsed_order_by norm" where
  "normalize_order_by_expr src item =
     (if oi_with_fill item
      then nlift (Inl (unsupported_node src (oi_span item) ''typed_sql v1 does not support ORDER BY WITH FILL''))
      else
        nbind (new_node src (oi_span item)) (\<lambda>(i, s).
        nbind (normalize_expr src (oi_expr item) CtxOrderBy) (\<lambda>e.
        nret \<lparr>po_id = i, po_span = s, po_expr = e,
          po_direction = (if oi_asc item = Some False then Desc else Asc),
          po_nulls = map_option (\<lambda>b. if b then NullsFirst else NullsLast) (oi_nulls_first item)\<rparr>)))"

definition normalize_order_by :: "sql_source \<Rightarrow> ast_order_by option \<Rightarrow> parsed_order_by list norm" where
  "normalize_order_by src order_by =
     (case order_by of
        None \<Rightarrow> nret []
      | Some ob \<Rightarrow>
          (case ob_kind ob of
             None \<Rightarrow> nlift (Inl (unsupported_node src (ob_span ob) ''typed_sql v1 does not support ORDER BY ALL''))
           | Some items \<Rightarrow> collect_n (normalize_order_by_expr src) items))"

definition normalize_bound :: "sql_source \<Rightarrow> expr_context \<Rightarrow> parser_span \<times> ast_expr \<Rightarrow> parsed_limit norm" where
  "normalize_bound src c b =
     nbind (new_node src (fst b)) (\<lambda>(i, s).
     nbind (normalize_expr src (snd b) c) (\<lambda>e. nret \<lparr>plim_id = i, plim_span = s, plim_expr = e\<rparr>))"

definition normalize_limit_clause ::
    "sql_source \<Rightarrow> ast_limit_clause option \<Rightarrow> (parsed_limit option \<times> parsed_limit option) norm" where
  "normalize_limit_clause src lc =
     (case lc of
        None \<Rightarrow> nret (None, None)
      | Some (LcOffsetCommaLimit span) \<Rightarrow>
          nlift (Inl (unsupported_node src span ''typed_sql v1 only supports LIMIT ... OFFSET ... syntax''))
      | Some (LcLimitOffset span limit offset limit_by) \<Rightarrow>
          if limit_by then nlift (Inl (unsupported_node src span ''typed_sql v1 does not support LIMIT BY''))
          else
            nbind (option_n (\<lambda>e. normalize_bound src CtxLimit (ast_span e, e)) limit) (\<lambda>l.
            nbind (option_n (normalize_bound src CtxOffset) offset) (\<lambda>m. nret (l, m))))"

definition reject_unconsumed_optional_groups :: "sql_source \<Rightarrow> unit norm" where
  "reject_unconsumed_optional_groups src nz =
     (case find (\<lambda>g. og_original_span g \<notin> nz_consumed nz) (sq_optional_groups src) of
        None \<Rightarrow> Inr ((), nz)
      | Some g \<Rightarrow> Inl (unsupported_at group_message (og_original_span g)))"

section \<open>Statements\<close>

definition reject_select_features :: "sql_source \<Rightarrow> ast_select \<Rightarrow> unit tresult" where
  "reject_select_features src s =
     (if sel_distinct s then Inl (unsupported_node src (sel_span s) ''typed_sql v1 does not support DISTINCT'')
      else if sel_other_features s
      then Inl (unsupported_node src (sel_span s) ''typed_sql v1 only supports SELECT/FROM/JOIN/WHERE/ORDER BY/LIMIT/OFFSET'')
      else Inr ())"

definition reject_query_clauses :: "sql_source \<Rightarrow> ast_query \<Rightarrow> unit tresult" where
  "reject_query_clauses src q =
     (if qy_with q then Inl (unsupported_node src (qy_span q) ''typed_sql v1 does not support WITH clauses'')
      else if qy_fetch q then Inl (unsupported_node src (qy_span q) ''typed_sql v1 does not support FETCH clauses'')
      else if qy_locks q then Inl (unsupported_node src (qy_span q) ''typed_sql v1 does not support locking clauses'')
      else if qy_for_clause q then Inl (unsupported_node src (qy_span q) ''typed_sql v1 does not support FOR clauses'')
      else Inr ())"

definition normalize_query :: "sql_source \<Rightarrow> ast_query \<Rightarrow> parsed_select norm" where
  "normalize_query src q =
     nbind (nlift (reject_query_clauses src q)) (\<lambda>_.
     if qy_other_features q
     then nlift (Inl (unsupported_node src (qy_span q) ''typed_sql v1 only supports standard SELECT queries''))
     else
       (case qy_body q of
          SetSelect s \<Rightarrow>
            nbind (nlift (reject_select_features src s)) (\<lambda>_.
            case sel_from s of
              [] \<Rightarrow> nlift (Inl (unsupported_node src (sel_span s) ''typed_sql v1 requires a FROM clause''))
            | [item] \<Rightarrow>
                nbind (normalize_relation src (tw_relation item)) (\<lambda>from.
                nbind (collect_n (normalize_join src) (tw_joins item)) (\<lambda>joins.
                nbind (collect_n (normalize_projection src) (sel_projection s)) (\<lambda>projections.
                nbind (option_n (\<lambda>e. normalize_expr src e CtxPredicate) (sel_selection s)) (\<lambda>filter.
                nbind (normalize_order_by src (qy_order_by q)) (\<lambda>order_by.
                nbind (normalize_limit_clause src (qy_limit_clause q)) (\<lambda>(limit, offset).
                nbind (reject_unconsumed_optional_groups src) (\<lambda>_.
                nbind (new_node src (qy_span q)) (\<lambda>(i, sp).
                nret \<lparr>ps_id = i, ps_span = sp, ps_projections = projections, ps_from = from, ps_joins = joins,
                  ps_filter = filter, ps_order_by = order_by, ps_limit = limit, ps_offset = offset\<rparr>))))))))
            | _ \<Rightarrow> nlift (Inl (unsupported_node src (sel_span s)
                ''typed_sql v1 supports exactly one FROM relation with optional JOINs'')))
        | _ \<Rightarrow> nlift (Inl (unsupported_node src (qy_span q) ''typed_sql v1 only supports SELECT queries''))))"

definition reject_insert_features :: "sql_source \<Rightarrow> ast_insert \<Rightarrow> unit tresult" where
  "reject_insert_features src ins =
     (if ins_other_features ins
      then Inl (unsupported_node src (ins_span ins)
        ''typed_sql v1 only supports INSERT ... VALUES ... with optional explicit RETURNING columns'')
      else if ins_on ins
      then Inl (unsupported_node src (ins_span ins)
        ''typed_sql v1 does not support ON CONFLICT or other INSERT conflict clauses'')
      else Inr ())"

definition normalize_insert_target :: "sql_source \<Rightarrow> ast_insert \<Rightarrow> parsed_from norm" where
  "normalize_insert_target src ins =
     (case ins_table ins of
        None \<Rightarrow> nlift (Inl (unsupported_node src (ins_span ins)
          ''typed_sql v1 only supports plain table names as INSERT targets''))
      | Some name \<Rightarrow>
          nbind (nlift (normalize_object_name src name)) (\<lambda>table_name.
          nbind (nlift (case ins_table_alias ins of
              Some alias \<Rightarrow> normalize_ident src alias
            | None \<Rightarrow> bindr (object_name_last_ident name) (normalize_ident src))) (\<lambda>binding.
          nbind (new_node src (ins_span ins)) (\<lambda>(i, s).
          nret \<lparr>pf_id = i, pf_span = s, pf_table_name = table_name, pf_binding_name = binding\<rparr>))))"

definition row_span :: "sql_source \<Rightarrow> ast_values \<Rightarrow> ast_expr list \<Rightarrow> source_span tresult" where
  "row_span src vals row =
     (if row = [] then source_span_of src (av_span vals)
      else
        bindr (source_span_of src (ast_span (hd row))) (\<lambda>first.
        bindr (source_span_of src (ast_span (last row))) (\<lambda>final.
        Inr (span_new (span_start first) (span_end final)))))"

definition normalize_values_row :: "sql_source \<Rightarrow> ast_values \<Rightarrow> ast_expr list \<Rightarrow> parsed_values_row norm" where
  "normalize_values_row src vals row =
     nbind (collect_n (\<lambda>e. normalize_expr src e CtxProjection) row) (\<lambda>es.
     nbind (nlift (row_span src vals row)) (\<lambda>span.
     nbind alloc_id (\<lambda>i. nret \<lparr>pv_id = i, pv_span = span, pv_values = es\<rparr>)))"

definition normalize_values :: "sql_source \<Rightarrow> ast_values \<Rightarrow> parsed_values_row list norm" where
  "normalize_values src vals = collect_n (normalize_values_row src vals) (av_rows vals)"

definition reject_values_query_features :: "sql_source \<Rightarrow> ast_query \<Rightarrow> unit tresult" where
  "reject_values_query_features src q =
     bindr (reject_query_clauses src q) (\<lambda>_.
     if qy_other_features q \<or> qy_order_by q \<noteq> None \<or> qy_limit_clause q \<noteq> None
     then Inl (unsupported_node src (qy_span q) ''typed_sql v1 only supports plain INSERT ... VALUES rows'')
     else Inr ())"

definition normalize_insert_values :: "sql_source \<Rightarrow> ast_insert \<Rightarrow> parsed_values_row list norm" where
  "normalize_insert_values src ins =
     (case ins_source ins of
        None \<Rightarrow> nlift (Inl (unsupported_node src (ins_span ins)
          ''typed_sql v1 only supports INSERT ... VALUES ... statements''))
      | Some q \<Rightarrow>
          nbind (nlift (reject_values_query_features src q)) (\<lambda>_.
          case qy_body q of
            SetValues vals \<Rightarrow> normalize_values src vals
          | _ \<Rightarrow> nlift (Inl (unsupported_node src (qy_span q) ''typed_sql v1 does not support INSERT ... SELECT''))))"

definition normalize_insert_statement :: "sql_source \<Rightarrow> ast_insert \<Rightarrow> parsed_statement norm" where
  "normalize_insert_statement src ins =
     nbind (nlift (reject_insert_features src ins)) (\<lambda>_.
     nbind (normalize_insert_target src ins) (\<lambda>target.
     nbind (nlift (collect_r (normalize_ident src) (ins_columns ins))) (\<lambda>columns.
     nbind (normalize_insert_values src ins) (\<lambda>rows.
     nbind (normalize_returning src (ins_returning ins)) (\<lambda>returning.
     nbind (reject_unconsumed_optional_groups src) (\<lambda>_.
     nbind (new_node src (ins_span ins)) (\<lambda>(i, s).
     let st = \<lparr>pi_id = i, pi_span = s, pi_target = target, pi_columns = columns, pi_values = rows, pi_returning = returning\<rparr> in
     nret (if returning = [] then statement_command SkInsert (command_insert st)
           else statement_rows SkInsert (row_insert st)))))))))"

definition normalize_assignment_target :: "sql_source \<Rightarrow> ast_object_name \<Rightarrow> parsed_assignment_target tresult" where
  "normalize_assignment_target src name =
     bindr (source_span_of src (an_span name)) (\<lambda>span.
     bindr (name_parts src ''typed_sql v1 does not support function-based assignment targets'' name) (\<lambda>parts.
     case parts of
       [column] \<Rightarrow> Inr \<lparr>pt_span = span, pt_binding = None, pt_column = column\<rparr>
     | [binding, column] \<Rightarrow> Inr \<lparr>pt_span = span, pt_binding = Some binding, pt_column = column\<rparr>
     | _ \<Rightarrow> Inl (unsupported_at ''typed_sql v1 only supports single-column UPDATE assignments'' span)))"

definition normalize_assignment :: "sql_source \<Rightarrow> ast_assignment \<Rightarrow> parsed_assignment norm" where
  "normalize_assignment src a =
     nbind (nlift (case as_target a of
         TargetColumn name \<Rightarrow> normalize_assignment_target src name
       | TargetTuple \<Rightarrow> Inl (unsupported_node src (as_span a) ''typed_sql v1 does not support tuple assignments in UPDATE''))) (\<lambda>target.
     nbind (new_node src (as_span a)) (\<lambda>(i, s).
     nbind (normalize_expr src (as_value a) CtxProjection) (\<lambda>v.
     nret \<lparr>pa_id = i, pa_span = s, pa_target = target, pa_value = v\<rparr>)))"

definition reject_update_features :: "sql_source \<Rightarrow> ast_update \<Rightarrow> unit tresult" where
  "reject_update_features src u =
     (if upd_other_features u
      then Inl (unsupported_node src (upd_span u)
        ''typed_sql v1 only supports UPDATE ... SET ... WHERE ... with optional explicit RETURNING columns'')
      else if upd_from u then Inl (unsupported_node src (upd_span u) ''typed_sql v1 does not support UPDATE ... FROM'')
      else if tw_joins (upd_table u) \<noteq> []
      then Inl (unsupported_node src (upd_span u) ''typed_sql v1 does not support joined UPDATE targets'')
      else Inr ())"

definition normalize_update_statement :: "sql_source \<Rightarrow> ast_update \<Rightarrow> parsed_statement norm" where
  "normalize_update_statement src u =
     nbind (nlift (reject_update_features src u)) (\<lambda>_.
     nbind (normalize_relation src (tw_relation (upd_table u))) (\<lambda>target.
     nbind (collect_n (normalize_assignment src) (upd_assignments u)) (\<lambda>assignments.
     case upd_selection u of
       None \<Rightarrow> nlift (Inl (unsupported_node src (upd_span u) ''typed_sql v1 requires UPDATE statements to include a WHERE predicate''))
     | Some selection \<Rightarrow>
         nbind (normalize_expr src selection CtxPredicate) (\<lambda>filter.
         nbind (normalize_returning src (upd_returning u)) (\<lambda>returning.
         nbind (reject_unconsumed_optional_groups src) (\<lambda>_.
         nbind (new_node src (upd_span u)) (\<lambda>(i, s).
         let st = \<lparr>pu_id = i, pu_span = s, pu_target = target, pu_assignments = assignments, pu_filter = filter, pu_returning = returning\<rparr> in
         nret (if returning = [] then statement_command SkUpdate (command_update st)
               else statement_rows SkUpdate (row_update st)))))))))"

definition normalize_delete_target :: "sql_source \<Rightarrow> ast_delete \<Rightarrow> parsed_from norm" where
  "normalize_delete_target src d =
     (case del_from d of
        [table] \<Rightarrow>
          if tw_joins table \<noteq> []
          then nlift (Inl (unsupported_node src (del_span d) ''typed_sql v1 does not support joined DELETE targets''))
          else normalize_relation src (tw_relation table)
      | _ \<Rightarrow> nlift (Inl (unsupported_node src (del_span d) ''typed_sql v1 supports DELETE from exactly one target table'')))"

definition reject_delete_features :: "sql_source \<Rightarrow> ast_delete \<Rightarrow> unit tresult" where
  "reject_delete_features src d =
     (if del_other_features d
      then Inl (unsupported_node src (del_span d)
        ''typed_sql v1 only supports DELETE ... WHERE ... with optional explicit RETURNING columns'')
      else if del_using d then Inl (unsupported_node src (del_span d) ''typed_sql v1 does not support DELETE ... USING'')
      else Inr ())"

definition normalize_delete_statement :: "sql_source \<Rightarrow> ast_delete \<Rightarrow> parsed_statement norm" where
  "normalize_delete_statement src d =
     nbind (nlift (reject_delete_features src d)) (\<lambda>_.
     nbind (normalize_delete_target src d) (\<lambda>target.
     case del_selection d of
       None \<Rightarrow> nlift (Inl (unsupported_node src (del_span d) ''typed_sql v1 requires DELETE statements to include a WHERE predicate''))
     | Some selection \<Rightarrow>
         nbind (normalize_expr src selection CtxPredicate) (\<lambda>filter.
         nbind (normalize_returning src (del_returning d)) (\<lambda>returning.
         nbind (reject_unconsumed_optional_groups src) (\<lambda>_.
         nbind (new_node src (del_span d)) (\<lambda>(i, s).
         let st = \<lparr>pd_id = i, pd_span = s, pd_target = target, pd_filter = filter, pd_returning = returning\<rparr> in
         nret (if returning = [] then statement_command SkDelete (command_delete st)
               else statement_rows SkDelete (row_delete st))))))))"

definition normalize_any :: "sql_source \<Rightarrow> ast_statement \<Rightarrow> parsed_statement norm" where
  "normalize_any src st =
     (case st of
        StQuery q \<Rightarrow> nbind (normalize_query src q) (\<lambda>s. nret (statement_query (row_select s)))
      | StInsert ins \<Rightarrow> normalize_insert_statement src ins
      | StUpdate u \<Rightarrow> normalize_update_statement src u
      | StDelete d \<Rightarrow> normalize_delete_statement src d
      | StOther \<Rightarrow> nlift (Inl (unsupported ''typed_sql v1 only supports SELECT, INSERT, UPDATE, and DELETE statements'')))"

definition normalize_statement :: "sql_source \<Rightarrow> ast_statement \<Rightarrow> parsed_statement tresult" where
  "normalize_statement src st = map_sum id fst (normalize_any src st nz_new)"

definition normalize_select :: "sql_source \<Rightarrow> ast_query \<Rightarrow> parsed_select tresult" where
  "normalize_select src q = map_sum id fst (normalize_query src q nz_new)"

section \<open>The parser and its errors\<close>

text \<open>
  What the source takes from outside: the parser, the tokenizer, and the lower case of a text whose first
  character is beyond ASCII. \<open>split_once\<close> at the last occurrence is \<open>rsplit_once\<close>.
\<close>

record sql_parser =
  sp_parse :: "str \<Rightarrow> str + ast_statement list"
  sp_tokenize :: "str \<Rightarrow> str + sql_token list"
  sp_unicode_lowercase_first :: "str \<Rightarrow> str"

definition rsplit_once :: "str \<Rightarrow> str \<Rightarrow> (str \<times> str) option" where
  "rsplit_once sep s = map_option (\<lambda>(a, b). (rev b, rev a)) (split_once (rev sep) (rev s))"

definition parse_location :: "str \<Rightarrow> (u64 \<times> u64) option" where
  "parse_location suffix =
     (case split_once '', Column: '' suffix of
        None \<Rightarrow> None
      | Some (line, column) \<Rightarrow>
          (case (parse_u64 (trim line), parse_u64 (trim column)) of
             (Inr l, Inr c) \<Rightarrow> Some (l, c)
           | _ \<Rightarrow> None))"

definition split_error_location :: "str \<Rightarrow> str \<times> (u64 \<times> u64) option" where
  "split_error_location e =
     (case rsplit_once '' at Line: '' e of
        None \<Rightarrow> (trim e, None)
      | Some (message, suffix) \<Rightarrow>
          (case parse_location suffix of None \<Rightarrow> (trim e, None) | Some loc \<Rightarrow> (trim message, Some loc)))"

definition lowercase_first :: "(str \<Rightarrow> str) \<Rightarrow> str \<Rightarrow> str" where
  "lowercase_first unicode s =
     (case s of
        [] \<Rightarrow> []
      | c # cs \<Rightarrow>
          (let n = of_char c :: nat in
           if 65 \<le> n \<and> n \<le> 90 then char_of (n + 32) # cs
           else if n < 128 then c # cs
           else unicode s))"

definition clean_parse_message :: "(str \<Rightarrow> str) \<Rightarrow> str \<Rightarrow> str" where
  "clean_parse_message unicode message =
     (let message = trim message in
      case strip_prefix ''Expected: '' message of
        None \<Rightarrow> message
      | Some details \<Rightarrow>
          (case split_once '', found: '' details of
             None \<Rightarrow> message
           | Some (expected, found) \<Rightarrow>
               ''expected '' @ lowercase_first unicode (trim expected) @ '' before '' @
               (if trim found = ''EOF'' then ''end of input'' else ''`'' @ trim found @ ''`'')))"

definition extract_found_token :: "str \<Rightarrow> str option" where
  "extract_found_token message =
     (case strip_prefix ''Expected: '' (trim message) of
        None \<Rightarrow> None
      | Some details \<Rightarrow>
          (case split_once '', found: '' details of
             None \<Rightarrow> None
           | Some (_, found) \<Rightarrow> if trim found = ''EOF'' then None else Some (trim found)))"

definition map_parser_error :: "sql_parser \<Rightarrow> sql_source \<Rightarrow> str \<Rightarrow> typed_sql_error" where
  "map_parser_error P src e =
     (let (message, location) = split_error_location e;
          normalized = trim (case strip_prefix ''sql parser error: '' message of None \<Rightarrow> message | Some m \<Rightarrow> m);
          general = parse_with_optional_span (clean_parse_message (sp_unicode_lowercase_first P) normalized)
            (case location of
               None \<Rightarrow> None
             | Some (line, column) \<Rightarrow>
                 (case anchor_parser_error_span (sp_tokenize P) src (unat line) (unat column) (extract_found_token normalized) of
                    Inl _ \<Rightarrow> None
                  | Inr s \<Rightarrow> s)) in
      if normalized = ''Expected: end of statement, found: .'' then
        (case clause_keyword_after_from (sp_tokenize P) src of
           Inr (Some (keyword, span)) \<Rightarrow>
             parse_with_optional_span (''expected a table name after FROM before `'' @ keyword @ ''`'') (Some span)
         | _ \<Rightarrow> general)
      else general)"

definition is_select_body :: "ast_query \<Rightarrow> bool" where
  "is_select_body q = (case qy_body q of SetSelect _ \<Rightarrow> True | _ \<Rightarrow> False)"

definition parse_statement :: "sql_parser \<Rightarrow> sql_source \<Rightarrow> ast_statement tresult" where
  "parse_statement P src =
     bindr (map_err (map_parser_error P src) (sp_parse P (sq_canonical_sql src))) (\<lambda>statements.
     case statements of
       [st] \<Rightarrow>
         (case st of
            StQuery q \<Rightarrow>
              if \<not> is_select_body q
              then Inl (unsupported ''typed_sql v1 does not support set operations or derived top-level queries'')
              else Inr st
          | StOther \<Rightarrow> Inl (unsupported ''typed_sql v1 only supports SELECT, INSERT, UPDATE, and DELETE statements'')
          | _ \<Rightarrow> Inr st)
     | _ \<Rightarrow> Inl (unsupported ''typed_sql v1 expects exactly one statement''))"

definition backend_parse_select :: "sql_parser \<Rightarrow> sql_source \<Rightarrow> ast_query tresult" where
  "backend_parse_select P src =
     bindr (parse_statement P src) (\<lambda>st.
     case st of StQuery q \<Rightarrow> Inr q | _ \<Rightarrow> Inl (unsupported ''typed_sql v1 only supports SELECT statements''))"

definition parse_typed_sql_source :: "sql_parser \<Rightarrow> sql_source \<Rightarrow> parsed_sql tresult" where
  "parse_typed_sql_source P src =
     bindr (parse_statement P src) (\<lambda>st.
     bindr (normalize_statement src st) (\<lambda>parsed. Inr (parsed_sql_new src parsed)))"

definition parse_typed_sql :: "sql_parser \<Rightarrow> str \<Rightarrow> parsed_sql tresult" where
  "parse_typed_sql P sql = bindr (canonicalize sql) (parse_typed_sql_source P)"

definition parse_select :: "sql_parser \<Rightarrow> str \<Rightarrow> parsed_sql tresult" where
  "parse_select P sql = parse_typed_sql P sql"

definition parse_select_source :: "sql_parser \<Rightarrow> sql_source \<Rightarrow> parsed_sql tresult" where
  "parse_select_source P src = parse_typed_sql_source P src"

end
