(* ===== verification/Typed_Normal_Form.thy ===== *)
theory Typed_Normal_Form
  imports Typed_Normalize Typed_Soundness
begin

text \<open>
  What the normalizer promises: the tree it builds has the meaning of the tree of the parser, its nodes have
  identifiers of their own, its optional groups are exactly those of the source text, and an optional
  placeholder in a predicate is an operand of a comparison.
\<close>

section \<open>Runs of the normalizer\<close>

lemma nret_eq [simp]: "nret a nz = Inr (b, nz') \<longleftrightarrow> b = a \<and> nz' = nz"
  by (auto simp: nret_def)

lemma nlift_eq [simp]: "nlift r nz = Inr (b, nz') \<longleftrightarrow> r = Inr b \<and> nz' = nz"
  by (cases r) (auto simp: nlift_def)

lemma nbind_eq: "nbind m f nz = Inr (b, nz') \<longleftrightarrow> (\<exists>a nz1. m nz = Inr (a, nz1) \<and> f a nz1 = Inr (b, nz'))"
  by (auto simp: nbind_def bindr_eq_Inr_iff)

section \<open>Meaning\<close>

text \<open>The three-valued connectives of SQL, as tables.\<close>

fun and3 :: "bool option \<Rightarrow> bool option \<Rightarrow> bool option" where
  "and3 (Some False) y = Some False"
| "and3 (Some True) y = y"
| "and3 None (Some False) = Some False"
| "and3 None y = None"

fun or3 :: "bool option \<Rightarrow> bool option \<Rightarrow> bool option" where
  "or3 (Some True) y = Some True"
| "or3 (Some False) y = y"
| "or3 None (Some True) = Some True"
| "or3 None y = None"

definition connective :: "bool_op \<Rightarrow> bool option \<Rightarrow> bool option \<Rightarrow> bool option" where
  "connective op = (case op of OpAnd \<Rightarrow> and3 | OpOr \<Rightarrow> or3)"

text \<open>
  A column is looked up by the names of its relation and its own, a placeholder by its name. The sixth field
  of the semantics, \<open>sem_truth\<close>, reads the truth of a value.
\<close>

record 'v sql_names =
  sn_column :: "str \<Rightarrow> str \<Rightarrow> 'v option"
  sn_argument :: "str \<Rightarrow> 'v option"

definition unary_value :: "'v sql_sem \<Rightarrow> unary_op \<Rightarrow> 'v option \<Rightarrow> 'v option" where
  "unary_value S op = map_option (\<lambda>v. if op = OpNot then sem_bool S (\<not> sem_truth S v) else sem_sign S op v)"

definition compare_values :: "'v sql_sem \<Rightarrow> binary_op \<Rightarrow> 'v option \<Rightarrow> 'v option \<Rightarrow> 'v option" where
  "compare_values S op x y = (case (x, y) of (Some v, Some w) \<Rightarrow> Some (sem_bool S (sem_compare S op v w)) | _ \<Rightarrow> None)"

definition literal_value :: "'v sql_sem \<Rightarrow> literal \<Rightarrow> 'v option" where
  "literal_value S l = (if l = NullLit then None else Some (sem_literal S l))"

definition truth :: "'v sql_sem \<Rightarrow> 'v option \<Rightarrow> bool option" where
  "truth S = map_option (sem_truth S)"

fun operator_meaning :: "'v sql_sem \<Rightarrow> ast_binary \<Rightarrow> 'v option \<Rightarrow> 'v option \<Rightarrow> 'v option" where
  "operator_meaning S BAnd x y = map_option (sem_bool S) (and3 (truth S x) (truth S y))"
| "operator_meaning S BOr x y = map_option (sem_bool S) (or3 (truth S x) (truth S y))"
| "operator_meaning S BEq x y = compare_values S OpEq x y"
| "operator_meaning S BNotEq x y = compare_values S OpNotEq x y"
| "operator_meaning S BLt x y = compare_values S OpLt x y"
| "operator_meaning S BLtEq x y = compare_values S OpLtEq x y"
| "operator_meaning S BGt x y = compare_values S OpGt x y"
| "operator_meaning S BGtEq x y = compare_values S OpGtEq x y"
| "operator_meaning S BOther x y = None"

fun unary_meaning :: "'v sql_sem \<Rightarrow> ast_unary \<Rightarrow> 'v option \<Rightarrow> 'v option" where
  "unary_meaning S UNot x = unary_value S OpNot x"
| "unary_meaning S UPlus x = unary_value S OpPlus x"
| "unary_meaning S UMinus x = unary_value S OpMinus x"
| "unary_meaning S UOther x = None"

fun value_meaning :: "'v sql_sem \<Rightarrow> sql_source \<Rightarrow> 'v sql_names \<Rightarrow> ast_value \<Rightarrow> 'v option" where
  "value_meaning S src N (VPlaceholder token) =
     (case entry_for_token (sq_placeholders src) token of None \<Rightarrow> None | Some e \<Rightarrow> sn_argument N (pe_name e))"
| "value_meaning S src N (VNumber n) = literal_value S (Number n)"
| "value_meaning S src N (VString s) = literal_value S (StringLit s)"
| "value_meaning S src N (VBoolean b) = literal_value S (Boolean b)"
| "value_meaning S src N VNull = None"
| "value_meaning S src N VOther = None"

text \<open>The meaning of the parser's tree, connectives two by two.\<close>

fun ast_meaning :: "'v sql_sem \<Rightarrow> sql_source \<Rightarrow> 'v sql_names \<Rightarrow> ast_expr \<Rightarrow> 'v option" where
  "ast_meaning S src N (ECompound s parts) =
     (case parts of [b, c] \<Rightarrow> sn_column N (ai_value b) (ai_value c) | _ \<Rightarrow> None)"
| "ast_meaning S src N (EIdentifier s) = None"
| "ast_meaning S src N (EValue s v) = value_meaning S src N v"
| "ast_meaning S src N (EUnary s op e) =
     unary_meaning S op (ast_meaning S src N e)"
| "ast_meaning S src N (EBinary s l op r) = operator_meaning S op (ast_meaning S src N l) (ast_meaning S src N r)"
| "ast_meaning S src N (EIsNull s e) = Some (sem_bool S (ast_meaning S src N e = None))"
| "ast_meaning S src N (EIsNotNull s e) = Some (sem_bool S (ast_meaning S src N e \<noteq> None))"
| "ast_meaning S src N (ENested s e) = ast_meaning S src N e"
| "ast_meaning S src N (EOther s) = None"

text \<open>The meaning of the intermediate representation, all optional parts included.\<close>

fun expr_meaning :: "'v sql_sem \<Rightarrow> 'v sql_names \<Rightarrow> parsed_expr \<Rightarrow> 'v option" where
  "expr_meaning S N (PColumn c) = sn_column N (id_value (cr_binding c)) (id_value (cr_column c))"
| "expr_meaning S N (PPlaceholder p) = sn_argument N (pr_name p)"
| "expr_meaning S N (PLiteral l) = literal_value S (pl_value l)"
| "expr_meaning S N (POptionalGroup i s e) = expr_meaning S N e"
| "expr_meaning S N (PUnary i s op e) = unary_value S op (expr_meaning S N e)"
| "expr_meaning S N (PBinary i s op l r) = compare_values S op (expr_meaning S N l) (expr_meaning S N r)"
| "expr_meaning S N (PIsNull i s negated e) = Some (sem_bool S ((expr_meaning S N e = None) \<noteq> negated))"
| "expr_meaning S N (PBoolChain i s op ts) =
     map_option (sem_bool S) (chain_value op (map (\<lambda>t. truth S (expr_meaning S N t)) ts))"

lemma chain_value_append: "chain_value op (xs @ ys) = connective op (chain_value op xs) (chain_value op ys)"
  by (cases op) (auto simp: chain_value_def connective_def)

lemma chain_value_single [simp]: "chain_value op [x] = x"
  by (cases op; cases x) (auto simp: chain_value_def)

lemma truth_bool: "(\<And>b. sem_truth S (sem_bool S b) = b) \<Longrightarrow> truth S (map_option (sem_bool S) x) = x"
  by (cases x) (simp_all add: truth_def)

lemma normalize_column_meaning:
  "normalize_column src span parts nz = Inr (p, nz') \<Longrightarrow> expr_meaning S N p = ast_meaning S src N (ECompound span parts)"
  by (auto simp: normalize_column_def nbind_eq normalize_ident_def bindr_eq_Inr_iff split: list.splits)

lemma normalize_value_meaning:
  "normalize_value src span v c nz = Inr (p, nz') \<Longrightarrow> expr_meaning S N p = value_meaning S src N v"
  by (auto simp: normalize_value_def normalize_literal_def normalize_placeholder_def literal_value_def nbind_eq
      split: ast_value.splits option.splits if_splits)

lemma close_group_meaning:
  "close_group src canonical c inner nz = Inr (p, nz') \<Longrightarrow> expr_meaning S N p = expr_meaning S N inner"
  by (auto simp: close_group_def nbind_eq split: option.splits if_splits)

lemma chain_operator:
  "bool_op_of op = Some bop \<Longrightarrow> operator_meaning S op x y = map_option (sem_bool S) (connective bop (truth S x) (truth S y))"
  by (cases op) (auto simp: bool_op_of_def connective_def)

lemma comparison_operator: "map_binary_op op = Some op' \<Longrightarrow> operator_meaning S op x y = compare_values S op' x y"
  by (cases op) auto

lemma unary_operator: "map_unary_op op = Some op' \<Longrightarrow> unary_meaning S op x = unary_value S op' x"
  by (cases op) auto

lemma expr_meaning_preserved:
  assumes "\<And>b. sem_truth S (sem_bool S b) = b"
  shows "normalize_expr src e c nz = Inr (p, nz') \<Longrightarrow> expr_meaning S N p = ast_meaning S src N e"
    and "collect_bool_terms src e bop nz = Inr (ts, nz') \<Longrightarrow>
      chain_value bop (map (\<lambda>t. truth S (expr_meaning S N t)) ts) = truth S (ast_meaning S src N e)"
proof (induction src e c nz and src e bop nz arbitrary: p nz' and ts nz' rule: normalize_expr_collect_bool_terms.induct)
  case (5 src span l op r c nz)
  show ?case
  proof (cases "bool_op_of op")
    case None
    with 5 show ?thesis by (auto simp: nbind_eq comparison_operator split: option.splits)
  next
    case (Some bop)
    with 5 show ?thesis by (auto simp: nbind_eq chain_value_append chain_operator)
  qed
next
  case (10 src span l op r bop nz)
  show ?case
  proof (cases "bool_op_of op = Some bop")
    case True
    with 10 show ?thesis by (auto simp: nbind_eq chain_value_append chain_operator truth_bool [OF assms])
  next
    case False
    then obtain t where t: "normalize_expr src (EBinary span l op r) CtxPredicate nz = Inr (t, nz')" "ts = [t]"
      using "10.prems" by (auto simp: nbind_eq simp del: normalize_expr.simps)
    show ?thesis unfolding t(2) list.map chain_value_single using "10.IH"(3) [OF False t(1)] by simp
  qed
qed (auto simp: nbind_eq unary_operator normalize_column_meaning normalize_value_meaning close_group_meaning split: option.splits)

section \<open>Meaning of a statement\<close>

lemma collect_n_all2:
  assumes "collect_n f xs nz = Inr (ys, nz')" "\<And>x y nz nz'. f x nz = Inr (y, nz') \<Longrightarrow> P x y"
  shows "list_all2 P xs ys"
  using assms(1) by (induction xs arbitrary: ys nz) (auto simp: nbind_eq dest: assms(2))

lemma option_n_rel:
  assumes "option_n f x nz = Inr (y, nz')" "\<And>a b nz nz'. f a nz = Inr (b, nz') \<Longrightarrow> P a b"
  shows "rel_option P x y"
  using assms by (auto simp: option_n_def nbind_eq split: option.splits)

definition same_meaning :: "'v sql_sem \<Rightarrow> sql_source \<Rightarrow> ast_expr \<Rightarrow> parsed_expr \<Rightarrow> bool" where
  "same_meaning S src e p \<longleftrightarrow> (\<forall>N. expr_meaning S N p = ast_meaning S src N e)"

fun item_expr :: "ast_select_item \<Rightarrow> ast_expr option" where
  "item_expr (ItemUnnamed s e) = Some e"
| "item_expr (ItemAlias s e a) = Some e"
| "item_expr _ = None"

fun part_name :: "ast_name_part \<Rightarrow> str option" where
  "part_name (PartIdentifier i) = Some (ai_value i)"
| "part_name PartFunction = None"

text \<open>A relation keeps its name, and its binding is the alias or the last part of the name.\<close>

fun same_relation :: "ast_table_factor \<Rightarrow> parsed_from \<Rightarrow> bool" where
  "same_relation (TfTable s name alias extra) f \<longleftrightarrow>
     map part_name (an_parts name) = map (\<lambda>i. Some (id_value i)) (on_parts (pf_table_name f))
     \<and> Some (id_value (pf_binding_name f)) = (case alias of Some a \<Rightarrow> Some (ai_value (ta_name a)) | None \<Rightarrow> part_name (last (an_parts name)))"
| "same_relation (TfOther s) f \<longleftrightarrow> False"

definition same_projection :: "'v sql_sem \<Rightarrow> sql_source \<Rightarrow> ast_select_item \<Rightarrow> parsed_projection \<Rightarrow> bool" where
  "same_projection S src item p \<longleftrightarrow> (\<exists>e. item_expr item = Some e \<and> same_meaning S src e (pp_expr p))"

inductive joins_on :: "ast_join_operator \<Rightarrow> join_kind \<Rightarrow> ast_expr \<Rightarrow> bool" where
  join: "joins_on (JoJoin (ConOn e)) JInner e"
| inner: "joins_on (JoInner (ConOn e)) JInner e"
| left: "joins_on (JoLeft (ConOn e)) JLeft e"
| left_outer: "joins_on (JoLeftOuter (ConOn e)) JLeft e"
| right: "joins_on (JoRight (ConOn e)) JRight e"
| right_outer: "joins_on (JoRightOuter (ConOn e)) JRight e"
| full_outer: "joins_on (JoFullOuter (ConOn e)) JFull e"

lemma join_parts_joins: "join_parts op = Inr (kind, e) \<Longrightarrow> joins_on op kind e"
  by (cases op) (auto simp: on_predicate_def intro: joins_on.intros split: ast_join_constraint.splits)

definition same_join :: "'v sql_sem \<Rightarrow> sql_source \<Rightarrow> ast_join \<Rightarrow> parsed_join \<Rightarrow> bool" where
  "same_join S src j p \<longleftrightarrow> same_relation (aj_relation j) (pj_right p)
     \<and> (\<exists>e. joins_on (aj_operator j) (pj_kind p) e \<and> same_meaning S src e (pj_on p))"

definition same_order :: "'v sql_sem \<Rightarrow> sql_source \<Rightarrow> ast_order_item \<Rightarrow> parsed_order_by \<Rightarrow> bool" where
  "same_order S src item p \<longleftrightarrow> same_meaning S src (oi_expr item) (po_expr p)
     \<and> (po_direction p = Desc \<longleftrightarrow> oi_asc item = Some False)
     \<and> po_nulls p = map_option (\<lambda>b. if b then NullsFirst else NullsLast) (oi_nulls_first item)"

definition order_items :: "ast_query \<Rightarrow> ast_order_item list" where
  "order_items q = (case qy_order_by q of Some ob \<Rightarrow> (case ob_kind ob of Some items \<Rightarrow> items | None \<Rightarrow> []) | None \<Rightarrow> [])"

definition limit_expr :: "ast_query \<Rightarrow> ast_expr option" where
  "limit_expr q = (case qy_limit_clause q of Some (LcLimitOffset s l m b) \<Rightarrow> l | _ \<Rightarrow> None)"

definition offset_expr :: "ast_query \<Rightarrow> ast_expr option" where
  "offset_expr q = (case qy_limit_clause q of Some (LcLimitOffset s l m b) \<Rightarrow> map_option snd m | _ \<Rightarrow> None)"

text \<open>A SELECT of the parser and one of the intermediate representation with the same clauses.\<close>

definition same_select :: "'v sql_sem \<Rightarrow> sql_source \<Rightarrow> ast_query \<Rightarrow> parsed_select \<Rightarrow> bool" where
  "same_select S src q p \<longleftrightarrow>
     (\<exists>s item. qy_body q = SetSelect s \<and> sel_from s = [item] \<and> \<not> sel_distinct s
        \<and> same_relation (tw_relation item) (ps_from p)
        \<and> list_all2 (same_join S src) (tw_joins item) (ps_joins p)
        \<and> list_all2 (same_projection S src) (sel_projection s) (ps_projections p)
        \<and> rel_option (same_meaning S src) (sel_selection s) (ps_filter p))
     \<and> list_all2 (same_order S src) (order_items q) (ps_order_by p)
     \<and> rel_option (\<lambda>e l. same_meaning S src e (plim_expr l)) (limit_expr q) (ps_limit p)
     \<and> rel_option (\<lambda>e l. same_meaning S src e (plim_expr l)) (offset_expr q) (ps_offset p)"

lemma collect_idents_values:
  "collect_r (case_ast_name_part (normalize_ident src) (Inl e)) xs = Inr parts \<Longrightarrow>
   map part_name xs = map (\<lambda>i. Some (id_value i)) parts"
  by (induction xs arbitrary: parts) (auto simp: bindr_eq_Inr_iff normalize_ident_def split: ast_name_part.splits)

lemma name_parts_values:
  "name_parts src m name = Inr parts \<Longrightarrow> map part_name (an_parts name) = map (\<lambda>i. Some (id_value i)) parts"
  unfolding name_parts_def by (rule collect_idents_values)

lemma normalize_relation_same: "normalize_relation src t nz = Inr (f, nz') \<Longrightarrow> same_relation t f"
  by (cases t) (auto simp: normalize_relation_def normalize_table_factor_def nbind_eq bindr_eq_Inr_iff normalize_object_name_def
      nz_binding_name_def object_name_last_ident_def normalize_ident_def dest!: name_parts_values
      split: if_splits option.splits ast_name_part.splits)

definition sem_boolean :: "'v sql_sem \<Rightarrow> bool" where
  "sem_boolean S \<longleftrightarrow> (\<forall>b. sem_truth S (sem_bool S b) = b)"

lemma normalize_expr_same: "sem_boolean S \<Longrightarrow> normalize_expr src e c nz = Inr (p, nz') \<Longrightarrow> same_meaning S src e p"
  unfolding same_meaning_def sem_boolean_def using expr_meaning_preserved(1) by blast

lemma normalize_item_same:
  "sem_boolean S \<Longrightarrow> normalize_item m src item nz = Inr (p, nz') \<Longrightarrow> same_projection S src item p"
  by (cases item) (auto simp: normalize_item_def nbind_eq same_projection_def dest: normalize_expr_same)

lemma normalize_join_same: "sem_boolean S \<Longrightarrow> normalize_join src j nz = Inr (p, nz') \<Longrightarrow> same_join S src j p"
  by (fastforce simp: normalize_join_def nbind_eq same_join_def
      dest: normalize_relation_same intro: join_parts_joins normalize_expr_same split: if_splits)

lemma normalize_order_item_same:
  "sem_boolean S \<Longrightarrow> normalize_order_by_expr src item nz = Inr (p, nz') \<Longrightarrow> same_order S src item p"
  by (auto simp: normalize_order_by_expr_def nbind_eq same_order_def dest: normalize_expr_same split: if_splits)

lemma normalize_order_by_same:
  "sem_boolean S \<Longrightarrow> normalize_order_by src (qy_order_by q) nz = Inr (ps, nz') \<Longrightarrow> list_all2 (same_order S src) (order_items q) ps"
  by (auto simp: normalize_order_by_def order_items_def split: option.splits
      elim!: collect_n_all2 dest: normalize_order_item_same)

lemma normalize_bound_same:
  "sem_boolean S \<Longrightarrow> normalize_bound src c b nz = Inr (l, nz') \<Longrightarrow> same_meaning S src (snd b) (plim_expr l)"
  by (auto simp: normalize_bound_def nbind_eq dest: normalize_expr_same)

lemma normalize_limit_same:
  assumes "sem_boolean S" "normalize_limit_clause src (qy_limit_clause q) nz = Inr ((l, m), nz')"
  shows "rel_option (\<lambda>e l. same_meaning S src e (plim_expr l)) (limit_expr q) l
    \<and> rel_option (\<lambda>e l. same_meaning S src e (plim_expr l)) (offset_expr q) m"
proof (cases "qy_limit_clause q")
  case None
  with assms(2) show ?thesis by (simp add: normalize_limit_clause_def limit_expr_def offset_expr_def)
next
  case (Some lc)
  with assms(2) obtain s a b where lc: "lc = LcLimitOffset s a b False"
    by (cases lc) (auto simp: normalize_limit_clause_def split: if_splits)
  with assms(2) Some obtain nz1 where
    l: "option_n (\<lambda>e. normalize_bound src CtxLimit (ast_span e, e)) a nz = Inr (l, nz1)" and
    m: "option_n (normalize_bound src CtxOffset) b nz1 = Inr (m, nz')"
    by (auto simp: normalize_limit_clause_def nbind_eq)
  have "rel_option (\<lambda>e l. same_meaning S src e (plim_expr l)) a l"
    by (rule option_n_rel [OF l]) (auto dest: normalize_bound_same [OF assms(1)])
  moreover have "rel_option (\<lambda>x l. same_meaning S src (snd x) (plim_expr l)) b m"
    by (rule option_n_rel [OF m]) (rule normalize_bound_same [OF assms(1)])
  ultimately show ?thesis
    using Some lc by (simp add: limit_expr_def offset_expr_def option.rel_map)
qed

lemma normalize_query_same:
  assumes S: "sem_boolean S" and q: "normalize_query src q nz = Inr (p, nz')"
  shows "same_select S src q p"
proof -
  obtain s where s: "qy_body q = SetSelect s"
    using q by (cases "qy_body q") (auto simp: normalize_query_def nbind_eq split: if_splits)
  then obtain item where item: "sel_from s = [item]"
    using q by (cases "sel_from s" rule: remdups_adj.cases) (auto simp: normalize_query_def nbind_eq split: if_splits)
  obtain nz1 nz2 nz3 nz4 nz5 nz6 where
    runs: "normalize_relation src (tw_relation item) nz = Inr (ps_from p, nz1)"
      "collect_n (normalize_join src) (tw_joins item) nz1 = Inr (ps_joins p, nz2)"
      "collect_n (normalize_projection src) (sel_projection s) nz2 = Inr (ps_projections p, nz3)"
      "option_n (\<lambda>e. normalize_expr src e CtxPredicate) (sel_selection s) nz3 = Inr (ps_filter p, nz4)"
      "normalize_order_by src (qy_order_by q) nz4 = Inr (ps_order_by p, nz5)"
      "normalize_limit_clause src (qy_limit_clause q) nz5 = Inr ((ps_limit p, ps_offset p), nz6)"
    and features: "reject_select_features src s = Inr ()"
    using q s item by (auto simp: normalize_query_def nbind_eq split: if_splits)
  have "\<not> sel_distinct s" using features by (auto simp: reject_select_features_def split: if_splits)
  moreover have "list_all2 (same_join S src) (tw_joins item) (ps_joins p)"
    by (rule collect_n_all2 [OF runs(2)]) (rule normalize_join_same [OF S])
  moreover have "list_all2 (same_projection S src) (sel_projection s) (ps_projections p)"
    by (rule collect_n_all2 [OF runs(3)]) (unfold normalize_projection_def, rule normalize_item_same [OF S])
  moreover have "rel_option (same_meaning S src) (sel_selection s) (ps_filter p)"
    by (rule option_n_rel [OF runs(4)]) (rule normalize_expr_same [OF S])
  ultimately show ?thesis
    using normalize_relation_same [OF runs(1)] normalize_order_by_same [OF S runs(5)] normalize_limit_same [OF S runs(6)] s item
    by (auto simp: same_select_def)
qed

section \<open>Identifiers and groups\<close>

fun expr_ids :: "parsed_expr \<Rightarrow> ast_id list" where
  "expr_ids (PColumn c) = [cr_id c]"
| "expr_ids (PPlaceholder p) = [pr_id p]"
| "expr_ids (PLiteral l) = [pl_id l]"
| "expr_ids (POptionalGroup i s e) = i # expr_ids e"
| "expr_ids (PUnary i s op e) = i # expr_ids e"
| "expr_ids (PBinary i s op l r) = i # expr_ids l @ expr_ids r"
| "expr_ids (PIsNull i s negated e) = i # expr_ids e"
| "expr_ids (PBoolChain i s op ts) = i # concat (map expr_ids ts)"

fun expr_groups :: "parsed_expr \<Rightarrow> source_span set" where
  "expr_groups (PColumn c) = {}"
| "expr_groups (PPlaceholder p) = {}"
| "expr_groups (PLiteral l) = {}"
| "expr_groups (POptionalGroup i s e) = insert s (expr_groups e)"
| "expr_groups (PUnary i s op e) = expr_groups e"
| "expr_groups (PBinary i s op l r) = expr_groups l \<union> expr_groups r"
| "expr_groups (PIsNull i s negated e) = expr_groups e"
| "expr_groups (PBoolChain i s op ts) = \<Union> (set (map expr_groups ts))"

text \<open>
  A run that has created the nodes \<open>ids\<close> and consumed the groups \<open>gs\<close>, all of them groups of the source.
\<close>

definition source_groups :: "sql_source \<Rightarrow> source_span set" where
  "source_groups src = og_original_span ` set (sq_optional_groups src)"

definition extends :: "sql_source \<Rightarrow> normalizer \<Rightarrow> ast_id list \<Rightarrow> source_span set \<Rightarrow> normalizer \<Rightarrow> bool" where
  "extends src nz ids gs nz' \<longleftrightarrow>
     distinct ids \<and> set ids \<subseteq> {nz_next_id nz..<nz_next_id nz'} \<and> nz_next_id nz \<le> nz_next_id nz'
     \<and> gs \<subseteq> source_groups src \<and> nz_consumed nz' = nz_consumed nz \<union> gs"

lemma extends_refl: "extends src nz [] {} nz"
  by (simp add: extends_def)

lemma extends_append: "extends src nz A G nz1 \<Longrightarrow> extends src nz1 B H nz2 \<Longrightarrow> extends src nz (A @ B) (G \<union> H) nz2"
  by (fastforce simp: extends_def)

lemma extends_first: "extends src nz [i] {} nz1 \<Longrightarrow> extends src nz1 A G nz2 \<Longrightarrow> extends src nz (i # A) G nz2"
  using extends_append by fastforce

lemma extends_last: "extends src nz A G nz1 \<Longrightarrow> extends src nz1 [i] {} nz2 \<Longrightarrow> extends src nz (i # A) G nz2"
  by (fastforce simp: extends_def)

lemma extends_alloc: "alloc_id nz = Inr (i, nz') \<Longrightarrow> extends src nz [i] {} nz'"
  by (auto simp: alloc_id_def extends_def)

lemma extends_node: "new_node src s nz = Inr ((i, sp), nz') \<Longrightarrow> extends src nz [i] {} nz'"
  by (auto simp: new_node_def nbind_eq dest: extends_alloc)

lemma extends_collect:
  assumes "collect_n f xs nz = Inr (ys, nz')" "\<And>x y nz nz'. f x nz = Inr (y, nz') \<Longrightarrow> extends src nz (ids y) (gs y) nz'"
  shows "extends src nz (concat (map ids ys)) (\<Union> (set (map gs ys))) nz'"
  using assms(1)
proof (induction xs arbitrary: ys nz)
  case Nil
  then show ?case by (simp add: extends_refl)
next
  case (Cons x xs)
  then obtain y zs nz1 where "ys = y # zs" "f x nz = Inr (y, nz1)" "collect_n f xs nz1 = Inr (zs, nz')"
    by (auto simp: nbind_eq)
  then show ?case using extends_append [OF assms(2) Cons.IH] by simp
qed

lemma extends_option:
  assumes "option_n f x nz = Inr (y, nz')" "\<And>a b nz nz'. f a nz = Inr (b, nz') \<Longrightarrow> extends src nz (ids b) (gs b) nz'"
  shows "extends src nz (option_list ids y) (case y of None \<Rightarrow> {} | Some b \<Rightarrow> gs b) nz'"
  using assms by (auto simp: option_n_def option_list_def nbind_eq extends_refl split: option.splits)

lemma extends_column: "normalize_column src span parts nz = Inr (p, nz') \<Longrightarrow> extends src nz (expr_ids p) (expr_groups p) nz'"
  by (auto simp: normalize_column_def nbind_eq split: list.splits dest: extends_node)

lemma extends_placeholder: "normalize_placeholder src span entry c nz = Inr (p, nz') \<Longrightarrow> extends src nz [pr_id p] {} nz'"
proof -
  assume run: "normalize_placeholder src span entry c nz = Inr (p, nz')"
  then obtain canonical where "canonical_span_for_parser src span = Inr canonical"
    by (auto simp: normalize_placeholder_def nbind_eq)
  with run show ?thesis
    by (cases "find (\<lambda>occ. oc_canonical_span occ = canonical) (pe_occurrences entry)")
      (auto simp: normalize_placeholder_def nbind_eq split: if_splits dest: extends_alloc)
qed

lemma extends_value: "normalize_value src span v c nz = Inr (p, nz') \<Longrightarrow> extends src nz (expr_ids p) (expr_groups p) nz'"
  by (auto simp: normalize_value_def normalize_literal_def nbind_eq
      split: ast_value.splits option.splits dest: extends_node extends_placeholder)

lemma extends_group:
  assumes "extends src nz (expr_ids inner) (expr_groups inner) nz1" "close_group src canonical c inner nz1 = Inr (p, nz')"
  shows "extends src nz (expr_ids p) (expr_groups p) nz'"
proof (cases "entry_for_canonical_span (sq_optional_groups src) canonical")
  case None
  with assms show ?thesis by (simp add: close_group_def)
next
  case (Some g)
  then have g: "og_original_span g \<in> source_groups src"
    by (auto simp: entry_for_canonical_span_def source_groups_def find_Some_iff)
  from Some assms(2) show ?thesis
    using assms(1) g by (auto simp: close_group_def nbind_eq consume_def alloc_id_def extends_def split: if_splits)
qed

lemma extends_expr:
  shows "normalize_expr src e c nz = Inr (p, nz') \<Longrightarrow> extends src nz (expr_ids p) (expr_groups p) nz'"
    and "collect_bool_terms src e bop nz = Inr (ts, nz') \<Longrightarrow>
      extends src nz (concat (map expr_ids ts)) (\<Union> (set (map expr_groups ts))) nz'"
proof (induction src e c nz and src e bop nz arbitrary: p nz' and ts nz' rule: normalize_expr_collect_bool_terms.induct)
  case (4 src span op e c nz)
  then obtain op' i s nz1 inner where
    runs: "map_unary_op op = Some op'" "new_node src span nz = Inr ((i, s), nz1)"
      "normalize_expr src e (nested_value_context c) nz1 = Inr (inner, nz')"
    and p: "p = PUnary i s op' inner"
    by (auto simp: nbind_eq split: option.splits)
  show ?case using extends_first [OF extends_node [OF runs(2)] "4.IH" [OF runs(1,2) refl runs(3)]] by (simp add: p)
next
  case (5 src span l op r c nz)
  show ?case
  proof (cases "bool_op_of op")
    case None
    with "5.prems" obtain i s nz1 op' left nz2 right where
      runs: "new_node src span nz = Inr ((i, s), nz1)" "map_binary_op op = Some op'"
        "normalize_expr src l (comparison_operand_context c) nz1 = Inr (left, nz2)"
        "normalize_expr src r (comparison_operand_context c) nz2 = Inr (right, nz')"
      and p: "p = PBinary i s op' left right"
      by (auto simp: nbind_eq split: option.splits)
    show ?thesis unfolding p expr_ids.simps expr_groups.simps
      using extends_node [OF runs(1)] "5.IH"(1) [OF None runs(1) refl runs(2,3)] "5.IH"(2) [OF None runs(1) refl runs(2,4)]
      by (blast intro: extends_first extends_append)
  next
    case (Some bop)
    with "5.prems" obtain us vs nz1 nz2 i s where
      runs: "collect_bool_terms src l bop nz = Inr (us, nz1)" "collect_bool_terms src r bop nz1 = Inr (vs, nz2)"
        "new_node src span nz2 = Inr ((i, s), nz')"
      and p: "p = PBoolChain i s bop (us @ vs)"
      by (auto simp: nbind_eq)
    show ?thesis
      using extends_last [OF extends_append [OF "5.IH"(3) [OF Some runs(1)] "5.IH"(4) [OF Some runs(1,2)]] extends_node [OF runs(3)]]
      by (simp add: p Un_assoc image_Un)
  qed
next
  case (6 src span e c nz)
  then obtain i s nz1 inner where
    runs: "new_node src span nz = Inr ((i, s), nz1)" "normalize_expr src e (nested_value_context c) nz1 = Inr (inner, nz')"
    and p: "p = PIsNull i s False inner"
    by (auto simp: nbind_eq)
  show ?case using extends_first [OF extends_node [OF runs(1)] "6.IH" [OF runs(1) refl runs(2)]] by (simp add: p)
next
  case (7 src span e c nz)
  then obtain i s nz1 inner where
    runs: "new_node src span nz = Inr ((i, s), nz1)" "normalize_expr src e (nested_value_context c) nz1 = Inr (inner, nz')"
    and p: "p = PIsNull i s True inner"
    by (auto simp: nbind_eq)
  show ?case using extends_first [OF extends_node [OF runs(1)] "7.IH" [OF runs(1) refl runs(2)]] by (simp add: p)
next
  case (8 src span e c nz)
  then show ?case by (auto simp: nbind_eq intro: extends_group)
next
  case (10 src span l op r bop nz)
  show ?case
  proof (cases "bool_op_of op = Some bop")
    case True
    with "10.prems" obtain us vs nz1 where
      runs: "collect_bool_terms src l bop nz = Inr (us, nz1)" "collect_bool_terms src r bop nz1 = Inr (vs, nz')"
      and ts: "ts = us @ vs"
      by (auto simp: nbind_eq)
    show ?thesis
      using extends_append [OF "10.IH"(1) [OF True runs(1)] "10.IH"(2) [OF True runs]] by (simp add: ts image_Un)
  next
    case False
    then obtain t where t: "normalize_expr src (EBinary span l op r) CtxPredicate nz = Inr (t, nz')" "ts = [t]"
      using "10.prems" by (auto simp: nbind_eq simp del: normalize_expr.simps)
    show ?thesis using "10.IH"(3) [OF False t(1)] by (simp add: t(2))
  qed
qed ((auto simp: nbind_eq simp del: normalize_expr.simps; fail)
  | (auto simp: nbind_eq extends_column extends_value; fail))+

definition projection_ids :: "parsed_projection \<Rightarrow> ast_id list" where
  "projection_ids p = pp_id p # expr_ids (pp_expr p)"

definition join_ids :: "parsed_join \<Rightarrow> ast_id list" where
  "join_ids j = pj_id j # pf_id (pj_right j) # expr_ids (pj_on j)"

definition order_ids :: "parsed_order_by \<Rightarrow> ast_id list" where
  "order_ids item = po_id item # expr_ids (po_expr item)"

definition limit_ids :: "parsed_limit \<Rightarrow> ast_id list" where
  "limit_ids l = plim_id l # expr_ids (plim_expr l)"

definition row_ids :: "parsed_values_row \<Rightarrow> ast_id list" where
  "row_ids r = pv_id r # concat (map expr_ids (pv_values r))"

definition assignment_ids :: "parsed_assignment \<Rightarrow> ast_id list" where
  "assignment_ids a = pa_id a # expr_ids (pa_value a)"

definition set_groups :: "('a \<Rightarrow> parsed_expr) \<Rightarrow> 'a list \<Rightarrow> source_span set" where
  "set_groups f xs = \<Union> (set (map (\<lambda>x. expr_groups (f x)) xs))"

definition option_groups :: "('a \<Rightarrow> parsed_expr) \<Rightarrow> 'a option \<Rightarrow> source_span set" where
  "option_groups f x = (case x of None \<Rightarrow> {} | Some a \<Rightarrow> expr_groups (f a))"

definition row_groups :: "parsed_values_row list \<Rightarrow> source_span set" where
  "row_groups rows = \<Union> (set (map (\<lambda>r. set_groups id (pv_values r)) rows))"

definition select_ids :: "parsed_select \<Rightarrow> ast_id list" where
  "select_ids s = ps_id s # [pf_id (ps_from s)] @ concat (map join_ids (ps_joins s)) @ concat (map projection_ids (ps_projections s))
     @ option_list expr_ids (ps_filter s) @ concat (map order_ids (ps_order_by s))
     @ option_list limit_ids (ps_limit s) @ option_list limit_ids (ps_offset s)"

definition select_groups :: "parsed_select \<Rightarrow> source_span set" where
  "select_groups s = {} \<union> (set_groups pj_on (ps_joins s) \<union> (set_groups pp_expr (ps_projections s) \<union> (option_groups id (ps_filter s)
     \<union> (set_groups po_expr (ps_order_by s) \<union> (option_groups plim_expr (ps_limit s) \<union> option_groups plim_expr (ps_offset s))))))"

definition insert_ids :: "parsed_insert \<Rightarrow> ast_id list" where
  "insert_ids s = pi_id s # [pf_id (pi_target s)] @ concat (map row_ids (pi_values s)) @ concat (map projection_ids (pi_returning s))"

definition update_ids :: "parsed_update \<Rightarrow> ast_id list" where
  "update_ids s = pu_id s # [pf_id (pu_target s)] @ concat (map assignment_ids (pu_assignments s)) @ expr_ids (pu_filter s)
     @ concat (map projection_ids (pu_returning s))"

definition delete_ids :: "parsed_delete \<Rightarrow> ast_id list" where
  "delete_ids s = pd_id s # [pf_id (pd_target s)] @ expr_ids (pd_filter s) @ concat (map projection_ids (pd_returning s))"

fun row_body_ids :: "row_statement_body \<Rightarrow> ast_id list" where
  "row_body_ids (RSelect s) = select_ids s"
| "row_body_ids (RInsert s) = insert_ids s"
| "row_body_ids (RUpdate s) = update_ids s"
| "row_body_ids (RDelete s) = delete_ids s"

fun command_body_ids :: "command_statement_body \<Rightarrow> ast_id list" where
  "command_body_ids (CInsert s) = insert_ids s"
| "command_body_ids (CUpdate s) = update_ids s"
| "command_body_ids (CDelete s) = delete_ids s"

definition statement_ids :: "parsed_statement \<Rightarrow> ast_id list" where
  "statement_ids st = (case pst_body st of BodyRows r \<Rightarrow> row_body_ids (prs_body r) | BodyCommand c \<Rightarrow> command_body_ids (pcs_body c))"

definition insert_groups :: "parsed_insert \<Rightarrow> source_span set" where
  "insert_groups s = {} \<union> (row_groups (pi_values s) \<union> set_groups pp_expr (pi_returning s))"

definition update_groups :: "parsed_update \<Rightarrow> source_span set" where
  "update_groups s = {} \<union> (set_groups pa_value (pu_assignments s) \<union> (expr_groups (pu_filter s) \<union> set_groups pp_expr (pu_returning s)))"

definition delete_groups :: "parsed_delete \<Rightarrow> source_span set" where
  "delete_groups s = {} \<union> (expr_groups (pd_filter s) \<union> set_groups pp_expr (pd_returning s))"

fun row_body_groups :: "row_statement_body \<Rightarrow> source_span set" where
  "row_body_groups (RSelect s) = select_groups s"
| "row_body_groups (RInsert s) = insert_groups s"
| "row_body_groups (RUpdate s) = update_groups s"
| "row_body_groups (RDelete s) = delete_groups s"

fun command_body_groups :: "command_statement_body \<Rightarrow> source_span set" where
  "command_body_groups (CInsert s) = insert_groups s"
| "command_body_groups (CUpdate s) = update_groups s"
| "command_body_groups (CDelete s) = delete_groups s"

definition statement_groups :: "parsed_statement \<Rightarrow> source_span set" where
  "statement_groups st = (case pst_body st of BodyRows r \<Rightarrow> row_body_groups (prs_body r) | BodyCommand c \<Rightarrow> command_body_groups (pcs_body c))"

lemma extends_relation: "normalize_relation src t nz = Inr (f, nz') \<Longrightarrow> extends src nz [pf_id f] {} nz'"
  by (cases t) (auto simp: normalize_relation_def normalize_table_factor_def nbind_eq split: if_splits dest: extends_alloc)

lemma extends_join:
  assumes "normalize_join src j nz = Inr (p, nz')"
  shows "extends src nz (join_ids p) (expr_groups (pj_on p)) nz'"
proof -
  obtain i s nz1 right nz2 e on where
    runs: "new_node src (aj_span j) nz = Inr ((i, s), nz1)" "normalize_relation src (aj_relation j) nz1 = Inr (right, nz2)"
      "normalize_expr src e CtxPredicate nz2 = Inr (on, nz')"
    and p: "pj_id p = i" "pj_right p = right" "pj_on p = on"
    using assms by (auto simp: normalize_join_def nbind_eq split: if_splits)
  show ?thesis unfolding join_ids_def p
    by (rule extends_first [OF extends_node [OF runs(1)] extends_first [OF extends_relation [OF runs(2)] extends_expr(1) [OF runs(3)]]])
qed

lemma extends_item: "normalize_item m src item nz = Inr (p, nz') \<Longrightarrow> extends src nz (projection_ids p) (expr_groups (pp_expr p)) nz'"
  by (cases item) (auto simp: normalize_item_def nbind_eq projection_ids_def intro: extends_first [OF extends_node extends_expr(1)])

lemma extends_order_item:
  "normalize_order_by_expr src item nz = Inr (p, nz') \<Longrightarrow> extends src nz (order_ids p) (expr_groups (po_expr p)) nz'"
  by (auto simp: normalize_order_by_expr_def nbind_eq order_ids_def split: if_splits intro: extends_first [OF extends_node extends_expr(1)])

lemma extends_bound: "normalize_bound src c b nz = Inr (l, nz') \<Longrightarrow> extends src nz (limit_ids l) (expr_groups (plim_expr l)) nz'"
  by (auto simp: normalize_bound_def nbind_eq limit_ids_def intro: extends_first [OF extends_node extends_expr(1)])

lemma extends_assignment:
  "normalize_assignment src a nz = Inr (p, nz') \<Longrightarrow> extends src nz (assignment_ids p) (expr_groups (pa_value p)) nz'"
  by (auto simp: normalize_assignment_def nbind_eq assignment_ids_def intro: extends_first [OF extends_node extends_expr(1)])

lemma extends_items:
  "collect_n (normalize_item m src) items nz = Inr (ps, nz') \<Longrightarrow> extends src nz (concat (map projection_ids ps)) (set_groups pp_expr ps) nz'"
  unfolding set_groups_def by (rule extends_collect) (assumption, rule extends_item)

lemma extends_returning:
  "normalize_returning src items nz = Inr (ps, nz') \<Longrightarrow> extends src nz (concat (map projection_ids ps)) (set_groups pp_expr ps) nz'"
  by (auto simp: normalize_returning_def normalize_returning_projection_def set_groups_def extends_refl split: option.splits
      dest: extends_items [unfolded set_groups_def])

lemma extends_order_by:
  "normalize_order_by src ob nz = Inr (ps, nz') \<Longrightarrow> extends src nz (concat (map order_ids ps)) (set_groups po_expr ps) nz'"
  by (auto simp: normalize_order_by_def set_groups_def extends_refl split: option.splits
      dest: extends_collect [OF _ extends_order_item])

lemma extends_row:
  assumes "normalize_values_row src vals row nz = Inr (r, nz')"
  shows "extends src nz (row_ids r) (set_groups id (pv_values r)) nz'"
proof -
  obtain es nz1 i where
    runs: "collect_n (\<lambda>e. normalize_expr src e CtxProjection) row nz = Inr (es, nz1)" "alloc_id nz1 = Inr (i, nz')"
    and r: "pv_id r = i" "pv_values r = es"
    using assms by (auto simp: normalize_values_row_def nbind_eq)
  show ?thesis unfolding row_ids_def set_groups_def r id_apply
    by (rule extends_last [OF extends_collect [OF runs(1) extends_expr(1)] extends_alloc [OF runs(2)]])
qed

lemma extends_values: "normalize_values src vals nz = Inr (rs, nz') \<Longrightarrow> extends src nz (concat (map row_ids rs)) (row_groups rs) nz'"
  unfolding normalize_values_def row_groups_def by (rule extends_collect) (assumption, rule extends_row)

lemma extends_limits:
  assumes "normalize_limit_clause src lc nz = Inr ((l, m), nz')"
  shows "extends src nz (option_list limit_ids l @ option_list limit_ids m) (option_groups plim_expr l \<union> option_groups plim_expr m) nz'"
proof -
  consider "lc = None" | s a b where "lc = Some (LcLimitOffset s a b False)"
    using assms by (cases lc rule: option.exhaust; auto simp: normalize_limit_clause_def split: ast_limit_clause.splits if_splits)
  then show ?thesis
  proof cases
    case 1
    with assms show ?thesis by (auto simp: normalize_limit_clause_def option_list_def option_groups_def extends_refl)
  next
    case 2
    with assms obtain nz1 where
      l: "option_n (\<lambda>e. normalize_bound src CtxLimit (ast_span e, e)) a nz = Inr (l, nz1)" and
      m: "option_n (normalize_bound src CtxOffset) b nz1 = Inr (m, nz')"
      by (auto simp: normalize_limit_clause_def nbind_eq)
    show ?thesis unfolding option_groups_def
      by (rule extends_append [OF extends_option [OF l extends_bound] extends_option [OF m extends_bound]])
  qed
qed

lemma reject_unconsumed_ok:
  "reject_unconsumed_optional_groups src nz = Inr (u, nz') \<longleftrightarrow> nz' = nz \<and> source_groups src \<subseteq> nz_consumed nz"
proof (cases "find (\<lambda>g. og_original_span g \<notin> nz_consumed nz) (sq_optional_groups src)")
  case None
  then have "source_groups src \<subseteq> nz_consumed nz" by (auto simp: source_groups_def find_None_iff)
  with None show ?thesis by (auto simp: reject_unconsumed_optional_groups_def)
next
  case (Some g)
  then have "og_original_span g \<in> source_groups src - nz_consumed nz"
    by (auto simp: find_Some_iff source_groups_def)
  with Some show ?thesis by (auto simp: reject_unconsumed_optional_groups_def)
qed

text \<open>What a finished run has: the nodes, and no group of the source left over.\<close>

definition finished :: "sql_source \<Rightarrow> normalizer \<Rightarrow> ast_id list \<Rightarrow> source_span set \<Rightarrow> normalizer \<Rightarrow> bool" where
  "finished src nz ids gs nz' \<longleftrightarrow> extends src nz ids gs nz' \<and> source_groups src \<subseteq> nz_consumed nz'"

lemma finishedI:
  assumes "extends src nz ids gs nz1" "reject_unconsumed_optional_groups src nz1 = Inr (u, nz2)" "new_node src s nz2 = Inr ((i, sp), nz')"
  shows "finished src nz (i # ids) gs nz'"
proof -
  have "nz2 = nz1" "source_groups src \<subseteq> nz_consumed nz1" using assms(2) by (simp_all add: reject_unconsumed_ok)
  with extends_node [OF assms(3)] have node: "extends src nz1 [i] {} nz'" by simp
  then have "nz_consumed nz' = nz_consumed nz1" by (simp add: extends_def)
  with extends_last [OF assms(1) node] \<open>source_groups src \<subseteq> nz_consumed nz1\<close> show ?thesis by (simp add: finished_def)
qed

lemma finished_query:
  assumes q: "normalize_query src q nz = Inr (p, nz')"
  shows "finished src nz (select_ids p) (select_groups p) nz'"
proof -
  obtain s where s: "qy_body q = SetSelect s"
    using q by (cases "qy_body q") (auto simp: normalize_query_def nbind_eq split: if_splits)
  then obtain item where item: "sel_from s = [item]"
    using q by (cases "sel_from s" rule: remdups_adj.cases) (auto simp: normalize_query_def nbind_eq split: if_splits)
  obtain nz1 nz2 nz3 nz4 nz5 nz6 nz7 sp where
    runs: "normalize_relation src (tw_relation item) nz = Inr (ps_from p, nz1)"
      "collect_n (normalize_join src) (tw_joins item) nz1 = Inr (ps_joins p, nz2)"
      "collect_n (normalize_projection src) (sel_projection s) nz2 = Inr (ps_projections p, nz3)"
      "option_n (\<lambda>e. normalize_expr src e CtxPredicate) (sel_selection s) nz3 = Inr (ps_filter p, nz4)"
      "normalize_order_by src (qy_order_by q) nz4 = Inr (ps_order_by p, nz5)"
      "normalize_limit_clause src (qy_limit_clause q) nz5 = Inr ((ps_limit p, ps_offset p), nz6)"
    and ends: "reject_unconsumed_optional_groups src nz6 = Inr ((), nz7)" "new_node src (qy_span q) nz7 = Inr ((ps_id p, sp), nz')"
    using q s item by (auto simp: normalize_query_def nbind_eq split: if_splits)
  note joins = extends_collect [OF runs(2) extends_join, folded set_groups_def]
  note items = extends_items [OF runs(3) [unfolded normalize_projection_def]]
  have filter: "extends src nz3 (option_list expr_ids (ps_filter p)) (option_groups id (ps_filter p)) nz4"
    unfolding option_groups_def id_apply by (rule extends_option [OF runs(4)]) (rule extends_expr(1))
  show ?thesis unfolding select_ids_def select_groups_def
    by (rule finishedI [OF extends_append [OF extends_relation [OF runs(1)] extends_append [OF joins extends_append [OF items
          extends_append [OF filter extends_append [OF extends_order_by [OF runs(5)] extends_limits [OF runs(6)]]]]]] ends])
qed

lemma finished_insert:
  assumes "normalize_insert_statement src ins nz = Inr (p, nz')"
  shows "finished src nz (statement_ids p) (statement_groups p) nz'"
proof -
  obtain target nz1 columns rows nz2 returning nz3 nz4 i sp where
    runs: "normalize_insert_target src ins nz = Inr (target, nz1)" "normalize_insert_values src ins nz1 = Inr (rows, nz2)"
      "normalize_returning src (ins_returning ins) nz2 = Inr (returning, nz3)"
      "reject_unconsumed_optional_groups src nz3 = Inr ((), nz4)" "new_node src (ins_span ins) nz4 = Inr ((i, sp), nz')"
    and p: "p = (let st = \<lparr>pi_id = i, pi_span = sp, pi_target = target, pi_columns = columns, pi_values = rows, pi_returning = returning\<rparr> in
       if returning = [] then statement_command SkInsert (command_insert st) else statement_rows SkInsert (row_insert st))"
    using assms by (auto simp: normalize_insert_statement_def nbind_eq Let_def)
  have target: "extends src nz [pf_id target] {} nz1"
    using runs(1) by (auto simp: normalize_insert_target_def nbind_eq split: option.splits dest: extends_node)
  have rows: "extends src nz1 (concat (map row_ids rows)) (row_groups rows) nz2"
    using runs(2) by (auto simp: normalize_insert_values_def nbind_eq split: option.splits ast_set_expr.splits dest: extends_values)
  have "finished src nz (i # [pf_id target] @ concat (map row_ids rows) @ concat (map projection_ids returning))
      ({} \<union> (row_groups rows \<union> set_groups pp_expr returning)) nz'"
    by (rule finishedI [OF extends_append [OF target extends_append [OF rows extends_returning [OF runs(3)]]] runs(4,5)])
  then show ?thesis
    by (cases "returning = []") (simp_all add: p Let_def statement_ids_def statement_groups_def insert_ids_def insert_groups_def statement_command_def
        command_insert_def statement_rows_def row_insert_def)
qed

lemma finished_update:
  assumes "normalize_update_statement src u nz = Inr (p, nz')"
  shows "finished src nz (statement_ids p) (statement_groups p) nz'"
proof -
  obtain selection where sel: "upd_selection u = Some selection"
    using assms by (auto simp: normalize_update_statement_def nbind_eq split: option.splits)
  obtain target nz1 assignments nz2 filter nz3 returning nz4 nz5 i sp where
    runs: "normalize_relation src (tw_relation (upd_table u)) nz = Inr (target, nz1)"
      "collect_n (normalize_assignment src) (upd_assignments u) nz1 = Inr (assignments, nz2)"
      "normalize_expr src selection CtxPredicate nz2 = Inr (filter, nz3)"
      "normalize_returning src (upd_returning u) nz3 = Inr (returning, nz4)"
      "reject_unconsumed_optional_groups src nz4 = Inr ((), nz5)" "new_node src (upd_span u) nz5 = Inr ((i, sp), nz')"
    and p: "p = (let st = \<lparr>pu_id = i, pu_span = sp, pu_target = target, pu_assignments = assignments, pu_filter = filter, pu_returning = returning\<rparr> in
       if returning = [] then statement_command SkUpdate (command_update st) else statement_rows SkUpdate (row_update st))"
    using assms by (auto simp: normalize_update_statement_def nbind_eq sel Let_def)
  note assigns = extends_collect [OF runs(2) extends_assignment, folded set_groups_def]
  have "finished src nz (i # [pf_id target] @ concat (map assignment_ids assignments) @ expr_ids filter @ concat (map projection_ids returning))
      ({} \<union> (set_groups pa_value assignments \<union> (expr_groups filter \<union> set_groups pp_expr returning))) nz'"
    by (rule finishedI [OF extends_append [OF extends_relation [OF runs(1)] extends_append [OF assigns
          extends_append [OF extends_expr(1) [OF runs(3)] extends_returning [OF runs(4)]]]] runs(5,6)])
  then show ?thesis
    by (cases "returning = []") (simp_all add: p Let_def statement_ids_def statement_groups_def update_ids_def update_groups_def statement_command_def
        command_update_def statement_rows_def row_update_def)
qed

lemma finished_delete:
  assumes "normalize_delete_statement src d nz = Inr (p, nz')"
  shows "finished src nz (statement_ids p) (statement_groups p) nz'"
proof -
  obtain selection where sel: "del_selection d = Some selection"
    using assms by (auto simp: normalize_delete_statement_def nbind_eq split: option.splits)
  obtain target nz1 filter nz3 returning nz4 nz5 i sp where
    runs: "normalize_delete_target src d nz = Inr (target, nz1)"
      "normalize_expr src selection CtxPredicate nz1 = Inr (filter, nz3)"
      "normalize_returning src (del_returning d) nz3 = Inr (returning, nz4)"
      "reject_unconsumed_optional_groups src nz4 = Inr ((), nz5)" "new_node src (del_span d) nz5 = Inr ((i, sp), nz')"
    and p: "p = (let st = \<lparr>pd_id = i, pd_span = sp, pd_target = target, pd_filter = filter, pd_returning = returning\<rparr> in
       if returning = [] then statement_command SkDelete (command_delete st) else statement_rows SkDelete (row_delete st))"
    using assms by (auto simp: normalize_delete_statement_def nbind_eq sel Let_def)
  have target: "extends src nz [pf_id target] {} nz1"
    using runs(1) by (auto simp: normalize_delete_target_def split: list.splits if_splits dest: extends_relation)
  have "finished src nz (i # [pf_id target] @ expr_ids filter @ concat (map projection_ids returning))
      ({} \<union> (expr_groups filter \<union> set_groups pp_expr returning)) nz'"
    by (rule finishedI [OF extends_append [OF target extends_append [OF extends_expr(1) [OF runs(2)] extends_returning [OF runs(3)]]] runs(4,5)])
  then show ?thesis
    by (cases "returning = []") (simp_all add: p Let_def statement_ids_def statement_groups_def delete_ids_def delete_groups_def statement_command_def
        command_delete_def statement_rows_def row_delete_def)
qed

lemma finished_statement: "normalize_any src st nz = Inr (p, nz') \<Longrightarrow> finished src nz (statement_ids p) (statement_groups p) nz'"
  by (cases st) (auto simp: normalize_any_def nbind_eq statement_ids_def statement_groups_def statement_query_def row_select_def
      dest: finished_query finished_insert finished_update finished_delete)

section \<open>Optional placeholders\<close>

text \<open>An optional placeholder may stand where the flag says so; below, it must be an operand of a comparison.\<close>

fun owned :: "bool \<Rightarrow> parsed_expr \<Rightarrow> bool" where
  "owned here (PPlaceholder p) \<longleftrightarrow> (pr_optional p \<longrightarrow> here)"
| "owned here (PColumn c) \<longleftrightarrow> True"
| "owned here (PLiteral l) \<longleftrightarrow> True"
| "owned here (POptionalGroup i s e) \<longleftrightarrow> owned False e"
| "owned here (PUnary i s op e) \<longleftrightarrow> owned False e"
| "owned here (PBinary i s op l r) \<longleftrightarrow> owned True l \<and> owned True r"
| "owned here (PIsNull i s negated e) \<longleftrightarrow> owned False e"
| "owned here (PBoolChain i s op ts) \<longleftrightarrow> list_all (owned False) ts"

lemma owned_mono: "owned False e \<Longrightarrow> owned here e"
  by (cases e) auto

lemma owned_group:
  assumes "owned (c = CtxComparisonOperand) inner" "close_group src canonical c inner nz = Inr (p, nz')"
  shows "owned (c = CtxComparisonOperand) p"
  using assms by (auto simp: close_group_def nbind_eq allows_optional_group_def split: option.splits if_splits)

lemma owned_placeholder:
  assumes "normalize_placeholder src span entry c nz = Inr (p, nz')"
  shows "pr_optional p \<longrightarrow> allows_optional_placeholder c"
proof -
  obtain canonical where "canonical_span_for_parser src span = Inr canonical"
    using assms by (auto simp: normalize_placeholder_def nbind_eq)
  with assms show ?thesis
    by (cases "find (\<lambda>occ. oc_canonical_span occ = canonical) (pe_occurrences entry)")
      (auto simp: normalize_placeholder_def nbind_eq split: if_splits)
qed

lemma owned_value: "normalize_value src span v c nz = Inr (p, nz') \<Longrightarrow> owned (allows_optional_placeholder c) p"
  by (auto simp: normalize_value_def normalize_literal_def nbind_eq split: ast_value.splits option.splits dest: owned_placeholder)

lemma owned_expr:
  shows "normalize_expr src e c nz = Inr (p, nz') \<Longrightarrow> c \<noteq> CtxLimit \<Longrightarrow> c \<noteq> CtxOffset \<Longrightarrow> owned (c = CtxComparisonOperand) p"
    and "collect_bool_terms src e bop nz = Inr (ts, nz') \<Longrightarrow> list_all (owned False) ts"
proof (induction src e c nz and src e bop nz arbitrary: p nz' and ts nz' rule: normalize_expr_collect_bool_terms.induct)
  case (3 src span v c nz)
  then show ?case using owned_value [of src span v c nz p nz'] by (simp add: allows_optional_placeholder_def)
next
  case (5 src span l op r c nz)
  show ?case
  proof (cases "bool_op_of op")
    case None
    with "5.prems" obtain i s nz1 op' left nz2 right where
      runs: "new_node src span nz = Inr ((i, s), nz1)" "map_binary_op op = Some op'"
        "normalize_expr src l (comparison_operand_context c) nz1 = Inr (left, nz2)"
        "normalize_expr src r (comparison_operand_context c) nz2 = Inr (right, nz')"
      and p: "p = PBinary i s op' left right"
      by (auto simp: nbind_eq split: option.splits)
    have c: "comparison_operand_context c \<noteq> CtxLimit" "comparison_operand_context c \<noteq> CtxOffset"
      using "5.prems" by (simp_all add: comparison_operand_context_def)
    show ?thesis
      using "5.IH"(1) [OF None runs(1) refl runs(2,3) c] "5.IH"(2) [OF None runs(1) refl runs(2,4) c]
      by (simp add: p) (metis owned_mono)
  next
    case (Some bop)
    with "5.prems" obtain us vs nz1 nz2 i s where
      runs: "collect_bool_terms src l bop nz = Inr (us, nz1)" "collect_bool_terms src r bop nz1 = Inr (vs, nz2)"
      and p: "p = PBoolChain i s bop (us @ vs)"
      by (auto simp: nbind_eq)
    show ?thesis using "5.IH"(3) [OF Some runs(1)] "5.IH"(4) [OF Some runs] by (simp add: p)
  qed
next
  case (8 src span e c nz)
  then show ?case by (auto simp: nbind_eq intro: owned_group)
next
  case (10 src span l op r bop nz)
  show ?case
  proof (cases "bool_op_of op = Some bop")
    case True
    with 10 show ?thesis by (fastforce simp: nbind_eq)
  next
    case False
    then obtain t where t: "normalize_expr src (EBinary span l op r) CtxPredicate nz = Inr (t, nz')" "ts = [t]"
      using "10.prems" by (auto simp: nbind_eq simp del: normalize_expr.simps)
    show ?thesis using "10.IH"(3) [OF False t(1)] by (simp add: t(2))
  qed
qed ((fastforce simp: nbind_eq simp del: normalize_expr.simps; fail)
  | (fastforce simp: nbind_eq normalize_column_def nested_value_context_def split: option.splits list.splits if_splits; fail))+

text \<open>The predicates of a statement: what follows \<open>WHERE\<close> and \<open>ON\<close>.\<close>

definition select_predicates :: "parsed_select \<Rightarrow> parsed_expr list" where
  "select_predicates s = map pj_on (ps_joins s) @ option_list (\<lambda>e. [e]) (ps_filter s)"

definition statement_predicates :: "parsed_statement \<Rightarrow> parsed_expr list" where
  "statement_predicates st =
     (case pst_body st of
        BodyRows r \<Rightarrow> (case prs_body r of RSelect s \<Rightarrow> select_predicates s | RInsert s \<Rightarrow> [] | RUpdate s \<Rightarrow> [pu_filter s] | RDelete s \<Rightarrow> [pd_filter s])
      | BodyCommand c \<Rightarrow> (case pcs_body c of CInsert s \<Rightarrow> [] | CUpdate s \<Rightarrow> [pu_filter s] | CDelete s \<Rightarrow> [pd_filter s]))"

lemma owned_predicate: "normalize_expr src e CtxPredicate nz = Inr (p, nz') \<Longrightarrow> owned False p"
  using owned_expr(1) [of src e CtxPredicate nz p nz'] by simp

lemma owned_query:
  assumes q: "normalize_query src q nz = Inr (p, nz')"
  shows "list_all (owned False) (select_predicates p)"
proof -
  obtain s item where s: "qy_body q = SetSelect s" "sel_from s = [item]"
    using q by (auto simp: normalize_query_def nbind_eq split: if_splits ast_set_expr.splits list.splits)
  obtain nz1 nz2 nz3 nz4 where
    runs: "collect_n (normalize_join src) (tw_joins item) nz1 = Inr (ps_joins p, nz2)"
      "option_n (\<lambda>e. normalize_expr src e CtxPredicate) (sel_selection s) nz3 = Inr (ps_filter p, nz4)"
    using q s by (auto simp: normalize_query_def nbind_eq split: if_splits)
  have "list_all2 (\<lambda>_ j. owned False (pj_on j)) (tw_joins item) (ps_joins p)"
    by (rule collect_n_all2 [OF runs(1)]) (auto simp: normalize_join_def nbind_eq split: if_splits dest: owned_predicate)
  then have "list_all (\<lambda>j. owned False (pj_on j)) (ps_joins p)" by (auto simp: list_all2_conv_all_nth list_all_length)
  moreover have "rel_option (\<lambda>_. owned False) (sel_selection s) (ps_filter p)"
    by (rule option_n_rel [OF runs(2)]) (rule owned_predicate)
  ultimately show ?thesis
    by (auto simp: select_predicates_def option_list_def list_all_iff split: option.splits elim: option.rel_cases)
qed

lemma owned_statement: "normalize_any src st nz = Inr (p, nz') \<Longrightarrow> list_all (owned False) (statement_predicates p)"
  by (cases st)
    (auto simp: normalize_any_def normalize_insert_statement_def normalize_update_statement_def normalize_delete_statement_def
      nbind_eq Let_def statement_predicates_def statement_query_def row_select_def statement_command_def statement_rows_def
      command_insert_def command_update_def command_delete_def row_insert_def row_update_def row_delete_def
      split: option.splits if_split_asm dest: owned_query intro: owned_predicate)

section \<open>Properties\<close>

text \<open>
  C36. Normalization keeps the meaning of a SELECT. When the normalizer accepts the tree of the parser, the
  result has the same relations under the same names, the same joins, and for every projection, ON and
  WHERE predicate, ORDER BY item, LIMIT and OFFSET an expression with the same value in every row and for all
  arguments: flattening the chains of AND and OR, dropping parentheses and resolving the numbered
  placeholders to their names changes no value of three-valued SQL.
\<close>

theorem normalize_select_faithful:
  assumes "sem_boolean S" and "normalize_select src q = Inr p"
  shows "same_select S src q p"
proof -
  obtain nz' where "normalize_query src q nz_new = Inr (p, nz')"
    using assms(2) by (cases "normalize_query src q nz_new") (auto simp: normalize_select_def)
  then show ?thesis by (rule normalize_query_same [OF assms(1)])
qed

text \<open>
  C37. The form of a normalized statement. All nodes have different identifiers, so that an identifier of a
  group means one node; the source spans of the optional groups of the statement are exactly the spans of the
  marked parentheses of the source text, none forgotten and none invented; and in every WHERE and ON
  predicate an optional placeholder stands only as an operand of a comparison.
\<close>

theorem normalize_statement_form:
  assumes "normalize_statement src st = Inr p"
  shows "distinct (statement_ids p) \<and> statement_groups p = source_groups src \<and> list_all (owned False) (statement_predicates p)"
proof -
  obtain nz' where run: "normalize_any src st nz_new = Inr (p, nz')"
    using assms by (cases "normalize_any src st nz_new") (auto simp: normalize_statement_def)
  from finished_statement [OF run] have "distinct (statement_ids p)" "statement_groups p = source_groups src"
    by (auto simp: finished_def extends_def nz_new_def)
  then show ?thesis using owned_statement [OF run] by simp
qed

section \<open>Example\<close>

definition span_at :: "nat \<Rightarrow> nat \<Rightarrow> parser_span" where
  "span_at a b = \<lparr>psp_start_line = 1, psp_start_column = a, psp_end_line = 1, psp_end_column = b\<rparr>"

definition ident_at :: "nat \<Rightarrow> str \<Rightarrow> ast_ident" where
  "ident_at a v = \<lparr>ai_value = v, ai_span = span_at a (a + length v)\<rparr>"

definition column_at :: "nat \<Rightarrow> str \<Rightarrow> ast_expr" where
  "column_at a v = ECompound (span_at a (a + 2 + length v)) [ident_at a ''u'', ident_at (a + 2) v]"

definition equals_at :: "nat \<Rightarrow> str \<Rightarrow> ast_value \<Rightarrow> nat \<Rightarrow> ast_expr" where
  "equals_at a v x n = EBinary (span_at a (a + 6 + n)) (column_at a v) BEq (EValue (span_at (a + 6) (a + 6 + n)) x)"

definition select_of :: "ast_expr \<Rightarrow> ast_expr \<Rightarrow> ast_query" where
  "select_of e w = \<lparr>qy_span = span_at 1 2, qy_with = False, qy_fetch = False, qy_locks = False, qy_for_clause = False,
     qy_other_features = False,
     qy_body = SetSelect \<lparr>sel_span = span_at 1 2, sel_distinct = False, sel_other_features = False,
       sel_projection = [ItemUnnamed (span_at 8 11) e],
       sel_from = [\<lparr>tw_relation = TfTable (span_at 17 20) \<lparr>an_parts = [PartIdentifier (ident_at 17 ''t'')], an_span = span_at 17 18\<rparr>
         (Some \<lparr>ta_span = span_at 19 20, ta_name = ident_at 19 ''u'', ta_has_columns = False\<rparr>) False, tw_joins = []\<rparr>],
       sel_selection = Some w\<rparr>,
     qy_order_by = None, qy_limit_clause = None\<rparr>"

definition example_source :: sql_source where
  "example_source = \<lparr>
     sq_original_sql = ''SELECT u.a FROM t u WHERE (u.a = $x)? AND u.b = $y?'',
     sq_canonical_sql = ''SELECT u.a FROM t u WHERE (u.a = $1) AND u.b = $2'',
     sq_replacements =
      [\<lparr>rp_canonical = \<lparr>span_start = 33, span_end = 35\<rparr>, rp_original = \<lparr>span_start = 33, span_end = 35\<rparr>\<rparr>,
       \<lparr>rp_canonical = \<lparr>span_start = 36, span_end = 36\<rparr>, rp_original = \<lparr>span_start = 36, span_end = 37\<rparr>\<rparr>,
       \<lparr>rp_canonical = \<lparr>span_start = 47, span_end = 49\<rparr>, rp_original = \<lparr>span_start = 48, span_end = 51\<rparr>\<rparr>],
     sq_placeholders =
      [\<lparr>pe_id = 0, pe_name = ''x'', pe_slot = 1, pe_occurrences = [\<lparr>oc_original_span = \<lparr>span_start = 33, span_end = 35\<rparr>, oc_canonical_span = \<lparr>span_start = 33, span_end = 35\<rparr>, oc_optional = False\<rparr>]\<rparr>,
       \<lparr>pe_id = 1, pe_name = ''y'', pe_slot = 2, pe_occurrences = [\<lparr>oc_original_span = \<lparr>span_start = 48, span_end = 51\<rparr>, oc_canonical_span = \<lparr>span_start = 47, span_end = 49\<rparr>, oc_optional = True\<rparr>]\<rparr>],
     sq_optional_groups = [\<lparr>og_original_span = \<lparr>span_start = 26, span_end = 37\<rparr>, og_canonical_span = \<lparr>span_start = 26, span_end = 36\<rparr>\<rparr>],
     sq_line_starts = [0]\<rparr>"

lemma example_source_canonical: "canonicalize ''SELECT u.a FROM t u WHERE (u.a = $x)? AND u.b = $y?'' = Inr example_source"
  by code_simp

definition example_group :: ast_expr where
  "example_group = ENested (span_at 28 36) (equals_at 28 ''a'' (VPlaceholder ''$1'') 2)"

definition example_comparison :: ast_expr where
  "example_comparison = equals_at 42 ''b'' (VPlaceholder ''$2'') 2"

definition example_ast :: ast_query where
  "example_ast = select_of (column_at 8 ''a'') (EBinary (span_at 27 50) example_group BAnd example_comparison)"

definition example_select :: parsed_select where
  "example_select = projr (normalize_select example_source example_ast)"

definition example_statement :: parsed_statement where
  "example_statement = projr (normalize_statement example_source (StQuery example_ast))"

text \<open>The run, clause by clause: the state after each.\<close>

definition ends_in :: "'a norm \<Rightarrow> source_span set \<Rightarrow> nat \<Rightarrow> source_span set \<Rightarrow> nat \<Rightarrow> bool" where
  "ends_in m gs n gs' n' \<longleftrightarrow>
     (case m \<lparr>nz_consumed = gs, nz_next_id = n\<rparr> of
        Inl _ \<Rightarrow> False | Inr (a, nz) \<Rightarrow> nz_consumed nz = gs' \<and> nz_next_id nz = n')"

lemma ends_in_iff:
  "ends_in m gs n gs' n' \<longleftrightarrow>
   (\<exists>a. m \<lparr>nz_consumed = gs, nz_next_id = n\<rparr> = Inr (a, \<lparr>nz_consumed = gs', nz_next_id = n'\<rparr>))"
  by (auto simp: ends_in_def split: sum.splits prod.splits)

lemma ends_in_bind: "ends_in m gs n gs' n' \<Longrightarrow> (\<And>a. ends_in (f a) gs' n' gs'' n'') \<Longrightarrow> ends_in (nbind m f) gs n gs'' n''"
  by (fastforce simp: ends_in_iff nbind_eq)

lemma ends_in_ret: "ends_in (nret a) gs n gs n"
  by (simp add: ends_in_def nret_def)

definition example_groups :: "source_span set" where
  "example_groups = {\<lparr>span_start = 26, span_end = 37\<rparr>}"

lemma example_relation_ends:
  "ends_in (normalize_relation example_source (TfTable (span_at 17 20) \<lparr>an_parts = [PartIdentifier (ident_at 17 ''t'')], an_span = span_at 17 18\<rparr>
     (Some \<lparr>ta_span = span_at 19 20, ta_name = ident_at 19 ''u'', ta_has_columns = False\<rparr>) False)) {} 0 {} 1"
  by code_simp

lemma example_projection_ends:
  "ends_in (collect_n (normalize_projection example_source) [ItemUnnamed (span_at 8 11) (column_at 8 ''a'')]) {} 1 {} 3"
  by code_simp

lemma example_group_ends: "ends_in (normalize_expr example_source example_group CtxPredicate) {} 3 example_groups 7"
  by code_simp

lemma example_comparison_ends:
  "ends_in (normalize_expr example_source example_comparison CtxPredicate) example_groups 7 example_groups 10"
  by code_simp

lemma example_span_ends: "ends_in (new_node example_source (span_at 27 50)) example_groups 10 example_groups 11"
  by code_simp

lemma example_query_span_ends: "ends_in (new_node example_source (span_at 1 2)) example_groups 11 example_groups 12"
  by code_simp

lemma example_groups_used: "ends_in (reject_unconsumed_optional_groups example_source) example_groups 11 example_groups 11"
  by code_simp

lemma example_filter_ends:
  "ends_in (normalize_expr example_source (EBinary (span_at 27 50) example_group BAnd example_comparison) CtxPredicate) {} 3 example_groups 11"
proof -
  have "ends_in (collect_bool_terms example_source example_group OpAnd) {} 3 example_groups 7"
    using example_group_ends by (simp add: example_group_def ends_in_iff nbind_eq del: normalize_expr.simps)
  moreover have "ends_in (collect_bool_terms example_source example_comparison OpAnd) example_groups 7 example_groups 10"
    using example_comparison_ends
    by (simp add: example_comparison_def equals_at_def bool_op_of_def ends_in_iff nbind_eq del: normalize_expr.simps)
  ultimately have "ends_in (nbind (collect_bool_terms example_source example_group OpAnd) (\<lambda>ts.
      nbind (collect_bool_terms example_source example_comparison OpAnd) (\<lambda>us.
      nbind (new_node example_source (span_at 27 50)) (\<lambda>(i, s). nret (PBoolChain i s OpAnd (ts @ us)))))) {} 3 example_groups 11"
    by (auto intro!: ends_in_bind ends_in_ret example_span_ends split: prod.splits)
  then show ?thesis by (simp add: ends_in_iff bool_op_of_def)
qed

lemma example_query_ends: "ends_in (normalize_query example_source example_ast) {} 0 example_groups 12"
proof -
  have "ends_in (collect_n (normalize_join example_source) []) {} 1 {} 1"
    "\<And>gs n. ends_in (normalize_order_by example_source None) gs n gs n"
    "\<And>gs n. ends_in (normalize_limit_clause example_source None) gs n gs n"
    "ends_in (option_n (\<lambda>e. normalize_expr example_source e CtxPredicate)
       (Some (EBinary (span_at 27 50) example_group BAnd example_comparison))) {} 3 example_groups 11"
    using example_filter_ends
    by (auto simp: ends_in_iff nbind_eq option_n_def normalize_order_by_def normalize_limit_clause_def simp del: normalize_expr.simps)
  moreover have "ends_in (nlift (reject_query_clauses example_source example_ast)) {} 0 {} 0"
    "ends_in (nlift (reject_select_features example_source (case qy_body example_ast of SetSelect s \<Rightarrow> s))) {} 0 {} 0"
    by code_simp+
  ultimately show ?thesis
    unfolding normalize_query_def
    by (auto simp: example_ast_def select_of_def simp del: One_nat_def split: prod.splits intro!: ends_in_bind ends_in_ret
      example_relation_ends example_projection_ends example_groups_used example_query_span_ends)
qed

lemma example_select_normalized: "normalize_select example_source example_ast = Inr example_select"
  using example_query_ends by (auto simp: example_select_def normalize_select_def ends_in_iff nz_new_def)

lemma example_statement_normalized: "normalize_statement example_source (StQuery example_ast) = Inr example_statement"
  using example_query_ends
  by (auto simp: example_statement_def normalize_statement_def normalize_any_def nbind_def nret_def ends_in_iff nz_new_def)

theorem normalize_select_faithful_witness:
  "sem_boolean demo_sem \<and> normalize_select example_source example_ast = Inr example_select
   \<and> same_select demo_sem example_source example_ast example_select"
  using normalize_select_faithful [OF _ example_select_normalized, of demo_sem] example_select_normalized
  by (simp add: sem_boolean_def demo_sem_def)

theorem normalize_statement_form_witness:
  "normalize_statement example_source (StQuery example_ast) = Inr example_statement
   \<and> distinct (statement_ids example_statement) \<and> statement_groups example_statement = source_groups example_source
   \<and> list_all (owned False) (statement_predicates example_statement)"
  using normalize_statement_form [OF example_statement_normalized] example_statement_normalized by blast

section \<open>Deviations\<close>

text \<open>
  The text \<open>(u.a = $x OR (u.b = 1))?\<close> has one marked pair of parentheses, but the plain pair
  inside becomes an optional group too, since the group of a span is looked up by containment.
\<close>

fun expr_group_count :: "parsed_expr \<Rightarrow> nat" where
  "expr_group_count (POptionalGroup i s e) = Suc (expr_group_count e)"
| "expr_group_count (PUnary i s op e) = expr_group_count e"
| "expr_group_count (PBinary i s op l r) = expr_group_count l + expr_group_count r"
| "expr_group_count (PIsNull i s negated e) = expr_group_count e"
| "expr_group_count (PBoolChain i s op ts) = sum_list (map expr_group_count ts)"
| "expr_group_count _ = 0"

definition nested_source :: sql_source where
  "nested_source = \<lparr>
     sq_original_sql = ''SELECT u.a FROM t u WHERE (u.a = $x OR (u.b = 1))?'',
     sq_canonical_sql = ''SELECT u.a FROM t u WHERE (u.a = $1 OR (u.b = 1))'',
     sq_replacements =
      [\<lparr>rp_canonical = \<lparr>span_start = 33, span_end = 35\<rparr>, rp_original = \<lparr>span_start = 33, span_end = 35\<rparr>\<rparr>,
       \<lparr>rp_canonical = \<lparr>span_start = 49, span_end = 49\<rparr>, rp_original = \<lparr>span_start = 49, span_end = 50\<rparr>\<rparr>],
     sq_placeholders =
      [\<lparr>pe_id = 0, pe_name = ''x'', pe_slot = 1, pe_occurrences = [\<lparr>oc_original_span = \<lparr>span_start = 33, span_end = 35\<rparr>, oc_canonical_span = \<lparr>span_start = 33, span_end = 35\<rparr>, oc_optional = False\<rparr>]\<rparr>],
     sq_optional_groups = [\<lparr>og_original_span = \<lparr>span_start = 26, span_end = 50\<rparr>, og_canonical_span = \<lparr>span_start = 26, span_end = 49\<rparr>\<rparr>],
     sq_line_starts = [0]\<rparr>"

lemma nested_source_canonical: "canonicalize ''SELECT u.a FROM t u WHERE (u.a = $x OR (u.b = 1))?'' = Inr nested_source"
  by code_simp

definition nested_filter :: ast_expr where
  "nested_filter =
     ENested (span_at 28 49)
       (EBinary (span_at 28 49) (equals_at 28 ''a'' (VPlaceholder ''$1'') 2) BOr (ENested (span_at 41 48) (equals_at 41 ''b'' (VNumber ''1'') 1)))"

lemma plain_parentheses_become_group:
  "length (sq_optional_groups nested_source) = 1
   \<and> (case normalize_expr nested_source nested_filter CtxPredicate nz_new of
        Inr (p, nz) \<Rightarrow> expr_group_count p = 2 | Inl _ \<Rightarrow> False)"
  by code_simp

text \<open>
  An optional placeholder is refused in a projection, but accepted there below an AND: the terms of a chain
  are normalized as predicates wherever the chain stands.
\<close>

definition projected_source :: sql_source where
  "projected_source = \<lparr>
     sq_original_sql = ''SELECT u.a = $x? AND u.b = 1 AS v FROM t u'',
     sq_canonical_sql = ''SELECT u.a = $1 AND u.b = 1 AS v FROM t u'',
     sq_replacements =
      [\<lparr>rp_canonical = \<lparr>span_start = 13, span_end = 15\<rparr>, rp_original = \<lparr>span_start = 13, span_end = 16\<rparr>\<rparr>],
     sq_placeholders =
      [\<lparr>pe_id = 0, pe_name = ''x'', pe_slot = 1, pe_occurrences = [\<lparr>oc_original_span = \<lparr>span_start = 13, span_end = 16\<rparr>, oc_canonical_span = \<lparr>span_start = 13, span_end = 15\<rparr>, oc_optional = True\<rparr>]\<rparr>],
     sq_optional_groups = [],
     sq_line_starts = [0]\<rparr>"

lemma projected_source_canonical: "canonicalize ''SELECT u.a = $x? AND u.b = 1 AS v FROM t u'' = Inr projected_source"
  by code_simp

lemma optional_placeholder_in_projection:
  "isl (normalize_projection projected_source (ItemAlias (span_at 8 16) (equals_at 8 ''a'' (VPlaceholder ''$1'') 2) (ident_at 32 ''v'')) nz_new)
   \<and> \<not> isl (normalize_projection projected_source (ItemAlias (span_at 8 28)
       (EBinary (span_at 8 28) (equals_at 8 ''a'' (VPlaceholder ''$1'') 2) BAnd (equals_at 21 ''b'' (VNumber ''1'') 1)) (ident_at 32 ''v'')) nz_new)"
  by code_simp

end
