(* ===== verification/Typed_Front.thy ===== *)
theory Typed_Front
  imports Typed_Input Macro_Codecs Typed_Normal_Form
begin

text \<open>
  The macros \<open>query!\<close> and \<open>command!\<close> from the schema and the SQL text to the checked statement
  (\<open>macros/src/typed_sql/public_schema.rs\<close>), and the comparison of a statement with a live server at compile time
  (\<open>verify.rs\<close>). The environment, the connection string parser and the server are parameters. The tokens that
  are finally emitted are represented by the lowered statement and the selected codecs.
\<close>

section \<open>Verification errors\<close>

datatype verification_error_kind = VkConfiguration | VkConnection | VkSql | VkSchema

record verification_error =
  ve_kind :: verification_error_kind
  ve_message :: str

type_synonym 'a verified = "verification_error + 'a"

definition verification_error :: "verification_error_kind \<Rightarrow> str \<Rightarrow> verification_error" where
  "verification_error k m = \<lparr>ve_kind = k, ve_message = m\<rparr>"

fun kind_label :: "verification_error_kind \<Rightarrow> str" where
  "kind_label VkConfiguration = ''configuration error''"
| "kind_label VkConnection = ''connection error''"
| "kind_label VkSql = ''SQL error''"
| "kind_label VkSchema = ''schema mismatch''"

definition show_verification_error :: "verification_error \<Rightarrow> str" where
  "show_verification_error e = ''compile-time SQL verification '' @ kind_label (ve_kind e) @ '': '' @ ve_message e"

section \<open>The server\<close>

datatype error_position = PosOriginal nat | PosInternal nat str

datatype postgres_error =
    PgDb str "str option" "str option" "error_position option" str
  | PgOther str

record type_metadata =
  tm_oid :: oid
  tm_name :: str

record column_metadata =
  cm_name :: str
  cm_type :: type_metadata

record statement_metadata =
  sm_params :: "type_metadata list"
  sm_columns :: "column_metadata list"

record live_client =
  lv_prepare :: "str \<Rightarrow> postgres_error + statement_metadata"
  lv_regclass :: "str \<Rightarrow> postgres_error + oid option"
  lv_attributes :: "oid \<Rightarrow> postgres_error + (str \<times> oid \<times> str \<times> bool) list"

datatype env_value = EnvText str | EnvNotUtf8

record build_env =
  be_var :: "str \<Rightarrow> env_value option"
  be_config_error :: "str \<Rightarrow> str option"
  be_connect :: "str \<Rightarrow> str + live_client"

definition format_postgres_error :: "postgres_error \<Rightarrow> str" where
  "format_postgres_error e =
     (case e of
        PgOther message \<Rightarrow> message
      | PgDb message detail hint position code \<Rightarrow>
          message
          @ (case detail of None \<Rightarrow> [] | Some d \<Rightarrow> ''; '' @ d)
          @ (case hint of None \<Rightarrow> [] | Some h \<Rightarrow> ''; hint: '' @ h)
          @ (case position of
               None \<Rightarrow> []
             | Some (PosOriginal p) \<Rightarrow> ''; position '' @ show_nat p
             | Some (PosInternal p query) \<Rightarrow> ''; internal position '' @ show_nat p @ '' in `'' @ query @ ''`'')
          @ ''; SQLSTATE '' @ code)"

section \<open>The probe\<close>

datatype config_source = BabarDatabaseUrl | DatabaseUrl

definition env_var :: "config_source \<Rightarrow> str" where
  "env_var s = (case s of BabarDatabaseUrl \<Rightarrow> ''BABAR_DATABASE_URL'' | DatabaseUrl \<Rightarrow> ''DATABASE_URL'')"

record probe =
  pb_source :: config_source
  pb_database_url :: str

fun discover_from :: "build_env \<Rightarrow> config_source list \<Rightarrow> probe option verified" where
  "discover_from E [] = Inr None"
| "discover_from E (source # sources) =
     (case be_var E (env_var source) of
        None \<Rightarrow> discover_from E sources
      | Some EnvNotUtf8 \<Rightarrow> Inl (verification_error VkConfiguration
          (env_var source @ '' contains non-UTF-8 data; compile-time SQL verification requires UTF-8 connection strings''))
      | Some (EnvText raw) \<Rightarrow>
          (let url = trim raw in
           if url = [] then Inl (verification_error VkConfiguration (env_var source @ '' is set but empty''))
           else
             (case be_config_error E url of
                Some err \<Rightarrow> Inl (verification_error VkConfiguration
                  (env_var source @ '' does not contain a valid PostgreSQL connection string: '' @ err))
              | None \<Rightarrow> Inr (Some \<lparr>pb_source = source, pb_database_url = url\<rparr>))))"

definition discover :: "build_env \<Rightarrow> probe option verified" where
  "discover E = discover_from E [BabarDatabaseUrl, DatabaseUrl]"

definition probe_connect :: "build_env \<Rightarrow> probe \<Rightarrow> live_client verified" where
  "probe_connect E p =
     map_err (\<lambda>err. verification_error VkConnection (''failed to connect using '' @ env_var (pb_source p) @ '': '' @ err))
       (be_connect E (pb_database_url p))"

definition describe_with_client :: "live_client \<Rightarrow> str \<Rightarrow> statement_metadata verified" where
  "describe_with_client C sql =
     map_err (\<lambda>err. verification_error VkSql (''failed to prepare SQL against live database: '' @ format_postgres_error err))
       (lv_prepare C sql)"

definition probe_describe :: "build_env \<Rightarrow> probe \<Rightarrow> str \<Rightarrow> statement_metadata verified" where
  "probe_describe E p sql = bindr (probe_connect E p) (\<lambda>C. describe_with_client C sql)"

record table_column_metadata =
  tc_name :: str
  tc_type :: type_metadata
  tc_nullability :: nullability

definition load_table_columns_with_client :: "live_client \<Rightarrow> str \<Rightarrow> table_column_metadata list verified" where
  "load_table_columns_with_client C table_name =
     bindr (map_err (\<lambda>err. verification_error VkSql (''failed to resolve referenced table `'' @ table_name
         @ ''` against live database: '' @ format_postgres_error err)) (lv_regclass C table_name)) (\<lambda>found.
     bindr (ok_or (verification_error VkSchema (''referenced authored schema table `'' @ table_name
         @ ''` was not found in the live database'')) found) (\<lambda>relation.
     bindr (map_err (\<lambda>err. verification_error VkSql (''failed to describe referenced table `'' @ table_name
         @ ''` against live database: '' @ format_postgres_error err)) (lv_attributes C relation)) (\<lambda>rows.
     Inr (map (\<lambda>(name, type_oid, type_name, nullable_flag).
       \<lparr>tc_name = name, tc_type = \<lparr>tm_oid = type_oid, tm_name = type_name\<rparr>,
        tc_nullability = (if nullable_flag then Nullable else NonNull)\<rparr>) rows))))"

section \<open>Comparison\<close>

definition show_oid :: "oid \<Rightarrow> str" where
  "show_oid n = show_nat (unat n)"

fun verify_params_from :: "nat \<Rightarrow> type_metadata list \<Rightarrow> declared_type list \<Rightarrow> unit verified" where
  "verify_params_from index (a # as) (e # es) =
     (if tm_oid a \<noteq> dt_oid e
      then Inl (verification_error VkSchema (''parameter $'' @ show_nat (index + 1) @ '' has database type '' @ tm_name a
        @ '' (oid '' @ show_oid (tm_oid a) @ '') but the declared codec DSL expects '' @ dt_display e
        @ '' (oid '' @ show_oid (dt_oid e) @ '')''))
      else verify_params_from (Suc index) as es)"
| "verify_params_from index _ _ = Inr ()"

definition verify_param_metadata :: "type_metadata list \<Rightarrow> declared_type list \<Rightarrow> unit verified" where
  "verify_param_metadata actual expected =
     (if length actual \<noteq> length expected
      then Inl (verification_error VkSchema (''parameter count mismatch: SQL uses '' @ show_nat (length actual)
        @ '' parameter(s) but the declared codec DSL expects '' @ show_nat (length expected)))
      else verify_params_from 0 actual expected)"

fun verify_rows_from :: "nat \<Rightarrow> column_metadata list \<Rightarrow> declared_type list \<Rightarrow> unit verified" where
  "verify_rows_from index (a # as) (e # es) =
     (if tm_oid (cm_type a) \<noteq> dt_oid e
      then Inl (verification_error VkSchema (''row column '' @ show_nat (index + 1) @ '' `'' @ cm_name a
        @ ''` has database type '' @ tm_name (cm_type a) @ '' (oid '' @ show_oid (tm_oid (cm_type a))
        @ '') but the declared decoder expects '' @ dt_display e @ '' (oid '' @ show_oid (dt_oid e) @ '')''))
      else verify_rows_from (Suc index) as es)"
| "verify_rows_from index _ _ = Inr ()"

definition verify_row_metadata :: "column_metadata list \<Rightarrow> declared_type list \<Rightarrow> unit verified" where
  "verify_row_metadata actual expected =
     (if length actual \<noteq> length expected
      then Inl (verification_error VkSchema (''row column count mismatch: SQL returns '' @ show_nat (length actual)
        @ '' column(s) but the declared decoder expects '' @ show_nat (length expected)))
      else verify_rows_from 0 actual expected)"

definition verify_metadata :: "statement_metadata \<Rightarrow> declared_type list \<Rightarrow> declared_type list option \<Rightarrow> unit verified" where
  "verify_metadata m params rows =
     bindr (verify_param_metadata (sm_params m) params) (\<lambda>_.
     case rows of None \<Rightarrow> Inr () | Some r \<Rightarrow> verify_row_metadata (sm_columns m) r)"

definition verify_statement_against_probe :: "build_env \<Rightarrow> str \<Rightarrow> declared_type list \<Rightarrow> declared_type list option \<Rightarrow> unit verified" where
  "verify_statement_against_probe E sql params rows =
     bindr (discover E) (\<lambda>found.
     case found of
       None \<Rightarrow> Inr ()
     | Some p \<Rightarrow> bindr (probe_describe E p sql) (\<lambda>m. verify_metadata m params rows))"

text \<open>The check of \<open>sql!\<close>: only when all codecs are in the verifiable sublanguage.\<close>

definition verify_sql_input :: "build_env \<Rightarrow> compiled_sql \<Rightarrow> unit verified" where
  "verify_sql_input E c =
     (case verifiable_param_types (cq_codecs c) of
        None \<Rightarrow> Inr ()
      | Some expected \<Rightarrow>
          bindr (discover E) (\<lambda>found.
          case found of
            None \<Rightarrow> Inr ()
          | Some p \<Rightarrow> bindr (probe_describe E p (cq_sql c)) (\<lambda>m. verify_param_metadata (sm_params m) expected)))"

fun declared_type_for_sql_type :: "sql_type \<Rightarrow> declared_type" where
  "declared_type_for_sql_type TyBool = \<lparr>dt_oid = 16, dt_display = ''bool''\<rparr>"
| "declared_type_for_sql_type TyBytea = \<lparr>dt_oid = 17, dt_display = ''bytea''\<rparr>"
| "declared_type_for_sql_type TyVarchar = \<lparr>dt_oid = 1043, dt_display = ''varchar''\<rparr>"
| "declared_type_for_sql_type TyText = \<lparr>dt_oid = 25, dt_display = ''text''\<rparr>"
| "declared_type_for_sql_type TyInt2 = \<lparr>dt_oid = 21, dt_display = ''int2''\<rparr>"
| "declared_type_for_sql_type TyInt4 = \<lparr>dt_oid = 23, dt_display = ''int4''\<rparr>"
| "declared_type_for_sql_type TyInt8 = \<lparr>dt_oid = 20, dt_display = ''int8''\<rparr>"
| "declared_type_for_sql_type TyFloat4 = \<lparr>dt_oid = 700, dt_display = ''float4''\<rparr>"
| "declared_type_for_sql_type TyFloat8 = \<lparr>dt_oid = 701, dt_display = ''float8''\<rparr>"
| "declared_type_for_sql_type TyUuid = \<lparr>dt_oid = 2950, dt_display = ''uuid''\<rparr>"
| "declared_type_for_sql_type TyDate = \<lparr>dt_oid = 1082, dt_display = ''date''\<rparr>"
| "declared_type_for_sql_type TyTime = \<lparr>dt_oid = 1083, dt_display = ''time''\<rparr>"
| "declared_type_for_sql_type TyTimestamp = \<lparr>dt_oid = 1114, dt_display = ''timestamp''\<rparr>"
| "declared_type_for_sql_type TyTimestamptz = \<lparr>dt_oid = 1184, dt_display = ''timestamptz''\<rparr>"
| "declared_type_for_sql_type TyJson = \<lparr>dt_oid = 114, dt_display = ''json''\<rparr>"
| "declared_type_for_sql_type TyJsonb = \<lparr>dt_oid = 3802, dt_display = ''jsonb''\<rparr>"
| "declared_type_for_sql_type TyNumeric = \<lparr>dt_oid = 1700, dt_display = ''numeric''\<rparr>"
| "declared_type_for_sql_type (TyOther name) = \<lparr>dt_oid = 0, dt_display = name\<rparr>"

record referenced_column =
  rfc_name :: str
  rfc_type :: declared_type
  rfc_nullability :: nullability

record referenced_table =
  rft_name :: str
  rft_columns :: "referenced_column list"

definition describe_nullability :: "nullability \<Rightarrow> str" where
  "describe_nullability n = (case n of NonNull \<Rightarrow> ''NOT NULL'' | Nullable \<Rightarrow> ''nullable'')"

fun verify_columns :: "str \<Rightarrow> table_column_metadata list \<Rightarrow> referenced_column list \<Rightarrow> unit verified" where
  "verify_columns table actual [] = Inr ()"
| "verify_columns table actual (e # es) =
     (let place = ''referenced authored schema column `'' @ table @ ''.'' @ rfc_name e @ ''`'' in
      case find (\<lambda>c. tc_name c = rfc_name e) actual of
        None \<Rightarrow> Inl (verification_error VkSchema (place @ '' was not found in the live database''))
      | Some a \<Rightarrow>
          if tm_oid (tc_type a) \<noteq> dt_oid (rfc_type e)
          then Inl (verification_error VkSchema (place @ '' has database type '' @ tm_name (tc_type a)
            @ '' (oid '' @ show_oid (tm_oid (tc_type a)) @ '') but the authored schema expects '' @ dt_display (rfc_type e)
            @ '' (oid '' @ show_oid (dt_oid (rfc_type e)) @ '')''))
          else if tc_nullability a \<noteq> rfc_nullability e
          then Inl (verification_error VkSchema (place @ '' has live nullability '' @ describe_nullability (tc_nullability a)
            @ '' but the authored schema expects '' @ describe_nullability (rfc_nullability e)))
          else verify_columns table actual es)"

fun verify_referenced_tables_with_client :: "live_client \<Rightarrow> referenced_table list \<Rightarrow> unit verified" where
  "verify_referenced_tables_with_client C [] = Inr ()"
| "verify_referenced_tables_with_client C (t # ts) =
     bindr (load_table_columns_with_client C (rft_name t)) (\<lambda>actual.
     bindr (verify_columns (rft_name t) actual (rft_columns t)) (\<lambda>_.
     verify_referenced_tables_with_client C ts))"

definition verify_typed_statement_against_probe ::
    "build_env \<Rightarrow> str \<Rightarrow> referenced_table list \<Rightarrow> declared_type list \<Rightarrow> declared_type list option \<Rightarrow> unit verified" where
  "verify_typed_statement_against_probe E sql tables params rows =
     bindr (discover E) (\<lambda>found.
     case found of
       None \<Rightarrow> Inr ()
     | Some p \<Rightarrow>
         bindr (probe_connect E p) (\<lambda>C.
         bindr (verify_referenced_tables_with_client C tables) (\<lambda>_.
         bindr (describe_with_client C sql) (\<lambda>m. verify_metadata m params rows))))"

section \<open>The declared schema\<close>

datatype 's column_type_input = CtBase str 's | CtNullable str 's

record 's schema_column_input =
  sci_name :: str
  sci_span :: 's
  sci_type :: "'s column_type_input"

record 's schema_table_input =
  sti_schema :: "str option"
  sti_name :: str
  sti_span :: 's
  sti_columns :: "'s schema_column_input list"

text \<open>Errors that point to a second place are represented by their first part.\<close>

definition resolve_sql_type :: "str \<Rightarrow> 's \<Rightarrow> ('s, sql_type) syn_result" where
  "resolve_sql_type name span =
     ok_or (syn_error_new span (''unsupported schema type `'' @ name
         @ ''`; supported types are bool, bytea, varchar, text, int2, int4, int8, float4, float8, uuid, date, time, timestamp, timestamptz, json, jsonb, and numeric''))
       (map_of [(''bool'', TyBool), (''bytea'', TyBytea), (''varchar'', TyVarchar), (''text'', TyText), (''int2'', TyInt2), (''int4'', TyInt4),
          (''int8'', TyInt8), (''float4'', TyFloat4), (''float8'', TyFloat8), (''uuid'', TyUuid), (''date'', TyDate), (''time'', TyTime),
          (''timestamp'', TyTimestamp), (''timestamptz'', TyTimestamptz), (''json'', TyJson), (''jsonb'', TyJsonb), (''numeric'', TyNumeric)] name)"

fun column_type_resolve :: "'s column_type_input \<Rightarrow> ('s, sql_type \<times> nullability) syn_result" where
  "column_type_resolve (CtBase name span) = bindr (resolve_sql_type name span) (\<lambda>t. Inr (t, NonNull))"
| "column_type_resolve (CtNullable name span) = bindr (resolve_sql_type name span) (\<lambda>t. Inr (t, Nullable))"

definition into_schema_column :: "'s schema_column_input \<Rightarrow> ('s, schema_column) syn_result" where
  "into_schema_column c =
     bindr (column_type_resolve (sci_type c)) (\<lambda>(t, n). Inr \<lparr>sc_name = sci_name c, sc_sql_type = t, sc_nullability = n\<rparr>)"

fun table_input_columns :: "str \<Rightarrow> str list \<Rightarrow> 's schema_column_input list \<Rightarrow> ('s, schema_column list) syn_result" where
  "table_input_columns table seen [] = Inr []"
| "table_input_columns table seen (c # cs) =
     (if sci_name c \<in> set seen
      then Inl (syn_error_new (sci_span c) (''duplicate column `'' @ sci_name c @ ''` in schema table `'' @ table @ ''`''))
      else
        bindr (into_schema_column c) (\<lambda>column.
        bindr (table_input_columns table (sci_name c # seen) cs) (\<lambda>columns. Inr (column # columns))))"

definition input_qualified_name :: "'s schema_table_input \<Rightarrow> str" where
  "input_qualified_name t = (case sti_schema t of Some schema \<Rightarrow> schema @ ''.'' @ sti_name t | None \<Rightarrow> sti_name t)"

fun schema_input_tables :: "str list \<Rightarrow> 's schema_table_input list \<Rightarrow> ('s, schema_table list) syn_result" where
  "schema_input_tables seen [] = Inr []"
| "schema_input_tables seen (t # ts) =
     (let name = input_qualified_name t in
      if name \<in> set seen then Inl (syn_error_new (sti_span t) (''duplicate table `'' @ name @ ''` in schema block''))
      else
        bindr (table_input_columns name [] (sti_columns t)) (\<lambda>columns.
        bindr (map_err (\<lambda>err. syn_error_new (sti_span t) (show_typed_sql_error err)) (schema_table_new (sti_schema t) (sti_name t) columns)) (\<lambda>table.
        bindr (schema_input_tables (name # seen) ts) (\<lambda>tables. Inr (table # tables)))))"

definition into_catalog :: "'s \<Rightarrow> 's schema_table_input list \<Rightarrow> ('s, schema_catalog) syn_result" where
  "into_catalog brace tables =
     bindr (schema_input_tables [] tables) (\<lambda>ts.
     map_err (\<lambda>err. syn_error_new brace (show_typed_sql_error err)) (schema_catalog_new ts))"

section \<open>The front door\<close>

datatype schema_source_kind = SchemaInline | AuthoredBridge

datatype typed_sql_selection = SelDefault | SelExplicit str | SelInfer

datatype macro_entrypoint = EpQuery | EpCommand

record 's front_door_input =
  fi_source_kind :: schema_source_kind
  fi_brace :: 's
  fi_tables :: "'s schema_table_input list"
  fi_params :: typed_sql_selection
  fi_row :: typed_sql_selection
  fi_sql :: "'s public_sql_input"

record 's front_door =
  fd_source_kind :: schema_source_kind
  fd_catalog :: schema_catalog
  fd_params :: typed_sql_selection
  fd_row :: typed_sql_selection
  fd_sql :: "'s public_sql_input"

text \<open>The tokens after the schema and the selections are the statement.\<close>

definition ident_name :: "str \<Rightarrow> str" where
  "ident_name ident = (case strip_prefix ''r#'' ident of None \<Rightarrow> ident | Some name \<Rightarrow> name)"

definition trim_optional_trailing_comma :: "'s token_tree list \<Rightarrow> 's token_tree list" where
  "trim_optional_trailing_comma tokens =
     (case rev tokens of TtPunct c _ # rest \<Rightarrow> if c = CHR '','' then rev rest else tokens | _ \<Rightarrow> tokens)"

definition extra_schema_message :: "schema_source_kind \<Rightarrow> str \<Rightarrow> str" where
  "extra_schema_message kind name =
     (if kind = AuthoredBridge \<and> name = ''schema''
      then ''schema-scoped wrapper already supplies the schema; inline `schema = { ... }` blocks cannot be mixed into this call''
      else if kind = AuthoredBridge
      then ''schema-scoped wrapper already supplies its internal schema bridge; do not pass `__babar_schema = { ... }` manually''
      else if name = ''__babar_schema''
      then ''cannot mix inline `schema = { ... }` with the authored external schema bridge `__babar_schema = { ... }` in one schema-aware typed SQL call''
      else ''schema-aware typed SQL accepts only one `schema = { ... }` block before the SQL input'')"

definition reject_extra_schema_argument :: "schema_source_kind \<Rightarrow> 's token_tree list \<Rightarrow> ('s, unit) syn_result" where
  "reject_extra_schema_argument kind tokens =
     (case tokens of
        TtIdent ident span # TtPunct c _ # _ \<Rightarrow>
          if ident_name ident \<in> {''schema'', ''__babar_schema''} \<and> c = CHR ''=''
          then Inl (syn_error_new span (extra_schema_message kind (ident_name ident)))
          else Inr ()
      | _ \<Rightarrow> Inr ())"

definition front_sql_input :: "'s span_ops \<Rightarrow> schema_source_kind \<Rightarrow> 's token_tree list \<Rightarrow> ('s, 's public_sql_input) syn_result" where
  "front_sql_input J kind tokens =
     (let sql_tokens = trim_optional_trailing_comma tokens in
      bindr (reject_extra_schema_argument kind sql_tokens) (\<lambda>_. public_sql_parse J sql_tokens))"

definition into_front_door :: "'s front_door_input \<Rightarrow> ('s, 's front_door) syn_result" where
  "into_front_door i =
     bindr (into_catalog (fi_brace i) (fi_tables i)) (\<lambda>cat.
     Inr \<lparr>fd_source_kind = fi_source_kind i, fd_catalog = cat, fd_params = fi_params i, fd_row = fi_row i, fd_sql = fi_sql i\<rparr>)"

definition decorate_error :: "'s front_door \<Rightarrow> typed_sql_error \<Rightarrow> typed_sql_error" where
  "decorate_error fd err =
     (if fd_source_kind fd \<noteq> AuthoredBridge then err
      else if te_kind err = TkResolve then err\<lparr>te_message := ''authored external schema lookup failed: '' @ te_message err\<rparr>
      else if te_kind err = TkUnsupported \<and> contains ''runtime lowering does not yet support SQL type'' (te_message err)
      then err\<lparr>te_message := ''authored external schema declarations can express this type, but '' @ te_message err\<rparr>
      else err)"

definition front_syn_error :: "'s span_ops \<Rightarrow> 's front_door \<Rightarrow> typed_sql_error \<Rightarrow> 's syn_error" where
  "front_syn_error J fd err = public_syn_error J (fd_sql fd) (decorate_error fd err)"

definition enforce_entrypoint_contract ::
    "'s span_ops \<Rightarrow> 's front_door \<Rightarrow> checked_statement \<Rightarrow> macro_entrypoint \<Rightarrow> ('s, unit) syn_result" where
  "enforce_entrypoint_contract J fd checked entrypoint =
     (if entrypoint = EpQuery \<and> ckst_kind checked \<noteq> SkQuery
      then Inl (syn_error_message J (fd_sql fd)
        ''query! now only accepts schema-aware SELECT statements; use command! for typed INSERT, UPDATE, or DELETE statements'')
      else if entrypoint = EpCommand \<and> ckst_kind checked = SkQuery
      then Inl (syn_error_message J (fd_sql fd)
        ''command! now accepts only schema-aware INSERT, UPDATE, or DELETE statements; use query! for typed SELECT statements'')
      else Inr ())"

section \<open>Referenced tables\<close>

type_synonym column_sets = "(str \<times> (str \<times> unit) list) list"

definition or_default_table :: "str \<Rightarrow> column_sets \<Rightarrow> column_sets" where
  "or_default_table t m = (case bt_get m t of None \<Rightarrow> bt_insert t [] m | Some _ \<Rightarrow> m)"

definition insert_column :: "str \<Rightarrow> str \<Rightarrow> column_sets \<Rightarrow> column_sets" where
  "insert_column t c m = bt_insert t (bt_insert c () (case bt_get m t of None \<Rightarrow> [] | Some cs \<Rightarrow> cs)) m"

fun collect_referenced_columns_expr :: "(str \<rightharpoonup> str) \<Rightarrow> parsed_expr \<Rightarrow> column_sets \<Rightarrow> column_sets" where
  "collect_referenced_columns_expr tables (PColumn c) m =
     (case tables (id_value (cr_binding c)) of None \<Rightarrow> m | Some t \<Rightarrow> insert_column t (id_value (cr_column c)) m)"
| "collect_referenced_columns_expr tables (POptionalGroup i s e) m = collect_referenced_columns_expr tables e m"
| "collect_referenced_columns_expr tables (PUnary i s op e) m = collect_referenced_columns_expr tables e m"
| "collect_referenced_columns_expr tables (PIsNull i s negated e) m = collect_referenced_columns_expr tables e m"
| "collect_referenced_columns_expr tables (PBinary i s op l r) m =
     collect_referenced_columns_expr tables r (collect_referenced_columns_expr tables l m)"
| "collect_referenced_columns_expr tables (PBoolChain i s op ts) m = fold (collect_referenced_columns_expr tables) ts m"
| "collect_referenced_columns_expr tables (PPlaceholder p) m = m"
| "collect_referenced_columns_expr tables (PLiteral l) m = m"

definition collected_exprs :: "parsed_select \<Rightarrow> parsed_expr list" where
  "collected_exprs s =
     map pp_expr (ps_projections s) @ (case ps_filter s of None \<Rightarrow> [] | Some e \<Rightarrow> [e]) @ map pj_on (ps_joins s)
     @ map po_expr (ps_order_by s) @ (case ps_limit s of None \<Rightarrow> [] | Some l \<Rightarrow> [plim_expr l])
     @ (case ps_offset s of None \<Rightarrow> [] | Some l \<Rightarrow> [plim_expr l])"

definition collect_referenced_columns_select :: "parsed_select \<Rightarrow> (str \<rightharpoonup> str) \<Rightarrow> column_sets \<Rightarrow> column_sets" where
  "collect_referenced_columns_select s tables = fold (collect_referenced_columns_expr tables) (collected_exprs s)"

definition referenced_column_of :: "schema_catalog \<Rightarrow> str \<Rightarrow> str \<Rightarrow> referenced_column option" where
  "referenced_column_of cat table name =
     map_option (\<lambda>c. \<lparr>rfc_name = name, rfc_type = declared_type_for_sql_type (sc_sql_type c), rfc_nullability = sc_nullability c\<rparr>)
       (lookup_column_by_display_name cat table name)"

text \<open>\<^const>\<open>None\<close> is the panic of a column that the catalog does not have.\<close>

definition collect_referenced_tables :: "parsed_sql \<Rightarrow> (str \<times> str) list \<Rightarrow> schema_catalog \<Rightarrow> referenced_table list option" where
  "collect_referenced_tables parsed pairs cat =
     (let tables = map_of (rev pairs);
          start = fold or_default_table (map (\<lambda>b. the (tables b)) (remdups (map fst pairs))) [];
          sets = (case psq_select parsed of None \<Rightarrow> start | Some s \<Rightarrow> collect_referenced_columns_select s tables start) in
      those (map (\<lambda>(table, names).
        map_option (\<lambda>cs. \<lparr>rft_name = table, rft_columns = cs\<rparr>) (those (map (\<lambda>(n, _). referenced_column_of cat table n) names))) sets))"

definition verify_live_schema ::
    "build_env \<Rightarrow> 's front_door \<Rightarrow> parsed_sql \<Rightarrow> checked_select \<Rightarrow> lowered_query \<Rightarrow> unit verified option" where
  "verify_live_schema E fd parsed checked lowered =
     map_option (\<lambda>tables.
       verify_typed_statement_against_probe E (lq_sql lowered) tables
         (map (\<lambda>p. declared_type_for_sql_type (lp_sql_type p)) (lq_parameters lowered))
         (Some (map (\<lambda>c. declared_type_for_sql_type (lc_sql_type c)) (lq_columns lowered))))
       (collect_referenced_tables parsed (map (\<lambda>b. (cb_binding_name b, cb_table_name b)) (cs_bindings checked)) (fd_catalog fd))"

section \<open>Emission and the whole macro\<close>

text \<open>
  What the macro emits: the statement with its number of parameters, the table of shapes of a dynamic statement,
  and the codecs: a tuple of codecs, the codecs of the fields of a given type by name, or the codec of the type
  that the compiler infers. \<^const>\<open>None\<close> is a panic.
\<close>

datatype selected_codec = CodecTuple "str list" | CodecFields str "(str \<times> str) list" | CodecInferred

record emitted_sql =
  em_sql :: str
  em_n_params :: nat
  em_shapes :: "runtime_sql_shape list option"

datatype emitted =
    EmitQuery emitted_sql selected_codec selected_codec
  | EmitCommand emitted_sql selected_codec

definition runtime_codec_tokens :: "sql_type \<Rightarrow> nullability \<Rightarrow> source_span option \<Rightarrow> str tresult" where
  "runtime_codec_tokens t nb span = bindr (lower_runtime_codec t nb span) (\<lambda>c. Inr (codec_tokens c))"

definition explicit_codec_tokens :: "str \<Rightarrow> (str \<times> sql_type \<times> nullability) list \<Rightarrow> selected_codec option" where
  "explicit_codec_tokens ty fs =
     map_option (CodecFields ty) (those (map (\<lambda>(name, t, nb).
       case runtime_codec_tokens t nb None of Inl _ \<Rightarrow> None | Inr tokens \<Rightarrow> Some (name, tokens)) fs))"

definition explicit_parameter_codec_tokens :: "str \<Rightarrow> lowered_query \<Rightarrow> selected_codec option" where
  "explicit_parameter_codec_tokens ty q =
     explicit_codec_tokens ty (map (\<lambda>p. (lp_logical_name p, lp_sql_type p, lp_nullability p)) (lq_parameters q))"

definition explicit_row_codec_tokens :: "str \<Rightarrow> lowered_query \<Rightarrow> selected_codec option" where
  "explicit_row_codec_tokens ty q =
     explicit_codec_tokens ty (map (\<lambda>c. (lc_label c, lc_sql_type c, lc_nullability c)) (lq_columns q))"

fun selected_parameter_codec :: "typed_sql_selection \<Rightarrow> lowered_query \<Rightarrow> selected_codec option" where
  "selected_parameter_codec SelDefault q = Some (CodecTuple (parameter_codec_tokens q))"
| "selected_parameter_codec SelInfer q = Some CodecInferred"
| "selected_parameter_codec (SelExplicit ty) q = explicit_parameter_codec_tokens ty q"

fun selected_row_codec :: "typed_sql_selection \<Rightarrow> lowered_query \<Rightarrow> selected_codec option" where
  "selected_row_codec SelDefault q = Some (CodecTuple (row_codec_tokens q))"
| "selected_row_codec SelInfer q = Some CodecInferred"
| "selected_row_codec (SelExplicit ty) q = explicit_row_codec_tokens ty q"

definition emit_sql :: "lowered_query \<Rightarrow> emitted_sql option" where
  "emit_sql q =
     (if is_dynamic q
      then map_option (\<lambda>shapes. \<lparr>em_sql = lq_sql q, em_n_params = length (lq_parameters q), em_shapes = Some shapes\<rparr>)
             (runtime_sql_shapes q (optional_parameters q))
      else Some \<lparr>em_sql = lq_sql q, em_n_params = length (lq_parameters q), em_shapes = None\<rparr>)"

definition obind :: "'a option \<Rightarrow> ('a \<Rightarrow> 'b option) \<Rightarrow> 'b option" where
  "obind m f = (case m of None \<Rightarrow> None | Some a \<Rightarrow> f a)"

definition pbind :: "('e + 'a) option \<Rightarrow> ('a \<Rightarrow> ('e + 'b) option) \<Rightarrow> ('e + 'b) option" where
  "pbind m f = (case m of None \<Rightarrow> None | Some (Inl e) \<Rightarrow> Some (Inl e) | Some (Inr a) \<Rightarrow> f a)"

fun duplicate_labels :: "str list \<Rightarrow> str list \<Rightarrow> str list" where
  "duplicate_labels seen [] = []"
| "duplicate_labels seen (l # ls) = (if l \<in> set seen then l # duplicate_labels seen ls else duplicate_labels (l # seen) ls)"

definition enforce_strict_row_selection :: "'s span_ops \<Rightarrow> 's front_door \<Rightarrow> lowered_query \<Rightarrow> ('s, unit) syn_result" where
  "enforce_strict_row_selection J fd lowered =
     (if fd_row fd = SelDefault then Inr ()
      else
        (let duplicates = duplicate_labels [] (map lc_label (lq_columns lowered)) in
         if duplicates = [] then Inr ()
         else Inl (syn_error_message J (fd_sql fd)
           (''strict row selection requires unique final output names before matching a row struct; duplicate output names: ''
            @ join_str '', '' duplicates))))"

definition dynamic_params_message :: str where
  "dynamic_params_message = ''`params = ...` selection is not yet supported for typed SQL statements with optional placeholders or toggle groups''"

definition emit_query_tokens :: "'s span_ops \<Rightarrow> 's front_door \<Rightarrow> lowered_query \<Rightarrow> ('s, emitted) syn_result option" where
  "emit_query_tokens J fd lowered =
     (if is_dynamic lowered \<and> fd_params fd \<noteq> SelDefault then Some (Inl (syn_error_message J (fd_sql fd) dynamic_params_message))
      else
        pbind (Some (enforce_strict_row_selection J fd lowered)) (\<lambda>_.
        obind (selected_parameter_codec (fd_params fd) lowered) (\<lambda>params.
        obind (selected_row_codec (fd_row fd) lowered) (\<lambda>row.
        obind (emit_sql lowered) (\<lambda>sql. Some (Inr (EmitQuery sql params row)))))))"

definition emit_command_tokens :: "'s span_ops \<Rightarrow> 's front_door \<Rightarrow> lowered_query \<Rightarrow> ('s, emitted) syn_result option" where
  "emit_command_tokens J fd lowered =
     (if fd_row fd \<noteq> SelDefault
      then Some (Inl (syn_error_message J (fd_sql fd) ''`row = Type` is only supported for row-producing typed SQL''))
      else if is_dynamic lowered \<and> fd_params fd \<noteq> SelDefault
      then Some (Inl (syn_error_message J (fd_sql fd) dynamic_params_message))
      else
        obind (selected_parameter_codec (fd_params fd) lowered) (\<lambda>params.
        obind (emit_sql lowered) (\<lambda>sql. Some (Inr (EmitCommand sql params)))))"

definition live_check ::
    "'s span_ops \<Rightarrow> build_env \<Rightarrow> 's front_door \<Rightarrow> parsed_sql \<Rightarrow> checked_statement \<Rightarrow> lowered_query \<Rightarrow> ('s, unit) syn_result option" where
  "live_check J E fd parsed checked lowered =
     (case (ckst_body checked, psq_select parsed) of
         (CkSelect select, Some _) \<Rightarrow>
           map_option (map_err (\<lambda>err. syn_error_message J (fd_sql fd) (show_verification_error err)))
             (verify_live_schema E fd parsed select lowered)
       | _ \<Rightarrow> Some (Inr ()))"

definition emit_tokens ::
    "'s span_ops \<Rightarrow> 's front_door \<Rightarrow> checked_statement \<Rightarrow> lowered_query \<Rightarrow> ('s, emitted) syn_result option" where
  "emit_tokens J fd checked lowered =
     (case ckst_result checked of
        ResRows \<Rightarrow> emit_query_tokens J fd lowered
      | ResCommand \<Rightarrow> emit_command_tokens J fd lowered)"

definition compile_typed_query ::
    "'s span_ops \<Rightarrow> sql_parser \<Rightarrow> build_env \<Rightarrow> 's front_door_input \<Rightarrow> macro_entrypoint \<Rightarrow> ('s, emitted) syn_result option" where
  "compile_typed_query J P E input entrypoint =
     pbind (Some (into_front_door input)) (\<lambda>fd.
     pbind (Some (public_parse_with J (fd_sql fd) (parse_typed_sql_source P))) (\<lambda>parsed.
     pbind (Some (map_err (front_syn_error J fd) (resolve_statement (psq_statement parsed) (fd_catalog fd)))) (\<lambda>checked.
     pbind (Some (enforce_entrypoint_contract J fd checked entrypoint)) (\<lambda>_.
     pbind (map_option (map_err (front_syn_error J fd)) (lower_statement parsed checked)) (\<lambda>lowered.
     pbind (live_check J E fd parsed checked lowered) (\<lambda>_.
     emit_tokens J fd checked lowered))))))"

section \<open>What the comparison accepts\<close>

lemma verify_params_from_ok:
  "length actual = length expected \<Longrightarrow> verify_params_from i actual expected = Inr () \<longleftrightarrow> map tm_oid actual = map dt_oid expected"
  by (induction i actual expected rule: verify_params_from.induct) auto

lemma verify_param_metadata_ok: "verify_param_metadata actual expected = Inr () \<longleftrightarrow> map tm_oid actual = map dt_oid expected"
  using verify_params_from_ok [of actual expected 0] map_eq_imp_length_eq [of tm_oid actual dt_oid expected]
  by (auto simp: verify_param_metadata_def)

lemma verify_rows_from_ok:
  "length actual = length expected \<Longrightarrow>
   verify_rows_from i actual expected = Inr () \<longleftrightarrow> map (\<lambda>c. tm_oid (cm_type c)) actual = map dt_oid expected"
  by (induction i actual expected rule: verify_rows_from.induct) auto

lemma verify_row_metadata_ok:
  "verify_row_metadata actual expected = Inr () \<longleftrightarrow> map (\<lambda>c. tm_oid (cm_type c)) actual = map dt_oid expected"
  using verify_rows_from_ok [of actual expected 0] map_eq_imp_length_eq [of "\<lambda>c. tm_oid (cm_type c)" actual dt_oid expected]
  by (auto simp: verify_row_metadata_def)

definition column_matches :: "table_column_metadata list \<Rightarrow> referenced_column \<Rightarrow> bool" where
  "column_matches actual e \<longleftrightarrow>
     (\<exists>a. find (\<lambda>c. tc_name c = rfc_name e) actual = Some a \<and> tm_oid (tc_type a) = dt_oid (rfc_type e)
        \<and> tc_nullability a = rfc_nullability e)"

lemma verify_columns_ok: "verify_columns table actual es = Inr () \<longleftrightarrow> (\<forall>e \<in> set es. column_matches actual e)"
  by (induction es) (auto simp: column_matches_def Let_def split: option.splits)

definition table_matches :: "live_client \<Rightarrow> referenced_table \<Rightarrow> bool" where
  "table_matches C t \<longleftrightarrow>
     (\<exists>actual. load_table_columns_with_client C (rft_name t) = Inr actual \<and> (\<forall>e \<in> set (rft_columns t). column_matches actual e))"

lemma bindr_unit_iff: "bindr r f = Inr () \<longleftrightarrow> (\<exists>a. r = Inr a \<and> f a = Inr ())"
  by (simp add: bindr_eq_Inr_iff)

lemma verify_tables_ok: "verify_referenced_tables_with_client C ts = Inr () \<longleftrightarrow> (\<forall>t \<in> set ts. table_matches C t)"
  by (induction ts) (auto simp: table_matches_def bindr_unit_iff verify_columns_ok)

definition metadata_matches :: "statement_metadata \<Rightarrow> declared_type list \<Rightarrow> declared_type list option \<Rightarrow> bool" where
  "metadata_matches m params rows \<longleftrightarrow>
     map tm_oid (sm_params m) = map dt_oid params
     \<and> (\<forall>r. rows = Some r \<longrightarrow> map (\<lambda>c. tm_oid (cm_type c)) (sm_columns m) = map dt_oid r)"

lemma verify_metadata_ok: "verify_metadata m params rows = Inr () \<longleftrightarrow> metadata_matches m params rows"
  by (auto simp: verify_metadata_def metadata_matches_def bindr_unit_iff verify_param_metadata_ok verify_row_metadata_ok split: option.splits)

lemma map_err_Inr [simp]: "map_err f r = Inr a \<longleftrightarrow> r = Inr a"
  by (cases r) (auto simp: map_err_def)

theorem verify_typed_statement_iff:
  "verify_typed_statement_against_probe E sql tables params rows = Inr () \<longleftrightarrow>
   discover E = Inr None
   \<or> (\<exists>p C m. discover E = Inr (Some p) \<and> be_connect E (pb_database_url p) = Inr C \<and> (\<forall>t \<in> set tables. table_matches C t)
        \<and> lv_prepare C sql = Inr m \<and> metadata_matches m params rows)"
  by (auto simp: verify_typed_statement_against_probe_def bindr_unit_iff probe_connect_def describe_with_client_def
      verify_tables_ok verify_metadata_ok split: option.splits)

section \<open>Referenced columns exist\<close>

fun expr_columns :: "parsed_expr \<Rightarrow> (str \<times> str) set" where
  "expr_columns (PColumn c) = {(id_value (cr_binding c), id_value (cr_column c))}"
| "expr_columns (POptionalGroup i s e) = expr_columns e"
| "expr_columns (PUnary i s op e) = expr_columns e"
| "expr_columns (PIsNull i s negated e) = expr_columns e"
| "expr_columns (PBinary i s op l r) = expr_columns l \<union> expr_columns r"
| "expr_columns (PBoolChain i s op ts) = (\<Union>t \<in> set ts. expr_columns t)"
| "expr_columns (PPlaceholder p) = {}"
| "expr_columns (PLiteral l) = {}"

definition names_ok :: "scope_map \<Rightarrow> resolved_binding list \<Rightarrow> bool" where
  "names_ok scope bs \<longleftrightarrow> (\<forall>name i. bt_get scope name = Some i \<longleftrightarrow> i < length bs \<and> rb_binding_name (bs ! i) = name)"

definition known :: "schema_catalog \<Rightarrow> scope_map \<Rightarrow> resolved_binding list \<Rightarrow> str \<times> str \<Rightarrow> bool" where
  "known cat scope bs bc \<longleftrightarrow>
     (\<exists>i < length bs. bt_get scope (fst bc) = Some i \<and> st_columns_by_name (ct_table cat (rb_table (bs ! i))) (snd bc) \<noteq> None)"

lemma resolve_expr_known:
  assumes "names_ok scope bs"
  shows "resolve_expr scope bs cat e = Inr r \<Longrightarrow> bc \<in> expr_columns e \<Longrightarrow> known cat scope bs bc"
proof (induction e arbitrary: r)
  case (PColumn c)
  with assms show ?case
    by (auto simp: resolve_column_def known_def names_ok_def Let_def elim!: bindr_InrE dest!: scope_lookup_ok split: option.splits)
next
  case (PBoolChain i s op ts)
  then show ?case
    by (auto simp: collect_r_eq_Inr_iff list_all2_conv_all_nth in_set_conv_nth elim!: bindr_InrE) (metis nth_mem)
qed (auto elim!: bindr_InrE)

lemma resolve_from_names:
  assumes "names_ok scope bs" "resolve_from from cat (length bs) scope = Inr (b, n, scope')"
  shows "names_ok scope' (bs @ [b])" "n = length (bs @ [b])" "known cat scope bs bc \<Longrightarrow> known cat scope' (bs @ [b]) bc"
proof -
  from assms(2) have free: "bt_get scope (rb_binding_name b) = None" and scope': "scope' = bt_insert (rb_binding_name b) (length bs) scope"
    and n: "n = length (bs @ [b])"
    by (auto simp: resolve_from_def Let_def scope_insert_def elim!: bindr_InrE split: option.splits)
  show "n = length (bs @ [b])" by (rule n)
  have get: "bt_get scope' name = (if name = rb_binding_name b then Some (length bs) else bt_get scope name)" for name
    by (simp add: scope' bt_get_bt_insert)
  show "names_ok scope' (bs @ [b])"
    unfolding names_ok_def
  proof (intro allI)
    fix name i
    have "bt_get scope name = Some i \<longleftrightarrow> i < length bs \<and> rb_binding_name (bs ! i) = name" using assms(1) by (simp add: names_ok_def)
    moreover have "rb_binding_name (bs ! i) \<noteq> rb_binding_name b" if "i < length bs"
      using assms(1) free that unfolding names_ok_def by (metis option.distinct(1))
    ultimately show "bt_get scope' name = Some i \<longleftrightarrow> i < length (bs @ [b]) \<and> rb_binding_name ((bs @ [b]) ! i) = name"
      by (auto simp: get nth_append less_Suc_eq)
  qed
  assume "known cat scope bs bc"
  then obtain i where i: "i < length bs" "bt_get scope (fst bc) = Some i"
    "st_columns_by_name (ct_table cat (rb_table (bs ! i))) (snd bc) \<noteq> None" by (auto simp: known_def)
  with free have "fst bc \<noteq> rb_binding_name b" by auto
  with i show "known cat scope' (bs @ [b]) bc" unfolding known_def get by (intro exI [of _ i]) (simp add: nth_append)
qed

lemma resolve_joins_names:
  assumes "names_ok scope bs" "resolve_joins cat js (length bs) scope bs = Inr (rs, scope', bs')"
  shows "names_ok scope' bs' \<and> (\<forall>bc. known cat scope bs bc \<longrightarrow> known cat scope' bs' bc)
    \<and> (\<forall>j \<in> set js. \<forall>bc \<in> expr_columns (pj_on j). known cat scope' bs' bc)"
  using assms
proof (induction js arbitrary: scope bs rs)
  case (Cons j js)
  from Cons.prems(2) obtain b n scope1 on rest where f: "resolve_from (pj_right j) cat (length bs) scope = Inr (b, n, scope1)"
    and on: "resolve_expr scope1 (bs @ [b]) cat (pj_on j) = Inr on"
    and rest: "resolve_joins cat js n scope1 (bs @ [b]) = Inr (rest, scope', bs')"
    by (auto simp: Let_def elim!: bindr_InrE)
  note step = resolve_from_names [OF Cons.prems(1) f]
  from Cons.IH [OF step(1) rest [unfolded step(2)]] step(3) resolve_expr_known [OF step(1) on] show ?case by auto
qed simp

lemma collect_r_all: "collect_r f xs = Inr ys \<Longrightarrow> \<forall>x \<in> set xs. \<exists>y. f x = Inr y"
  by (auto simp: collect_r_eq_Inr_iff list_all2_conv_all_nth in_set_conv_nth)

lemma opt_r_all: "opt_r f x = Inr y \<Longrightarrow> \<forall>a. x = Some a \<longrightarrow> (\<exists>b. f a = Inr b)"
  by (auto simp: opt_r_def elim!: bindr_InrE)

lemma resolve_names_known:
  assumes wf: "catalog_wf cat" and r: "resolve_names s cat = Inr r"
  shows "\<exists>scope. names_ok scope (rs_bindings r) \<and> bindings_ok cat scope (rs_bindings r)
    \<and> (\<forall>e \<in> set (collected_exprs s). \<forall>bc \<in> expr_columns e. known cat scope (rs_bindings r) bc)"
proof -
  from r obtain b0 n scope0 js scope ps fl obs lm off
    where f: "resolve_from (ps_from s) cat (length ([] :: resolved_binding list)) [] = Inr (b0, n, scope0)"
    and j: "resolve_joins cat (ps_joins s) n scope0 [b0] = Inr (js, scope, rs_bindings r)"
    and ps: "collect_r (resolve_projection scope (rs_bindings r) cat) (ps_projections s) = Inr ps"
    and fl: "opt_r (resolve_expr scope (rs_bindings r) cat) (ps_filter s) = Inr fl"
    and obs: "collect_r (\<lambda>item. resolve_expr scope (rs_bindings r) cat (po_expr item)) (ps_order_by s) = Inr obs"
    and lm: "opt_r (\<lambda>l. resolve_expr scope (rs_bindings r) cat (plim_expr l)) (ps_limit s) = Inr lm"
    and off: "opt_r (\<lambda>l. resolve_expr scope (rs_bindings r) cat (plim_expr l)) (ps_offset s) = Inr off"
    unfolding resolve_names_def by (elim bindr_InrE case_prodE) (auto elim!: bindr_InrE)
  have "names_ok [] []" by (simp add: names_ok_def)
  note start = resolve_from_names [OF this f]
  note joins = resolve_joins_names [OF start(1), unfolded append_Nil, OF j [unfolded start(2), unfolded append_Nil]]
  note start_ok = resolve_from_ok [OF wf bindings_ok_Nil f]
  note ok = resolve_joins_ok(1) [OF wf start_ok(3), unfolded append_Nil, OF j [unfolded start(2), unfolded append_Nil]]
  have "\<forall>p \<in> set (ps_projections s). \<exists>x. resolve_expr scope (rs_bindings r) cat (pp_expr p) = Inr x"
    using collect_r_all [OF ps] by (fastforce simp: resolve_projection_def elim!: bindr_InrE)
  with collect_r_all [OF obs] opt_r_all [OF fl] opt_r_all [OF lm] opt_r_all [OF off]
  have "(\<exists>x. resolve_expr scope (rs_bindings r) cat e = Inr x) \<or> (\<exists>j \<in> set (ps_joins s). e = pj_on j)"
    if "e \<in> set (collected_exprs s)" for e
    using that by (cases "ps_filter s"; cases "ps_limit s"; cases "ps_offset s") (auto simp: collected_exprs_def)
  then have "known cat scope (rs_bindings r) bc" if "e \<in> set (collected_exprs s)" "bc \<in> expr_columns e" for e bc
    using that joins resolve_expr_known [of scope "rs_bindings r" cat e _ bc] by blast
  with joins ok show ?thesis by blast
qed

lemma resolve_select_known:
  assumes wf: "catalog_wf cat" and "resolve_select s cat = Inr c"
  shows "\<exists>scope bs env. names_ok scope bs \<and> bindings_ok cat scope bs \<and> cs_bindings c = map (checked_target_binding env cat) bs
    \<and> (\<forall>e \<in> set (collected_exprs s). \<forall>bc \<in> expr_columns e. known cat scope bs bc)"
proof -
  from assms(2) obtain r plans env ic where r: "resolve_names s cat = Inr r" and fin: "finalize_select r cat plans env ic = Inr c"
    by (auto simp: resolve_select_def elim!: bindr_InrE)
  have "cs_bindings c = map (checked_target_binding env cat) (rs_bindings r)"
    using fin unfolding finalize_select_def by (elim bindr_InrE) auto
  with resolve_names_known [OF wf r] show ?thesis by blast
qed

section \<open>The catalog\<close>

definition decl_of :: "schema_table \<Rightarrow> str option \<times> str \<times> schema_column list" where
  "decl_of t = (st_schema t, st_name t, st_columns t)"

lemma schema_table_new_decl:
  "schema_table_new schema name columns = Inr t \<Longrightarrow> decl_of t = (schema, name, columns)"
  by (auto simp: schema_table_new_def decl_of_def elim!: bindr_InrE)

lemma schema_input_tables_distinct:
  "schema_input_tables seen ts = Inr tabs \<Longrightarrow>
   collect_r (\<lambda>(schema, name, columns). schema_table_new schema name columns) (map decl_of tabs) = Inr tabs
   \<and> distinct (map display_name tabs) \<and> set seen \<inter> set (map display_name tabs) = {}"
proof (induction ts arbitrary: seen tabs)
  case (Cons t ts)
  let ?name = "input_qualified_name t"
  from Cons.prems obtain columns table tables where new: "?name \<notin> set seen"
    and table: "schema_table_new (sti_schema t) (sti_name t) columns = Inr table"
    and rest: "schema_input_tables (?name # seen) ts = Inr tables" and tabs: "tabs = table # tables"
    by (auto simp: Let_def elim!: bindr_InrE split: if_splits)
  have decl: "decl_of table = (sti_schema t, sti_name t, columns)" by (rule schema_table_new_decl [OF table])
  then have "display_name table = ?name"
    by (auto simp: decl_of_def display_name_def qualified_name_parts_def input_qualified_name_def split: option.splits)
  with Cons.IH [OF rest] new table decl show ?case by (auto simp: tabs)
qed simp

lemma into_catalog_built:
  assumes "into_catalog brace tables = Inr cat"
  shows "build_catalog (map decl_of (ct_tables cat)) = Inr cat" and "distinct (map display_name (ct_tables cat))"
proof -
  from assms obtain ts where ts: "schema_input_tables [] tables = Inr ts" "schema_catalog_new ts = Inr cat"
    by (auto simp: into_catalog_def elim!: bindr_InrE)
  from ts(2) have "ct_tables cat = ts" by (auto simp: schema_catalog_new_def elim!: bindr_InrE)
  with ts schema_input_tables_distinct [OF ts(1)]
  show "build_catalog (map decl_of (ct_tables cat)) = Inr cat" "distinct (map display_name (ct_tables cat))"
    by (simp_all add: build_catalog_def)
qed

lemma lookup_known:
  assumes "distinct (map display_name (ct_tables cat))" "t < length (ct_tables cat)"
    and "st_columns_by_name (ct_table cat t) name = Some c"
  shows "lookup_column_by_display_name cat (display_name (ct_table cat t)) name = Some (ct_column cat t c)"
proof -
  have "find (\<lambda>u. display_name u = display_name (ct_table cat t)) (ct_tables cat) = Some (ct_table cat t)"
    unfolding find_Some_iff ct_table_def
    using assms(1,2) by (intro exI [of _ t]) (auto simp: distinct_conv_nth)
  with assms(3) show ?thesis by (simp add: lookup_column_by_display_name_def ct_table_def ct_column_def)
qed

section \<open>Collected columns\<close>

definition listed :: "column_sets \<Rightarrow> str \<Rightarrow> str \<Rightarrow> bool" where
  "listed m t c \<longleftrightarrow> (\<exists>cs. (t, cs) \<in> set m \<and> c \<in> fst ` set cs)"

definition stored :: "column_sets \<Rightarrow> str \<Rightarrow> str \<Rightarrow> bool" where
  "stored m t c \<longleftrightarrow> (\<exists>cs. bt_get m t = Some cs \<and> bt_get cs c \<noteq> None)"

lemma stored_listed: "stored m t c \<Longrightarrow> listed m t c"
  by (force simp: stored_def listed_def bt_get_def dest: map_of_SomeD)

lemma set_bt_insert_subset: "set (bt_insert k v m) \<subseteq> insert (k, v) (set m)"
  by (induction k v m rule: bt_insert.induct) auto

lemma listed_insert_column: "listed (insert_column t c m) t' c' \<Longrightarrow> listed m t' c' \<or> (t', c') = (t, c)"
proof -
  let ?old = "case bt_get m t of None \<Rightarrow> [] | Some cs \<Rightarrow> cs"
  assume "listed (insert_column t c m) t' c'"
  then obtain cs where cs: "(t', cs) \<in> set (bt_insert t (bt_insert c () ?old) m)" "c' \<in> fst ` set cs"
    by (auto simp: listed_def insert_column_def)
  from cs(1) set_bt_insert_subset [of t "bt_insert c () ?old" m] consider "(t', cs) \<in> set m" | "t' = t" "cs = bt_insert c () ?old"
    by auto
  then show ?thesis
  proof cases
    case 1
    with cs(2) show ?thesis by (auto simp: listed_def)
  next
    case 2
    show ?thesis
    proof (cases "bt_get m t")
      case None
      with 2 cs(2) show ?thesis by simp
    next
      case (Some old)
      then have "(t, old) \<in> set m" by (auto simp: bt_get_def dest: map_of_SomeD)
      with Some 2 cs(2) show ?thesis by (auto simp: set_bt_insert listed_def)
    qed
  qed
qed

lemma stored_insert_column: "stored (insert_column t c m) t' c' \<longleftrightarrow> stored m t' c' \<or> (t', c') = (t, c)"
  by (auto simp: stored_def insert_column_def bt_get_bt_insert split: option.splits)

lemma fold_listed:
  assumes "\<And>x m. x \<in> set xs \<Longrightarrow> listed (f x m) t c \<Longrightarrow> listed m t c \<or> P x"
  shows "listed (fold f xs m) t c \<Longrightarrow> listed m t c \<or> (\<exists>x \<in> set xs. P x)"
  using assms
proof (induction xs arbitrary: m)
  case (Cons x xs)
  from Cons.prems(1) have "listed (fold f xs (f x m)) t c" by simp
  with Cons.IH Cons.prems(2) have "listed (f x m) t c \<or> (\<exists>y \<in> set xs. P y)" by simp
  with Cons.prems(2) [of x m] show ?case by auto
qed simp

lemma collect_expr_listed:
  "listed (collect_referenced_columns_expr tables e m) t c \<Longrightarrow> listed m t c \<or> (\<exists>b. (b, c) \<in> expr_columns e \<and> tables b = Some t)"
proof (induction e arbitrary: m)
  case (PColumn col)
  then show ?case by (auto dest!: listed_insert_column split: option.splits)
next
  case (PBoolChain i s op ts)
  then have "listed m t c \<or> (\<exists>e \<in> set ts. \<exists>b. (b, c) \<in> expr_columns e \<and> tables b = Some t)"
    by (intro fold_listed [where f = "collect_referenced_columns_expr tables"]) auto
  then show ?case by auto
qed (force+)

lemma fold_stored:
  assumes "\<And>x m. x \<in> set xs \<Longrightarrow> stored m t c \<or> P x \<Longrightarrow> stored (f x m) t c"
  shows "stored m t c \<or> (\<exists>x \<in> set xs. P x) \<Longrightarrow> stored (fold f xs m) t c"
  using assms
proof (induction xs arbitrary: m)
  case (Cons x xs)
  from Cons.prems(1) have "stored (f x m) t c \<or> (\<exists>y \<in> set xs. P y)" using Cons.prems(2) [of x m] by auto
  with Cons.IH [of "f x m"] Cons.prems(2) show ?case by simp
qed simp

lemma collect_expr_stored:
  "stored m t c \<or> (\<exists>b. (b, c) \<in> expr_columns e \<and> tables b = Some t) \<Longrightarrow> stored (collect_referenced_columns_expr tables e m) t c"
proof (induction e arbitrary: m)
  case (PColumn col)
  then show ?case by (auto simp: stored_insert_column split: option.splits)
next
  case (PBoolChain i s op ts)
  then have "stored m t c \<or> (\<exists>e \<in> set ts. \<exists>b. (b, c) \<in> expr_columns e \<and> tables b = Some t)" by auto
  with PBoolChain.IH have "stored (fold (collect_referenced_columns_expr tables) ts m) t c"
    by (intro fold_stored [where f = "collect_referenced_columns_expr tables"]) auto
  then show ?case by simp
qed (force+)

lemma listed_start: "\<not> listed (fold or_default_table names []) t c"
proof
  have step: "listed m t c \<or> False" if "listed (or_default_table x m) t c" for x m
    using that set_bt_insert_subset [of x "[]" m] by (fastforce simp: listed_def or_default_table_def split: option.splits)
  assume "listed (fold or_default_table names []) t c"
  then have "listed [] t c \<or> (\<exists>x \<in> set names. False)" by (rule fold_listed [rotated]) (rule step)
  then show False by (simp add: listed_def)
qed

lemma collected_columns:
  fixes s :: parsed_select and tables :: "str \<rightharpoonup> str" and names :: "str list"
  defines "sets \<equiv> collect_referenced_columns_select s tables (fold or_default_table names [])"
  shows "listed sets t c \<Longrightarrow> \<exists>e \<in> set (collected_exprs s). \<exists>b. (b, c) \<in> expr_columns e \<and> tables b = Some t"
    and "e \<in> set (collected_exprs s) \<Longrightarrow> (b, c) \<in> expr_columns e \<Longrightarrow> tables b = Some t \<Longrightarrow> listed sets t c"
proof -
  let ?P = "\<lambda>e. \<exists>b. (b, c) \<in> expr_columns e \<and> tables b = Some t"
  show "\<exists>e \<in> set (collected_exprs s). \<exists>b. (b, c) \<in> expr_columns e \<and> tables b = Some t" if "listed sets t c"
    using that fold_listed [of "collected_exprs s" "collect_referenced_columns_expr tables" t c ?P, OF collect_expr_listed]
      listed_start unfolding sets_def collect_referenced_columns_select_def by blast
  show "listed sets t c" if "e \<in> set (collected_exprs s)" "(b, c) \<in> expr_columns e" "tables b = Some t"
    using that fold_stored [of "collected_exprs s" t c ?P "collect_referenced_columns_expr tables", OF collect_expr_stored]
    unfolding sets_def collect_referenced_columns_select_def by (blast intro: stored_listed)
qed

definition referenced_of :: "str \<Rightarrow> schema_column \<Rightarrow> referenced_column" where
  "referenced_of name c =
     \<lparr>rfc_name = name, rfc_type = declared_type_for_sql_type (sc_sql_type c), rfc_nullability = sc_nullability c\<rparr>"

text \<open>Every column of the collected tables is in the catalog, so the collection does not panic, and lists all columns.\<close>

lemma those_map_ex:
  assumes "\<forall>x \<in> set xs. \<exists>y. f x = Some y"
  shows "\<exists>ys. those (map f xs) = Some ys \<and> (\<forall>x \<in> set xs. \<exists>y \<in> set ys. f x = Some y)"
  using assms by (induction xs) auto

lemma collect_referenced_tables_total:
  assumes sel: "psq_select parsed = Some s"
    and known: "\<forall>e \<in> set (collected_exprs s). \<forall>(b, c) \<in> expr_columns e. \<forall>t. map_of (rev pairs) b = Some t \<longrightarrow>
      lookup_column_by_display_name cat t c \<noteq> None"
  shows "\<exists>ts. collect_referenced_tables parsed pairs cat = Some ts
    \<and> (\<forall>e \<in> set (collected_exprs s). \<forall>(b, c) \<in> expr_columns e. \<forall>t col. map_of (rev pairs) b = Some t \<longrightarrow>
        lookup_column_by_display_name cat t c = Some col \<longrightarrow>
        (\<exists>rt \<in> set ts. rft_name rt = t \<and> referenced_of c col \<in> set (rft_columns rt)))"
proof -
  let ?tables = "map_of (rev pairs)"
  let ?sets = "collect_referenced_columns_select s ?tables (fold or_default_table (map (\<lambda>b. the (?tables b)) (remdups (map fst pairs))) [])"
  let ?entry = "\<lambda>(table, names). map_option (\<lambda>cs. \<lparr>rft_name = table, rft_columns = cs\<rparr>)
    (those (map (\<lambda>(n, _). referenced_column_of cat table n) names))"
  have found: "\<exists>col. lookup_column_by_display_name cat t c = Some col" if "listed ?sets t c" for t c
    using collected_columns(1) [OF that] known by fast
  have entry: "\<exists>cs. ?entry (t, names) = Some \<lparr>rft_name = t, rft_columns = cs\<rparr>
      \<and> (\<forall>c \<in> fst ` set names. \<forall>col. lookup_column_by_display_name cat t c = Some col \<longrightarrow> referenced_of c col \<in> set cs)"
    if "(t, names) \<in> set ?sets" for t names
  proof -
    have "\<exists>y. referenced_column_of cat t n = Some y" if "(n, u) \<in> set names" for n u
    proof -
      from that \<open>(t, names) \<in> set ?sets\<close> have "listed ?sets t n" unfolding listed_def by force
      from found [OF this] show ?thesis by (auto simp: referenced_column_of_def)
    qed
    then have "\<forall>x \<in> set names. \<exists>y. (\<lambda>(n, _). referenced_column_of cat t n) x = Some y" by auto
    from those_map_ex [OF this] obtain cs where cs: "those (map (\<lambda>(n, _). referenced_column_of cat t n) names) = Some cs"
      "\<forall>x \<in> set names. \<exists>y \<in> set cs. (\<lambda>(n, _). referenced_column_of cat t n) x = Some y" by blast
    have "referenced_of c col \<in> set cs" if "c \<in> fst ` set names" "lookup_column_by_display_name cat t c = Some col" for c col
    proof -
      from that(1) obtain u where "(c, u) \<in> set names" by auto
      with bspec [OF cs(2)] have "\<exists>y \<in> set cs. referenced_column_of cat t c = Some y" by fastforce
      with that(2) show ?thesis by (auto simp: referenced_column_of_def referenced_of_def)
    qed
    with cs(1) show ?thesis by auto
  qed
  then have "\<forall>x \<in> set ?sets. \<exists>y. ?entry x = Some y" by fast
  from those_map_ex [OF this] obtain ts where ts: "those (map ?entry ?sets) = Some ts" "\<forall>x \<in> set ?sets. \<exists>y \<in> set ts. ?entry x = Some y"
    by blast
  have "\<exists>rt \<in> set ts. rft_name rt = t \<and> referenced_of c col \<in> set (rft_columns rt)"
    if hyps: "e \<in> set (collected_exprs s)" "(b, c) \<in> expr_columns e" "?tables b = Some t"
      "lookup_column_by_display_name cat t c = Some col" for e b c t col
  proof -
    have "listed ?sets t c" by (rule collected_columns(2) [where tables = ?tables, OF hyps(1-3)])
    then obtain names where n: "(t, names) \<in> set ?sets" "c \<in> fst ` set names"
      by (auto simp: listed_def)
    from entry [OF n(1)] n(2) hyps(4) obtain cs where cs: "?entry (t, names) = Some \<lparr>rft_name = t, rft_columns = cs\<rparr>"
      "referenced_of c col \<in> set cs" by blast
    from bspec [OF ts(2) n(1)] obtain y where "y \<in> set ts" "?entry (t, names) = Some y" by blast
    with cs have "\<lparr>rft_name = t, rft_columns = cs\<rparr> \<in> set ts" by simp
    with cs(2) show ?thesis by (intro bexI [of _ "\<lparr>rft_name = t, rft_columns = cs\<rparr>"]) simp_all
  qed
  moreover have "collect_referenced_tables parsed pairs cat = Some ts"
    using ts(1) by (simp add: collect_referenced_tables_def sel)
  ultimately show ?thesis by blast
qed

section \<open>Accepted queries\<close>

lemma pbind_Inr: "pbind m f = Some (Inr b) \<longleftrightarrow> (\<exists>a. m = Some (Inr a) \<and> f a = Some (Inr b))"
  by (auto simp: pbind_def split: option.splits sum.splits)

lemma obind_Some: "obind m f = Some b \<longleftrightarrow> (\<exists>a. m = Some a \<and> f a = Some b)"
  by (auto simp: obind_def split: option.splits)

definition select_pairs :: "checked_select \<Rightarrow> (str \<times> str) list" where
  "select_pairs c = map (\<lambda>b. (cb_binding_name b, cb_table_name b)) (cs_bindings c)"

lemma names_ok_distinct: "names_ok scope bs \<Longrightarrow> distinct (map rb_binding_name bs)"
  unfolding names_ok_def distinct_conv_nth by (metis length_map nth_map option.inject)

lemma select_columns_found:
  assumes cat: "into_catalog brace tables = Inr cat" and c: "resolve_select s cat = Inr c"
    and e: "e \<in> set (collected_exprs s)" "(b, col) \<in> expr_columns e"
  shows "\<exists>bd \<in> set (cs_bindings c). cb_binding_name bd = b \<and> map_of (rev (select_pairs c)) b = Some (cb_table_name bd)
    \<and> (\<exists>sc. lookup_column_by_display_name cat (cb_table_name bd) col = Some sc)"
proof -
  note built = into_catalog_built [OF cat]
  from resolve_select_known [OF build_catalog_wf [OF built(1)] c] obtain scope bs env
    where names: "names_ok scope bs" and ok: "bindings_ok cat scope bs" and cb: "cs_bindings c = map (checked_target_binding env cat) bs"
    and known: "known cat scope bs (b, col)" using e by blast
  from known obtain i k where i: "i < length bs" "bt_get scope b = Some i"
    "st_columns_by_name (ct_table cat (rb_table (bs ! i))) col = Some k" by (auto simp: known_def)
  let ?bd = "checked_target_binding env cat (bs ! i)"
  have name: "rb_binding_name (bs ! i) = b" using names i(2) by (simp add: names_ok_def)
  have bd: "?bd \<in> set (cs_bindings c)" "cb_binding_name ?bd = b" "cb_table_name ?bd = display_name (ct_table cat (rb_table (bs ! i)))"
    using i(1) name by (auto simp: cb checked_target_binding_def)
  have "map fst (select_pairs c) = map rb_binding_name bs" by (simp add: select_pairs_def cb comp_def checked_target_binding_def)
  with names_ok_distinct [OF names] have "distinct (map fst (rev (select_pairs c)))" by (metis distinct_rev rev_map)
  moreover have "(b, cb_table_name ?bd) \<in> set (rev (select_pairs c))" using bd by (force simp: select_pairs_def)
  ultimately have "map_of (rev (select_pairs c)) b = Some (cb_table_name ?bd)" by (rule map_of_is_SomeI)
  moreover have "rb_table (bs ! i) < length (ct_tables cat)" using ok i(1) by (simp add: bindings_ok_def)
  ultimately show ?thesis using bd lookup_known [OF built(2) _ i(3)] by auto
qed

lemma collect_referenced_tables_select:
  assumes cat: "into_catalog brace tables = Inr cat" and c: "resolve_select s cat = Inr c" and sel: "psq_select parsed = Some s"
  shows "\<exists>ts. collect_referenced_tables parsed (select_pairs c) cat = Some ts
    \<and> (\<forall>e \<in> set (collected_exprs s). \<forall>(b, col) \<in> expr_columns e. \<exists>bd \<in> set (cs_bindings c). \<exists>sc. cb_binding_name bd = b
        \<and> lookup_column_by_display_name cat (cb_table_name bd) col = Some sc
        \<and> (\<exists>rt \<in> set ts. rft_name rt = cb_table_name bd \<and> referenced_of col sc \<in> set (rft_columns rt)))"
proof -
  note found = select_columns_found [OF cat c]
  have "\<forall>e \<in> set (collected_exprs s). \<forall>(b, col) \<in> expr_columns e. \<forall>t. map_of (rev (select_pairs c)) b = Some t \<longrightarrow>
      lookup_column_by_display_name cat t col \<noteq> None"
    using found by fastforce
  from collect_referenced_tables_total [OF sel this] obtain ts where ts: "collect_referenced_tables parsed (select_pairs c) cat = Some ts"
    and all: "\<forall>e \<in> set (collected_exprs s). \<forall>(b, col) \<in> expr_columns e. \<forall>t sc. map_of (rev (select_pairs c)) b = Some t \<longrightarrow>
        lookup_column_by_display_name cat t col = Some sc \<longrightarrow>
        (\<exists>rt \<in> set ts. rft_name rt = t \<and> referenced_of col sc \<in> set (rft_columns rt))" by blast
  have "\<exists>bd \<in> set (cs_bindings c). \<exists>sc. cb_binding_name bd = b
      \<and> lookup_column_by_display_name cat (cb_table_name bd) col = Some sc
      \<and> (\<exists>rt \<in> set ts. rft_name rt = cb_table_name bd \<and> referenced_of col sc \<in> set (rft_columns rt))"
    if "e \<in> set (collected_exprs s)" "(b, col) \<in> expr_columns e" for e b col
    using found [OF that] all that by fast
  with ts show ?thesis by blast
qed

text \<open>A column of a table of the live database, as the check reads it.\<close>

definition live_column :: "live_client \<Rightarrow> str \<Rightarrow> str \<Rightarrow> (oid \<times> nullability) option" where
  "live_column C table name =
     (case load_table_columns_with_client C table of
        Inl _ \<Rightarrow> None
      | Inr cols \<Rightarrow> map_option (\<lambda>c. (tm_oid (tc_type c), tc_nullability c)) (find (\<lambda>c. tc_name c = name) cols))"

lemma table_matches_live:
  "table_matches C rt \<Longrightarrow> referenced_of name sc \<in> set (rft_columns rt) \<Longrightarrow>
   live_column C (rft_name rt) name = Some (dt_oid (declared_type_for_sql_type (sc_sql_type sc)), sc_nullability sc)"
  by (fastforce simp: table_matches_def column_matches_def live_column_def referenced_of_def)

lemma resolve_query_select:
  assumes "resolve_statement st cat = Inr checked" "ckst_kind checked = SkQuery"
  shows "\<exists>s c. as_select st = Some s \<and> resolve_select s cat = Inr c \<and> ckst_body checked = CkSelect c \<and> ckst_result checked = ResRows"
  using assms by (cases "pst_kind st") (auto simp: resolve_statement_def checked_statement_of_def ok_or_def elim!: bindr_InrE split: option.splits)

lemma parsed_select_eq: "parse_typed_sql_source P src = Inr parsed \<Longrightarrow> psq_select parsed = as_select (psq_statement parsed)"
  by (auto simp: parse_typed_sql_source_def parsed_sql_new_def elim!: bindr_InrE)

lemma emit_query_accepted:
  assumes "emit_query_tokens J fd lowered = Some (Inr out)"
  shows "\<exists>sql params row. out = EmitQuery sql params row \<and> em_sql sql = lq_sql lowered"
  using assms by (auto simp: emit_query_tokens_def pbind_Inr obind_Some emit_sql_def split: if_splits)

lemma compile_query_accepted:
  fixes input :: "'s front_door_input"
  assumes "compile_typed_query J P E input EpQuery = Some (Inr out)"
  shows "\<exists>(fd :: 's front_door) parsed s c lowered sql params row.
    into_catalog (fi_brace input) (fi_tables input) = Inr (fd_catalog fd) \<and> parse_typed_sql_source P (pq_source (fi_sql input)) = Inr parsed
    \<and> psq_select parsed = Some s \<and> resolve_select s (fd_catalog fd) = Inr c \<and> lower_select parsed c = Some (Inr lowered)
    \<and> verify_live_schema E fd parsed c lowered = Some (Inr ()) \<and> out = EmitQuery sql params row \<and> em_sql sql = lq_sql lowered"
proof -
  from assms obtain fd parsed checked lowered where fd: "into_front_door input = Inr fd"
    and parsed: "public_parse_with J (fd_sql fd) (parse_typed_sql_source P) = Inr parsed"
    and checked: "resolve_statement (psq_statement parsed) (fd_catalog fd) = Inr checked"
    and entry: "enforce_entrypoint_contract J fd checked EpQuery = Inr ()"
    and lowered: "map_option (map_err (front_syn_error J fd)) (lower_statement parsed checked) = Some (Inr lowered)"
    and verified: "live_check J E fd parsed checked lowered = Some (Inr ())"
    and emitted: "emit_tokens J fd checked lowered = Some (Inr out)"
    unfolding compile_typed_query_def pbind_Inr by (auto simp: unit_eq)
  have cat: "into_catalog (fi_brace input) (fi_tables input) = Inr (fd_catalog fd)" "fd_sql fd = fi_sql input"
    using fd by (auto simp: into_front_door_def elim!: bindr_InrE)
  have p: "parse_typed_sql_source P (pq_source (fi_sql input)) = Inr parsed" using parsed by (simp add: public_parse_with_def cat(2))
  from entry have "ckst_kind checked = SkQuery" by (auto simp: enforce_entrypoint_contract_def split: if_splits)
  from resolve_query_select [OF checked this] obtain s c where s: "as_select (psq_statement parsed) = Some s"
    "resolve_select s (fd_catalog fd) = Inr c" "ckst_body checked = CkSelect c" "ckst_result checked = ResRows" by blast
  have sel: "psq_select parsed = Some s" using parsed_select_eq [OF p] s(1) by simp
  have "lower_select parsed c = Some (Inr lowered)" using lowered s(3) by (auto simp: lower_statement_def)
  moreover have "verify_live_schema E fd parsed c lowered = Some (Inr ())" using verified s(3) sel by (auto simp: live_check_def)
  moreover have "\<exists>sql params row. out = EmitQuery sql params row \<and> em_sql sql = lq_sql lowered"
    using emitted s(4) by (intro emit_query_accepted) (simp add: emit_tokens_def)
  ultimately show ?thesis using cat(1) p sel s(2) by blast
qed

section \<open>Panics\<close>

lemma lower_runtime_base: "lower_runtime_codec t nb span = Inr c \<Longrightarrow> base_codec_of t \<noteq> None"
  by (auto simp: lower_runtime_codec_def split: option.splits)

lemma explicit_codec_total:
  assumes "\<forall>(name, t, nb) \<in> set fs. base_codec_of t \<noteq> None"
  shows "explicit_codec_tokens ty fs \<noteq> None"
proof -
  have "\<forall>x \<in> set fs. \<exists>y. (\<lambda>(name, t, nb). case runtime_codec_tokens t nb None of Inl _ \<Rightarrow> None | Inr tokens \<Rightarrow> Some (name, tokens)) x = Some y"
    using assms by (fastforce simp: runtime_codec_tokens_def lower_runtime_codec_def)
  from those_map_ex [OF this] show ?thesis by (auto simp: explicit_codec_tokens_def)
qed

definition codecs_known :: "lowered_query \<Rightarrow> bool" where
  "codecs_known q \<longleftrightarrow> (\<forall>p \<in> set (lq_parameters q). base_codec_of (lp_sql_type p) \<noteq> None)
     \<and> (\<forall>c \<in> set (lq_columns q). base_codec_of (lc_sql_type c) \<noteq> None)"

lemma collect_r_elems: "collect_r f xs = Inr ys \<Longrightarrow> y \<in> set ys \<Longrightarrow> \<exists>x \<in> set xs. f x = Inr y"
  by (auto simp: collect_r_eq_Inr_iff list_all2_conv_all_nth in_set_conv_nth) (metis nth_mem)

lemma lower_dml_codecs:
  assumes "lower_dml parsed ps prs renderer toggles = Inr q"
  shows "codecs_known q"
proof -
  from assms have "collect_r (lower_parameter parsed) ps = Inr (lq_parameters q)" "collect_r lower_projection prs = Inr (lq_columns q)"
    by (auto simp: lower_dml_def elim!: bindr_InrE)
  then have "\<forall>p \<in> set (lq_parameters q). \<exists>x. lower_parameter parsed x = Inr p" "\<forall>c \<in> set (lq_columns q). \<exists>x. lower_projection x = Inr c"
    by (blast dest: collect_r_elems)+
  then show ?thesis unfolding codecs_known_def lower_parameter_def lower_projection_def Let_def
    by (fastforce elim!: bindr_InrE dest!: lower_runtime_base)
qed

lemma lower_statement_codecs: "lower_statement parsed checked = Some (Inr q) \<Longrightarrow> codecs_known q"
  by (auto simp: lower_statement_def lower_select_def lower_insert_def lower_update_def lower_delete_def lower_dml_codecs
      split: checked_statement_body.splits)

lemma selected_codecs_total: "codecs_known q \<Longrightarrow> selected_parameter_codec sel q \<noteq> None \<and> selected_row_codec sel q \<noteq> None"
  using explicit_codec_total [of "map (\<lambda>p. (lp_logical_name p, lp_sql_type p, lp_nullability p)) (lq_parameters q)"]
    explicit_codec_total [of "map (\<lambda>c. (lc_label c, lc_sql_type c, lc_nullability c)) (lq_columns q)"]
  by (cases sel) (auto simp: codecs_known_def explicit_parameter_codec_tokens_def explicit_row_codec_tokens_def)

lemma lower_statement_total:
  assumes "resolve_statement (psq_statement parsed) cat = Inr checked" "psq_select parsed = as_select (psq_statement parsed)"
  shows "lower_statement parsed checked \<noteq> None"
  using assms
  by (auto simp: resolve_statement_def checked_statement_of_def ok_or_def lower_statement_def lower_select_def lower_insert_def
      lower_update_def lower_delete_def parsed_insert_of_def parsed_update_of_def parsed_delete_of_def elim!: bindr_InrE
      split: statement_kind.splits parsed_statement_body.splits row_statement_body.splits command_statement_body.splits option.splits)

lemma pbind_None: "pbind m f = None \<longleftrightarrow> m = None \<or> (\<exists>a. m = Some (Inr a) \<and> f a = None)"
  by (auto simp: pbind_def split: option.splits sum.splits)

lemma obind_None: "obind m f = None \<longleftrightarrow> m = None \<or> (\<exists>a. m = Some a \<and> f a = None)"
  by (auto simp: obind_def split: option.splits)

lemma emit_panics:
  assumes "codecs_known q" "emit_query_tokens J fd q = None \<or> emit_command_tokens J fd q = None"
  shows "is_dynamic q \<and> runtime_sql_shapes q (optional_parameters q) = None"
  using assms(2) selected_codecs_total [OF assms(1), of "fd_params fd"] selected_codecs_total [OF assms(1), of "fd_row fd"]
  by (auto simp: emit_query_tokens_def emit_command_tokens_def pbind_None obind_None emit_sql_def split: if_splits)

lemma verify_live_total:
  assumes "into_catalog brace tables = Inr (fd_catalog fd)" "resolve_select s (fd_catalog fd) = Inr c" "psq_select parsed = Some s"
  shows "verify_live_schema E fd parsed c lowered \<noteq> None"
  using collect_referenced_tables_select [OF assms] by (auto simp: verify_live_schema_def select_pairs_def)

text \<open>
  The only panic of the macro is in the table of shapes of a dynamic statement: lowering finds the body it expects,
  every referenced column is in the catalog, and all codecs of the lowered statement exist.
\<close>

theorem compile_panics_only_in_shapes:
  assumes "compile_typed_query J P E input entrypoint = None"
  shows "\<exists>parsed checked lowered. parse_typed_sql_source P (pq_source (fi_sql input)) = Inr parsed
    \<and> lower_statement parsed checked = Some (Inr lowered)
    \<and> is_dynamic lowered \<and> runtime_sql_shapes lowered (optional_parameters lowered) = None"
proof (cases "into_front_door input")
  case (Inr fd)
  then have cat: "into_catalog (fi_brace input) (fi_tables input) = Inr (fd_catalog fd)" and sql: "fd_sql fd = fi_sql input"
    by (auto simp: into_front_door_def elim!: bindr_InrE)
  from assms Inr obtain parsed where p: "public_parse_with J (fd_sql fd) (parse_typed_sql_source P) = Inr parsed"
    and rest: "pbind (Some (map_err (front_syn_error J fd) (resolve_statement (psq_statement parsed) (fd_catalog fd)))) (\<lambda>checked.
     pbind (Some (enforce_entrypoint_contract J fd checked entrypoint)) (\<lambda>_.
     pbind (map_option (map_err (front_syn_error J fd)) (lower_statement parsed checked)) (\<lambda>lowered.
     pbind (live_check J E fd parsed checked lowered) (\<lambda>_.
     emit_tokens J fd checked lowered)))) = None"
    by (auto simp: compile_typed_query_def pbind_None)
  have src: "parse_typed_sql_source P (pq_source (fi_sql input)) = Inr parsed" using p by (simp add: public_parse_with_def sql)
  note select = parsed_select_eq [OF src]
  from rest obtain checked where checked: "resolve_statement (psq_statement parsed) (fd_catalog fd) = Inr checked"
    and rest': "pbind (map_option (map_err (front_syn_error J fd)) (lower_statement parsed checked)) (\<lambda>lowered.
     pbind (live_check J E fd parsed checked lowered) (\<lambda>_.
     emit_tokens J fd checked lowered)) = None"
    by (auto simp: pbind_None)
  obtain lowered where low: "lower_statement parsed checked = Some (Inr lowered)" and after:
    "pbind (live_check J E fd parsed checked lowered) (\<lambda>_.
     emit_tokens J fd checked lowered) = None"
    using rest' lower_statement_total [OF checked select] by (auto simp: pbind_None)
  have live: "verify_live_schema E fd parsed c lowered \<noteq> None" if "ckst_body checked = CkSelect c" "psq_select parsed = Some s" for c s
  proof -
    from checked that(1) have "ckst_kind checked = SkQuery"
      by (auto simp: resolve_statement_def checked_statement_of_def elim!: bindr_InrE split: statement_kind.splits)
    from resolve_query_select [OF checked this] that select have "resolve_select s (fd_catalog fd) = Inr c" by auto
    from verify_live_total [OF cat this that(2)] show ?thesis .
  qed
  have "live_check J E fd parsed checked lowered \<noteq> None"
    using live unfolding live_check_def by (cases "ckst_body checked"; cases "psq_select parsed") auto
  with after have "emit_query_tokens J fd lowered = None \<or> emit_command_tokens J fd lowered = None"
    unfolding pbind_None by (cases "ckst_result checked") (auto simp: emit_tokens_def)
  from emit_panics [OF lower_statement_codecs [OF low] this] src low show ?thesis by blast
qed (use assms in \<open>simp add: compile_typed_query_def pbind_def\<close>)

section \<open>Properties\<close>


definition front_sql :: str where
  "front_sql = ''SELECT u.a FROM t u WHERE u.a = $x''"

definition front_ast :: ast_query where
  "front_ast = select_of (column_at 8 ''a'') (equals_at 27 ''a'' (VPlaceholder ''$1'') 2)"


definition front_source :: sql_source where
  "front_source = \<lparr>
     sq_original_sql = ''SELECT u.a FROM t u WHERE u.a = $x'', sq_canonical_sql = ''SELECT u.a FROM t u WHERE u.a = $1'',
     sq_replacements = [\<lparr>rp_canonical = span_new 32 34, rp_original = span_new 32 34\<rparr>],
     sq_placeholders = [\<lparr>pe_id = 0, pe_name = ''x'', pe_slot = 1,
       pe_occurrences = [\<lparr>oc_original_span = span_new 32 34, oc_canonical_span = span_new 32 34, oc_optional = False\<rparr>]\<rparr>],
     sq_optional_groups = [], sq_line_starts = [0]\<rparr>"

definition front_name :: "str \<Rightarrow> nat \<Rightarrow> ident_syntax" where
  "front_name v a = \<lparr>id_value = v, id_span = span_new a (Suc a)\<rparr>"

definition front_column :: "nat \<Rightarrow> nat \<Rightarrow> parsed_expr" where
  "front_column i a = PColumn \<lparr>cr_id = i, cr_span = span_new a (a + 3), cr_binding = front_name ''u'' a, cr_column = front_name ''a'' (a + 2)\<rparr>"

definition front_select :: parsed_select where
  "front_select = \<lparr>ps_id = 6, ps_span = span_new 0 1,
     ps_projections = [\<lparr>pp_id = 1, pp_span = span_new 7 10, pp_expr = front_column 2 7, pp_output_name = ONImplicit (front_name ''a'' 9)\<rparr>],
     ps_from = \<lparr>pf_id = 0, pf_span = span_new 16 19, pf_table_name = \<lparr>on_parts = [front_name ''t'' 16], on_span = span_new 16 17\<rparr>,
       pf_binding_name = front_name ''u'' 18\<rparr>,
     ps_joins = [],
     ps_filter = Some (PBinary 3 (span_new 26 34) OpEq (front_column 4 26)
       (PPlaceholder \<lparr>pr_id = 5, pr_span = span_new 32 34, pr_placeholder_id = 0, pr_name = ''x'', pr_slot = 1, pr_optional = False\<rparr>)),
     ps_order_by = [], ps_limit = None, ps_offset = None\<rparr>"

definition front_statement :: parsed_statement where
  "front_statement = \<lparr>pst_kind = SkQuery, pst_result = ResRows, pst_body = BodyRows \<lparr>prs_kind = RowSelect,
     prs_shape = [\<lparr>pc_id = 1, pc_span = span_new 7 10, pc_output_name = ONImplicit (front_name ''a'' 9)\<rparr>], prs_body = RSelect front_select\<rparr>\<rparr>"

lemma front_canonical: "canonicalize front_sql = Inr front_source"
  by code_simp

lemma front_normalized: "normalize_statement front_source (StQuery front_ast) = Inr front_statement"
  by code_simp

definition front_tables :: "nat schema_table_input list" where
  "front_tables = [\<lparr>sti_schema = Some ''public'', sti_name = ''t'', sti_span = 0,
     sti_columns = [\<lparr>sci_name = ''a'', sci_span = 0, sci_type = CtBase ''int4'' 0\<rparr>]\<rparr>]"

definition front_catalog :: schema_catalog where
  "front_catalog = projr (into_catalog 0 front_tables)"


definition front_checked :: checked_select where
  "front_checked = \<lparr>cs_bindings = [\<lparr>cb_id = 0, cb_binding_name = ''u'', cb_table_name = ''public.t'', cb_nullability = NonNull\<rparr>],
     cs_projections = [\<lparr>cj_ordinal = 0, cj_output_name = ''a'', cj_sql_type = TyInt4, cj_nullability = NonNull,
       cj_expr = CheckedExpr (span_new 7 10) ValueExpr TyInt4 NonNull
         (CColumn \<lparr>rc_binding = 0, rc_table = 0, rc_column = 0, rc_span = span_new 7 10\<rparr>)\<rparr>],
     cs_filter = Some (CheckedExpr (span_new 26 34) PredicateExpr TyBool NonNull (CBinary OpEq
       (CheckedExpr (span_new 26 29) ValueExpr TyInt4 NonNull (CColumn \<lparr>rc_binding = 0, rc_table = 0, rc_column = 0, rc_span = span_new 26 29\<rparr>))
       (CheckedExpr (span_new 32 34) ValueExpr TyInt4 NonNull
         (CPlaceholder \<lparr>rp_id = 0, rp_name = ''x'', rp_slot = 1, rp_span = span_new 32 34, rp_optional = False\<rparr>)))),
     cs_joins = [], cs_order_by = [], cs_limit = None, cs_offset = None,
     cs_parameters = [\<lparr>cp_id = 0, cp_name = ''x'', cp_slot = 1, cp_sql_type = TyInt4, cp_nullability = NonNull, cp_optional = False\<rparr>]\<rparr>"

definition front_lowered :: lowered_query where
  "front_lowered = \<lparr>lq_sql = ''SELECT u.a FROM t AS u WHERE (u.a = $1)'',
     lq_parameters = [\<lparr>lp_id = 0, lp_logical_name = ''x'', lp_position = 1, lp_sql_type = TyInt4, lp_nullability = NonNull,
       lp_optional = False, lp_codec = RcBase RcInt4\<rparr>],
     lq_columns = [\<lparr>lc_label = ''a'', lc_sql_type = TyInt4, lc_nullability = NonNull, lc_codec = RcBase RcInt4\<rparr>],
     lq_renderer = RenderSelect front_select, lq_toggle_group_ids = []\<rparr>"

definition front_parser :: sql_parser where
  "front_parser = \<lparr>sp_parse = (\<lambda>_. Inr [StQuery front_ast]), sp_tokenize = (\<lambda>_. Inl []), sp_unicode_lowercase_first = id\<rparr>"

definition front_client :: live_client where
  "front_client = \<lparr>lv_prepare = (\<lambda>sql. if sql = lq_sql front_lowered
       then Inr \<lparr>sm_params = [\<lparr>tm_oid = 23, tm_name = ''int4''\<rparr>],
         sm_columns = [\<lparr>cm_name = ''a'', cm_type = \<lparr>tm_oid = 23, tm_name = ''int4''\<rparr>\<rparr>]\<rparr>
       else Inl (PgOther ''syntax error'')),
     lv_regclass = (\<lambda>name. Inr (if name = ''public.t'' then Some 16384 else None)),
     lv_attributes = (\<lambda>_. Inr [(''a'', 23, ''int4'', False), (''b'', 25, ''text'', True)])\<rparr>"

definition front_env :: build_env where
  "front_env = \<lparr>be_var = (\<lambda>name. if name = ''DATABASE_URL'' then Some (EnvText ''postgres://localhost/app'') else None),
     be_config_error = (\<lambda>_. None), be_connect = (\<lambda>url. if url = ''postgres://localhost/app'' then Inr front_client else Inl ''refused'')\<rparr>"

definition front_input :: "nat front_door_input" where
  "front_input = \<lparr>fi_source_kind = SchemaInline, fi_brace = 0, fi_tables = front_tables, fi_params = SelDefault, fi_row = SelExplicit ''Row'',
     fi_sql = \<lparr>pq_source = front_source, pq_segments = []\<rparr>\<rparr>"

definition front_emitted :: emitted where
  "front_emitted = EmitQuery \<lparr>em_sql = ''SELECT u.a FROM t AS u WHERE (u.a = $1)'', em_n_params = 1, em_shapes = None\<rparr>
     (CodecTuple [''::babar::codec::int4'']) (CodecFields ''Row'' [(''a'', ''::babar::codec::int4'')])"

definition front_open :: "nat front_door" where
  "front_open = \<lparr>fd_source_kind = SchemaInline, fd_catalog = front_catalog, fd_params = SelDefault, fd_row = SelExplicit ''Row'',
     fd_sql = \<lparr>pq_source = front_source, pq_segments = []\<rparr>\<rparr>"

lemma front_catalog_built: "into_catalog 0 front_tables = Inr front_catalog"
proof -
  have "\<not> isl (into_catalog 0 front_tables)" by code_simp
  then show ?thesis unfolding front_catalog_def by (cases "into_catalog 0 front_tables") auto
qed

lemma front_resolved: "resolve_statement front_statement front_catalog = Inr \<lparr>ckst_kind = SkQuery, ckst_result = ResRows, ckst_body = CkSelect front_checked\<rparr>"
  by code_simp

lemma front_lowers: "lower_select (parsed_sql_new front_source front_statement) front_checked = Some (Inr front_lowered)"
  by code_simp

lemma front_verified: "verify_live_schema front_env front_open (parsed_sql_new front_source front_statement) front_checked front_lowered = Some (Inr ())"
  by code_simp

lemma front_emits: "emit_query_tokens demo_ops front_open front_lowered = Some (Inr front_emitted)"
  by code_simp

lemma front_probe: "discover front_env = Inr (Some \<lparr>pb_source = DatabaseUrl, pb_database_url = ''postgres://localhost/app''\<rparr>)"
  by code_simp

lemma front_parsed: "parse_typed_sql_source front_parser front_source = Inr (parsed_sql_new front_source front_statement)"
proof -
  have "is_select_body front_ast" by code_simp
  then show ?thesis by (simp add: parse_typed_sql_source_def parse_statement_def front_parser_def front_normalized)
qed

lemma front_accepted: "compile_typed_query demo_ops front_parser front_env front_input EpQuery = Some (Inr front_emitted)"
proof -
  let ?parsed = "parsed_sql_new front_source front_statement"
  have "into_front_door front_input = Inr front_open"
    by (simp add: into_front_door_def front_input_def front_catalog_built front_open_def)
  moreover have "fd_sql front_open = \<lparr>pq_source = front_source, pq_segments = []\<rparr>" "fd_catalog front_open = front_catalog"
    by (simp_all add: front_open_def)
  moreover have "psq_statement ?parsed = front_statement" "psq_select ?parsed = Some front_select"
    by (simp_all add: parsed_sql_new_def front_statement_def as_select_def row_statement_def row_as_select_def)
  ultimately show ?thesis
    by (simp add: compile_typed_query_def pbind_def public_parse_with_def front_parsed front_resolved enforce_entrypoint_contract_def
      lower_statement_def front_lowers live_check_def front_verified emit_tokens_def front_emits)
qed

lemma front_select_resolved: "resolve_select front_select front_catalog = Inr front_checked"
  using front_resolved by (auto simp: resolve_statement_def front_statement_def as_select_def row_statement_def row_as_select_def
      checked_statement_of_def ok_or_def elim!: bindr_InrE)



end
