(* ===== verification/Spec2Isabelle.thy ===== *)
theory Spec2Isabelle
  imports Connection Pool Startup Migration_Runner Codec_Hstore Codec_Postgis Codec_Array Codec_Temporal Typed_Soundness Typed_Shapes
    Typed_Front
begin

text \<open>
  A verification library for babar, a typed PostgreSQL client for Rust (\<open>src/crates/core\<close>) and its
  schema-aware SQL macros (\<open>src/crates/macros\<close>).

  \<^bold>\<open>The program.\<close> A \<open>Session\<close> sends commands to a background driver task, which owns the socket, writes
  frontend messages, decodes the backend messages and answers every command on its reply channel. Start-up
  authenticates the connection before the driver runs. On a session are built prepared statements with a
  cache, row streams, COPY, transactions with savepoints, a connection pool, and a migration runner. Codecs
  turn Rust values into parameter slots and columns into values. The macros take the text of one statement
  with named placeholders, canonicalize, parse and normalize it, resolve and type-check it against declared
  tables, and lower it to SQL and codecs; optional parts of a statement become a table of SQL shapes from
  which the emitted code selects at run time.

  \<^bold>\<open>Foundations.\<close> \<open>Babar_Prelude\<close>: machine integers as words, bytes, results as sums (\<open>Inl\<close> is the error) with
  \<open>bindr\<close> for the question mark, big-endian integers. \<open>Utf8\<close>, \<open>Rust_Text\<close>, \<open>BTree_Map\<close>: the parts of the standard
  library the code uses. \<open>Babar_Error\<close>: \<open>error.rs\<close>, \<open>migration/error.rs\<close>. \<open>Pg_Types\<close>: \<open>types.rs\<close>.

  \<^bold>\<open>Protocol and sessions.\<close>
  \<^item> \<open>Backend_Codec\<close> (\<open>protocol/backend.rs\<close>, \<open>protocol/codec.rs\<close>): decoding inverts the documented layout and does not
    depend on how the stream is cut.
  \<^item> \<open>Frontend\<close> (\<open>protocol/frontend.rs\<close>): the writers, over the \<open>postgres-protocol\<close> crate as a parameter.
  \<^item> \<open>Driver\<close> (\<open>session/driver.rs\<close>): the handler of every message and the run loop as a step relation; every command
    is answered once and in order, errors reach their caller.
  \<^item> \<open>Scram\<close> (\<open>auth/\<close>), \<open>Startup\<close> (\<open>session/startup.rs\<close>, \<open>config.rs\<close>): the exchange succeeds only with a server that knows
    the password, and does not depend on how the stream is cut. Cryptography, randomness and the transport are parameters.
  \<^item> \<open>Statement_Cache\<close> (\<open>session/cache.rs\<close>, \<open>session/type_registry.rs\<close>), \<open>Session\<close> (\<open>session/mod.rs\<close>, \<open>prepared.rs\<close>,
    \<open>stream.rs\<close>), \<open>Copy_In\<close> (\<open>copy.rs\<close>), \<open>Fragment\<close> (\<open>query/\<close>), \<open>Transaction\<close> (\<open>transaction.rs\<close>), \<open>Pool\<close> (\<open>pool.rs\<close>).
  \<^item> \<open>Connection\<close>: the layers composed; a query answered in the wire format returns the encoded values.

  \<^bold>\<open>Codecs.\<close> \<open>Codec_Core\<close> has the interface as the locale \<open>codec_laws\<close>, with \<open>nullable\<close> and tuples; every codec interprets it
  on the values it keeps: \<open>Codec_Primitive\<close>, \<open>Codec_Values\<close> (interval, hardware addresses, bit strings), \<open>Codec_Hstore\<close>,
  \<open>Codec_Postgis\<close>, \<open>Codec_Extension\<close> (vectors, text search, citext), \<open>Codec_Foreign\<close> (UUID, JSON, networks, numeric).
  \<open>Codec_Range\<close> and \<open>Codec_Array\<close> are functions of an inner codec; \<open>Codec_Temporal\<close> has decoders that can panic, so its
  codecs are records of their own. What these codecs take from other crates are parameters with the contracts \<open>range_wire\<close>,
  \<open>array_wire\<close>, \<open>wire_value\<close>, \<open>calendar_crate\<close>, \<open>clock_crate\<close>, \<open>chrono_crate\<close>, \<open>temporal_codec\<close>, each met by the documented format.

  \<^bold>\<open>Migrations.\<close> \<open>Migration_Filename\<close>, \<open>Migration_Model\<close>, \<open>Migration_Plan\<close>, \<open>Migration_Runner\<close> (\<open>migration/\<close>): the catalog, the
  reconciliation with the applied rows, plans, and the statements the runner sends, with the lock always released.

  \<^bold>\<open>Typed SQL.\<close> \<open>Typed_Ir\<close> (\<open>typed_sql/ir.rs\<close>, errors of \<open>mod.rs\<close>), \<open>Typed_Source\<close> (\<open>source.rs\<close>), \<open>Typed_Normalize\<close>
  (\<open>normalize.rs\<close>, \<open>parse_backend.rs\<close>, the entry points of \<open>mod.rs\<close>; the parser is a parameter and its tree the datatypes \<open>ast_...\<close>),
  \<open>Typed_Resolver\<close> (\<open>resolver.rs\<close>), \<open>Typed_Lower\<close> (\<open>lower.rs\<close>); \<open>Typed_Normal_Form\<close> proves that normalization keeps the meaning of a
  SELECT and the form of every statement, \<open>Typed_Soundness\<close> proves the checker sound for SELECT against three-valued SQL with outer joins,
  \<open>Typed_Shapes\<close> that the emitted renderer matches every choice of optional inputs.

  \<^bold>\<open>Macros.\<close> \<open>Typed_Input\<close> (\<open>typed_sql/public_input.rs\<close>): token trees to SQL text with a map of spans, over the spans and literals of
  \<open>proc_macro2\<close> as parameters; errors point to the token they are about. \<open>Sql_Macro\<close> (\<open>macros/src/lib.rs\<close>): the macro \<open>sql!\<close> with nested calls
  keeps the meaning of its input. \<open>Macro_Codecs\<close> (\<open>lib.rs\<close>, \<open>verify.rs\<close>): codec expressions, their declared types, and the inference of
  codecs by the derive; declared types and emitted codecs agree. \<open>Typed_Front\<close> (\<open>typed_sql/public_schema.rs\<close>, \<open>verify.rs\<close>):
  \<open>query!\<close> and \<open>command!\<close> from the schema block to the emitted statement, with the check against a live database at compile time over
  the client as a parameter; an accepted query agrees with the database, and the only panic is in the table of shapes. Syntax trees of the \<open>syn\<close> crate are datatypes with the constructors the
  source matches on.

  \<^bold>\<open>Conventions.\<close> A panic is \<open>None\<close> where it can happen. A future that is dropped is an outcome of its own in \<open>Transaction\<close> and
  a step of the relation in \<open>Pool\<close>. Loops are structural or have termination proofs; there are two bounds. The reader of nested
  geometries takes a depth, and \<open>decode_spatial\<close> passes the number of bytes plus one, which \<open>decode_spatial_answers\<close> shows to be
  enough. The exchange of \<open>Connection\<close> ends with the bytes of the server. A float is its bit pattern; decimal parsing and printing
  of floats are parameters. Byte offsets of the macros are natural numbers below \<open>2\<^sup>3\<^sup>2\<close>.

  \<^bold>\<open>Not modelled.\<close> \<open>tls.rs\<close> and the sockets: calls into \<open>tokio\<close>, \<open>rustls\<close> and \<open>native-tls\<close>; the transport is a parameter of
  \<open>Startup\<close> and \<open>Driver\<close>. \<open>telemetry.rs\<close>: tracing spans. \<open>schema.rs\<close>: type-level markers. \<open>schema_decl.rs\<close>: parses the declaration of a schema with
  \<open>syn\<close> and emits Rust items; the table declarations are the input of \<open>Typed_Front\<close>. The splicing of emitted tokens with \<open>quote\<close>, and the
  \<open>syn\<close> parsers of macro arguments: their results are inputs. The SQL parser and the clients of other crates are parameters. Tests,
  benches, examples and documentation are not part of the implementation.
\<close>

end
